(* ===== verification/Fkst_Prelude.thy ===== *)
theory Fkst_Prelude
  imports Main "HOL-Library.Word" "HOL-Library.List_Lexorder" "HOL-Library.Char_ord"
    "HOL-Library.Sublist"
begin

text \<open>
  Shared vocabulary of the development: the machine integers of the Rust sources with their
  saturating operations, Rust strings as byte lists (a \<^typ>\<open>char\<close> is one UTF-8 byte, and
  the lexicographic order on \<^typ>\<open>string\<close> is the byte order in which an ordered key space
  is iterated), the formatting and parsing functions of the standard library that the sources use
  (zero-padded decimals, hexadecimal bytes, \<open>split\<close>, \<open>splitn\<close>, \<open>join\<close>),
  and the error-or-value results of the fallible functions.
\<close>

named_theorems key_inject \<open>injectivity of the encoded keys\<close>
named_theorems key_shape \<open>characters that occur in the encoded keys\<close>

section \<open>Types\<close>

type_synonym u64 = "64 word"
type_synonym u32 = "32 word"
type_synonym u8 = "8 word"

text \<open>A duration is counted in nanoseconds, the resolution of \<open>std::time::Duration\<close>.\<close>
type_synonym duration = nat

section \<open>Machine integers\<close>

definition u64_max :: u64 where
  "u64_max = 18446744073709551615"

definition u128_max :: nat where
  "u128_max = 340282366920938463463374607431768211455"

text \<open>\<open>u64::saturating_add\<close>, \<open>u64::saturating_sub\<close>, \<open>u128::saturating_mul\<close>
  and \<open>x.min(u64::MAX as u128) as u64\<close>.\<close>

definition sat_add :: "u64 \<Rightarrow> u64 \<Rightarrow> u64" where
  "sat_add a b = (if unat a + unat b < 18446744073709551616 then a + b else u64_max)"

definition sat_sub :: "u64 \<Rightarrow> u64 \<Rightarrow> u64" where
  "sat_sub a b = (if b \<le> a then a - b else 0)"

definition sat_mul128 :: "nat \<Rightarrow> nat \<Rightarrow> nat" where
  "sat_mul128 a b = min (a * b) u128_max"

definition clamp_u64 :: "nat \<Rightarrow> u64" where
  "clamp_u64 n = (if n < 18446744073709551616 then of_nat n else u64_max)"

text \<open>\<open>Duration::as_millis\<close>, \<open>Duration::from_millis\<close>, \<open>Duration::from_secs\<close>
  and the sources' \<open>duration_millis\<close> (the clamped millisecond count).\<close>

definition as_millis :: "duration \<Rightarrow> nat" where
  "as_millis d = d div 1000000"

definition from_millis :: "nat \<Rightarrow> duration" where
  "from_millis ms = ms * 1000000"

definition from_secs :: "nat \<Rightarrow> duration" where
  "from_secs s = s * 1000000000"

section \<open>Fallible results\<close>

fun rbind :: "'e + 'a \<Rightarrow> ('a \<Rightarrow> 'e + 'b) \<Rightarrow> 'e + 'b" where
  "rbind (Inl e) f = Inl e"
| "rbind (Inr x) f = f x"

fun fold_result :: "('s \<Rightarrow> 'x \<Rightarrow> 'e + 's) \<Rightarrow> 's \<Rightarrow> 'x list \<Rightarrow> 'e + 's" where
  "fold_result f s [] = Inr s"
| "fold_result f s (x # xs) = rbind (f s x) (\<lambda>s'. fold_result f s' xs)"

section \<open>Strings\<close>

text \<open>\<open>str::split(c)\<close>, \<open>str::splitn(n, c)\<close> and \<open>[String]::join(sep)\<close>.\<close>

fun split_on :: "char \<Rightarrow> string \<Rightarrow> string list" where
  "split_on c [] = [[]]"
| "split_on c (x # xs) =
     (if x = c then [] # split_on c xs
      else (case split_on c xs of [] \<Rightarrow> [[x]] | s # ss \<Rightarrow> (x # s) # ss))"

text \<open>\<open>str::split_once(c)\<close>: the text before and after the first occurrence.\<close>

fun split_once :: "char \<Rightarrow> string \<Rightarrow> (string \<times> string) option" where
  "split_once c [] = None"
| "split_once c (x # xs) =
     (if x = c then Some ([], xs)
      else map_option (\<lambda>(a, b). (x # a, b)) (split_once c xs))"

fun splitn :: "nat \<Rightarrow> char \<Rightarrow> string \<Rightarrow> string list" where
  "splitn 0 c s = []"
| "splitn (Suc 0) c s = [s]"
| "splitn (Suc (Suc n)) c s =
     (case split_once c s of None \<Rightarrow> [s] | Some (a, b) \<Rightarrow> a # splitn (Suc n) c b)"

fun join :: "string \<Rightarrow> string list \<Rightarrow> string" where
  "join sep [] = []"
| "join sep [s] = s"
| "join sep (s # t # ss) = s @ sep @ join sep (t # ss)"

text \<open>\<open>str::strip_prefix\<close> and \<open>slice::chunks\<close>.\<close>

fun strip_prefix :: "string \<Rightarrow> string \<Rightarrow> string option" where
  "strip_prefix [] s = Some s"
| "strip_prefix (p # ps) [] = None"
| "strip_prefix (p # ps) (x # xs) = (if p = x then strip_prefix ps xs else None)"

function chunks :: "nat \<Rightarrow> 'a list \<Rightarrow> 'a list list" where
  "chunks n xs = (if n = 0 \<or> xs = [] then [] else take n xs # chunks n (drop n xs))"
  by pat_completeness auto
termination
  by (relation "measure (\<lambda>(n, xs). length xs)") auto

declare chunks.simps [simp del]

text \<open>Decimal digits, \<open>{n}\<close> and the zero-padded \<open>{n:0w$}\<close>, and hexadecimal bytes.\<close>

definition digit :: "nat \<Rightarrow> char" where
  "digit n = (char_of (48 + n) :: char)"

fun dec :: "nat \<Rightarrow> string" where
  "dec n = (if n < 10 then [digit n] else dec (n div 10) @ [digit (n mod 10)])"

declare dec.simps [simp del]

definition zpad :: "nat \<Rightarrow> string \<Rightarrow> string" where
  "zpad w s = replicate (w - length s) (CHR ''0'') @ s"

definition fmt20 :: "u64 \<Rightarrow> string" where
  "fmt20 n = zpad 20 (dec (unat n))"

definition hex_lower :: "nat \<Rightarrow> char" where
  "hex_lower n = (if n < 10 then char_of (48 + n) else char_of (87 + n))"

definition hex_upper :: "nat \<Rightarrow> char" where
  "hex_upper n = (if n < 10 then char_of (48 + n) else char_of (55 + n))"

text \<open>\<open>{byte:02x}\<close> and \<open>{byte:02X}\<close> for one byte.\<close>

definition byte_hex :: "char \<Rightarrow> string" where
  "byte_hex c = [hex_lower (of_char c div 16), hex_lower (of_char c mod 16)]"

definition byte_HEX :: "char \<Rightarrow> string" where
  "byte_HEX c = [hex_upper (of_char c div 16), hex_upper (of_char c mod 16)]"

text \<open>\<open>{n:x}\<close>: lower-case hexadecimal without padding.\<close>

fun hexn :: "nat \<Rightarrow> string" where
  "hexn n = (if n < 16 then [hex_lower n] else hexn (n div 16) @ [hex_lower (n mod 16)])"

declare hexn.simps [simp del]

text \<open>\<open>str::parse::<u64>\<close>: an optional plus sign, at least one digit, no overflow.\<close>

definition is_digit :: "char \<Rightarrow> bool" where
  "is_digit c \<longleftrightarrow> 48 \<le> (of_char c :: nat) \<and> (of_char c :: nat) \<le> 57"

definition digits_value :: "string \<Rightarrow> nat" where
  "digits_value s = foldl (\<lambda>acc c. 10 * acc + (of_char c - 48)) 0 s"

definition parse_nat :: "nat \<Rightarrow> string \<Rightarrow> nat option" where
  "parse_nat bound s =
     (let t = (case s of c # cs \<Rightarrow> if c = CHR ''+'' then cs else s | [] \<Rightarrow> [])
      in if t \<noteq> [] \<and> list_all is_digit t \<and> digits_value t < bound
         then Some (digits_value t) else None)"

definition parse_u64 :: "string \<Rightarrow> u64 option" where
  "parse_u64 s = map_option of_nat (parse_nat 18446744073709551616 s)"

text \<open>ASCII letters and digits.\<close>

definition is_alnum :: "char \<Rightarrow> bool" where
  "is_alnum c \<longleftrightarrow> (let n = (of_char c :: nat)
     in 65 \<le> n \<and> n \<le> 90 \<or> 97 \<le> n \<and> n \<le> 122 \<or> 48 \<le> n \<and> n \<le> 57)"

section \<open>Lemmas: machine integers\<close>

lemma unat_u64_less [simp]: "unat (a :: u64) < 18446744073709551616"
proof -
  have "unat a < 2 ^ LENGTH(64)" by (rule unsigned_less)
  then show ?thesis by simp
qed

lemma unat_u64_le [simp]: "unat (a :: u64) \<le> 18446744073709551615"
  using unat_u64_less [of a] by linarith

lemma unat_u64_max [simp]: "unat u64_max = 18446744073709551615"
  by (simp add: u64_max_def)

lemma le_u64_max [simp]: "(a :: u64) \<le> u64_max"
  by (simp add: word_le_nat_alt)

lemma unat_sat_add: "unat (sat_add a b) = min (unat a + unat b) 18446744073709551615"
  by (simp add: sat_add_def unat_word_ariths)

lemma sat_add_ge [simp, intro]: "a \<le> sat_add a b"
  by (simp add: word_le_nat_alt unat_sat_add)

lemma sat_add_ge2 [simp, intro]: "b \<le> sat_add a b"
  by (simp add: word_le_nat_alt unat_sat_add)

lemma sat_add_mono: "a \<le> a' \<Longrightarrow> b \<le> b' \<Longrightarrow> sat_add a b \<le> sat_add a' b'"
  by (simp add: word_le_nat_alt unat_sat_add)

lemma sat_add_assoc: "sat_add (sat_add a b) c = sat_add a (sat_add b c)"
  by (simp add: word_unat_eq_iff unat_sat_add)

lemma sat_add_0 [simp]: "sat_add a 0 = a"
  using unat_u64_less [of a] by (simp add: sat_add_def)

lemma sat_add_1_neq: "a \<noteq> u64_max \<Longrightarrow> sat_add a 1 \<noteq> a"
proof -
  assume "a \<noteq> u64_max"
  then have "unat a \<noteq> 18446744073709551615"
    by (simp add: word_unat_eq_iff)
  with unat_u64_le [of a] have "unat a + 1 \<le> 18446744073709551615" by linarith
  then have "unat (sat_add a 1) = unat a + 1"
    unfolding unat_sat_add by simp
  then show ?thesis by auto
qed

lemma sat_add_1_less: "a < u64_max \<Longrightarrow> a < sat_add a 1"
  by (simp add: order_less_le sat_add_1_neq [symmetric])

lemma unat_clamp_u64: "unat (clamp_u64 n) = min n 18446744073709551615"
  by (simp add: clamp_u64_def unat_of_nat)

lemma clamp_u64_mono: "m \<le> n \<Longrightarrow> clamp_u64 m \<le> clamp_u64 n"
  by (simp add: word_le_nat_alt unat_clamp_u64)

lemma as_millis_from_millis [simp]: "as_millis (from_millis ms) = ms"
  by (simp add: as_millis_def from_millis_def)

section \<open>Lemmas: results\<close>

lemma rbind_eq_Inr: "rbind r f = Inr y \<longleftrightarrow> (\<exists>x. r = Inr x \<and> f x = Inr y)"
  by (cases r) auto

lemma rbind_Inr_E [elim!]:
  assumes "rbind r f = Inr y"
  obtains x where "r = Inr x" and "f x = Inr y"
  using assms by (auto simp: rbind_eq_Inr)

text \<open>An invariant kept by every step of a fallible loop is kept by the loop.\<close>

lemma fold_result_inv:
  assumes "fold_result f s xs = Inr s'" and "P s"
    and "\<And>s x s'. x \<in> set xs \<Longrightarrow> f s x = Inr s' \<Longrightarrow> P s \<Longrightarrow> P s'"
  shows "P s'"
  using assms by (induction xs arbitrary: s) auto

text \<open>A loop whose steps all succeed under an invariant succeeds.\<close>

lemma fold_result_total:
  assumes "P s" and "\<And>s x. x \<in> set xs \<Longrightarrow> P s \<Longrightarrow> \<exists>s'. f s x = Inr s' \<and> P s'"
  shows "\<exists>s'. fold_result f s xs = Inr s' \<and> P s'"
  using assms
proof (induction xs arbitrary: s)
  case Nil
  then show ?case by simp
next
  case (Cons x xs)
  from Cons.prems(2) [of x s] Cons.prems(1) obtain t where t: "f s x = Inr t" and "P t"
    by auto
  from Cons.IH [OF \<open>P t\<close>] Cons.prems(2) obtain u where "fold_result f t xs = Inr u" and "P u"
    by auto
  with t show ?case by auto
qed

section \<open>Lemmas: the order of strings\<close>

lemma append_less_cancel [simp]: "(xs @ ys :: 'a :: linorder list) < xs @ zs \<longleftrightarrow> ys < zs"
  by (induction xs) auto

lemma append_le_cancel [simp]: "(xs @ ys :: 'a :: linorder list) \<le> xs @ zs \<longleftrightarrow> ys \<le> zs"
  by (induction xs) auto

lemma append_less_same_length:
  "length xs = length ys \<Longrightarrow>
   (xs @ us :: 'a :: linorder list) < ys @ vs \<longleftrightarrow> xs < ys \<or> xs = ys \<and> us < vs"
  by (induction xs ys rule: list_induct2) auto

lemma append_le_same_length:
  "length xs = length ys \<Longrightarrow>
   (xs @ us :: 'a :: linorder list) \<le> ys @ vs \<longleftrightarrow> xs < ys \<or> xs = ys \<and> us \<le> vs"
  by (induction xs ys rule: list_induct2) auto

text \<open>A key between two keys that share a prefix has that prefix.\<close>

lemma between_prefix:
  "p @ a \<le> k \<Longrightarrow> k \<le> p @ b \<Longrightarrow> \<exists>c :: 'a :: linorder list. k = p @ c"
proof (induction p arbitrary: k)
  case Nil
  then show ?case by simp
next
  case (Cons x p)
  from Cons.prems(1) obtain y k' where k: "k = y # k'"
    by (cases k) auto
  with Cons.prems have "x = y" by auto
  with Cons.prems k have "p @ a \<le> k'" and "k' \<le> p @ b" by auto
  then obtain c where "k' = p @ c" using Cons.IH by blast
  with k \<open>x = y\<close> show ?case by simp
qed

section \<open>Lemmas: splitting and joining\<close>

lemma split_on_not_Nil [simp]: "split_on c s \<noteq> []"
  by (cases s) (auto split: list.splits)

lemma split_on_no_sep: "c \<notin> set s \<Longrightarrow> split_on c s = [s]"
  by (induction s) auto

lemma split_on_append: "c \<notin> set a \<Longrightarrow> split_on c (a @ c # b) = a # split_on c b"
  by (induction a) (auto split: list.splits)

lemma split_on_join:
  "ss \<noteq> [] \<Longrightarrow> (\<forall>s \<in> set ss. c \<notin> set s) \<Longrightarrow> split_on c (join [c] ss) = ss"
proof (induction "[c]" ss rule: join.induct)
  case (3 s t ss)
  then show ?case by (simp add: split_on_append)
qed (auto simp: split_on_no_sep)

lemma join_split_on: "join [c] (split_on c s) = s"
proof (induction s)
  case (Cons x xs)
  obtain t ts where ts: "split_on c xs = t # ts"
    by (cases "split_on c xs") auto
  with Cons show ?case by (cases ts) auto
qed simp

lemma split_on_parts: "t \<in> set (split_on c s) \<Longrightarrow> c \<notin> set t \<and> set t \<subseteq> set s"
proof (induction s arbitrary: t)
  case (Cons x xs)
  obtain u us where u: "split_on c xs = u # us"
    by (cases "split_on c xs") auto
  with Cons.IH have IH: "\<And>t. t \<in> set (u # us) \<Longrightarrow> c \<notin> set t \<and> set t \<subseteq> set xs" by simp
  show ?case
  proof (cases "x = c")
    case True
    with Cons.prems u IH show ?thesis by fastforce
  next
    case False
    with Cons.prems u consider "t = x # u" | "t \<in> set us" by auto
    then show ?thesis using False IH by cases fastforce+
  qed
qed simp

lemma join_inject:
  assumes "join [c] ss = join [c] ts" and "ss \<noteq> []" and "ts \<noteq> []"
    and "\<forall>s \<in> set ss. c \<notin> set s" and "\<forall>s \<in> set ts. c \<notin> set s"
  shows "ss = ts"
proof -
  from assms(1) have "split_on c (join [c] ss) = split_on c (join [c] ts)" by simp
  with assms(2-5) show ?thesis by (simp add: split_on_join)
qed

lemma set_join: "set (join sep ss) \<subseteq> set sep \<union> \<Union> (set ` set ss)"
  by (induction sep ss rule: join.induct) auto

lemma split_once_append: "c \<notin> set a \<Longrightarrow> split_once c (a @ c # b) = Some (a, b)"
  by (induction a) auto

lemma split_once_None_iff: "split_once c s = None \<longleftrightarrow> c \<notin> set s"
  by (induction s) auto

lemma splitn3_append:
  "c \<notin> set a \<Longrightarrow> c \<notin> set b \<Longrightarrow> splitn 3 c (a @ c # b @ c # d) = [a, b, d]"
  by (simp add: numeral_eq_Suc split_once_append)

lemma splitn2_append: "c \<notin> set a \<Longrightarrow> splitn 2 c (a @ c # b) = [a, b]"
  by (simp add: numeral_eq_Suc split_once_append)

lemma sep_append_inject:
  fixes c :: char
  assumes "a @ c # b = a' @ c # b'" and "c \<notin> set a" and "c \<notin> set a'"
  shows "a = a' \<and> b = b'"
proof -
  from assms(1) have "split_once c (a @ c # b) = split_once c (a' @ c # b')" by simp
  with assms(2,3) show ?thesis by (simp add: split_once_append)
qed

lemma sep_append_eq:
  fixes c :: char
  assumes "c \<notin> set a" and "c \<notin> set a'"
  shows "a @ c # b = a' @ c # b' \<longleftrightarrow> a = a' \<and> b = b'"
  using sep_append_inject [of a c b a' b'] assms by auto

lemma strip_prefix_Some: "strip_prefix p s = Some r \<longleftrightarrow> s = p @ r"
proof (induction p arbitrary: s)
  case (Cons x p)
  then show ?case by (cases s) auto
qed auto

lemma concat_chunks: "0 < n \<Longrightarrow> concat (chunks n xs) = xs"
proof (induction n xs rule: chunks.induct)
  case (1 n xs)
  then show ?case by (cases "xs = []") (simp_all add: chunks.simps [of n])
qed

lemma chunks_length: "ys \<in> set (chunks n xs) \<Longrightarrow> 0 < length ys \<and> length ys \<le> n \<and> set ys \<subseteq> set xs"
proof (induction n xs rule: chunks.induct)
  case (1 n xs)
  show ?case
  proof (cases "n = 0 \<or> xs = []")
    case True
    with 1 show ?thesis by (simp add: chunks.simps [of n xs])
  next
    case False
    with 1 show ?thesis
      by (auto simp: chunks.simps [of n xs] dest: in_set_takeD in_set_dropD)
  qed
qed

lemma chunks_eq_Nil [simp]: "chunks n xs = [] \<longleftrightarrow> n = 0 \<or> xs = []"
  by (subst chunks.simps) simp

section \<open>Lemmas: digits\<close>

lemma of_char_digit: "n < 10 \<Longrightarrow> (of_char (digit n) :: nat) = 48 + n"
  by (simp add: digit_def)

lemma digit_eq_iff: "m < 10 \<Longrightarrow> n < 10 \<Longrightarrow> digit m = digit n \<longleftrightarrow> m = n"
  by (metis add_left_cancel of_char_digit)

lemma digit_less_iff: "m < 10 \<Longrightarrow> n < 10 \<Longrightarrow> digit m < digit n \<longleftrightarrow> m < n"
  by (simp add: less_char_def of_char_digit)

lemma is_digit_digit: "n < 10 \<Longrightarrow> is_digit (digit n)"
  by (simp add: is_digit_def of_char_digit)

lemma digit_0: "digit 0 = CHR ''0''"
  by code_simp

lemma eq_iff_not_less: "(a :: 'a :: linorder) = b \<longleftrightarrow> \<not> a < b \<and> \<not> b < a"
  by auto

text \<open>Numbers compare like their quotients and remainders, most significant part first.\<close>

lemma div_mod_less_iff:
  assumes "0 < k"
  shows "(a :: nat) < b \<longleftrightarrow> a div k < b div k \<or> a div k = b div k \<and> a mod k < b mod k"
proof (cases "a div k = b div k")
  case True
  then have "a = k * (b div k) + a mod k" and "b = k * (b div k) + b mod k"
    by (metis mult_div_mod_eq)+
  then have "a < b \<longleftrightarrow> a mod k < b mod k"
    by (metis add_less_cancel_left)
  with True show ?thesis by simp
next
  case False
  have "a < b \<Longrightarrow> a div k \<le> b div k" by (simp add: div_le_mono)
  moreover have "a div k < b div k \<Longrightarrow> a < b" by (metis div_le_mono linorder_not_less)
  ultimately show ?thesis using False by auto
qed

text \<open>The fixed-width digits of a number: the reference form of a zero-padded decimal.\<close>

fun digs :: "nat \<Rightarrow> nat \<Rightarrow> string" where
  "digs 0 n = []"
| "digs (Suc w) n = digs w (n div 10) @ [digit (n mod 10)]"

lemma length_digs [simp]: "length (digs w n) = w"
  by (induction w arbitrary: n) auto

lemma digs_zero: "digs w 0 = replicate w (CHR ''0'')"
  by (induction w) (auto simp: digit_0 replicate_append_same)

lemma digs_less_iff: "m < 10 ^ w \<Longrightarrow> n < 10 ^ w \<Longrightarrow> digs w m < digs w n \<longleftrightarrow> m < n"
proof (induction w arbitrary: m n)
  case (Suc w)
  then have *: "digs w (m div 10) < digs w (n div 10) \<longleftrightarrow> m div 10 < n div 10"
    "digs w (n div 10) < digs w (m div 10) \<longleftrightarrow> n div 10 < m div 10" by auto
  then have eq: "digs w (m div 10) = digs w (n div 10) \<longleftrightarrow> m div 10 = n div 10"
    unfolding eq_iff_not_less [where 'a = string] eq_iff_not_less [where 'a = nat] by simp
  have "m < n \<longleftrightarrow> m div 10 < n div 10 \<or> m div 10 = n div 10 \<and> m mod 10 < n mod 10"
    by (rule div_mod_less_iff) simp
  with * eq show ?case
    by (simp add: append_less_same_length digit_less_iff)
qed simp

lemma digs_eq_iff: "m < 10 ^ w \<Longrightarrow> n < 10 ^ w \<Longrightarrow> digs w m = digs w n \<longleftrightarrow> m = n"
  unfolding eq_iff_not_less [where 'a = string] eq_iff_not_less [where 'a = nat]
  by (simp only: digs_less_iff)

lemma digs_digits: "list_all is_digit (digs w n)"
  by (induction w arbitrary: n) (auto simp: is_digit_digit)

lemma digits_value_snoc: "digits_value (s @ [c]) = 10 * digits_value s + (of_char c - 48)"
  by (simp add: digits_value_def)

lemma digits_value_digs: "n < 10 ^ w \<Longrightarrow> digits_value (digs w n) = n"
proof (induction w arbitrary: n)
  case 0
  then show ?case by (simp add: digits_value_def)
next
  case (Suc w)
  then have "digits_value (digs w (n div 10)) = n div 10" by auto
  then show ?case by (simp add: digits_value_snoc of_char_digit)
qed

lemma dec_not_Nil [simp]: "dec n \<noteq> []" "[] \<noteq> dec n"
  by (simp_all add: dec.simps [of n])

lemma length_dec: "n < 10 ^ Suc w \<Longrightarrow> length (dec n) \<le> Suc w"
proof (induction w arbitrary: n)
  case 0
  then show ?case by (simp add: dec.simps [of n])
next
  case (Suc w)
  then have "length (dec (n div 10)) \<le> Suc w" by auto
  then show ?case by (simp add: dec.simps [of n])
qed

lemma zpad_snoc: "length s \<le> w \<Longrightarrow> zpad (Suc w) (s @ [c]) = zpad w s @ [c]"
  by (simp add: zpad_def)

lemma zpad_dec: "n < 10 ^ Suc w \<Longrightarrow> zpad (Suc w) (dec n) = digs (Suc w) n"
proof (induction w arbitrary: n)
  case 0
  then show ?case by (simp add: dec.simps [of n] zpad_def)
next
  case (Suc w)
  show ?case
  proof (cases "n < 10")
    case True
    then have "digs (Suc w) (n div 10) = replicate (Suc w) (CHR ''0'')"
      using digs_zero [of "Suc w"] by simp
    with True show ?thesis
      by (simp add: dec.simps [of n] zpad_def del: digs.simps) (simp add: digs.simps(2) [of "Suc w"])
  next
    case False
    from Suc.prems have n10: "n div 10 < 10 ^ Suc w" by auto
    from False have "zpad (Suc (Suc w)) (dec n) = zpad (Suc w) (dec (n div 10)) @ [digit (n mod 10)]"
      using length_dec [OF n10] by (simp add: dec.simps [of n] zpad_snoc)
    with Suc.IH [OF n10] show ?thesis by simp
  qed
qed

lemma zpad_dec_digs: "0 < w \<Longrightarrow> n < 10 ^ w \<Longrightarrow> zpad w (dec n) = digs w n"
  by (cases w) (simp_all only: zpad_dec less_irrefl)

lemma u64_lt_20_digits: "unat (n :: u64) < 10 ^ 20"
  by (rule order_less_trans [OF unat_u64_less]) simp

lemma fmt20_digs: "fmt20 n = digs 20 (unat n)"
  unfolding fmt20_def by (rule zpad_dec_digs [OF _ u64_lt_20_digits]) simp

lemma length_fmt20 [simp]: "length (fmt20 n) = 20"
  by (simp add: fmt20_digs)

lemma fmt20_inject [simp, key_inject]: "fmt20 m = fmt20 n \<longleftrightarrow> m = n"
  by (simp only: fmt20_digs digs_eq_iff u64_lt_20_digits word_unat_eq_iff)

lemma fmt20_less_iff [simp]: "fmt20 m < fmt20 n \<longleftrightarrow> m < n"
  by (simp only: fmt20_digs digs_less_iff u64_lt_20_digits word_less_nat_alt)

lemma fmt20_le_iff [simp]: "fmt20 m \<le> fmt20 n \<longleftrightarrow> m \<le> n"
  by (simp add: order_le_less)

lemma fmt20_digits: "list_all is_digit (fmt20 n)"
  by (simp add: fmt20_digs digs_digits)

lemma is_digit_not: "is_digit c \<Longrightarrow> c \<noteq> CHR ''/'' \<and> c \<noteq> CHR ''+''"
  by (auto simp: is_digit_def)

lemma fmt20_no_slash [simp, key_shape]: "CHR ''/'' \<notin> set (fmt20 n)"
  using fmt20_digits [of n] is_digit_not by (auto simp: list_all_iff)

text \<open>Parsing a formatted timestamp gives it back.\<close>

lemma parse_u64_fmt20 [simp]: "parse_u64 (fmt20 n) = Some n"
proof -
  obtain c cs where c: "fmt20 n = c # cs"
    by (metis length_0_conv length_fmt20 list.exhaust zero_neq_numeral)
  with fmt20_digits [of n] have plus: "c \<noteq> CHR ''+''"
    using is_digit_not by auto
  have "digits_value (fmt20 n) = unat n"
    by (simp only: fmt20_digs digits_value_digs u64_lt_20_digits)
  with c plus fmt20_digits [of n] show ?thesis
    by (simp add: parse_u64_def parse_nat_def Let_def word_unat_eq_iff [symmetric])
qed

section \<open>Lemmas: hexadecimal bytes\<close>

lemma of_char_less_256: "(of_char (c :: char) :: nat) < 256"
  by (rule nat_of_char_less_256)

lemma of_char_hex_lower:
  "n < 16 \<Longrightarrow> (of_char (hex_lower n) :: nat) = (if n < 10 then 48 + n else 87 + n)"
  by (auto simp: hex_lower_def)

lemma of_char_hex_upper:
  "n < 16 \<Longrightarrow> (of_char (hex_upper n) :: nat) = (if n < 10 then 48 + n else 55 + n)"
  by (auto simp: hex_upper_def)

lemma hex_lower_eq_iff: "m < 16 \<Longrightarrow> n < 16 \<Longrightarrow> hex_lower m = hex_lower n \<longleftrightarrow> m = n"
  by (simp only: of_char_eq_iff [where 'a = nat, symmetric] of_char_hex_lower) auto

lemma hex_lower_less_iff: "m < 16 \<Longrightarrow> n < 16 \<Longrightarrow> hex_lower m < hex_lower n \<longleftrightarrow> m < n"
  by (auto simp: less_char_def of_char_hex_lower)

lemma hex_upper_eq_iff: "m < 16 \<Longrightarrow> n < 16 \<Longrightarrow> hex_upper m = hex_upper n \<longleftrightarrow> m = n"
  by (simp only: of_char_eq_iff [where 'a = nat, symmetric] of_char_hex_upper) auto

lemma byte_split_eq:
  "(of_char c div 16 :: nat) = of_char d div 16 \<Longrightarrow> (of_char c mod 16 :: nat) = of_char d mod 16 \<Longrightarrow> c = d"
  by (metis div_mult_mod_eq of_char_eq_iff)

lemma byte_nibbles: "(of_char (c :: char) div 16 :: nat) < 16" "(of_char (c :: char) mod 16 :: nat) < 16"
  by (simp_all only: less_mult_imp_div_less of_char_less_256 mod_less_divisor) (simp_all add: div_less_iff_less_mult)

lemma byte_hex_inject [key_inject]: "byte_hex c = byte_hex d \<longleftrightarrow> c = d"
  using byte_split_eq [of c d] byte_nibbles by (auto simp: byte_hex_def hex_lower_eq_iff)

lemma byte_HEX_inject [key_inject]: "byte_HEX c = byte_HEX d \<longleftrightarrow> c = d"
  using byte_split_eq [of c d] byte_nibbles by (auto simp: byte_HEX_def hex_upper_eq_iff)

lemma length_byte_hex [simp]: "length (byte_hex c) = 2" "length (byte_HEX c) = 2"
  by (simp_all add: byte_hex_def byte_HEX_def)

lemma byte_hex_less_iff: "byte_hex c < byte_hex d \<longleftrightarrow> c < d"
proof -
  have "(of_char c :: nat) < of_char d \<longleftrightarrow> of_char c div 16 < (of_char d div 16 :: nat)
      \<or> of_char c div 16 = (of_char d div 16 :: nat) \<and> of_char c mod 16 < (of_char d mod 16 :: nat)"
    by (rule div_mod_less_iff) simp
  then show ?thesis
    using byte_nibbles [of c] byte_nibbles [of d]
    by (simp add: byte_hex_def hex_lower_less_iff hex_lower_eq_iff)
      (simp add: less_char_def)
qed

lemma is_alnum_hex_lower: "n < 16 \<Longrightarrow> is_alnum (hex_lower n)"
  by (simp add: is_alnum_def of_char_hex_lower Let_def)

lemma is_alnum_hex_upper: "n < 16 \<Longrightarrow> is_alnum (hex_upper n)"
  by (simp add: is_alnum_def of_char_hex_upper Let_def)

lemma byte_hex_alnum: "list_all is_alnum (byte_hex c)"
  by (simp add: byte_hex_def byte_nibbles is_alnum_hex_lower)

lemma byte_HEX_alnum: "list_all is_alnum (byte_HEX c)"
  by (simp add: byte_HEX_def byte_nibbles is_alnum_hex_upper)

lemma is_alnum_not: "is_alnum c \<Longrightarrow> c \<noteq> CHR ''/'' \<and> c \<noteq> CHR ''_'' \<and> c \<noteq> CHR ''.''"
  by (auto simp: is_alnum_def)

lemma not_alnum_punctuation [simp]:
  "\<not> is_alnum (CHR ''_'')" "\<not> is_alnum (CHR ''/'')" "\<not> is_alnum (CHR ''.'')"
  "\<not> is_alnum (CHR ''-'')" "\<not> is_alnum (CHR ''+'')" "\<not> is_alnum (CHR '':'')"
  by (simp_all add: is_alnum_def)

lemma hexn_inject: "hexn m = hexn n \<Longrightarrow> m = n"
proof (induction m arbitrary: n rule: hexn.induct)
  case (1 m)
  have last: "m mod 16 = n mod 16"
    using 1(2) by (simp add: hexn.simps [of m] hexn.simps [of n] hex_lower_eq_iff split: if_splits)
  show ?case
  proof (cases "m < 16 \<or> n < 16")
    case True
    have "hexn k \<noteq> []" for k by (simp add: hexn.simps [of k])
    with True 1(2) have "m < 16 \<and> n < 16"
      by (auto simp: hexn.simps [of m] hexn.simps [of n] split: if_splits) metis
    with last show ?thesis by simp
  next
    case False
    with 1(2) have "hexn (m div 16) = hexn (n div 16)"
      by (simp add: hexn.simps [of m] hexn.simps [of n])
    with 1(1) False have "m div 16 = n div 16" by simp
    with last show ?thesis by (metis div_mult_mod_eq)
  qed
qed

end
