(* ===== verification/Delivery_Types.thy ===== *)
theory Delivery_Types
  imports Fkst_Prelude
begin

text \<open>
  The data of the durable delivery subsystem (\<open>supervise/delivery_types.rs\<close>,
  \<open>fkst-common/src/event.rs\<close>): events with an opaque JSON payload, delivery records, dead
  records and the retry and redrive policies. A stored value is the byte string that
  \<open>serde_json\<close> produced; what the code can observe of it is whether it decodes and to what,
  so a stored value is either \<open>Blob\<close> of a record or \<open>Garbage\<close>.
\<close>

section \<open>JSON values\<close>

datatype json_number = PosInt u64 | NegInt int | FloatText string

datatype json =
    JNull
  | JBool bool
  | JNumber json_number
  | JString string
  | JArray "json list"
  | JObject "(string \<times> json) list"

text \<open>\<open>Value::get\<close> with a string key, \<open>Value::as_str\<close>, \<open>Value::as_u64\<close>.\<close>

fun json_get :: "json \<Rightarrow> string \<Rightarrow> json option" where
  "json_get (JObject kvs) k = map_of kvs k"
| "json_get _ k = None"

fun json_as_str :: "json \<Rightarrow> string option" where
  "json_as_str (JString s) = Some s"
| "json_as_str _ = None"

fun json_as_u64 :: "json \<Rightarrow> u64 option" where
  "json_as_u64 (JNumber (PosInt n)) = Some n"
| "json_as_u64 _ = None"

section \<open>Events and records\<close>

record event =
  ev_queue :: string
  ev_payload :: json
  ev_ts :: u64

datatype source_kind = File | Cron | Git | External

record source_ref =
  src_kind :: source_kind
  src_reference :: string

record delivery_record =
  delivery_id :: string
  queue :: string
  dept :: string
  payload :: json
  source :: "source_ref option"
  cron_payload :: "json option"
  observed_at_ms :: u64
  attempt :: u64
  redrive_count :: u64
  collapse_by_dedup_id :: bool
  pending_dirty :: bool
  subscriber_absent_since_ms :: "u64 option"
  lease_generation :: u64
  lease_until_ms :: "u64 option"
  not_before_ms :: u64
  last_error_excerpt :: "string option"

record dead_record =
  dr_delivery_id :: string
  dr_queue :: string
  dr_dept :: string
  dr_source :: "source_ref option"
  dr_observed_at_ms :: u64
  dr_not_before_ms :: u64
  dead_at_ms :: u64
  attempts :: u64
  dr_redrive_count :: u64
  replayable :: bool
  permanent :: bool
  allows_keyed_reuse :: bool
  error_excerpt_of :: "string option"
  dr_record :: "delivery_record option"

record retry_policy =
  max_attempts :: u64
  base :: duration
  cap :: duration

record redrive_policy =
  max_redrives :: u64
  cooldown :: duration

text \<open>The ways an operation of the store can fail; a failed operation abandons its transaction.\<close>

datatype store_error =
    BadIndexKey string
  | Undecodable string
  | ConflictingDuplicate string
  | SuppressionExhausted string
  | SchemaTooNew string
  | PageIndexMissing string
  | PageIndexMismatch string
  | JitterPanic

section \<open>Stored values\<close>

datatype 'a blob = Blob 'a | Garbage

fun decode :: "'a blob \<Rightarrow> 'a option" where
  "decode (Blob x) = Some x"
| "decode Garbage = None"

lemma decode_eq_Some [simp]: "decode b = Some x \<longleftrightarrow> b = Blob x"
  by (cases b) auto

end
