(* ===== verification/Delivery_Retry.thy ===== *)
theory Delivery_Retry
  imports Delivery_Types
begin

text \<open>
  Retry delays and error excerpts (\<open>supervise/delivery_retry.rs\<close>). The standard library's
  \<open>DefaultHasher\<close> is an unspecified function of the hashed values and is a parameter \<open>hsh\<close>
  of \<open>bounded_jitter\<close>. A \<open>None\<close> of \<open>bounded_jitter\<close> is the panic of the overflowing
  \<open>max + 1\<close>.
\<close>

section \<open>Definitions\<close>

definition ERROR_EXCERPT_LIMIT :: nat where
  "ERROR_EXCERPT_LIMIT = 500"

definition JITTER_DIVISOR :: nat where
  "JITTER_DIVISOR = 4"

definition backoff_delay :: "duration \<Rightarrow> duration \<Rightarrow> u64 \<Rightarrow> duration" where
  "backoff_delay bs cp att =
     (let expo = min (unat (sat_sub att 1)) 63;
          multiplier = (2 :: nat) ^ expo;
          millis = sat_mul128 (as_millis bs) multiplier;
          capped = min millis (as_millis cp)
      in from_millis (unat (clamp_u64 capped)))"

definition bounded_jitter ::
    "(string \<Rightarrow> u64 \<Rightarrow> u64) \<Rightarrow> string \<Rightarrow> u64 \<Rightarrow> duration \<Rightarrow> duration option" where
  "bounded_jitter hsh did att bs =
     (let mx = clamp_u64 (as_millis bs div JITTER_DIVISOR)
      in if mx = 0 then Some 0
         else if mx = u64_max then None
         else Some (from_millis (unat (hsh did att) mod (unat mx + 1))))"

text \<open>\<open>str::replace\<close> of a single character by a string.\<close>

definition replace_char :: "char \<Rightarrow> string \<Rightarrow> string \<Rightarrow> string" where
  "replace_char c r s = concat (map (\<lambda>x. if x = c then r else [x]) s)"

text \<open>A byte that starts a character in UTF-8 is not a continuation byte; \<open>char_indices\<close> lists
  the offsets of those bytes.\<close>

definition is_char_start :: "char \<Rightarrow> bool" where
  "is_char_start c \<longleftrightarrow> \<not> (128 \<le> (of_char c :: nat) \<and> (of_char c :: nat) < 192)"

definition char_indices :: "string \<Rightarrow> nat list" where
  "char_indices s = filter (\<lambda>i. is_char_start (s ! i)) [0..<length s]"

definition error_excerpt :: "string \<Rightarrow> string" where
  "error_excerpt err =
     (let excerpt = replace_char (CHR 0x0A) [CHR 0x5C, CHR ''n'']
                      (replace_char (CHR 0x0D) [CHR 0x5C, CHR ''r''] err)
      in if length excerpt > ERROR_EXCERPT_LIMIT
         then (let idxs = takeWhile (\<lambda>i. i \<le> ERROR_EXCERPT_LIMIT) (char_indices excerpt);
                   boundary = (if idxs = [] then 0 else last idxs)
               in take boundary excerpt)
         else excerpt)"

section \<open>Backoff and jitter\<close>

lemma unat_sat_sub: "unat (sat_sub a b) = unat a - unat b"
  by (auto simp: sat_sub_def unat_sub word_le_nat_alt)

lemma as_millis_backoff_delay:
  "as_millis (backoff_delay bs cp att) =
     min (min (min (as_millis bs * 2 ^ min (unat att - 1) 63) u128_max) (as_millis cp))
         18446744073709551615"
  by (simp add: backoff_delay_def Let_def sat_mul128_def unat_clamp_u64 unat_sat_sub)

lemma min_le_mono_left: "(a :: nat) \<le> b \<Longrightarrow> min a c \<le> min b c"
  by auto

lemma backoff_exponent_mono:
  "a \<le> a' \<Longrightarrow> b * (2 :: nat) ^ min (a - 1) 63 \<le> b * 2 ^ min (a' - 1) 63"
  by (intro mult_le_mono2 power_increasing) auto

lemma bounded_jitter_bound:
  assumes "bounded_jitter hsh did att bs = Some j"
  shows "as_millis j \<le> as_millis bs div 4"
proof -
  define mx where "mx = clamp_u64 (as_millis bs div JITTER_DIVISOR)"
  have mx: "unat mx \<le> as_millis bs div 4"
    by (simp add: mx_def unat_clamp_u64 JITTER_DIVISOR_def)
  have "unat (hsh did att) mod Suc (unat mx) \<le> unat mx"
    using mod_less_divisor [of "Suc (unat mx)" "unat (hsh did att)"] by linarith
  then have "unat (hsh did att) mod Suc (unat mx) \<le> as_millis bs div 4"
    using mx by (rule order_trans)
  with assms show ?thesis
    by (auto simp: bounded_jitter_def Let_def mx_def [symmetric] as_millis_def [of 0] split: if_splits)
qed

lemma bounded_jitter_total:
  "as_millis bs < 4 * 18446744073709551615 \<Longrightarrow> \<exists>j. bounded_jitter hsh did att bs = Some j"
  by (auto simp: bounded_jitter_def Let_def word_unat_eq_iff unat_clamp_u64 JITTER_DIVISOR_def)

section \<open>Error excerpts\<close>

lemma set_replace_char: "set (replace_char c r s) \<subseteq> set r \<union> (set s - {c})"
  by (auto simp: replace_char_def split: if_splits)

lemma replace_char_id: "c \<notin> set s \<Longrightarrow> replace_char c r s = s"
  by (induction s) (auto simp: replace_char_def)

lemma last_takeWhile_le:
  "takeWhile (\<lambda>i. i \<le> (n :: nat)) xs \<noteq> [] \<Longrightarrow> last (takeWhile (\<lambda>i. i \<le> n) xs) \<le> n"
  using last_in_set set_takeWhileD by metis

lemma length_error_excerpt: "length (error_excerpt err) \<le> ERROR_EXCERPT_LIMIT"
  using last_takeWhile_le by (auto simp: error_excerpt_def Let_def min_le_iff_disj)

lemma set_error_excerpt: "set (error_excerpt err) \<inter> {CHR 0x0A, CHR 0x0D} = {}"
proof -
  define e where "e = replace_char (CHR 0x0A) [CHR 0x5C, CHR ''n'']
    (replace_char (CHR 0x0D) [CHR 0x5C, CHR ''r''] err)"
  define e1 where "e1 = replace_char (CHR 0x0D) [CHR 0x5C, CHR ''r''] err"
  have "CHR 0x0D \<notin> set e1"
    unfolding e1_def using set_replace_char [of "CHR 0x0D" "[CHR 0x5C, CHR ''r'']" err] by auto
  then have "set e \<inter> {CHR 0x0A, CHR 0x0D} = {}"
    unfolding e_def e1_def [symmetric]
    using set_replace_char [of "CHR 0x0A" "[CHR 0x5C, CHR ''n'']" e1] by auto
  moreover have "set (error_excerpt err) \<subseteq> set e"
    by (auto simp: error_excerpt_def Let_def e_def [symmetric] dest: in_set_takeD)
  ultimately show ?thesis by blast
qed

lemma error_excerpt_short:
  "length err \<le> ERROR_EXCERPT_LIMIT \<Longrightarrow> set err \<inter> {CHR 0x0A, CHR 0x0D} = {} \<Longrightarrow>
   error_excerpt err = err"
  by (simp add: error_excerpt_def Let_def replace_char_id)

end
