(* ===== verification/Ordered_Table.thy ===== *)
theory Ordered_Table
  imports Fkst_Prelude
begin

text \<open>
  The logical content of a database table with string keys: an association list in ascending key
  order, which is the order a scan or a range query visits. A write transaction is modelled by
  passing the tables on, an abandoned one by keeping the old tables. The interface the delivery
  store relies on (look-up after an update, ordered iteration) is the locale \<open>ordered_table\<close>;
  the contract between a table of rows and a table derived from it is the locale
  \<open>secondary_index\<close>.
\<close>

section \<open>Tables\<close>

type_synonym 'v table = "(string \<times> 'v) list"

definition t_empty :: "'v table" where
  "t_empty = []"

definition t_get :: "'v table \<Rightarrow> string \<Rightarrow> 'v option" where
  "t_get t = map_of t"

fun t_insert :: "string \<Rightarrow> 'v \<Rightarrow> 'v table \<Rightarrow> 'v table" where
  "t_insert k v [] = [(k, v)]"
| "t_insert k v ((k', v') # t) =
     (if k < k' then (k, v) # (k', v') # t
      else if k = k' then (k, v) # t
      else (k', v') # t_insert k v t)"

definition t_remove :: "string \<Rightarrow> 'v table \<Rightarrow> 'v table" where
  "t_remove k t = filter (\<lambda>(k', v). k' \<noteq> k) t"

definition t_iter :: "'v table \<Rightarrow> (string \<times> 'v) list" where
  "t_iter t = t"

definition t_ok :: "'v table \<Rightarrow> bool" where
  "t_ok t \<longleftrightarrow> sorted_wrt (<) (map fst t)"

text \<open>A range query with inclusive bounds, in key order.\<close>

definition t_range :: "string \<Rightarrow> string \<Rightarrow> 'v table \<Rightarrow> (string \<times> 'v) list" where
  "t_range lo hi t = filter (\<lambda>(k, v). lo \<le> k \<and> k \<le> hi) (t_iter t)"

section \<open>The interface of an ordered table\<close>

locale ordered_table =
  fixes empty :: "'t"
    and get :: "'t \<Rightarrow> 'k :: linorder \<Rightarrow> 'v option"
    and ins :: "'k \<Rightarrow> 'v \<Rightarrow> 't \<Rightarrow> 't"
    and rem :: "'k \<Rightarrow> 't \<Rightarrow> 't"
    and entries :: "'t \<Rightarrow> ('k \<times> 'v) list"
    and ok :: "'t \<Rightarrow> bool"
  assumes get_empty: "get empty = Map.empty"
    and get_ins: "get (ins k v t) = (get t)(k \<mapsto> v)"
    and get_rem: "get (rem k t) = (get t)(k := None)"
    and ok_empty: "ok empty"
    and ok_ins: "ok t \<Longrightarrow> ok (ins k v t)"
    and ok_rem: "ok t \<Longrightarrow> ok (rem k t)"
    and entries_sorted: "ok t \<Longrightarrow> sorted_wrt (<) (map fst (entries t))"
    and entries_get: "ok t \<Longrightarrow> (k, v) \<in> set (entries t) \<longleftrightarrow> get t k = Some v"
begin

lemma entries_distinct: "ok t \<Longrightarrow> distinct (map fst (entries t))"
  using entries_sorted strict_sorted_iff by blast

text \<open>What a scan shows is determined by the contents: two tables with the same look-ups
  iterate alike.\<close>

lemma entries_unique:
  assumes "ok t" and "ok u" and "get t = get u"
  shows "entries t = entries u"
proof -
  have set_eq: "set (entries t) = set (entries u)"
    using assms by (auto simp: entries_get)
  then have "set (map fst (entries t)) = set (map fst (entries u))" by simp
  then have keys: "map fst (entries t) = map fst (entries u)"
    using assms(1,2) by (simp add: entries_sorted strict_sorted_equal)
  have inj: "inj_on fst (set (entries t) \<union> set (entries u))"
    using set_eq entries_distinct [OF assms(1)] by (simp add: distinct_map)
  from keys inj show ?thesis by (rule map_inj_on)
qed

text \<open>The entry a scan meets first is the least one.\<close>

lemma entries_head_least:
  assumes "ok t" and "entries t = (k, v) # es" and "get t k' = Some v'"
  shows "k \<le> k'"
proof -
  from assms(1,3) have "(k', v') \<in> set (entries t)" by (simp add: entries_get)
  with entries_sorted [OF assms(1)] assms(2) show ?thesis by (auto simp: less_imp_le)
qed

end

section \<open>Tables implement the interface\<close>

lemma map_of_t_insert: "map_of (t_insert k v t) = (map_of t)(k \<mapsto> v)"
  by (induction k v t rule: t_insert.induct) (auto simp: fun_eq_iff)

lemma map_of_t_remove: "map_of (t_remove k t) = (map_of t)(k := None)"
  by (induction t) (auto simp: t_remove_def fun_eq_iff)

lemma set_t_insert: "fst ` set (t_insert k v t) = insert k (fst ` set t)"
  by (induction k v t rule: t_insert.induct) auto

lemma t_ok_insert: "t_ok t \<Longrightarrow> t_ok (t_insert k v t)"
proof (induction k v t rule: t_insert.induct)
  case (2 k v k' v' t)
  have keys: "set (map fst (t_insert k v t)) = insert k (set (map fst t))"
    using set_t_insert [of k v t] by simp
  show ?case
  proof (cases "k < k' \<or> k = k'")
    case True
    with 2 show ?thesis by (auto simp: t_ok_def)
  next
    case False
    with 2 keys show ?thesis by (auto simp: t_ok_def simp del: set_map)
  qed
qed (simp add: t_ok_def)

lemma t_ok_remove: "t_ok t \<Longrightarrow> t_ok (t_remove k t)"
  by (induction t) (auto simp: t_ok_def t_remove_def)

lemma t_ok_map_of: "t_ok t \<Longrightarrow> (k, v) \<in> set t \<longleftrightarrow> map_of t k = Some v"
  using map_of_eq_Some_iff [of t k v] by (auto simp: t_ok_def strict_sorted_iff)

interpretation tab: ordered_table t_empty t_get t_insert t_remove t_iter t_ok
proof unfold_locales
  fix t :: "'a table" and k v
  show "t_get (t_empty :: 'a table) = Map.empty" by (simp add: t_get_def t_empty_def)
  show "t_get (t_insert k v t) = (t_get t)(k \<mapsto> v)" by (simp add: t_get_def map_of_t_insert)
  show "t_get (t_remove k t) = (t_get t)(k := None)" by (simp add: t_get_def map_of_t_remove)
  show "t_ok (t_empty :: 'a table)" by (simp add: t_ok_def t_empty_def)
  assume ok: "t_ok t"
  show "t_ok (t_insert k v t)" using ok by (rule t_ok_insert)
  show "t_ok (t_remove k t)" using ok by (rule t_ok_remove)
  show "sorted_wrt (<) (map fst (t_iter t))" using ok by (simp add: t_ok_def t_iter_def)
  show "(k, v) \<in> set (t_iter t) \<longleftrightarrow> t_get t k = Some v"
    using ok by (simp add: t_iter_def t_get_def t_ok_map_of)
qed

lemmas t_get_simps [simp] = tab.get_empty tab.get_ins tab.get_rem
lemmas t_ok_intros [simp, intro] = tab.ok_empty tab.ok_ins tab.ok_rem

lemma set_t_range:
  "t_ok t \<Longrightarrow> (k, v) \<in> set (t_range lo hi t) \<longleftrightarrow> t_get t k = Some v \<and> lo \<le> k \<and> k \<le> hi"
  by (auto simp: t_range_def tab.entries_get)

lemma t_range_sorted: "t_ok t \<Longrightarrow> sorted_wrt (<) (map fst (t_range lo hi t))"
  unfolding t_range_def t_iter_def t_ok_def sorted_wrt_map by (rule sorted_wrt_filter)

section \<open>Secondary indexes\<close>

text \<open>
  A derived table holds, for every row with a key, exactly the entry of that row. \<open>ikey i r\<close>
  is the entry the row \<open>r\<close> with identity \<open>i\<close> owns, if it owns one.
\<close>

definition index_exact ::
    "('i \<Rightarrow> 'r \<Rightarrow> (string \<times> 'v) option) \<Rightarrow> ('i \<Rightarrow> 'r option) \<Rightarrow> (string \<Rightarrow> 'v option) \<Rightarrow> bool" where
  "index_exact ikey rows idx \<longleftrightarrow>
     (\<forall>k v. idx k = Some v \<longleftrightarrow> (\<exists>i. Option.bind (rows i) (ikey i) = Some (k, v)))"

text \<open>The effect on the derived table of replacing one row by another: drop the entry of the old
  row, add the entry of the new one.\<close>

definition drop_entry :: "(string \<times> 'v) option \<Rightarrow> (string \<Rightarrow> 'v option) \<Rightarrow> (string \<Rightarrow> 'v option)" where
  "drop_entry e idx = (case e of None \<Rightarrow> idx | Some (k, v) \<Rightarrow> idx(k := None))"

definition add_entry :: "(string \<times> 'v) option \<Rightarrow> (string \<Rightarrow> 'v option) \<Rightarrow> (string \<Rightarrow> 'v option)" where
  "add_entry e idx = (case e of None \<Rightarrow> idx | Some (k, v) \<Rightarrow> idx(k \<mapsto> v))"

lemma entry_simps [simp]:
  "drop_entry None idx = idx" "drop_entry (Some (k, v)) idx = idx(k := None)"
  "add_entry None idx = idx" "add_entry (Some (k, v)) idx = idx(k \<mapsto> v)"
  by (simp_all add: drop_entry_def add_entry_def)

definition reindex ::
    "('i \<Rightarrow> 'r \<Rightarrow> (string \<times> 'v) option) \<Rightarrow> 'i \<Rightarrow> 'r option \<Rightarrow> 'r option \<Rightarrow>
     (string \<Rightarrow> 'v option) \<Rightarrow> (string \<Rightarrow> 'v option)" where
  "reindex ikey i old new idx =
     add_entry (Option.bind new (ikey i)) (drop_entry (Option.bind old (ikey i)) idx)"

text \<open>The index is updated for the change of one row, or needs no update.\<close>

definition reindexed ::
    "('i \<Rightarrow> 'r \<Rightarrow> (string \<times> 'v) option) \<Rightarrow> 'i \<Rightarrow> 'r option \<Rightarrow> 'r option \<Rightarrow>
     (string \<Rightarrow> 'v option) \<Rightarrow> (string \<Rightarrow> 'v option) \<Rightarrow> bool" where
  "reindexed ikey i old new idx idx' \<longleftrightarrow> idx' = reindex ikey i old new idx \<or>
     Option.bind new (ikey i) = Option.bind old (ikey i) \<and> idx' = idx"

locale secondary_index =
  fixes ikey :: "'i \<Rightarrow> 'r \<Rightarrow> (string \<times> 'v) option"
  assumes owner: "ikey i r = Some (k, v) \<Longrightarrow> ikey j q = Some (k, w) \<Longrightarrow> i = j"
begin

lemma exact_empty: "index_exact ikey Map.empty Map.empty"
  by (simp add: index_exact_def)

lemma bind_owner:
  "Option.bind ro (ikey i) = Some (k, v) \<Longrightarrow> Option.bind qo (ikey j) = Some (k, w) \<Longrightarrow> i = j"
  by (auto simp: bind_eq_Some_conv dest: owner)

text \<open>The whole contract in one rule: replacing the row \<open>i\<close> and reindexing keeps the derived
  table exact.\<close>

lemma exact_reindex:
  assumes "index_exact ikey rows idx"
  shows "index_exact ikey (rows(i := new)) (reindex ikey i (rows i) new idx)"
proof -
  define oldk where "oldk = Option.bind (rows i) (ikey i)"
  define newk where "newk = Option.bind new (ikey i)"
  define others where "others k v \<longleftrightarrow> (\<exists>j. j \<noteq> i \<and> Option.bind (rows j) (ikey j) = Some (k, v))" for k v
  have idx: "idx k = Some v \<longleftrightarrow> others k v \<or> oldk = Some (k, v)" for k v
    using assms by (auto simp: index_exact_def others_def oldk_def)
  have old_owns: "\<not> others k v" if "oldk = Some (k, w)" for k v w
    using that by (auto simp: others_def oldk_def dest: bind_owner)
  have new_owns: "\<not> others k v" if "newk = Some (k, w)" for k v w
    using that by (auto simp: others_def newk_def dest: bind_owner)
  have rows': "(\<exists>j. Option.bind ((rows(i := new)) j) (ikey j) = Some (k, v)) \<longleftrightarrow>
      newk = Some (k, v) \<or> others k v" for k v
    by (auto simp: others_def newk_def)
  define idx1 where "idx1 = drop_entry oldk idx"
  have idx1: "idx1 k = Some v \<longleftrightarrow> others k v" for k v
    by (cases oldk) (auto simp: idx1_def idx dest: old_owns split: if_splits)
  have re: "reindex ikey i (rows i) new idx = add_entry newk idx1"
    by (simp add: reindex_def idx1_def oldk_def newk_def)
  show ?thesis
    unfolding index_exact_def rows' re
    by (cases newk) (auto simp: idx1 dest: new_owns split: if_splits)
qed

text \<open>A row whose entry does not change needs no work on the index.\<close>

lemma exact_keep:
  assumes "index_exact ikey rows idx"
    and "Option.bind new (ikey i) = Option.bind (rows i) (ikey i)"
  shows "index_exact ikey (rows(i := new)) idx"
proof (cases "Option.bind (rows i) (ikey i)")
  case None
  have "reindex ikey i (rows i) new idx = idx"
    using None assms(2) by (simp add: reindex_def)
  with exact_reindex [OF assms(1), of i new] show ?thesis by simp
next
  case (Some kv)
  obtain k v where kv: "kv = (k, v)" by (cases kv)
  with Some have "idx k = Some v"
    using assms(1) by (auto simp: index_exact_def)
  then have "reindex ikey i (rows i) new idx = idx"
    using Some assms(2) kv by (auto simp: reindex_def)
  with exact_reindex [OF assms(1), of i new] show ?thesis by simp
qed

lemma exact_reindexed:
  assumes "index_exact ikey rows idx" and "reindexed ikey i (rows i) new idx idx'"
  shows "index_exact ikey (rows(i := new)) idx'"
  using assms exact_reindex [of rows idx i new] exact_keep [of rows idx new i]
  by (auto simp: reindexed_def)

lemma exact_drop:
  "index_exact ikey rows idx \<Longrightarrow>
   index_exact ikey (rows(i := None)) (drop_entry (Option.bind (rows i) (ikey i)) idx)"
  using exact_reindex [of rows idx i None] by (simp add: reindex_def)

lemma exact_add:
  "index_exact ikey rows idx \<Longrightarrow> Option.bind (rows i) (ikey i) = None \<Longrightarrow>
   index_exact ikey (rows(i := Some r)) (add_entry (ikey i r) idx)"
  using exact_reindex [of rows idx i "Some r"] by (simp add: reindex_def)

text \<open>Removing a key of the identity \<open>i\<close> that its row does not own changes nothing.\<close>

lemma exact_not_owned:
  assumes "index_exact ikey rows idx" and "ikey i q = Some (k, v)"
    and "\<And>r w. rows i = Some r \<Longrightarrow> ikey i r \<noteq> Some (k, w)"
  shows "idx k = None"
proof (rule ccontr)
  assume "idx k \<noteq> None"
  then obtain w j where j: "Option.bind (rows j) (ikey j) = Some (k, w)"
    using assms(1) by (auto simp: index_exact_def)
  have "Option.bind (Some q) (ikey i) = Some (k, v)" using assms(2) by simp
  with j have "i = j" by (blast dest: bind_owner)
  with j assms(3) show False by (auto simp: bind_eq_Some_conv)
qed

text \<open>Dropping a key that only the row of \<open>i\<close> can own drops the entry of that row.\<close>

lemma drop_candidate:
  assumes "index_exact ikey rows idx" and "ikey i q = Some (k, v)"
    and "ikey i r = None \<or> ikey i r = Some (k, w)" and "rows i = Some r"
  shows "idx(k := None) = drop_entry (ikey i r) idx"
proof (cases "ikey i r")
  case None
  then have "idx k = None" using assms by (intro exact_not_owned) auto
  with None show ?thesis by (simp add: fun_upd_idem)
next
  case (Some e)
  with assms(3) show ?thesis by auto
qed

lemma drop_foreign:
  assumes "index_exact ikey rows idx" and "ikey i q = Some (k, v)"
    and "\<And>r w. rows i = Some r \<Longrightarrow> ikey i r \<noteq> Some (k, w)"
  shows "idx(k := None) = idx"
  using exact_not_owned [OF assms] by (simp add: fun_upd_idem)

lemma add_owned:
  assumes "index_exact ikey rows idx" and "rows i = Some r" and "ikey i r = Some (k, v)"
  shows "idx(k \<mapsto> v) = idx"
proof -
  have "idx k = Some v" using assms by (auto simp: index_exact_def intro!: exI [of _ i])
  then show ?thesis by (simp add: fun_upd_idem)
qed

text \<open>Building the index from the rows, one after the other.\<close>

lemma exact_build:
  assumes "index_exact ikey rows idx" and "distinct (map fst xs)" and "\<And>i. i \<in> fst ` set xs \<Longrightarrow> rows i = None"
  shows "index_exact ikey (rows ++ map_of xs) (foldl (\<lambda>idx (i, r). add_entry (ikey i r) idx) idx xs)"
  using assms
proof (induction xs arbitrary: rows idx)
  case (Cons x xs)
  obtain i r where x: "x = (i, r)" by (cases x)
  have "index_exact ikey (rows(i \<mapsto> r)) (add_entry (ikey i r) idx)"
    using Cons.prems by (intro exact_add) (simp_all add: x)
  then have "index_exact ikey (rows(i \<mapsto> r) ++ map_of xs)
      (foldl (\<lambda>idx (i, r). add_entry (ikey i r) idx) (add_entry (ikey i r) idx) xs)"
  proof (rule Cons.IH)
    show "distinct (map fst xs)" using Cons.prems(2) by simp
    show "(rows(i \<mapsto> r)) j = None" if "j \<in> fst ` set xs" for j
      using Cons.prems(2) Cons.prems(3) [of j] that by (auto simp: x)
  qed
  moreover have "i \<notin> dom (map_of xs)" using Cons.prems(2) by (simp add: x dom_map_of_conv_image_fst)
  then have "rows(i \<mapsto> r) ++ map_of xs = rows ++ map_of (x # xs)"
    by (simp add: x map_add_upd_left)
  ultimately show ?case by (simp only: x foldl_Cons case_prod_conv)
qed simp

end

text \<open>An index of rows is determined by the rows.\<close>

lemma index_exact_unique:
  assumes "index_exact ikey rows idx" and "index_exact ikey rows idx'"
  shows "idx = idx'"
proof
  fix k
  have "idx k = Some v \<longleftrightarrow> idx' k = Some v" for v
    using assms by (simp add: index_exact_def)
  then show "idx k = idx' k" by (metis not_None_eq)
qed

end
