(* ===== verification/Delivery_Index.thy ===== *)
theory Delivery_Index
  imports Delivery_Types Ordered_Table
begin

text \<open>
  The department-scoped secondary indexes of the delivery store
  (\<open>supervise/delivery_index.rs\<close>): how their string keys are built and parsed, and the range
  queries over them. The lemmas show that the keys are injective, that their byte order is the
  order by due time, and that a range query over a department's keys finds exactly its due entries.
\<close>

section \<open>Definitions\<close>

record due_index_key =
  ikey_text :: string
  due_ms :: u64
  ikey_id :: string

definition encode_index_byte :: "char \<Rightarrow> string" where
  "encode_index_byte c =
     (if is_alnum c \<or> c = CHR ''.'' \<or> c = CHR ''-'' then [c]
      else if c = CHR ''_'' then ''__''
      else ''_x'' @ byte_HEX c)"

definition all_dots :: "string \<Rightarrow> bool" where
  "all_dots s \<longleftrightarrow> list_all (\<lambda>c. c = CHR ''.'') s"

definition encode_index_part :: "string \<Rightarrow> string" where
  "encode_index_part part =
     (if part = [] then ''_''
      else let encoded = concat (map encode_index_byte part)
           in if all_dots encoded then ''_x'' @ encoded else encoded)"

definition make_index_key :: "string \<Rightarrow> u64 \<Rightarrow> string \<Rightarrow> string" where
  "make_index_key dpt due did =
     encode_index_part dpt @ CHR ''/'' # fmt20 due @ CHR ''/'' # did"

definition make_dead_due_index_key :: "string \<Rightarrow> u64 \<Rightarrow> string \<Rightarrow> string" where
  "make_dead_due_index_key dpt dead_at did =
     fmt20 dead_at @ CHR ''/'' # encode_index_part dpt @ CHR ''/'' # did"

definition make_dead_time_index_key :: "u64 \<Rightarrow> string \<Rightarrow> string" where
  "make_dead_time_index_key dead_at did = fmt20 dead_at @ CHR ''/'' # did"

definition parse_index_key :: "string \<Rightarrow> store_error + due_index_key" where
  "parse_index_key key =
     (case splitn 3 (CHR ''/'') key of
        [dpt, due, did] \<Rightarrow>
          (case parse_u64 due of
             None \<Rightarrow> Inl (BadIndexKey key)
           | Some n \<Rightarrow> Inr \<lparr>ikey_text = key, due_ms = n, ikey_id = did\<rparr>)
      | _ \<Rightarrow> Inl (BadIndexKey key))"

definition parse_dead_due_index_key :: "string \<Rightarrow> store_error + due_index_key" where
  "parse_dead_due_index_key key =
     (case splitn 3 (CHR ''/'') key of
        [due, dpt, did] \<Rightarrow>
          (case parse_u64 due of
             None \<Rightarrow> Inl (BadIndexKey key)
           | Some n \<Rightarrow> Inr \<lparr>ikey_text = key, due_ms = n, ikey_id = did\<rparr>)
      | _ \<Rightarrow> Inl (BadIndexKey key))"

definition parse_dead_time_index_key :: "string \<Rightarrow> store_error + due_index_key" where
  "parse_dead_time_index_key key =
     (case splitn 2 (CHR ''/'') key of
        [due, did] \<Rightarrow>
          (case parse_u64 due of
             None \<Rightarrow> Inl (BadIndexKey key)
           | Some n \<Rightarrow> Inr \<lparr>ikey_text = key, due_ms = n, ikey_id = did\<rparr>)
      | _ \<Rightarrow> Inl (BadIndexKey key))"

text \<open>The last Unicode scalar value, as the UTF-8 bytes that close the range bounds.\<close>

definition max_scalar :: string where
  "max_scalar = [CHR 0xF4, CHR 0x8F, CHR 0xBF, CHR 0xBF]"

text \<open>The loop of a bounded scan: parse a key, keep it, stop at the limit.\<close>

fun collect_parsed ::
    "(string \<Rightarrow> store_error + due_index_key) \<Rightarrow> nat \<Rightarrow> due_index_key list \<Rightarrow> string list \<Rightarrow>
     store_error + due_index_key list" where
  "collect_parsed parse limit acc [] = Inr acc"
| "collect_parsed parse limit acc (k # ks) =
     rbind (parse k) (\<lambda>p.
       if length (acc @ [p]) \<ge> limit then Inr (acc @ [p])
       else collect_parsed parse limit (acc @ [p]) ks)"

definition collect_due_keys_in_range ::
    "unit table \<Rightarrow> string \<Rightarrow> string \<Rightarrow> nat \<Rightarrow> store_error + due_index_key list" where
  "collect_due_keys_in_range t lo hi limit =
     collect_parsed parse_index_key limit [] (map fst (t_range lo hi t))"

definition collect_due_keys_for_dept ::
    "unit table \<Rightarrow> string \<Rightarrow> u64 \<Rightarrow> nat \<Rightarrow> store_error + due_index_key list" where
  "collect_due_keys_for_dept t dpt now_ms limit =
     (let dept_prefix = encode_index_part dpt @ ''/''
      in collect_due_keys_in_range t
           (dept_prefix @ fmt20 0 @ ''/'')
           (dept_prefix @ fmt20 now_ms @ ''/'' @ max_scalar) limit)"

fun collect_due_all ::
    "u64 \<Rightarrow> nat \<Rightarrow> due_index_key list \<Rightarrow> string list \<Rightarrow> store_error + due_index_key list" where
  "collect_due_all now_ms limit acc [] = Inr acc"
| "collect_due_all now_ms limit acc (k # ks) =
     rbind (parse_index_key k) (\<lambda>p.
       if due_ms p \<le> now_ms
       then (if length (acc @ [p]) \<ge> limit then Inr (acc @ [p])
             else collect_due_all now_ms limit (acc @ [p]) ks)
       else collect_due_all now_ms limit acc ks)"

definition collect_due_keys_for_all_depts ::
    "unit table \<Rightarrow> u64 \<Rightarrow> nat \<Rightarrow> store_error + due_index_key list" where
  "collect_due_keys_for_all_depts t now_ms limit =
     collect_due_all now_ms limit [] (map fst (t_iter t))"

definition collect_due_keys ::
    "unit table \<Rightarrow> string option \<Rightarrow> u64 \<Rightarrow> nat \<Rightarrow> store_error + due_index_key list" where
  "collect_due_keys t dpt now_ms limit =
     (if limit = 0 then Inr []
      else case dpt of
          Some d \<Rightarrow> collect_due_keys_for_dept t d now_ms limit
        | None \<Rightarrow> collect_due_keys_for_all_depts t now_ms limit)"

section \<open>The encoding of department names\<close>

lemma encode_index_byte_cases:
  obtains "encode_index_byte c = [c]" and "c \<noteq> CHR ''_''"
    | "encode_index_byte c = ''__''" and "c = CHR ''_''"
    | "encode_index_byte c = CHR ''_'' # CHR ''x'' # byte_HEX c"
  by (cases "is_alnum c \<or> c = CHR ''.'' \<or> c = CHR ''-''"; cases "c = CHR ''_''")
    (auto simp: encode_index_byte_def)

lemma byte_HEX_cancel [simp]: "byte_HEX c @ xs = byte_HEX d @ ys \<longleftrightarrow> c = d \<and> xs = ys"
  by (auto simp: append_eq_append_conv byte_HEX_inject)

lemma encode_index_byte_cancel:
  "encode_index_byte c @ xs = encode_index_byte d @ ys \<Longrightarrow> c = d"
  by (cases c rule: encode_index_byte_cases; cases d rule: encode_index_byte_cases)
    (auto simp: byte_HEX_inject)

lemma concat_map_inject:
  assumes "\<And>c d xs ys. enc c @ xs = enc d @ ys \<Longrightarrow> c = d" and "\<And>c. enc c \<noteq> []"
  shows "concat (map enc s) = concat (map enc t) \<Longrightarrow> s = t"
proof (induction s arbitrary: t)
  case Nil
  then show ?case using assms(2) by (cases t) auto
next
  case (Cons c s)
  then obtain d t' where t: "t = d # t'" using assms(2) by (cases t) auto
  with Cons.prems have "enc c @ concat (map enc s) = enc d @ concat (map enc t')" by simp
  moreover from this have "c = d" by (rule assms(1))
  ultimately show ?case using Cons.IH t by auto
qed

lemma encode_index_byte_not_Nil [simp]: "encode_index_byte c \<noteq> []"
  by (simp add: encode_index_byte_def)

lemma encode_bytes_inject:
  "concat (map encode_index_byte s) = concat (map encode_index_byte t) \<longleftrightarrow> s = t"
  using concat_map_inject [of encode_index_byte s t] encode_index_byte_cancel by auto

text \<open>The escape of an all-dots name is no encoding of another name.\<close>

lemma byte_HEX_no_dot: "byte_HEX c @ ys \<noteq> CHR ''.'' # xs"
  using byte_HEX_alnum [of c] by (cases "byte_HEX c") (auto simp: byte_HEX_def)

lemma encode_bytes_not_escape: "concat (map encode_index_byte s) \<noteq> ''_x.'' @ xs"
proof (cases s)
  case (Cons c s')
  then show ?thesis
    using byte_HEX_no_dot [of c] by (cases c rule: encode_index_byte_cases) auto
qed simp

lemma encode_bytes_not_underscore: "concat (map encode_index_byte s) \<noteq> ''_''"
proof (cases s)
  case (Cons c s')
  then show ?thesis by (cases c rule: encode_index_byte_cases) auto
qed simp

lemma encode_bytes_eq_Nil [simp]: "concat (map encode_index_byte s) = [] \<longleftrightarrow> s = []"
  by (cases s) auto

lemma all_dots_head: "all_dots s \<Longrightarrow> s \<noteq> [] \<Longrightarrow> \<exists>xs. s = CHR ''.'' # xs"
  by (cases s) (auto simp: all_dots_def)

lemma encode_index_part_inject [simp, key_inject]:
  "encode_index_part s = encode_index_part t \<longleftrightarrow> s = t"
proof -
  define e where "e s = concat (map encode_index_byte s)" for s
  have dots: False if "e s = ''_x'' @ e t" "all_dots (e t)" "t \<noteq> []" for s t
    using that all_dots_head [of "e t"] encode_bytes_not_escape [of s] by (auto simp: e_def)
  have one: "e s \<noteq> ''_''" and inj: "e s = e t \<longleftrightarrow> s = t" for s t
    using encode_bytes_not_underscore encode_bytes_inject by (auto simp: e_def)
  have long: "''_'' \<noteq> ''_x'' @ e s" for s by simp
  show ?thesis
    unfolding encode_index_part_def Let_def e_def [symmetric]
    using dots [of s t] dots [of t s] one [of s] one [of t] inj [of s t] inj [of t s] long
    by (simp split: if_split) metis
qed

definition key_char :: "char \<Rightarrow> bool" where
  "key_char c \<longleftrightarrow> is_alnum c \<or> c = CHR ''.'' \<or> c = CHR ''-'' \<or> c = CHR ''_''"

lemma key_char_simps [simp]:
  "key_char (CHR ''_'')" "key_char (CHR ''x'')" "\<not> key_char (CHR ''/'')"
  by (simp_all add: key_char_def is_alnum_def)

lemma encode_index_byte_chars: "list_all key_char (encode_index_byte c)"
  using byte_HEX_alnum [of c]
  by (simp add: encode_index_byte_def byte_HEX_def) (simp add: key_char_def)

lemma list_all_concat_map: "(\<And>x. list_all P (f x)) \<Longrightarrow> list_all P (concat (map f xs))"
  by (induction xs) auto

lemma encode_index_part_chars: "list_all key_char (encode_index_part s)"
  using list_all_concat_map [of key_char encode_index_byte, OF encode_index_byte_chars]
  by (simp add: encode_index_part_def Let_def)

lemma encode_index_part_no_slash [simp, key_shape]: "CHR ''/'' \<notin> set (encode_index_part s)"
  using encode_index_part_chars [of s] by (auto simp: list_all_iff)

section \<open>Keys\<close>

lemma make_index_key_inject [simp, key_inject]:
  "make_index_key d m i = make_index_key e n j \<longleftrightarrow> d = e \<and> m = n \<and> i = j"
  by (auto simp: make_index_key_def sep_append_eq append_eq_append_conv)

lemma make_dead_due_index_key_inject [simp, key_inject]:
  "make_dead_due_index_key d m i = make_dead_due_index_key e n j \<longleftrightarrow> d = e \<and> m = n \<and> i = j"
  by (auto simp: make_dead_due_index_key_def sep_append_eq append_eq_append_conv)

lemma make_dead_time_index_key_inject [simp, key_inject]:
  "make_dead_time_index_key m i = make_dead_time_index_key n j \<longleftrightarrow> m = n \<and> i = j"
  by (auto simp: make_dead_time_index_key_def append_eq_append_conv)

lemma parse_make_index_key [simp]:
  "parse_index_key (make_index_key d m i) =
   Inr \<lparr>ikey_text = make_index_key d m i, due_ms = m, ikey_id = i\<rparr>"
  by (simp add: parse_index_key_def make_index_key_def splitn3_append)

lemma parse_make_dead_due_index_key [simp]:
  "parse_dead_due_index_key (make_dead_due_index_key d m i) =
   Inr \<lparr>ikey_text = make_dead_due_index_key d m i, due_ms = m, ikey_id = i\<rparr>"
  by (simp add: parse_dead_due_index_key_def make_dead_due_index_key_def splitn3_append)

lemma parse_make_dead_time_index_key [simp]:
  "parse_dead_time_index_key (make_dead_time_index_key m i) =
   Inr \<lparr>ikey_text = make_dead_time_index_key m i, due_ms = m, ikey_id = i\<rparr>"
  by (simp add: parse_dead_time_index_key_def make_dead_time_index_key_def splitn2_append)

text \<open>The byte order of a department's keys is the order by due time, then by identity.\<close>

lemma make_index_key_less:
  "make_index_key d m i < make_index_key d n j \<longleftrightarrow> m < n \<or> m = n \<and> i < j"
  by (simp add: make_index_key_def append_less_same_length)

lemma make_dead_time_index_key_less:
  "make_dead_time_index_key m i < make_dead_time_index_key n j \<longleftrightarrow> m < n \<or> m = n \<and> i < j"
  by (simp add: make_dead_time_index_key_def append_less_same_length)

section \<open>Range queries\<close>

lemma dept_range_iff:
  "encode_index_part d @ ''/'' @ fmt20 0 @ ''/'' \<le> make_index_key e m i \<and>
   make_index_key e m i \<le> encode_index_part d @ ''/'' @ fmt20 now @ ''/'' @ max_scalar \<longleftrightarrow>
   e = d \<and> (m < now \<or> m = now \<and> i \<le> max_scalar)"
  (is "?lo \<and> ?hi \<longleftrightarrow> ?rhs")
proof
  assume "?lo \<and> ?hi"
  then obtain c where "make_index_key e m i = (encode_index_part d @ ''/'') @ c"
    using between_prefix [of "encode_index_part d @ ''/''" "fmt20 0 @ ''/''" "make_index_key e m i"
        "fmt20 now @ ''/'' @ max_scalar"] by auto
  then have "e = d" by (auto simp: make_index_key_def sep_append_eq)
  with \<open>?lo \<and> ?hi\<close> show ?rhs by (auto simp: make_index_key_def append_le_same_length)
next
  assume ?rhs
  then show "?lo \<and> ?hi"
    by (auto simp: make_index_key_def append_le_same_length word_less_nat_alt word_neq_0_conv)
qed

definition parsed_key :: "string \<Rightarrow> due_index_key" where
  "parsed_key k = projr (parse_index_key k)"

definition is_due_key :: "string \<Rightarrow> bool" where
  "is_due_key k \<longleftrightarrow> (\<exists>d m i. k = make_index_key d m i \<and> i \<le> max_scalar)"

lemma parsed_make_index_key [simp]:
  "parsed_key (make_index_key d m i) = \<lparr>ikey_text = make_index_key d m i, due_ms = m, ikey_id = i\<rparr>"
  by (simp add: parsed_key_def)

lemma parse_due_key: "is_due_key k \<Longrightarrow> parse_index_key k = Inr (parsed_key k)"
  by (auto simp: is_due_key_def)

lemma collect_parsed_take:
  assumes "length acc < limit" and "\<And>k. k \<in> set ks \<Longrightarrow> parse k = Inr (f k)"
  shows "collect_parsed parse limit acc ks = Inr (take limit (acc @ map f ks))"
  using assms
proof (induction ks arbitrary: acc)
  case (Cons k ks)
  show ?case
  proof (cases "Suc (length acc) = limit")
    case True
    then have "limit - length acc = 1" by simp
    with True Cons.prems show ?thesis by simp
  next
    case False
    with Cons.prems have "length (acc @ [f k]) < limit" by simp
    with Cons.IH [of "acc @ [f k]"] Cons.prems show ?thesis by simp
  qed
qed simp

lemma collect_due_all_take:
  assumes "length acc < limit" and "\<And>k. k \<in> set ks \<Longrightarrow> parse_index_key k = Inr (f k)"
  shows "collect_due_all now_ms limit acc ks =
    Inr (take limit (acc @ filter (\<lambda>p. due_ms p \<le> now_ms) (map f ks)))"
  using assms
proof (induction ks arbitrary: acc)
  case (Cons k ks)
  consider "due_ms (f k) \<le> now_ms" "Suc (length acc) = limit"
    | "due_ms (f k) \<le> now_ms" "length (acc @ [f k]) < limit" | "\<not> due_ms (f k) \<le> now_ms"
    using Cons.prems(1) by fastforce
  then show ?case
  proof cases
    case 1
    then have "limit - length acc = 1" by simp
    with 1 Cons.prems show ?thesis by simp
  next
    case 2
    with Cons.IH [of "acc @ [f k]"] Cons.prems show ?thesis by simp
  next
    case 3
    with Cons.IH [of acc] Cons.prems show ?thesis by simp
  qed
qed simp

text \<open>The entries a query selects: those due, of one department or of all, in key order.\<close>

definition due_entries :: "string option \<Rightarrow> u64 \<Rightarrow> unit table \<Rightarrow> due_index_key list" where
  "due_entries dpt now_ms t =
     map parsed_key (filter (\<lambda>k. due_ms (parsed_key k) \<le> now_ms \<and>
       (case dpt of None \<Rightarrow> True
        | Some d \<Rightarrow> k = make_index_key d (due_ms (parsed_key k)) (ikey_id (parsed_key k))))
       (map fst (t_iter t)))"

lemma filter_map_fst: "filter P (map fst xs) = map fst (filter (\<lambda>(k, v). P k) xs)"
  by (induction xs) auto

lemma collect_due_keys_eq:
  assumes "\<And>k. k \<in> fst ` set (t_iter t) \<Longrightarrow> is_due_key k"
  shows "collect_due_keys t dpt now_ms limit = Inr (take limit (due_entries dpt now_ms t))"
proof (cases "limit = 0")
  case True
  then show ?thesis by (simp add: collect_due_keys_def)
next
  case False
  then have lim: "length ([] :: due_index_key list) < limit" by simp
  show ?thesis
  proof (cases dpt)
    case None
    have "collect_due_all now_ms limit [] (map fst (t_iter t)) =
        Inr (take limit ([] @ filter (\<lambda>p. due_ms p \<le> now_ms) (map parsed_key (map fst (t_iter t)))))"
      using lim assms by (intro collect_due_all_take) (auto intro: parse_due_key)
    with None False show ?thesis
      by (simp add: collect_due_keys_def collect_due_keys_for_all_depts_def due_entries_def
          filter_map comp_def)
  next
    case (Some d)
    define lo hi where "lo = encode_index_part d @ ''/'' @ fmt20 0 @ ''/''"
      and "hi = encode_index_part d @ ''/'' @ fmt20 now_ms @ ''/'' @ max_scalar"
    have "collect_parsed parse_index_key limit [] (map fst (t_range lo hi t)) =
        Inr (take limit ([] @ map parsed_key (map fst (t_range lo hi t))))"
      using lim assms by (intro collect_parsed_take) (auto simp: t_range_def intro: parse_due_key)
    moreover have "lo \<le> k \<and> k \<le> hi \<longleftrightarrow> due_ms (parsed_key k) \<le> now_ms \<and>
        k = make_index_key d (due_ms (parsed_key k)) (ikey_id (parsed_key k))"
      if key: "k \<in> fst ` set (t_iter t)" for k
    proof -
      obtain e m i where k: "k = make_index_key e m i" and i: "i \<le> max_scalar"
        using assms [OF key] by (auto simp: is_due_key_def)
      show ?thesis unfolding k lo_def hi_def dept_range_iff using i by auto
    qed
    then have "filter (\<lambda>k. lo \<le> k \<and> k \<le> hi) (map fst (t_iter t)) =
        filter (\<lambda>k. due_ms (parsed_key k) \<le> now_ms \<and>
          k = make_index_key d (due_ms (parsed_key k)) (ikey_id (parsed_key k))) (map fst (t_iter t))"
      by (intro filter_cong) auto
    then have "map fst (t_range lo hi t) = \<dots>"
      by (simp add: t_range_def filter_map_fst [symmetric] case_prod_beta)
    ultimately show ?thesis
      using Some False
      by (simp add: collect_due_keys_def collect_due_keys_for_dept_def collect_due_keys_in_range_def
          due_entries_def Let_def lo_def hi_def del: map_map)
  qed
qed

end
