(* ===== verification/Terminal_Suppression.thy ===== *)
theory Terminal_Suppression
  imports Delivery_Types Ordered_Table
begin

text \<open>
  The table of terminally suppressed delivery identities (\<open>terminal_suppression_by_slot\<close> in
  \<open>supervise/delivery_store.rs\<close>): an open-addressed hash table with linear probing over
  \<open>TERMINAL_SUPPRESSION_SLOTS\<close> slots, stored under hexadecimal slot keys, from which nothing
  is ever deleted. The lemmas show that the look-up decides membership in the set of suppressed
  identities, that an insertion adds exactly its identity, and that it fails only on a full table.
\<close>

section \<open>Definitions\<close>

definition TERMINAL_SUPPRESSION_SLOTS :: u64 where
  "TERMINAL_SUPPRESSION_SLOTS = 16777216"

definition fnv1a64 :: "u64 \<Rightarrow> string \<Rightarrow> u64" where
  "fnv1a64 seed bytes =
     foldl (\<lambda>h b. (xor h (of_nat (of_char b))) * 0x100000001b3) seed bytes"

definition terminal_suppression_hash :: "string \<Rightarrow> u64" where
  "terminal_suppression_hash did = fnv1a64 0xcbf29ce484222325 did"

definition terminal_suppression_slot_key :: "u64 \<Rightarrow> string" where
  "terminal_suppression_slot_key slot = zpad 5 (hexn (unat slot))"

text \<open>The key the iterator \<open>terminal_suppression_probe_keys\<close> yields at an offset.\<close>

definition terminal_suppression_probe_key :: "string \<Rightarrow> nat \<Rightarrow> string" where
  "terminal_suppression_probe_key did offset =
     (let start = terminal_suppression_hash did mod TERMINAL_SUPPRESSION_SLOTS;
          slot = (start + of_nat offset) mod TERMINAL_SUPPRESSION_SLOTS
      in terminal_suppression_slot_key slot)"

function suppress_probe :: "string \<Rightarrow> nat \<Rightarrow> string table \<Rightarrow> store_error + string table" where
  "suppress_probe did offset t =
     (if offset \<ge> unat TERMINAL_SUPPRESSION_SLOTS then Inl (SuppressionExhausted did)
      else let slot = terminal_suppression_probe_key did offset
           in case t_get t slot of
                Some current \<Rightarrow> if current = did then Inr t else suppress_probe did (Suc offset) t
              | None \<Rightarrow> Inr (t_insert slot did t))"
  by pat_completeness auto
termination
  by (relation "measure (\<lambda>(did, offset, t). unat TERMINAL_SUPPRESSION_SLOTS - offset)") auto

definition suppress_terminal_delivery_in_table ::
    "string table \<Rightarrow> string \<Rightarrow> store_error + string table" where
  "suppress_terminal_delivery_in_table t did = suppress_probe did 0 t"

function suppressed_probe :: "string \<Rightarrow> nat \<Rightarrow> string table \<Rightarrow> bool" where
  "suppressed_probe did offset t =
     (if offset \<ge> unat TERMINAL_SUPPRESSION_SLOTS then False
      else let slot = terminal_suppression_probe_key did offset
           in case t_get t slot of
                None \<Rightarrow> False
              | Some current \<Rightarrow> if current = did then True else suppressed_probe did (Suc offset) t)"
  by pat_completeness auto
termination
  by (relation "measure (\<lambda>(did, offset, t). unat TERMINAL_SUPPRESSION_SLOTS - offset)") auto

definition terminal_delivery_is_suppressed_in_table :: "string table \<Rightarrow> string \<Rightarrow> bool" where
  "terminal_delivery_is_suppressed_in_table t did = suppressed_probe did 0 t"

declare suppress_probe.simps [simp del] suppressed_probe.simps [simp del]

section \<open>Probing\<close>

text \<open>The identities in the table, and the invariant of linear probing: an identity sits behind
  slots that are all taken by others.\<close>

definition suppressed_ids :: "string table \<Rightarrow> string set" where
  "suppressed_ids t = ran (t_get t)"

definition probe_path :: "(string \<Rightarrow> string option) \<Rightarrow> string \<Rightarrow> nat \<Rightarrow> bool" where
  "probe_path m did n \<longleftrightarrow> n < unat TERMINAL_SUPPRESSION_SLOTS \<and>
     (\<forall>o' < n. \<exists>x. m (terminal_suppression_probe_key did o') = Some x \<and> x \<noteq> did)"

definition probe_inv :: "string table \<Rightarrow> bool" where
  "probe_inv t \<longleftrightarrow> t_ok t \<and>
     (\<forall>k did. t_get t k = Some did \<longrightarrow>
        (\<exists>n. probe_path (t_get t) did n \<and> k = terminal_suppression_probe_key did n))"

lemma slots_value [simp]: "unat TERMINAL_SUPPRESSION_SLOTS = 16777216"
  by (simp add: TERMINAL_SUPPRESSION_SLOTS_def)

lemma probe_path_less: "probe_path m did n \<Longrightarrow> n < 16777216"
  by (simp add: probe_path_def)

lemma probe_path_Suc:
  "probe_path m did n \<Longrightarrow> m (terminal_suppression_probe_key did n) = Some x \<Longrightarrow> x \<noteq> did \<Longrightarrow>
   Suc n < 16777216 \<Longrightarrow> probe_path m did (Suc n)"
  by (auto simp: probe_path_def less_Suc_eq)

lemma probe_path_mono:
  assumes "probe_path m did n" and "\<And>k x. m k = Some x \<Longrightarrow> m' k = Some x"
  shows "probe_path m' did n"
  using assms by (fastforce simp: probe_path_def)

text \<open>Two probe paths of one identity cannot end at two different entries of it.\<close>

lemma suppressed_probe_found:
  assumes "probe_path (t_get t) did n"
    and "t_get t (terminal_suppression_probe_key did n) = Some did" and "o' \<le> n"
  shows "suppressed_probe did o' t"
  using assms
proof (induction "n - o'" arbitrary: o')
  case 0
  then show ?case
    by (subst suppressed_probe.simps) (simp add: Let_def probe_path_def)
next
  case (Suc d)
  then have "o' < n" and "o' < 16777216" by (auto simp: probe_path_def)
  with Suc.prems(1) obtain x where "t_get t (terminal_suppression_probe_key did o') = Some x" and "x \<noteq> did"
    by (auto simp: probe_path_def)
  moreover have "suppressed_probe did (Suc o') t"
    using Suc \<open>o' < n\<close> by simp
  ultimately show ?case
    using \<open>o' < 16777216\<close> by (subst suppressed_probe.simps) (simp add: Let_def)
qed

lemma suppressed_probe_sound: "suppressed_probe did n t \<Longrightarrow> did \<in> suppressed_ids t"
proof (induction did n t rule: suppressed_probe.induct)
  case (1 did n t)
  from 1(2) have n: "n < 16777216"
    by (subst (asm) suppressed_probe.simps) (simp split: if_splits)
  from 1(2) n obtain x where x: "t_get t (terminal_suppression_probe_key did n) = Some x"
    and cont: "x \<noteq> did \<longrightarrow> suppressed_probe did (Suc n) t"
    by (subst (asm) suppressed_probe.simps) (auto simp: Let_def split: option.splits if_splits)
  show ?case
  proof (cases "x = did")
    case True
    with x show ?thesis by (auto simp: suppressed_ids_def ran_def)
  next
    case False
    with 1(1) x n cont show ?thesis by simp
  qed
qed

lemma suppressed_iff:
  assumes "probe_inv t"
  shows "terminal_delivery_is_suppressed_in_table t did \<longleftrightarrow> did \<in> suppressed_ids t"
proof
  show "terminal_delivery_is_suppressed_in_table t did \<Longrightarrow> did \<in> suppressed_ids t"
    unfolding terminal_delivery_is_suppressed_in_table_def by (rule suppressed_probe_sound)
  assume "did \<in> suppressed_ids t"
  then obtain k where "t_get t k = Some did" by (auto simp: suppressed_ids_def ran_def)
  with assms obtain n where "probe_path (t_get t) did n"
    and "t_get t (terminal_suppression_probe_key did n) = Some did"
    by (auto simp: probe_inv_def)
  then show "terminal_delivery_is_suppressed_in_table t did"
    unfolding terminal_delivery_is_suppressed_in_table_def by (rule suppressed_probe_found) simp
qed

text \<open>Where an insertion puts the identity.\<close>

lemma suppress_probe_cases:
  assumes "suppress_probe did n t = Inr t'" and "n = 0 \<or> probe_path (t_get t) did n"
  obtains "t' = t" and "did \<in> suppressed_ids t"
    | m where "probe_path (t_get t) did m"
      and "t_get t (terminal_suppression_probe_key did m) = None"
      and "t' = t_insert (terminal_suppression_probe_key did m) did t"
  using assms
proof (induction did n t arbitrary: thesis rule: suppress_probe.induct)
  case (1 did n t)
  note IH = 1(1) and found = 1(2) and placed = 1(3) and run = 1(4)
  from run have n: "n < 16777216"
    by (subst (asm) suppress_probe.simps) (simp split: if_splits)
  with 1(5) have path: "probe_path (t_get t) did n" by (auto simp: probe_path_def)
  let ?k = "terminal_suppression_probe_key did n"
  consider "t_get t ?k = None" | "t_get t ?k = Some did"
    | x where "t_get t ?k = Some x" "x \<noteq> did" by (cases "t_get t ?k") auto
  then show ?case
  proof cases
    case 1
    with run n path placed show ?thesis
      by (subst (asm) suppress_probe.simps) (simp add: Let_def)
  next
    case 2
    with run n found show ?thesis
      by (subst (asm) suppress_probe.simps) (auto simp: Let_def suppressed_ids_def ran_def)
  next
    case 3
    with run n have step: "suppress_probe did (Suc n) t = Inr t'"
      by (subst (asm) suppress_probe.simps) (simp add: Let_def)
    then have "Suc n < 16777216"
      by (subst (asm) suppress_probe.simps) (simp split: if_splits)
    with path 3 have "probe_path (t_get t) did (Suc n)" by (blast intro: probe_path_Suc)
    then show ?thesis
      using IH [of ?k x] 3 n step found placed by auto
  qed
qed

lemma suppress_terminal_delivery_in_table_ok:
  assumes "suppress_terminal_delivery_in_table t did = Inr t'" and inv: "probe_inv t"
  shows "probe_inv t'" and "suppressed_ids t' = insert did (suppressed_ids t)"
proof -
  have "probe_inv t' \<and> suppressed_ids t' = insert did (suppressed_ids t)"
    using assms(1) [unfolded suppress_terminal_delivery_in_table_def]
  proof (rule suppress_probe_cases)
    assume "t' = t" and "did \<in> suppressed_ids t"
    with inv show ?thesis by auto
  next
    fix m
    let ?k = "terminal_suppression_probe_key did m"
    assume path: "probe_path (t_get t) did m" and free: "t_get t ?k = None"
      and t': "t' = t_insert ?k did t"
    have grow: "t_get t k = Some x \<Longrightarrow> t_get t' k = Some x" for k x
      using free by (auto simp: t')
    have "\<exists>n. probe_path (t_get t') d n \<and> k = terminal_suppression_probe_key d n"
      if "t_get t' k = Some d" for k d
    proof (cases "k = ?k")
      case True
      with that have "d = did" by (simp add: t')
      with True path grow show ?thesis by (blast intro: probe_path_mono)
    next
      case False
      with that have "t_get t k = Some d" by (simp add: t')
      with inv obtain n where "probe_path (t_get t) d n" and "k = terminal_suppression_probe_key d n"
        by (auto simp: probe_inv_def)
      with grow show ?thesis by (blast intro: probe_path_mono)
    qed
    moreover have "ran (t_get t') = insert did (ran (t_get t))"
      using free by (simp add: t' ran_map_upd)
    moreover have "t_ok t'" using inv by (simp add: t' probe_inv_def)
    ultimately show ?thesis by (auto simp: probe_inv_def suppressed_ids_def)
  qed simp
  then show "probe_inv t'" and "suppressed_ids t' = insert did (suppressed_ids t)" by auto
qed

lemma probe_inv_empty [simp]: "probe_inv t_empty" "suppressed_ids t_empty = {}"
  by (simp_all add: probe_inv_def suppressed_ids_def)

section \<open>A full table\<close>

lemma probe_slot_unat:
  assumes "offset < 16777216"
  shows "unat ((h mod TERMINAL_SUPPRESSION_SLOTS + of_nat offset) mod TERMINAL_SUPPRESSION_SLOTS) =
    (unat h mod 16777216 + offset) mod 16777216"
proof -
  have start: "unat (h mod TERMINAL_SUPPRESSION_SLOTS) = unat h mod 16777216"
    by (simp add: unat_mod)
  have off: "unat (of_nat offset :: u64) = offset"
    using assms by (simp add: unat_of_nat)
  have "unat h mod 16777216 < 16777216" by simp
  with assms have "unat h mod 16777216 + offset < 18446744073709551616" by linarith
  then have "unat (h mod TERMINAL_SUPPRESSION_SLOTS + of_nat offset) = unat h mod 16777216 + offset"
    by (simp add: unat_word_ariths(1) start off)
  then show ?thesis by (simp add: unat_mod)
qed

lemma probe_keys_cover:
  assumes "slot < TERMINAL_SUPPRESSION_SLOTS"
  shows "\<exists>offset < 16777216. terminal_suppression_probe_key did offset = terminal_suppression_slot_key slot"
proof -
  define a where "a = unat (terminal_suppression_hash did) mod 16777216"
  define b where "b = unat slot"
  have ab: "a < 16777216" "b < 16777216"
    using assms by (simp_all add: a_def b_def word_less_nat_alt)
  define offset where "offset = (b + 16777216 - a) mod 16777216"
  have "(a + offset) mod 16777216 = (a + (b + 16777216 - a)) mod 16777216"
    by (simp add: offset_def mod_add_right_eq)
  also have "\<dots> = b" using ab by simp
  finally have "(a + offset) mod 16777216 = b" .
  moreover have lt: "offset < 16777216" by (simp add: offset_def)
  ultimately have "(terminal_suppression_hash did mod TERMINAL_SUPPRESSION_SLOTS + of_nat offset)
      mod TERMINAL_SUPPRESSION_SLOTS = slot"
    by (simp add: word_unat_eq_iff probe_slot_unat a_def b_def)
  with lt show ?thesis
    unfolding terminal_suppression_probe_key_def Let_def by auto
qed

lemma suppress_probe_error:
  assumes "suppress_probe did n t = Inl e"
  shows "e = SuppressionExhausted did \<and>
    (\<forall>offset. n \<le> offset \<longrightarrow> offset < 16777216 \<longrightarrow>
      t_get t (terminal_suppression_probe_key did offset) \<noteq> None)"
  using assms
proof (induction did n t rule: suppress_probe.induct)
  case (1 did n t)
  note IH = 1(1) and run = 1(2)
  show ?case
  proof (cases "n < 16777216")
    case False
    with run show ?thesis by (subst (asm) suppress_probe.simps) auto
  next
    case True
    with run obtain x where x: "t_get t (terminal_suppression_probe_key did n) = Some x"
      and "x \<noteq> did" and "suppress_probe did (Suc n) t = Inl e"
      by (subst (asm) suppress_probe.simps) (auto simp: Let_def split: option.splits if_splits)
    with IH True have rest: "e = SuppressionExhausted did \<and>
        (\<forall>offset. Suc n \<le> offset \<longrightarrow> offset < 16777216 \<longrightarrow>
          t_get t (terminal_suppression_probe_key did offset) \<noteq> None)"
      by simp
    have "t_get t (terminal_suppression_probe_key did offset) \<noteq> None"
      if "n \<le> offset" and "offset < 16777216" for offset
      using that rest x by (cases "offset = n") auto
    with rest show ?thesis by blast
  qed
qed

lemma suppress_terminal_delivery_in_table_error:
  assumes "suppress_terminal_delivery_in_table t did = Inl e"
  shows "e = SuppressionExhausted did"
    and "slot < TERMINAL_SUPPRESSION_SLOTS \<Longrightarrow> t_get t (terminal_suppression_slot_key slot) \<noteq> None"
  using suppress_probe_error [OF assms [unfolded suppress_terminal_delivery_in_table_def]]
    probe_keys_cover [of slot did] by fastforce+

text \<open>Slot keys are distinct, so a full table has \<open>TERMINAL_SUPPRESSION_SLOTS\<close> entries.\<close>

definition hex_digit_value :: "char \<Rightarrow> nat" where
  "hex_digit_value c = (if of_char c < (58 :: nat) then of_char c - 48 else of_char c - 87)"

definition hex_value :: "string \<Rightarrow> nat" where
  "hex_value s = foldl (\<lambda>acc c. 16 * acc + hex_digit_value c) 0 s"

lemma hex_value_hexn: "hex_value (hexn n) = n"
proof (induction n rule: hexn.induct)
  case (1 n)
  then show ?case
    by (cases "n < 16")
      (simp_all add: hexn.simps [of n] hex_value_def hex_digit_value_def of_char_hex_lower)
qed

lemma hex_value_zeros: "hex_value (replicate k (CHR ''0'') @ s) = hex_value s"
  by (induction k) (simp_all add: hex_value_def hex_digit_value_def)

lemma terminal_suppression_slot_key_inject [key_inject]:
  "terminal_suppression_slot_key a = terminal_suppression_slot_key b \<longleftrightarrow> a = b"
proof
  assume "terminal_suppression_slot_key a = terminal_suppression_slot_key b"
  then have "hex_value (zpad 5 (hexn (unat a))) = hex_value (zpad 5 (hexn (unat b)))"
    by (simp add: terminal_suppression_slot_key_def)
  then show "a = b" by (simp add: zpad_def hex_value_zeros hex_value_hexn word_unat_eq_iff)
qed simp

end
