(* ===== verification/Lineage_Index.thy ===== *)
theory Lineage_Index
  imports Delivery_Types Delivery_Index Ordered_Table
begin

text \<open>
  The lineage index of the delivery store (\<open>lineage_by_source\<close> in
  \<open>supervise/delivery_store.rs\<close>): from queue, department and source to the live deliveries
  and the terminal dead letters of that source. The base64 encoder of the third-party crate is the
  parameter \<open>b64\<close>; what the keys rely on is the hypothesis \<open>segment_encoding\<close>: distinct
  values have distinct encodings, and an encoding has no slash.
\<close>

section \<open>Definitions\<close>

fun source_kind_key :: "source_kind \<Rightarrow> string" where
  "source_kind_key File = ''file''"
| "source_kind_key Cron = ''cron''"
| "source_kind_key Git = ''git''"
| "source_kind_key External = ''external''"

definition encode_lineage_segment :: "(string \<Rightarrow> string) \<Rightarrow> string \<Rightarrow> string" where
  "encode_lineage_segment b64 v = b64 v"

definition encode_ordered_lineage_id :: "string \<Rightarrow> string" where
  "encode_ordered_lineage_id v = concat (map byte_hex v)"

definition lineage_index_prefix ::
    "(string \<Rightarrow> string) \<Rightarrow> string \<Rightarrow> string \<Rightarrow> source_ref \<Rightarrow> string \<Rightarrow> string" where
  "lineage_index_prefix b64 q d src record_kind =
     ''v1/queue/'' @ encode_lineage_segment b64 q @ ''/dept/'' @ encode_lineage_segment b64 d
     @ ''/source/'' @ source_kind_key (src_kind src) @ ''/''
     @ encode_lineage_segment b64 (src_reference src) @ ''/'' @ record_kind @ ''/''"

definition lineage_index_key ::
    "(string \<Rightarrow> string) \<Rightarrow> string \<Rightarrow> string \<Rightarrow> source_ref \<Rightarrow> string \<Rightarrow> u64 \<Rightarrow> string \<Rightarrow> string" where
  "lineage_index_key b64 q d src record_kind sort_ms did =
     lineage_index_prefix b64 q d src record_kind @ ''at/'' @ fmt20 sort_ms @ ''/id/''
     @ encode_ordered_lineage_id did"

definition is_terminal_tombstone :: "dead_record \<Rightarrow> bool" where
  "is_terminal_tombstone r \<longleftrightarrow>
     dr_delivery_id r \<noteq> [] \<and> 1 \<le> attempts r \<and> permanent r \<and> \<not> replayable r"

definition insert_delivery_lineage_index ::
    "(string \<Rightarrow> string) \<Rightarrow> delivery_record \<Rightarrow> string table \<Rightarrow> string table" where
  "insert_delivery_lineage_index b64 r t =
     (case source r of
        None \<Rightarrow> t
      | Some src \<Rightarrow>
          t_insert (lineage_index_key b64 (queue r) (dept r) src ''live'' (not_before_ms r) (delivery_id r))
            (delivery_id r) t)"

definition remove_delivery_lineage_index ::
    "(string \<Rightarrow> string) \<Rightarrow> delivery_record \<Rightarrow> string table \<Rightarrow> string table" where
  "remove_delivery_lineage_index b64 r t =
     (case source r of
        None \<Rightarrow> t
      | Some src \<Rightarrow>
          t_remove (lineage_index_key b64 (queue r) (dept r) src ''live'' (not_before_ms r) (delivery_id r)) t)"

definition insert_dead_lineage_index ::
    "(string \<Rightarrow> string) \<Rightarrow> dead_record \<Rightarrow> string table \<Rightarrow> string table" where
  "insert_dead_lineage_index b64 r t =
     (if \<not> is_terminal_tombstone r then t
      else case dr_source r of
          None \<Rightarrow> t
        | Some src \<Rightarrow>
            t_insert (lineage_index_key b64 (dr_queue r) (dr_dept r) src ''terminal'' (dead_at_ms r) (dr_delivery_id r))
              (dr_delivery_id r) t)"

definition remove_dead_lineage_index ::
    "(string \<Rightarrow> string) \<Rightarrow> dead_record \<Rightarrow> string table \<Rightarrow> string table" where
  "remove_dead_lineage_index b64 r t =
     (if \<not> is_terminal_tombstone r then t
      else case dr_source r of
          None \<Rightarrow> t
        | Some src \<Rightarrow>
            t_remove (lineage_index_key b64 (dr_queue r) (dr_dept r) src ''terminal'' (dead_at_ms r) (dr_delivery_id r)) t)"

section \<open>Keys\<close>

definition segment_encoding :: "(string \<Rightarrow> string) \<Rightarrow> bool" where
  "segment_encoding b64 \<longleftrightarrow> inj b64 \<and> (\<forall>s. CHR ''/'' \<notin> set (b64 s))"

lemma segment_encodingD:
  assumes "segment_encoding b64"
  shows "CHR ''/'' \<notin> set (b64 s)" and "b64 s = b64 t \<longleftrightarrow> s = t"
  using assms by (auto simp: segment_encoding_def dest: injD)

lemma source_kind_key_inject: "source_kind_key a = source_kind_key b \<longleftrightarrow> a = b"
  by (cases a; cases b) auto

lemma source_kind_key_no_slash: "CHR ''/'' \<notin> set (source_kind_key k)"
  by (cases k) auto

lemma encode_ordered_lineage_id_inject [simp, key_inject]:
  "encode_ordered_lineage_id s = encode_ordered_lineage_id t \<longleftrightarrow> s = t"
proof -
  have "byte_hex c @ xs = byte_hex d @ ys \<Longrightarrow> c = d" for c d xs ys
    by (auto simp: append_eq_append_conv byte_hex_inject)
  moreover have "byte_hex c \<noteq> []" for c by (simp add: byte_hex_def)
  ultimately show ?thesis
    using concat_map_inject [of byte_hex s t] by (auto simp: encode_ordered_lineage_id_def)
qed

text \<open>The hexadecimal form keeps the order of identities.\<close>

lemma encode_ordered_lineage_id_less:
  "encode_ordered_lineage_id s < encode_ordered_lineage_id t \<longleftrightarrow> s < t"
proof (induction s arbitrary: t)
  case Nil
  show ?case by (cases t) (auto simp: encode_ordered_lineage_id_def byte_hex_def)
next
  case (Cons c s)
  show ?case
  proof (cases t)
    case Nil
    then show ?thesis by (simp add: encode_ordered_lineage_id_def)
  next
    case (Cons d t')
    have "encode_ordered_lineage_id (c # s) < encode_ordered_lineage_id (d # t') \<longleftrightarrow>
        byte_hex c < byte_hex d \<or> byte_hex c = byte_hex d \<and>
          encode_ordered_lineage_id s < encode_ordered_lineage_id t'"
      unfolding encode_ordered_lineage_id_def by (simp add: append_less_same_length)
    with Cons Cons.IH show ?thesis by (simp add: byte_hex_less_iff byte_hex_inject)
  qed
qed

lemma lineage_index_prefix_cancel:
  assumes "segment_encoding b64" and "CHR ''/'' \<notin> set rk" and "CHR ''/'' \<notin> set rk'"
  shows "lineage_index_prefix b64 q d src rk @ xs = lineage_index_prefix b64 q' d' src' rk' @ ys \<longleftrightarrow>
    q = q' \<and> d = d' \<and> src = src' \<and> rk = rk' \<and> xs = ys"
  using assms
  by (cases src; cases src')
    (auto simp: lineage_index_prefix_def encode_lineage_segment_def sep_append_eq segment_encodingD
      source_kind_key_inject source_kind_key_no_slash)

lemma lineage_index_key_inject:
  assumes "segment_encoding b64" and "CHR ''/'' \<notin> set rk" and "CHR ''/'' \<notin> set rk'"
  shows "lineage_index_key b64 q d src rk m i = lineage_index_key b64 q' d' src' rk' m' i' \<longleftrightarrow>
    q = q' \<and> d = d' \<and> src = src' \<and> rk = rk' \<and> m = m' \<and> i = i'"
  using assms by (simp add: lineage_index_key_def lineage_index_prefix_cancel append_eq_append_conv)

text \<open>Within one source and record kind the keys are ordered by time, then by identity.\<close>

lemma lineage_index_key_less:
  "lineage_index_key b64 q d src rk m i < lineage_index_key b64 q d src rk m' i' \<longleftrightarrow>
   m < m' \<or> m = m' \<and> i < i'"
  by (simp add: lineage_index_key_def append_less_same_length encode_ordered_lineage_id_less)

text \<open>The range a look-up scans holds exactly the keys of its queue, department, source and kind.\<close>

lemma lineage_range_iff:
  assumes "segment_encoding b64" and "CHR ''/'' \<notin> set rk" and "CHR ''/'' \<notin> set rk'"
  shows "lineage_index_prefix b64 q d src rk \<le> lineage_index_key b64 q' d' src' rk' m i \<and>
    lineage_index_key b64 q' d' src' rk' m i \<le> lineage_index_prefix b64 q d src rk @ max_scalar \<longleftrightarrow>
    q' = q \<and> d' = d \<and> src' = src \<and> rk' = rk"
  (is "?lo \<and> ?hi \<longleftrightarrow> ?rhs")
proof
  assume *: "?lo \<and> ?hi"
  have "lineage_index_prefix b64 q d src rk @ [] \<le> lineage_index_key b64 q' d' src' rk' m i"
    using * by simp
  then obtain c where "lineage_index_key b64 q' d' src' rk' m i = lineage_index_prefix b64 q d src rk @ c"
    using between_prefix * by blast
  with assms show ?rhs by (simp add: lineage_index_key_def lineage_index_prefix_cancel)
next
  assume rhs: ?rhs
  have "lineage_index_prefix b64 q d src rk @ [] \<le> lineage_index_prefix b64 q d src rk @ xs" for xs
    unfolding append_le_cancel by simp
  with rhs show "?lo \<and> ?hi"
    by (simp add: lineage_index_key_def max_scalar_def less_char_def)
qed

section \<open>The index as a derived table\<close>

type_synonym lineage_id = "string + string"

text \<open>The rows behind the index: live deliveries on the left, dead records on the right.\<close>

definition lineage_rows ::
    "(string \<Rightarrow> delivery_record option) \<Rightarrow> (string \<Rightarrow> dead_record option) \<Rightarrow>
     lineage_id \<Rightarrow> (delivery_record + dead_record) option" where
  "lineage_rows live dead x =
     (case x of Inl i \<Rightarrow> map_option Inl (live i) | Inr i \<Rightarrow> map_option Inr (dead i))"

fun lineage_entry ::
    "(string \<Rightarrow> string) \<Rightarrow> lineage_id \<Rightarrow> delivery_record + dead_record \<Rightarrow> (string \<times> string) option" where
  "lineage_entry b64 (Inl i) (Inl r) =
     map_option (\<lambda>src. (lineage_index_key b64 (queue r) (dept r) src ''live'' (not_before_ms r) i, i))
       (source r)"
| "lineage_entry b64 (Inr i) (Inr d) =
     (if is_terminal_tombstone d
      then map_option (\<lambda>src.
             (lineage_index_key b64 (dr_queue d) (dr_dept d) src ''terminal'' (dead_at_ms d) i, i))
           (dr_source d)
      else None)"
| "lineage_entry b64 _ _ = None"

lemma lineage_rows_live [simp]:
  "lineage_rows (live(i := x)) dead = (lineage_rows live dead)(Inl i := map_option Inl x)"
  by (auto simp: lineage_rows_def fun_eq_iff split: sum.splits)

lemma lineage_rows_dead [simp]:
  "lineage_rows live (dead(i := x)) = (lineage_rows live dead)(Inr i := map_option Inr x)"
  by (auto simp: lineage_rows_def fun_eq_iff split: sum.splits)

lemma lineage_rows_apply [simp]:
  "lineage_rows live dead (Inl i) = map_option Inl (live i)"
  "lineage_rows live dead (Inr i) = map_option Inr (dead i)"
  by (simp_all add: lineage_rows_def)

lemma lineage_secondary_index:
  assumes "segment_encoding b64"
  shows "secondary_index (lineage_entry b64)"
proof
  fix i j :: lineage_id and r q k v w
  assume "lineage_entry b64 i r = Some (k, v)" and "lineage_entry b64 j q = Some (k, w)"
  with assms show "i = j"
    by (cases "(b64, i, r)" rule: lineage_entry.cases; cases "(b64, j, q)" rule: lineage_entry.cases)
      (auto simp: lineage_index_key_inject split: if_splits)
qed

end
