(* ===== verification/Store_State.thy ===== *)
theory Store_State
  imports Delivery_Types Delivery_Retry Delivery_Index Terminal_Suppression Lineage_Index
begin

text \<open>
  The database of the delivery store and the helpers its operations share
  (\<open>supervise/delivery_transition.rs\<close> and the free functions of
  \<open>supervise/delivery_store.rs\<close>): reading rows, leasing one index key, rebuilding the derived
  tables and compacting terminal dead records. One field of \<open>store_db\<close> is one table of the
  database. Functions that update tables return the updated database; \<open>Inl\<close> is an error that
  abandons the transaction.
\<close>

section \<open>The database\<close>

record store_db =
  delivery_by_id :: "delivery_record blob table"
  ready_by_dept_due :: "unit table"
  leased_by_dept_until :: "unit table"
  dead_by_id :: "dead_record blob table"
  dead_by_time :: "unit table"
  dead_by_dept_due :: "unit table"
  terminal_dead_by_time :: "unit table"
  terminal_suppression_by_slot :: "string table"
  lineage_by_source :: "string table"
  meta :: "string table"
  terminal_suppressed_by_id :: "unit table option"
  terminal_suppression_filter :: bool
  old_ready_by_due :: bool
  old_leased_by_until :: bool

text \<open>A freshly created database: no table has an entry, no legacy table exists.\<close>

definition empty_db :: store_db where
  "empty_db = \<lparr>delivery_by_id = t_empty, ready_by_dept_due = t_empty, leased_by_dept_until = t_empty,
     dead_by_id = t_empty, dead_by_time = t_empty, dead_by_dept_due = t_empty,
     terminal_dead_by_time = t_empty, terminal_suppression_by_slot = t_empty,
     lineage_by_source = t_empty, meta = t_empty, terminal_suppressed_by_id = None,
     terminal_suppression_filter = False, old_ready_by_due = False, old_leased_by_until = False\<rparr>"

text \<open>The code outside the repository: the base64 encoder and the standard library's hasher.\<close>

record externs =
  ext_b64 :: "string \<Rightarrow> string"
  ext_hash :: "string \<Rightarrow> u64 \<Rightarrow> u64"

text \<open>\<open>insert\<close> and \<open>remove\<close> on one table of the database.\<close>

definition put_delivery :: "string \<Rightarrow> delivery_record \<Rightarrow> store_db \<Rightarrow> store_db" where
  "put_delivery i r db = db\<lparr>delivery_by_id := t_insert i (Blob r) (delivery_by_id db)\<rparr>"

definition del_delivery :: "string \<Rightarrow> store_db \<Rightarrow> store_db" where
  "del_delivery i db = db\<lparr>delivery_by_id := t_remove i (delivery_by_id db)\<rparr>"

definition put_dead :: "string \<Rightarrow> dead_record \<Rightarrow> store_db \<Rightarrow> store_db" where
  "put_dead i d db = db\<lparr>dead_by_id := t_insert i (Blob d) (dead_by_id db)\<rparr>"

definition del_dead :: "string \<Rightarrow> store_db \<Rightarrow> store_db" where
  "del_dead i db = db\<lparr>dead_by_id := t_remove i (dead_by_id db)\<rparr>"

definition ready_ins :: "string \<Rightarrow> store_db \<Rightarrow> store_db" where
  "ready_ins k db = db\<lparr>ready_by_dept_due := t_insert k () (ready_by_dept_due db)\<rparr>"

definition ready_rem :: "string \<Rightarrow> store_db \<Rightarrow> store_db" where
  "ready_rem k db = db\<lparr>ready_by_dept_due := t_remove k (ready_by_dept_due db)\<rparr>"

definition leased_ins :: "string \<Rightarrow> store_db \<Rightarrow> store_db" where
  "leased_ins k db = db\<lparr>leased_by_dept_until := t_insert k () (leased_by_dept_until db)\<rparr>"

definition leased_rem :: "string \<Rightarrow> store_db \<Rightarrow> store_db" where
  "leased_rem k db = db\<lparr>leased_by_dept_until := t_remove k (leased_by_dept_until db)\<rparr>"

definition dtime_ins :: "string \<Rightarrow> store_db \<Rightarrow> store_db" where
  "dtime_ins k db = db\<lparr>dead_by_time := t_insert k () (dead_by_time db)\<rparr>"

definition dtime_rem :: "string \<Rightarrow> store_db \<Rightarrow> store_db" where
  "dtime_rem k db = db\<lparr>dead_by_time := t_remove k (dead_by_time db)\<rparr>"

definition ddue_ins :: "string \<Rightarrow> store_db \<Rightarrow> store_db" where
  "ddue_ins k db = db\<lparr>dead_by_dept_due := t_insert k () (dead_by_dept_due db)\<rparr>"

definition ddue_rem :: "string \<Rightarrow> store_db \<Rightarrow> store_db" where
  "ddue_rem k db = db\<lparr>dead_by_dept_due := t_remove k (dead_by_dept_due db)\<rparr>"

definition terminal_ins :: "string \<Rightarrow> store_db \<Rightarrow> store_db" where
  "terminal_ins k db = db\<lparr>terminal_dead_by_time := t_insert k () (terminal_dead_by_time db)\<rparr>"

definition terminal_rem :: "string \<Rightarrow> store_db \<Rightarrow> store_db" where
  "terminal_rem k db = db\<lparr>terminal_dead_by_time := t_remove k (terminal_dead_by_time db)\<rparr>"

definition lineage_upd :: "(string table \<Rightarrow> string table) \<Rightarrow> store_db \<Rightarrow> store_db" where
  "lineage_upd f db = db\<lparr>lineage_by_source := f (lineage_by_source db)\<rparr>"

lemmas table_updates =
  put_delivery_def del_delivery_def put_dead_def del_dead_def ready_ins_def ready_rem_def
  leased_ins_def leased_rem_def dtime_ins_def dtime_rem_def ddue_ins_def ddue_rem_def
  terminal_ins_def terminal_rem_def lineage_upd_def

section \<open>Reading rows\<close>

definition read_delivery_table ::
    "delivery_record blob table \<Rightarrow> string \<Rightarrow> store_error + delivery_record option" where
  "read_delivery_table t i =
     (case t_get t i of
        None \<Rightarrow> Inr None
      | Some b \<Rightarrow> (case decode b of None \<Rightarrow> Inl (Undecodable i) | Some r \<Rightarrow> Inr (Some r)))"

definition decode_dead_record :: "string \<Rightarrow> dead_record blob \<Rightarrow> dead_record option" where
  "decode_dead_record i b = decode b"

definition read_dead_table :: "dead_record blob table \<Rightarrow> string \<Rightarrow> dead_record option" where
  "read_dead_table t i =
     (case t_get t i of None \<Rightarrow> None | Some b \<Rightarrow> decode_dead_record i b)"

definition duration_millis :: "duration \<Rightarrow> u64" where
  "duration_millis d = clamp_u64 (as_millis d)"

definition should_index_dead_record :: "dead_record \<Rightarrow> bool" where
  "should_index_dead_record d \<longleftrightarrow> \<not> permanent d \<and> replayable d \<and> dr_record d \<noteq> None"

definition is_terminal_dead_record :: "dead_record \<Rightarrow> bool" where
  "is_terminal_dead_record d \<longleftrightarrow> permanent d \<or> \<not> replayable d"

definition suppress_terminal_delivery :: "string \<Rightarrow> store_db \<Rightarrow> store_error + store_db" where
  "suppress_terminal_delivery i db =
     rbind (suppress_terminal_delivery_in_table (terminal_suppression_by_slot db) i)
       (\<lambda>t. Inr (db\<lparr>terminal_suppression_by_slot := t\<rparr>))"

definition terminal_delivery_is_suppressed :: "store_db \<Rightarrow> string \<Rightarrow> bool" where
  "terminal_delivery_is_suppressed db i =
     terminal_delivery_is_suppressed_in_table (terminal_suppression_by_slot db) i"

section \<open>Leasing one index key\<close>

record lease_key_outcome =
  lko_record :: "delivery_record option"
  lko_mutated :: bool

definition lko_unchanged :: lease_key_outcome where
  "lko_unchanged = \<lparr>lko_record = None, lko_mutated = False\<rparr>"

definition lko_mutated_with :: "delivery_record option \<Rightarrow> lease_key_outcome" where
  "lko_mutated_with r = \<lparr>lko_record = r, lko_mutated = True\<rparr>"

text \<open>The last part of \<open>lease_key\<close>: take the lease.\<close>

definition lease_key_take ::
    "string \<Rightarrow> u64 \<Rightarrow> delivery_record \<Rightarrow> store_db \<Rightarrow> store_db \<times> lease_key_outcome" where
  "lease_key_take i lease_until r db =
     (let db1 = (case lease_until_ms r of
            None \<Rightarrow> db
          | Some old \<Rightarrow> leased_rem (make_index_key (dept r) old i) db);
          r1 = r\<lparr>lease_generation := sat_add (lease_generation r) 1, lease_until_ms := Some lease_until\<rparr>;
          db2 = put_delivery i r1 db1;
          db3 = leased_ins (make_index_key (dept r1) lease_until i) db2
      in (db3, lko_mutated_with (Some r1)))"

definition lease_key ::
    "due_index_key \<Rightarrow> u64 \<Rightarrow> u64 \<Rightarrow> string option \<Rightarrow> string set \<Rightarrow> bool \<Rightarrow> store_db \<Rightarrow>
     store_error + store_db \<times> lease_key_outcome" where
  "lease_key key now_ms lease_until dpt excluded from_expired_lease db =
     (let index_key = ikey_text key; indexed_at = due_ms key; i = ikey_id key in
      if i \<in> excluded then Inr (db, lko_unchanged)
      else rbind (read_delivery_table (delivery_by_id db) i) (\<lambda>found.
        case found of
          None \<Rightarrow>
            Inr (if from_expired_lease then leased_rem index_key db else ready_rem index_key db,
                 lko_mutated_with None)
        | Some r \<Rightarrow>
            if (case dpt of None \<Rightarrow> False | Some wanted \<Rightarrow> dept r \<noteq> wanted)
            then Inr (db, lko_unchanged)
            else let db1 = (if from_expired_lease then leased_rem index_key db else ready_rem index_key db) in
              if from_expired_lease \<and> lease_until_ms r \<noteq> Some indexed_at
              then Inr (db1, lko_mutated_with None)
              else if \<not> from_expired_lease \<and> lease_until_ms r \<noteq> None
              then Inr (db1, lko_mutated_with None)
              else if now_ms < not_before_ms r \<and> \<not> from_expired_lease
              then Inr (ready_ins (make_index_key (dept r) (not_before_ms r) i) db1, lko_mutated_with None)
              else Inr (lease_key_take i lease_until r db1)))"

section \<open>Rebuilding the derived tables\<close>

definition rebuild_due_row ::
    "unit table \<times> unit table \<Rightarrow> string \<times> delivery_record blob \<Rightarrow>
     store_error + unit table \<times> unit table" where
  "rebuild_due_row tabs row =
     (case tabs of (ready, leased) \<Rightarrow> case row of (i, b) \<Rightarrow>
        (case decode b of
           None \<Rightarrow> Inl (Undecodable i)
         | Some r \<Rightarrow>
             (case lease_until_ms r of
                Some lease_until \<Rightarrow>
                  Inr (ready, t_insert (make_index_key (dept r) lease_until (delivery_id r)) () leased)
              | None \<Rightarrow>
                  Inr (t_insert (make_index_key (dept r) (not_before_ms r) (delivery_id r)) () ready, leased))))"

definition rebuild_due_indexes :: "store_db \<Rightarrow> store_error + store_db" where
  "rebuild_due_indexes db =
     rbind (fold_result rebuild_due_row (t_empty, t_empty) (t_iter (delivery_by_id db)))
       (\<lambda>(ready, leased). Inr (db\<lparr>ready_by_dept_due := ready, leased_by_dept_until := leased\<rparr>))"

definition mark_dead_row :: "store_db \<Rightarrow> string \<times> dead_record blob \<Rightarrow> store_db" where
  "mark_dead_row db row =
     (case row of (i, b) \<Rightarrow>
        (case decode b of
           None \<Rightarrow> db
         | Some d \<Rightarrow> put_dead i (d\<lparr>permanent := True, replayable := False, dr_record := None\<rparr>) db))"

definition mark_existing_dead_records_permanent :: "store_db \<Rightarrow> store_db" where
  "mark_existing_dead_records_permanent db = foldl mark_dead_row db (t_iter (dead_by_id db))"

definition rebuild_dead_due_row :: "store_db \<Rightarrow> string \<times> dead_record blob \<Rightarrow> store_db" where
  "rebuild_dead_due_row db row =
     (case row of (i, b) \<Rightarrow>
        (case decode_dead_record i b of
           None \<Rightarrow> db
         | Some d \<Rightarrow>
             if should_index_dead_record d
             then ddue_ins (make_dead_due_index_key (dr_dept d) (dead_at_ms d) i) db else db))"

definition rebuild_dead_due_index :: "store_db \<Rightarrow> store_db" where
  "rebuild_dead_due_index db =
     foldl rebuild_dead_due_row (db\<lparr>dead_by_dept_due := t_empty\<rparr>) (t_iter (dead_by_id db))"

definition rebuild_dead_time_row :: "store_db \<Rightarrow> string \<times> dead_record blob \<Rightarrow> store_db" where
  "rebuild_dead_time_row db row =
     (case row of (i, b) \<Rightarrow>
        (case decode_dead_record i b of
           None \<Rightarrow> db
         | Some d \<Rightarrow> dtime_ins (make_dead_time_index_key (dead_at_ms d) i) db))"

definition rebuild_dead_time_index :: "store_db \<Rightarrow> store_db" where
  "rebuild_dead_time_index db =
     foldl rebuild_dead_time_row (db\<lparr>dead_by_time := t_empty\<rparr>) (t_iter (dead_by_id db))"

definition rebuild_terminal_dead_row ::
    "nat option \<Rightarrow> store_db \<Rightarrow> string \<times> dead_record blob \<Rightarrow> store_error + store_db" where
  "rebuild_terminal_dead_row previous_schema_version db row =
     (case row of (i, b) \<Rightarrow>
        (case decode_dead_record i b of
           None \<Rightarrow> Inr db
         | Some d \<Rightarrow>
             if is_terminal_dead_record d
             then let db1 = terminal_ins (make_dead_due_index_key (dr_dept d) (dead_at_ms d) i) db in
               rbind (read_delivery_table (delivery_by_id db1) i) (\<lambda>live.
                 let live_keyed_follow_up =
                       (case live of None \<Rightarrow> False | Some current \<Rightarrow> collapse_by_dedup_id current);
                     schema_v11_keyed_reuse =
                       (previous_schema_version = Some 11 \<and> \<not> terminal_delivery_is_suppressed db1 i);
                     grant = ((live_keyed_follow_up \<or> schema_v11_keyed_reuse) \<and> \<not> allows_keyed_reuse d);
                     d1 = (if grant then d\<lparr>allows_keyed_reuse := True\<rparr> else d);
                     db2 = (if grant then put_dead i d1 db1 else db1)
                 in if \<not> allows_keyed_reuse d1 then suppress_terminal_delivery i db2 else Inr db2)
             else Inr db))"

definition rebuild_terminal_dead_tables :: "store_db \<Rightarrow> nat option \<Rightarrow> store_error + store_db" where
  "rebuild_terminal_dead_tables db previous_schema_version =
     fold_result (rebuild_terminal_dead_row previous_schema_version)
       (db\<lparr>terminal_dead_by_time := t_empty\<rparr>) (t_iter (dead_by_id db))"

definition rebuild_lineage_index :: "(string \<Rightarrow> string) \<Rightarrow> store_db \<Rightarrow> store_db" where
  "rebuild_lineage_index b64 db =
     (let deliveries = List.map_filter (\<lambda>(i, b). decode b) (t_iter (delivery_by_id db));
          dead_records = List.map_filter (\<lambda>(i, b). decode_dead_record i b) (t_iter (dead_by_id db));
          t1 = foldl (\<lambda>t r. insert_delivery_lineage_index b64 r t) t_empty deliveries;
          t2 = foldl (\<lambda>t d. insert_dead_lineage_index b64 d t) t1 dead_records
      in db\<lparr>lineage_by_source := t2\<rparr>)"

definition delete_old_global_indexes :: "store_db \<Rightarrow> store_db" where
  "delete_old_global_indexes db = db\<lparr>old_ready_by_due := False, old_leased_by_until := False\<rparr>"

definition drop_legacy_terminal_suppressed_table :: "store_db \<Rightarrow> store_db" where
  "drop_legacy_terminal_suppressed_table db = db\<lparr>terminal_suppressed_by_id := None\<rparr>"

definition drop_legacy_terminal_suppression_filter :: "store_db \<Rightarrow> store_db" where
  "drop_legacy_terminal_suppression_filter db = db\<lparr>terminal_suppression_filter := False\<rparr>"

definition read_legacy_terminal_suppressed_ids :: "store_db \<Rightarrow> string list" where
  "read_legacy_terminal_suppressed_ids db =
     (case terminal_suppressed_by_id db of None \<Rightarrow> [] | Some t \<Rightarrow> map fst (t_iter t))"

definition import_legacy_terminal_suppressed_ids :: "store_db \<Rightarrow> store_error + store_db" where
  "import_legacy_terminal_suppressed_ids db =
     fold_result (\<lambda>db i. suppress_terminal_delivery i db) db (read_legacy_terminal_suppressed_ids db)"

section \<open>Compaction of terminal dead records\<close>

definition TERMINAL_DEAD_RETENTION_MS :: u64 where
  "TERMINAL_DEAD_RETENTION_MS = 24 * 60 * 60 * 1000"

definition TERMINAL_DEAD_COMPACTION_LIMIT :: nat where
  "TERMINAL_DEAD_COMPACTION_LIMIT = 1024"

definition collect_compactable_terminal_dead_keys ::
    "store_db \<Rightarrow> u64 \<Rightarrow> store_error + due_index_key list" where
  "collect_compactable_terminal_dead_keys db cutoff_ms =
     collect_parsed parse_dead_due_index_key TERMINAL_DEAD_COMPACTION_LIMIT []
       (map fst (t_range (fmt20 0 @ ''/'') (fmt20 cutoff_ms @ ''/'' @ max_scalar)
          (terminal_dead_by_time db)))"

text \<open>One pass of the loop body on a key; the Boolean says whether the loop goes on.\<close>

definition compact_key ::
    "(string \<Rightarrow> string) \<Rightarrow> u64 option \<Rightarrow> due_index_key \<Rightarrow> store_db \<times> nat \<Rightarrow>
     store_error + (store_db \<times> nat) \<times> bool" where
  "compact_key b64 cutoff key st =
     (case st of (db, compacted) \<Rightarrow> let i = ikey_id key in
      case read_dead_table (dead_by_id db) i of
        None \<Rightarrow>
          Inr ((dtime_rem (make_dead_time_index_key (due_ms key) i) (terminal_rem (ikey_text key) db),
                Suc compacted), True)
      | Some d \<Rightarrow>
          if dead_at_ms d \<noteq> due_ms key \<or> \<not> is_terminal_dead_record d
          then let db1 = dtime_ins (make_dead_time_index_key (dead_at_ms d) i)
                          (dtime_rem (make_dead_time_index_key (due_ms key) i)
                            (terminal_rem (ikey_text key) db)) in
            rbind (if is_terminal_dead_record d
                   then let db2 = terminal_ins (make_dead_due_index_key (dr_dept d) (dead_at_ms d) i) db1
                        in if \<not> allows_keyed_reuse d then suppress_terminal_delivery i db2 else Inr db2
                   else Inr db1) (\<lambda>db3. Inr ((db3, Suc compacted), True))
          else case cutoff of
              None \<Rightarrow> Inr ((db, compacted), False)
            | Some cutoff_ms \<Rightarrow>
                if cutoff_ms < dead_at_ms d then Inr ((db, compacted), False)
                else Inr ((ddue_rem (make_dead_due_index_key (dr_dept d) (dead_at_ms d) i)
                            (terminal_rem (ikey_text key)
                              (dtime_rem (make_dead_time_index_key (dead_at_ms d) i)
                                (del_dead i
                                  (lineage_upd (remove_dead_lineage_index b64 d) db)))),
                           Suc compacted), True))"

fun compact_loop ::
    "(string \<Rightarrow> string) \<Rightarrow> u64 option \<Rightarrow> store_db \<times> nat \<Rightarrow> due_index_key list \<Rightarrow>
     store_error + store_db \<times> nat" where
  "compact_loop b64 cutoff st [] = Inr st"
| "compact_loop b64 cutoff st (key # keys) =
     rbind (compact_key b64 cutoff key st) (\<lambda>(st', go).
       if go then compact_loop b64 cutoff st' keys else Inr st')"

definition compact_terminal_dead_records ::
    "(string \<Rightarrow> string) \<Rightarrow> u64 \<Rightarrow> store_db \<Rightarrow> store_error + store_db \<times> nat" where
  "compact_terminal_dead_records b64 now_ms db =
     (let cutoff = (if TERMINAL_DEAD_RETENTION_MS \<le> now_ms
                    then Some (now_ms - TERMINAL_DEAD_RETENTION_MS) else None) in
      rbind (case cutoff of
               None \<Rightarrow> Inr []
             | Some cutoff_ms \<Rightarrow> collect_compactable_terminal_dead_keys db cutoff_ms) (\<lambda>stale_keys.
        if stale_keys = [] then Inr (db, 0)
        else compact_loop b64 cutoff (db, 0) stale_keys))"

end
