(* ===== verification/Delivery_Store.thy ===== *)
theory Delivery_Store
  imports Store_State "HOL-Library.Product_Lexorder"
begin

text \<open>
  The operations of \<open>DeliveryStore\<close> (\<open>supervise/delivery_store.rs\<close>), in the order of the
  code. An operation takes the committed database and returns the committed database with the
  result of the call; an error, and an early return before the commit, keep the database as it was.
  A read transaction followed by a write transaction of one call sees the same database.
\<close>

section \<open>Outcomes\<close>

datatype enqueue_outcome = Accepted | TerminallySuppressed

datatype retry_outcome = Scheduled | DeadPendingRedrive | PermanentDead | Stale | Missing

datatype lock_busy_defer_outcome = DeferScheduled | DeferStale | DeferMissing

record retry_failure =
  rf_message :: string
  rf_replayable :: bool

record redrive_result =
  redriven :: "delivery_record list"
  permanent_dead :: "dead_record list"

record rebound_delivery =
  rb_delivery_id :: string
  rb_queue :: string
  old_dept :: string
  new_dept :: string
  rb_leased :: bool

record subscriber_absent_mark =
  sm_delivery_id :: string
  sm_queue :: string
  sm_dept :: string
  absent_since_ms :: u64

record subscriber_absent_sweep =
  marked_absent :: "subscriber_absent_mark list"
  cleared_absent :: "subscriber_absent_mark list"
  dead_lettered :: "dead_record list"

record lineage_lookup =
  live_delivery :: "delivery_record option"
  terminal_dead_letter :: "dead_record option"

datatype delivery_scan_record = ScanDelivery delivery_record | ScanDead dead_record

section \<open>Opening a database\<close>

definition SCHEMA_VERSION :: string where
  "SCHEMA_VERSION = ''12''"

definition parse_u32 :: "string \<Rightarrow> nat option" where
  "parse_u32 s = parse_nat 4294967296 s"

definition migrate_schema ::
    "externs \<Rightarrow> nat option \<Rightarrow> store_db \<Rightarrow> store_error + store_db" where
  "migrate_schema X current_schema_version db =
     rbind (rebuild_due_indexes (delete_old_global_indexes db)) (\<lambda>db1.
       let db2 = (case current_schema_version of
              None \<Rightarrow> mark_existing_dead_records_permanent db1
            | Some v \<Rightarrow> if v < 3 then mark_existing_dead_records_permanent db1 else db1);
           db3 = rebuild_dead_time_index (rebuild_dead_due_index db2)
       in rbind (rebuild_terminal_dead_tables db3 current_schema_version) (\<lambda>db4.
          rbind (import_legacy_terminal_suppressed_ids db4) (\<lambda>db5.
            Inr (rebuild_lineage_index (ext_b64 X)
                  (drop_legacy_terminal_suppression_filter
                    (drop_legacy_terminal_suppressed_table db5))))))"

definition open_store :: "externs \<Rightarrow> store_db \<Rightarrow> store_error + store_db" where
  "open_store X db =
     (let current_version = t_get (meta db) ''schema_version'';
          current_schema_version = Option.bind current_version parse_u32;
          supported_schema_version = the (parse_u32 SCHEMA_VERSION)
      in if (case current_schema_version of None \<Rightarrow> False | Some v \<Rightarrow> supported_schema_version < v)
         then Inl (SchemaTooNew (the current_version))
         else let db1 = (if current_version = Some ''1'' then db\<lparr>dead_by_id := t_empty\<rparr> else db)
           in rbind (if current_version \<noteq> Some SCHEMA_VERSION
                     then migrate_schema X current_schema_version db1 else Inr db1) (\<lambda>db2.
                Inr (db2\<lparr>meta := t_insert ''schema_version'' SCHEMA_VERSION (meta db2)\<rparr>)))"

section \<open>Accepting deliveries\<close>

definition same_delivery_content :: "delivery_record \<Rightarrow> delivery_record \<Rightarrow> bool" where
  "same_delivery_content l r \<longleftrightarrow>
     delivery_id l = delivery_id r \<and> queue l = queue r \<and> dept l = dept r \<and>
     payload l = payload r \<and> source l = source r \<and> cron_payload l = cron_payload r"

text \<open>The branch of \<open>enqueue\<close> for an identity that is live and keyed on either side.\<close>

definition enqueue_collapse :: "delivery_record \<Rightarrow> delivery_record \<Rightarrow> store_db \<Rightarrow> store_db" where
  "enqueue_collapse current r db =
     (if collapse_by_dedup_id current \<and> collapse_by_dedup_id r
      then (case lease_until_ms current of
              None \<Rightarrow> db
            | Some lease_until \<Rightarrow>
                if not_before_ms r < lease_until
                then (if \<not> pending_dirty current
                      then put_delivery (delivery_id r) (current\<lparr>pending_dirty := True\<rparr>) db
                      else db)
                else put_delivery (delivery_id r) (current\<lparr>lease_until_ms := None\<rparr>)
                       (ready_ins (make_index_key (dept current) (not_before_ms current) (delivery_id r))
                         (leased_rem (make_index_key (dept current) lease_until (delivery_id r)) db)))
      else db)"

definition enqueue ::
    "externs \<Rightarrow> delivery_record \<Rightarrow> store_db \<Rightarrow> store_error + store_db \<times> enqueue_outcome" where
  "enqueue X r db =
     rbind (read_delivery_table (delivery_by_id db) (delivery_id r)) (\<lambda>found.
       case found of
         Some current \<Rightarrow>
           if collapse_by_dedup_id current \<or> collapse_by_dedup_id r
           then Inr (enqueue_collapse current r db, Accepted)
           else if same_delivery_content current r then Inr (db, Accepted)
           else Inl (ConflictingDuplicate (delivery_id r))
       | None \<Rightarrow>
           rbind (compact_terminal_dead_records (ext_b64 X) (observed_at_ms r) db) (\<lambda>(db1, n).
             if terminal_delivery_is_suppressed db1 (delivery_id r)
             then Inr (db1, TerminallySuppressed)
             else Inr (ready_ins (make_index_key (dept r) (not_before_ms r) (delivery_id r))
                        (lineage_upd (insert_delivery_lineage_index (ext_b64 X) r)
                          (put_delivery (delivery_id r) r db1)), Accepted)))"

section \<open>Lineage look-ups\<close>

fun first_live ::
    "delivery_record blob table \<Rightarrow> string list \<Rightarrow> store_error + delivery_record option" where
  "first_live t [] = Inr None"
| "first_live t (i # is) =
     rbind (read_delivery_table t i) (\<lambda>found.
       case found of None \<Rightarrow> first_live t is | Some r \<Rightarrow> Inr (Some r))"

fun first_terminal :: "dead_record blob table \<Rightarrow> string list \<Rightarrow> dead_record option" where
  "first_terminal t [] = None"
| "first_terminal t (i # is) =
     (case read_dead_table t i of
        None \<Rightarrow> first_terminal t is
      | Some d \<Rightarrow> if \<not> is_terminal_tombstone d then first_terminal t is else Some d)"

definition lookup_lineage ::
    "externs \<Rightarrow> string \<Rightarrow> string \<Rightarrow> source_ref \<Rightarrow> store_db \<Rightarrow> store_error + lineage_lookup" where
  "lookup_lineage X q d src db =
     (let live_prefix = lineage_index_prefix (ext_b64 X) q d src ''live'';
          dead_prefix = lineage_index_prefix (ext_b64 X) q d src ''terminal''
      in rbind (first_live (delivery_by_id db)
                 (map snd (t_range live_prefix (live_prefix @ max_scalar) (lineage_by_source db))))
           (\<lambda>live. Inr \<lparr>live_delivery = live,
              terminal_dead_letter = first_terminal (dead_by_id db)
                (rev (map snd (t_range dead_prefix (dead_prefix @ max_scalar) (lineage_by_source db))))\<rparr>))"

section \<open>Rebinding to the current subscribers\<close>

definition rebind_candidates ::
    "string table \<Rightarrow> store_db \<Rightarrow> (string \<times> delivery_record \<times> string) list" where
  "rebind_candidates current_dept_by_queue db =
     List.map_filter (\<lambda>(i, b).
       case decode b of
         None \<Rightarrow> None
       | Some r \<Rightarrow>
           (case t_get current_dept_by_queue (queue r) of
              None \<Rightarrow> None
            | Some current_dept \<Rightarrow> if dept r = current_dept then None else Some (i, r, current_dept)))
       (t_iter (delivery_by_id db))"

definition rebind_one ::
    "externs \<Rightarrow> store_db \<Rightarrow> string \<times> delivery_record \<times> string \<Rightarrow> store_db" where
  "rebind_one X db c =
     (case c of (i, r, nd) \<Rightarrow>
        let db1 = lineage_upd (remove_delivery_lineage_index (ext_b64 X) r) db;
            (db2, r1) = (case lease_until_ms r of
                Some u \<Rightarrow> (leased_rem (make_index_key (dept r) u i) db1,
                           r\<lparr>lease_generation := sat_add (lease_generation r) 1\<rparr>)
              | None \<Rightarrow> (ready_rem (make_index_key (dept r) (not_before_ms r) i) db1, r));
            r2 = r1\<lparr>dept := nd\<rparr>;
            db3 = lineage_upd (insert_delivery_lineage_index (ext_b64 X) r2) (put_delivery i r2 db2)
        in case lease_until_ms r2 of
             Some u \<Rightarrow> leased_ins (make_index_key (dept r2) u i) db3
           | None \<Rightarrow> ready_ins (make_index_key (dept r2) (not_before_ms r2) i) db3)"

definition rebound_of :: "string \<times> delivery_record \<times> string \<Rightarrow> rebound_delivery" where
  "rebound_of c = (case c of (i, r, nd) \<Rightarrow>
     \<lparr>rb_delivery_id = i, rb_queue = queue r, old_dept = dept r, new_dept = nd,
      rb_leased = (lease_until_ms r \<noteq> None)\<rparr>)"

definition rebind_deliveries_to_current_subscribers ::
    "externs \<Rightarrow> string table \<Rightarrow> store_db \<Rightarrow> store_db \<times> rebound_delivery list" where
  "rebind_deliveries_to_current_subscribers X current_dept_by_queue db =
     (if current_dept_by_queue = [] then (db, [])
      else let candidates = rebind_candidates current_dept_by_queue db
        in if candidates = [] then (db, [])
           else (foldl (rebind_one X) db candidates, map rebound_of candidates))"

section \<open>Subscriber absence\<close>

definition SUBSCRIBER_ABSENT_DEAD_REASON :: string where
  "SUBSCRIBER_ABSENT_DEAD_REASON = ''subscriber-absent''"

definition subscriber_absence_budget_elapsed :: "u64 \<Rightarrow> u64 \<Rightarrow> u64 \<Rightarrow> bool" where
  "subscriber_absence_budget_elapsed absent_since budget_ms now_ms \<longleftrightarrow>
     sat_add absent_since budget_ms \<le> now_ms"

definition empty_sweep :: subscriber_absent_sweep where
  "empty_sweep = \<lparr>marked_absent = [], cleared_absent = [], dead_lettered = []\<rparr>"

definition is_empty_sweep :: "subscriber_absent_sweep \<Rightarrow> bool" where
  "is_empty_sweep s \<longleftrightarrow> marked_absent s = [] \<and> cleared_absent s = [] \<and> dead_lettered s = []"

fun absence_candidates ::
    "string set \<Rightarrow> nat \<Rightarrow> string list \<Rightarrow> (string \<times> delivery_record blob) list \<Rightarrow> string list" where
  "absence_candidates queues limit acc [] = acc"
| "absence_candidates queues limit acc ((i, b) # rows) =
     (case decode b of
        None \<Rightarrow> absence_candidates queues limit acc rows
      | Some r \<Rightarrow>
          if queue r \<in> queues \<and> subscriber_absent_since_ms r = None
          then absence_candidates queues limit acc rows
          else if length (acc @ [i]) \<ge> limit then acc @ [i]
          else absence_candidates queues limit (acc @ [i]) rows)"

definition collect_subscriber_absence_candidates ::
    "string set \<Rightarrow> nat \<Rightarrow> store_db \<Rightarrow> string list" where
  "collect_subscriber_absence_candidates queues limit db =
     absence_candidates queues limit [] (t_iter (delivery_by_id db))"

text \<open>The dead record of a delivery whose queue has lost its subscriber.\<close>

definition absent_record :: "delivery_record \<Rightarrow> u64 \<Rightarrow> delivery_record" where
  "absent_record r now_ms =
     r\<lparr>lease_until_ms := None, not_before_ms := now_ms,
       last_error_excerpt := Some SUBSCRIBER_ABSENT_DEAD_REASON\<rparr>"

definition absent_dead_record :: "delivery_record \<Rightarrow> u64 \<Rightarrow> dead_record" where
  "absent_dead_record r now_ms =
     \<lparr>dr_delivery_id = delivery_id r, dr_queue = queue r, dr_dept = dept r, dr_source = source r,
      dr_observed_at_ms = observed_at_ms r, dr_not_before_ms = not_before_ms r, dead_at_ms = now_ms,
      attempts = attempt r, dr_redrive_count = redrive_count r, replayable = True, permanent = False,
      allows_keyed_reuse = False, error_excerpt_of = last_error_excerpt r, dr_record = Some r\<rparr>"

text \<open>Drop what the derived tables hold of a dead record that is about to be replaced.\<close>

definition forget_previous_dead :: "externs \<Rightarrow> dead_record \<Rightarrow> string \<Rightarrow> store_db \<Rightarrow> store_db" where
  "forget_previous_dead X previous i db =
     terminal_rem (make_dead_due_index_key (dr_dept previous) (dead_at_ms previous) i)
       (ddue_rem (make_dead_due_index_key (dr_dept previous) (dead_at_ms previous) i)
         (dtime_rem (make_dead_time_index_key (dead_at_ms previous) i)
           (lineage_upd (remove_dead_lineage_index (ext_b64 X) previous) db)))"

definition sweep_dead_letter ::
    "externs \<Rightarrow> u64 \<Rightarrow> string \<Rightarrow> delivery_record \<Rightarrow> store_db \<Rightarrow> store_db \<times> dead_record" where
  "sweep_dead_letter X now_ms i r db =
     (let db1 = (case lease_until_ms r of
            Some u \<Rightarrow> leased_rem (make_index_key (dept r) u i) db
          | None \<Rightarrow> ready_rem (make_index_key (dept r) (not_before_ms r) i) db);
          db2 = lineage_upd (remove_delivery_lineage_index (ext_b64 X) r) db1;
          r1 = absent_record r now_ms;
          d = absent_dead_record r1 now_ms;
          db3 = (case read_dead_table (dead_by_id db2) i of
              None \<Rightarrow> db2
            | Some previous \<Rightarrow> forget_previous_dead X previous (dr_delivery_id previous) db2);
          db4 = lineage_upd (insert_dead_lineage_index (ext_b64 X) d) (put_dead i d db3);
          db5 = ddue_ins (make_dead_due_index_key (dr_dept d) (dead_at_ms d) i)
                  (dtime_ins (make_dead_time_index_key (dead_at_ms d) i) db4)
      in (del_delivery i db5, d))"

definition sweep_one ::
    "externs \<Rightarrow> string set \<Rightarrow> u64 \<Rightarrow> u64 \<Rightarrow> store_db \<times> subscriber_absent_sweep \<Rightarrow> string \<Rightarrow>
     store_error + store_db \<times> subscriber_absent_sweep" where
  "sweep_one X queues now_ms budget_ms st i =
     (case st of (db, sweep) \<Rightarrow>
        rbind (read_delivery_table (delivery_by_id db) i) (\<lambda>found.
          case found of
            None \<Rightarrow> Inr (db, sweep)
          | Some r \<Rightarrow>
              let has_current_subscriber = queue r \<in> queues in
              (case subscriber_absent_since_ms r of
                 None \<Rightarrow>
                   if has_current_subscriber then Inr (db, sweep)
                   else Inr (put_delivery i (r\<lparr>subscriber_absent_since_ms := Some now_ms\<rparr>) db,
                          sweep\<lparr>marked_absent := marked_absent sweep @
                            [\<lparr>sm_delivery_id = i, sm_queue = queue r, sm_dept = dept r,
                              absent_since_ms = now_ms\<rparr>]\<rparr>)
               | Some since \<Rightarrow>
                   if has_current_subscriber
                   then Inr (put_delivery i (r\<lparr>subscriber_absent_since_ms := None\<rparr>) db,
                          sweep\<lparr>cleared_absent := cleared_absent sweep @
                            [\<lparr>sm_delivery_id = i, sm_queue = queue r, sm_dept = dept r,
                              absent_since_ms = since\<rparr>]\<rparr>)
                   else if \<not> subscriber_absence_budget_elapsed since budget_ms now_ms
                   then Inr (db, sweep)
                   else (case sweep_dead_letter X now_ms i r db of (db', d) \<Rightarrow>
                          Inr (db', sweep\<lparr>dead_lettered := dead_lettered sweep @ [d]\<rparr>)))))"

definition sweep_subscriber_absence ::
    "externs \<Rightarrow> string set \<Rightarrow> u64 \<Rightarrow> duration \<Rightarrow> nat \<Rightarrow> store_db \<Rightarrow>
     store_error + store_db \<times> subscriber_absent_sweep" where
  "sweep_subscriber_absence X queues now_ms budget batch_limit db =
     (if batch_limit = 0 then Inr (db, empty_sweep)
      else let budget_ms = duration_millis budget;
               candidates = collect_subscriber_absence_candidates queues batch_limit db
        in if candidates = [] then Inr (db, empty_sweep)
           else rbind (fold_result (sweep_one X queues now_ms budget_ms) (db, empty_sweep) candidates)
             (\<lambda>(db1, sweep).
               rbind (compact_terminal_dead_records (ext_b64 X) now_ms db1) (\<lambda>(db2, n).
                 if is_empty_sweep sweep then Inr (db, sweep) else Inr (db2, sweep))))"

section \<open>Leases\<close>

definition renew_one ::
    "u64 \<Rightarrow> store_db \<times> delivery_record table \<Rightarrow> string \<times> u64 \<Rightarrow>
     store_error + store_db \<times> delivery_record table" where
  "renew_one lease_until st renewal =
     (case st of (db, applied) \<Rightarrow> case renewal of (i, gen) \<Rightarrow>
        rbind (read_delivery_table (delivery_by_id db) i) (\<lambda>found.
          case found of
            None \<Rightarrow> Inr (db, applied)
          | Some current \<Rightarrow>
              (case lease_until_ms current of
                 None \<Rightarrow> Inr (db, applied)
               | Some old \<Rightarrow>
                   if lease_generation current \<noteq> gen then Inr (db, applied)
                   else let r = current\<lparr>lease_until_ms := Some lease_until\<rparr> in
                     Inr (leased_ins (make_index_key (dept current) lease_until i)
                            (put_delivery i r
                              (leased_rem (make_index_key (dept current) old i) db)),
                          t_insert i r applied))))"

definition renew_leases ::
    "(string \<times> u64) list \<Rightarrow> u64 \<Rightarrow> store_db \<Rightarrow> store_error + store_db \<times> delivery_record table" where
  "renew_leases renewals lease_until db =
     (if renewals = [] then Inr (db, t_empty)
      else rbind (fold_result (renew_one lease_until) (db, t_empty) renewals) (\<lambda>(db1, applied).
        if applied = t_empty then Inr (db, applied) else Inr (db1, applied)))"

definition renew_lease :: "string \<Rightarrow> u64 \<Rightarrow> u64 \<Rightarrow> store_db \<Rightarrow> store_error + store_db \<times> bool" where
  "renew_lease i gen lease_until db =
     rbind (renew_leases [(i, gen)] lease_until db) (\<lambda>(db1, applied). Inr (db1, applied \<noteq> t_empty))"

definition usize_max :: nat where
  "usize_max = 18446744073709551615"

definition expired_lease_quota :: "nat \<Rightarrow> nat" where
  "expired_lease_quota batch_limit = (if batch_limit = 0 then 0 else max (batch_limit div 2) 1)"

definition scan_budget :: "nat \<Rightarrow> nat \<Rightarrow> nat" where
  "scan_budget batch_limit excluded_len = min (min (batch_limit * 8) usize_max + excluded_len) usize_max"

definition collect_leaseable_keys ::
    "u64 \<Rightarrow> nat \<Rightarrow> string option \<Rightarrow> string set \<Rightarrow> store_db \<Rightarrow>
     store_error + due_index_key list \<times> due_index_key list" where
  "collect_leaseable_keys now_ms batch_limit dpt excluded db =
     (let budget = scan_budget batch_limit (card excluded) in
      rbind (collect_due_keys (leased_by_dept_until db) dpt now_ms budget) (\<lambda>expired.
      rbind (collect_due_keys (ready_by_dept_due db) dpt now_ms budget) (\<lambda>ready_keys.
        Inr (take (expired_lease_quota batch_limit) expired, ready_keys))))"

text \<open>The two loops of \<open>lease_matching\<close>: lease keys until a limit is reached.\<close>

fun lease_keys ::
    "nat \<Rightarrow> u64 \<Rightarrow> u64 \<Rightarrow> string option \<Rightarrow> string set \<Rightarrow> bool \<Rightarrow>
     store_db \<times> delivery_record list \<times> bool \<Rightarrow> due_index_key list \<Rightarrow>
     store_error + store_db \<times> delivery_record list \<times> bool" where
  "lease_keys limit now_ms lease_until dpt excluded expired st [] = Inr st"
| "lease_keys limit now_ms lease_until dpt excluded expired (db, leased, mutated) (key # keys) =
     (if length leased \<ge> limit then Inr (db, leased, mutated)
      else rbind (lease_key key now_ms lease_until dpt excluded expired db) (\<lambda>(db', oc).
        lease_keys limit now_ms lease_until dpt excluded expired
          (db', (case lko_record oc of None \<Rightarrow> leased | Some r \<Rightarrow> leased @ [r]),
           mutated \<or> lko_mutated oc) keys))"

definition lease_matching ::
    "u64 \<Rightarrow> nat \<Rightarrow> duration \<Rightarrow> string option \<Rightarrow> string set \<Rightarrow> store_db \<Rightarrow>
     store_error + store_db \<times> delivery_record list" where
  "lease_matching now_ms batch_limit lease_dur dpt excluded db =
     (if batch_limit = 0 then Inr (db, [])
      else let lease_until = sat_add now_ms (duration_millis lease_dur) in
        rbind (collect_leaseable_keys now_ms batch_limit dpt excluded db) (\<lambda>(expired_keys, ready_keys).
          if expired_keys = [] \<and> ready_keys = [] then Inr (db, [])
          else rbind (lease_keys (expired_lease_quota batch_limit) now_ms lease_until dpt excluded True
                       (db, [], False) expired_keys) (\<lambda>st1.
               rbind (lease_keys batch_limit now_ms lease_until dpt excluded False st1 ready_keys)
                 (\<lambda>(db2, leased, mutated).
                   if \<not> mutated then Inr (db, leased) else Inr (db2, leased)))))"

definition lease :: "u64 \<Rightarrow> nat \<Rightarrow> duration \<Rightarrow> store_db \<Rightarrow> store_error + store_db \<times> delivery_record list" where
  "lease now_ms batch_limit lease_dur db = lease_matching now_ms batch_limit lease_dur None {} db"

definition lease_for_dept_excluding ::
    "string \<Rightarrow> u64 \<Rightarrow> nat \<Rightarrow> duration \<Rightarrow> string set \<Rightarrow> store_db \<Rightarrow>
     store_error + store_db \<times> delivery_record list" where
  "lease_for_dept_excluding d now_ms batch_limit lease_dur excluded db =
     lease_matching now_ms batch_limit lease_dur (Some d) excluded db"

definition lease_for_dept ::
    "string \<Rightarrow> u64 \<Rightarrow> nat \<Rightarrow> duration \<Rightarrow> store_db \<Rightarrow> store_error + store_db \<times> delivery_record list" where
  "lease_for_dept d now_ms batch_limit lease_dur db =
     lease_for_dept_excluding d now_ms batch_limit lease_dur {} db"

fun read_all :: "delivery_record blob table \<Rightarrow> due_index_key list \<Rightarrow> store_error + delivery_record list" where
  "read_all t [] = Inr []"
| "read_all t (k # ks) =
     rbind (read_delivery_table t (ikey_id k)) (\<lambda>found.
       rbind (read_all t ks) (\<lambda>rs. Inr (case found of None \<Rightarrow> rs | Some r \<Rightarrow> r # rs)))"

definition due_ready_records :: "u64 \<Rightarrow> store_db \<Rightarrow> store_error + delivery_record list" where
  "due_ready_records now_ms db =
     rbind (collect_due_keys (ready_by_dept_due db) None now_ms usize_max)
       (read_all (delivery_by_id db))"

definition lease_delivery ::
    "string \<Rightarrow> u64 \<Rightarrow> duration \<Rightarrow> store_db \<Rightarrow> store_error + store_db \<times> delivery_record option" where
  "lease_delivery i now_ms lease_dur db =
     (let lease_until = sat_add now_ms (duration_millis lease_dur) in
      rbind (read_delivery_table (delivery_by_id db) i) (\<lambda>found.
        case found of
          None \<Rightarrow> Inr (db, None)
        | Some r \<Rightarrow>
            if lease_until_ms r \<noteq> None \<or> now_ms < not_before_ms r then Inr (db, None)
            else let r1 = r\<lparr>lease_generation := sat_add (lease_generation r) 1,
                            lease_until_ms := Some lease_until\<rparr> in
              Inr (leased_ins (make_index_key (dept r1) lease_until i)
                     (put_delivery i r1
                       (ready_rem (make_index_key (dept r) (not_before_ms r) i) db)), Some r1)))"

definition next_due_deterministic ::
    "u64 \<Rightarrow> duration \<Rightarrow> store_db \<Rightarrow> store_error + store_db \<times> delivery_record option" where
  "next_due_deterministic now_ms lease_dur db =
     rbind (due_ready_records now_ms db) (\<lambda>due.
       case sort_key (\<lambda>r. (not_before_ms r, queue r, dept r, delivery_id r)) due of
         [] \<Rightarrow> Inr (db, None)
       | next # rest \<Rightarrow> lease_delivery (delivery_id next) now_ms lease_dur db)"

end
