(* ===== verification/Delivery_Settlement.thy ===== *)
theory Delivery_Settlement
  imports Delivery_Store
begin

text \<open>
  The operations of \<open>DeliveryStore\<close> that settle a leased delivery, bring dead ones back, and
  the read-only scans (\<open>ack\<close>, \<open>defer_lock_busy\<close>, \<open>retry\<close>, \<open>redrive_due\<close>,
  \<open>get_dead\<close>, \<open>scan_records\<close> and the dead-letter pages of
  \<open>supervise/delivery_store.rs\<close>).
\<close>

section \<open>Acknowledging and deferring\<close>

text \<open>\<open>prepare_dirty_follow_up\<close> returns whether it changed the record it was given.\<close>

definition prepare_dirty_follow_up :: "delivery_record \<Rightarrow> u64 \<Rightarrow> delivery_record \<times> bool" where
  "prepare_dirty_follow_up r nb =
     (if \<not> collapse_by_dedup_id r \<or> \<not> pending_dirty r then (r, False)
      else (r\<lparr>pending_dirty := False, attempt := 0, redrive_count := 0,
              subscriber_absent_since_ms := None, lease_until_ms := None,
              not_before_ms := nb, last_error_excerpt := None\<rparr>, True))"

definition ack :: "externs \<Rightarrow> string \<Rightarrow> u64 \<Rightarrow> store_db \<Rightarrow> store_error + store_db \<times> bool" where
  "ack X i gen db =
     rbind (read_delivery_table (delivery_by_id db) i) (\<lambda>found.
       case found of
         None \<Rightarrow> Inr (db, False)
       | Some current \<Rightarrow>
           if lease_generation current \<noteq> gen then Inr (db, False)
           else (case lease_until_ms current of
               None \<Rightarrow> Inr (db, False)
             | Some u \<Rightarrow>
                 let db1 = lineage_upd (remove_delivery_lineage_index (ext_b64 X) current)
                             (leased_rem (make_index_key (dept current) u i) db);
                     (r, dirty) = prepare_dirty_follow_up current (not_before_ms current)
                 in if dirty
                    then Inr (ready_ins (make_index_key (dept r) (not_before_ms r) i)
                               (lineage_upd (insert_delivery_lineage_index (ext_b64 X) r)
                                 (put_delivery i r db1)), True)
                    else Inr (del_delivery i db1, True)))"

definition lock_busy_message :: "string \<Rightarrow> string" where
  "lock_busy_message lock = ''lock busy lock='' @ lock"

text \<open>The due time after a delay with jitter, or the panic of the jitter.\<close>

definition delayed_due :: "externs \<Rightarrow> string \<Rightarrow> u64 \<Rightarrow> retry_policy \<Rightarrow> u64 \<Rightarrow> store_error + u64" where
  "delayed_due X i ordinal policy now_ms =
     (let delay = backoff_delay (base policy) (cap policy) ordinal in
      case bounded_jitter (ext_hash X) i ordinal (base policy) of
        None \<Rightarrow> Inl JitterPanic
      | Some jitter \<Rightarrow> Inr (sat_add (sat_add now_ms (duration_millis delay)) (duration_millis jitter)))"

definition defer_lock_busy ::
    "externs \<Rightarrow> string \<Rightarrow> u64 \<Rightarrow> string \<Rightarrow> retry_policy \<Rightarrow> u64 \<Rightarrow> store_db \<Rightarrow>
     store_error + store_db \<times> lock_busy_defer_outcome" where
  "defer_lock_busy X i gen lock policy now_ms db =
     rbind (read_delivery_table (delivery_by_id db) i) (\<lambda>found.
       case found of
         None \<Rightarrow> Inr (db, DeferMissing)
       | Some current \<Rightarrow>
           (case lease_until_ms current of
              None \<Rightarrow> Inr (db, DeferStale)
            | Some u \<Rightarrow>
                if lease_generation current \<noteq> gen then Inr (db, DeferStale)
                else let db1 = lineage_upd (remove_delivery_lineage_index (ext_b64 X) current)
                                 (leased_rem (make_index_key (dept current) u i) db);
                         defer_ordinal = max (lease_generation current) 1
                  in rbind (delayed_due X i defer_ordinal policy now_ms) (\<lambda>due.
                     let r = current\<lparr>not_before_ms := due, lease_until_ms := None,
                               last_error_excerpt := Some (error_excerpt (lock_busy_message lock))\<rparr>
                     in Inr (ready_ins (make_index_key (dept r) (not_before_ms r) i)
                              (lineage_upd (insert_delivery_lineage_index (ext_b64 X) r)
                                (put_delivery i r db1)), DeferScheduled))))"

section \<open>Retrying\<close>

definition retry_dead_record :: "delivery_record \<Rightarrow> retry_failure \<Rightarrow> u64 \<Rightarrow> dead_record" where
  "retry_dead_record r failure now_ms =
     \<lparr>dr_delivery_id = delivery_id r, dr_queue = queue r, dr_dept = dept r, dr_source = source r,
      dr_observed_at_ms = observed_at_ms r, dr_not_before_ms = not_before_ms r, dead_at_ms = now_ms,
      attempts = attempt r, dr_redrive_count = redrive_count r, replayable = rf_replayable failure,
      permanent = (\<not> rf_replayable failure), allows_keyed_reuse = False,
      error_excerpt_of = last_error_excerpt r,
      dr_record = (if rf_replayable failure then Some r else None)\<rparr>"

text \<open>The branch of \<open>retry\<close> for a delivery that has used up its attempts.\<close>

definition retry_exhausted ::
    "externs \<Rightarrow> string \<Rightarrow> retry_failure \<Rightarrow> u64 \<Rightarrow> delivery_record \<Rightarrow> store_db \<Rightarrow>
     store_error + store_db \<times> retry_outcome" where
  "retry_exhausted X i failure now_ms current db =
     (let d = retry_dead_record current failure now_ms;
          db1 = (case read_dead_table (dead_by_id db) i of
              None \<Rightarrow> db
            | Some previous \<Rightarrow> forget_previous_dead X previous i db);
          db2 = lineage_upd (remove_delivery_lineage_index (ext_b64 X) current)
                  (dtime_ins (make_dead_time_index_key (dead_at_ms d) i) db1);
          (r, promoted) = (if rf_replayable failure then (current, False)
                           else prepare_dirty_follow_up current now_ms);
          d1 = d\<lparr>allows_keyed_reuse := promoted\<rparr>;
          db3 = lineage_upd (insert_dead_lineage_index (ext_b64 X) d1) (put_dead i d1 db2);
          due_key = make_dead_due_index_key (dr_dept d1) (dead_at_ms d1) i
      in rbind (if rf_replayable failure then Inr (ddue_ins due_key db3)
                else if promoted
                then Inr (ready_ins (make_index_key (dept r) (not_before_ms r) i)
                           (lineage_upd (insert_delivery_lineage_index (ext_b64 X) r)
                             (put_delivery i r (terminal_ins due_key db3))))
                else suppress_terminal_delivery i (terminal_ins due_key db3)) (\<lambda>db4.
         Inr (if promoted then db4 else del_delivery i db4,
              if rf_replayable failure then DeadPendingRedrive else PermanentDead)))"

text \<open>The branch for a delivery that is scheduled again.\<close>

definition retry_scheduled ::
    "externs \<Rightarrow> string \<Rightarrow> retry_policy \<Rightarrow> u64 \<Rightarrow> delivery_record \<Rightarrow> store_db \<Rightarrow>
     store_error + store_db \<times> retry_outcome" where
  "retry_scheduled X i policy now_ms current db =
     rbind (delayed_due X i (attempt current) policy now_ms) (\<lambda>due.
       let r = current\<lparr>not_before_ms := due\<rparr>
       in Inr (ready_ins (make_index_key (dept r) (not_before_ms r) i)
                (lineage_upd (insert_delivery_lineage_index (ext_b64 X) r)
                  (put_delivery i r
                    (lineage_upd (remove_delivery_lineage_index (ext_b64 X) current) db))), Scheduled))"

definition retry ::
    "externs \<Rightarrow> string \<Rightarrow> u64 \<Rightarrow> retry_failure \<Rightarrow> retry_policy \<Rightarrow> u64 \<Rightarrow> store_db \<Rightarrow>
     store_error + store_db \<times> retry_outcome" where
  "retry X i gen failure policy now_ms db =
     rbind (read_delivery_table (delivery_by_id db) i) (\<lambda>found.
       let finish = (\<lambda>res. rbind res (\<lambda>(db1, oc).
             rbind (compact_terminal_dead_records (ext_b64 X) now_ms db1) (\<lambda>(db2, n). Inr (db2, oc))))
       in case found of
         None \<Rightarrow> finish (Inr (db, Missing))
       | Some current \<Rightarrow>
           (case lease_until_ms current of
              None \<Rightarrow> Inr (db, Stale)
            | Some u \<Rightarrow>
                if lease_generation current \<noteq> gen then finish (Inr (db, Stale))
                else let db1 = leased_rem (make_index_key (dept current) u i) db;
                         att = sat_add (attempt current) 1;
                         r = current\<lparr>attempt := att,
                               last_error_excerpt := Some (error_excerpt (rf_message failure)),
                               lease_until_ms := None\<rparr>
                  in finish (if max_attempts policy \<le> att
                             then retry_exhausted X i failure now_ms r db1
                             else retry_scheduled X i policy now_ms r db1)))"

section \<open>Redriving dead letters\<close>

definition dead_redrive_cooldown_elapsed :: "u64 \<Rightarrow> u64 \<Rightarrow> u64 \<Rightarrow> bool" where
  "dead_redrive_cooldown_elapsed dead_at cooldown_ms now_ms \<longleftrightarrow> sat_add dead_at cooldown_ms \<le> now_ms"

definition is_subscriber_absent_dead_record :: "dead_record \<Rightarrow> bool" where
  "is_subscriber_absent_dead_record d \<longleftrightarrow>
     error_excerpt_of d = Some SUBSCRIBER_ABSENT_DEAD_REASON \<and>
     (case dr_record d of None \<Rightarrow> False | Some r \<Rightarrow> subscriber_absent_since_ms r \<noteq> None)"

text \<open>The scan for due dead letters: keys in time order, stopping at the limit or at the first
  record that is still cooling down.\<close>

fun due_dead_loop ::
    "u64 \<Rightarrow> string table option \<Rightarrow> u64 \<Rightarrow> nat \<Rightarrow> dead_record blob table \<Rightarrow> due_index_key list \<Rightarrow>
     string list \<Rightarrow> store_error + due_index_key list" where
  "due_dead_loop cooldown_ms depts now_ms limit t due [] = Inr due"
| "due_dead_loop cooldown_ms depts now_ms limit t due (k # ks) =
     rbind (parse_dead_due_index_key k) (\<lambda>p.
       let push = (if length (due @ [p]) \<ge> limit then Inr (due @ [p])
                   else due_dead_loop cooldown_ms depts now_ms limit t (due @ [p]) ks);
           skip = due_dead_loop cooldown_ms depts now_ms limit t due ks
       in case read_dead_table t (ikey_id p) of
            None \<Rightarrow> push
          | Some d \<Rightarrow>
              if dead_at_ms d \<noteq> due_ms p then push
              else if dead_redrive_cooldown_elapsed (dead_at_ms d) cooldown_ms now_ms
              then (if is_subscriber_absent_dead_record d
                    then (case depts of
                            None \<Rightarrow> skip
                          | Some m \<Rightarrow> if t_get m (dr_queue d) = None then skip else push)
                    else push)
              else Inr due)"

definition collect_due_dead_keys ::
    "redrive_policy \<Rightarrow> string table option \<Rightarrow> u64 \<Rightarrow> nat \<Rightarrow> store_db \<Rightarrow>
     store_error + due_index_key list" where
  "collect_due_dead_keys policy depts now_ms limit db =
     due_dead_loop (duration_millis (cooldown policy)) depts now_ms limit (dead_by_id db) []
       (map fst (t_range (fmt20 0 @ ''/'') (fmt20 now_ms @ ''/'' @ max_scalar) (dead_by_dept_due db)))"

type_synonym redrive_state = "store_db \<times> redrive_result \<times> bool"

definition push_permanent :: "dead_record \<Rightarrow> redrive_result \<Rightarrow> redrive_result" where
  "push_permanent d res = res\<lparr>permanent_dead := permanent_dead res @ [d]\<rparr>"

text \<open>A dead letter becomes permanent: the tail the three branches of the loop share.\<close>

definition redrive_to_permanent ::
    "externs \<Rightarrow> due_index_key \<Rightarrow> dead_record \<Rightarrow> store_db \<Rightarrow> store_db" where
  "redrive_to_permanent X key d db =
     terminal_ins (make_dead_due_index_key (dr_dept d) (dead_at_ms d) (ikey_id key))
       (lineage_upd (insert_dead_lineage_index (ext_b64 X) d)
         (put_dead (ikey_id key) d (ddue_rem (ikey_text key) db)))"

definition redrive_exhausted ::
    "externs \<Rightarrow> u64 \<Rightarrow> due_index_key \<Rightarrow> dead_record \<Rightarrow> delivery_record \<Rightarrow> redrive_state \<Rightarrow>
     store_error + redrive_state" where
  "redrive_exhausted X now_ms key d r st =
     (case st of (db, res, mutated) \<Rightarrow> let i = ikey_id key in
      rbind (read_delivery_table (delivery_by_id db) i) (\<lambda>live.
        let live_preserves = (collapse_by_dedup_id r \<and>
              (case live of None \<Rightarrow> False | Some current \<Rightarrow> collapse_by_dedup_id current));
            (r1, promoted) = (if live = None then prepare_dirty_follow_up r now_ms else (r, False));
            d1 = d\<lparr>allows_keyed_reuse := (allows_keyed_reuse d \<or> promoted \<or> live_preserves),
                   permanent := True, replayable := False, dr_record := None\<rparr>;
            db1 = redrive_to_permanent X key d1 db
        in rbind (if promoted
                  then Inr (ready_ins (make_index_key (dept r1) (not_before_ms r1) i)
                             (lineage_upd (insert_delivery_lineage_index (ext_b64 X) r1)
                               (put_delivery i r1 db1)))
                  else if \<not> live_preserves then suppress_terminal_delivery i db1
                  else Inr db1) (\<lambda>db2. Inr (db2, push_permanent d1 res, True))))"

definition redrive_collision ::
    "externs \<Rightarrow> due_index_key \<Rightarrow> dead_record \<Rightarrow> delivery_record \<Rightarrow> delivery_record \<Rightarrow> redrive_state \<Rightarrow>
     store_error + redrive_state" where
  "redrive_collision X key d r live st =
     (case st of (db, res, mutated) \<Rightarrow>
        let live_preserves = (collapse_by_dedup_id r \<and> collapse_by_dedup_id live);
            d1 = d\<lparr>allows_keyed_reuse := (allows_keyed_reuse d \<or> live_preserves),
                   permanent := True, replayable := False, dr_record := None,
                   error_excerpt_of := Some (error_excerpt ''redrive collision with live delivery'')\<rparr>;
            db1 = redrive_to_permanent X key d1 db
        in rbind (if \<not> live_preserves then suppress_terminal_delivery (ikey_id key) db1 else Inr db1)
             (\<lambda>db2. Inr (db2, push_permanent d1 res, True)))"

definition redrive_revive ::
    "externs \<Rightarrow> u64 \<Rightarrow> due_index_key \<Rightarrow> dead_record \<Rightarrow> delivery_record \<Rightarrow> redrive_state \<Rightarrow>
     redrive_state" where
  "redrive_revive X now_ms key d r st =
     (case st of (db, res, mutated) \<Rightarrow>
        let i = ikey_id key;
            r1 = r\<lparr>redrive_count := sat_add (dr_redrive_count d) 1, attempt := 0, lease_until_ms := None,
                   lease_generation := sat_add (lease_generation r) 1, not_before_ms := now_ms,
                   last_error_excerpt := None, subscriber_absent_since_ms := None\<rparr>
        in (dtime_rem (make_dead_time_index_key (dead_at_ms d) i)
              (del_dead i
                (ready_ins (make_index_key (dept r1) (not_before_ms r1) i)
                  (lineage_upd (insert_delivery_lineage_index (ext_b64 X) r1)
                    (lineage_upd (remove_dead_lineage_index (ext_b64 X) d)
                      (put_delivery i r1 (ddue_rem (ikey_text key) db)))))),
            res\<lparr>redriven := redriven res @ [r1]\<rparr>, True))"

text \<open>The department a redriven delivery goes to; \<open>None\<close> leaves the dead letter alone.\<close>

definition redrive_target ::
    "string table option \<Rightarrow> dead_record \<Rightarrow> delivery_record \<Rightarrow> delivery_record option" where
  "redrive_target depts d r =
     (if is_subscriber_absent_dead_record d
      then (case depts of
              None \<Rightarrow> None
            | Some m \<Rightarrow> (case t_get m (queue r) of None \<Rightarrow> None | Some nd \<Rightarrow> Some (r\<lparr>dept := nd\<rparr>)))
      else Some r)"

definition redrive_key ::
    "externs \<Rightarrow> redrive_policy \<Rightarrow> string table option \<Rightarrow> u64 \<Rightarrow> redrive_state \<Rightarrow> due_index_key \<Rightarrow>
     store_error + redrive_state" where
  "redrive_key X policy depts now_ms st key =
     (case st of (db, res, mutated) \<Rightarrow>
      let i = ikey_id key; cooldown_ms = duration_millis (cooldown policy) in
      case read_dead_table (dead_by_id db) i of
        None \<Rightarrow>
          Inr (dtime_rem (make_dead_time_index_key (due_ms key) i) (ddue_rem (ikey_text key) db), res, True)
      | Some d \<Rightarrow>
          if dead_at_ms d \<noteq> due_ms key
          then let db1 = dtime_ins (make_dead_time_index_key (dead_at_ms d) i)
                          (dtime_rem (make_dead_time_index_key (due_ms key) i)
                            (ddue_rem (ikey_text key) db))
            in Inr (if should_index_dead_record d
                    then ddue_ins (make_dead_due_index_key (dr_dept d) (dead_at_ms d) i) db1
                    else db1, res, True)
          else if \<not> dead_redrive_cooldown_elapsed (dead_at_ms d) cooldown_ms now_ms
          then Inr (db, res, mutated)
          else if permanent d \<or> \<not> replayable d
          then Inr (ddue_rem (ikey_text key) db, res, True)
          else (case dr_record d of
              None \<Rightarrow>
                let d1 = d\<lparr>permanent := True, replayable := False\<rparr>
                in rbind (suppress_terminal_delivery i (redrive_to_permanent X key d1 db))
                     (\<lambda>db1. Inr (db1, push_permanent d1 res, True))
            | Some r0 \<Rightarrow>
                (case redrive_target depts d r0 of
                   None \<Rightarrow> Inr (db, res, mutated)
                 | Some r \<Rightarrow>
                     if max_redrives policy \<le> dr_redrive_count d
                     then redrive_exhausted X now_ms key d r (db, res, mutated)
                     else rbind (read_delivery_table (delivery_by_id db) i) (\<lambda>live.
                       case live of
                         Some current \<Rightarrow> redrive_collision X key d r current (db, res, mutated)
                       | None \<Rightarrow> Inr (redrive_revive X now_ms key d r (db, res, mutated))))))"

definition redrive_due_inner ::
    "externs \<Rightarrow> redrive_policy \<Rightarrow> string table option \<Rightarrow> u64 \<Rightarrow> nat \<Rightarrow> store_db \<Rightarrow>
     store_error + store_db \<times> redrive_result" where
  "redrive_due_inner X policy depts now_ms limit db =
     (let none = \<lparr>redriven = [], permanent_dead = []\<rparr> in
      if limit = 0 then Inr (db, none)
      else rbind (collect_due_dead_keys policy depts now_ms limit db) (\<lambda>due_keys.
        if due_keys = [] then Inr (db, none)
        else rbind (fold_result (redrive_key X policy depts now_ms) (db, none, False) due_keys)
          (\<lambda>(db1, res, mutated).
            rbind (compact_terminal_dead_records (ext_b64 X) now_ms db1) (\<lambda>(db2, n).
              Inr (if mutated \<or> 0 < n then db2 else db, res)))))"

definition redrive_due ::
    "externs \<Rightarrow> redrive_policy \<Rightarrow> u64 \<Rightarrow> nat \<Rightarrow> store_db \<Rightarrow> store_error + store_db \<times> redrive_result" where
  "redrive_due X policy now_ms limit db = redrive_due_inner X policy None now_ms limit db"

definition redrive_due_with_current_subscribers ::
    "externs \<Rightarrow> redrive_policy \<Rightarrow> string table \<Rightarrow> u64 \<Rightarrow> nat \<Rightarrow> store_db \<Rightarrow>
     store_error + store_db \<times> redrive_result" where
  "redrive_due_with_current_subscribers X policy depts now_ms limit db =
     redrive_due_inner X policy (Some depts) now_ms limit db"

section \<open>Scans\<close>

definition get_dead :: "string \<Rightarrow> store_db \<Rightarrow> dead_record option" where
  "get_dead i db = (case t_get (dead_by_id db) i of None \<Rightarrow> None | Some b \<Rightarrow> decode b)"

definition delivery_records :: "store_db \<Rightarrow> delivery_record list" where
  "delivery_records db = List.map_filter (\<lambda>(i, b). decode b) (t_iter (delivery_by_id db))"

definition dead_records :: "store_db \<Rightarrow> dead_record list" where
  "dead_records db = List.map_filter (\<lambda>(i, b). decode_dead_record i b) (t_iter (dead_by_id db))"

definition scan_records ::
    "('s \<Rightarrow> delivery_scan_record \<Rightarrow> store_error + 's) \<Rightarrow> 's \<Rightarrow> store_db \<Rightarrow> store_error + 's" where
  "scan_records visit s db =
     rbind (fold_result (\<lambda>s r. visit s (ScanDelivery r)) s (delivery_records db))
       (\<lambda>s1. fold_result (\<lambda>s d. visit s (ScanDead d)) s1 (dead_records db))"

definition dead_letter_time_bounds ::
    "(u64 \<times> string) option \<Rightarrow> (u64 \<times> u64) option \<Rightarrow> string \<times> string" where
  "dead_letter_time_bounds after window =
     (let lower_ms = (case (after, window) of
             (Some (after_ms, _), Some (start_ms, _)) \<Rightarrow> max after_ms start_ms
           | (Some (after_ms, _), None) \<Rightarrow> after_ms
           | (None, Some (start_ms, _)) \<Rightarrow> start_ms
           | (None, None) \<Rightarrow> 0);
          upper_ms = (case window of Some (_, end_ms) \<Rightarrow> end_ms - 1 | None \<Rightarrow> u64_max)
      in (fmt20 lower_ms @ ''/'', fmt20 upper_ms @ ''/'' @ max_scalar))"

definition collect_dead_letter_page_record ::
    "dead_record blob table \<Rightarrow> string \<Rightarrow> dead_record list \<Rightarrow> store_error + dead_record list" where
  "collect_dead_letter_page_record t index_key records =
     rbind (parse_dead_time_index_key index_key) (\<lambda>p.
       case read_dead_table t (ikey_id p) of
         None \<Rightarrow> Inl (PageIndexMissing (ikey_id p))
       | Some d \<Rightarrow>
           if dead_at_ms d \<noteq> due_ms p \<or> dr_delivery_id d \<noteq> ikey_id p
           then Inl (PageIndexMismatch (ikey_id p)) else Inr (records @ [d]))"

fun page_loop ::
    "dead_record blob table \<Rightarrow> (u64 \<times> string) option \<Rightarrow> nat \<Rightarrow> dead_record list \<Rightarrow> string list \<Rightarrow>
     store_error + dead_record list" where
  "page_loop t after limit records [] = Inr records"
| "page_loop t after limit records (k # ks) =
     rbind (parse_dead_time_index_key k) (\<lambda>p.
       if (case after of None \<Rightarrow> False | Some a \<Rightarrow> (due_ms p, ikey_id p) \<le> a)
       then page_loop t after limit records ks
       else rbind (collect_dead_letter_page_record t k records) (\<lambda>records'.
         if length records' \<ge> limit then Inr records' else page_loop t after limit records' ks))"

definition scan_records_for_dead_letter_window ::
    "(u64 \<times> string) option \<Rightarrow> (u64 \<times> u64) option \<Rightarrow> nat \<Rightarrow>
     ('s \<Rightarrow> delivery_record \<Rightarrow> store_error + 's) \<Rightarrow> 's \<Rightarrow> store_db \<Rightarrow>
     store_error + 's \<times> dead_record list" where
  "scan_records_for_dead_letter_window after window limit visit s db =
     rbind (fold_result visit s (delivery_records db)) (\<lambda>s1.
       if (case window of None \<Rightarrow> False | Some (start_ms, end_ms) \<Rightarrow> end_ms \<le> start_ms) then Inr (s1, [])
       else let (lower_bound, upper_bound) = dead_letter_time_bounds after window in
         if upper_bound < lower_bound then Inr (s1, [])
         else rbind (page_loop (dead_by_id db) after limit []
                      (map fst (t_range lower_bound upper_bound (dead_by_time db))))
                (\<lambda>records. Inr (s1, records)))"

definition scan_records_for_dead_letter_page ::
    "(u64 \<times> string) option \<Rightarrow> nat \<Rightarrow> ('s \<Rightarrow> delivery_record \<Rightarrow> store_error + 's) \<Rightarrow> 's \<Rightarrow> store_db \<Rightarrow>
     store_error + 's \<times> dead_record list" where
  "scan_records_for_dead_letter_page after limit visit s db =
     scan_records_for_dead_letter_window after None limit visit s db"

fun due_dead_ids_loop ::
    "u64 \<Rightarrow> u64 \<Rightarrow> nat \<Rightarrow> string list \<Rightarrow> (string \<times> dead_record blob) list \<Rightarrow> string list" where
  "due_dead_ids_loop cooldown_ms now_ms limit due [] = due"
| "due_dead_ids_loop cooldown_ms now_ms limit due ((i, b) # rows) =
     (case decode_dead_record i b of
        None \<Rightarrow> due_dead_ids_loop cooldown_ms now_ms limit due rows
      | Some d \<Rightarrow>
          if permanent d \<or> \<not> replayable d then due_dead_ids_loop cooldown_ms now_ms limit due rows
          else if sat_add (dead_at_ms d) cooldown_ms \<le> now_ms
          then (if length (due @ [dr_delivery_id d]) \<ge> limit then due @ [dr_delivery_id d]
                else due_dead_ids_loop cooldown_ms now_ms limit (due @ [dr_delivery_id d]) rows)
          else due_dead_ids_loop cooldown_ms now_ms limit due rows)"

definition collect_due_dead_ids :: "redrive_policy \<Rightarrow> u64 \<Rightarrow> nat \<Rightarrow> store_db \<Rightarrow> string list" where
  "collect_due_dead_ids policy now_ms limit db =
     due_dead_ids_loop (duration_millis (cooldown policy)) now_ms limit [] (t_iter (dead_by_id db))"

end
