(* ===== verification/Store_Invariant.thy ===== *)
theory Store_Invariant
  imports Delivery_Settlement
begin

text \<open>
  The invariant of the delivery database: rows are stored under their identity, every derived table
  holds exactly the entries of the rows, and the identity of a terminally dead delivery that is not
  open to keyed reuse is in the suppression table. The derived tables are instances of the locale
  \<open>secondary_index\<close>.
\<close>

section \<open>Rows and entries\<close>

text \<open>The rows of a table as a decoder sees them.\<close>

definition decoded :: "'a blob table \<Rightarrow> string \<Rightarrow> 'a option" where
  "decoded t i = Option.bind (t_get t i) decode"

abbreviation live :: "store_db \<Rightarrow> string \<Rightarrow> delivery_record option" where
  "live db \<equiv> decoded (delivery_by_id db)"

abbreviation dead :: "store_db \<Rightarrow> string \<Rightarrow> dead_record option" where
  "dead db \<equiv> decoded (dead_by_id db)"

lemma decoded_simps [simp]:
  "decoded (t_insert i (Blob r) t) = (decoded t)(i \<mapsto> r)"
  "decoded (t_remove i t) = (decoded t)(i := None)"
  "decoded t_empty = Map.empty"
  by (auto simp: decoded_def fun_eq_iff)

lemma read_delivery_table_Inr:
  "read_delivery_table t i = Inr None \<longleftrightarrow> t_get t i = None"
  "read_delivery_table t i = Inr (Some r) \<longleftrightarrow> decoded t i = Some r"
  by (auto simp: read_delivery_table_def decoded_def split: option.splits)

lemma read_delivery_table_decoded: "read_delivery_table t i = Inr found \<Longrightarrow> decoded t i = found"
  by (cases found) (auto simp: read_delivery_table_Inr decoded_def)

lemma read_dead_table_decoded [simp]: "read_dead_table t i = decoded t i"
  by (auto simp: read_dead_table_def decode_dead_record_def decoded_def split: option.splits)

text \<open>The entries a row owns in the derived tables.\<close>

definition ready_entry :: "string \<Rightarrow> delivery_record \<Rightarrow> (string \<times> unit) option" where
  "ready_entry i r =
     (if lease_until_ms r = None then Some (make_index_key (dept r) (not_before_ms r) i, ()) else None)"

definition leased_entry :: "string \<Rightarrow> delivery_record \<Rightarrow> (string \<times> unit) option" where
  "leased_entry i r = map_option (\<lambda>u. (make_index_key (dept r) u i, ())) (lease_until_ms r)"

definition dead_time_entry :: "string \<Rightarrow> dead_record \<Rightarrow> (string \<times> unit) option" where
  "dead_time_entry i d = Some (make_dead_time_index_key (dead_at_ms d) i, ())"

definition dead_due_entry :: "string \<Rightarrow> dead_record \<Rightarrow> (string \<times> unit) option" where
  "dead_due_entry i d =
     (if should_index_dead_record d
      then Some (make_dead_due_index_key (dr_dept d) (dead_at_ms d) i, ()) else None)"

definition terminal_entry :: "string \<Rightarrow> dead_record \<Rightarrow> (string \<times> unit) option" where
  "terminal_entry i d =
     (if is_terminal_dead_record d
      then Some (make_dead_due_index_key (dr_dept d) (dead_at_ms d) i, ()) else None)"

lemmas entry_defs =
  ready_entry_def leased_entry_def dead_time_entry_def dead_due_entry_def terminal_entry_def

interpretation rdy: secondary_index ready_entry
  by unfold_locales (auto simp: ready_entry_def split: if_splits)

interpretation lsd: secondary_index leased_entry
  by unfold_locales (auto simp: leased_entry_def)

interpretation dtm: secondary_index dead_time_entry
  by unfold_locales (auto simp: dead_time_entry_def)

interpretation ddu: secondary_index dead_due_entry
  by unfold_locales (auto simp: dead_due_entry_def split: if_splits)

interpretation trm: secondary_index terminal_entry
  by unfold_locales (auto simp: terminal_entry_def split: if_splits)

section \<open>The invariant\<close>

definition tables_ok :: "store_db \<Rightarrow> bool" where
  "tables_ok db \<longleftrightarrow>
     t_ok (delivery_by_id db) \<and> t_ok (ready_by_dept_due db) \<and> t_ok (leased_by_dept_until db) \<and>
     t_ok (dead_by_id db) \<and> t_ok (dead_by_time db) \<and> t_ok (dead_by_dept_due db) \<and>
     t_ok (terminal_dead_by_time db) \<and> t_ok (lineage_by_source db)"

text \<open>An identity sorts below the bound that closes the range queries; every identity whose first
  character is not the last Unicode scalar value does.\<close>

definition id_ok :: "string \<Rightarrow> bool" where
  "id_ok i \<longleftrightarrow> i \<le> max_scalar"

definition live_ids_ok :: "string \<Rightarrow> delivery_record \<Rightarrow> bool" where
  "live_ids_ok i r \<longleftrightarrow> id_ok i \<and> delivery_id r = i"

definition dead_ids_ok :: "string \<Rightarrow> dead_record \<Rightarrow> bool" where
  "dead_ids_ok i d \<longleftrightarrow> id_ok i \<and> dr_delivery_id d = i \<and>
     (\<forall>r. dr_record d = Some r \<longrightarrow> delivery_id r = i)"

definition needs_suppression :: "dead_record \<Rightarrow> bool" where
  "needs_suppression d \<longleftrightarrow> is_terminal_dead_record d \<and> \<not> allows_keyed_reuse d"

abbreviation lineage_exact ::
    "(string \<Rightarrow> string) \<Rightarrow> (string \<Rightarrow> delivery_record option) \<Rightarrow> (string \<Rightarrow> dead_record option) \<Rightarrow>
     string table \<Rightarrow> bool" where
  "lineage_exact b64 lv dd t \<equiv> index_exact (lineage_entry b64) (lineage_rows lv dd) (t_get t)"

definition rows_ok :: "store_db \<Rightarrow> bool" where
  "rows_ok db \<longleftrightarrow>
     (\<forall>i r. live db i = Some r \<longrightarrow> live_ids_ok i r) \<and> (\<forall>i d. dead db i = Some d \<longrightarrow> dead_ids_ok i d)"

definition suppression_ok :: "store_db \<Rightarrow> bool" where
  "suppression_ok db \<longleftrightarrow> probe_inv (terminal_suppression_by_slot db) \<and>
     (\<forall>i d. dead db i = Some d \<longrightarrow> needs_suppression d \<longrightarrow>
        i \<in> suppressed_ids (terminal_suppression_by_slot db))"

definition indexes_ok :: "(string \<Rightarrow> string) \<Rightarrow> store_db \<Rightarrow> bool" where
  "indexes_ok b64 db \<longleftrightarrow>
     index_exact ready_entry (live db) (t_get (ready_by_dept_due db)) \<and>
     index_exact leased_entry (live db) (t_get (leased_by_dept_until db)) \<and>
     index_exact dead_time_entry (dead db) (t_get (dead_by_time db)) \<and>
     index_exact dead_due_entry (dead db) (t_get (dead_by_dept_due db)) \<and>
     index_exact terminal_entry (dead db) (t_get (terminal_dead_by_time db)) \<and>
     lineage_exact b64 (live db) (dead db) (lineage_by_source db)"

definition store_inv :: "(string \<Rightarrow> string) \<Rightarrow> store_db \<Rightarrow> bool" where
  "store_inv b64 db \<longleftrightarrow> tables_ok db \<and> rows_ok db \<and> indexes_ok b64 db \<and> suppression_ok db"

lemma store_invD:
  assumes "store_inv b64 db"
  shows "tables_ok db" "rows_ok db" "indexes_ok b64 db" "suppression_ok db"
    "probe_inv (terminal_suppression_by_slot db)"
    "index_exact ready_entry (live db) (t_get (ready_by_dept_due db))"
    "index_exact leased_entry (live db) (t_get (leased_by_dept_until db))"
    "index_exact dead_time_entry (dead db) (t_get (dead_by_time db))"
    "index_exact dead_due_entry (dead db) (t_get (dead_by_dept_due db))"
    "index_exact terminal_entry (dead db) (t_get (terminal_dead_by_time db))"
    "lineage_exact b64 (live db) (dead db) (lineage_by_source db)"
  using assms by (auto simp: store_inv_def indexes_ok_def suppression_ok_def)

lemma store_inv_live_id: "store_inv b64 db \<Longrightarrow> live db i = Some r \<Longrightarrow> delivery_id r = i \<and> id_ok i"
  by (auto simp: store_inv_def rows_ok_def live_ids_ok_def)

lemma store_inv_dead_id: "store_inv b64 db \<Longrightarrow> dead db i = Some d \<Longrightarrow> dead_ids_ok i d"
  by (auto simp: store_inv_def rows_ok_def)

lemma store_inv_empty: "store_inv b64 empty_db"
  by (auto simp: store_inv_def tables_ok_def rows_ok_def indexes_ok_def suppression_ok_def empty_db_def
      index_exact_def lineage_rows_def split: sum.splits)

section \<open>One row changes\<close>

lemma reindexed_refl [simp, intro]: "reindexed ikey i x x idx idx"
  by (simp add: reindexed_def)

text \<open>What an operation has to show when it changes the rows of one identity.\<close>

definition rows_change ::
    "(string \<Rightarrow> string) \<Rightarrow> string \<Rightarrow> delivery_record option \<Rightarrow> dead_record option \<Rightarrow> store_db \<Rightarrow> store_db \<Rightarrow> bool" where
  "rows_change b64 i nl nd db db' \<longleftrightarrow>
     live db' = (live db)(i := nl) \<and> dead db' = (dead db)(i := nd) \<and>
     reindexed ready_entry i (live db i) nl (t_get (ready_by_dept_due db)) (t_get (ready_by_dept_due db')) \<and>
     reindexed leased_entry i (live db i) nl (t_get (leased_by_dept_until db)) (t_get (leased_by_dept_until db')) \<and>
     reindexed dead_time_entry i (dead db i) nd (t_get (dead_by_time db)) (t_get (dead_by_time db')) \<and>
     reindexed dead_due_entry i (dead db i) nd (t_get (dead_by_dept_due db)) (t_get (dead_by_dept_due db')) \<and>
     reindexed terminal_entry i (dead db i) nd (t_get (terminal_dead_by_time db)) (t_get (terminal_dead_by_time db')) \<and>
     lineage_exact b64 ((live db)(i := nl)) ((dead db)(i := nd)) (lineage_by_source db')"

definition suppression_grows :: "store_db \<Rightarrow> store_db \<Rightarrow> bool" where
  "suppression_grows db db' \<longleftrightarrow> probe_inv (terminal_suppression_by_slot db') \<and>
     suppressed_ids (terminal_suppression_by_slot db) \<subseteq> suppressed_ids (terminal_suppression_by_slot db')"

lemma suppression_grows_refl: "store_inv b64 db \<Longrightarrow>
    terminal_suppression_by_slot db' = terminal_suppression_by_slot db \<Longrightarrow> suppression_grows db db'"
  by (simp add: suppression_grows_def store_invD)

lemma store_inv_change:
  assumes inv: "store_inv b64 db" and ch: "rows_change b64 i nl nd db db'"
    and tabs: "tables_ok db'" and sup: "suppression_grows db db'"
    and ids: "\<And>r. nl = Some r \<Longrightarrow> live_ids_ok i r" "\<And>d. nd = Some d \<Longrightarrow> dead_ids_ok i d"
    and need: "\<And>d. nd = Some d \<Longrightarrow> needs_suppression d \<Longrightarrow>
      i \<in> suppressed_ids (terminal_suppression_by_slot db')"
  shows "store_inv b64 db'"
proof -
  from ch have lv: "live db' = (live db)(i := nl)" and dd: "dead db' = (dead db)(i := nd)"
    by (simp_all add: rows_change_def)
  have "rows_ok db'"
    using ids store_invD(2) [OF inv] by (auto simp: rows_ok_def lv dd)
  moreover have "indexes_ok b64 db'"
    using ch store_invD [OF inv] unfolding indexes_ok_def rows_change_def
    by (auto intro: rdy.exact_reindexed lsd.exact_reindexed dtm.exact_reindexed
        ddu.exact_reindexed trm.exact_reindexed)
  moreover have "suppression_ok db'"
    using sup need store_invD(4) [OF inv]
    by (auto simp: suppression_ok_def suppression_grows_def dd)
  ultimately show ?thesis using tabs by (simp add: store_inv_def)
qed

lemma tables_ok_updates [simp]:
  assumes "tables_ok db"
  shows "tables_ok (put_delivery i r db)" "tables_ok (del_delivery i db)"
    "tables_ok (put_dead i d db)" "tables_ok (del_dead i db)"
    "tables_ok (ready_ins k db)" "tables_ok (ready_rem k db)"
    "tables_ok (leased_ins k db)" "tables_ok (leased_rem k db)"
    "tables_ok (dtime_ins k db)" "tables_ok (dtime_rem k db)"
    "tables_ok (ddue_ins k db)" "tables_ok (ddue_rem k db)"
    "tables_ok (terminal_ins k db)" "tables_ok (terminal_rem k db)"
  using assms by (auto simp: tables_ok_def table_updates)

lemma t_ok_lineage [simp]:
  "t_ok t \<Longrightarrow> t_ok (insert_delivery_lineage_index b64 r t)"
  "t_ok t \<Longrightarrow> t_ok (remove_delivery_lineage_index b64 r t)"
  "t_ok t \<Longrightarrow> t_ok (insert_dead_lineage_index b64 d t)"
  "t_ok t \<Longrightarrow> t_ok (remove_dead_lineage_index b64 d t)"
  by (auto simp: insert_delivery_lineage_index_def remove_delivery_lineage_index_def
      insert_dead_lineage_index_def remove_dead_lineage_index_def split: option.splits)

lemma tables_ok_lineage [simp]:
  assumes "tables_ok db"
  shows "tables_ok (lineage_upd (insert_delivery_lineage_index b64 r) db)"
    "tables_ok (lineage_upd (remove_delivery_lineage_index b64 r) db)"
    "tables_ok (lineage_upd (insert_dead_lineage_index b64 d) db)"
    "tables_ok (lineage_upd (remove_dead_lineage_index b64 d) db)"
  using assms by (auto simp: tables_ok_def lineage_upd_def)

section \<open>The lineage index, step by step\<close>

lemma t_get_lineage:
  "t_get (insert_delivery_lineage_index b64 r t) =
     add_entry (lineage_entry b64 (Inl (delivery_id r)) (Inl r)) (t_get t)"
  "t_get (remove_delivery_lineage_index b64 r t) =
     drop_entry (lineage_entry b64 (Inl (delivery_id r)) (Inl r)) (t_get t)"
  "t_get (insert_dead_lineage_index b64 d t) =
     add_entry (lineage_entry b64 (Inr (dr_delivery_id d)) (Inr d)) (t_get t)"
  "t_get (remove_dead_lineage_index b64 d t) =
     drop_entry (lineage_entry b64 (Inr (dr_delivery_id d)) (Inr d)) (t_get t)"
  by (auto simp: insert_delivery_lineage_index_def remove_delivery_lineage_index_def
      insert_dead_lineage_index_def remove_dead_lineage_index_def split: option.splits)

lemma lineage_drop_live:
  assumes "segment_encoding b64" and "lineage_exact b64 lv dd t"
    and "lv i = Some r" and "delivery_id r = i"
  shows "lineage_exact b64 (lv(i := None)) dd (remove_delivery_lineage_index b64 r t)"
  using secondary_index.exact_drop [OF lineage_secondary_index [OF assms(1)] assms(2), of "Inl i"] assms(3,4)
  by (simp add: t_get_lineage)

lemma lineage_add_live:
  assumes "segment_encoding b64" and "lineage_exact b64 lv dd t"
    and "lv i = None" and "delivery_id r = i"
  shows "lineage_exact b64 (lv(i \<mapsto> r)) dd (insert_delivery_lineage_index b64 r t)"
  using secondary_index.exact_add [OF lineage_secondary_index [OF assms(1)] assms(2), of "Inl i" "Inl r"] assms(3,4)
  by (simp add: t_get_lineage)

lemma lineage_drop_dead:
  assumes "segment_encoding b64" and "lineage_exact b64 lv dd t"
    and "dd i = Some d" and "dr_delivery_id d = i"
  shows "lineage_exact b64 lv (dd(i := None)) (remove_dead_lineage_index b64 d t)"
  using secondary_index.exact_drop [OF lineage_secondary_index [OF assms(1)] assms(2), of "Inr i"] assms(3,4)
  by (simp add: t_get_lineage)

lemma lineage_add_dead:
  assumes "segment_encoding b64" and "lineage_exact b64 lv dd t"
    and "\<And>d'. dd i = Some d' \<Longrightarrow> \<not> is_terminal_tombstone d'" and "dr_delivery_id d = i"
  shows "lineage_exact b64 lv (dd(i \<mapsto> d)) (insert_dead_lineage_index b64 d t)"
proof -
  have "Option.bind (lineage_rows lv dd (Inr i)) (lineage_entry b64 (Inr i)) = None"
    using assms(3) by (cases "dd i") auto
  from secondary_index.exact_add [OF lineage_secondary_index [OF assms(1)] assms(2) this, of "Inr d"] assms(4)
  show ?thesis by (simp add: t_get_lineage)
qed

text \<open>A change that leaves queue, department, source and due time alone needs no work.\<close>

lemma lineage_keep_live:
  assumes "segment_encoding b64" and "lineage_exact b64 lv dd t" and "lv i = Some r"
    and "source r' = source r" "queue r' = queue r" "dept r' = dept r" "not_before_ms r' = not_before_ms r"
  shows "lineage_exact b64 (lv(i \<mapsto> r')) dd t"
  using secondary_index.exact_keep [OF lineage_secondary_index [OF assms(1)] assms(2), of "Some (Inl r')" "Inl i"]
    assms(3-) by simp

lemma remove_delivery_lineage_cong:
  "source r' = source r \<Longrightarrow> queue r' = queue r \<Longrightarrow> dept r' = dept r \<Longrightarrow>
   not_before_ms r' = not_before_ms r \<Longrightarrow> delivery_id r' = delivery_id r \<Longrightarrow>
   remove_delivery_lineage_index b64 r' = remove_delivery_lineage_index b64 r"
  by (auto simp: remove_delivery_lineage_index_def fun_eq_iff split: option.splits)

end
