(* ===== verification/Store_Leases.thy ===== *)
theory Store_Leases
  imports Store_Invariant
begin

text \<open>
  The operations that touch one live delivery: what each of them does to the rows, and that it keeps
  the invariant of the database. The case rules (\<open>ack_cases\<close> and so on) list the ways an
  operation can succeed; the later theories use them instead of the definitions.
\<close>

section \<open>Changes of one live row\<close>

definition dead_side_same :: "store_db \<Rightarrow> store_db \<Rightarrow> bool" where
  "dead_side_same db db' \<longleftrightarrow> dead_by_id db' = dead_by_id db \<and> dead_by_time db' = dead_by_time db \<and>
     dead_by_dept_due db' = dead_by_dept_due db \<and> terminal_dead_by_time db' = terminal_dead_by_time db \<and>
     terminal_suppression_by_slot db' = terminal_suppression_by_slot db"

lemma live_change:
  assumes inv: "store_inv b64 db" and tabs: "tables_ok db'" and same: "dead_side_same db db'"
    and lv: "live db' = (live db)(i := nl)" and ids: "\<And>r. nl = Some r \<Longrightarrow> live_ids_ok i r"
    and rd: "reindexed ready_entry i (live db i) nl (t_get (ready_by_dept_due db)) (t_get (ready_by_dept_due db'))"
    and ls: "reindexed leased_entry i (live db i) nl (t_get (leased_by_dept_until db)) (t_get (leased_by_dept_until db'))"
    and li: "lineage_exact b64 ((live db)(i := nl)) (dead db) (lineage_by_source db')"
  shows "store_inv b64 db'"
proof (rule store_inv_change [OF inv])
  show "rows_change b64 i nl (dead db i) db db'"
    using same lv rd ls li by (simp add: rows_change_def dead_side_same_def)
  show "suppression_grows db db'"
    using inv same by (simp add: suppression_grows_refl dead_side_same_def)
  show "dead_ids_ok i d" if "dead db i = Some d" for d
    using inv that by (rule store_inv_dead_id)
  show "i \<in> suppressed_ids (terminal_suppression_by_slot db')"
    if "dead db i = Some d" and "needs_suppression d" for d
    using store_invD(4) [OF inv] same that by (auto simp: suppression_ok_def dead_side_same_def)
qed (use tabs ids in auto)

lemmas index_step = reindexed_def reindex_def entry_defs table_updates dead_side_same_def

section \<open>Acknowledging\<close>

lemma ack_cases:
  assumes "ack X i gen db = Inr (db', ok)"
  obtains (stale) "\<not> ok" "db' = db"
      "\<And>r. live db i = Some r \<Longrightarrow> lease_generation r \<noteq> gen \<or> lease_until_ms r = None"
    | (acked) r u where "ok" "live db i = Some r" "lease_generation r = gen" "lease_until_ms r = Some u"
      "\<not> (collapse_by_dedup_id r \<and> pending_dirty r)"
      "db' = del_delivery i (lineage_upd (remove_delivery_lineage_index (ext_b64 X) r)
                (leased_rem (make_index_key (dept r) u i) db))"
    | (again) r u r' where "ok" "live db i = Some r" "lease_generation r = gen" "lease_until_ms r = Some u"
      "collapse_by_dedup_id r" "pending_dirty r"
      "r' = fst (prepare_dirty_follow_up r (not_before_ms r))"
      "db' = ready_ins (make_index_key (dept r') (not_before_ms r') i)
                (lineage_upd (insert_delivery_lineage_index (ext_b64 X) r')
                  (put_delivery i r' (lineage_upd (remove_delivery_lineage_index (ext_b64 X) r)
                    (leased_rem (make_index_key (dept r) u i) db))))"
proof -
  from assms obtain found where found: "read_delivery_table (delivery_by_id db) i = Inr found"
    by (auto simp: ack_def)
  note lv = read_delivery_table_decoded [OF found]
  show ?thesis
  proof (cases found)
    case None
    with assms found lv show ?thesis by (auto simp: ack_def intro: stale)
  next
    case (Some r)
    consider "lease_generation r \<noteq> gen \<or> lease_until_ms r = None"
      | u where "lease_generation r = gen" "lease_until_ms r = Some u"
      by (cases "lease_until_ms r") auto
    then show ?thesis
    proof cases
      case 1
      with Some assms found lv show ?thesis
        by (intro stale) (auto simp: ack_def split: if_splits option.splits)
    next
      case 2
      with Some assms found lv show ?thesis
        by (cases "collapse_by_dedup_id r \<and> pending_dirty r")
          (auto simp: ack_def prepare_dirty_follow_up_def intro: acked again)
    qed
  qed
qed

lemma follow_up_fields:
  assumes "collapse_by_dedup_id r" and "pending_dirty r"
  shows "delivery_id (fst (prepare_dirty_follow_up r nb)) = delivery_id r"
    "dept (fst (prepare_dirty_follow_up r nb)) = dept r"
    "lease_until_ms (fst (prepare_dirty_follow_up r nb)) = None"
    "lease_generation (fst (prepare_dirty_follow_up r nb)) = lease_generation r"
    "not_before_ms (fst (prepare_dirty_follow_up r nb)) = nb"
    "snd (prepare_dirty_follow_up r nb)"
  using assms by (simp_all add: prepare_dirty_follow_up_def)

text \<open>Dropping the lineage entry of a live row and adding that of its replacement.\<close>

lemma lineage_replace_live:
  assumes "segment_encoding b64" and "store_inv b64 db" and "live db i = Some r"
    and "delivery_id r' = delivery_id r"
  shows "lineage_exact b64 ((live db)(i \<mapsto> r')) (dead db)
    (insert_delivery_lineage_index b64 r' (remove_delivery_lineage_index b64 r (lineage_by_source db)))"
proof -
  have id: "delivery_id r = i" using assms(2,3) store_inv_live_id by blast
  have "lineage_exact b64 ((live db)(i := None)) (dead db)
      (remove_delivery_lineage_index b64 r (lineage_by_source db))"
    using assms id by (intro lineage_drop_live) (auto dest: store_invD)
  then have "lineage_exact b64 ((live db)(i := None, i \<mapsto> r')) (dead db)
      (insert_delivery_lineage_index b64 r' (remove_delivery_lineage_index b64 r (lineage_by_source db)))"
    using assms id by (intro lineage_add_live) auto
  then show ?thesis by (simp only: fun_upd_upd)
qed

text \<open>A leased delivery goes back to the ready index: what acknowledging a dirty delivery,
  deferring and rescheduling have in common.\<close>

lemma release_lease_inv:
  assumes seg: "segment_encoding b64" and inv: "store_inv b64 db"
    and r: "live db i = Some r" "lease_until_ms r = Some u"
    and r': "delivery_id r' = delivery_id r" "dept r' = dept r" "lease_until_ms r' = None"
    and db': "db' = ready_ins (make_index_key (dept r') (not_before_ms r') i)
                (lineage_upd (insert_delivery_lineage_index b64 r')
                  (put_delivery i r' (lineage_upd (remove_delivery_lineage_index b64 r)
                    (leased_rem (make_index_key (dept r) u i) db))))"
  shows "store_inv b64 db'"
proof (rule live_change [OF inv, where i = i and nl = "Some r'"])
  have ids: "delivery_id r = i \<and> id_ok i" using inv r(1) by (rule store_inv_live_id)
  show "tables_ok db'" using store_invD(1) [OF inv] by (simp add: db')
  show "live_ids_ok i s" if "Some r' = Some s" for s
    using that ids r'(1) by (simp add: live_ids_ok_def)
  show "lineage_exact b64 ((live db)(i \<mapsto> r')) (dead db) (lineage_by_source db')"
    using lineage_replace_live [OF seg inv r(1) r'(1)] by (simp add: db' table_updates)
qed (use r r' in \<open>auto simp: db' index_step\<close>)

lemma ack_inv:
  assumes seg: "segment_encoding (ext_b64 X)" and inv: "store_inv (ext_b64 X) db"
    and run: "ack X i gen db = Inr (db', ok)"
  shows "store_inv (ext_b64 X) db'"
  using run
proof (cases rule: ack_cases)
  case stale
  with inv show ?thesis by simp
next
  case (acked r u)
  have id: "delivery_id r = i" using inv acked(2) store_inv_live_id by blast
  show ?thesis
  proof (rule live_change [OF inv, where i = i and nl = None])
    show "tables_ok db'" using store_invD(1) [OF inv] by (simp add: acked(6))
    show "lineage_exact (ext_b64 X) ((live db)(i := None)) (dead db) (lineage_by_source db')"
      using lineage_drop_live [OF seg store_invD(11) [OF inv] acked(2) id] by (simp add: acked(6) table_updates)
  qed (use acked in \<open>auto simp: index_step\<close>)
next
  case (again r u r')
  then show ?thesis
    by (intro release_lease_inv [OF seg inv again(2,4) _ _ _ again(8)]) (simp_all add: follow_up_fields)
qed

section \<open>Deferring\<close>

lemma defer_lock_busy_cases:
  assumes "defer_lock_busy X i gen lock policy now_ms db = Inr (db', oc)"
  obtains (missing) "oc = DeferMissing" "db' = db" "live db i = None"
    | (stale) r where "oc = DeferStale" "db' = db" "live db i = Some r"
      "lease_generation r \<noteq> gen \<or> lease_until_ms r = None"
    | (scheduled) r u due r' where "oc = DeferScheduled" "live db i = Some r" "lease_generation r = gen"
      "lease_until_ms r = Some u" "delayed_due X i (max (lease_generation r) 1) policy now_ms = Inr due"
      "r' = r\<lparr>not_before_ms := due, lease_until_ms := None,
               last_error_excerpt := Some (error_excerpt (lock_busy_message lock))\<rparr>"
      "db' = ready_ins (make_index_key (dept r') (not_before_ms r') i)
                (lineage_upd (insert_delivery_lineage_index (ext_b64 X) r')
                  (put_delivery i r' (lineage_upd (remove_delivery_lineage_index (ext_b64 X) r)
                    (leased_rem (make_index_key (dept r) u i) db))))"
proof -
  from assms obtain found where found: "read_delivery_table (delivery_by_id db) i = Inr found"
    by (auto simp: defer_lock_busy_def)
  note lv = read_delivery_table_decoded [OF found]
  show ?thesis
  proof (cases found)
    case None
    with assms found lv show ?thesis by (auto simp: defer_lock_busy_def intro: missing)
  next
    case (Some r)
    consider "lease_generation r \<noteq> gen \<or> lease_until_ms r = None"
      | u where "lease_generation r = gen" "lease_until_ms r = Some u"
      by (cases "lease_until_ms r") auto
    then show ?thesis
    proof cases
      case 1
      with Some assms found lv show ?thesis
        by (intro stale) (auto simp: defer_lock_busy_def split: if_splits option.splits)
    next
      case 2
      with Some assms found obtain due where
        "delayed_due X i (max (lease_generation r) 1) policy now_ms = Inr due"
        by (auto simp: defer_lock_busy_def Let_def)
      with 2 Some assms found lv show ?thesis
        by (auto simp: defer_lock_busy_def Let_def intro: scheduled)
    qed
  qed
qed

lemma defer_lock_busy_inv:
  assumes seg: "segment_encoding (ext_b64 X)" and inv: "store_inv (ext_b64 X) db"
    and run: "defer_lock_busy X i gen lock policy now_ms db = Inr (db', oc)"
  shows "store_inv (ext_b64 X) db'"
  using run
proof (cases rule: defer_lock_busy_cases)
  case (scheduled r u due r')
  then show ?thesis
    by (intro release_lease_inv [OF seg inv scheduled(2,4) _ _ _ scheduled(7)]) simp_all
qed (use inv in simp_all)

section \<open>Renewing\<close>

text \<open>A row changes without moving in the ready index or the lineage index.\<close>

lemma lease_change_inv:
  assumes seg: "segment_encoding b64" and inv: "store_inv b64 db" and r: "live db i = Some r"
    and r': "delivery_id r' = delivery_id r" "dept r' = dept r" "not_before_ms r' = not_before_ms r"
      "source r' = source r" "queue r' = queue r"
    and tabs: "tables_ok db'" and same: "dead_side_same db db'"
    and lv: "live db' = (live db)(i \<mapsto> r')" and lin: "lineage_by_source db' = lineage_by_source db"
    and rd: "reindexed ready_entry i (Some r) (Some r') (t_get (ready_by_dept_due db)) (t_get (ready_by_dept_due db'))"
    and ls: "reindexed leased_entry i (Some r) (Some r') (t_get (leased_by_dept_until db)) (t_get (leased_by_dept_until db'))"
  shows "store_inv b64 db'"
proof (rule live_change [OF inv tabs same lv])
  have ids: "delivery_id r = i \<and> id_ok i" using inv r by (rule store_inv_live_id)
  show "live_ids_ok i s" if "Some r' = Some s" for s
    using that ids r'(1) by (simp add: live_ids_ok_def)
  show "lineage_exact b64 ((live db)(i \<mapsto> r')) (dead db) (lineage_by_source db')"
    unfolding lin using lineage_keep_live [OF seg store_invD(11) [OF inv] r] r' by blast
qed (use rd ls r in simp_all)

lemma renew_one_cases:
  assumes "renew_one lease_until (db, applied) (i, gen) = Inr (db', applied')"
  obtains (skip) "db' = db" "applied' = applied"
    | (renewed) r u r' where "live db i = Some r" "lease_generation r = gen" "lease_until_ms r = Some u"
      "r' = r\<lparr>lease_until_ms := Some lease_until\<rparr>" "applied' = t_insert i r' applied"
      "db' = leased_ins (make_index_key (dept r) lease_until i)
               (put_delivery i r' (leased_rem (make_index_key (dept r) u i) db))"
proof -
  from assms obtain found where found: "read_delivery_table (delivery_by_id db) i = Inr found"
    by (auto simp: renew_one_def)
  note lv = read_delivery_table_decoded [OF found]
  show ?thesis
  proof (cases "\<exists>r u. found = Some r \<and> lease_until_ms r = Some u \<and> lease_generation r = gen")
    case False
    with assms found show ?thesis
      by (intro skip) (auto simp: renew_one_def split: option.splits if_splits)
  next
    case True
    then obtain r u where r: "found = Some r" "lease_until_ms r = Some u" "lease_generation r = gen" by auto
    show ?thesis
      by (rule renewed [of r u "r\<lparr>lease_until_ms := Some lease_until\<rparr>"])
        (use r lv assms found in \<open>auto simp: renew_one_def Let_def\<close>)
  qed
qed

lemma renew_one_inv:
  assumes seg: "segment_encoding b64" and inv: "store_inv b64 db"
    and run: "renew_one lease_until (db, applied) (i, gen) = Inr (db', applied')"
  shows "store_inv b64 db'"
  using run
proof (cases rule: renew_one_cases)
  case (renewed r u r')
  show ?thesis
    by (rule lease_change_inv [OF seg inv renewed(1), of r'])
      (use renewed store_invD(1) [OF inv] in \<open>auto simp: index_step tables_ok_def\<close>)
qed (use inv in simp)

lemma renew_leases_inv:
  assumes seg: "segment_encoding b64" and inv: "store_inv b64 db"
    and run: "renew_leases renewals lease_until db = Inr (db', applied)"
  shows "store_inv b64 db'"
proof -
  have "store_inv b64 (fst st)"
    if "fold_result (renew_one lease_until) (db, t_empty) renewals = Inr st" for st
    using that by (rule fold_result_inv [where P = "\<lambda>st. store_inv b64 (fst st)"])
      (use inv seg renew_one_inv in auto)
  with run inv show ?thesis
    by (fastforce simp: renew_leases_def split: if_splits)
qed

section \<open>Leasing one key\<close>

definition due_key_wf :: "due_index_key \<Rightarrow> bool" where
  "due_key_wf p \<longleftrightarrow> (\<exists>d. ikey_text p = make_index_key d (due_ms p) (ikey_id p))"

text \<open>A key of the ready index that is up to date: the row it names, if unleased, owns it.\<close>

definition ready_key_current :: "store_db \<Rightarrow> due_index_key \<Rightarrow> bool" where
  "ready_key_current db p \<longleftrightarrow>
     (\<forall>r. live db (ikey_id p) = Some r \<longrightarrow> lease_until_ms r = None \<longrightarrow>
        ikey_text p = make_index_key (dept r) (not_before_ms r) (ikey_id p))"

definition leased_record :: "u64 \<Rightarrow> delivery_record \<Rightarrow> delivery_record" where
  "leased_record lease_until r =
     r\<lparr>lease_generation := sat_add (lease_generation r) 1, lease_until_ms := Some lease_until\<rparr>"

text \<open>The ways one key is processed: nothing but index entries is touched, or the lease is taken.\<close>

lemma lease_key_cases:
  assumes "lease_key p now_ms lease_until dpt excluded expired db = Inr (db', oc)"
  obtains (unchanged) "db' = db" "oc = lko_unchanged"
    | (cleaned) "lko_record oc = None" "lko_mutated oc"
        "db' = (if expired then leased_rem (ikey_text p) db else ready_rem (ikey_text p) db)"
        "\<And>r. live db (ikey_id p) = Some r \<Longrightarrow>
           if expired then lease_until_ms r \<noteq> Some (due_ms p) else lease_until_ms r \<noteq> None"
    | (not_due) r where "lko_record oc = None" "lko_mutated oc" "\<not> expired"
        "live db (ikey_id p) = Some r" "lease_until_ms r = None" "now_ms < not_before_ms r"
        "db' = ready_ins (make_index_key (dept r) (not_before_ms r) (ikey_id p)) (ready_rem (ikey_text p) db)"
    | (taken) r where "lko_record oc = Some (leased_record lease_until r)" "lko_mutated oc"
        "live db (ikey_id p) = Some r" "ikey_id p \<notin> excluded" "\<And>d. dpt = Some d \<Longrightarrow> dept r = d"
        "if expired then lease_until_ms r = Some (due_ms p)
         else lease_until_ms r = None \<and> not_before_ms r \<le> now_ms"
        "db' = fst (lease_key_take (ikey_id p) lease_until r
                 (if expired then leased_rem (ikey_text p) db else ready_rem (ikey_text p) db))"
proof -
  show ?thesis
  proof (cases "ikey_id p \<in> excluded")
    case True
    with assms show ?thesis by (auto simp: lease_key_def intro: unchanged)
  next
    case False
    from assms False obtain found where found: "read_delivery_table (delivery_by_id db) (ikey_id p) = Inr found"
      by (auto simp: lease_key_def Let_def)
    note lv = read_delivery_table_decoded [OF found]
    show ?thesis
    proof (cases found)
      case None
      with assms found lv False show ?thesis
        by (intro cleaned) (auto simp: lease_key_def lko_mutated_with_def Let_def)
    next
      case (Some r)
      let ?other = "case dpt of None \<Rightarrow> False | Some wanted \<Rightarrow> dept r \<noteq> wanted"
      have other: "\<not> ?other \<Longrightarrow> dpt = Some d \<Longrightarrow> dept r = d" for d by auto
      let ?gone = "if expired then lease_until_ms r \<noteq> Some (due_ms p) else lease_until_ms r \<noteq> None"
      consider "?other" | "\<not> ?other" "?gone"
        | "\<not> ?other" "\<not> expired" "lease_until_ms r = None" "now_ms < not_before_ms r"
        | "\<not> ?other" "if expired then lease_until_ms r = Some (due_ms p)
           else lease_until_ms r = None \<and> not_before_ms r \<le> now_ms"
        by (cases expired) (simp_all, fastforce+)
      then show ?thesis
      proof cases
        case 1
        with Some assms found False show ?thesis
          by (intro unchanged) (auto simp: lease_key_def)
      next
        case 2
        with Some assms found lv False show ?thesis
          by (intro cleaned) (auto simp: lease_key_def lko_mutated_with_def Let_def split: if_splits)
      next
        case 3
        with Some assms found lv False show ?thesis
          by (intro not_due) (auto simp: lease_key_def lko_mutated_with_def Let_def)
      next
        case 4
        with Some assms found False
        have eq: "(db', oc) = lease_key_take (ikey_id p) lease_until r
            (if expired then leased_rem (ikey_text p) db else ready_rem (ikey_text p) db)"
          by (auto simp: lease_key_def Let_def split: if_splits)
        show ?thesis
        proof (rule taken [of r])
          show "db' = fst (lease_key_take (ikey_id p) lease_until r
              (if expired then leased_rem (ikey_text p) db else ready_rem (ikey_text p) db))"
            by (simp add: eq [symmetric])
          have "oc = snd (lease_key_take (ikey_id p) lease_until r
              (if expired then leased_rem (ikey_text p) db else ready_rem (ikey_text p) db))"
            by (simp add: eq [symmetric])
          then show "lko_record oc = Some (leased_record lease_until r)" and "lko_mutated oc"
            by (simp_all add: lease_key_take_def lko_mutated_with_def leased_record_def Let_def)
        qed (use Some lv False 4 other in auto)
      qed
    qed
  qed
qed

lemma lease_key_take_eq:
  "fst (lease_key_take i lease_until r db) =
     leased_ins (make_index_key (dept r) lease_until i) (put_delivery i (leased_record lease_until r)
       (case lease_until_ms r of None \<Rightarrow> db | Some old \<Rightarrow> leased_rem (make_index_key (dept r) old i) db))"
  by (simp add: lease_key_take_def leased_record_def Let_def)

text \<open>Removing a key that the row it names does not own changes nothing.\<close>

lemma ready_drop_foreign:
  assumes "store_inv b64 db" and "due_key_wf p" and "\<And>r. live db (ikey_id p) = Some r \<Longrightarrow> lease_until_ms r \<noteq> None"
  shows "t_get (t_remove (ikey_text p) (ready_by_dept_due db)) = t_get (ready_by_dept_due db)"
proof -
  obtain d where d: "ikey_text p = make_index_key d (due_ms p) (ikey_id p)"
    using assms(2) by (auto simp: due_key_wf_def)
  define q where "q = (undefined :: delivery_record)\<lparr>dept := d, not_before_ms := due_ms p, lease_until_ms := None\<rparr>"
  have "ready_entry (ikey_id p) q = Some (ikey_text p, ())"
    by (simp add: ready_entry_def q_def d)
  from rdy.drop_foreign [OF store_invD(6) [OF assms(1)] this] assms(3) show ?thesis
    by (simp add: ready_entry_def)
qed

lemma leased_drop_foreign:
  assumes "store_inv b64 db" and "due_key_wf p"
    and "\<And>r. live db (ikey_id p) = Some r \<Longrightarrow> lease_until_ms r \<noteq> Some (due_ms p) \<or>
      ikey_text p \<noteq> make_index_key (dept r) (due_ms p) (ikey_id p)"
  shows "t_get (t_remove (ikey_text p) (leased_by_dept_until db)) = t_get (leased_by_dept_until db)"
proof -
  obtain d where d: "ikey_text p = make_index_key d (due_ms p) (ikey_id p)"
    using assms(2) by (auto simp: due_key_wf_def)
  define q where "q = (undefined :: delivery_record)\<lparr>dept := d, lease_until_ms := Some (due_ms p)\<rparr>"
  have "leased_entry (ikey_id p) q = Some (ikey_text p, ())"
    by (simp add: leased_entry_def q_def d)
  from lsd.drop_foreign [OF store_invD(7) [OF assms(1)] this] assms(3) d show ?thesis
    by (auto simp: leased_entry_def)
qed

lemma store_inv_same_gets:
  assumes inv: "store_inv b64 db" and "tables_ok db'" and "dead_side_same db db'"
    and "delivery_by_id db' = delivery_by_id db" "lineage_by_source db' = lineage_by_source db"
    and "t_get (ready_by_dept_due db') = t_get (ready_by_dept_due db)"
    and "t_get (leased_by_dept_until db') = t_get (leased_by_dept_until db)"
  shows "store_inv b64 db'"
proof (rule live_change [OF inv assms(2,3), where i = "[]" and nl = "live db []"])
  show "live_ids_ok [] r" if "live db [] = Some r" for r
    using store_inv_live_id [OF inv that] by (simp add: live_ids_ok_def)
qed (use assms store_invD(11) [OF inv] in simp_all)

lemma lease_key_inv:
  assumes seg: "segment_encoding b64" and inv: "store_inv b64 db" and wf: "due_key_wf p"
    and cur: "\<not> expired \<Longrightarrow> ready_key_current db p"
    and run: "lease_key p now_ms lease_until dpt excluded expired db = Inr (db', oc)"
  shows "store_inv b64 db'"
  using run
proof (cases rule: lease_key_cases)
  case cleaned
  have "t_get (ready_by_dept_due db') = t_get (ready_by_dept_due db)"
    "t_get (leased_by_dept_until db') = t_get (leased_by_dept_until db)"
    using ready_drop_foreign [OF inv wf] leased_drop_foreign [OF inv wf] cleaned(3,4)
    by (auto simp: ready_rem_def leased_rem_def split: if_splits)
  then show ?thesis
    by (intro store_inv_same_gets [OF inv])
      (use store_invD(1) [OF inv] in \<open>auto simp: cleaned(3) table_updates dead_side_same_def tables_ok_def\<close>)
next
  case (not_due r)
  have key: "ikey_text p = make_index_key (dept r) (not_before_ms r) (ikey_id p)"
    using cur not_due by (auto simp: ready_key_current_def)
  have "ready_entry (ikey_id p) r = Some (ikey_text p, ())"
    using not_due key by (simp add: ready_entry_def)
  from rdy.add_owned [OF store_invD(6) [OF inv] not_due(4) this]
  have "t_get (ready_by_dept_due db') = t_get (ready_by_dept_due db)"
    using not_due key by (simp add: table_updates)
  then show ?thesis
    by (intro store_inv_same_gets [OF inv])
      (use store_invD(1) [OF inv] in \<open>auto simp: not_due(7) table_updates dead_side_same_def tables_ok_def\<close>)
next
  case (taken r)
  show ?thesis
  proof (cases expired)
    case True
    have drop: "(t_get (leased_by_dept_until db))(ikey_text p := None,
        make_index_key (dept r) (due_ms p) (ikey_id p) := None) =
        (t_get (leased_by_dept_until db))(make_index_key (dept r) (due_ms p) (ikey_id p) := None)"
      using leased_drop_foreign [OF inv wf] taken(3)
      by (cases "ikey_text p = make_index_key (dept r) (due_ms p) (ikey_id p)") simp_all
    show ?thesis
      by (rule lease_change_inv [OF seg inv taken(3), of "leased_record lease_until r"])
        (use True taken(6,7) store_invD(1) [OF inv] drop in
          \<open>simp_all add: lease_key_take_eq index_step leased_record_def tables_ok_def\<close>)
  next
    case False
    then have key: "ikey_text p = make_index_key (dept r) (not_before_ms r) (ikey_id p)"
      using cur taken by (auto simp: ready_key_current_def)
    show ?thesis
      by (rule lease_change_inv [OF seg inv taken(3), of "leased_record lease_until r"])
        (use False taken(6,7) store_invD(1) [OF inv] key in
          \<open>simp_all add: lease_key_take_eq index_step leased_record_def tables_ok_def\<close>)
  qed
qed (use inv in simp)

section \<open>What the due indexes hold\<close>

lemma ready_table_keys:
  assumes "store_inv b64 db"
  shows "k \<in> fst ` set (t_iter (ready_by_dept_due db)) \<longleftrightarrow>
    (\<exists>i r. live db i = Some r \<and> lease_until_ms r = None \<and> k = make_index_key (dept r) (not_before_ms r) i)"
proof -
  have "k \<in> fst ` set (t_iter (ready_by_dept_due db)) \<longleftrightarrow> t_get (ready_by_dept_due db) k = Some ()"
    using store_invD(1) [OF assms] tab.entries_get [of "ready_by_dept_due db"]
    by (force simp: tables_ok_def image_iff)
  also have "\<dots> \<longleftrightarrow> (\<exists>i. Option.bind (live db i) (ready_entry i) = Some (k, ()))"
    using store_invD(6) [OF assms] by (simp add: index_exact_def)
  finally show ?thesis
    by (auto simp: bind_eq_Some_conv ready_entry_def split: if_splits)
qed

lemma leased_table_keys:
  assumes "store_inv b64 db"
  shows "k \<in> fst ` set (t_iter (leased_by_dept_until db)) \<longleftrightarrow>
    (\<exists>i r u. live db i = Some r \<and> lease_until_ms r = Some u \<and> k = make_index_key (dept r) u i)"
proof -
  have "k \<in> fst ` set (t_iter (leased_by_dept_until db)) \<longleftrightarrow> t_get (leased_by_dept_until db) k = Some ()"
    using store_invD(1) [OF assms] tab.entries_get [of "leased_by_dept_until db"]
    by (force simp: tables_ok_def image_iff)
  also have "\<dots> \<longleftrightarrow> (\<exists>i. Option.bind (live db i) (leased_entry i) = Some (k, ()))"
    using store_invD(7) [OF assms] by (simp add: index_exact_def)
  finally show ?thesis
    by (auto simp: bind_eq_Some_conv leased_entry_def)
qed

lemma due_tables_wf:
  assumes "store_inv b64 db"
  shows "k \<in> fst ` set (t_iter (ready_by_dept_due db)) \<Longrightarrow> is_due_key k"
    and "k \<in> fst ` set (t_iter (leased_by_dept_until db)) \<Longrightarrow> is_due_key k"
  using store_inv_live_id [OF assms]
  unfolding ready_table_keys [OF assms] leased_table_keys [OF assms] is_due_key_def id_ok_def by blast+

lemmas collect_ready = collect_due_keys_eq [OF due_tables_wf(1)]
lemmas collect_leased = collect_due_keys_eq [OF due_tables_wf(2)]

lemma due_entries_key:
  assumes "p \<in> set (due_entries dpt now_ms t)"
  shows "\<exists>k. k \<in> fst ` set (t_iter t) \<and> p = parsed_key k \<and> due_ms p \<le> now_ms \<and>
    (\<forall>d. dpt = Some d \<longrightarrow> k = make_index_key d (due_ms p) (ikey_id p))"
proof -
  from assms obtain k where "k \<in> fst ` set (t_iter t)" "p = parsed_key k" "due_ms p \<le> now_ms"
      "case dpt of None \<Rightarrow> True | Some d \<Rightarrow> k = make_index_key d (due_ms p) (ikey_id p)"
    by (auto simp: due_entries_def)
  then show ?thesis by (intro exI [of _ k]) auto
qed

lemma ready_due_entry:
  assumes inv: "store_inv b64 db" and p: "p \<in> set (due_entries dpt now_ms (ready_by_dept_due db))"
  obtains r where "live db (ikey_id p) = Some r" "lease_until_ms r = None" "due_ms p = not_before_ms r"
    "ikey_text p = make_index_key (dept r) (not_before_ms r) (ikey_id p)" "not_before_ms r \<le> now_ms"
    "\<And>d. dpt = Some d \<Longrightarrow> dept r = d"
proof -
  obtain k where k: "k \<in> fst ` set (t_iter (ready_by_dept_due db))" "p = parsed_key k" "due_ms p \<le> now_ms"
      and own: "\<And>d. dpt = Some d \<Longrightarrow> k = make_index_key d (due_ms p) (ikey_id p)"
    using due_entries_key [OF p] by blast
  then obtain i r where r: "live db i = Some r" "lease_until_ms r = None"
      "k = make_index_key (dept r) (not_before_ms r) i"
    using ready_table_keys [OF inv] by blast
  have "dept r = d" if "dpt = Some d" for d
    using own [OF that] k(2) r(3) by auto
  with r k show ?thesis by (intro that) auto
qed

lemma leased_due_entry:
  assumes inv: "store_inv b64 db" and p: "p \<in> set (due_entries dpt now_ms (leased_by_dept_until db))"
  obtains r where "live db (ikey_id p) = Some r" "lease_until_ms r = Some (due_ms p)"
    "ikey_text p = make_index_key (dept r) (due_ms p) (ikey_id p)" "due_ms p \<le> now_ms"
    "\<And>d. dpt = Some d \<Longrightarrow> dept r = d"
proof -
  obtain k where k: "k \<in> fst ` set (t_iter (leased_by_dept_until db))" "p = parsed_key k" "due_ms p \<le> now_ms"
      and own: "\<And>d. dpt = Some d \<Longrightarrow> k = make_index_key d (due_ms p) (ikey_id p)"
    using due_entries_key [OF p] by blast
  then obtain i r u where r: "live db i = Some r" "lease_until_ms r = Some u" "k = make_index_key (dept r) u i"
    using leased_table_keys [OF inv] by blast
  have "dept r = d" if "dpt = Some d" for d
    using own [OF that] k(2) r(3) by auto
  with r k show ?thesis by (intro that) auto
qed

section \<open>Leasing a batch\<close>

text \<open>Leasing never makes a leased row unleased.\<close>

definition unleased_kept :: "store_db \<Rightarrow> store_db \<Rightarrow> bool" where
  "unleased_kept db db' \<longleftrightarrow>
     (\<forall>j r. live db' j = Some r \<longrightarrow> lease_until_ms r = None \<longrightarrow> live db j = Some r)"

lemma unleased_kept_trans: "unleased_kept a b \<Longrightarrow> unleased_kept b c \<Longrightarrow> unleased_kept a c"
  by (auto simp: unleased_kept_def)

lemma lease_key_live:
  assumes "lease_key p now_ms lease_until dpt excluded expired db = Inr (db', oc)"
  shows "live db' = (case lko_record oc of None \<Rightarrow> live db | Some r' \<Rightarrow> (live db)(ikey_id p \<mapsto> r'))"
  using assms
proof (cases rule: lease_key_cases)
  case (taken r)
  then show ?thesis by (cases "lease_until_ms r") (simp_all add: lease_key_take_eq table_updates)
qed (auto simp: table_updates lko_unchanged_def)

lemma lease_key_unleased:
  assumes run: "lease_key p now_ms lease_until dpt excluded expired db = Inr (db', oc)"
  shows "unleased_kept db db'"
  using run
proof (cases rule: lease_key_cases)
  case (taken r)
  then show ?thesis
    using lease_key_live [OF run] by (auto simp: unleased_kept_def leased_record_def)
qed (use lease_key_live [OF run] in \<open>auto simp: unleased_kept_def lko_unchanged_def\<close>)

lemma ready_key_current_kept: "unleased_kept db db' \<Longrightarrow> ready_key_current db p \<Longrightarrow> ready_key_current db' p"
  by (auto simp: unleased_kept_def ready_key_current_def)

lemma lease_keys_inv:
  assumes seg: "segment_encoding b64"
    and "lease_keys limit now_ms lease_until dpt excluded expired (db, leased, mutated) keys = Inr (db', leased', mutated')"
    and "store_inv b64 db" and "\<And>p. p \<in> set keys \<Longrightarrow> due_key_wf p"
    and "\<And>p. p \<in> set keys \<Longrightarrow> \<not> expired \<Longrightarrow> ready_key_current db p"
  shows "store_inv b64 db' \<and> unleased_kept db db'"
  using assms(2-)
proof (induction keys arbitrary: db leased mutated)
  case Nil
  then show ?case by (simp add: unleased_kept_def)
next
  case (Cons p keys)
  show ?case
  proof (cases "length leased \<ge> limit")
    case True
    with Cons.prems show ?thesis by (simp add: unleased_kept_def)
  next
    case False
    with Cons.prems(1) obtain db1 oc
      where step: "lease_key p now_ms lease_until dpt excluded expired db = Inr (db1, oc)"
        and rest: "lease_keys limit now_ms lease_until dpt excluded expired
          (db1, (case lko_record oc of None \<Rightarrow> leased | Some r \<Rightarrow> leased @ [r]), mutated \<or> lko_mutated oc) keys
          = Inr (db', leased', mutated')"
      by auto
    have inv1: "store_inv b64 db1"
      using Cons.prems(2-) by (intro lease_key_inv [OF seg _ _ _ step]) auto
    have kept: "unleased_kept db db1" using step by (rule lease_key_unleased)
    have "store_inv b64 db' \<and> unleased_kept db1 db'"
      using Cons.IH [OF rest inv1] Cons.prems(3,4) ready_key_current_kept [OF kept] by simp
    with kept show ?thesis by (blast intro: unleased_kept_trans)
  qed
qed

lemma lease_matching_inv:
  assumes seg: "segment_encoding b64" and inv: "store_inv b64 db"
    and run: "lease_matching now_ms batch_limit lease_dur dpt excluded db = Inr (db', leased)"
  shows "store_inv b64 db'"
proof -
  define until where "until = sat_add now_ms (duration_millis lease_dur)"
  define budget where "budget = scan_budget batch_limit (card excluded)"
  define ks where "ks = take (expired_lease_quota batch_limit)
      (take budget (due_entries dpt now_ms (leased_by_dept_until db)))"
  define rs where "rs = take budget (due_entries dpt now_ms (ready_by_dept_due db))"
  have keys: "collect_leaseable_keys now_ms batch_limit dpt excluded db = Inr (ks, rs)"
    by (simp add: collect_leaseable_keys_def Let_def collect_ready [OF inv] collect_leased [OF inv]
        ks_def rs_def budget_def)
  have wf_ks: "due_key_wf p" if "p \<in> set ks" for p
  proof -
    from that have "p \<in> set (due_entries dpt now_ms (leased_by_dept_until db))"
      by (auto simp: ks_def dest: in_set_takeD)
    then show ?thesis by (rule leased_due_entry [OF inv]) (auto simp: due_key_wf_def)
  qed
  have wf_rs: "due_key_wf p \<and> ready_key_current db p" if "p \<in> set rs" for p
  proof -
    from that have "p \<in> set (due_entries dpt now_ms (ready_by_dept_due db))"
      by (auto simp: rs_def dest: in_set_takeD)
    then show ?thesis by (rule ready_due_entry [OF inv]) (auto simp: due_key_wf_def ready_key_current_def)
  qed
  consider "db' = db"
    | db1 l1 m1 db2 l2 m2 where
      "lease_keys (expired_lease_quota batch_limit) now_ms until dpt excluded True (db, [], False) ks = Inr (db1, l1, m1)"
      "lease_keys batch_limit now_ms until dpt excluded False (db1, l1, m1) rs = Inr (db2, l2, m2)" "db' = db2"
    using run keys by (auto simp: lease_matching_def until_def [symmetric] Let_def split: if_splits)
  then show ?thesis
  proof cases
    case 2
    have 1: "store_inv b64 db1 \<and> unleased_kept db db1"
      using wf_ks by (intro lease_keys_inv [OF seg 2(1) inv]) auto
    then have "store_inv b64 db2 \<and> unleased_kept db1 db2"
      using wf_rs ready_key_current_kept by (intro lease_keys_inv [OF seg 2(2)]) blast+
    with 2(3) show ?thesis by simp
  qed (use inv in simp)
qed

section \<open>Leasing one delivery\<close>

lemma lease_delivery_cases:
  assumes "lease_delivery i now_ms lease_dur db = Inr (db', res)"
  obtains (none) "db' = db" "res = None"
      "\<And>r. live db i = Some r \<Longrightarrow> lease_until_ms r \<noteq> None \<or> now_ms < not_before_ms r"
    | (taken) r r' where "live db i = Some r" "lease_until_ms r = None" "not_before_ms r \<le> now_ms"
      "r' = leased_record (sat_add now_ms (duration_millis lease_dur)) r" "res = Some r'"
      "db' = leased_ins (make_index_key (dept r) (sat_add now_ms (duration_millis lease_dur)) i)
               (put_delivery i r' (ready_rem (make_index_key (dept r) (not_before_ms r) i) db))"
proof -
  from assms obtain found where found: "read_delivery_table (delivery_by_id db) i = Inr found"
    by (auto simp: lease_delivery_def Let_def)
  note lv = read_delivery_table_decoded [OF found]
  show ?thesis
  proof (cases "\<exists>r. found = Some r \<and> lease_until_ms r = None \<and> \<not> now_ms < not_before_ms r")
    case False
    with assms found lv show ?thesis
      by (intro none) (auto simp: lease_delivery_def Let_def split: option.splits if_splits)
  next
    case True
    then obtain r where r: "found = Some r" "lease_until_ms r = None" "\<not> now_ms < not_before_ms r" by auto
    show ?thesis
      by (rule taken [of r "leased_record (sat_add now_ms (duration_millis lease_dur)) r"])
        (use r lv assms found in \<open>auto simp: lease_delivery_def leased_record_def Let_def leD\<close>)
  qed
qed

lemma lease_delivery_inv:
  assumes seg: "segment_encoding b64" and inv: "store_inv b64 db"
    and run: "lease_delivery i now_ms lease_dur db = Inr (db', res)"
  shows "store_inv b64 db'"
  using run
proof (cases rule: lease_delivery_cases)
  case (taken r r')
  show ?thesis
    by (rule lease_change_inv [OF seg inv taken(1), of r'])
      (use taken store_invD(1) [OF inv] in \<open>auto simp: index_step leased_record_def tables_ok_def\<close>)
qed (use inv in simp)

lemma next_due_deterministic_inv:
  assumes seg: "segment_encoding b64" and inv: "store_inv b64 db"
    and run: "next_due_deterministic now_ms lease_dur db = Inr (db', res)"
  shows "store_inv b64 db'"
  using run inv lease_delivery_inv [OF seg inv]
  by (auto simp: next_due_deterministic_def split: list.splits)

section \<open>Collapsing a duplicate\<close>

lemma enqueue_collapse_cases:
  assumes "i = delivery_id r"
  obtains (same) "enqueue_collapse c r db = db"
    | (dirty) "enqueue_collapse c r db = put_delivery i (c\<lparr>pending_dirty := True\<rparr>) db"
    | (expired) u where "lease_until_ms c = Some u" "u \<le> not_before_ms r"
      "enqueue_collapse c r db = put_delivery i (c\<lparr>lease_until_ms := None\<rparr>)
         (ready_ins (make_index_key (dept c) (not_before_ms c) i)
           (leased_rem (make_index_key (dept c) u i) db))"
proof (cases "collapse_by_dedup_id c \<and> collapse_by_dedup_id r")
  case False
  then show ?thesis by (intro same) (auto simp: enqueue_collapse_def)
next
  case True
  show ?thesis
  proof (cases "lease_until_ms c")
    case None
    then show ?thesis by (intro same) (simp add: enqueue_collapse_def)
  next
    case (Some u)
    show ?thesis
    proof (cases "not_before_ms r < u")
      case less: True
      show ?thesis
        by (cases "pending_dirty c") (use same dirty True Some less assms in \<open>auto simp: enqueue_collapse_def\<close>)
    next
      case geq: False
      show ?thesis
        by (rule expired [of u]) (use True Some geq assms in \<open>auto simp: enqueue_collapse_def\<close>)
    qed
  qed
qed

lemma enqueue_collapse_inv:
  assumes seg: "segment_encoding b64" and inv: "store_inv b64 db" and c: "live db (delivery_id r) = Some c"
  shows "store_inv b64 (enqueue_collapse c r db)"
  using refl [of "delivery_id r"]
proof (cases rule: enqueue_collapse_cases [where c = c and db = db])
  case same
  with inv show ?thesis by simp
next
  case dirty
  show ?thesis unfolding dirty
    by (rule lease_change_inv [OF seg inv c, of "c\<lparr>pending_dirty := True\<rparr>"])
      (use store_invD(1) [OF inv] in \<open>auto simp: index_step tables_ok_def\<close>)
next
  case (expired u)
  show ?thesis unfolding expired(3)
    by (rule lease_change_inv [OF seg inv c, of "c\<lparr>lease_until_ms := None\<rparr>"])
      (use expired store_invD(1) [OF inv] in \<open>auto simp: index_step tables_ok_def\<close>)
qed

section \<open>Rebinding\<close>

definition rebound_record :: "delivery_record \<Rightarrow> string \<Rightarrow> delivery_record" where
  "rebound_record r nd =
     (case lease_until_ms r of
        None \<Rightarrow> r\<lparr>dept := nd\<rparr>
      | Some u \<Rightarrow> r\<lparr>lease_generation := sat_add (lease_generation r) 1, dept := nd\<rparr>)"

lemma rebound_record_fields [simp]:
  "delivery_id (rebound_record r nd) = delivery_id r" "dept (rebound_record r nd) = nd"
  "not_before_ms (rebound_record r nd) = not_before_ms r" "queue (rebound_record r nd) = queue r"
  "lease_until_ms (rebound_record r nd) = lease_until_ms r"
  by (simp_all add: rebound_record_def split: option.splits)

lemma rebind_one_live:
  "live (rebind_one X db (i, r, nd)) = (live db)(i \<mapsto> rebound_record r nd)"
  "dead_side_same db (rebind_one X db (i, r, nd))"
  by (cases "lease_until_ms r";
      simp add: rebind_one_def rebound_record_def Let_def table_updates dead_side_same_def)+

lemma rebind_one_inv:
  assumes seg: "segment_encoding (ext_b64 X)" and inv: "store_inv (ext_b64 X) db" and r: "live db i = Some r"
  shows "store_inv (ext_b64 X) (rebind_one X db (i, r, nd))"
proof (rule live_change [OF inv _ rebind_one_live(2) rebind_one_live(1)])
  let ?db = "rebind_one X db (i, r, nd)" and ?r = "rebound_record r nd"
  have ids: "delivery_id r = i \<and> id_ok i" using inv r by (rule store_inv_live_id)
  show "tables_ok ?db"
    using store_invD(1) [OF inv]
    by (cases "lease_until_ms r") (simp_all add: rebind_one_def Let_def)
  show "live_ids_ok i s" if "Some ?r = Some s" for s
    using that ids by (auto simp: live_ids_ok_def)
  have "lineage_by_source ?db = insert_delivery_lineage_index (ext_b64 X) ?r
      (remove_delivery_lineage_index (ext_b64 X) r (lineage_by_source db))"
    by (cases "lease_until_ms r") (simp_all add: rebind_one_def rebound_record_def Let_def table_updates)
  then show "lineage_exact (ext_b64 X) ((live db)(i \<mapsto> ?r)) (dead db) (lineage_by_source ?db)"
    using lineage_replace_live [OF seg inv r, of ?r] by simp
  show "reindexed ready_entry i (live db i) (Some ?r) (t_get (ready_by_dept_due db)) (t_get (ready_by_dept_due ?db))"
    "reindexed leased_entry i (live db i) (Some ?r) (t_get (leased_by_dept_until db)) (t_get (leased_by_dept_until ?db))"
    using r by (cases "lease_until_ms r"; simp add: rebind_one_def Let_def index_step rebound_record_def)+
qed

lemma rebind_candidates_rows:
  assumes "(i, r, nd) \<in> set (rebind_candidates m db)" and "t_ok (delivery_by_id db)"
  shows "live db i = Some r" and "t_get m (queue r) = Some nd" and "dept r \<noteq> nd"
  using assms tab.entries_get [OF assms(2), of i]
  by (auto simp: rebind_candidates_def List.map_filter_def decoded_def split: option.splits if_splits)

lemma map_filter_fst_distinct:
  assumes "distinct (map fst xs)" and "\<And>x y. f x = Some y \<Longrightarrow> fst y = fst x"
  shows "distinct (map fst (List.map_filter f xs))"
  using assms
proof (induction xs)
  case (Cons x xs)
  then have "fst ` set (List.map_filter f xs) \<subseteq> fst ` set xs"
    by (force simp: List.map_filter_def)
  with Cons show ?case by (auto simp: List.map_filter_simps split: option.split)
qed (simp add: List.map_filter_simps)

lemma rebind_candidates_distinct:
  "t_ok (delivery_by_id db) \<Longrightarrow> distinct (map fst (rebind_candidates m db))"
  unfolding rebind_candidates_def
  by (rule map_filter_fst_distinct) (auto simp: tab.entries_distinct split: option.splits if_splits)

lemma rebind_fold_inv:
  assumes seg: "segment_encoding (ext_b64 X)" and "store_inv (ext_b64 X) db"
    and "distinct (map fst cs)" and "\<And>i r nd. (i, r, nd) \<in> set cs \<Longrightarrow> live db i = Some r"
  shows "store_inv (ext_b64 X) (foldl (rebind_one X) db cs)"
  using assms(2-)
proof (induction cs arbitrary: db)
  case (Cons c cs)
  obtain i r nd where c: "c = (i, r, nd)" by (cases c)
  have "live (rebind_one X db c) j = Some q" if "(j, q, n) \<in> set cs" for j q n
  proof -
    have "j \<noteq> i" using Cons.prems(2) that c by force
    then show ?thesis using Cons.prems(3) [of j q n] that by (simp add: c rebind_one_live)
  qed
  moreover have "store_inv (ext_b64 X) (rebind_one X db c)"
    unfolding c using Cons.prems(3) [of i r nd] c by (intro rebind_one_inv [OF seg Cons.prems(1)]) simp
  moreover have "distinct (map fst cs)" using Cons.prems(2) by simp
  ultimately show ?case using Cons.IH by simp
qed simp

lemma rebind_inv:
  assumes seg: "segment_encoding (ext_b64 X)" and inv: "store_inv (ext_b64 X) db"
    and run: "rebind_deliveries_to_current_subscribers X m db = (db', rebound)"
  shows "store_inv (ext_b64 X) db'"
proof -
  have ok: "t_ok (delivery_by_id db)" using store_invD(1) [OF inv] by (simp add: tables_ok_def)
  have "store_inv (ext_b64 X) (foldl (rebind_one X) db (rebind_candidates m db))"
    using rebind_candidates_rows(1) ok
    by (intro rebind_fold_inv [OF seg inv rebind_candidates_distinct]) blast+
  with run inv show ?thesis
    by (auto simp: rebind_deliveries_to_current_subscribers_def Let_def split: if_splits)
qed

end
