(* ===== verification/Store_Compaction.thy ===== *)
theory Store_Compaction
  imports Store_Leases
begin

text \<open>
  The dead side of the database: what the dead-letter indexes hold, the compaction of terminal dead
  records, and accepting a delivery. Compaction removes only terminal dead records whose retention
  has run out, and keeps the invariant and the suppressed identities.
\<close>

section \<open>Keys of the dead-letter indexes\<close>

definition dead_key_wf :: "due_index_key \<Rightarrow> bool" where
  "dead_key_wf p \<longleftrightarrow> (\<exists>d. ikey_text p = make_dead_due_index_key d (due_ms p) (ikey_id p))"

definition parsed_dead_key :: "string \<Rightarrow> due_index_key" where
  "parsed_dead_key k = projr (parse_dead_due_index_key k)"

lemma parsed_dead_make [simp]:
  "parsed_dead_key (make_dead_due_index_key d m i) =
   \<lparr>ikey_text = make_dead_due_index_key d m i, due_ms = m, ikey_id = i\<rparr>"
  by (simp add: parsed_dead_key_def)

lemma encode_index_part_below: "encode_index_part d @ s < max_scalar"
proof -
  obtain c cs where c: "encode_index_part d = c # cs"
    by (cases "encode_index_part d") (auto simp: encode_index_part_def Let_def split: if_splits)
  with encode_index_part_chars [of d] have "key_char c" by simp
  then have "(of_char c :: nat) < 244"
    by (auto simp: key_char_def is_alnum_def Let_def)
  with c show ?thesis by (simp add: max_scalar_def less_char_def)
qed

lemma dead_due_range_iff:
  "fmt20 0 @ ''/'' \<le> make_dead_due_index_key d m i \<and>
   make_dead_due_index_key d m i \<le> fmt20 now @ ''/'' @ max_scalar \<longleftrightarrow> m \<le> now"
proof -
  have "encode_index_part d @ CHR ''/'' # i \<le> max_scalar"
    by (rule less_imp_le [OF encode_index_part_below])
  moreover have "0 < m \<or> 0 = m" and "m \<le> now \<longleftrightarrow> m < now \<or> m = now"
    by (auto simp: word_neq_0_conv order_le_less)
  ultimately show ?thesis
    by (auto simp: make_dead_due_index_key_def append_le_same_length)
qed

lemma terminal_drop_foreign:
  assumes "index_exact terminal_entry dd idx"
    and "\<And>x. dd i = Some x \<Longrightarrow> is_terminal_dead_record x \<Longrightarrow> dead_at_ms x \<noteq> m \<or> dr_dept x \<noteq> d"
  shows "idx(make_dead_due_index_key d m i := None) = idx"
  using assms(2)
  by (intro trm.drop_foreign [OF assms(1), of i "undefined\<lparr>dr_dept := d, dead_at_ms := m, permanent := True\<rparr>" _ "()"])
    (auto simp: terminal_entry_def is_terminal_dead_record_def split: if_splits)

lemma dead_due_drop_foreign:
  assumes "index_exact dead_due_entry dd idx"
    and "\<And>x. dd i = Some x \<Longrightarrow> should_index_dead_record x \<Longrightarrow> dead_at_ms x \<noteq> m \<or> dr_dept x \<noteq> d"
  shows "idx(make_dead_due_index_key d m i := None) = idx"
  using assms(2)
  by (intro ddu.drop_foreign [OF assms(1), of i "undefined\<lparr>dr_dept := d, dead_at_ms := m, permanent := False,
        replayable := True, dr_record := Some undefined\<rparr>" _ "()"])
    (auto simp: dead_due_entry_def should_index_dead_record_def split: if_splits)

lemma dead_time_drop_foreign:
  assumes "index_exact dead_time_entry dd idx" and "\<And>x. dd i = Some x \<Longrightarrow> dead_at_ms x \<noteq> m"
  shows "idx(make_dead_time_index_key m i := None) = idx"
  using assms(2)
  by (intro dtm.drop_foreign [OF assms(1), of i "undefined\<lparr>dead_at_ms := m\<rparr>" _ "()"])
    (auto simp: dead_time_entry_def)

lemma terminal_and_indexed: "is_terminal_dead_record d \<Longrightarrow> \<not> should_index_dead_record d"
  by (auto simp: is_terminal_dead_record_def should_index_dead_record_def)

text \<open>Forgetting the dead record of an identity, if there is one, drops its entries.\<close>

definition dead_indexes_ok :: "store_db \<Rightarrow> bool" where
  "dead_indexes_ok db \<longleftrightarrow>
     index_exact dead_time_entry (dead db) (t_get (dead_by_time db)) \<and>
     index_exact dead_due_entry (dead db) (t_get (dead_by_dept_due db)) \<and>
     index_exact terminal_entry (dead db) (t_get (terminal_dead_by_time db))"

definition forget_dead :: "externs \<Rightarrow> string \<Rightarrow> store_db \<Rightarrow> store_db" where
  "forget_dead X i db =
     (case dead db i of None \<Rightarrow> db | Some previous \<Rightarrow> forget_previous_dead X previous i db)"

lemma forget_dead_gets:
  assumes ex: "dead_indexes_ok db"
  shows "t_get (terminal_dead_by_time (forget_dead X i db)) =
      drop_entry (Option.bind (dead db i) (terminal_entry i)) (t_get (terminal_dead_by_time db))"
    "t_get (dead_by_dept_due (forget_dead X i db)) =
      drop_entry (Option.bind (dead db i) (dead_due_entry i)) (t_get (dead_by_dept_due db))"
    "t_get (dead_by_time (forget_dead X i db)) =
      drop_entry (Option.bind (dead db i) (dead_time_entry i)) (t_get (dead_by_time db))"
    "lineage_by_source (forget_dead X i db) =
      (case dead db i of None \<Rightarrow> lineage_by_source db
       | Some d \<Rightarrow> remove_dead_lineage_index (ext_b64 X) d (lineage_by_source db))"
proof -
  note idx = ex [unfolded dead_indexes_ok_def]
  have "(t_get (terminal_dead_by_time db))(make_dead_due_index_key (dr_dept d) (dead_at_ms d) i := None) =
      drop_entry (terminal_entry i d) (t_get (terminal_dead_by_time db))" if "dead db i = Some d" for d
    using terminal_drop_foreign [OF idx [THEN conjunct2, THEN conjunct2], of i] that
    by (cases "is_terminal_dead_record d") (auto simp: terminal_entry_def)
  moreover have "(t_get (dead_by_dept_due db))(make_dead_due_index_key (dr_dept d) (dead_at_ms d) i := None) =
      drop_entry (dead_due_entry i d) (t_get (dead_by_dept_due db))" if "dead db i = Some d" for d
    using dead_due_drop_foreign [OF idx [THEN conjunct2, THEN conjunct1], of i] that
    by (cases "should_index_dead_record d") (auto simp: dead_due_entry_def)
  ultimately show "t_get (terminal_dead_by_time (forget_dead X i db)) =
      drop_entry (Option.bind (dead db i) (terminal_entry i)) (t_get (terminal_dead_by_time db))"
    "t_get (dead_by_dept_due (forget_dead X i db)) =
      drop_entry (Option.bind (dead db i) (dead_due_entry i)) (t_get (dead_by_dept_due db))"
    "t_get (dead_by_time (forget_dead X i db)) =
      drop_entry (Option.bind (dead db i) (dead_time_entry i)) (t_get (dead_by_time db))"
    "lineage_by_source (forget_dead X i db) =
      (case dead db i of None \<Rightarrow> lineage_by_source db
       | Some d \<Rightarrow> remove_dead_lineage_index (ext_b64 X) d (lineage_by_source db))"
    by (cases "dead db i";
        simp add: forget_dead_def forget_previous_dead_def table_updates dead_time_entry_def)+
qed

lemma forget_dead_same [simp]:
  "delivery_by_id (forget_dead X i db) = delivery_by_id db" "dead_by_id (forget_dead X i db) = dead_by_id db"
  "ready_by_dept_due (forget_dead X i db) = ready_by_dept_due db"
  "leased_by_dept_until (forget_dead X i db) = leased_by_dept_until db"
  "terminal_suppression_by_slot (forget_dead X i db) = terminal_suppression_by_slot db"
  by (cases "dead db i"; simp add: forget_dead_def forget_previous_dead_def table_updates)+

lemma forget_dead_tables_ok [simp]: "tables_ok db \<Longrightarrow> tables_ok (forget_dead X i db)"
  by (cases "dead db i") (simp_all add: forget_dead_def forget_previous_dead_def)

lemma lineage_forget_dead:
  assumes "segment_encoding b64" and "lineage_exact b64 lv dd t" and "\<And>d. dd i = Some d \<Longrightarrow> dr_delivery_id d = i"
  shows "lineage_exact b64 lv (dd(i := None))
    (case dd i of None \<Rightarrow> t | Some d \<Rightarrow> remove_dead_lineage_index b64 d t)"
proof (cases "dd i")
  case None
  then have "dd(i := None) = dd" by (simp add: fun_upd_idem)
  with None assms(2) show ?thesis by simp
next
  case (Some d)
  with lineage_drop_dead [OF assms(1,2) Some] assms(3) show ?thesis by simp
qed

section \<open>Suppression\<close>

lemma suppress_terminal_deliveryE:
  assumes "suppress_terminal_delivery i db = Inr db'" and "probe_inv (terminal_suppression_by_slot db)"
  obtains t where "db' = db\<lparr>terminal_suppression_by_slot := t\<rparr>" "probe_inv t"
    "suppressed_ids t = insert i (suppressed_ids (terminal_suppression_by_slot db))"
  using assms suppress_terminal_delivery_in_table_ok
  by (auto simp: suppress_terminal_delivery_def)

abbreviation suppressed :: "store_db \<Rightarrow> string set" where
  "suppressed db \<equiv> suppressed_ids (terminal_suppression_by_slot db)"

lemma store_inv_suppressed:
  "store_inv b64 db \<Longrightarrow> dead db i = Some d \<Longrightarrow> needs_suppression d \<Longrightarrow> i \<in> suppressed db"
  by (auto dest!: store_invD(4) simp: suppression_ok_def)

lemma is_suppressed_iff:
  "store_inv b64 db \<Longrightarrow> terminal_delivery_is_suppressed db i \<longleftrightarrow> i \<in> suppressed db"
  by (simp add: terminal_delivery_is_suppressed_def suppressed_iff store_invD(5))

section \<open>Compaction\<close>

definition live_side_same :: "store_db \<Rightarrow> store_db \<Rightarrow> bool" where
  "live_side_same db db' \<longleftrightarrow> delivery_by_id db' = delivery_by_id db \<and>
     ready_by_dept_due db' = ready_by_dept_due db \<and> leased_by_dept_until db' = leased_by_dept_until db"

text \<open>The change that compaction may make: terminal dead records up to a time disappear.\<close>

definition compacted_to :: "u64 option \<Rightarrow> store_db \<Rightarrow> store_db \<Rightarrow> bool" where
  "compacted_to cutoff db db' \<longleftrightarrow> live_side_same db db' \<and> suppressed db' = suppressed db \<and>
     (\<forall>j. dead db' j = dead db j \<or> dead db' j = None \<and>
        (\<exists>d c. dead db j = Some d \<and> is_terminal_dead_record d \<and> cutoff = Some c \<and> dead_at_ms d \<le> c))"

lemma compacted_to_refl [simp]: "compacted_to cutoff db db"
  by (simp add: compacted_to_def live_side_same_def)

lemma compacted_to_trans:
  assumes "compacted_to cutoff a b" and "compacted_to cutoff b c"
  shows "compacted_to cutoff a c"
  using assms unfolding compacted_to_def live_side_same_def by (smt (verit) option.distinct(1))

definition terminal_key_current :: "store_db \<Rightarrow> due_index_key \<Rightarrow> bool" where
  "terminal_key_current db p \<longleftrightarrow>
     (\<forall>d. dead db (ikey_id p) = Some d \<longrightarrow> is_terminal_dead_record d \<longrightarrow> dead_at_ms d = due_ms p \<longrightarrow>
        ikey_text p = make_dead_due_index_key (dr_dept d) (dead_at_ms d) (ikey_id p))"

lemma terminal_key_current_compacted:
  "compacted_to cutoff db db' \<Longrightarrow> terminal_key_current db p \<Longrightarrow> terminal_key_current db' p"
  unfolding compacted_to_def terminal_key_current_def by (metis option.distinct(1))

text \<open>Nothing the database shows has changed.\<close>

lemma store_inv_same_dead_gets:
  assumes inv: "store_inv b64 db" and "tables_ok db'" and "live_side_same db db'"
    and "dead_by_id db' = dead_by_id db" "lineage_by_source db' = lineage_by_source db"
    and "t_get (dead_by_time db') = t_get (dead_by_time db)"
    and "t_get (dead_by_dept_due db') = t_get (dead_by_dept_due db)"
    and "t_get (terminal_dead_by_time db') = t_get (terminal_dead_by_time db)"
    and "suppression_grows db db'"
  shows "store_inv b64 db'"
  using assms unfolding store_inv_def rows_ok_def indexes_ok_def suppression_ok_def live_side_same_def
    suppression_grows_def by auto

text \<open>A stale key whose record is gone.\<close>

lemma compact_missing_inv:
  assumes inv: "store_inv b64 db" and wf: "dead_key_wf p" and none: "dead db (ikey_id p) = None"
    and db': "db' = dtime_rem (make_dead_time_index_key (due_ms p) (ikey_id p)) (terminal_rem (ikey_text p) db)"
  shows "store_inv b64 db' \<and> compacted_to cutoff db db'"
proof -
  obtain dp where dp: "ikey_text p = make_dead_due_index_key dp (due_ms p) (ikey_id p)"
    using wf by (auto simp: dead_key_wf_def)
  have "(t_get (dead_by_time db))(make_dead_time_index_key (due_ms p) (ikey_id p) := None) = t_get (dead_by_time db)"
    using store_invD(8) [OF inv] none by (intro dead_time_drop_foreign) auto
  moreover have "(t_get (terminal_dead_by_time db))(ikey_text p := None) = t_get (terminal_dead_by_time db)"
    unfolding dp using store_invD(10) [OF inv] none by (intro terminal_drop_foreign) auto
  ultimately show ?thesis
    using store_inv_same_dead_gets [OF inv, of db'] suppression_grows_refl [OF inv, of db'] store_invD(1) [OF inv]
    by (simp add: db' table_updates live_side_same_def tables_ok_def compacted_to_def)
qed

text \<open>A key that is not the current one of its record is replaced by the current one, which is there
  already.\<close>

lemma compact_refresh_inv:
  assumes inv: "store_inv b64 db" and wf: "dead_key_wf p" and d: "dead db (ikey_id p) = Some d"
    and other: "dead_at_ms d \<noteq> due_ms p \<or> \<not> is_terminal_dead_record d"
    and db': "db' = dtime_ins (make_dead_time_index_key (dead_at_ms d) (ikey_id p))
      (dtime_rem (make_dead_time_index_key (due_ms p) (ikey_id p)) (terminal_rem (ikey_text p) db))"
  shows "store_inv b64 db' \<and> compacted_to cutoff db db'"
proof -
  let ?i = "ikey_id p" and ?dt = "t_get (dead_by_time db)"
  obtain dp where dp: "ikey_text p = make_dead_due_index_key dp (due_ms p) ?i"
    using wf by (auto simp: dead_key_wf_def)
  have own: "?dt(make_dead_time_index_key (dead_at_ms d) ?i \<mapsto> ()) = ?dt"
    using dtm.add_owned [OF store_invD(8) [OF inv] d] by (simp add: dead_time_entry_def)
  have "?dt(make_dead_time_index_key (due_ms p) ?i := None) = ?dt" if "dead_at_ms d \<noteq> due_ms p"
    using store_invD(8) [OF inv] d that by (intro dead_time_drop_foreign) auto
  with own have "t_get (dead_by_time db') = ?dt"
    by (cases "dead_at_ms d = due_ms p") (simp_all add: db' table_updates)
  moreover have "(t_get (terminal_dead_by_time db))(ikey_text p := None) = t_get (terminal_dead_by_time db)"
    unfolding dp using store_invD(10) [OF inv] d other by (intro terminal_drop_foreign) auto
  ultimately show ?thesis
    using store_inv_same_dead_gets [OF inv, of db'] suppression_grows_refl [OF inv, of db'] store_invD(1) [OF inv]
    by (simp add: db' table_updates live_side_same_def tables_ok_def compacted_to_def)
qed

lemma compact_relist_inv:
  assumes inv: "store_inv b64 db" and d: "dead db i = Some d" and tmn: "is_terminal_dead_record d"
    and run: "(let db2 = terminal_ins (make_dead_due_index_key (dr_dept d) (dead_at_ms d) i) db
               in if \<not> allows_keyed_reuse d then suppress_terminal_delivery i db2 else Inr db2) = Inr db'"
  shows "store_inv b64 db' \<and> compacted_to cutoff db db'"
proof -
  define db2 where "db2 = terminal_ins (make_dead_due_index_key (dr_dept d) (dead_at_ms d) i) db"
  have "t_get (terminal_dead_by_time db2) = t_get (terminal_dead_by_time db)"
    using trm.add_owned [OF store_invD(10) [OF inv] d] tmn by (simp add: db2_def table_updates terminal_entry_def)
  then have inv2: "store_inv b64 db2" and same2: "compacted_to cutoff db db2"
    using store_inv_same_dead_gets [OF inv, of db2] suppression_grows_refl [OF inv, of db2] store_invD(1) [OF inv]
    by (simp_all add: db2_def table_updates live_side_same_def tables_ok_def compacted_to_def)
  have d2: "dead db2 i = Some d" using d by (simp add: db2_def table_updates)
  show ?thesis
  proof (cases "allows_keyed_reuse d")
    case True
    with run inv2 same2 show ?thesis by (simp add: db2_def [symmetric])
  next
    case False
    with run have "suppress_terminal_delivery i db2 = Inr db'" by (simp add: db2_def [symmetric])
    then obtain t where t: "db' = db2\<lparr>terminal_suppression_by_slot := t\<rparr>"
        "probe_inv t" "suppressed_ids t = insert i (suppressed db2)"
      using store_invD(5) [OF inv2] by (rule suppress_terminal_deliveryE)
    have "i \<in> suppressed db2"
      using store_inv_suppressed [OF inv2 d2] tmn False by (simp add: needs_suppression_def)
    with t have "suppressed db' = suppressed db2" by auto
    then have "store_inv b64 db'" and "compacted_to cutoff db2 db'"
      using store_inv_same_dead_gets [OF inv2, of db'] store_invD(1) [OF inv2] t
      by (auto simp: live_side_same_def tables_ok_def compacted_to_def suppression_grows_def)
    with same2 show ?thesis by (blast intro: compacted_to_trans)
  qed
qed

text \<open>A terminal dead record past its retention is removed with all its entries.\<close>

lemma compact_remove_inv:
  assumes seg: "segment_encoding b64" and inv: "store_inv b64 db"
    and d: "dead db i = Some d" and tmn: "is_terminal_dead_record d" and old: "dead_at_ms d \<le> c"
    and key: "k = make_dead_due_index_key (dr_dept d) (dead_at_ms d) i"
    and db': "db' = ddue_rem (make_dead_due_index_key (dr_dept d) (dead_at_ms d) i)
       (terminal_rem k (dtime_rem (make_dead_time_index_key (dead_at_ms d) i)
         (del_dead i (lineage_upd (remove_dead_lineage_index b64 d) db))))"
  shows "store_inv b64 db' \<and> compacted_to (Some c) db db'"
proof
  have ids: "dead_ids_ok i d" using inv d by (rule store_inv_dead_id)
  have due: "(t_get (dead_by_dept_due db))(make_dead_due_index_key (dr_dept d) (dead_at_ms d) i := None)
      = t_get (dead_by_dept_due db)"
    using store_invD(9) [OF inv] d tmn terminal_and_indexed by (intro dead_due_drop_foreign) auto
  show "store_inv b64 db'"
  proof (rule store_inv_change [OF inv, where i = i and nl = "live db i" and nd = None])
    have "lineage_exact b64 (live db) ((dead db)(i := None)) (lineage_by_source db')"
      using lineage_drop_dead [OF seg store_invD(11) [OF inv] d] ids
      by (simp add: db' table_updates dead_ids_ok_def)
    then show "rows_change b64 i (live db i) None db db'"
      using tmn d due terminal_and_indexed [of d]
      by (simp add: rows_change_def db' index_step key)
    show "tables_ok db'" using store_invD(1) [OF inv] by (simp add: db')
    show "suppression_grows db db'"
      using suppression_grows_refl [OF inv, of db'] by (simp add: db' table_updates)
    show "live_ids_ok i r" if "live db i = Some r" for r
      using store_inv_live_id [OF inv that] by (simp add: live_ids_ok_def)
  qed auto
  show "compacted_to (Some c) db db'"
    using d tmn old by (auto simp: db' compacted_to_def live_side_same_def table_updates)
qed

lemma compact_key_inv:
  assumes seg: "segment_encoding b64" and inv: "store_inv b64 db"
    and wf: "dead_key_wf p" and cur: "terminal_key_current db p"
    and run: "compact_key b64 cutoff p (db, n) = Inr ((db', n'), go)"
  shows "store_inv b64 db' \<and> compacted_to cutoff db db'"
proof (cases "dead db (ikey_id p)")
  case None
  with run compact_missing_inv [OF inv wf None] show ?thesis by (simp add: compact_key_def)
next
  case (Some d)
  let ?i = "ikey_id p"
  define db1 where "db1 = dtime_ins (make_dead_time_index_key (dead_at_ms d) ?i)
      (dtime_rem (make_dead_time_index_key (due_ms p) ?i) (terminal_rem (ikey_text p) db))"
  consider (stale) "dead_at_ms d \<noteq> due_ms p \<or> \<not> is_terminal_dead_record d" "\<not> is_terminal_dead_record d" "db' = db1"
    | (relist) "dead_at_ms d \<noteq> due_ms p \<or> \<not> is_terminal_dead_record d" "is_terminal_dead_record d"
      "(let db2 = terminal_ins (make_dead_due_index_key (dr_dept d) (dead_at_ms d) ?i) db1
        in if \<not> allows_keyed_reuse d then suppress_terminal_delivery ?i db2 else Inr db2) = Inr db'"
    | (stop) "db' = db"
    | (remove) c where "cutoff = Some c" "dead_at_ms d \<le> c" "dead_at_ms d = due_ms p" "is_terminal_dead_record d"
      "db' = ddue_rem (make_dead_due_index_key (dr_dept d) (dead_at_ms d) ?i)
         (terminal_rem (ikey_text p) (dtime_rem (make_dead_time_index_key (dead_at_ms d) ?i)
           (del_dead ?i (lineage_upd (remove_dead_lineage_index b64 d) db))))"
    using run Some
    by (auto simp: compact_key_def db1_def [symmetric] Let_def not_less split: option.splits if_splits)
  then show ?thesis
  proof cases
    case stale
    with compact_refresh_inv [OF inv wf Some stale(1) db1_def] show ?thesis by simp
  next
    case relist
    have 1: "store_inv b64 db1" "compacted_to cutoff db db1"
      using compact_refresh_inv [OF inv wf Some relist(1) db1_def] by auto
    have "dead db1 ?i = Some d" using Some by (simp add: db1_def table_updates)
    from compact_relist_inv [OF 1(1) this relist(2,3)] 1(2) show ?thesis
      by (blast intro: compacted_to_trans)
  next
    case stop
    with inv show ?thesis by simp
  next
    case (remove c)
    then have "ikey_text p = make_dead_due_index_key (dr_dept d) (dead_at_ms d) ?i"
      using cur Some by (simp add: terminal_key_current_def)
    from compact_remove_inv [OF seg inv Some remove(4,2) this remove(5)] remove(1) show ?thesis by simp
  qed
qed

lemma compact_loop_inv:
  assumes seg: "segment_encoding b64" and "store_inv b64 db"
    and "compact_loop b64 cutoff (db, n) keys = Inr (db', n')"
    and "\<And>p. p \<in> set keys \<Longrightarrow> dead_key_wf p \<and> terminal_key_current db p"
  shows "store_inv b64 db' \<and> compacted_to cutoff db db'"
  using assms(2-)
proof (induction keys arbitrary: db n)
  case Nil
  then show ?case by simp
next
  case (Cons p keys)
  from Cons.prems(2) obtain db1 n1 go where step: "compact_key b64 cutoff p (db, n) = Inr ((db1, n1), go)"
    and rest: "if go then compact_loop b64 cutoff (db1, n1) keys = Inr (db', n') else (db1, n1) = (db', n')"
    by (auto split: if_splits)
  have 1: "store_inv b64 db1" "compacted_to cutoff db db1"
    using compact_key_inv [OF seg Cons.prems(1) _ _ step] Cons.prems(3) by auto
  show ?case
  proof (cases go)
    case False
    with rest 1 show ?thesis by simp
  next
    case True
    with rest 1 Cons.IH [OF 1(1)] Cons.prems(3) have "store_inv b64 db' \<and> compacted_to cutoff db1 db'"
      by (simp add: terminal_key_current_compacted)
    with 1 show ?thesis by (blast intro: compacted_to_trans)
  qed
qed

lemma terminal_table_keys:
  assumes "store_inv b64 db"
  shows "k \<in> fst ` set (t_iter (terminal_dead_by_time db)) \<longleftrightarrow>
    (\<exists>i d. dead db i = Some d \<and> is_terminal_dead_record d \<and>
      k = make_dead_due_index_key (dr_dept d) (dead_at_ms d) i)"
proof -
  have "k \<in> fst ` set (t_iter (terminal_dead_by_time db)) \<longleftrightarrow> t_get (terminal_dead_by_time db) k = Some ()"
    using store_invD(1) [OF assms] tab.entries_get [of "terminal_dead_by_time db"]
    by (force simp: tables_ok_def image_iff)
  also have "\<dots> \<longleftrightarrow> (\<exists>i. Option.bind (dead db i) (terminal_entry i) = Some (k, ()))"
    using store_invD(10) [OF assms] by (simp add: index_exact_def)
  finally show ?thesis
    by (auto simp: bind_eq_Some_conv terminal_entry_def split: if_splits)
qed

text \<open>The keys compaction works on: those of the terminal records up to the cutoff, oldest first, up
  to the limit.\<close>

lemma collect_compactable_eq:
  assumes inv: "store_inv b64 db"
  shows "collect_compactable_terminal_dead_keys db cutoff =
    Inr (take TERMINAL_DEAD_COMPACTION_LIMIT
      (filter (\<lambda>p. due_ms p \<le> cutoff) (map parsed_dead_key (map fst (t_iter (terminal_dead_by_time db))))))"
proof -
  let ?t = "terminal_dead_by_time db"
  let ?lo = "fmt20 0 @ ''/''" and ?hi = "fmt20 cutoff @ ''/'' @ max_scalar"
  have key: "\<exists>d m i. k = make_dead_due_index_key d m i" if "k \<in> fst ` set (t_iter ?t)" for k
    using that terminal_table_keys [OF inv] by blast
  have "?lo \<le> k \<and> k \<le> ?hi \<longleftrightarrow> due_ms (parsed_dead_key k) \<le> cutoff" if in_t: "k \<in> fst ` set (t_iter ?t)" for k
  proof -
    obtain d m i where k: "k = make_dead_due_index_key d m i" using key [OF in_t] by blast
    show ?thesis unfolding k dead_due_range_iff by simp
  qed
  then have "map fst (t_range ?lo ?hi ?t) =
      filter (\<lambda>k. due_ms (parsed_dead_key k) \<le> cutoff) (map fst (t_iter ?t))"
    unfolding t_range_def filter_map_fst by (intro arg_cong [of _ _ "map fst"] filter_cong) force+
  moreover have "collect_parsed parse_dead_due_index_key TERMINAL_DEAD_COMPACTION_LIMIT [] (map fst (t_range ?lo ?hi ?t))
      = Inr (take TERMINAL_DEAD_COMPACTION_LIMIT ([] @ map parsed_dead_key (map fst (t_range ?lo ?hi ?t))))"
  proof (rule collect_parsed_take)
    show "parse_dead_due_index_key k = Inr (parsed_dead_key k)"
      if "k \<in> set (map fst (t_range ?lo ?hi ?t))" for k
    proof -
      from that have "k \<in> fst ` set (t_iter ?t)" by (auto simp: t_range_def)
      then obtain d m i where "k = make_dead_due_index_key d m i" using key by blast
      then show ?thesis by simp
    qed
  qed (simp add: TERMINAL_DEAD_COMPACTION_LIMIT_def)
  ultimately show ?thesis
    unfolding collect_compactable_terminal_dead_keys_def by (simp add: filter_map comp_def del: map_map)
qed

definition retention_cutoff :: "u64 \<Rightarrow> u64 option" where
  "retention_cutoff now_ms =
     (if TERMINAL_DEAD_RETENTION_MS \<le> now_ms then Some (now_ms - TERMINAL_DEAD_RETENTION_MS) else None)"

lemma compact_inv:
  assumes seg: "segment_encoding b64" and inv: "store_inv b64 db"
    and run: "compact_terminal_dead_records b64 now_ms db = Inr (db', n)"
  shows "store_inv b64 db'" and "compacted_to (retention_cutoff now_ms) db db'"
proof -
  have "store_inv b64 db' \<and> compacted_to (retention_cutoff now_ms) db db'"
  proof (cases "retention_cutoff now_ms")
    case None
    with run inv show ?thesis
      by (simp add: compact_terminal_dead_records_def retention_cutoff_def [symmetric] Let_def)
  next
    case (Some c)
    define ks where "ks = take TERMINAL_DEAD_COMPACTION_LIMIT (filter (\<lambda>p. due_ms p \<le> c)
      (map parsed_dead_key (map fst (t_iter (terminal_dead_by_time db)))))"
    have ks: "collect_compactable_terminal_dead_keys db c = Inr ks"
      by (simp only: collect_compactable_eq [OF inv] ks_def)
    have sub: "set ks \<subseteq> parsed_dead_key ` fst ` set (t_iter (terminal_dead_by_time db))"
      by (force simp: ks_def dest!: in_set_takeD)
    have "dead_key_wf p \<and> terminal_key_current db p" if in_ks: "p \<in> set ks" for p
    proof -
      obtain k where "k \<in> fst ` set (t_iter (terminal_dead_by_time db))" "p = parsed_dead_key k"
        using sub in_ks by blast
      then obtain i d where "dead db i = Some d"
          "p = parsed_dead_key (make_dead_due_index_key (dr_dept d) (dead_at_ms d) i)"
        unfolding terminal_table_keys [OF inv] by blast
      then show ?thesis by (auto simp: dead_key_wf_def terminal_key_current_def)
    qed
    with run ks Some inv compact_loop_inv [OF seg inv] show ?thesis
      by (fastforce simp: compact_terminal_dead_records_def retention_cutoff_def [symmetric] Let_def
          split: if_splits)
  qed
  then show "store_inv b64 db'" and "compacted_to (retention_cutoff now_ms) db db'" by auto
qed

section \<open>Accepting a delivery\<close>

lemma enqueue_cases:
  assumes "enqueue X r db = Inr (db', oc)"
  obtains (collapse) c where "live db (delivery_id r) = Some c" "collapse_by_dedup_id c \<or> collapse_by_dedup_id r"
      "db' = enqueue_collapse c r db" "oc = Accepted"
    | (duplicate) c where "live db (delivery_id r) = Some c" "\<not> (collapse_by_dedup_id c \<or> collapse_by_dedup_id r)"
      "same_delivery_content c r" "db' = db" "oc = Accepted"
    | (suppressed) n where "live db (delivery_id r) = None"
      "compact_terminal_dead_records (ext_b64 X) (observed_at_ms r) db = Inr (db', n)"
      "terminal_delivery_is_suppressed db' (delivery_id r)" "oc = TerminallySuppressed"
    | (fresh) db1 n where "live db (delivery_id r) = None"
      "compact_terminal_dead_records (ext_b64 X) (observed_at_ms r) db = Inr (db1, n)"
      "\<not> terminal_delivery_is_suppressed db1 (delivery_id r)" "oc = Accepted"
      "db' = ready_ins (make_index_key (dept r) (not_before_ms r) (delivery_id r))
               (lineage_upd (insert_delivery_lineage_index (ext_b64 X) r) (put_delivery (delivery_id r) r db1))"
proof -
  from assms obtain found where found: "read_delivery_table (delivery_by_id db) (delivery_id r) = Inr found"
    by (auto simp: enqueue_def)
  note lv = read_delivery_table_decoded [OF found]
  show ?thesis
  proof (cases found)
    case (Some c)
    with assms found lv show ?thesis
      by (auto simp: enqueue_def intro: collapse duplicate split: if_splits)
  next
    case None
    with assms found obtain db1 n
      where "compact_terminal_dead_records (ext_b64 X) (observed_at_ms r) db = Inr (db1, n)"
      by (auto simp: enqueue_def)
    with None assms found lv show ?thesis
      by (auto simp: enqueue_def intro: suppressed fresh split: if_splits)
  qed
qed

text \<open>The records a publisher enqueues.\<close>

definition fresh_record :: "delivery_record \<Rightarrow> bool" where
  "fresh_record r \<longleftrightarrow> id_ok (delivery_id r) \<and> lease_until_ms r = None"

lemma insert_fresh_inv:
  assumes seg: "segment_encoding b64" and inv: "store_inv b64 db" and new: "live db i = None"
    and r: "delivery_id r = i" "id_ok i" "lease_until_ms r = None"
    and db': "db' = ready_ins (make_index_key (dept r) (not_before_ms r) i)
      (lineage_upd (insert_delivery_lineage_index b64 r) (put_delivery i r db))"
  shows "store_inv b64 db'"
proof (rule live_change [OF inv, where i = i and nl = "Some r"])
  show "tables_ok db'" using store_invD(1) [OF inv] by (simp add: db')
  show "lineage_exact b64 ((live db)(i \<mapsto> r)) (dead db) (lineage_by_source db')"
    using lineage_add_live [OF seg store_invD(11) [OF inv] new r(1)] by (simp add: db' table_updates)
qed (use new r in \<open>auto simp: db' index_step live_ids_ok_def\<close>)

lemma enqueue_inv:
  assumes seg: "segment_encoding (ext_b64 X)" and inv: "store_inv (ext_b64 X) db" and fr: "fresh_record r"
    and run: "enqueue X r db = Inr (db', oc)"
  shows "store_inv (ext_b64 X) db'"
  using run
proof (cases rule: enqueue_cases)
  case (collapse c)
  with enqueue_collapse_inv [OF seg inv] show ?thesis by simp
next
  case (duplicate c)
  with inv show ?thesis by simp
next
  case (suppressed n)
  with compact_inv [OF seg inv] show ?thesis by blast
next
  case (fresh db1 n)
  have inv1: "store_inv (ext_b64 X) db1" and "compacted_to (retention_cutoff (observed_at_ms r)) db db1"
    using compact_inv [OF seg inv fresh(2)] by auto
  then have "live db1 (delivery_id r) = None"
    using fresh(1) by (simp add: compacted_to_def live_side_same_def)
  then show ?thesis
    using fr fresh(5) by (intro insert_fresh_inv [OF seg inv1]) (auto simp: fresh_record_def)
qed

end
