(* ===== verification/Store_Dead.thy ===== *)
theory Store_Dead
  imports Store_Compaction
begin

text \<open>
  The operations that move deliveries between the live and the dead side: the subscriber-absence
  sweep, retrying, and redriving. Each keeps the invariant of the database; the case rules say what
  became of the delivery.
\<close>

section \<open>Burying a delivery\<close>

text \<open>What the sweep and an exhausted retry share: the dead record of an identity is replaced and the
  lineage entry of the live row goes.\<close>

lemma dead_indexes_ok_inv: "store_inv b64 db \<Longrightarrow> dead_indexes_ok db"
  by (simp add: dead_indexes_ok_def store_invD)

lemma lineage_bury:
  assumes seg: "segment_encoding b64" and inv: "store_inv b64 db" and r: "live db i = Some r"
    and d: "dr_delivery_id d = i"
  shows "lineage_exact b64 ((live db)(i := None)) ((dead db)(i \<mapsto> d))
      (insert_dead_lineage_index b64 d
        (case dead db i of None \<Rightarrow> remove_delivery_lineage_index b64 r (lineage_by_source db)
         | Some p \<Rightarrow> remove_dead_lineage_index b64 p (remove_delivery_lineage_index b64 r (lineage_by_source db))))"
    and "lineage_exact b64 ((live db)(i := None)) ((dead db)(i \<mapsto> d))
      (insert_dead_lineage_index b64 d (remove_delivery_lineage_index b64 r
        (case dead db i of None \<Rightarrow> lineage_by_source db
         | Some p \<Rightarrow> remove_dead_lineage_index b64 p (lineage_by_source db))))"
proof -
  have id: "delivery_id r = i" using inv r store_inv_live_id by blast
  have dids: "\<And>p. dead db i = Some p \<Longrightarrow> dr_delivery_id p = i"
    using store_inv_dead_id [OF inv] by (simp add: dead_ids_ok_def)
  note ex = store_invD(11) [OF inv]
  have "lineage_exact b64 ((live db)(i := None)) ((dead db)(i := None))
      (case dead db i of None \<Rightarrow> remove_delivery_lineage_index b64 r (lineage_by_source db)
       | Some p \<Rightarrow> remove_dead_lineage_index b64 p (remove_delivery_lineage_index b64 r (lineage_by_source db)))"
    using lineage_forget_dead [OF seg lineage_drop_live [OF seg ex r id] dids] by simp
  from lineage_add_dead [OF seg this _ d]
  show "lineage_exact b64 ((live db)(i := None)) ((dead db)(i \<mapsto> d))
      (insert_dead_lineage_index b64 d
        (case dead db i of None \<Rightarrow> remove_delivery_lineage_index b64 r (lineage_by_source db)
         | Some p \<Rightarrow> remove_dead_lineage_index b64 p (remove_delivery_lineage_index b64 r (lineage_by_source db))))"
    by (simp del: lineage_rows_dead lineage_rows_live)
  have "lineage_exact b64 ((live db)(i := None)) ((dead db)(i := None)) (remove_delivery_lineage_index b64 r
      (case dead db i of None \<Rightarrow> lineage_by_source db
       | Some p \<Rightarrow> remove_dead_lineage_index b64 p (lineage_by_source db)))"
    using lineage_drop_live [OF seg lineage_forget_dead [OF seg ex dids] r id] .
  from lineage_add_dead [OF seg this _ d]
  show "lineage_exact b64 ((live db)(i := None)) ((dead db)(i \<mapsto> d))
      (insert_dead_lineage_index b64 d (remove_delivery_lineage_index b64 r
        (case dead db i of None \<Rightarrow> lineage_by_source db
         | Some p \<Rightarrow> remove_dead_lineage_index b64 p (lineage_by_source db))))"
    by (simp del: lineage_rows_dead lineage_rows_live)
qed

section \<open>The subscriber-absence sweep\<close>

definition unlist_live :: "string \<Rightarrow> delivery_record \<Rightarrow> store_db \<Rightarrow> store_db" where
  "unlist_live i r db = (case lease_until_ms r of
       Some u \<Rightarrow> leased_rem (make_index_key (dept r) u i) db
     | None \<Rightarrow> ready_rem (make_index_key (dept r) (not_before_ms r) i) db)"

lemma unlist_live_gets:
  "t_get (ready_by_dept_due (unlist_live i r db)) = drop_entry (ready_entry i r) (t_get (ready_by_dept_due db))"
  "t_get (leased_by_dept_until (unlist_live i r db)) = drop_entry (leased_entry i r) (t_get (leased_by_dept_until db))"
  "dead_side_same db (unlist_live i r db)" "delivery_by_id (unlist_live i r db) = delivery_by_id db"
  "lineage_by_source (unlist_live i r db) = lineage_by_source db"
  "tables_ok db \<Longrightarrow> tables_ok (unlist_live i r db)"
  by (cases "lease_until_ms r"; simp add: unlist_live_def entry_defs table_updates dead_side_same_def tables_ok_def)+

lemma sweep_dead_letter_eq:
  assumes "\<And>p. dead db i = Some p \<Longrightarrow> dr_delivery_id p = i" and d: "d = absent_dead_record (absent_record r now_ms) now_ms"
  shows "sweep_dead_letter X now_ms i r db =
    (del_delivery i (ddue_ins (make_dead_due_index_key (dept r) now_ms i)
       (dtime_ins (make_dead_time_index_key now_ms i)
         (lineage_upd (insert_dead_lineage_index (ext_b64 X) d) (put_dead i d
           (forget_dead X i (lineage_upd (remove_delivery_lineage_index (ext_b64 X) r) (unlist_live i r db))))))), d)"
proof -
  have same: "dead (lineage_upd (remove_delivery_lineage_index (ext_b64 X) r) (unlist_live i r db)) = dead db"
    using unlist_live_gets(3) [where i = i and r = r and db = db] by (simp add: lineage_upd_def dead_side_same_def)
  show ?thesis
    using assms(1) same
    by (cases "dead db i")
      (simp_all add: sweep_dead_letter_def unlist_live_def [symmetric] forget_dead_def d Let_def
        absent_dead_record_def absent_record_def)
qed

lemma sweep_dead_letter_rows:
  assumes "sweep_dead_letter X now_ms i r db = (db', d)" and "store_inv b64 db"
  shows "live db' = (live db)(i := None)" "dead db' = (dead db)(i \<mapsto> d)"
    "d = absent_dead_record (absent_record r now_ms) now_ms" "suppressed db' = suppressed db"
proof -
  have dids: "\<And>p. dead db i = Some p \<Longrightarrow> dr_delivery_id p = i"
    using store_inv_dead_id [OF assms(2)] by (simp add: dead_ids_ok_def)
  have eq: "(db', d) = (del_delivery i (ddue_ins (make_dead_due_index_key (dept r) now_ms i)
       (dtime_ins (make_dead_time_index_key now_ms i)
         (lineage_upd (insert_dead_lineage_index (ext_b64 X) d) (put_dead i d
           (forget_dead X i (lineage_upd (remove_delivery_lineage_index (ext_b64 X) r) (unlist_live i r db))))))),
     absent_dead_record (absent_record r now_ms) now_ms)"
    using assms(1) by (auto simp: sweep_dead_letter_eq [where i = i and db = db, OF dids refl])
  show "live db' = (live db)(i := None)" "dead db' = (dead db)(i \<mapsto> d)"
    "d = absent_dead_record (absent_record r now_ms) now_ms" "suppressed db' = suppressed db"
    using eq unlist_live_gets(3,4) [where i = i and r = r and db = db] by (auto simp: table_updates dead_side_same_def)
qed

lemma absent_fields [simp]:
  "dr_delivery_id (absent_dead_record r n) = delivery_id r" "dr_dept (absent_dead_record r n) = dept r"
  "dead_at_ms (absent_dead_record r n) = n" "replayable (absent_dead_record r n)"
  "\<not> permanent (absent_dead_record r n)" "dr_record (absent_dead_record r n) = Some r"
  "delivery_id (absent_record r n) = delivery_id r" "dept (absent_record r n) = dept r"
  "should_index_dead_record (absent_dead_record r n)" "\<not> is_terminal_dead_record (absent_dead_record r n)"
  by (simp_all add: absent_dead_record_def absent_record_def should_index_dead_record_def is_terminal_dead_record_def)

lemma sweep_dead_letter_inv:
  assumes seg: "segment_encoding (ext_b64 X)" and inv: "store_inv (ext_b64 X) db" and r: "live db i = Some r"
    and run: "sweep_dead_letter X now_ms i r db = (db', d)"
  shows "store_inv (ext_b64 X) db'"
proof (rule store_inv_change [OF inv, where i = i and nl = None and nd = "Some d"])
  have id: "delivery_id r = i" "id_ok i" using inv r store_inv_live_id by blast+
  have dids: "\<And>p. dead db i = Some p \<Longrightarrow> dr_delivery_id p = i"
    using store_inv_dead_id [OF inv] by (simp add: dead_ids_ok_def)
  note rows = sweep_dead_letter_rows [OF run inv]
  let ?db2 = "lineage_upd (remove_delivery_lineage_index (ext_b64 X) r) (unlist_live i r db)"
  have db': "db' = del_delivery i (ddue_ins (make_dead_due_index_key (dept r) now_ms i)
       (dtime_ins (make_dead_time_index_key now_ms i)
         (lineage_upd (insert_dead_lineage_index (ext_b64 X) d) (put_dead i d (forget_dead X i ?db2)))))"
    using run rows(3) by (simp add: sweep_dead_letter_eq [where i = i and db = db, OF dids refl])
  note un = unlist_live_gets [where i = i and r = r and db = db, unfolded dead_side_same_def]
  have "dead_indexes_ok ?db2"
    using dead_indexes_ok_inv [OF inv] un(1-5) by (simp add: dead_indexes_ok_def table_updates unlist_live_gets(3))
  note gets = forget_dead_gets [OF this, of X i]
  have "lineage_exact (ext_b64 X) ((live db)(i := None)) ((dead db)(i \<mapsto> d)) (lineage_by_source db')"
    using lineage_bury(1) [OF seg inv r, of d] id rows(3) un gets(4)
    by (simp add: db' table_updates cong: option.case_cong del: lineage_rows_dead lineage_rows_live)
  then show "rows_change (ext_b64 X) i None (Some d) db db'"
    using rows(3) r un gets(1-3)
    by (simp add: rows_change_def rows(1,2) reindexed_def reindex_def del: lineage_rows_dead lineage_rows_live)
      (simp add: db' table_updates dead_due_entry_def terminal_entry_def dead_time_entry_def rows(3))
  show "tables_ok db'" using store_invD(1) [OF inv] unlist_live_gets(6) [where i = i and r = r and db = db] by (simp add: db')
  show "suppression_grows db db'"
    using suppression_grows_refl [OF inv, of db'] un by (simp add: db' table_updates)
  show "dead_ids_ok i e" if "Some d = Some e" for e
    using that id rows(3) by (auto simp: dead_ids_ok_def)
  show "i \<in> suppressed db'" if "Some d = Some e" and "needs_suppression e" for e
    using that rows(3) by (auto simp: needs_suppression_def)
qed simp

lemma sweep_one_cases:
  assumes "sweep_one X queues now_ms budget_ms (db, sw) i = Inr (db', sw')"
  obtains (same) "db' = db" "sw' = sw"
    | (marked) r x where "live db i = Some r" "db' = put_delivery i (r\<lparr>subscriber_absent_since_ms := x\<rparr>) db"
      "dead_lettered sw' = dead_lettered sw" "x = None \<longleftrightarrow> queue r \<in> queues"
    | (buried) r since d where "live db i = Some r" "subscriber_absent_since_ms r = Some since"
      "queue r \<notin> queues" "subscriber_absence_budget_elapsed since budget_ms now_ms"
      "sweep_dead_letter X now_ms i r db = (db', d)" "dead_lettered sw' = dead_lettered sw @ [d]"
proof -
  from assms obtain found where found: "read_delivery_table (delivery_by_id db) i = Inr found"
    by (auto simp: sweep_one_def)
  note lv = read_delivery_table_decoded [OF found]
  show ?thesis
  proof (cases found)
    case None
    with assms found same show ?thesis by (auto simp: sweep_one_def)
  next
    case (Some r)
    show ?thesis
    proof (cases "subscriber_absent_since_ms r")
      case None
      with Some assms found lv same marked [of r "Some now_ms"] show ?thesis
        by (auto simp: sweep_one_def split: if_splits)
    next
      case since: (Some since)
      obtain db2 d where sd: "sweep_dead_letter X now_ms i r db = (db2, d)" by (cases "sweep_dead_letter X now_ms i r db")
      from Some since sd assms found lv same marked [of r None] buried [of r since d] show ?thesis
        by (auto simp: sweep_one_def split: if_splits)
    qed
  qed
qed

lemma sweep_one_inv:
  assumes seg: "segment_encoding (ext_b64 X)" and inv: "store_inv (ext_b64 X) db"
    and run: "sweep_one X queues now_ms budget_ms (db, sw) i = Inr (db', sw')"
  shows "store_inv (ext_b64 X) db'"
  using run
proof (cases rule: sweep_one_cases)
  case same
  with inv show ?thesis by simp
next
  case (marked r x)
  show ?thesis unfolding marked(2)
    by (rule lease_change_inv [OF seg inv marked(1), of "r\<lparr>subscriber_absent_since_ms := x\<rparr>"])
      (use store_invD(1) [OF inv] in \<open>auto simp: index_step tables_ok_def\<close>)
next
  case (buried r since d)
  with sweep_dead_letter_inv [OF seg inv] show ?thesis by blast
qed

lemma sweep_cases:
  assumes "sweep_subscriber_absence X queues now_ms budget limit db = Inr (db', sw)"
  obtains (same) "db' = db"
    | (swept) db1 n where
      "fold_result (sweep_one X queues now_ms (duration_millis budget)) (db, empty_sweep)
         (collect_subscriber_absence_candidates queues limit db) = Inr (db1, sw)"
      "compact_terminal_dead_records (ext_b64 X) now_ms db1 = Inr (db', n)"
  using assms by (auto simp: sweep_subscriber_absence_def Let_def split: if_splits)

lemma sweep_inv:
  assumes seg: "segment_encoding (ext_b64 X)" and inv: "store_inv (ext_b64 X) db"
    and run: "sweep_subscriber_absence X queues now_ms budget limit db = Inr (db', sw)"
  shows "store_inv (ext_b64 X) db'"
  using run
proof (cases rule: sweep_cases)
  case same
  with inv show ?thesis by simp
next
  case (swept db1 n)
  have "store_inv (ext_b64 X) (fst (db1, sw))"
    using swept(1) by (rule fold_result_inv [where P = "\<lambda>st. store_inv (ext_b64 X) (fst st)"])
      (use inv sweep_one_inv [OF seg] in auto)
  with compact_inv(1) [OF seg _ swept(2)] show ?thesis by simp
qed

section \<open>Retrying\<close>

text \<open>The record \<open>retry\<close> works on.\<close>

definition failed_record :: "retry_failure \<Rightarrow> delivery_record \<Rightarrow> delivery_record" where
  "failed_record failure r =
     r\<lparr>attempt := sat_add (attempt r) 1, last_error_excerpt := Some (error_excerpt (rf_message failure)),
       lease_until_ms := None\<rparr>"

lemma failed_record_fields [simp]:
  "delivery_id (failed_record f r) = delivery_id r" "dept (failed_record f r) = dept r"
  "queue (failed_record f r) = queue r" "source (failed_record f r) = source r"
  "not_before_ms (failed_record f r) = not_before_ms r" "lease_until_ms (failed_record f r) = None"
  "attempt (failed_record f r) = sat_add (attempt r) 1" "lease_generation (failed_record f r) = lease_generation r"
  "collapse_by_dedup_id (failed_record f r) = collapse_by_dedup_id r" "pending_dirty (failed_record f r) = pending_dirty r"
  by (simp_all add: failed_record_def)

lemma retry_dead_fields [simp]:
  "dr_delivery_id (retry_dead_record r f n) = delivery_id r" "dr_dept (retry_dead_record r f n) = dept r"
  "dead_at_ms (retry_dead_record r f n) = n" "replayable (retry_dead_record r f n) = rf_replayable f"
  "permanent (retry_dead_record r f n) = (\<not> rf_replayable f)"
  "dr_record (retry_dead_record r f n) = (if rf_replayable f then Some r else None)"
  "attempts (retry_dead_record r f n) = attempt r" "dr_redrive_count (retry_dead_record r f n) = redrive_count r"
  by (simp_all add: retry_dead_record_def)

text \<open>The tables after the dead record \<open>d\<close> of an exhausted delivery is written, before its due
  entry is.\<close>

definition bury :: "externs \<Rightarrow> string \<Rightarrow> dead_record \<Rightarrow> delivery_record \<Rightarrow> store_db \<Rightarrow> store_db" where
  "bury X i d r db =
     lineage_upd (insert_dead_lineage_index (ext_b64 X) d) (put_dead i d
       (lineage_upd (remove_delivery_lineage_index (ext_b64 X) r)
         (dtime_ins (make_dead_time_index_key (dead_at_ms d) i) (forget_dead X i db))))"

text \<open>The three ends of a delivery that has used up its attempts.\<close>

lemma retry_exhausted_cases:
  assumes "retry_exhausted X i failure now_ms r db = Inr (db', oc)"
    and key: "k = make_dead_due_index_key (dept r) now_ms i"
  obtains (replay) d where "rf_replayable failure" "oc = DeadPendingRedrive"
      "d = retry_dead_record r failure now_ms" "db' = del_delivery i (ddue_ins k (bury X i d r db))"
    | (follow_up) d r' where "\<not> rf_replayable failure" "oc = PermanentDead" "collapse_by_dedup_id r" "pending_dirty r"
      "d = (retry_dead_record r failure now_ms)\<lparr>allows_keyed_reuse := True\<rparr>"
      "r' = fst (prepare_dirty_follow_up r now_ms)"
      "db' = ready_ins (make_index_key (dept r') (not_before_ms r') i)
         (lineage_upd (insert_delivery_lineage_index (ext_b64 X) r')
           (put_delivery i r' (terminal_ins k (bury X i d r db))))"
    | (terminal) d db1 where "\<not> rf_replayable failure" "oc = PermanentDead"
      "\<not> (collapse_by_dedup_id r \<and> pending_dirty r)"
      "d = retry_dead_record r failure now_ms"
      "suppress_terminal_delivery i (terminal_ins k (bury X i d r db)) = Inr db1" "db' = del_delivery i db1"
proof -
  define d where "d = retry_dead_record r failure now_ms"
  have reuse: "d\<lparr>allows_keyed_reuse := False\<rparr> = d" by (simp add: d_def retry_dead_record_def)
  have bury_eq: "lineage_upd (insert_dead_lineage_index (ext_b64 X) e) (put_dead i e
      (lineage_upd (remove_delivery_lineage_index (ext_b64 X) r)
        (dtime_ins (make_dead_time_index_key now_ms i)
          (case dead db i of None \<Rightarrow> db | Some p \<Rightarrow> forget_previous_dead X p i db)))) = bury X i e r db"
    if "dead_at_ms e = now_ms" for e
    using that by (simp add: bury_def forget_dead_def)
  have b1: "dead_at_ms d = now_ms" "dr_dept d = dept r"
    and b2: "dead_at_ms (d\<lparr>allows_keyed_reuse := True\<rparr>) = now_ms"
    by (simp_all add: d_def)
  consider "rf_replayable failure" | "\<not> rf_replayable failure" "collapse_by_dedup_id r" "pending_dirty r"
    | "\<not> rf_replayable failure" "\<not> (collapse_by_dedup_id r \<and> pending_dirty r)" by auto
  then show ?thesis
  proof cases
    case 1
    with assms show ?thesis
      by (intro replay [of d])
        (auto simp: retry_exhausted_def Let_def d_def [symmetric] reuse bury_eq b1 key)
  next
    case 2
    then show ?thesis
      using assms
      by (intro follow_up [of "d\<lparr>allows_keyed_reuse := True\<rparr>" "fst (prepare_dirty_follow_up r now_ms)"])
        (auto simp: retry_exhausted_def Let_def d_def [symmetric] bury_eq b1 b2 key prepare_dirty_follow_up_def)
  next
    case 3
    then have "prepare_dirty_follow_up r now_ms = (r, False)"
      by (auto simp: prepare_dirty_follow_up_def)
    with 3 assms show ?thesis
      by (auto simp: retry_exhausted_def Let_def d_def [symmetric] reuse bury_eq b1 key intro: terminal [of d])
  qed
qed

text \<open>Writing the dead record, on a database whose leased row \<open>i\<close> is being settled.\<close>

lemma bury_tables:
  assumes inv: "store_inv (ext_b64 X) db" and d: "dead_at_ms d = now_ms"
    and db1: "db1 = leased_rem k db" and b: "b = bury X i d r db1"
  shows "delivery_by_id b = delivery_by_id db" "dead b = (dead db)(i \<mapsto> d)"
    "ready_by_dept_due b = ready_by_dept_due db" "t_get (leased_by_dept_until b) = (t_get (leased_by_dept_until db))(k := None)"
    "t_get (dead_by_time b) = add_entry (dead_time_entry i d)
       (drop_entry (Option.bind (dead db i) (dead_time_entry i)) (t_get (dead_by_time db)))"
    "t_get (dead_by_dept_due b) = drop_entry (Option.bind (dead db i) (dead_due_entry i)) (t_get (dead_by_dept_due db))"
    "t_get (terminal_dead_by_time b) =
       drop_entry (Option.bind (dead db i) (terminal_entry i)) (t_get (terminal_dead_by_time db))"
    "lineage_by_source b = insert_dead_lineage_index (ext_b64 X) d (remove_delivery_lineage_index (ext_b64 X) r
       (case dead db i of None \<Rightarrow> lineage_by_source db
        | Some p \<Rightarrow> remove_dead_lineage_index (ext_b64 X) p (lineage_by_source db)))"
    "terminal_suppression_by_slot b = terminal_suppression_by_slot db" "tables_ok b"
proof -
  have "dead_indexes_ok db1"
    using dead_indexes_ok_inv [OF inv] by (simp add: dead_indexes_ok_def db1 table_updates)
  note gets0 = forget_dead_gets [OF this, of X i]
  have same1: "dead_by_id db1 = dead_by_id db" "dead_by_time db1 = dead_by_time db"
    "dead_by_dept_due db1 = dead_by_dept_due db" "terminal_dead_by_time db1 = terminal_dead_by_time db"
    "lineage_by_source db1 = lineage_by_source db" "delivery_by_id db1 = delivery_by_id db"
    "ready_by_dept_due db1 = ready_by_dept_due db"
    "leased_by_dept_until db1 = t_remove k (leased_by_dept_until db)"
    "terminal_suppression_by_slot db1 = terminal_suppression_by_slot db"
    by (simp_all add: db1 table_updates)
  note gets = gets0 [unfolded same1]
  have tabs: "tables_ok db1" using store_invD(1) [OF inv] by (simp add: db1)
  show "tables_ok b" using tabs by (simp add: b bury_def)
  show "delivery_by_id b = delivery_by_id db" "dead b = (dead db)(i \<mapsto> d)"
    "ready_by_dept_due b = ready_by_dept_due db" "t_get (leased_by_dept_until b) = (t_get (leased_by_dept_until db))(k := None)"
    "t_get (dead_by_time b) = add_entry (dead_time_entry i d)
       (drop_entry (Option.bind (dead db i) (dead_time_entry i)) (t_get (dead_by_time db)))"
    "t_get (dead_by_dept_due b) = drop_entry (Option.bind (dead db i) (dead_due_entry i)) (t_get (dead_by_dept_due db))"
    "t_get (terminal_dead_by_time b) =
       drop_entry (Option.bind (dead db i) (terminal_entry i)) (t_get (terminal_dead_by_time db))"
    "lineage_by_source b = insert_dead_lineage_index (ext_b64 X) d (remove_delivery_lineage_index (ext_b64 X) r
       (case dead db i of None \<Rightarrow> lineage_by_source db
        | Some p \<Rightarrow> remove_dead_lineage_index (ext_b64 X) p (lineage_by_source db)))"
    "terminal_suppression_by_slot b = terminal_suppression_by_slot db"
    by (simp_all add: b bury_def table_updates dead_time_entry_def gets same1)
qed

lemma lineage_bury_follow_up:
  assumes "segment_encoding b64" and "lineage_exact b64 (lv(i := None)) dd t" and "delivery_id r = i"
  shows "lineage_exact b64 (lv(i \<mapsto> r)) dd (insert_delivery_lineage_index b64 r t)"
  using lineage_add_live [OF assms(1,2) _ assms(3)] by (simp del: lineage_rows_live)

lemma bury_inv:
  assumes seg: "segment_encoding (ext_b64 X)" and inv: "store_inv (ext_b64 X) db"
    and r0: "live db i = Some r0" "lease_until_ms r0 = Some u"
    and cong: "remove_delivery_lineage_index (ext_b64 X) r = remove_delivery_lineage_index (ext_b64 X) r0"
    and b: "b = bury X i d r (leased_rem (make_index_key (dept r0) u i) db)" and d: "dead_ids_ok i d"
    and nl: "\<And>r'. nl = Some r' \<Longrightarrow> delivery_id r' = i \<and> lease_until_ms r' = None"
    and rows: "live db' = (live db)(i := nl)" "dead_by_id db' = dead_by_id b"
    and rd: "t_get (ready_by_dept_due db') = add_entry (Option.bind nl (ready_entry i)) (t_get (ready_by_dept_due b))"
    and ls: "leased_by_dept_until db' = leased_by_dept_until b" and dt: "dead_by_time db' = dead_by_time b"
    and du: "t_get (dead_by_dept_due db') = add_entry (dead_due_entry i d) (t_get (dead_by_dept_due b))"
    and tm: "t_get (terminal_dead_by_time db') = add_entry (terminal_entry i d) (t_get (terminal_dead_by_time b))"
    and li: "lineage_by_source db' = (case nl of None \<Rightarrow> lineage_by_source b
        | Some r' \<Rightarrow> insert_delivery_lineage_index (ext_b64 X) r' (lineage_by_source b))"
    and tabs: "tables_ok b \<Longrightarrow> tables_ok db'" and sup: "suppression_grows db db'"
    and need: "needs_suppression d \<Longrightarrow> i \<in> suppressed db'"
  shows "store_inv (ext_b64 X) db'"
proof (rule store_inv_change [OF inv, where i = i and nl = nl and nd = "Some d"])
  note bt = bury_tables [OF inv refl refl b]
  have id: "delivery_id r0 = i" "id_ok i" using inv r0(1) store_inv_live_id by blast+
  have gone: "lineage_exact (ext_b64 X) ((live db)(i := None)) ((dead db)(i \<mapsto> d)) (lineage_by_source b)"
    using lineage_bury(2) [OF seg inv r0(1)] d by (simp add: bt(8) cong dead_ids_ok_def)
  have lin: "lineage_exact (ext_b64 X) ((live db)(i := nl)) ((dead db)(i \<mapsto> d)) (lineage_by_source db')"
  proof (cases nl)
    case None
    with gone li show ?thesis by simp
  next
    case (Some r')
    with lineage_bury_follow_up [OF seg gone] nl li show ?thesis
      by (simp del: lineage_rows_dead lineage_rows_live)
  qed
  have "reindexed ready_entry i (live db i) nl (t_get (ready_by_dept_due db)) (t_get (ready_by_dept_due db'))"
    "reindexed leased_entry i (live db i) nl (t_get (leased_by_dept_until db)) (t_get (leased_by_dept_until db'))"
    using rd ls bt(3,4) r0 nl
    by (cases nl; simp add: reindexed_def reindex_def ready_entry_def leased_entry_def)+
  with lin bt(2) rows show "rows_change (ext_b64 X) i nl (Some d) db db'"
    by (simp add: rows_change_def reindexed_def reindex_def dt du tm bt(5-7) del: lineage_rows_dead lineage_rows_live)
  show "tables_ok db'" using tabs bt(10) .
  show "live_ids_ok i e" if "nl = Some e" for e using nl [OF that] id by (simp add: live_ids_ok_def)
qed (use d sup need in auto)

lemma retry_exhausted_inv:
  assumes seg: "segment_encoding (ext_b64 X)" and inv: "store_inv (ext_b64 X) db"
    and r0: "live db i = Some r0" "lease_until_ms r0 = Some u" and r: "r = failed_record failure r0"
    and run: "retry_exhausted X i failure now_ms r (leased_rem (make_index_key (dept r0) u i) db) = Inr (db', oc)"
  shows "store_inv (ext_b64 X) db'"
proof -
  let ?k = "make_dead_due_index_key (dept r) now_ms i"
  have id: "delivery_id r = i" "id_ok i" "dept r = dept r0" using inv r0(1) r store_inv_live_id by fastforce+
  have cong: "remove_delivery_lineage_index (ext_b64 X) r = remove_delivery_lineage_index (ext_b64 X) r0"
    by (rule remove_delivery_lineage_cong) (simp_all add: r)
  note flags = is_terminal_dead_record_def should_index_dead_record_def terminal_entry_def dead_due_entry_def
  define b where "b e = bury X i e r (leased_rem (make_index_key (dept r0) u i) db)" for e
  note bt = bury_tables [OF inv refl refl b_def]
  note change = bury_inv [OF seg inv r0 cong b_def]
  show ?thesis
    using run refl [of ?k]
  proof (cases rule: retry_exhausted_cases)
    case (replay d)
    then have "db' = del_delivery i (ddue_ins ?k (b d))" by (simp add: b_def)
    moreover from this have "suppression_grows db db'"
      using suppression_grows_refl [OF inv, of db'] bt(9) by (simp add: table_updates)
    ultimately show ?thesis
      using replay id by (intro change [where d = d and nl = None])
        (auto simp: table_updates dead_ids_ok_def bt flags needs_suppression_def tables_ok_def)
  next
    case (follow_up d r')
    then have db': "db' = ready_ins (make_index_key (dept r') (not_before_ms r') i)
        (lineage_upd (insert_delivery_lineage_index (ext_b64 X) r') (put_delivery i r' (terminal_ins ?k (b d))))"
      by (simp add: b_def)
    then have "suppression_grows db db'"
      using suppression_grows_refl [OF inv, of db'] bt(9) by (simp add: table_updates)
    moreover have "delivery_id r' = i" "lease_until_ms r' = None"
      using follow_up id by (simp_all add: follow_up_fields)
    ultimately show ?thesis
      using follow_up(1,5) id by (intro change [where d = d and nl = "Some r'"])
        (auto simp: db' table_updates dead_ids_ok_def bt flags ready_entry_def needs_suppression_def tables_ok_def)
  next
    case (terminal d db1)
    obtain t where t: "db1 = (terminal_ins ?k (b d))\<lparr>terminal_suppression_by_slot := t\<rparr>" "probe_inv t"
        "suppressed_ids t = insert i (suppressed db)"
      using terminal(5) bt(9) store_invD(5) [OF inv]
      by (auto elim!: suppress_terminal_deliveryE simp: terminal_ins_def b_def)
    then have "suppression_grows db db'" and "i \<in> suppressed db'"
      using terminal(6) by (auto simp: suppression_grows_def del_delivery_def)
    then show ?thesis
      using terminal(1,4,6) t(1) id by (intro change [where d = d and nl = None])
        (auto simp: table_updates dead_ids_ok_def bt flags tables_ok_def)
  qed
qed

text \<open>The ways \<open>retry\<close> succeeds; all but one end with a compaction of \<open>db1\<close>.\<close>

lemma retry_cases:
  assumes "retry X i gen failure policy now_ms db = Inr (db', oc)"
  obtains (unleased) r where "live db i = Some r" "lease_until_ms r = None" "db' = db" "oc = Stale"
    | (missing) n where "live db i = None" "oc = Missing"
      "compact_terminal_dead_records (ext_b64 X) now_ms db = Inr (db', n)"
    | (stale) r u n where "live db i = Some r" "lease_until_ms r = Some u" "lease_generation r \<noteq> gen" "oc = Stale"
      "compact_terminal_dead_records (ext_b64 X) now_ms db = Inr (db', n)"
    | (exhausted) r u db1 n where "live db i = Some r" "lease_until_ms r = Some u" "lease_generation r = gen"
      "max_attempts policy \<le> sat_add (attempt r) 1"
      "retry_exhausted X i failure now_ms (failed_record failure r)
         (leased_rem (make_index_key (dept r) u i) db) = Inr (db1, oc)"
      "compact_terminal_dead_records (ext_b64 X) now_ms db1 = Inr (db', n)"
    | (rescheduled) r u due r' db1 n where "live db i = Some r" "lease_until_ms r = Some u" "lease_generation r = gen"
      "\<not> max_attempts policy \<le> sat_add (attempt r) 1" "oc = Scheduled"
      "delayed_due X i (sat_add (attempt r) 1) policy now_ms = Inr due"
      "r' = (failed_record failure r)\<lparr>not_before_ms := due\<rparr>"
      "db1 = ready_ins (make_index_key (dept r') (not_before_ms r') i)
         (lineage_upd (insert_delivery_lineage_index (ext_b64 X) r')
           (put_delivery i r' (lineage_upd (remove_delivery_lineage_index (ext_b64 X) r)
             (leased_rem (make_index_key (dept r) u i) db))))"
      "compact_terminal_dead_records (ext_b64 X) now_ms db1 = Inr (db', n)"
proof -
  from assms obtain found where found: "read_delivery_table (delivery_by_id db) i = Inr found"
    by (auto simp: retry_def)
  note lv = read_delivery_table_decoded [OF found]
  show ?thesis
  proof (cases found)
    case None
    with assms found lv missing show ?thesis by (auto simp: retry_def)
  next
    case (Some r)
    show ?thesis
    proof (cases "lease_until_ms r")
      case None
      with Some assms found lv show ?thesis by (intro unleased [of r]) (auto simp: retry_def Let_def)
    next
      case u: (Some u)
      define f where "f = failed_record failure r"
      have cong: "remove_delivery_lineage_index (ext_b64 X) f = remove_delivery_lineage_index (ext_b64 X) r"
        by (rule remove_delivery_lineage_cong) (simp_all add: f_def)
      let ?res = "if max_attempts policy \<le> sat_add (attempt r) 1
        then retry_exhausted X i failure now_ms f (leased_rem (make_index_key (dept r) u i) db)
        else retry_scheduled X i policy now_ms f (leased_rem (make_index_key (dept r) u i) db)"
      show ?thesis
      proof (cases "lease_generation r = gen")
        case False
        with Some u assms found lv show ?thesis by (auto simp: retry_def Let_def intro: stale [of r u])
      next
        case True
        have "retry X i gen failure policy now_ms db = rbind ?res (\<lambda>(db1, oc).
            rbind (compact_terminal_dead_records (ext_b64 X) now_ms db1) (\<lambda>(db2, n). Inr (db2, oc)))"
          using True Some u found by (simp add: retry_def Let_def f_def failed_record_def)
        with assms obtain db1 n where 1: "?res = Inr (db1, oc)"
          and 2: "compact_terminal_dead_records (ext_b64 X) now_ms db1 = Inr (db', n)"
          by (auto simp only: rbind_eq_Inr split_paired_Ex case_prod_conv sum.inject prod.inject)
        show ?thesis
        proof (cases "max_attempts policy \<le> sat_add (attempt r) 1")
          case max: True
          with 1 2 Some u True lv show ?thesis
            by (intro exhausted [of r u db1 n]) (auto simp: f_def)
        next
          case False
          with 1 have "retry_scheduled X i policy now_ms f (leased_rem (make_index_key (dept r) u i) db) = Inr (db1, oc)"
            by simp
          then obtain due where due: "delayed_due X i (sat_add (attempt r) 1) policy now_ms = Inr due"
            and "oc = Scheduled" and db1: "db1 = ready_ins (make_index_key (dept f) due i)
             (lineage_upd (insert_delivery_lineage_index (ext_b64 X) (f\<lparr>not_before_ms := due\<rparr>))
               (put_delivery i (f\<lparr>not_before_ms := due\<rparr>) (lineage_upd (remove_delivery_lineage_index (ext_b64 X) r)
                 (leased_rem (make_index_key (dept r) u i) db))))"
            by (auto simp: retry_scheduled_def Let_def cong) (auto simp: f_def)
          with 2 Some u True lv False show ?thesis
            by (intro rescheduled [of r u due "f\<lparr>not_before_ms := due\<rparr>" db1 n]) (auto simp: f_def)
        qed
      qed
    qed
  qed
qed

lemma retry_inv:
  assumes seg: "segment_encoding (ext_b64 X)" and inv: "store_inv (ext_b64 X) db"
    and run: "retry X i gen failure policy now_ms db = Inr (db', oc)"
  shows "store_inv (ext_b64 X) db'"
  using run
proof (cases rule: retry_cases)
  case (unleased r)
  with inv show ?thesis by simp
next
  case (missing n)
  with compact_inv [OF seg inv] show ?thesis by blast
next
  case (stale r u n)
  with compact_inv [OF seg inv] show ?thesis by blast
next
  case (exhausted r u db1 n)
  from retry_exhausted_inv [OF seg inv exhausted(1,2) refl exhausted(5)] exhausted(6) show ?thesis
    using compact_inv [OF seg] by blast
next
  case (rescheduled r u due r' db1 n)
  have "store_inv (ext_b64 X) db1"
    using rescheduled(7) by (intro release_lease_inv [OF seg inv rescheduled(1,2) _ _ _ rescheduled(8)]) simp_all
  with rescheduled(9) compact_inv [OF seg] show ?thesis by blast
qed

end
