(* ===== verification/Store_Redrive.thy ===== *)
theory Store_Redrive
  imports Store_Dead
begin

text \<open>
  Redriving dead letters: what processing one key of the dead-letter index can do, and that a redrive
  keeps the invariant of the database.
\<close>

section \<open>Stages of a redrive\<close>

lemma suppress_only_inv:
  assumes "store_inv b64 db" and "probe_inv t" and "suppressed db \<subseteq> suppressed_ids t"
  shows "store_inv b64 (db\<lparr>terminal_suppression_by_slot := t\<rparr>)"
  using assms
  by (auto simp: store_inv_def tables_ok_def rows_ok_def indexes_ok_def suppression_ok_def)

text \<open>A key of the dead-letter index that is up to date.\<close>

definition dead_due_key_current :: "store_db \<Rightarrow> due_index_key \<Rightarrow> bool" where
  "dead_due_key_current db p \<longleftrightarrow>
     (\<forall>d. dead db (ikey_id p) = Some d \<longrightarrow> should_index_dead_record d \<longrightarrow> dead_at_ms d = due_ms p \<longrightarrow>
        ikey_text p = make_dead_due_index_key (dr_dept d) (dead_at_ms d) (ikey_id p))"

lemma dead_due_drop_key:
  assumes inv: "store_inv b64 db" and wf: "dead_key_wf p" and cur: "dead_due_key_current db p"
    and d: "dead db (ikey_id p) = Some d" "dead_at_ms d = due_ms p"
  shows "(t_get (dead_by_dept_due db))(ikey_text p := None) =
    drop_entry (dead_due_entry (ikey_id p) d) (t_get (dead_by_dept_due db))"
proof (cases "should_index_dead_record d")
  case True
  with cur d show ?thesis by (simp add: dead_due_key_current_def dead_due_entry_def)
next
  case False
  obtain dp where dp: "ikey_text p = make_dead_due_index_key dp (due_ms p) (ikey_id p)"
    using wf by (auto simp: dead_key_wf_def)
  have "(t_get (dead_by_dept_due db))(ikey_text p := None) = t_get (dead_by_dept_due db)"
    unfolding dp using store_invD(9) [OF inv] d False by (intro dead_due_drop_foreign) auto
  with False show ?thesis by (simp add: dead_due_entry_def)
qed

lemma tombstone_terminal: "is_terminal_tombstone d \<Longrightarrow> is_terminal_dead_record d"
  by (simp add: is_terminal_tombstone_def is_terminal_dead_record_def)

lemma permanent_inv:
  assumes seg: "segment_encoding (ext_b64 X)" and inv: "store_inv (ext_b64 X) db"
    and key: "dead_key_wf p" "dead_due_key_current db p"
    and d: "dead db (ikey_id p) = Some d" "dead_at_ms d = due_ms p" "\<not> is_terminal_dead_record d"
    and d1: "dr_dept d1 = dr_dept d" "dead_at_ms d1 = dead_at_ms d" "dead_ids_ok (ikey_id p) d1"
      "is_terminal_dead_record d1" "needs_suppression d1 \<Longrightarrow> ikey_id p \<in> suppressed db"
  shows "store_inv (ext_b64 X) (redrive_to_permanent X p d1 db)"
proof (rule store_inv_change [OF inv, where i = "ikey_id p" and nl = "live db (ikey_id p)" and nd = "Some d1"])
  let ?db = "redrive_to_permanent X p d1 db" and ?i = "ikey_id p"
  have "lineage_exact (ext_b64 X) (live db) ((dead db)(?i \<mapsto> d1)) (lineage_by_source ?db)"
    using lineage_add_dead [OF seg store_invD(11) [OF inv], of ?i d1] d d1(3) tombstone_terminal [of d]
    by (auto simp: redrive_to_permanent_def table_updates dead_ids_ok_def simp del: lineage_rows_dead)
  moreover have "dead_time_entry ?i d1 = dead_time_entry ?i d"
    by (simp add: dead_time_entry_def d1)
  moreover have "dead_due_entry ?i d1 = None" "terminal_entry ?i d = None"
    "terminal_entry ?i d1 = Some (make_dead_due_index_key (dr_dept d1) (dead_at_ms d1) ?i, ())"
    using d(3) d1(4) terminal_and_indexed [OF d1(4)] by (simp_all add: dead_due_entry_def terminal_entry_def)
  ultimately show "rows_change (ext_b64 X) ?i (live db ?i) (Some d1) db ?db"
    using d dead_due_drop_key [OF inv key d(1,2)]
    by (simp add: rows_change_def redrive_to_permanent_def table_updates reindexed_def reindex_def
        del: lineage_rows_dead)
  show "tables_ok ?db" using store_invD(1) [OF inv] by (simp add: redrive_to_permanent_def)
  show "suppression_grows db ?db"
    using suppression_grows_refl [OF inv, of ?db] by (simp add: redrive_to_permanent_def table_updates)
  show "live_ids_ok ?i r" if "live db ?i = Some r" for r
    using store_inv_live_id [OF inv that] by (simp add: live_ids_ok_def)
  show "?i \<in> suppressed ?db" if "Some d1 = Some e" and "needs_suppression e" for e
    using that d1(5) by (simp add: redrive_to_permanent_def table_updates)
qed (use d1 in auto)

lemma suppress_permanent_inv:
  assumes seg: "segment_encoding (ext_b64 X)" and inv: "store_inv (ext_b64 X) db"
    and key: "dead_key_wf p" "dead_due_key_current db p"
    and d: "dead db (ikey_id p) = Some d" "dead_at_ms d = due_ms p" "\<not> is_terminal_dead_record d"
    and d1: "dr_dept d1 = dr_dept d" "dead_at_ms d1 = dead_at_ms d" "dead_ids_ok (ikey_id p) d1"
      "is_terminal_dead_record d1"
    and run: "suppress_terminal_delivery (ikey_id p) (redrive_to_permanent X p d1 db) = Inr db'"
  shows "store_inv (ext_b64 X) db'" and "live db' = live db" and "dead db' = (dead db)(ikey_id p \<mapsto> d1)"
    and "suppressed db' = insert (ikey_id p) (suppressed db)"
proof -
  have slot: "terminal_suppression_by_slot (redrive_to_permanent X p d1 db) = terminal_suppression_by_slot db"
    by (simp add: redrive_to_permanent_def table_updates)
  obtain t where t: "db' = (redrive_to_permanent X p d1 db)\<lparr>terminal_suppression_by_slot := t\<rparr>" "probe_inv t"
      "suppressed_ids t = insert (ikey_id p) (suppressed db)"
    using run store_invD(5) [OF inv] by (auto elim!: suppress_terminal_deliveryE simp: slot)
  let ?s = "db\<lparr>terminal_suppression_by_slot := t\<rparr>"
  have eq: "db' = redrive_to_permanent X p d1 ?s"
    unfolding t(1) by (simp add: redrive_to_permanent_def table_updates)
  have "store_inv (ext_b64 X) ?s" using t by (intro suppress_only_inv [OF inv]) auto
  then show "store_inv (ext_b64 X) db'"
    unfolding eq using key d d1 t(3) by (intro permanent_inv [OF seg]) (auto simp: dead_due_key_current_def)
  show "live db' = live db" and "dead db' = (dead db)(ikey_id p \<mapsto> d1)"
    and "suppressed db' = insert (ikey_id p) (suppressed db)"
    using t by (simp_all add: redrive_to_permanent_def table_updates)
qed

text \<open>Taking a dead letter out of the dead side.\<close>

definition exhume :: "externs \<Rightarrow> due_index_key \<Rightarrow> dead_record \<Rightarrow> store_db \<Rightarrow> store_db" where
  "exhume X p d db =
     dtime_rem (make_dead_time_index_key (dead_at_ms d) (ikey_id p))
       (del_dead (ikey_id p) (lineage_upd (remove_dead_lineage_index (ext_b64 X) d) (ddue_rem (ikey_text p) db)))"

lemma exhume_inv:
  assumes seg: "segment_encoding (ext_b64 X)" and inv: "store_inv (ext_b64 X) db"
    and key: "dead_key_wf p" "dead_due_key_current db p"
    and d: "dead db (ikey_id p) = Some d" "dead_at_ms d = due_ms p" "\<not> is_terminal_dead_record d"
  shows "store_inv (ext_b64 X) (exhume X p d db)"
proof (rule store_inv_change [OF inv, where i = "ikey_id p" and nl = "live db (ikey_id p)" and nd = None])
  let ?db = "exhume X p d db" and ?i = "ikey_id p"
  have "dr_delivery_id d = ?i" using store_inv_dead_id [OF inv d(1)] by (simp add: dead_ids_ok_def)
  then have "lineage_exact (ext_b64 X) (live db) ((dead db)(?i := None)) (lineage_by_source ?db)"
    using lineage_drop_dead [OF seg store_invD(11) [OF inv] d(1)]
    by (simp add: exhume_def table_updates del: lineage_rows_dead)
  then show "rows_change (ext_b64 X) ?i (live db ?i) None db ?db"
    using d dead_due_drop_key [OF inv key d(1,2)]
    by (simp add: rows_change_def exhume_def table_updates reindexed_def reindex_def terminal_entry_def
        dead_time_entry_def del: lineage_rows_dead)
  show "tables_ok ?db" using store_invD(1) [OF inv] by (simp add: exhume_def)
  show "suppression_grows db ?db"
    using suppression_grows_refl [OF inv, of ?db] by (simp add: exhume_def table_updates)
  show "live_ids_ok ?i r" if "live db ?i = Some r" for r
    using store_inv_live_id [OF inv that] by (simp add: live_ids_ok_def)
qed auto

section \<open>Processing one key\<close>

text \<open>What may become of the rows of one identity.\<close>

definition made_permanent :: "string \<Rightarrow> store_db \<Rightarrow> store_db \<Rightarrow> bool" where
  "made_permanent i db db' \<longleftrightarrow>
     (\<exists>d d1 nl. dead db i = Some d \<and> \<not> is_terminal_dead_record d \<and> is_terminal_dead_record d1 \<and>
        dead_at_ms d1 = dead_at_ms d \<and> dead db' = (dead db)(i \<mapsto> d1) \<and> live db' = (live db)(i := nl) \<and>
        (nl = live db i \<or> live db i = None \<and> nl \<noteq> None) \<and> suppressed db \<subseteq> suppressed db')"

lemma made_permanentI:
  assumes "dead db i = Some d" "\<not> is_terminal_dead_record d" "is_terminal_dead_record d1"
    "dead_at_ms d1 = dead_at_ms d" "dead db' = (dead db)(i \<mapsto> d1)" "live db' = (live db)(i := nl)"
    "nl = live db i \<or> live db i = None \<and> nl \<noteq> None" "suppressed db \<subseteq> suppressed db'"
  shows "made_permanent i db db'"
  unfolding made_permanent_def using assms by blast

definition rows_same :: "store_db \<Rightarrow> store_db \<Rightarrow> bool" where
  "rows_same db db' \<longleftrightarrow> live db' = live db \<and> dead db' = dead db \<and> suppressed db' = suppressed db"

definition revived :: "string \<Rightarrow> delivery_record \<Rightarrow> store_db \<Rightarrow> store_db \<Rightarrow> bool" where
  "revived i r db db' \<longleftrightarrow> live db i = None \<and> delivery_id r = i \<and>
     (\<exists>d. dead db i = Some d \<and> \<not> is_terminal_dead_record d) \<and>
     live db' = (live db)(i \<mapsto> r) \<and> dead db' = (dead db)(i := None) \<and> suppressed db' = suppressed db"

lemma permanent_flags [simp]:
  "is_terminal_dead_record (d\<lparr>permanent := True, replayable := False\<rparr>)"
  "is_terminal_dead_record (d\<lparr>allows_keyed_reuse := a, permanent := True, replayable := False, dr_record := rec\<rparr>)"
  "is_terminal_dead_record (d\<lparr>allows_keyed_reuse := a, permanent := True, replayable := False, dr_record := rec,
     error_excerpt_of := e\<rparr>)"
  by (simp_all add: is_terminal_dead_record_def)

lemma redrive_to_permanent_rows:
  "live (redrive_to_permanent X p d1 db) = live db"
  "dead (redrive_to_permanent X p d1 db) = (dead db)(ikey_id p \<mapsto> d1)"
  "terminal_suppression_by_slot (redrive_to_permanent X p d1 db) = terminal_suppression_by_slot db"
  by (simp_all add: redrive_to_permanent_def table_updates)

lemma redrive_collision_inv:
  assumes seg: "segment_encoding (ext_b64 X)" and inv: "store_inv (ext_b64 X) db"
    and key: "dead_key_wf p" "dead_due_key_current db p"
    and d: "dead db (ikey_id p) = Some d" "dead_at_ms d = due_ms p" "\<not> is_terminal_dead_record d"
    and run: "redrive_collision X p d r lv (db, res, m) = Inr (db', res', m')"
  shows "store_inv (ext_b64 X) db' \<and> made_permanent (ikey_id p) db db'"
proof -
  define keep where "keep \<longleftrightarrow> collapse_by_dedup_id r \<and> collapse_by_dedup_id lv"
  define d1 where "d1 = d\<lparr>allows_keyed_reuse := (allows_keyed_reuse d \<or> keep), permanent := True,
    replayable := False, dr_record := None,
    error_excerpt_of := Some (error_excerpt ''redrive collision with live delivery'')\<rparr>"
  have d1: "dr_dept d1 = dr_dept d" "dead_at_ms d1 = dead_at_ms d" "dead_ids_ok (ikey_id p) d1"
      "is_terminal_dead_record d1" "keep \<Longrightarrow> \<not> needs_suppression d1"
    using store_inv_dead_id [OF inv d(1)] by (auto simp: d1_def dead_ids_ok_def needs_suppression_def)
  have res: "(if \<not> keep then suppress_terminal_delivery (ikey_id p) (redrive_to_permanent X p d1 db)
      else Inr (redrive_to_permanent X p d1 db)) = Inr db'"
  proof -
    have "redrive_collision X p d r lv (db, res, m) =
        rbind (if \<not> keep then suppress_terminal_delivery (ikey_id p) (redrive_to_permanent X p d1 db)
          else Inr (redrive_to_permanent X p d1 db)) (\<lambda>db2. Inr (db2, push_permanent d1 res, True))"
      by (simp add: redrive_collision_def Let_def keep_def d1_def)
    with run show ?thesis by (auto simp only: rbind_eq_Inr sum.inject prod.inject)
  qed
  show ?thesis
  proof (cases keep)
    case True
    then have "store_inv (ext_b64 X) db'"
      using res permanent_inv [OF seg inv key d d1(1-4)] d1(5) by auto
    moreover have "made_permanent (ikey_id p) db db'"
      using res True redrive_to_permanent_rows [of X p d1 db]
      by (intro made_permanentI [OF d(1,3) d1(4,2), where nl = "live db (ikey_id p)"]) auto
    ultimately show ?thesis ..
  next
    case False
    with res have "suppress_terminal_delivery (ikey_id p) (redrive_to_permanent X p d1 db) = Inr db'" by simp
    note S = suppress_permanent_inv [OF seg inv key d d1(1-4) this]
    then show ?thesis
      by (intro conjI made_permanentI [OF d(1,3) d1(4,2), where nl = "live db (ikey_id p)"]) auto
  qed
qed

lemma redrive_exhausted_inv:
  assumes seg: "segment_encoding (ext_b64 X)" and inv: "store_inv (ext_b64 X) db"
    and key: "dead_key_wf p" "dead_due_key_current db p"
    and d: "dead db (ikey_id p) = Some d" "dead_at_ms d = due_ms p" "\<not> is_terminal_dead_record d"
    and r: "delivery_id r = ikey_id p"
    and run: "redrive_exhausted X now_ms p d r (db, res, m) = Inr (db', res', m')"
  shows "store_inv (ext_b64 X) db' \<and> made_permanent (ikey_id p) db db'"
proof -
  let ?i = "ikey_id p"
  from run obtain lv where read: "read_delivery_table (delivery_by_id db) ?i = Inr lv"
    by (auto simp: redrive_exhausted_def Let_def)
  note lv = read_delivery_table_decoded [OF read]
  define keep where "keep \<longleftrightarrow> collapse_by_dedup_id r \<and>
    (case lv of None \<Rightarrow> False | Some current \<Rightarrow> collapse_by_dedup_id current)"
  define pr where "pr = (if lv = None then prepare_dirty_follow_up r now_ms else (r, False))"
  define d1 where "d1 = d\<lparr>allows_keyed_reuse := (allows_keyed_reuse d \<or> snd pr \<or> keep), permanent := True,
    replayable := False, dr_record := None\<rparr>"
  have d1: "dr_dept d1 = dr_dept d" "dead_at_ms d1 = dead_at_ms d" "dead_ids_ok ?i d1"
      "is_terminal_dead_record d1" "snd pr \<or> keep \<Longrightarrow> \<not> needs_suppression d1"
    using store_inv_dead_id [OF inv d(1)] by (auto simp: d1_def dead_ids_ok_def needs_suppression_def)
  define b where "b = redrive_to_permanent X p d1 db"
  note rows = redrive_to_permanent_rows [of X p d1 db, folded b_def]
  have res: "(if snd pr then Inr (ready_ins (make_index_key (dept (fst pr)) (not_before_ms (fst pr)) ?i)
        (lineage_upd (insert_delivery_lineage_index (ext_b64 X) (fst pr)) (put_delivery ?i (fst pr) b)))
      else if \<not> keep then suppress_terminal_delivery ?i b else Inr b) = Inr db'"
  proof -
    have "redrive_exhausted X now_ms p d r (db, res, m) =
        rbind (if snd pr then Inr (ready_ins (make_index_key (dept (fst pr)) (not_before_ms (fst pr)) ?i)
            (lineage_upd (insert_delivery_lineage_index (ext_b64 X) (fst pr)) (put_delivery ?i (fst pr) b)))
          else if \<not> keep then suppress_terminal_delivery ?i b else Inr b)
          (\<lambda>db2. Inr (db2, push_permanent d1 res, True))"
      by (simp add: redrive_exhausted_def Let_def read keep_def d1_def b_def pr_def case_prod_beta)
    with run show ?thesis by (auto simp only: rbind_eq_Inr sum.inject prod.inject)
  qed
  consider "snd pr" | "\<not> snd pr" "keep" | "\<not> snd pr" "\<not> keep" by auto
  then show ?thesis
  proof cases
    case 1
    then have dirty: "lv = None" "collapse_by_dedup_id r" "pending_dirty r"
      by (auto simp: pr_def prepare_dirty_follow_up_def split: if_splits)
    then have pr': "delivery_id (fst pr) = ?i" "lease_until_ms (fst pr) = None"
      using r by (simp_all add: pr_def follow_up_fields)
    have inv_b: "store_inv (ext_b64 X) b"
      unfolding b_def using d1(5) 1 by (intro permanent_inv [OF seg inv key d d1(1-4)]) auto
    have ok: "id_ok ?i" using store_inv_dead_id [OF inv d(1)] by (simp add: dead_ids_ok_def)
    have none: "live b ?i = None" using lv dirty(1) rows(1) by simp
    have db': "db' = ready_ins (make_index_key (dept (fst pr)) (not_before_ms (fst pr)) ?i)
        (lineage_upd (insert_delivery_lineage_index (ext_b64 X) (fst pr)) (put_delivery ?i (fst pr) b))"
      using res 1 by simp
    have "store_inv (ext_b64 X) db'"
      by (rule insert_fresh_inv [OF seg inv_b none pr'(1) ok pr'(2) db'])
    moreover have "made_permanent ?i db db'"
      using lv dirty(1) rows
      by (intro made_permanentI [OF d(1,3) d1(4,2), where nl = "Some (fst pr)"]) (simp_all add: db' table_updates)
    ultimately show ?thesis ..
  next
    case 2
    then have "store_inv (ext_b64 X) db'"
      using res permanent_inv [OF seg inv key d d1(1-4)] d1(5) by (auto simp: b_def)
    moreover have "made_permanent ?i db db'"
      using res 2 rows
      by (intro made_permanentI [OF d(1,3) d1(4,2), where nl = "live db ?i"]) auto
    ultimately show ?thesis ..
  next
    case 3
    with res have "suppress_terminal_delivery ?i (redrive_to_permanent X p d1 db) = Inr db'" by (simp add: b_def)
    note S = suppress_permanent_inv [OF seg inv key d d1(1-4) this]
    then show ?thesis
      by (intro conjI made_permanentI [OF d(1,3) d1(4,2), where nl = "live db (ikey_id p)"]) auto
  qed
qed

lemma redrive_revive_inv:
  assumes seg: "segment_encoding (ext_b64 X)" and inv: "store_inv (ext_b64 X) db"
    and key: "dead_key_wf p" "dead_due_key_current db p"
    and d: "dead db (ikey_id p) = Some d" "dead_at_ms d = due_ms p" "\<not> is_terminal_dead_record d"
    and r: "delivery_id r = ikey_id p" and none: "live db (ikey_id p) = None"
    and run: "redrive_revive X now_ms p d r (db, res, m) = (db', res', m')"
  shows "store_inv (ext_b64 X) db' \<and> (\<exists>r1. res' = res\<lparr>redriven := redriven res @ [r1]\<rparr> \<and> revived (ikey_id p) r1 db db')"
proof -
  let ?i = "ikey_id p"
  define r1 where "r1 = r\<lparr>redrive_count := sat_add (dr_redrive_count d) 1, attempt := 0, lease_until_ms := None,
     lease_generation := sat_add (lease_generation r) 1, not_before_ms := now_ms,
     last_error_excerpt := None, subscriber_absent_since_ms := None\<rparr>"
  have r1: "delivery_id r1 = ?i" "lease_until_ms r1 = None" using r by (simp_all add: r1_def)
  have "redrive_revive X now_ms p d r (db, res, m) =
      (ready_ins (make_index_key (dept r1) (not_before_ms r1) ?i)
        (lineage_upd (insert_delivery_lineage_index (ext_b64 X) r1) (put_delivery ?i r1 (exhume X p d db))),
       res\<lparr>redriven := redriven res @ [r1]\<rparr>, True)"
    by (simp add: redrive_revive_def Let_def r1_def exhume_def table_updates)
  then have db': "db' = ready_ins (make_index_key (dept r1) (not_before_ms r1) ?i)
      (lineage_upd (insert_delivery_lineage_index (ext_b64 X) r1) (put_delivery ?i r1 (exhume X p d db)))"
    and res': "res' = res\<lparr>redriven := redriven res @ [r1]\<rparr>"
    using run by (simp_all only: prod.inject)
  have ok: "id_ok ?i" using store_inv_dead_id [OF inv d(1)] by (simp add: dead_ids_ok_def)
  have gone: "live (exhume X p d db) ?i = None" using none by (simp add: exhume_def table_updates)
  have "store_inv (ext_b64 X) db'"
    by (rule insert_fresh_inv [OF seg exhume_inv [OF seg inv key d] gone r1(1) ok r1(2) db'])
  moreover have "revived ?i r1 db db'"
    using none d r1 by (auto simp: revived_def db' exhume_def table_updates)
  ultimately show ?thesis using res' by blast
qed

text \<open>Keys that are out of date are only dropped.\<close>

lemma redrive_refresh_inv:
  assumes inv: "store_inv b64 db" and wf: "dead_key_wf p"
    and ch: "(dead db (ikey_id p) = None \<and>
        db' = dtime_rem (make_dead_time_index_key (due_ms p) (ikey_id p)) (ddue_rem (ikey_text p) db)) \<or>
      (\<exists>d. dead db (ikey_id p) = Some d \<and> is_terminal_dead_record d \<and> db' = ddue_rem (ikey_text p) db) \<or>
      (\<exists>d db1. dead db (ikey_id p) = Some d \<and> dead_at_ms d \<noteq> due_ms p \<and>
        db1 = dtime_ins (make_dead_time_index_key (dead_at_ms d) (ikey_id p))
          (dtime_rem (make_dead_time_index_key (due_ms p) (ikey_id p)) (ddue_rem (ikey_text p) db)) \<and>
        db' = (if should_index_dead_record d
          then ddue_ins (make_dead_due_index_key (dr_dept d) (dead_at_ms d) (ikey_id p)) db1 else db1))"
  shows "store_inv b64 db' \<and> rows_same db db'"
proof -
  let ?i = "ikey_id p"
  obtain dp where dp: "ikey_text p = make_dead_due_index_key dp (due_ms p) ?i"
    using wf by (auto simp: dead_key_wf_def)
  have du: "(t_get (dead_by_dept_due db))(ikey_text p := None) = t_get (dead_by_dept_due db)"
    unfolding dp using store_invD(9) [OF inv] ch terminal_and_indexed by (intro dead_due_drop_foreign) auto
  have dt: "(t_get (dead_by_time db))(make_dead_time_index_key (due_ms p) ?i := None) = t_get (dead_by_time db)"
    if "\<And>d. dead db ?i = Some d \<Longrightarrow> dead_at_ms d \<noteq> due_ms p"
    using store_invD(8) [OF inv] that by (intro dead_time_drop_foreign) auto
  have own: "(t_get (dead_by_time db))(make_dead_time_index_key (dead_at_ms d) ?i \<mapsto> ()) = t_get (dead_by_time db)"
    "should_index_dead_record d \<Longrightarrow> (t_get (dead_by_dept_due db))(make_dead_due_index_key (dr_dept d) (dead_at_ms d) ?i \<mapsto> ())
      = t_get (dead_by_dept_due db)" if "dead db ?i = Some d" for d
    using dtm.add_owned [OF store_invD(8) [OF inv] that] ddu.add_owned [OF store_invD(9) [OF inv] that]
    by (simp_all add: dead_time_entry_def dead_due_entry_def)
  have same: "t_get (dead_by_time db') = t_get (dead_by_time db)" "t_get (dead_by_dept_due db') = t_get (dead_by_dept_due db)"
    "live_side_same db db'" "dead_by_id db' = dead_by_id db" "lineage_by_source db' = lineage_by_source db"
    "terminal_dead_by_time db' = terminal_dead_by_time db"
    "terminal_suppression_by_slot db' = terminal_suppression_by_slot db" "tables_ok db'"
    using ch dt du own store_invD(1) [OF inv]
    by (auto simp: table_updates live_side_same_def tables_ok_def)
  then show ?thesis
    using store_inv_same_dead_gets [OF inv] suppression_grows_refl [OF inv]
    by (simp add: rows_same_def live_side_same_def)
qed

definition redrive_effect :: "string \<Rightarrow> store_db \<Rightarrow> redrive_result \<Rightarrow> store_db \<Rightarrow> redrive_result \<Rightarrow> bool" where
  "redrive_effect i db res db' res' \<longleftrightarrow>
     rows_same db db' \<and> redriven res' = redriven res \<or>
     made_permanent i db db' \<and> redriven res' = redriven res \<or>
     (\<exists>r. redriven res' = redriven res @ [r] \<and> revived i r db db')"

lemma redriven_push [simp]: "redriven (push_permanent d res) = redriven res"
  by (simp add: push_permanent_def)

lemma redrive_target_id: "redrive_target depts d r0 = Some r \<Longrightarrow> delivery_id r = delivery_id r0"
  by (auto simp: redrive_target_def split: if_splits option.splits)

lemma redrive_exhausted_redriven:
  "redrive_exhausted X now_ms p d r (db, res, m) = Inr (db', res', m') \<Longrightarrow> redriven res' = redriven res"
  by (auto simp: redrive_exhausted_def Let_def case_prod_beta)

lemma redrive_collision_redriven:
  "redrive_collision X p d r lv (db, res, m) = Inr (db', res', m') \<Longrightarrow> redriven res' = redriven res"
  by (auto simp: redrive_collision_def Let_def)

text \<open>The branches of the loop body, for a key whose record is due.\<close>

lemma redrive_key_cases:
  assumes "redrive_key X policy depts now_ms (db, res, m) p = Inr (db', res', m')"
  obtains (skip) "db' = db" "res' = res" "m' = m"
    | (refresh) "res' = res"
      "(dead db (ikey_id p) = None \<and>
        db' = dtime_rem (make_dead_time_index_key (due_ms p) (ikey_id p)) (ddue_rem (ikey_text p) db)) \<or>
      (\<exists>d. dead db (ikey_id p) = Some d \<and> is_terminal_dead_record d \<and> db' = ddue_rem (ikey_text p) db) \<or>
      (\<exists>d db1. dead db (ikey_id p) = Some d \<and> dead_at_ms d \<noteq> due_ms p \<and>
        db1 = dtime_ins (make_dead_time_index_key (dead_at_ms d) (ikey_id p))
          (dtime_rem (make_dead_time_index_key (due_ms p) (ikey_id p)) (ddue_rem (ikey_text p) db)) \<and>
        db' = (if should_index_dead_record d
          then ddue_ins (make_dead_due_index_key (dr_dept d) (dead_at_ms d) (ikey_id p)) db1 else db1))"
    | (due) d where "dead db (ikey_id p) = Some d" "dead_at_ms d = due_ms p" "\<not> is_terminal_dead_record d"
      "dead_redrive_cooldown_elapsed (dead_at_ms d) (duration_millis (cooldown policy)) now_ms"
      "(case dr_record d of
          None \<Rightarrow> rbind (suppress_terminal_delivery (ikey_id p)
              (redrive_to_permanent X p (d\<lparr>permanent := True, replayable := False\<rparr>) db))
            (\<lambda>db1. Inr (db1, push_permanent (d\<lparr>permanent := True, replayable := False\<rparr>) res, True))
        | Some r0 \<Rightarrow>
            (case redrive_target depts d r0 of
               None \<Rightarrow> Inr (db, res, m)
             | Some r \<Rightarrow>
                 if max_redrives policy \<le> dr_redrive_count d
                 then redrive_exhausted X now_ms p d r (db, res, m)
                 else rbind (read_delivery_table (delivery_by_id db) (ikey_id p)) (\<lambda>live.
                   case live of
                     Some current \<Rightarrow> redrive_collision X p d r current (db, res, m)
                   | None \<Rightarrow> Inr (redrive_revive X now_ms p d r (db, res, m))))) = Inr (db', res', m')"
proof (cases "dead db (ikey_id p)")
  case None
  with assms show ?thesis by (intro refresh) (auto simp: redrive_key_def)
next
  case (Some d)
  consider "dead_at_ms d \<noteq> due_ms p"
    | "dead_at_ms d = due_ms p" "\<not> dead_redrive_cooldown_elapsed (dead_at_ms d) (duration_millis (cooldown policy)) now_ms"
    | "dead_at_ms d = due_ms p" "dead_redrive_cooldown_elapsed (dead_at_ms d) (duration_millis (cooldown policy)) now_ms"
      "is_terminal_dead_record d"
    | "dead_at_ms d = due_ms p" "dead_redrive_cooldown_elapsed (dead_at_ms d) (duration_millis (cooldown policy)) now_ms"
      "\<not> is_terminal_dead_record d" by blast
  then show ?thesis
  proof cases
    case 1
    with Some assms show ?thesis by (intro refresh) (auto simp: redrive_key_def Let_def)
  next
    case 2
    with Some assms show ?thesis by (intro skip) (auto simp: redrive_key_def Let_def)
  next
    case 3
    with Some assms show ?thesis by (intro refresh) (auto simp: redrive_key_def Let_def is_terminal_dead_record_def)
  next
    case 4
    with Some assms show ?thesis
      by (intro due [of d]; cases "dr_record d") (simp_all add: redrive_key_def Let_def is_terminal_dead_record_def)
  qed
qed

lemma redrive_key_inv:
  assumes seg: "segment_encoding (ext_b64 X)" and inv: "store_inv (ext_b64 X) db"
    and key: "dead_key_wf p" "dead_due_key_current db p"
    and run: "redrive_key X policy depts now_ms (db, res, m) p = Inr (db', res', m')"
  shows "store_inv (ext_b64 X) db' \<and> redrive_effect (ikey_id p) db res db' res'"
  using run
proof (cases rule: redrive_key_cases)
  case skip
  with inv show ?thesis by (simp add: redrive_effect_def rows_same_def)
next
  case refresh
  with redrive_refresh_inv [OF inv key(1) refresh(2)] show ?thesis by (simp add: redrive_effect_def)
next
  case (due d)
  let ?i = "ikey_id p"
  have dids: "dead_ids_ok ?i d" using inv due(1) by (rule store_inv_dead_id)
  show ?thesis
  proof (cases "dr_record d")
    case None
    let ?d1 = "d\<lparr>permanent := True, replayable := False\<rparr>"
    have sup: "suppress_terminal_delivery ?i (redrive_to_permanent X p ?d1 db) = Inr db'"
      and res': "res' = push_permanent ?d1 res"
      using due(5) None by auto
    have "dead_ids_ok ?i ?d1" using dids by (simp add: dead_ids_ok_def)
    note S = suppress_permanent_inv [OF seg inv key due(1-3) _ _ this _ sup]
    have "made_permanent ?i db db'"
      using S by (intro made_permanentI [OF due(1,3), of ?d1 _ "live db ?i"]) auto
    with S(1) res' show ?thesis by (simp add: redrive_effect_def)
  next
    case (Some r0)
    show ?thesis
    proof (cases "redrive_target depts d r0")
      case None
      with Some due(5) inv show ?thesis by (auto simp: redrive_effect_def rows_same_def)
    next
      case r: (Some r)
      have rid: "delivery_id r = ?i"
        using redrive_target_id [OF r] dids Some by (simp add: dead_ids_ok_def)
      show ?thesis
      proof (cases "max_redrives policy \<le> dr_redrive_count d")
        case True
        with due(5) Some r have run': "redrive_exhausted X now_ms p d r (db, res, m) = Inr (db', res', m')" by simp
        from redrive_exhausted_inv [OF seg inv key due(1-3) rid run'] redrive_exhausted_redriven [OF run']
        show ?thesis by (simp add: redrive_effect_def)
      next
        case False
        with due(5) Some r obtain lv where lv: "read_delivery_table (delivery_by_id db) ?i = Inr lv"
          and run': "(case lv of Some current \<Rightarrow> redrive_collision X p d r current (db, res, m)
            | None \<Rightarrow> Inr (redrive_revive X now_ms p d r (db, res, m))) = Inr (db', res', m')"
          by auto
        show ?thesis
        proof (cases lv)
          case (Some current)
          with run' have run'': "redrive_collision X p d r current (db, res, m) = Inr (db', res', m')" by simp
          from redrive_collision_inv [OF seg inv key due(1-3) run''] redrive_collision_redriven [OF run'']
          show ?thesis by (simp add: redrive_effect_def)
        next
          case None
          with run' have "redrive_revive X now_ms p d r (db, res, m) = (db', res', m')" by simp
          from redrive_revive_inv [OF seg inv key due(1-3) rid _ this] read_delivery_table_decoded [OF lv] None
          show ?thesis by (auto simp: redrive_effect_def)
        qed
      qed
    qed
  qed
qed

section \<open>A whole redrive\<close>

lemma dead_due_table_keys:
  assumes "store_inv b64 db"
  shows "k \<in> fst ` set (t_iter (dead_by_dept_due db)) \<longleftrightarrow>
    (\<exists>i d. dead db i = Some d \<and> should_index_dead_record d \<and>
      k = make_dead_due_index_key (dr_dept d) (dead_at_ms d) i)"
proof -
  have "k \<in> fst ` set (t_iter (dead_by_dept_due db)) \<longleftrightarrow> t_get (dead_by_dept_due db) k = Some ()"
    using store_invD(1) [OF assms] tab.entries_get [of "dead_by_dept_due db"]
    by (force simp: tables_ok_def image_iff)
  also have "\<dots> \<longleftrightarrow> (\<exists>i. Option.bind (dead db i) (dead_due_entry i) = Some (k, ()))"
    using store_invD(9) [OF assms] by (simp add: index_exact_def)
  finally show ?thesis
    by (auto simp: bind_eq_Some_conv dead_due_entry_def split: if_splits)
qed

lemma due_dead_loop_keys:
  assumes "due_dead_loop cooldown_ms depts now_ms limit t due ks = Inr ps" and "p \<in> set ps"
  shows "p \<in> set due \<or> (\<exists>k \<in> set ks. parse_dead_due_index_key k = Inr p)"
  using assms
proof (induction ks arbitrary: due)
  case (Cons k ks)
  from Cons.prems(1) obtain q where q: "parse_dead_due_index_key k = Inr q"
    and "due_dead_loop cooldown_ms depts now_ms limit t (due @ [q]) ks = Inr ps \<or>
      due_dead_loop cooldown_ms depts now_ms limit t due ks = Inr ps \<or> ps = due @ [q] \<or> ps = due"
    by (auto simp: Let_def split: option.splits if_splits)
  with Cons.IH [of "due @ [q]"] Cons.IH [of due] Cons.prems(2) show ?case by auto
qed simp

lemma collect_due_dead_current:
  assumes inv: "store_inv b64 db" and "collect_due_dead_keys policy depts now_ms limit db = Inr ps" and "p \<in> set ps"
  shows "dead_key_wf p \<and> dead_due_key_current db p"
proof -
  obtain k where "k \<in> fst ` set (t_iter (dead_by_dept_due db))" "parse_dead_due_index_key k = Inr p"
    using due_dead_loop_keys [OF assms(2) [unfolded collect_due_dead_keys_def] assms(3)]
    by (force simp: t_range_def)
  then obtain i d where "dead db i = Some d" "p = parsed_dead_key (make_dead_due_index_key (dr_dept d) (dead_at_ms d) i)"
    unfolding dead_due_table_keys [OF inv] by (auto simp: parsed_dead_key_def)
  then show ?thesis by (auto simp: dead_key_wf_def dead_due_key_current_def)
qed

lemma redrive_effect_current:
  assumes "redrive_effect i db res db' res'" and "dead_due_key_current db p"
  shows "dead_due_key_current db' p"
proof -
  have "dead db j = Some d" if "dead db' j = Some d" "should_index_dead_record d" for j d
    using assms(1) that terminal_and_indexed
    by (auto simp: redrive_effect_def rows_same_def made_permanent_def revived_def split: if_splits)
  with assms(2) show ?thesis by (auto simp: dead_due_key_current_def)
qed

lemma redrive_fold_inv:
  assumes seg: "segment_encoding (ext_b64 X)"
    and "fold_result (redrive_key X policy depts now_ms) (db, res, m) ps = Inr (db', res', m')"
    and "store_inv (ext_b64 X) db" and "\<And>p. p \<in> set ps \<Longrightarrow> dead_key_wf p \<and> dead_due_key_current db p"
  shows "store_inv (ext_b64 X) db'"
  using assms(2-)
proof (induction ps arbitrary: db res m)
  case (Cons p ps)
  from Cons.prems(1) obtain db1 res1 m1 where step: "redrive_key X policy depts now_ms (db, res, m) p = Inr (db1, res1, m1)"
    and rest: "fold_result (redrive_key X policy depts now_ms) (db1, res1, m1) ps = Inr (db', res', m')"
    by auto
  have 1: "store_inv (ext_b64 X) db1" "redrive_effect (ikey_id p) db res db1 res1"
    using redrive_key_inv [OF seg Cons.prems(2) _ _ step] Cons.prems(3) by auto
  show ?case
    using Cons.IH [OF rest 1(1)] Cons.prems(3) redrive_effect_current [OF 1(2)] by auto
qed simp

lemma redrive_due_inner_cases:
  assumes "redrive_due_inner X policy depts now_ms limit db = Inr (db', res)"
  obtains (same) "db' = db"
    | (driven) ps db1 m n where "collect_due_dead_keys policy depts now_ms limit db = Inr ps"
      "fold_result (redrive_key X policy depts now_ms) (db, \<lparr>redriven = [], permanent_dead = []\<rparr>, False) ps = Inr (db1, res, m)"
      "compact_terminal_dead_records (ext_b64 X) now_ms db1 = Inr (db', n)"
  using assms by (auto simp: redrive_due_inner_def Let_def split: if_splits)

lemma redrive_due_inner_inv:
  assumes seg: "segment_encoding (ext_b64 X)" and inv: "store_inv (ext_b64 X) db"
    and run: "redrive_due_inner X policy depts now_ms limit db = Inr (db', res)"
  shows "store_inv (ext_b64 X) db'"
  using run
proof (cases rule: redrive_due_inner_cases)
  case same
  with inv show ?thesis by simp
next
  case (driven ps db1 m n)
  have "store_inv (ext_b64 X) db1"
    using collect_due_dead_current [OF inv driven(1)] by (intro redrive_fold_inv [OF seg driven(2) inv]) auto
  with compact_inv [OF seg _ driven(3)] show ?thesis by blast
qed

end
