(* ===== verification/Store_Migration.thy ===== *)
theory Store_Migration
  imports Store_Redrive
begin

text \<open>
  Opening a database: an older schema is migrated by rebuilding every derived table from the rows.
  The lemmas show that the rebuilt tables are exact and that the suppression invariant holds, so an
  opened database satisfies the invariant of the store, whatever schema it came from.
\<close>

section \<open>Rows of a table\<close>

definition rows_of :: "(string \<times> 'a blob) list \<Rightarrow> (string \<times> 'a) list" where
  "rows_of xs = List.map_filter (\<lambda>(i, b). map_option (Pair i) (decode b)) xs"

lemma rows_of_simps [simp]:
  "rows_of [] = []"
  "rows_of ((i, b) # xs) = (case decode b of None \<Rightarrow> rows_of xs | Some r \<Rightarrow> (i, r) # rows_of xs)"
  by (simp_all add: rows_of_def List.map_filter_simps split: option.split)

lemma set_rows_of: "(i, r) \<in> set (rows_of xs) \<longleftrightarrow> (i, Blob r) \<in> set xs"
  by (induction xs) (auto split: option.splits)

lemma distinct_rows_of: "distinct (map fst xs) \<Longrightarrow> distinct (map fst (rows_of xs))"
  unfolding rows_of_def by (rule map_filter_fst_distinct) (auto split: option.splits)

lemma map_of_rows_of:
  assumes "t_ok t"
  shows "map_of (rows_of (t_iter t)) = decoded t"
proof
  fix i
  have dist: "distinct (map fst (rows_of (t_iter t)))"
    using assms by (intro distinct_rows_of) (rule tab.entries_distinct)
  have "map_of (rows_of (t_iter t)) i = Some r \<longleftrightarrow> decoded t i = Some r" for r
    using dist assms by (simp add: set_rows_of tab.entries_get decoded_def bind_eq_Some_conv)
  then show "map_of (rows_of (t_iter t)) i = decoded t i" by (metis not_None_eq)
qed

text \<open>An index built from the rows of a table is exact.\<close>

definition build_index :: "(string \<Rightarrow> 'r \<Rightarrow> (string \<times> 'v) option) \<Rightarrow> (string \<Rightarrow> 'v option) \<Rightarrow>
    (string \<times> 'r) list \<Rightarrow> (string \<Rightarrow> 'v option)" where
  "build_index ikey = foldl (\<lambda>idx (i, r). add_entry (ikey i r) idx)"

lemma build_index_simps [simp]:
  "build_index ikey idx [] = idx"
  "build_index ikey idx ((i, r) # xs) = build_index ikey (add_entry (ikey i r) idx) xs"
  by (simp_all add: build_index_def)

lemma build_index_exact:
  assumes "secondary_index ikey" and "t_ok t"
  shows "index_exact ikey (decoded t) (build_index ikey Map.empty (rows_of (t_iter t)))"
  using secondary_index.exact_build [OF assms(1), of Map.empty Map.empty "rows_of (t_iter t)"]
    secondary_index.exact_empty [OF assms(1)] distinct_rows_of [OF tab.entries_distinct [OF assms(2)]]
    map_of_rows_of [OF assms(2)] by (simp add: build_index_def)

section \<open>The due indexes\<close>

lemma rebuild_due_fold:
  assumes "fold_result rebuild_due_row (rd, ls) xs = Inr (rd', ls')"
    and "\<And>i r. (i, Blob r) \<in> set xs \<Longrightarrow> delivery_id r = i" and "t_ok rd" and "t_ok ls"
  shows "t_get rd' = build_index ready_entry (t_get rd) (rows_of xs) \<and>
    t_get ls' = build_index leased_entry (t_get ls) (rows_of xs) \<and> t_ok rd' \<and> t_ok ls'"
  using assms
proof (induction xs arbitrary: rd ls)
  case (Cons x xs)
  obtain i b where x: "x = (i, b)" by (cases x)
  from Cons.prems(1) obtain r where r: "b = Blob r"
    by (cases b) (auto simp: x rebuild_due_row_def)
  have id: "delivery_id r = i" using Cons.prems(2) [of i r] by (simp add: x r)
  have ids: "\<And>j q. (j, Blob q) \<in> set xs \<Longrightarrow> delivery_id q = j" using Cons.prems(2) by simp
  show ?case
  proof (cases "lease_until_ms r")
    case None
    let ?rd = "t_insert (make_index_key (dept r) (not_before_ms r) i) () rd"
    have "rebuild_due_row (rd, ls) x = Inr (?rd, ls)"
      using None by (simp add: x r id rebuild_due_row_def)
    with Cons.prems(1) have "fold_result rebuild_due_row (?rd, ls) xs = Inr (rd', ls')" by simp
    moreover have "ready_entry i r = Some (make_index_key (dept r) (not_before_ms r) i, ())" "leased_entry i r = None"
      using None by (simp_all add: ready_entry_def leased_entry_def)
    ultimately show ?thesis using Cons.IH [OF _ ids _ Cons.prems(4)] Cons.prems(3) by (simp add: x r)
  next
    case (Some u)
    let ?ls = "t_insert (make_index_key (dept r) u i) () ls"
    have "rebuild_due_row (rd, ls) x = Inr (rd, ?ls)"
      using Some by (simp add: x r id rebuild_due_row_def)
    with Cons.prems(1) have "fold_result rebuild_due_row (rd, ?ls) xs = Inr (rd', ls')" by simp
    moreover have "ready_entry i r = None" "leased_entry i r = Some (make_index_key (dept r) u i, ())"
      using Some by (simp_all add: ready_entry_def leased_entry_def)
    ultimately show ?thesis using Cons.IH [OF _ ids Cons.prems(3)] Cons.prems(4) by (simp add: x r)
  qed
qed simp

lemma rebuild_due_indexes_ok:
  assumes run: "rebuild_due_indexes db = Inr db'" and tabs: "tables_ok db" and rows: "rows_ok db"
  shows "tables_ok db'" and "index_exact ready_entry (live db) (t_get (ready_by_dept_due db'))"
    and "index_exact leased_entry (live db) (t_get (leased_by_dept_until db'))"
    and "\<exists>rd ls. db' = db\<lparr>ready_by_dept_due := rd, leased_by_dept_until := ls\<rparr>"
proof -
  from run obtain rd ls where fold: "fold_result rebuild_due_row (t_empty, t_empty) (t_iter (delivery_by_id db)) = Inr (rd, ls)"
    and db': "db' = db\<lparr>ready_by_dept_due := rd, leased_by_dept_until := ls\<rparr>"
    by (auto simp: rebuild_due_indexes_def)
  have ok: "t_ok (delivery_by_id db)" using tabs by (simp add: tables_ok_def)
  have "delivery_id r = i" if "(i, Blob r) \<in> set (t_iter (delivery_by_id db))" for i r
    using rows that ok by (auto simp: rows_ok_def live_ids_ok_def tab.entries_get decoded_def)
  from rebuild_due_fold [OF fold this]
  have gets: "t_get rd = build_index ready_entry Map.empty (rows_of (t_iter (delivery_by_id db)))"
    "t_get ls = build_index leased_entry Map.empty (rows_of (t_iter (delivery_by_id db)))" "t_ok rd" "t_ok ls"
    by auto
  then show "tables_ok db'" using tabs by (simp add: db' tables_ok_def)
  show "index_exact ready_entry (live db) (t_get (ready_by_dept_due db'))"
    "index_exact leased_entry (live db) (t_get (leased_by_dept_until db'))"
    using build_index_exact [OF rdy.secondary_index_axioms ok] build_index_exact [OF lsd.secondary_index_axioms ok]
    by (simp_all add: db' gets)
  show "\<exists>rd ls. db' = db\<lparr>ready_by_dept_due := rd, leased_by_dept_until := ls\<rparr>" using db' by blast
qed

section \<open>The dead-letter indexes\<close>

lemma rebuild_dead_due_fold:
  "\<exists>t. foldl rebuild_dead_due_row db xs = db\<lparr>dead_by_dept_due := t\<rparr> \<and>
   t_get t = build_index dead_due_entry (t_get (dead_by_dept_due db)) (rows_of xs) \<and>
   (t_ok (dead_by_dept_due db) \<longrightarrow> t_ok t)"
proof (induction xs arbitrary: db)
  case Nil
  show ?case by (intro exI [of _ "dead_by_dept_due db"]) simp
next
  case (Cons x xs)
  obtain i b where x: "x = (i, b)" by (cases x)
  define t1 where "t1 = (case b of Garbage \<Rightarrow> dead_by_dept_due db
    | Blob d \<Rightarrow> (case dead_due_entry i d of None \<Rightarrow> dead_by_dept_due db | Some (k, v) \<Rightarrow> t_insert k v (dead_by_dept_due db)))"
  have step: "rebuild_dead_due_row db x = db\<lparr>dead_by_dept_due := t1\<rparr>"
    by (cases b) (simp_all add: rebuild_dead_due_row_def x t1_def decode_dead_record_def dead_due_entry_def ddue_ins_def)
  have get: "build_index dead_due_entry (t_get t1) (rows_of xs) =
      build_index dead_due_entry (t_get (dead_by_dept_due db)) (rows_of (x # xs))"
    by (cases b) (auto simp: x t1_def split: option.split)
  have ok: "t_ok (dead_by_dept_due db) \<Longrightarrow> t_ok t1"
    by (auto simp: t1_def split: blob.split option.split)
  from Cons.IH [of "db\<lparr>dead_by_dept_due := t1\<rparr>"] get ok show ?case by (auto simp: step)
qed

lemma rebuild_dead_time_fold:
  "\<exists>t. foldl rebuild_dead_time_row db xs = db\<lparr>dead_by_time := t\<rparr> \<and>
   t_get t = build_index dead_time_entry (t_get (dead_by_time db)) (rows_of xs) \<and>
   (t_ok (dead_by_time db) \<longrightarrow> t_ok t)"
proof (induction xs arbitrary: db)
  case Nil
  show ?case by (intro exI [of _ "dead_by_time db"]) simp
next
  case (Cons x xs)
  obtain i b where x: "x = (i, b)" by (cases x)
  define t1 where "t1 = (case b of Garbage \<Rightarrow> dead_by_time db
    | Blob d \<Rightarrow> t_insert (make_dead_time_index_key (dead_at_ms d) i) () (dead_by_time db))"
  have step: "rebuild_dead_time_row db x = db\<lparr>dead_by_time := t1\<rparr>"
    by (cases b) (simp_all add: rebuild_dead_time_row_def x t1_def decode_dead_record_def dtime_ins_def)
  have get: "build_index dead_time_entry (t_get t1) (rows_of xs) =
      build_index dead_time_entry (t_get (dead_by_time db)) (rows_of (x # xs))"
    by (cases b) (simp_all add: x t1_def dead_time_entry_def)
  have ok: "t_ok (dead_by_time db) \<Longrightarrow> t_ok t1"
    by (auto simp: t1_def split: blob.split)
  from Cons.IH [of "db\<lparr>dead_by_time := t1\<rparr>"] get ok show ?case by (auto simp: step)
qed

lemma rebuild_dead_due_index_ok:
  assumes "t_ok (dead_by_id db)"
  obtains t where "rebuild_dead_due_index db = db\<lparr>dead_by_dept_due := t\<rparr>" "t_ok t"
    "index_exact dead_due_entry (dead db) (t_get t)"
  using rebuild_dead_due_fold [of "db\<lparr>dead_by_dept_due := t_empty\<rparr>" "t_iter (dead_by_id db)"]
    build_index_exact [OF ddu.secondary_index_axioms assms]
  by (auto simp: rebuild_dead_due_index_def)

lemma rebuild_dead_time_index_ok:
  assumes "t_ok (dead_by_id db)"
  obtains t where "rebuild_dead_time_index db = db\<lparr>dead_by_time := t\<rparr>" "t_ok t"
    "index_exact dead_time_entry (dead db) (t_get t)"
  using rebuild_dead_time_fold [of "db\<lparr>dead_by_time := t_empty\<rparr>" "t_iter (dead_by_id db)"]
    build_index_exact [OF dtm.secondary_index_axioms assms]
  by (auto simp: rebuild_dead_time_index_def)

section \<open>Marking old dead records permanent\<close>

definition made_old :: "dead_record \<Rightarrow> dead_record" where
  "made_old d = d\<lparr>permanent := True, replayable := False, dr_record := None\<rparr>"

lemma mark_permanent_fold:
  assumes "\<And>i b. (i, b) \<in> set xs \<Longrightarrow> t_get (dead_by_id db) i = Some b" and "distinct (map fst xs)" and "t_ok (dead_by_id db)"
  shows "\<exists>t. foldl mark_dead_row db xs = db\<lparr>dead_by_id := t\<rparr> \<and> t_ok t \<and>
    (\<forall>j. decoded t j = dead db j \<or> decoded t j = map_option made_old (dead db j))"
  using assms
proof (induction xs arbitrary: db)
  case Nil
  then show ?case by (intro exI [of _ "dead_by_id db"]) simp
next
  case (Cons x xs)
  obtain i b where x: "x = (i, b)" by (cases x)
  have b: "t_get (dead_by_id db) i = Some b" using Cons.prems(1) by (simp add: x)
  have dist: "distinct (map fst xs)" using Cons.prems(2) by simp
  show ?case
  proof (cases b)
    case Garbage
    then have "mark_dead_row db x = db" by (simp add: x mark_dead_row_def)
    with Cons.IH [of db, OF _ dist Cons.prems(3)] Cons.prems(1) show ?thesis by simp
  next
    case (Blob d)
    define db1 where "db1 = put_dead i (made_old d) db"
    have step: "mark_dead_row db x = db1" by (simp add: x Blob mark_dead_row_def db1_def made_old_def)
    have "t_get (dead_by_id db1) j = Some c" if "(j, c) \<in> set xs" for j c
      using Cons.prems(1) [of j c] Cons.prems(2) that by (force simp: x db1_def put_dead_def)
    then obtain t where t: "foldl mark_dead_row db1 xs = db1\<lparr>dead_by_id := t\<rparr>" "t_ok t"
      and row: "\<And>j. decoded t j = dead db1 j \<or> decoded t j = map_option made_old (dead db1 j)"
      using Cons.IH [of db1, OF _ dist] Cons.prems(3) by (auto simp: db1_def put_dead_def)
    have "dead db i = Some d" using b by (simp add: decoded_def Blob)
    then have "decoded t j = dead db j \<or> decoded t j = map_option made_old (dead db j)" for j
      using row [of j] by (cases "j = i") (auto simp: db1_def put_dead_def made_old_def)
    with t step show ?thesis by (auto simp: db1_def put_dead_def)
  qed
qed

lemma mark_existing_dead_records_permanent_ok:
  assumes "t_ok (dead_by_id db)"
  obtains t where "mark_existing_dead_records_permanent db = db\<lparr>dead_by_id := t\<rparr>" "t_ok t"
    "\<And>j. decoded t j = dead db j \<or> decoded t j = map_option made_old (dead db j)"
  using mark_permanent_fold [of "t_iter (dead_by_id db)" db] assms
  by (auto simp: mark_existing_dead_records_permanent_def tab.entries_get tab.entries_distinct)

section \<open>The terminal index and the suppression table\<close>

text \<open>The database while the terminal tables are rebuilt, with the identities of \<open>ds\<close> processed.\<close>

definition rebuilding :: "string set \<Rightarrow> store_db \<Rightarrow> bool" where
  "rebuilding ds db \<longleftrightarrow> tables_ok db \<and> rows_ok db \<and> probe_inv (terminal_suppression_by_slot db) \<and>
     index_exact ready_entry (live db) (t_get (ready_by_dept_due db)) \<and>
     index_exact leased_entry (live db) (t_get (leased_by_dept_until db)) \<and>
     index_exact dead_time_entry (dead db) (t_get (dead_by_time db)) \<and>
     index_exact dead_due_entry (dead db) (t_get (dead_by_dept_due db)) \<and>
     index_exact terminal_entry (dead db |` ds) (t_get (terminal_dead_by_time db)) \<and>
     (\<forall>i d. i \<in> ds \<longrightarrow> dead db i = Some d \<longrightarrow> needs_suppression d \<longrightarrow> i \<in> suppressed db)"

lemma restrict_insert: "m |` insert i ds = (m |` ds)(i := m i)"
  by (auto simp: restrict_map_def fun_eq_iff)

lemma rebuilding_skip:
  assumes "rebuilding ds db" and "i \<notin> ds" and "\<And>d. dead db i = Some d \<Longrightarrow> \<not> is_terminal_dead_record d"
  shows "rebuilding (insert i ds) db"
proof -
  have "Option.bind (dead db i) (terminal_entry i) = None"
    using assms(3) by (cases "dead db i") (auto simp: terminal_entry_def)
  then have "index_exact terminal_entry ((dead db |` ds)(i := dead db i)) (t_get (terminal_dead_by_time db))"
    using assms(1,2) by (intro trm.exact_keep) (simp_all add: rebuilding_def)
  with assms show ?thesis by (auto simp: rebuilding_def restrict_insert needs_suppression_def)
qed

text \<open>Listing a terminal record, with its reuse flag possibly raised.\<close>

lemma rebuilding_list:
  assumes rb: "rebuilding ds db" and i: "i \<notin> ds" and d: "dead db i = Some d" "is_terminal_dead_record d"
    and d1: "d1 = d \<or> d1 = d\<lparr>allows_keyed_reuse := True\<rparr>"
    and db1: "db1 = terminal_ins (make_dead_due_index_key (dr_dept d) (dead_at_ms d) i) db"
    and db2: "db2 = db1 \<and> d1 = d \<or> db2 = put_dead i d1 db1"
    and run: "(if \<not> allows_keyed_reuse d1 then suppress_terminal_delivery i db2 else Inr db2) = Inr db'"
  shows "rebuilding (insert i ds) db' \<and> (\<forall>j. j \<noteq> i \<longrightarrow> t_get (dead_by_id db') j = t_get (dead_by_id db) j)"
proof -
  have dead2: "dead db2 = (dead db)(i \<mapsto> d1)" using db1 db2 d(1) by (auto simp: table_updates fun_upd_idem)
  have same: "delivery_by_id db2 = delivery_by_id db" "ready_by_dept_due db2 = ready_by_dept_due db"
    "leased_by_dept_until db2 = leased_by_dept_until db" "dead_by_time db2 = dead_by_time db"
    "dead_by_dept_due db2 = dead_by_dept_due db"
    "terminal_suppression_by_slot db2 = terminal_suppression_by_slot db"
    "t_get (terminal_dead_by_time db2) =
      (t_get (terminal_dead_by_time db))(make_dead_due_index_key (dr_dept d) (dead_at_ms d) i \<mapsto> ())"
    "j \<noteq> i \<Longrightarrow> t_get (dead_by_id db2) j = t_get (dead_by_id db) j" for j
    using db1 db2 by (auto simp: table_updates)
  have tabs: "tables_ok db2" using rb db1 db2 by (auto simp: rebuilding_def)
  have d1': "dead_ids_ok i d1" "is_terminal_dead_record d1" "dead_time_entry i d1 = dead_time_entry i d"
    "dead_due_entry i d1 = dead_due_entry i d"
    "terminal_entry i d1 = Some (make_dead_due_index_key (dr_dept d) (dead_at_ms d) i, ())"
    using rb d d1
    by (auto simp: rebuilding_def rows_ok_def dead_ids_ok_def is_terminal_dead_record_def dead_time_entry_def
        dead_due_entry_def should_index_dead_record_def terminal_entry_def)
  have "index_exact dead_time_entry (dead db2) (t_get (dead_by_time db2))"
    unfolding dead2 same using rb d d1' by (intro dtm.exact_keep) (simp_all add: rebuilding_def)
  moreover have "index_exact dead_due_entry (dead db2) (t_get (dead_by_dept_due db2))"
    unfolding dead2 same using rb d d1' by (intro ddu.exact_keep) (simp_all add: rebuilding_def)
  moreover have "index_exact terminal_entry (dead db2 |` insert i ds) (t_get (terminal_dead_by_time db2))"
  proof -
    have "dead db2 |` insert i ds = (dead db |` ds)(i \<mapsto> d1)"
      by (auto simp: dead2 restrict_map_def fun_eq_iff)
    then show ?thesis
      using trm.exact_add [of "dead db |` ds" "t_get (terminal_dead_by_time db)" i d1] rb i d1'(5)
      by (simp add: same rebuilding_def)
  qed
  moreover have "rows_ok db2"
    using rb d1'(1) by (auto simp: rebuilding_def rows_ok_def dead2 same)
  ultimately have base: "tables_ok db2 \<and> rows_ok db2 \<and>
     index_exact ready_entry (live db2) (t_get (ready_by_dept_due db2)) \<and>
     index_exact leased_entry (live db2) (t_get (leased_by_dept_until db2)) \<and>
     index_exact dead_time_entry (dead db2) (t_get (dead_by_time db2)) \<and>
     index_exact dead_due_entry (dead db2) (t_get (dead_by_dept_due db2)) \<and>
     index_exact terminal_entry (dead db2 |` insert i ds) (t_get (terminal_dead_by_time db2))"
    using rb tabs by (simp add: rebuilding_def same)
  have sup: "j \<in> suppressed db" if "j \<in> ds" "j \<noteq> i" "dead db2 j = Some e" "needs_suppression e" for j e
    using rb that by (auto simp: rebuilding_def dead2)
  have probe: "probe_inv (terminal_suppression_by_slot db2)" using rb by (simp add: rebuilding_def same)
  show ?thesis
  proof (cases "allows_keyed_reuse d1")
    case True
    with run have "db' = db2" by simp
    moreover have "j \<in> suppressed db2" if "j \<in> insert i ds" "dead db2 j = Some e" "needs_suppression e" for j e
      using sup [of j e] that True by (cases "j = i") (auto simp: dead2 needs_suppression_def same)
    ultimately show ?thesis using base probe same(8) by (auto simp: rebuilding_def)
  next
    case False
    with run obtain t where t: "db' = db2\<lparr>terminal_suppression_by_slot := t\<rparr>" "probe_inv t"
        "suppressed_ids t = insert i (suppressed db2)"
      using probe by (auto elim: suppress_terminal_deliveryE)
    moreover have "j \<in> suppressed db'" if "j \<in> insert i ds" "dead db' j = Some e" "needs_suppression e" for j e
      using sup [of j e] that t by (cases "j = i") (auto simp: same)
    ultimately show ?thesis using base same(8) by (auto simp: rebuilding_def tables_ok_def rows_ok_def)
  qed
qed

lemma rebuild_terminal_row:
  assumes rb: "rebuilding ds db" and i: "i \<notin> ds" and b: "t_get (dead_by_id db) i = Some b"
    and run: "rebuild_terminal_dead_row v db (i, b) = Inr db'"
  shows "rebuilding (insert i ds) db' \<and> (\<forall>j. j \<noteq> i \<longrightarrow> t_get (dead_by_id db') j = t_get (dead_by_id db) j)"
proof (cases "\<exists>d. b = Blob d \<and> is_terminal_dead_record d")
  case False
  then have "db' = db" using run by (cases b) (auto simp: rebuild_terminal_dead_row_def decode_dead_record_def)
  moreover have "\<not> is_terminal_dead_record d" if "dead db i = Some d" for d
    using False b that by (auto simp: decoded_def)
  ultimately show ?thesis using rebuilding_skip [OF rb i] by blast
next
  case True
  then obtain d where d: "b = Blob d" "is_terminal_dead_record d" by blast
  define db1 where "db1 = terminal_ins (make_dead_due_index_key (dr_dept d) (dead_at_ms d) i) db"
  from run d obtain lv where lv: "read_delivery_table (delivery_by_id db1) i = Inr lv"
    by (auto simp: rebuild_terminal_dead_row_def decode_dead_record_def Let_def db1_def)
  define grant where "grant \<longleftrightarrow> ((case lv of None \<Rightarrow> False | Some current \<Rightarrow> collapse_by_dedup_id current) \<or>
    v = Some 11 \<and> \<not> terminal_delivery_is_suppressed db1 i) \<and> \<not> allows_keyed_reuse d"
  define d1 where "d1 = (if grant then d\<lparr>allows_keyed_reuse := True\<rparr> else d)"
  define db2 where "db2 = (if grant then put_dead i d1 db1 else db1)"
  have "rebuild_terminal_dead_row v db (i, b) =
      (if \<not> allows_keyed_reuse d1 then suppress_terminal_delivery i db2 else Inr db2)"
    using d lv by (simp add: rebuild_terminal_dead_row_def decode_dead_record_def Let_def db1_def [symmetric]
        grant_def d1_def db2_def)
  with run have res: "(if \<not> allows_keyed_reuse d1 then suppress_terminal_delivery i db2 else Inr db2) = Inr db'" by simp
  have "dead db i = Some d" using b d(1) by (simp add: decoded_def)
  then show ?thesis
    by (rule rebuilding_list [OF rb i _ d(2) _ db1_def _ res]) (auto simp: d1_def db2_def)
qed

lemma rebuild_terminal_fold:
  assumes "fold_result (rebuild_terminal_dead_row v) db xs = Inr db'" and "rebuilding ds db"
    and "distinct (map fst xs)" and "\<And>i b. (i, b) \<in> set xs \<Longrightarrow> i \<notin> ds \<and> t_get (dead_by_id db) i = Some b"
  shows "rebuilding (ds \<union> fst ` set xs) db' \<and>
    (\<forall>j. j \<notin> fst ` set xs \<longrightarrow> t_get (dead_by_id db') j = t_get (dead_by_id db) j)"
  using assms
proof (induction xs arbitrary: db ds)
  case (Cons x xs)
  obtain i b where x: "x = (i, b)" by (cases x)
  from Cons.prems(1) obtain db1 where step: "rebuild_terminal_dead_row v db (i, b) = Inr db1"
    and rest: "fold_result (rebuild_terminal_dead_row v) db1 xs = Inr db'" by (auto simp: x)
  have row: "i \<notin> ds" "t_get (dead_by_id db) i = Some b" using Cons.prems(4) [of i b] by (simp_all add: x)
  from rebuild_terminal_row [OF Cons.prems(2) row step]
  have 1: "rebuilding (insert i ds) db1" "\<And>j. j \<noteq> i \<Longrightarrow> t_get (dead_by_id db1) j = t_get (dead_by_id db) j" by auto
  have "rebuilding (insert i ds \<union> fst ` set xs) db' \<and>
      (\<forall>j. j \<notin> fst ` set xs \<longrightarrow> t_get (dead_by_id db') j = t_get (dead_by_id db1) j)"
  proof (rule Cons.IH [OF rest 1(1)])
    show "distinct (map fst xs)" using Cons.prems(3) by simp
    show "j \<notin> insert i ds \<and> t_get (dead_by_id db1) j = Some c" if "(j, c) \<in> set xs" for j c
      using Cons.prems(3) Cons.prems(4) [of j c] 1(2) [of j] that by (force simp: x)
  qed
  with 1(2) show ?case by (auto simp: x)
qed simp

section \<open>The lineage index\<close>

definition lineage_build :: "(string \<Rightarrow> string) \<Rightarrow> (string \<Rightarrow> string option) \<Rightarrow>
    (lineage_id \<times> (delivery_record + dead_record)) list \<Rightarrow> (string \<Rightarrow> string option)" where
  "lineage_build b64 = foldl (\<lambda>idx (i, r). add_entry (lineage_entry b64 i r) idx)"

lemma lineage_build_live:
  "t_get (foldl (\<lambda>t r. insert_delivery_lineage_index b64 r t) t rs) =
     lineage_build b64 (t_get t) (map (\<lambda>r. (Inl (delivery_id r), Inl r)) rs)"
  "t_ok t \<Longrightarrow> t_ok (foldl (\<lambda>t r. insert_delivery_lineage_index b64 r t) t rs)"
proof (induction rs arbitrary: t)
  case Nil
  { case 1 show ?case by (simp add: lineage_build_def) next case 2 then show ?case by simp }
next
  case (Cons r rs)
  { case 1
    show ?case using Cons.IH(1) [of "insert_delivery_lineage_index b64 r t"]
      by (simp add: lineage_build_def t_get_lineage del: lineage_entry.simps)
  next
    case 2
    then show ?case using Cons.IH(2) by simp }
qed

lemma lineage_build_dead:
  "t_get (foldl (\<lambda>t d. insert_dead_lineage_index b64 d t) t ds) =
     lineage_build b64 (t_get t) (map (\<lambda>d. (Inr (dr_delivery_id d), Inr d)) ds)"
  "t_ok t \<Longrightarrow> t_ok (foldl (\<lambda>t d. insert_dead_lineage_index b64 d t) t ds)"
proof (induction ds arbitrary: t)
  case Nil
  { case 1 show ?case by (simp add: lineage_build_def) next case 2 then show ?case by simp }
next
  case (Cons d ds)
  { case 1
    show ?case using Cons.IH(1) [of "insert_dead_lineage_index b64 d t"]
      by (simp add: lineage_build_def t_get_lineage del: lineage_entry.simps)
  next
    case 2
    then show ?case using Cons.IH(2) by simp }
qed

lemma rows_of_snd: "List.map_filter (\<lambda>(i, b). decode b) xs = map snd (rows_of xs)"
  by (induction xs) (auto simp: List.map_filter_simps split: option.splits)

definition lineage_row_list ::
    "(string \<times> delivery_record) list \<Rightarrow> (string \<times> dead_record) list \<Rightarrow>
     (lineage_id \<times> (delivery_record + dead_record)) list" where
  "lineage_row_list ls ds = map (\<lambda>(i, r). (Inl i, Inl r)) ls @ map (\<lambda>(i, d). (Inr i, Inr d)) ds"

lemma map_of_tagged_live:
  "map_of (map (\<lambda>(i, r). (Inl i, Inl r)) ls) x = (case x of Inl i \<Rightarrow> map_option Inl (map_of ls i) | Inr i \<Rightarrow> None)"
  by (induction ls) (auto split: sum.splits)

lemma map_of_tagged_dead:
  "map_of (map (\<lambda>(i, d). (Inr i, Inr d)) ds) x = (case x of Inl i \<Rightarrow> None | Inr i \<Rightarrow> map_option Inr (map_of ds i))"
  by (induction ds) (auto split: sum.splits)

lemma map_of_lineage_row_list: "map_of (lineage_row_list ls ds) = lineage_rows (map_of ls) (map_of ds)"
  by (auto simp: lineage_row_list_def map_of_append map_add_def map_of_tagged_live map_of_tagged_dead lineage_rows_def fun_eq_iff
      split: sum.splits option.splits)

lemma distinct_lineage_row_list:
  assumes "distinct (map fst ls)" and "distinct (map fst ds)"
  shows "distinct (map fst (lineage_row_list ls ds))"
proof -
  have "map fst (lineage_row_list ls ds) = map Inl (map fst ls) @ map Inr (map fst ds)"
    by (auto simp: lineage_row_list_def)
  with assms show ?thesis by (auto simp: distinct_map simp del: map_map)
qed

lemma rebuild_lineage_index_ok:
  assumes seg: "segment_encoding b64" and tabs: "tables_ok db" and rows: "rows_ok db"
  obtains t where "rebuild_lineage_index b64 db = db\<lparr>lineage_by_source := t\<rparr>" "t_ok t"
    "lineage_exact b64 (live db) (dead db) t"
proof -
  define ls where "ls = rows_of (t_iter (delivery_by_id db))"
  define ds where "ds = rows_of (t_iter (dead_by_id db))"
  have ok: "t_ok (delivery_by_id db)" "t_ok (dead_by_id db)" using tabs by (simp_all add: tables_ok_def)
  have maps: "map_of ls = live db" "map_of ds = dead db"
    using ok by (simp_all add: ls_def ds_def map_of_rows_of)
  have dist: "distinct (map fst ls)" "distinct (map fst ds)"
    unfolding ls_def ds_def using ok by (simp_all add: distinct_rows_of tab.entries_distinct)
  have "delivery_id r = i" if "(i, r) \<in> set ls" for i r
    using rows map_of_is_SomeI [OF dist(1) that] by (simp add: maps rows_ok_def live_ids_ok_def)
  then have l: "map (\<lambda>r. (Inl (delivery_id r), Inl r)) (map snd ls) = map (\<lambda>(i, r). (Inl i, Inl r)) ls"
    by (auto simp: case_prod_beta)
  have "dr_delivery_id d = i" if "(i, d) \<in> set ds" for i d
    using rows map_of_is_SomeI [OF dist(2) that] by (simp add: maps rows_ok_def dead_ids_ok_def)
  then have d: "map (\<lambda>d. (Inr (dr_delivery_id d), Inr d)) (map snd ds) = map (\<lambda>(i, d). (Inr i, Inr d)) ds"
    by (auto simp: case_prod_beta)
  define t1 where "t1 = foldl (\<lambda>t r. insert_delivery_lineage_index b64 r t) t_empty (map snd ls)"
  define t2 where "t2 = foldl (\<lambda>t d. insert_dead_lineage_index b64 d t) t1 (map snd ds)"
  have eq: "rebuild_lineage_index b64 db = db\<lparr>lineage_by_source := t2\<rparr>"
    by (simp add: rebuild_lineage_index_def Let_def decode_dead_record_def rows_of_snd t1_def t2_def ls_def ds_def)
  have "t_get t2 = lineage_build b64 Map.empty (lineage_row_list ls ds)"
    unfolding t2_def lineage_build_dead t1_def lineage_build_live l d
    by (simp add: lineage_build_def lineage_row_list_def)
  then have "lineage_exact b64 (live db) (dead db) t2"
    using secondary_index.exact_build [OF lineage_secondary_index [OF seg]
        secondary_index.exact_empty [OF lineage_secondary_index [OF seg]] distinct_lineage_row_list [OF dist]]
    by (simp add: lineage_build_def map_of_lineage_row_list maps)
  moreover have "t_ok t2" unfolding t2_def t1_def by (intro lineage_build_dead(2) lineage_build_live(2)) simp
  ultimately show ?thesis using eq that by blast
qed

section \<open>Opening\<close>

lemma import_legacy_ok:
  assumes "fold_result (\<lambda>db i. suppress_terminal_delivery i db) db is = Inr db'"
    and "probe_inv (terminal_suppression_by_slot db)"
  shows "\<exists>t. db' = db\<lparr>terminal_suppression_by_slot := t\<rparr> \<and> probe_inv t \<and>
    suppressed_ids t = suppressed db \<union> set is"
  using assms
proof (induction "is" arbitrary: db)
  case Nil
  then show ?case by (intro exI [of _ "terminal_suppression_by_slot db"]) simp
next
  case (Cons i "is")
  from Cons.prems(1) obtain db1 where step: "suppress_terminal_delivery i db = Inr db1"
    and rest: "fold_result (\<lambda>db i. suppress_terminal_delivery i db) db1 is = Inr db'" by auto
  from step Cons.prems(2) obtain t where t: "db1 = db\<lparr>terminal_suppression_by_slot := t\<rparr>" "probe_inv t"
      "suppressed_ids t = insert i (suppressed db)" by (rule suppress_terminal_deliveryE)
  from Cons.IH [OF rest] t show ?case by auto
qed

text \<open>What a migration needs of the old database: its tables are tables, rows are stored under their
  identity, and the suppression table is one that linear probing built.\<close>

definition migratable :: "store_db \<Rightarrow> bool" where
  "migratable db \<longleftrightarrow> tables_ok db \<and> rows_ok db \<and> probe_inv (terminal_suppression_by_slot db)"

lemma store_inv_migratable: "store_inv b64 db \<Longrightarrow> migratable db"
  by (simp add: migratable_def store_invD)

lemma made_old_ids: "dead_ids_ok i d \<Longrightarrow> dead_ids_ok i (made_old d)"
  by (simp add: dead_ids_ok_def made_old_def)

lemma mark_if_old_ok:
  assumes mig: "migratable db" and "db' = db \<or> db' = mark_existing_dead_records_permanent db"
  shows "\<exists>t. db' = db\<lparr>dead_by_id := t\<rparr> \<and> migratable db'"
  using assms(2)
proof
  assume "db' = db"
  with mig show ?thesis by (intro exI [of _ "dead_by_id db"]) simp
next
  assume eq: "db' = mark_existing_dead_records_permanent db"
  have "t_ok (dead_by_id db)" using mig by (simp add: migratable_def tables_ok_def)
  then obtain t where t: "db' = db\<lparr>dead_by_id := t\<rparr>" "t_ok t"
      "\<And>j. decoded t j = dead db j \<or> decoded t j = map_option made_old (dead db j)"
    unfolding eq by (rule mark_existing_dead_records_permanent_ok) blast
  have "dead_ids_ok i d" if "decoded t i = Some d" for i d
    using mig that t(3) [of i] made_old_ids
    by (cases "dead db i") (auto simp: migratable_def rows_ok_def)
  with mig t show ?thesis by (auto simp: migratable_def tables_ok_def rows_ok_def)
qed

text \<open>The phases of a migration: the due indexes and the dead-letter indexes are rebuilt, then the
  terminal index and the suppression table, then the lineage index.\<close>

lemma rebuild_terminal_dead_tables_ok:
  assumes run: "rebuild_terminal_dead_tables db v = Inr db'"
    and rb: "rebuilding {} (db\<lparr>terminal_dead_by_time := t_empty\<rparr>)"
  shows "migratable db' \<and> dead_indexes_ok db' \<and> suppression_ok db' \<and>
    index_exact ready_entry (live db') (t_get (ready_by_dept_due db')) \<and>
    index_exact leased_entry (live db') (t_get (leased_by_dept_until db'))"
proof -
  have ok: "t_ok (dead_by_id db)" using rb by (simp add: rebuilding_def tables_ok_def)
  define ds where "ds = fst ` set (t_iter (dead_by_id db))"
  have "rebuilding ({} \<union> ds) db' \<and> (\<forall>j. j \<notin> ds \<longrightarrow> t_get (dead_by_id db') j =
      t_get (dead_by_id (db\<lparr>terminal_dead_by_time := t_empty\<rparr>)) j)"
    unfolding ds_def using ok
    by (intro rebuild_terminal_fold [OF run [unfolded rebuild_terminal_dead_tables_def] rb tab.entries_distinct])
      (auto simp: tab.entries_get)
  then have rb': "rebuilding ds db'" and out: "\<And>j. j \<notin> ds \<Longrightarrow> t_get (dead_by_id db') j = t_get (dead_by_id db) j"
    by auto
  have "t_get (dead_by_id db) j = None" if "j \<notin> ds" for j
    using that tab.entries_get [OF ok, of j] unfolding ds_def
    by (metis fst_conv image_eqI not_None_eq)
  with out have all: "j \<in> ds" if "dead db' j = Some d" for j d
    using that by (cases "j \<in> ds") (auto simp: decoded_def)
  then have "dead db' |` ds = dead db'"
    by (auto simp: restrict_map_def fun_eq_iff) (metis option.exhaust)
  with rb' all show ?thesis
    by (auto simp: rebuilding_def migratable_def dead_indexes_ok_def suppression_ok_def)
qed

lemma rebuild_dead_indexes_ok:
  assumes mig: "migratable db" and mark: "db1 = db \<or> db1 = mark_existing_dead_records_permanent db"
    and ex: "index_exact ready_entry (live db) (t_get (ready_by_dept_due db))"
      "index_exact leased_entry (live db) (t_get (leased_by_dept_until db))"
    and db2: "db2 = rebuild_dead_time_index (rebuild_dead_due_index db1)"
  shows "rebuilding {} (db2\<lparr>terminal_dead_by_time := t_empty\<rparr>)"
proof -
  from mark_if_old_ok [OF mig mark] obtain t where d1: "db1 = db\<lparr>dead_by_id := t\<rparr>" "migratable db1" by blast
  then have "t_ok (dead_by_id db1)" by (simp add: migratable_def tables_ok_def)
  then obtain u where u: "rebuild_dead_due_index db1 = db1\<lparr>dead_by_dept_due := u\<rparr>" "t_ok u"
      "index_exact dead_due_entry (dead db1) (t_get u)"
    by (rule rebuild_dead_due_index_ok)
  have "t_ok (dead_by_id (rebuild_dead_due_index db1))"
    using \<open>t_ok (dead_by_id db1)\<close> by (simp add: u(1))
  then obtain w where w: "db2 = (rebuild_dead_due_index db1)\<lparr>dead_by_time := w\<rparr>" "t_ok w"
      "index_exact dead_time_entry (dead (rebuild_dead_due_index db1)) (t_get w)"
    unfolding db2 by (rule rebuild_dead_time_index_ok)
  show ?thesis
    using ex d1 u w(2,3) trm.exact_empty
    by (simp add: rebuilding_def w(1) migratable_def tables_ok_def rows_ok_def restrict_map_def)
qed

lemma migrate_schema_inv:
  assumes seg: "segment_encoding (ext_b64 X)" and mig: "migratable db"
    and run: "migrate_schema X v db = Inr db'"
  shows "store_inv (ext_b64 X) db'"
proof -
  define db0 where "db0 = delete_old_global_indexes db"
  have mig0: "migratable db0"
    using mig by (simp add: db0_def delete_old_global_indexes_def migratable_def tables_ok_def rows_ok_def)
  define mark where "mark d = (case v of None \<Rightarrow> mark_existing_dead_records_permanent d
      | Some n \<Rightarrow> if n < 3 then mark_existing_dead_records_permanent d else d)" for d
  from run obtain db1 db4 db5 where r1: "rebuild_due_indexes db0 = Inr db1"
    and r4: "rebuild_terminal_dead_tables (rebuild_dead_time_index (rebuild_dead_due_index (mark db1))) v = Inr db4"
    and r5: "import_legacy_terminal_suppressed_ids db4 = Inr db5"
    and db': "db' = rebuild_lineage_index (ext_b64 X) (drop_legacy_terminal_suppression_filter
        (drop_legacy_terminal_suppressed_table db5))"
    by (auto simp: migrate_schema_def Let_def db0_def mark_def)
  have d1: "migratable db1" "index_exact ready_entry (live db1) (t_get (ready_by_dept_due db1))"
    "index_exact leased_entry (live db1) (t_get (leased_by_dept_until db1))"
    using rebuild_due_indexes_ok [OF r1] mig0 by (auto simp: migratable_def rows_ok_def)
  have "mark db1 = db1 \<or> mark db1 = mark_existing_dead_records_permanent db1"
    by (simp add: mark_def split: option.split)
  from rebuild_terminal_dead_tables_ok [OF r4 rebuild_dead_indexes_ok [OF d1(1) this d1(2,3) refl]]
  have core4: "migratable db4" "dead_indexes_ok db4" "suppression_ok db4"
    "index_exact ready_entry (live db4) (t_get (ready_by_dept_due db4))"
    "index_exact leased_entry (live db4) (t_get (leased_by_dept_until db4))" by auto
  from r5 core4(1) obtain s where s: "db5 = db4\<lparr>terminal_suppression_by_slot := s\<rparr>" "probe_inv s"
      "suppressed db4 \<subseteq> suppressed_ids s"
    using import_legacy_ok by (fastforce simp: import_legacy_terminal_suppressed_ids_def migratable_def)
  define db6 where "db6 = drop_legacy_terminal_suppression_filter (drop_legacy_terminal_suppressed_table db5)"
  have core6: "tables_ok db6" "rows_ok db6" "dead_indexes_ok db6" "suppression_ok db6"
    "index_exact ready_entry (live db6) (t_get (ready_by_dept_due db6))"
    "index_exact leased_entry (live db6) (t_get (leased_by_dept_until db6))"
    using core4 s
    by (auto simp: db6_def drop_legacy_terminal_suppression_filter_def drop_legacy_terminal_suppressed_table_def
        migratable_def tables_ok_def rows_ok_def dead_indexes_ok_def suppression_ok_def)
  obtain l where "rebuild_lineage_index (ext_b64 X) db6 = db6\<lparr>lineage_by_source := l\<rparr>" "t_ok l"
      "lineage_exact (ext_b64 X) (live db6) (dead db6) l"
    using rebuild_lineage_index_ok [OF seg core6(1,2)] .
  with core6 show ?thesis
    by (simp add: db' db6_def [symmetric] store_inv_def tables_ok_def rows_ok_def indexes_ok_def
        suppression_ok_def dead_indexes_ok_def)
qed

lemma open_store_inv:
  assumes seg: "segment_encoding (ext_b64 X)" and mig: "migratable db"
    and cur: "t_get (meta db) ''schema_version'' = Some SCHEMA_VERSION \<Longrightarrow> store_inv (ext_b64 X) db"
    and run: "open_store X db = Inr db'"
  shows "store_inv (ext_b64 X) db'"
proof -
  define v where "v = t_get (meta db) ''schema_version''"
  define db1 where "db1 = (if v = Some ''1'' then db\<lparr>dead_by_id := t_empty\<rparr> else db)"
  from run obtain db2 where db2: "(if v \<noteq> Some SCHEMA_VERSION
      then migrate_schema X (Option.bind v parse_u32) db1 else Inr db1) = Inr db2"
    and db': "db' = db2\<lparr>meta := t_insert ''schema_version'' SCHEMA_VERSION (meta db2)\<rparr>"
    by (auto simp: open_store_def Let_def v_def [symmetric] db1_def [symmetric] split: if_splits)
  have mig1: "migratable db1"
    using mig by (simp add: db1_def migratable_def tables_ok_def rows_ok_def)
  have "store_inv (ext_b64 X) db2"
  proof (cases "v = Some SCHEMA_VERSION")
    case True
    then have "db2 = db" using db2 by (simp add: db1_def SCHEMA_VERSION_def)
    with cur True show ?thesis by (simp add: v_def)
  next
    case False
    with db2 migrate_schema_inv [OF seg mig1] show ?thesis by simp
  qed
  then show ?thesis
    by (simp add: db' store_inv_def tables_ok_def rows_ok_def indexes_ok_def suppression_ok_def)
qed

end
