(* ===== verification/Transition_System.thy ===== *)
theory Transition_System
  imports Main
begin

text \<open>
  Labelled transition systems: reachable states, runs, and the contracts of an inductive invariant
  (\<open>inductive_invariant\<close>) and of a relation that composes (\<open>composing_moves\<close>). The delivery store and
  the consumer are instances.
\<close>

inductive reach :: "('s \<Rightarrow> bool) \<Rightarrow> ('l \<Rightarrow> 's \<Rightarrow> 's \<Rightarrow> bool) \<Rightarrow> 's \<Rightarrow> bool"
  for init :: "'s \<Rightarrow> bool" and step :: "'l \<Rightarrow> 's \<Rightarrow> 's \<Rightarrow> bool" where
  reach_init: "init s \<Longrightarrow> reach init step s"
| reach_step: "reach init step s \<Longrightarrow> step l s s' \<Longrightarrow> reach init step s'"

inductive run :: "('l \<Rightarrow> 's \<Rightarrow> 's \<Rightarrow> bool) \<Rightarrow> 's \<Rightarrow> 'l list \<Rightarrow> 's \<Rightarrow> bool"
  for step :: "'l \<Rightarrow> 's \<Rightarrow> 's \<Rightarrow> bool" where
  run_Nil: "run step s [] s"
| run_Cons: "step l s s' \<Longrightarrow> run step s' ls s'' \<Longrightarrow> run step s (l # ls) s''"

inductive_cases run_NilE [elim!]: "run step s [] s'"
inductive_cases run_ConsE [elim!]: "run step s (l # ls) s'"

lemma reach_run:
  assumes "run step s ls s'" and "reach init step s"
  shows "reach init step s'"
  using assms by (induction rule: run.induct) (auto intro: reach_step)

lemma run_append: "run step s ls t \<Longrightarrow> run step t ks u \<Longrightarrow> run step s (ls @ ks) u"
  by (induction rule: run.induct) (auto intro: run.intros)

lemma run_single: "step l s s' \<Longrightarrow> run step s [l] s'"
  by (auto intro: run.intros)

text \<open>A relation between states that is reflexive and composes also relates the ends of a loop whose turns
  respect it.\<close>

locale composing_moves =
  fixes moves :: "'s \<Rightarrow> 's \<Rightarrow> bool"
  assumes moves_refl: "moves s s"
    and moves_trans: "moves a b \<Longrightarrow> moves b c \<Longrightarrow> moves a c"
begin

lemma foldl_moves: "(\<And>s x. moves s (f s x)) \<Longrightarrow> moves s (foldl f s xs)"
  by (induction xs arbitrary: s) (auto intro: moves_refl moves_trans)

end

locale inductive_invariant =
  fixes init :: "'s \<Rightarrow> bool"
    and step :: "'l \<Rightarrow> 's \<Rightarrow> 's \<Rightarrow> bool"
    and inv :: "'s \<Rightarrow> bool"
  assumes init_inv: "init s \<Longrightarrow> inv s"
    and step_inv: "inv s \<Longrightarrow> step l s s' \<Longrightarrow> inv s'"
begin

lemma reach_inv: "reach init step s \<Longrightarrow> inv s"
  by (induction rule: reach.induct) (auto intro: init_inv step_inv)

lemma run_inv: "run step s ls s' \<Longrightarrow> inv s \<Longrightarrow> inv s'"
  by (induction rule: run.induct) (auto intro: step_inv)

text \<open>A relation between states that every step from a good state respects, and that composes, holds
  between the ends of a run.\<close>

lemma run_rel:
  assumes "run step s ls s'" and "inv s"
    and "\<And>s. R s s" and "\<And>a b c. R a b \<Longrightarrow> R b c \<Longrightarrow> R a c"
    and "\<And>l a b. l \<in> set ls \<Longrightarrow> inv a \<Longrightarrow> step l a b \<Longrightarrow> R a b"
  shows "R s s'"
  using assms
proof (induction rule: run.induct)
  case (run_Cons l s s' ls s'')
  have "R s s'" by (rule run_Cons.prems(4) [OF _ run_Cons.prems(1) run_Cons.hyps(1)]) simp
  moreover have "R s' s''"
  proof (rule run_Cons.IH [OF step_inv [OF run_Cons.prems(1) run_Cons.hyps(1)] run_Cons.prems(2,3)])
    show "R a b" if "k \<in> set ls" "inv a" "step k a b" for k a b
      using that by (intro run_Cons.prems(4) [of k]) simp_all
  qed
  ultimately show ?case by (rule run_Cons.prems(3))
qed

end

end
