(* ===== verification/Store_Machine.thy ===== *)
theory Store_Machine
  imports Store_Migration Transition_System
begin

text \<open>
  The delivery store as a labelled transition system: the states are databases, the initial states
  are opened databases, and a step is one successful call. The invariant of the store holds in every
  reachable state. The lemmas on \<open>held\<close> say what may happen to a delivery in one step.
\<close>

section \<open>Steps\<close>

datatype store_label =
    LEnqueue delivery_record enqueue_outcome
  | LLease "u64" "string option" "delivery_record list"
  | LRenew "delivery_record table"
  | LAck string u64 bool
  | LDefer string u64 lock_busy_defer_outcome
  | LRetry string u64 u64 retry_outcome
  | LRebind "rebound_delivery list"
  | LSweep u64 subscriber_absent_sweep
  | LRedrive u64 redrive_result

inductive store_step :: "externs \<Rightarrow> store_label \<Rightarrow> store_db \<Rightarrow> store_db \<Rightarrow> bool" for X :: externs where
  step_enqueue: "fresh_record r \<Longrightarrow> enqueue X r db = Inr (db', oc) \<Longrightarrow> store_step X (LEnqueue r oc) db db'"
| step_lease: "lease_matching now_ms limit dur dpt excluded db = Inr (db', rs) \<Longrightarrow>
    store_step X (LLease now_ms dpt rs) db db'"
| step_next_due: "next_due_deterministic now_ms dur db = Inr (db', Some r) \<Longrightarrow>
    store_step X (LLease now_ms None [r]) db db'"
| step_renew: "renew_leases renewals lease_until db = Inr (db', applied) \<Longrightarrow> store_step X (LRenew applied) db db'"
| step_ack: "ack X i gen db = Inr (db', ok) \<Longrightarrow> store_step X (LAck i gen ok) db db'"
| step_defer: "defer_lock_busy X i gen lock policy now_ms db = Inr (db', oc') \<Longrightarrow>
    store_step X (LDefer i gen oc') db db'"
| step_retry: "retry X i gen failure policy now_ms db = Inr (db', out) \<Longrightarrow>
    store_step X (LRetry i gen now_ms out) db db'"
| step_rebind: "rebind_deliveries_to_current_subscribers X m db = (db', rb) \<Longrightarrow> store_step X (LRebind rb) db db'"
| step_sweep: "sweep_subscriber_absence X queues now_ms budget limit db = Inr (db', sw) \<Longrightarrow>
    store_step X (LSweep now_ms sw) db db'"
| step_redrive: "redrive_due_inner X rpolicy depts now_ms limit db = Inr (db', res) \<Longrightarrow>
    store_step X (LRedrive now_ms res) db db'"

inductive_cases store_stepE: "store_step X l db db'"

text \<open>An opened database, from nothing, from an older schema, or from the store itself.\<close>

definition opened :: "externs \<Rightarrow> store_db \<Rightarrow> bool" where
  "opened X db \<longleftrightarrow> (\<exists>db0. migratable db0 \<and>
     (t_get (meta db0) ''schema_version'' = Some SCHEMA_VERSION \<longrightarrow> store_inv (ext_b64 X) db0) \<and>
     open_store X db0 = Inr db)"

lemma store_step_inv:
  assumes "segment_encoding (ext_b64 X)" and "store_inv (ext_b64 X) db" and "store_step X l db db'"
  shows "store_inv (ext_b64 X) db'"
  using assms(3) enqueue_inv [OF assms(1,2)] lease_matching_inv [OF assms(1,2)]
    next_due_deterministic_inv [OF assms(1,2)] renew_leases_inv [OF assms(1,2)] ack_inv [OF assms(1,2)]
    defer_lock_busy_inv [OF assms(1,2)] retry_inv [OF assms(1,2)] rebind_inv [OF assms(1,2)]
    sweep_inv [OF assms(1,2)] redrive_due_inner_inv [OF assms(1,2)]
  by (cases rule: store_step.cases) blast+

text \<open>The system for externs whose segment encoding is a proper one.\<close>

definition store_init :: "externs \<Rightarrow> store_db \<Rightarrow> bool" where
  "store_init X db \<longleftrightarrow> segment_encoding (ext_b64 X) \<and> opened X db"

definition machine_inv :: "externs \<Rightarrow> store_db \<Rightarrow> bool" where
  "machine_inv X db \<longleftrightarrow> segment_encoding (ext_b64 X) \<and> store_inv (ext_b64 X) db"

interpretation machine: inductive_invariant "store_init X" "store_step X" "machine_inv X" for X
proof
  show "machine_inv X db" if "store_init X db" for db
    using that open_store_inv by (auto simp: store_init_def opened_def machine_inv_def)
  show "machine_inv X db'" if "machine_inv X db" and "store_step X l db db'" for l db db'
    using that store_step_inv by (auto simp: machine_inv_def)
qed

section \<open>What a step does to the deliveries\<close>

definition held :: "store_db \<Rightarrow> string set" where
  "held db = dom (live db) \<union> dom (dead db)"

definition retired :: "u64 \<Rightarrow> string \<Rightarrow> store_db \<Rightarrow> bool" where
  "retired now_ms i db \<longleftrightarrow>
     (\<exists>d c. dead db i = Some d \<and> retention_cutoff now_ms = Some c \<and> dead_at_ms d \<le> c)"

lemma retention_cutoff_less: "retention_cutoff now_ms = Some c \<Longrightarrow> c < now_ms"
proof -
  assume "retention_cutoff now_ms = Some c"
  then have "TERMINAL_DEAD_RETENTION_MS \<le> now_ms" and "c = now_ms - TERMINAL_DEAD_RETENTION_MS"
    by (auto simp: retention_cutoff_def split: if_splits)
  then show ?thesis
    by (simp add: TERMINAL_DEAD_RETENTION_MS_def word_less_nat_alt word_le_nat_alt unat_sub)
qed

lemma held_iff: "i \<in> held db \<longleftrightarrow> live db i \<noteq> None \<or> dead db i \<noteq> None"
  by (auto simp: held_def)

lemma held_compacted:
  assumes "compacted_to (retention_cutoff now_ms) db db'" and "i \<in> held db"
  shows "i \<in> held db' \<or> retired now_ms i db"
proof -
  have "live db' = live db" using assms(1) by (simp add: compacted_to_def live_side_same_def)
  moreover have "dead db' i = dead db i \<or> retired now_ms i db"
    using assms(1) unfolding compacted_to_def retired_def by blast
  ultimately show ?thesis using assms(2) by (auto simp: held_iff)
qed

text \<open>Compacting a database in which dead records are either old ones or were made just now.\<close>

lemma held_then_compacted:
  assumes "i \<in> held db1" and "compacted_to (retention_cutoff now_ms) db1 db'"
    and "\<And>d. dead db1 i = Some d \<Longrightarrow> dead_at_ms d = now_ms \<or> (\<exists>d0. dead db i = Some d0 \<and> dead_at_ms d0 = dead_at_ms d)"
  shows "i \<in> held db' \<or> retired now_ms i db"
proof -
  have "i \<in> held db' \<or> retired now_ms i db1" using held_compacted assms(1,2) by blast
  then show ?thesis
  proof
    assume "retired now_ms i db1"
    then obtain d c where d: "dead db1 i = Some d" "retention_cutoff now_ms = Some c" "dead_at_ms d \<le> c"
      by (auto simp: retired_def)
    then have "dead_at_ms d \<noteq> now_ms" using retention_cutoff_less by fastforce
    with assms(3) d show ?thesis by (fastforce simp: retired_def)
  qed simp
qed

lemma enqueue_held:
  assumes seg: "segment_encoding (ext_b64 X)" and inv: "store_inv (ext_b64 X) db"
    and run: "enqueue X r db = Inr (db', oc)" and i: "i \<in> held db"
  shows "i \<in> held db' \<or> retired (observed_at_ms r) i db"
  using run
proof (cases rule: enqueue_cases)
  case (collapse c)
  have "dead (enqueue_collapse c r db) = dead db" "i \<in> dom (live db) \<Longrightarrow> i \<in> dom (live (enqueue_collapse c r db))"
    by (auto simp: enqueue_collapse_def table_updates split: option.splits)
  with i collapse show ?thesis by (auto simp: held_def)
next
  case (duplicate c)
  with i show ?thesis by simp
next
  case (suppressed n)
  with compact_inv(2) [OF seg inv] held_compacted i show ?thesis by blast
next
  case (fresh db1 n)
  have "i \<in> held db1 \<or> retired (observed_at_ms r) i db"
    using compact_inv(2) [OF seg inv fresh(2)] held_compacted i by blast
  then show ?thesis using fresh(5) by (auto simp: held_def table_updates)
qed

text \<open>Leasing, renewing and rebinding keep the rows of both sides.\<close>

definition rows_kept :: "store_db \<Rightarrow> store_db \<Rightarrow> bool" where
  "rows_kept db db' \<longleftrightarrow> dom (live db') = dom (live db) \<and> dead db' = dead db \<and>
     terminal_suppression_by_slot db' = terminal_suppression_by_slot db"

lemma rows_kept_refl [simp]: "rows_kept db db"
  by (simp add: rows_kept_def)

lemma rows_kept_trans: "rows_kept a b \<Longrightarrow> rows_kept b c \<Longrightarrow> rows_kept a c"
  by (simp add: rows_kept_def)

lemma rows_kept_held: "rows_kept db db' \<Longrightarrow> held db' = held db"
  by (simp add: rows_kept_def held_def)

lemma lease_key_kept:
  assumes "lease_key p now_ms lease_until dpt excluded expired db = Inr (db', oc)"
  shows "rows_kept db db'"
  using assms
proof (cases rule: lease_key_cases)
  case (taken r)
  then show ?thesis
    by (cases "lease_until_ms r") (auto simp: rows_kept_def lease_key_take_eq table_updates)
qed (auto simp: rows_kept_def table_updates)

lemma lease_keys_kept:
  "lease_keys limit now_ms lease_until dpt excluded expired (db, leased, mutated) keys = Inr (db', leased', mutated') \<Longrightarrow>
   rows_kept db db'"
proof (induction keys arbitrary: db leased mutated)
  case (Cons p keys)
  then show ?case
    by (auto split: if_splits dest!: lease_key_kept intro: rows_kept_trans)
qed simp

lemma lease_matching_kept:
  assumes "lease_matching now_ms limit dur dpt excluded db = Inr (db', rs)"
  shows "rows_kept db db'"
  using assms
  by (auto simp: lease_matching_def Let_def split: if_splits dest!: lease_keys_kept)
    (blast intro: rows_kept_trans)+

lemma next_due_kept:
  assumes "next_due_deterministic now_ms dur db = Inr (db', res)"
  shows "rows_kept db db'"
proof -
  have "rows_kept db db'" if "lease_delivery i now_ms dur db = Inr (db', res)" for i
    using that by (cases rule: lease_delivery_cases) (auto simp: rows_kept_def table_updates)
  with assms show ?thesis by (auto simp: next_due_deterministic_def split: list.splits)
qed

lemma renew_leases_kept:
  assumes "renew_leases renewals lease_until db = Inr (db', applied)"
  shows "rows_kept db db'"
proof -
  have step: "rows_kept d d'" if "renew_one lease_until (d, a) (i, g) = Inr (d', a')" for d a i g d' a'
    using that by (cases rule: renew_one_cases) (auto simp: rows_kept_def table_updates)
  have "rows_kept db (fst st)" if "fold_result (renew_one lease_until) (db, t_empty) renewals = Inr st" for st
    using that by (rule fold_result_inv [where P = "\<lambda>st. rows_kept db (fst st)"])
      (use step in \<open>auto intro: rows_kept_trans\<close>)
  with assms show ?thesis by (force simp: renew_leases_def split: if_splits)
qed

lemma rebind_kept:
  assumes inv: "store_inv b64 db" and run: "rebind_deliveries_to_current_subscribers X m db = (db', rb)"
  shows "rows_kept db db'"
proof -
  have ok: "t_ok (delivery_by_id db)" using store_invD(1) [OF inv] by (simp add: tables_ok_def)
  have "rows_kept db (foldl (rebind_one X) db cs)" if "\<And>c. c \<in> set cs \<Longrightarrow> fst c \<in> dom (live db)" for cs
    using that
  proof (induction cs rule: rev_induct)
    case (snoc c cs)
    obtain i r nd where c: "c = (i, r, nd)" by (cases c)
    have kept: "rows_kept db (foldl (rebind_one X) db cs)" using snoc by simp
    moreover have "i \<in> dom (live db)" using snoc.prems [of c] by (simp add: c)
    ultimately show ?case
      using rebind_one_live [where X = X and db = "foldl (rebind_one X) db cs" and i = i and r = r and nd = nd]
      by (auto simp: c rows_kept_def dead_side_same_def)
  qed simp
  moreover have "fst c \<in> dom (live db)" if "c \<in> set (rebind_candidates m db)" for c
    using that rebind_candidates_rows(1) [OF _ ok, of "fst c" "fst (snd c)" "snd (snd c)"] by auto
  ultimately have "rows_kept db (foldl (rebind_one X) db (rebind_candidates m db))" by blast
  with run show ?thesis
    by (auto simp: rebind_deliveries_to_current_subscribers_def Let_def split: if_splits)
qed

lemma ack_held:
  assumes "ack X i gen db = Inr (db', ok)"
  shows "held db - (if ok then {i} else {}) \<subseteq> held db'" and "\<not> ok \<Longrightarrow> db' = db"
  using assms by (cases rule: ack_cases; auto simp: held_def table_updates)+

lemma defer_held:
  assumes "defer_lock_busy X i gen lock policy now_ms db = Inr (db', oc)"
  shows "held db \<subseteq> held db'"
  using assms by (cases rule: defer_lock_busy_cases) (auto simp: held_def table_updates)

text \<open>Retrying, sweeping and redriving move deliveries between the sides; a dead record they leave was
  there before or is dated now.\<close>

definition moved :: "u64 \<Rightarrow> store_db \<Rightarrow> store_db \<Rightarrow> bool" where
  "moved now_ms db db1 \<longleftrightarrow> held db \<subseteq> held db1 \<and>
     (\<forall>i d. dead db1 i = Some d \<longrightarrow> dead_at_ms d = now_ms \<or>
        (\<exists>d0. dead db i = Some d0 \<and> dead_at_ms d0 = dead_at_ms d))"

lemma moved_refl [simp]: "moved now_ms db db"
  by (simp add: moved_def)

lemma moved_trans:
  assumes "moved now_ms a b" and "moved now_ms b c"
  shows "moved now_ms a c"
  using assms unfolding moved_def by (metis order_trans)

lemma moved_compacted:
  assumes "moved now_ms db db1" and "compacted_to (retention_cutoff now_ms) db1 db'" and "i \<in> held db"
  shows "i \<in> held db' \<or> retired now_ms i db"
  using assms by (intro held_then_compacted [of i db1]) (auto simp: moved_def)

lemma retry_exhausted_rows:
  assumes inv: "store_inv (ext_b64 X) db"
    and run: "retry_exhausted X i failure now_ms r (leased_rem k db) = Inr (db', oc)"
  shows "\<exists>d. dead db' = (dead db)(i \<mapsto> d) \<and> dead_at_ms d = now_ms \<and> suppressed db \<subseteq> suppressed db' \<and>
    (live db' = (live db)(i := None) \<or> (\<exists>r'. live db' = (live db)(i \<mapsto> r')))"
proof -
  note bt = bury_tables [OF inv refl refl refl, where k = k and i = i and r = r]
  show ?thesis
    using run refl
  proof (cases rule: retry_exhausted_cases)
    case (replay d)
    then show ?thesis using bt(1,2,9) [of d] by (auto simp: table_updates intro!: exI [of _ d])
  next
    case (follow_up d r')
    then show ?thesis using bt(1,2,9) [of d] by (auto simp: table_updates intro!: exI [of _ d])
  next
    case (terminal d db1)
    let ?b = "terminal_ins (make_dead_due_index_key (dept r) now_ms i) (bury X i d r (leased_rem k db))"
    have "probe_inv (terminal_suppression_by_slot ?b)"
      using bt(9) [of d] store_invD(5) [OF inv] by (simp add: terminal_ins_def)
    with terminal(5) obtain t where "db1 = ?b\<lparr>terminal_suppression_by_slot := t\<rparr>"
        "suppressed_ids t = insert i (suppressed ?b)"
      by (rule suppress_terminal_deliveryE)
    then show ?thesis using terminal(4,6) bt(1,2,9) [of d] by (auto simp: table_updates intro!: exI [of _ d])
  qed
qed

lemma retry_held:
  assumes seg: "segment_encoding (ext_b64 X)" and inv: "store_inv (ext_b64 X) db"
    and run: "retry X j gen failure policy now_ms db = Inr (db', oc)" and i: "i \<in> held db"
  shows "i \<in> held db' \<or> retired now_ms i db"
  using run
proof (cases rule: retry_cases)
  case (unleased r)
  with i show ?thesis by simp
next
  case (missing n)
  with compact_inv(2) [OF seg inv] held_compacted i show ?thesis by blast
next
  case (stale r u n)
  with compact_inv(2) [OF seg inv] held_compacted i show ?thesis by blast
next
  case (exhausted r u db1 n)
  from retry_exhausted_rows [OF inv exhausted(5)] have "moved now_ms db db1"
    by (auto simp: moved_def held_iff split: if_splits)
  moreover have "store_inv (ext_b64 X) db1"
    using retry_exhausted_inv [OF seg inv exhausted(1,2) refl exhausted(5)] .
  ultimately show ?thesis using moved_compacted compact_inv(2) [OF seg _ exhausted(6)] i by blast
next
  case (rescheduled r u due r' db1 n)
  have "store_inv (ext_b64 X) db1"
    using rescheduled(7) by (intro release_lease_inv [OF seg inv rescheduled(1,2) _ _ _ rescheduled(8)]) simp_all
  moreover have "moved now_ms db db1"
    using rescheduled(8) by (auto simp: moved_def held_iff table_updates)
  ultimately show ?thesis using moved_compacted compact_inv(2) [OF seg _ rescheduled(9)] i by blast
qed

lemma sweep_one_moved:
  assumes inv: "store_inv (ext_b64 X) db" and run: "sweep_one X queues now_ms budget_ms (db, sw) i = Inr (db', sw')"
  shows "moved now_ms db db'"
  using run
proof (cases rule: sweep_one_cases)
  case (buried r since d)
  from sweep_dead_letter_rows [OF buried(5) inv] show ?thesis
    by (auto simp: moved_def held_iff split: if_splits)
qed (auto simp: moved_def held_iff table_updates split: if_splits)

lemma sweep_held:
  assumes seg: "segment_encoding (ext_b64 X)" and inv: "store_inv (ext_b64 X) db"
    and run: "sweep_subscriber_absence X queues now_ms budget limit db = Inr (db', sw)" and i: "i \<in> held db"
  shows "i \<in> held db' \<or> retired now_ms i db"
  using run
proof (cases rule: sweep_cases)
  case same
  with i show ?thesis by simp
next
  case (swept db1 n)
  let ?P = "\<lambda>st. store_inv (ext_b64 X) (fst st) \<and> moved now_ms db (fst st)"
  have "?P (db1, sw)"
    using swept(1)
  proof (rule fold_result_inv [where P = ?P])
    show "?P (db, empty_sweep)" using inv by simp
    show "?P s'" if step: "sweep_one X queues now_ms (duration_millis budget) s j = Inr s'" and P: "?P s" for s j s'
    proof -
      obtain a w b w' where s: "s = (a, w)" "s' = (b, w')" by (cases s; cases s')
      have inv_a: "store_inv (ext_b64 X) a" and "moved now_ms db a" using P by (simp_all add: s)
      then show ?thesis
        using sweep_one_inv [OF seg inv_a step [unfolded s]] sweep_one_moved [OF inv_a step [unfolded s]]
        by (simp add: s) (rule moved_trans)
    qed
  qed
  then show ?thesis using moved_compacted [OF _ compact_inv(2) [OF seg _ swept(2)] i] by simp
qed

lemma redrive_effect_moved: "redrive_effect i db res db' res' \<Longrightarrow> moved now_ms db db'"
  unfolding redrive_effect_def
  by (elim disjE conjE exE)
    (auto simp: rows_same_def made_permanent_def revived_def moved_def held_iff split: if_splits)

lemma redrive_held:
  assumes seg: "segment_encoding (ext_b64 X)" and inv: "store_inv (ext_b64 X) db"
    and run: "redrive_due_inner X policy depts now_ms limit db = Inr (db', res)" and i: "i \<in> held db"
  shows "i \<in> held db' \<or> retired now_ms i db"
  using run
proof (cases rule: redrive_due_inner_cases)
  case same
  with i show ?thesis by simp
next
  case (driven ps db1 m n)
  have "store_inv (ext_b64 X) b \<and> moved now_ms a b"
    if "fold_result (redrive_key X policy depts now_ms) (a, q, k) ks = Inr (b, q', k')"
      "store_inv (ext_b64 X) a" "\<And>p. p \<in> set ks \<Longrightarrow> dead_key_wf p \<and> dead_due_key_current a p" for a q k ks b q' k'
    using that
  proof (induction ks arbitrary: a q k)
    case (Cons p ks)
    from Cons.prems(1) obtain a1 q1 k1 where step: "redrive_key X policy depts now_ms (a, q, k) p = Inr (a1, q1, k1)"
      and rest: "fold_result (redrive_key X policy depts now_ms) (a1, q1, k1) ks = Inr (b, q', k')" by auto
    have 1: "store_inv (ext_b64 X) a1" "redrive_effect (ikey_id p) a q a1 q1"
      using redrive_key_inv [OF seg Cons.prems(2) _ _ step] Cons.prems(3) by auto
    have "store_inv (ext_b64 X) b \<and> moved now_ms a1 b"
      using Cons.IH [OF rest 1(1)] Cons.prems(3) redrive_effect_current [OF 1(2)] by auto
    with redrive_effect_moved [OF 1(2)] show ?case by (blast intro: moved_trans)
  qed simp
  from this [OF driven(2) inv] have "store_inv (ext_b64 X) db1 \<and> moved now_ms db db1"
    using collect_due_dead_current [OF inv driven(1)] by blast
  then show ?thesis using moved_compacted compact_inv(2) [OF seg _ driven(3)] i by blast
qed

text \<open>The time at which a step compacts, if it does.\<close>

fun label_time :: "store_label \<Rightarrow> u64" where
  "label_time (LEnqueue r oc) = observed_at_ms r"
| "label_time (LRetry i gen now_ms oc) = now_ms"
| "label_time (LSweep now_ms sw) = now_ms"
| "label_time (LRedrive now_ms res) = now_ms"
| "label_time _ = 0"

lemma store_step_held:
  assumes m: "machine_inv X db" and step: "store_step X l db db'" and i: "i \<in> held db"
  shows "i \<in> held db' \<or> (\<exists>gen. l = LAck i gen True) \<or> retired (label_time l) i db"
proof -
  have seg: "segment_encoding (ext_b64 X)" and inv: "store_inv (ext_b64 X) db" using m by (auto simp: machine_inv_def)
  show ?thesis
    using step
  proof (cases rule: store_step.cases)
    case (step_enqueue r oc)
    then show ?thesis using enqueue_held [OF seg inv _ i] by auto
  next
    case (step_ack j gen ok)
    then show ?thesis using ack_held [of X j gen db db' ok] i by (auto split: if_splits)
  next
    case (step_defer j gen lock policy now_ms oc)
    then show ?thesis using defer_held i by blast
  next
    case (step_retry j gen failure policy now_ms oc)
    then show ?thesis using retry_held [OF seg inv _ i] by auto
  next
    case (step_sweep queues now_ms budget limit sw)
    then show ?thesis using sweep_held [OF seg inv _ i] by auto
  next
    case (step_redrive policy depts now_ms limit res)
    then show ?thesis using redrive_held [OF seg inv _ i] by auto
  next
    case (step_rebind m rb)
    then show ?thesis using rows_kept_held [OF rebind_kept [OF inv]] i by blast
  next
    case step_lease
    then show ?thesis using rows_kept_held [OF lease_matching_kept] i by blast
  next
    case step_next_due
    then show ?thesis using rows_kept_held [OF next_due_kept] i by blast
  next
    case step_renew
    then show ?thesis using rows_kept_held [OF renew_leases_kept] i by blast
  qed
qed

end
