(* ===== verification/Store_Lease_Spec.thy ===== *)
theory Store_Lease_Spec
  imports Store_Machine
begin

text \<open>
  What a batch lease returns: which rows, how they change, that it never fails on a consistent
  database, that it finds a due delivery behind excluded ones, and that a running lease is left
  alone.
\<close>

section \<open>The result of a batch\<close>

text \<open>A row that may be leased: a ready one that is due, or one whose lease has run out.\<close>

definition leasable :: "u64 \<Rightarrow> delivery_record \<Rightarrow> bool" where
  "leasable now_ms r \<longleftrightarrow>
     (case lease_until_ms r of None \<Rightarrow> not_before_ms r \<le> now_ms | Some u \<Rightarrow> u \<le> now_ms)"

text \<open>The rows \<open>rs\<close> were leased between \<open>db\<close> and \<open>db'\<close>.\<close>

definition leased_between ::
    "u64 \<Rightarrow> u64 \<Rightarrow> string option \<Rightarrow> string set \<Rightarrow> store_db \<Rightarrow> delivery_record list \<Rightarrow> store_db \<Rightarrow> bool" where
  "leased_between now_ms lease_until dpt excluded db rs db' \<longleftrightarrow>
     distinct (map delivery_id rs) \<and>
     (\<forall>r' \<in> set rs. \<exists>r. live db (delivery_id r') = Some r \<and> leasable now_ms r \<and>
        r' = leased_record lease_until r \<and> delivery_id r' \<notin> excluded \<and> (\<forall>d. dpt = Some d \<longrightarrow> dept r = d)) \<and>
     live db' = live db ++ map_of (map (\<lambda>r. (delivery_id r, r)) rs)"

lemma leased_record_id [simp]: "delivery_id (leased_record u r) = delivery_id r"
  by (simp add: leased_record_def)

lemma leased_between_Nil: "leased_between now_ms u dpt excluded db [] db' \<longleftrightarrow> live db' = live db"
  by (simp add: leased_between_def)

lemma map_of_ids_None: "i \<notin> delivery_id ` set rs \<Longrightarrow> map_of (map (\<lambda>r. (delivery_id r, r)) rs) i = None"
  by (induction rs) auto

lemma leased_between_row:
  assumes "leased_between now_ms u dpt excluded db rs db'" and "r' \<in> set rs"
  shows "live db' (delivery_id r') = Some r' \<and>
    (\<exists>r. live db (delivery_id r') = Some r \<and> leasable now_ms r \<and> r' = leased_record u r)"
proof -
  have "distinct (map fst (map (\<lambda>r. (delivery_id r, r)) rs))"
    using assms(1) by (simp add: leased_between_def comp_def)
  then have "map_of (map (\<lambda>r. (delivery_id r, r)) rs) (delivery_id r') = Some r'"
    using assms(2) by (intro map_of_is_SomeI) auto
  with assms show ?thesis by (auto simp: leased_between_def map_add_def)
qed

lemma leased_between_snoc:
  assumes "leased_between now_ms u dpt excluded db rs db1"
    and "live db i = Some r" "delivery_id r = i" "i \<notin> delivery_id ` set rs" "leasable now_ms r" "i \<notin> excluded"
      "\<And>d. dpt = Some d \<Longrightarrow> dept r = d"
    and "live db' = (live db1)(i \<mapsto> leased_record u r)"
  shows "leased_between now_ms u dpt excluded db (rs @ [leased_record u r]) db'"
proof -
  have "live db ++ map_of (map (\<lambda>r. (delivery_id r, r)) (rs @ [leased_record u r])) =
      (live db ++ map_of (map (\<lambda>r. (delivery_id r, r)) rs))(i \<mapsto> leased_record u r)"
    using assms(3) map_of_ids_None [OF assms(4)]
    by (auto simp: fun_eq_iff map_add_def map_of_append split: option.splits)
  with assms show ?thesis by (auto simp: leased_between_def)
qed

text \<open>Processing keys with distinct identities that have not been touched.\<close>

lemma lease_keys_between:
  assumes inv: "store_inv b64 db0"
    and "lease_keys limit now_ms u dpt excluded expired (db, leased, mutated) keys = Inr (db', leased', mutated')"
    and "leased_between now_ms u dpt excluded db0 leased db" and "distinct (map ikey_id keys)"
    and "\<And>p. p \<in> set keys \<Longrightarrow> ikey_id p \<notin> delivery_id ` set leased"
    and "\<And>p. p \<in> set keys \<Longrightarrow> expired \<Longrightarrow> due_ms p \<le> now_ms"
    and "length leased \<le> limit"
  shows "leased_between now_ms u dpt excluded db0 leased' db' \<and> length leased' \<le> limit \<and>
    set leased \<subseteq> set leased' \<and> delivery_id ` set leased' \<subseteq> delivery_id ` set leased \<union> ikey_id ` set keys"
  using assms(2-)
proof (induction keys arbitrary: db leased mutated)
  case Nil
  then show ?case by simp
next
  case (Cons p keys)
  show ?case
  proof (cases "length leased \<ge> limit")
    case True
    with Cons.prems show ?thesis by auto
  next
    case False
    with Cons.prems(1) obtain db1 oc
      where step: "lease_key p now_ms u dpt excluded expired db = Inr (db1, oc)"
        and rest: "lease_keys limit now_ms u dpt excluded expired
          (db1, (case lko_record oc of None \<Rightarrow> leased | Some r \<Rightarrow> leased @ [r]), mutated \<or> lko_mutated oc) keys
          = Inr (db', leased', mutated')"
      by auto
    have untouched: "live db (ikey_id p) = live db0 (ikey_id p)"
      using Cons.prems(2,4) map_of_ids_None [of "ikey_id p" leased] by (simp add: leased_between_def map_add_def)
    have dist: "distinct (map ikey_id keys)" "\<And>q. q \<in> set keys \<Longrightarrow> ikey_id q \<noteq> ikey_id p"
      using Cons.prems(3) by (simp, metis distinct.simps(2) image_eqI list.map(2) set_map)
    show ?thesis
    proof (cases "lko_record oc")
      case None
      then have "leased_between now_ms u dpt excluded db0 leased db1"
        using Cons.prems(2) lease_key_live [OF step] by (simp add: leased_between_def)
      from Cons.IH [OF rest [unfolded None option.case] this dist(1)] Cons.prems(4-6) show ?thesis by auto
    next
      case (Some r')
      from step Some obtain r where r: "r' = leased_record u r" "live db (ikey_id p) = Some r"
          "ikey_id p \<notin> excluded" "\<And>d. dpt = Some d \<Longrightarrow> dept r = d"
          "if expired then lease_until_ms r = Some (due_ms p) else lease_until_ms r = None \<and> not_before_ms r \<le> now_ms"
        by (cases rule: lease_key_cases) (auto simp: lko_unchanged_def)
      have row: "live db0 (ikey_id p) = Some r" using untouched r(2) by simp
      have id: "delivery_id r = ikey_id p" using store_inv_live_id [OF inv row] by simp
      have "leasable now_ms r" using r(5) Cons.prems(5) [of p] by (auto simp: leasable_def split: if_splits)
      moreover have "ikey_id p \<notin> delivery_id ` set leased" using Cons.prems(4) [of p] by simp
      ultimately have "leased_between now_ms u dpt excluded db0 (leased @ [r']) db1"
        unfolding r(1) using lease_key_live [OF step] Some r
        by (intro leased_between_snoc [OF Cons.prems(2) row id]) auto
      moreover have "length (leased @ [r']) \<le> limit" using False by simp
      ultimately show ?thesis
        using Cons.IH [OF rest [unfolded Some option.case] _ dist(1)] Cons.prems(4,5) dist(2) id r(1)
        by auto
    qed
  qed
qed

text \<open>The entries of a derived table have distinct identities: a row owns at most one.\<close>

lemma distinct_due_entries:
  assumes "t_ok t" and "\<And>p. p \<in> set (due_entries dpt now_ms t) \<Longrightarrow> ikey_text p = key (ikey_id p)"
    and "\<And>k. k \<in> fst ` set (t_iter t) \<Longrightarrow> is_due_key k"
  shows "distinct (map ikey_id (due_entries dpt now_ms t))"
proof -
  have texts: "map ikey_text (due_entries dpt now_ms t) =
      filter (\<lambda>k. due_ms (parsed_key k) \<le> now_ms \<and> (case dpt of None \<Rightarrow> True
        | Some d \<Rightarrow> k = make_index_key d (due_ms (parsed_key k)) (ikey_id (parsed_key k)))) (map fst (t_iter t))"
    (is "_ = filter ?P _")
  proof -
    have "ikey_text (parsed_key k) = k" if "k \<in> set (filter ?P (map fst (t_iter t)))" for k
      using assms(3) [of k] that by (auto simp: is_due_key_def)
    then show ?thesis unfolding due_entries_def map_map comp_def by (rule map_idI)
  qed
  have "distinct (map ikey_text (due_entries dpt now_ms t))"
    unfolding texts using tab.entries_distinct [OF assms(1)] by simp
  moreover have "map ikey_text (due_entries dpt now_ms t) = map key (map ikey_id (due_entries dpt now_ms t))"
    using assms(2) by simp
  ultimately show ?thesis by (metis distinct_map)
qed

lemma distinct_ready_entries:
  assumes inv: "store_inv b64 db"
  shows "distinct (map ikey_id (due_entries dpt now_ms (ready_by_dept_due db)))"
proof (rule distinct_due_entries [where key = "\<lambda>i. make_index_key (dept (the (live db i))) (not_before_ms (the (live db i))) i"])
  show "t_ok (ready_by_dept_due db)" using store_invD(1) [OF inv] by (simp add: tables_ok_def)
  show "ikey_text p = make_index_key (dept (the (live db (ikey_id p)))) (not_before_ms (the (live db (ikey_id p)))) (ikey_id p)"
    if "p \<in> set (due_entries dpt now_ms (ready_by_dept_due db))" for p
    using that by (rule ready_due_entry [OF inv]) simp
qed (rule due_tables_wf(1) [OF inv])

lemma distinct_leased_entries:
  assumes inv: "store_inv b64 db"
  shows "distinct (map ikey_id (due_entries dpt now_ms (leased_by_dept_until db)))"
proof (rule distinct_due_entries [where key = "\<lambda>i. make_index_key (dept (the (live db i))) (the (lease_until_ms (the (live db i)))) i"])
  show "t_ok (leased_by_dept_until db)" using store_invD(1) [OF inv] by (simp add: tables_ok_def)
  show "ikey_text p = make_index_key (dept (the (live db (ikey_id p)))) (the (lease_until_ms (the (live db (ikey_id p))))) (ikey_id p)"
    if "p \<in> set (due_entries dpt now_ms (leased_by_dept_until db))" for p
    using that by (rule leased_due_entry [OF inv]) simp
qed (rule due_tables_wf(2) [OF inv])

text \<open>No identity is both ready and leased.\<close>

lemma ready_leased_disjoint:
  assumes inv: "store_inv b64 db" and p: "p \<in> set (due_entries dpt now_ms (ready_by_dept_due db))"
    and q: "q \<in> set (due_entries dpt' now' (leased_by_dept_until db))"
  shows "ikey_id p \<noteq> ikey_id q"
  using ready_due_entry [OF inv p] leased_due_entry [OF inv q] by (metis option.discI option.inject)

section \<open>Batches\<close>

lemma quota_le: "expired_lease_quota n \<le> n"
  by (auto simp: expired_lease_quota_def)

lemma collect_leaseable_eq:
  assumes inv: "store_inv b64 db"
  shows "collect_leaseable_keys now_ms limit dpt excluded db =
    (let budget = scan_budget limit (card excluded) in
     Inr (take (expired_lease_quota limit) (take budget (due_entries dpt now_ms (leased_by_dept_until db))),
          take budget (due_entries dpt now_ms (ready_by_dept_due db))))"
  by (simp add: collect_leaseable_keys_def Let_def collect_ready [OF inv] collect_leased [OF inv] del: take_take)

lemma lease_keys_unmutated:
  "lease_keys limit now_ms u dpt excluded expired (db, leased, mutated) keys = Inr (db', leased', mutated') \<Longrightarrow>
   \<not> mutated' \<Longrightarrow> db' = db \<and> leased' = leased \<and> \<not> mutated"
proof (induction keys arbitrary: db leased mutated)
  case (Cons p keys)
  show ?case
  proof (cases "length leased \<ge> limit")
    case True
    with Cons.prems show ?thesis by auto
  next
    case False
    with Cons.prems(1) obtain db1 oc where step: "lease_key p now_ms u dpt excluded expired db = Inr (db1, oc)"
      and rest: "lease_keys limit now_ms u dpt excluded expired
          (db1, (case lko_record oc of None \<Rightarrow> leased | Some r \<Rightarrow> leased @ [r]), mutated \<or> lko_mutated oc) keys
          = Inr (db', leased', mutated')" by auto
    note IH = Cons.IH [OF rest Cons.prems(2)]
    from step show ?thesis by (cases rule: lease_key_cases) (use IH in \<open>auto simp: lko_unchanged_def\<close>)
  qed
qed simp

lemma lease_matching_between:
  assumes inv: "store_inv b64 db" and run: "lease_matching now_ms limit dur dpt excluded db = Inr (db', rs)"
  shows "leased_between now_ms (sat_add now_ms (duration_millis dur)) dpt excluded db rs db' \<and> length rs \<le> limit"
proof -
  define u ex rd where "u = sat_add now_ms (duration_millis dur)"
    and "ex = take (expired_lease_quota limit) (take (scan_budget limit (card excluded)) (due_entries dpt now_ms (leased_by_dept_until db)))"
    and "rd = take (scan_budget limit (card excluded)) (due_entries dpt now_ms (ready_by_dept_due db))"
  from run consider (nothing) "db' = db" "rs = []"
    | (ran) db1 l1 m1 db2 m2 where
      "lease_keys (expired_lease_quota limit) now_ms u dpt excluded True (db, [], False) ex = Inr (db1, l1, m1)"
      "lease_keys limit now_ms u dpt excluded False (db1, l1, m1) rd = Inr (db2, rs, m2)"
      "db' = (if m2 then db2 else db)"
    by (auto simp: lease_matching_def Let_def collect_leaseable_eq [OF inv] u_def [symmetric] ex_def [symmetric]
        rd_def [symmetric] simp del: take_take split: if_splits)
  then show ?thesis
  proof cases
    case nothing
    then show ?thesis by (simp add: leased_between_Nil)
  next
    case ran
    have ex: "p \<in> set (due_entries dpt now_ms (leased_by_dept_until db))" if "p \<in> set ex" for p
      using that by (auto simp: ex_def dest!: in_set_takeD)
    have rd: "p \<in> set (due_entries dpt now_ms (ready_by_dept_due db))" if "p \<in> set rd" for p
      using that by (auto simp: rd_def dest!: in_set_takeD)
    have leased_due: "due_ms p \<le> now_ms" if "p \<in> set (due_entries dpt now_ms (leased_by_dept_until db))" for p
      using that by (rule leased_due_entry [OF inv])
    have "distinct (map ikey_id ex)" and dist: "distinct (map ikey_id rd)"
      using distinct_leased_entries [OF inv] distinct_ready_entries [OF inv]
      by (simp_all add: ex_def rd_def take_map [symmetric])
    then have 1: "leased_between now_ms u dpt excluded db l1 db1 \<and> length l1 \<le> expired_lease_quota limit \<and>
        delivery_id ` set l1 \<subseteq> ikey_id ` set ex"
      using lease_keys_between [OF inv ran(1) leased_between_Nil [THEN iffD2, OF refl]] leased_due [OF ex] by simp
    have fresh: "ikey_id p \<notin> delivery_id ` set l1" if "p \<in> set rd" for p
    proof
      assume "ikey_id p \<in> delivery_id ` set l1"
      then obtain q where "q \<in> set ex" "ikey_id p = ikey_id q" using 1 by blast
      then show False using ready_leased_disjoint [OF inv rd [OF that] ex] by blast
    qed
    have 2: "leased_between now_ms u dpt excluded db rs db2 \<and> length rs \<le> limit"
      using lease_keys_between [OF inv ran(2) conjunct1 [OF 1] dist fresh] 1 quota_le [of limit] by simp
    show ?thesis
    proof (cases m2)
      case True
      with 2 ran(3) show ?thesis by (simp add: u_def)
    next
      case False
      with lease_keys_unmutated [OF ran(2)] lease_keys_unmutated [OF ran(1)] ran(3) 2 show ?thesis
        by (auto simp: u_def)
    qed
  qed
qed

section \<open>Leasing does not fail and does not starve\<close>

lemma lease_key_total:
  assumes "live db (ikey_id p) \<noteq> None"
  shows "\<exists>db' oc. lease_key p now_ms u dpt excluded expired db = Inr (db', oc)"
proof -
  obtain r where "read_delivery_table (delivery_by_id db) (ikey_id p) = Inr (Some r)"
    using assms by (auto simp: read_delivery_table_Inr)
  then show ?thesis by (simp add: lease_key_def Let_def lease_key_take_def)
qed

lemma lease_keys_total:
  assumes "\<And>p. p \<in> set keys \<Longrightarrow> live db (ikey_id p) \<noteq> None"
  shows "\<exists>db' l m'. lease_keys limit now_ms u dpt excluded expired (db, leased, m) keys = Inr (db', l, m')"
  using assms
proof (induction keys arbitrary: db leased m)
  case (Cons p keys)
  obtain db1 oc where step: "lease_key p now_ms u dpt excluded expired db = Inr (db1, oc)"
    using lease_key_total Cons.prems [of p] by fastforce
  have "dom (live db1) = dom (live db)" using lease_key_kept [OF step] by (simp add: rows_kept_def)
  then have "live db1 (ikey_id q) \<noteq> None" if "q \<in> set keys" for q
    using Cons.prems [of q] that by auto
  from Cons.IH [OF this] step show ?case by simp
qed simp

lemma lease_matching_total:
  assumes inv: "store_inv b64 db"
  shows "\<exists>db' rs. lease_matching now_ms limit dur dpt excluded db = Inr (db', rs)"
proof -
  let ?u = "sat_add now_ms (duration_millis dur)"
  obtain ex rd where keys: "collect_leaseable_keys now_ms limit dpt excluded db = Inr (ex, rd)"
    and sub: "set ex \<subseteq> set (due_entries dpt now_ms (leased_by_dept_until db))"
      "set rd \<subseteq> set (due_entries dpt now_ms (ready_by_dept_due db))"
    using collect_leaseable_eq [OF inv, of now_ms limit dpt excluded]
    by (simp add: Let_def set_take_subset del: take_take) (blast dest: in_set_takeD)
  have "live db (ikey_id p) \<noteq> None" if "p \<in> set ex" for p
    using subsetD [OF sub(1) that] by (rule leased_due_entry [OF inv]) simp
  then obtain db1 l1 m1 where 1: "lease_keys (expired_lease_quota limit) now_ms ?u dpt excluded True (db, [], False) ex
      = Inr (db1, l1, m1)"
    using lease_keys_total by blast
  have "live db1 (ikey_id p) \<noteq> None" if "p \<in> set rd" for p
  proof -
    have "live db (ikey_id p) \<noteq> None" using subsetD [OF sub(2) that] by (rule ready_due_entry [OF inv]) simp
    then show ?thesis using lease_keys_kept [OF 1] by (auto simp: rows_kept_def)
  qed
  then obtain db2 l2 m2 where "lease_keys limit now_ms ?u dpt excluded False (db1, l1, m1) rd = Inr (db2, l2, m2)"
    using lease_keys_total by blast
  with 1 keys show ?thesis by (simp add: lease_matching_def Let_def)
qed

text \<open>A due row that is neither leased nor excluded.\<close>

definition available :: "u64 \<Rightarrow> string option \<Rightarrow> string set \<Rightarrow> store_db \<Rightarrow> string \<Rightarrow> bool" where
  "available now_ms dpt excluded db i \<longleftrightarrow> i \<notin> excluded \<and>
     (\<exists>r. live db i = Some r \<and> lease_until_ms r = None \<and> not_before_ms r \<le> now_ms \<and> (\<forall>d. dpt = Some d \<longrightarrow> dept r = d))"

lemma lease_key_available:
  assumes "available now_ms dpt excluded db (ikey_id p)"
    and "lease_key p now_ms u dpt excluded False db = Inr (db', oc)"
  shows "lko_record oc \<noteq> None"
proof -
  from assms(1) obtain r where r: "live db (ikey_id p) = Some r" "lease_until_ms r = None" "not_before_ms r \<le> now_ms"
      "\<forall>d. dpt = Some d \<longrightarrow> dept r = d" "ikey_id p \<notin> excluded" by (auto simp: available_def)
  then have "read_delivery_table (delivery_by_id db) (ikey_id p) = Inr (Some r)"
    by (simp add: read_delivery_table_Inr)
  with r assms(2) leD [OF r(3)] show ?thesis
    by (auto simp: lease_key_def Let_def lease_key_take_def lko_mutated_with_def split: option.splits)
qed

lemma lease_keys_grow:
  "lease_keys limit now_ms u dpt excluded expired (db, leased, m) keys = Inr (db', leased', m') \<Longrightarrow>
   set leased \<subseteq> set leased'"
proof (induction keys arbitrary: db leased m)
  case (Cons p keys)
  from Cons.prems show ?case by (auto split: if_splits option.splits dest!: Cons.IH)
qed simp

lemma lease_keys_hit:
  assumes "lease_keys limit now_ms u dpt excluded False (db, leased, m) keys = Inr (db', leased', m')"
    and "p \<in> set keys" and "0 < limit" and "available now_ms dpt excluded db (ikey_id p)"
    and "distinct (map ikey_id keys)"
  shows "leased' \<noteq> []"
  using assms
proof (induction keys arbitrary: db leased m)
  case (Cons q keys)
  show ?case
  proof (cases "length leased \<ge> limit")
    case True
    with Cons.prems show ?thesis by auto
  next
    case False
    with Cons.prems(1) obtain db1 oc where step: "lease_key q now_ms u dpt excluded False db = Inr (db1, oc)"
      and rest: "lease_keys limit now_ms u dpt excluded False
          (db1, (case lko_record oc of None \<Rightarrow> leased | Some r \<Rightarrow> leased @ [r]), m \<or> lko_mutated oc) keys
          = Inr (db', leased', m')" by auto
    show ?thesis
    proof (cases "p = q")
      case True
      then obtain r where "lko_record oc = Some r" using lease_key_available [OF _ step] Cons.prems(4) by auto
      with lease_keys_grow [OF rest] show ?thesis by auto
    next
      case False
      then have p: "p \<in> set keys" using Cons.prems(2) by simp
      then have "ikey_id p \<noteq> ikey_id q" using Cons.prems(5) by (metis distinct.simps(2) image_eqI list.map(2) set_map)
      then have "live db1 (ikey_id p) = live db (ikey_id p)"
        using lease_key_live [OF step] by (auto split: option.splits)
      then have "available now_ms dpt excluded db1 (ikey_id p)" using Cons.prems(4) by (simp add: available_def)
      with Cons.IH [OF rest p Cons.prems(3)] Cons.prems(5) show ?thesis by simp
    qed
  qed
qed simp

text \<open>Every available row is listed; a full scan window of excluded rows is not possible.\<close>

lemma available_listed:
  assumes inv: "store_inv b64 db" and av: "available now_ms dpt excluded db i"
  shows "\<exists>p \<in> set (due_entries dpt now_ms (ready_by_dept_due db)). ikey_id p = i"
proof -
  from av obtain r where r: "live db i = Some r" "lease_until_ms r = None" "not_before_ms r \<le> now_ms"
      "\<forall>d. dpt = Some d \<longrightarrow> dept r = d" by (auto simp: available_def)
  define k where "k = make_index_key (dept r) (not_before_ms r) i"
  have "k \<in> set (map fst (t_iter (ready_by_dept_due db)))"
    using ready_table_keys [OF inv, of k] r k_def by auto
  then have "parsed_key k \<in> set (due_entries dpt now_ms (ready_by_dept_due db))"
    unfolding due_entries_def set_map [of parsed_key] set_filter using r
    by (intro imageI) (auto simp: k_def split: option.splits)
  then show ?thesis by (rule bexI [rotated]) (simp add: k_def)
qed

lemma ready_entry_available:
  assumes "store_inv b64 db" and "p \<in> set (due_entries dpt now_ms (ready_by_dept_due db))" and "ikey_id p \<notin> excluded"
  shows "available now_ms dpt excluded db (ikey_id p)"
  using assms(2) by (rule ready_due_entry [OF assms(1)]) (use assms(3) in \<open>auto simp: available_def\<close>)

lemma window_hits:
  assumes inv: "store_inv b64 db" and av: "available now_ms dpt excluded db i"
    and "finite excluded" "card excluded < budget"
  shows "\<exists>p \<in> set (take budget (due_entries dpt now_ms (ready_by_dept_due db))).
    available now_ms dpt excluded db (ikey_id p)"
proof (rule ccontr)
  let ?es = "due_entries dpt now_ms (ready_by_dept_due db)"
  let ?w = "take budget ?es"
  assume none: "\<not> (\<exists>p \<in> set ?w. available now_ms dpt excluded db (ikey_id p))"
  then have sub: "ikey_id ` set ?w \<subseteq> excluded"
    using ready_entry_available [OF inv] by (metis (no_types, lifting) image_subsetI in_set_takeD)
  have "distinct (map ikey_id ?w)" using distinct_ready_entries [OF inv] by (simp add: take_map [symmetric])
  then have "card (ikey_id ` set ?w) = length ?w" using distinct_card [of "map ikey_id ?w"] by simp
  then have "length ?w \<le> card excluded" using card_mono [OF assms(3) sub] by simp
  then have "?w = ?es" using assms(4) by (cases "length ?es \<le> budget") auto
  with available_listed [OF inv av] none av show False by metis
qed

lemma lease_matching_hits:
  assumes inv: "store_inv b64 db" and run: "lease_matching now_ms limit dur dpt excluded db = Inr (db', rs)"
    and av: "available now_ms dpt excluded db i" and "0 < limit" and fin: "finite excluded" "card excluded < usize_max"
  shows "rs \<noteq> []"
proof -
  define u ex rd where "u = sat_add now_ms (duration_millis dur)"
    and "ex = take (expired_lease_quota limit) (take (scan_budget limit (card excluded)) (due_entries dpt now_ms (leased_by_dept_until db)))"
    and "rd = take (scan_budget limit (card excluded)) (due_entries dpt now_ms (ready_by_dept_due db))"
  have "card excluded < scan_budget limit (card excluded)"
    using assms(4) fin(2) by (auto simp: scan_budget_def usize_max_def)
  from window_hits [OF inv av fin(1) this] obtain p where p: "p \<in> set rd" "available now_ms dpt excluded db (ikey_id p)"
    by (auto simp: rd_def)
  then have "rd \<noteq> []" by auto
  with run assms(4) obtain db1 l1 m1 db2 m2 where
      1: "lease_keys (expired_lease_quota limit) now_ms u dpt excluded True (db, [], False) ex = Inr (db1, l1, m1)" and
      2: "lease_keys limit now_ms u dpt excluded False (db1, l1, m1) rd = Inr (db2, rs, m2)"
    by (auto simp: lease_matching_def Let_def collect_leaseable_eq [OF inv] u_def [symmetric] ex_def [symmetric]
        rd_def [symmetric] simp del: take_take split: if_splits)
  show ?thesis
  proof (cases "l1 = []")
    case False
    with lease_keys_grow [OF 2] show ?thesis by auto
  next
    case True
    have "distinct (map ikey_id ex)" and dist: "distinct (map ikey_id rd)"
      using distinct_leased_entries [OF inv] distinct_ready_entries [OF inv]
      by (simp_all add: ex_def rd_def take_map [symmetric])
    moreover have "due_ms q \<le> now_ms" if "q \<in> set ex" for q
      by (rule leased_due_entry [OF inv, of q]) (use that in \<open>auto simp: ex_def dest!: in_set_takeD\<close>)
    ultimately have "live db1 = live db"
      using lease_keys_between [OF inv 1 leased_between_Nil [THEN iffD2, OF refl]] True
      by (simp add: leased_between_Nil)
    then have "available now_ms dpt excluded db1 (ikey_id p)" using p(2) by (simp add: available_def)
    from lease_keys_hit [OF 2 p(1) assms(4) this dist] show ?thesis .
  qed
qed

end
