(* ===== verification/Store_Examples.thy ===== *)
theory Store_Examples
  imports Store_Lease_Spec "HOL-Library.Code_Target_Numeral"
begin

text \<open>
  Concrete databases on which the theorems of the store are applied: a delivery is accepted, leased,
  and settled in the ways the operations allow. The lemmas \<open>demo_..._run\<close> compute every state with the
  operations.
\<close>

definition demo_ext :: externs where
  "demo_ext = \<lparr>ext_b64 = encode_ordered_lineage_id, ext_hash = (\<lambda>_ _. 0)\<rparr>"

definition demo_record :: "string \<Rightarrow> bool \<Rightarrow> delivery_record" where
  "demo_record i keyed =
     \<lparr>delivery_id = i, queue = ''q'', dept = ''ops'', payload = JNull,
      source = Some \<lparr>src_kind = Cron, src_reference = ''r''\<rparr>, cron_payload = None, observed_at_ms = 5,
      attempt = 0, redrive_count = 0, collapse_by_dedup_id = keyed, pending_dirty = False,
      subscriber_absent_since_ms = None, lease_generation = 0, lease_until_ms = None,
      not_before_ms = 5, last_error_excerpt = None\<rparr>"

definition demo_open :: store_db where
  "demo_open = empty_db\<lparr>meta := [(''schema_version'', ''12'')]\<rparr>"

definition demo_ready :: store_db where
  "demo_ready = demo_open\<lparr>delivery_by_id := [(''d'', Blob (demo_record ''d'' True))],
     ready_by_dept_due := [(''ops/00000000000000000005/d'', ())],
     lineage_by_source :=
       [(''v1/queue/71/dept/6f7073/source/cron/72/live/at/00000000000000000005/id/64'', ''d'')]\<rparr>"

definition demo_leased :: store_db where
  "demo_leased = demo_open\<lparr>delivery_by_id := [(''d'', Blob (leased_record 16 (demo_record ''d'' True)))],
     leased_by_dept_until := [(''ops/00000000000000000016/d'', ())],
     lineage_by_source :=
       [(''v1/queue/71/dept/6f7073/source/cron/72/live/at/00000000000000000005/id/64'', ''d'')]\<rparr>"

definition demo_released :: store_db where
  "demo_released = demo_open\<lparr>
     delivery_by_id := [(''d'', Blob (leased_record 30 (leased_record 16 (demo_record ''d'' True))))],
     leased_by_dept_until := [(''ops/00000000000000000030/d'', ())],
     lineage_by_source :=
       [(''v1/queue/71/dept/6f7073/source/cron/72/live/at/00000000000000000005/id/64'', ''d'')]\<rparr>"

definition demo_failure :: "bool \<Rightarrow> retry_failure" where
  "demo_failure again = \<lparr>rf_message = ''boom'', rf_replayable = again\<rparr>"

definition demo_policy :: retry_policy where
  "demo_policy = \<lparr>max_attempts = 1, base = from_millis 100, cap = from_millis 1000\<rparr>"

definition demo_dead_record :: "bool \<Rightarrow> dead_record" where
  "demo_dead_record again =
     retry_dead_record (failed_record (demo_failure again) (leased_record 16 (demo_record ''d'' True)))
       (demo_failure again) 10"

definition demo_dead :: "bool \<Rightarrow> store_db" where
  "demo_dead again = (if again
     then demo_open\<lparr>dead_by_id := [(''d'', Blob (demo_dead_record True))],
       dead_by_time := [(''00000000000000000010/d'', ())],
       dead_by_dept_due := [(''00000000000000000010/ops/d'', ())]\<rparr>
     else demo_open\<lparr>dead_by_id := [(''d'', Blob (demo_dead_record False))],
       dead_by_time := [(''00000000000000000010/d'', ())],
       terminal_dead_by_time := [(''00000000000000000010/ops/d'', ())],
       terminal_suppression_by_slot := [(''1e773'', ''d'')],
       lineage_by_source :=
         [(''v1/queue/71/dept/6f7073/source/cron/72/terminal/at/00000000000000000010/id/64'', ''d'')]\<rparr>)"

lemma demo_open_run: "open_store demo_ext empty_db = Inr demo_open"
  by code_simp

lemma demo_ready_run: "enqueue demo_ext (demo_record ''d'' True) demo_open = Inr (demo_ready, Accepted)"
  by code_simp

lemma demo_released_run: "lease_matching 20 1 (from_millis 10) None {} demo_leased =
    Inr (demo_released, [leased_record 30 (leased_record 16 (demo_record ''d'' True))])"
  by code_simp

lemma demo_dead_run:
  "retry demo_ext ''d'' 1 (demo_failure False) demo_policy 10 demo_leased = Inr (demo_dead False, PermanentDead)"
  "retry demo_ext ''d'' 1 (demo_failure True) demo_policy 10 demo_leased = Inr (demo_dead True, DeadPendingRedrive)"
  by code_simp+

section \<open>The states are reachable\<close>

lemma encode_ordered_lineage_id_no_slash: "CHR ''/'' \<notin> set (encode_ordered_lineage_id s)"
proof -
  have "list_all is_alnum (encode_ordered_lineage_id s)"
    unfolding encode_ordered_lineage_id_def by (rule list_all_concat_map) (rule byte_hex_alnum)
  then show ?thesis using is_alnum_not by (auto simp: list_all_iff)
qed

lemma demo_segment: "segment_encoding encode_ordered_lineage_id" "segment_encoding (ext_b64 demo_ext)"
  using encode_ordered_lineage_id_no_slash by (auto simp: segment_encoding_def demo_ext_def inj_def)

lemma demo_open_reach: "reach (store_init demo_ext) (store_step demo_ext) demo_open"
proof (rule reach_init)
  have "migratable empty_db" using store_inv_empty by (rule store_inv_migratable)
  then have "opened demo_ext demo_open"
    using demo_open_run store_inv_empty [of "ext_b64 demo_ext"] unfolding opened_def by blast
  then show "store_init demo_ext demo_open" using demo_segment by (simp add: store_init_def)
qed

lemma demo_ready_reach: "reach (store_init demo_ext) (store_step demo_ext) demo_ready"
  using demo_open_reach
proof (rule reach_step)
  have "fresh_record (demo_record ''d'' True)"
    by (simp add: fresh_record_def demo_record_def id_ok_def max_scalar_def)
  then show "store_step demo_ext (LEnqueue (demo_record ''d'' True) Accepted) demo_open demo_ready"
    using demo_ready_run by (rule step_enqueue)
qed

lemma demo_leased_run: "lease_matching 6 1 (from_millis 10) None {} demo_ready =
    Inr (demo_leased, [leased_record 16 (demo_record ''d'' True)])"
  by code_simp

lemma demo_leased_reach: "reach (store_init demo_ext) (store_step demo_ext) demo_leased"
  using demo_ready_reach step_lease [OF demo_leased_run] by (rule reach_step)

lemma demo_acked_run: "ack demo_ext ''d'' 1 demo_leased = Inr (demo_open, True)"
  by code_simp

lemmas demo_acked_step = step_ack [OF demo_acked_run]

lemma demo_second_lease: "lease_matching 7 1 (from_millis 10) None {} demo_leased = Inr (demo_leased, [])"
  by code_simp

lemma demo_inv: "reach (store_init demo_ext) (store_step demo_ext) db \<Longrightarrow> store_inv encode_ordered_lineage_id db"
  using machine.reach_inv [of demo_ext db] by (simp add: machine_inv_def demo_ext_def)

lemmas demo_ready_inv = demo_inv [OF demo_ready_reach]
lemmas demo_leased_inv = demo_inv [OF demo_leased_reach]

lemma demo_ready_live: "live demo_ready ''d'' = Some (demo_record ''d'' True)"
  by (simp add: demo_ready_def decoded_def t_get_def)

lemma demo_leased_live: "live demo_leased ''d'' = Some (leased_record 16 (demo_record ''d'' True))"
  by (simp add: demo_leased_def decoded_def t_get_def)

lemma demo_dead_reach: "reach (store_init demo_ext) (store_step demo_ext) (demo_dead again)"
  using demo_leased_reach step_retry [OF demo_dead_run(1)] step_retry [OF demo_dead_run(2)]
  by (cases again) (auto intro: reach_step)

lemma demo_leased_held: "''d'' \<in> held demo_leased"
  using demo_leased_live by (simp add: held_iff)

end
