(* ===== verification/Store_Theorems.thy ===== *)
theory Store_Theorems
  imports Store_Examples
begin

text \<open>
  The theorems of the delivery store on leases and acknowledgements: the invariant in every reachable
  state, conservation of deliveries, the contract of a batch lease, fencing of lost leases.
\<close>

section \<open>Reachable states\<close>

text \<open>C1: In every state that the store can reach from an opened database by its operations, rows are
  stored under their identities, all six derived tables hold exactly the entries of the rows, and
  every terminally dead delivery that is closed to reuse is in the suppression table.\<close>

theorem reachable_store_inv:
  assumes "reach (store_init X) (store_step X) db"
  shows "store_inv (ext_b64 X) db"
  using machine.reach_inv [OF assms] by (simp add: machine_inv_def)

theorem reachable_store_inv_witness:
  "reach (store_init demo_ext) (store_step demo_ext) demo_leased \<and> store_inv encode_ordered_lineage_id demo_leased"
  using demo_leased_reach reachable_store_inv [OF demo_leased_reach] by (simp add: demo_ext_def)

text \<open>C2: No delivery is lost. A delivery that a reachable database holds, live or dead, is still held
  after any operation, unless the operation is its successful acknowledgement, or the retention of its
  dead record had run out.\<close>

theorem delivery_conserved:
  assumes "reach (store_init X) (store_step X) db" and "store_step X l db db'" and "i \<in> held db"
  shows "i \<in> held db' \<or> (\<exists>gen. l = LAck i gen True) \<or> retired (label_time l) i db"
  using store_step_held [OF machine.reach_inv [OF assms(1)] assms(2,3)] .

theorem delivery_conserved_witness:
  "store_step demo_ext (LAck ''d'' 1 True) demo_leased demo_open \<and> ''d'' \<in> held demo_leased \<and>
   (''d'' \<in> held demo_open \<or> (\<exists>gen. LAck ''d'' 1 True = LAck ''d'' gen True) \<or>
    retired (label_time (LAck ''d'' 1 True)) ''d'' demo_leased)"
  using demo_acked_step demo_leased_held
    delivery_conserved [OF demo_leased_reach demo_acked_step demo_leased_held] by blast

section \<open>Leases\<close>

text \<open>C3: A batch lease on a consistent database never fails. It returns at most \<open>batch_limit\<close>
  deliveries, all different; each was due (or its lease had run out), belongs to the requested
  department and is not excluded; each is returned and stored with its lease generation counted up and
  the new lease end; every other row, live or dead, is as it was.\<close>

theorem lease_matching_spec:
  assumes "store_inv b64 db"
  shows "\<exists>db' rs. lease_matching now_ms limit dur dpt excluded db = Inr (db', rs) \<and> length rs \<le> limit \<and>
    leased_between now_ms (sat_add now_ms (duration_millis dur)) dpt excluded db rs db' \<and> dead db' = dead db"
proof -
  obtain db' rs where run: "lease_matching now_ms limit dur dpt excluded db = Inr (db', rs)"
    using lease_matching_total [OF assms] by blast
  with lease_matching_between [OF assms run] lease_matching_kept [OF run] show ?thesis
    by (auto simp: rows_kept_def)
qed

theorem lease_matching_spec_witness:
  "store_inv encode_ordered_lineage_id demo_ready \<and>
   (\<exists>db' rs. lease_matching 6 1 (from_millis 10) (Some ''ops'') {} demo_ready = Inr (db', rs) \<and> length rs \<le> 1 \<and>
     leased_between 6 (sat_add 6 (duration_millis (from_millis 10))) (Some ''ops'') {} demo_ready rs db' \<and>
     dead db' = dead demo_ready)"
  using demo_ready_inv lease_matching_spec [OF demo_ready_inv] by blast

text \<open>C4: A due delivery is not starved by excluded ones. If some ready delivery is due, belongs to the
  department and is not excluded, a batch lease with a positive limit returns at least one delivery,
  however many excluded deliveries sort before it.\<close>

theorem lease_matching_serves:
  assumes "store_inv b64 db" and "available now_ms dpt excluded db i"
    and "0 < limit" and "finite excluded" and "card excluded < usize_max"
  shows "\<exists>db' rs. lease_matching now_ms limit dur dpt excluded db = Inr (db', rs) \<and> rs \<noteq> []"
  using lease_matching_total [OF assms(1)] lease_matching_hits [OF assms(1) _ assms(2-5)] by blast

theorem lease_matching_serves_witness:
  "available 6 (Some ''ops'') {''x''} demo_ready ''d'' \<and>
   (\<exists>db' rs. lease_matching 6 1 (from_millis 10) (Some ''ops'') {''x''} demo_ready = Inr (db', rs) \<and> rs \<noteq> [])"
proof -
  have av: "available 6 (Some ''ops'') {''x''} demo_ready ''d''"
    using demo_ready_live by (simp add: available_def demo_record_def)
  with lease_matching_serves [OF demo_ready_inv av] show ?thesis by (simp add: usize_max_def)
qed

text \<open>A running lease is exclusive. A delivery whose lease ends after \<open>now_ms\<close> is neither
  returned nor changed by a batch lease.\<close>

theorem running_lease_exclusive:
  assumes "store_inv b64 db" and "lease_matching now_ms limit dur dpt excluded db = Inr (db', rs)"
    and "live db i = Some r" and "lease_until_ms r = Some u" and "now_ms < u"
  shows "live db' i = Some r \<and> i \<notin> delivery_id ` set rs"
proof -
  have lb: "leased_between now_ms (sat_add now_ms (duration_millis dur)) dpt excluded db rs db'"
    using lease_matching_between [OF assms(1,2)] by blast
  have "\<not> leasable now_ms r" using assms(4,5) by (simp add: leasable_def leD)
  then have "i \<notin> delivery_id ` set rs" using lb assms(3) by (fastforce simp: leased_between_def)
  with lb assms(3) map_of_ids_None [OF this] show ?thesis by (auto simp: leased_between_def map_add_def)
qed

theorem running_lease_exclusive_witness:
  "lease_matching 7 1 (from_millis 10) None {} demo_leased = Inr (demo_leased, []) \<and>
   live demo_leased ''d'' = Some (leased_record 16 (demo_record ''d'' True)) \<and>
   ''d'' \<notin> delivery_id ` set ([] :: delivery_record list)"
  using demo_second_lease running_lease_exclusive [OF demo_leased_inv demo_second_lease demo_leased_live]
  by (simp add: leased_record_def)

end
