(* ===== verification/Settlement_Theorems.thy ===== *)
theory Settlement_Theorems
  imports Store_Theorems
begin

text \<open>
  The theorems of the delivery store on accepting and settling deliveries: acknowledgements, fencing
  of lost leases, duplicates, follow-ups of keyed deliveries and retries.
\<close>

section \<open>Acknowledging\<close>

lemma ack_total:
  assumes "live db i = Some r"
  shows "\<exists>db' ok. ack X i gen db = Inr (db', ok)"
proof -
  have "read_delivery_table (delivery_by_id db) i = Inr (Some r)" using assms by (simp add: read_delivery_table_Inr)
  then show ?thesis by (auto simp: ack_def Let_def split: option.splits prod.splits)
qed

text \<open>What is left of an acknowledged delivery: nothing, or the follow-up of a keyed one.\<close>

definition after_ack :: "delivery_record \<Rightarrow> delivery_record option" where
  "after_ack r =
     (if collapse_by_dedup_id r \<and> pending_dirty r
      then Some (r\<lparr>pending_dirty := False, attempt := 0, redrive_count := 0, subscriber_absent_since_ms := None,
             lease_until_ms := None, last_error_excerpt := None\<rparr>)
      else None)"

lemma ack_rows:
  assumes "ack X i gen db = Inr (db', ok)" and "live db i = Some r"
  shows "ok \<longleftrightarrow> lease_generation r = gen \<and> lease_until_ms r \<noteq> None"
    and "\<not> ok \<Longrightarrow> db' = db" and "ok \<Longrightarrow> live db' = (live db)(i := after_ack r)" and "dead db' = dead db"
  using assms by (cases rule: ack_cases; auto simp: table_updates after_ack_def prepare_dirty_follow_up_def)+

text \<open>C6: Acknowledging a delivery succeeds exactly when it is leased under the presented generation. It
  then removes the delivery, or, when a keyed duplicate arrived during the lease, leaves it ready again
  with its counters reset; otherwise nothing changes. Dead letters and every other delivery stay, and the
  database stays consistent.\<close>

theorem ack_spec:
  assumes "segment_encoding (ext_b64 X)" and "store_inv (ext_b64 X) db" and "live db i = Some r"
  shows "\<exists>db'. ack X i gen db = Inr (db', lease_generation r = gen \<and> lease_until_ms r \<noteq> None) \<and>
    live db' = (live db)(i := if lease_generation r = gen \<and> lease_until_ms r \<noteq> None then after_ack r else Some r) \<and>
    dead db' = dead db \<and> store_inv (ext_b64 X) db'"
proof -
  obtain db' ok where run: "ack X i gen db = Inr (db', ok)" using ack_total [OF assms(3)] by blast
  show ?thesis
    using ack_rows [OF run assms(3)] ack_inv [OF assms(1,2) run] run assms(3)
    by (intro exI [of _ db']) auto
qed

theorem ack_spec_witness:
  "live demo_leased ''d'' = Some (leased_record 16 (demo_record ''d'' True)) \<and>
   (\<exists>db'. ack demo_ext ''d'' 1 demo_leased = Inr (db', True) \<and> live db' = (live demo_leased)(''d'' := None) \<and>
     dead db' = dead demo_leased \<and> store_inv (ext_b64 demo_ext) db')"
proof -
  have inv: "store_inv (ext_b64 demo_ext) demo_leased" using demo_leased_inv by (simp add: demo_ext_def)
  from ack_spec [OF demo_segment(2) inv demo_leased_live, of 1] demo_leased_live show ?thesis
    by (simp add: leased_record_def demo_record_def after_ack_def sat_add_def)
qed

section \<open>Fencing\<close>

text \<open>The operations of a holder whose lease is not the current one.\<close>

definition fenced :: "externs \<Rightarrow> string \<Rightarrow> u64 \<Rightarrow> store_db \<Rightarrow> bool" where
  "fenced X i gen db \<longleftrightarrow>
     ack X i gen db = Inr (db, False) \<and>
     (\<forall>u. renew_lease i gen u db = Inr (db, False)) \<and>
     (\<forall>lock policy now_ms. defer_lock_busy X i gen lock policy now_ms db = Inr (db, DeferStale)) \<and>
     (\<forall>failure policy now_ms db' oc. retry X i gen failure policy now_ms db = Inr (db', oc) \<longrightarrow>
        oc = Stale \<and> live db' = live db)"

lemma stale_generation_fenced:
  assumes seg: "segment_encoding (ext_b64 X)" and inv: "store_inv (ext_b64 X) db"
    and r: "live db i = Some r" "lease_generation r \<noteq> gen"
  shows "fenced X i gen db"
proof -
  have rd: "read_delivery_table (delivery_by_id db) i = Inr (Some r)" using r(1) by (simp add: read_delivery_table_Inr)
  have "oc = Stale \<and> live db' = live db" if "retry X i gen failure policy now_ms db = Inr (db', oc)" for failure policy now_ms db' oc
    using that
  proof (cases rule: retry_cases)
    case (stale r' u n)
    with compact_inv(2) [OF seg inv stale(5)] show ?thesis by (simp add: compacted_to_def live_side_same_def)
  qed (use r in auto)
  with rd r(2) show ?thesis
    by (auto simp: fenced_def ack_def defer_lock_busy_def renew_lease_def renew_leases_def renew_one_def t_empty_def
        split: option.splits)
qed

text \<open>C7: A lost lease is fenced off. Once a delivery has been leased again, every operation that presents
  the generation it had before (acknowledge, renew, defer, retry) is refused and leaves the live
  deliveries alone, as long as the generation counter has not reached its maximum.\<close>

theorem lost_lease_fenced:
  assumes "segment_encoding (ext_b64 X)" and "store_inv (ext_b64 X) db"
    and "lease_matching now_ms limit dur dpt excluded db = Inr (db', rs)"
    and "r' \<in> set rs" and "live db (delivery_id r') = Some r" and "lease_generation r \<noteq> u64_max"
  shows "fenced X (delivery_id r') (lease_generation r) db'"
proof -
  have row: "live db' (delivery_id r') = Some (leased_record (sat_add now_ms (duration_millis dur)) r)"
    using leased_between_row [OF conjunct1 [OF lease_matching_between [OF assms(2,3)]] assms(4)] assms(5) by auto
  have "lease_generation (leased_record (sat_add now_ms (duration_millis dur)) r) \<noteq> lease_generation r"
    using sat_add_1_neq [OF assms(6)] by (simp add: leased_record_def)
  with row show ?thesis
    using stale_generation_fenced [OF assms(1) lease_matching_inv [OF assms(1-3)]] by blast
qed

lemma demo_ext_inv: "store_inv encode_ordered_lineage_id db \<Longrightarrow> store_inv (ext_b64 demo_ext) db"
  by (simp add: demo_ext_def)

theorem lost_lease_fenced_witness:
  "lease_matching 20 1 (from_millis 10) None {} demo_leased =
     Inr (demo_released, [leased_record 30 (leased_record 16 (demo_record ''d'' True))]) \<and>
   fenced demo_ext ''d'' 1 demo_released"
proof -
  have "fenced demo_ext (delivery_id (leased_record 30 (leased_record 16 (demo_record ''d'' True))))
      (lease_generation (leased_record 16 (demo_record ''d'' True))) demo_released"
    by (rule lost_lease_fenced [OF demo_segment(2) demo_ext_inv [OF demo_leased_inv] demo_released_run])
      (use demo_leased_live in \<open>simp_all add: demo_record_def leased_record_def sat_add_def u64_max_def\<close>)
  with demo_released_run show ?thesis by (simp add: demo_record_def leased_record_def sat_add_def)
qed

section \<open>Accepting duplicates\<close>

text \<open>Accepting a delivery is idempotent. After a delivery without a deduplication key has been
  accepted, accepting it again with the same content (at any observation time) is accepted and changes
  nothing.\<close>

theorem enqueue_idempotent:
  assumes "enqueue X r db = Inr (db', Accepted)" and "same_delivery_content r r'" and "\<not> collapse_by_dedup_id r"
    and "\<not> collapse_by_dedup_id r'"
  shows "enqueue X r' db' = Inr (db', Accepted)"
proof -
  have same: "delivery_id r' = delivery_id r" using assms(2) by (simp add: same_delivery_content_def)
  have again: "enqueue X r' db' = Inr (db', Accepted)"
    if "live db' (delivery_id r) = Some c" "collapse_by_dedup_id c \<or> same_delivery_content c r" for c
  proof -
    have "read_delivery_table (delivery_by_id db') (delivery_id r') = Inr (Some c)"
      using that(1) by (simp add: read_delivery_table_Inr same)
    with that(2) assms(2,4) show ?thesis
      by (auto simp: enqueue_def enqueue_collapse_def same_delivery_content_def)
  qed
  show ?thesis
    using assms(1)
  proof (cases rule: enqueue_cases)
    case (collapse c)
    then have "db' = db" using assms(3) by (simp add: enqueue_collapse_def)
    with collapse assms(3) show ?thesis by (intro again) auto
  next
    case (duplicate c)
    then show ?thesis by (intro again) auto
  next
    case (fresh db1 n)
    then have "live db' (delivery_id r) = Some r" by (simp add: table_updates)
    then show ?thesis by (intro again) (auto simp: same_delivery_content_def)
  qed auto
qed

lemma demo_plain_run: "\<exists>db'. enqueue demo_ext (demo_record ''p'' False) demo_open = Inr (db', Accepted)"
proof -
  have "case enqueue demo_ext (demo_record ''p'' False) demo_open of Inl _ \<Rightarrow> False | Inr (db', oc) \<Rightarrow> oc = Accepted"
    by code_simp
  then show ?thesis by (auto split: sum.splits)
qed

theorem enqueue_idempotent_witness:
  "\<exists>db'. enqueue demo_ext (demo_record ''p'' False) demo_open = Inr (db', Accepted) \<and>
     enqueue demo_ext ((demo_record ''p'' False)\<lparr>observed_at_ms := 9\<rparr>) db' = Inr (db', Accepted)"
proof -
  obtain db' where run: "enqueue demo_ext (demo_record ''p'' False) demo_open = Inr (db', Accepted)"
    using demo_plain_run by blast
  from enqueue_idempotent [OF run, of "(demo_record ''p'' False)\<lparr>observed_at_ms := 9\<rparr>"] run show ?thesis
    by (auto simp: same_delivery_content_def demo_record_def)
qed

section \<open>Follow-ups of keyed deliveries\<close>

text \<open>A keyed duplicate that arrives while the delivery is being processed is not lost. When a keyed
  delivery is leased beyond the due time of a keyed duplicate, accepting the duplicate changes nothing
  that the holder can see, and the acknowledgement by the holder leaves the delivery ready again, with
  the same content, instead of removing it.\<close>

theorem keyed_duplicate_follow_up:
  assumes "store_inv (ext_b64 X) db" and "live db (delivery_id r) = Some c"
    and "collapse_by_dedup_id c" and "collapse_by_dedup_id r"
    and "lease_until_ms c = Some u" and "not_before_ms r < u"
  shows "\<exists>db1 db2 c'. enqueue X r db = Inr (db1, Accepted) \<and>
    live db1 (delivery_id r) = Some (c\<lparr>pending_dirty := True\<rparr>) \<and>
    ack X (delivery_id r) (lease_generation c) db1 = Inr (db2, True) \<and> live db2 (delivery_id r) = Some c' \<and>
    same_delivery_content c c' \<and> lease_until_ms c' = None \<and> not_before_ms c' = not_before_ms c \<and>
    attempt c' = 0 \<and> \<not> pending_dirty c'"
proof -
  let ?i = "delivery_id r" and ?c = "c\<lparr>pending_dirty := True\<rparr>"
  have "read_delivery_table (delivery_by_id db) ?i = Inr (Some c)" using assms(2) by (simp add: read_delivery_table_Inr)
  then have run: "enqueue X r db = Inr (enqueue_collapse c r db, Accepted)" using assms(3) by (simp add: enqueue_def)
  have row: "live (enqueue_collapse c r db) ?i = Some ?c"
    using assms(2-6) by (cases "pending_dirty c") (auto simp: enqueue_collapse_def table_updates)
  obtain db2 ok where ack: "ack X ?i (lease_generation c) (enqueue_collapse c r db) = Inr (db2, ok)"
    using ack_total [OF row] by blast
  from ack_rows [OF ack row] have ok: "ok" and "live db2 ?i = after_ack ?c" using assms(5) by simp_all
  then have "live db2 ?i = Some (the (after_ack ?c))" "same_delivery_content c (the (after_ack ?c))"
    "lease_until_ms (the (after_ack ?c)) = None" "not_before_ms (the (after_ack ?c)) = not_before_ms c"
    "attempt (the (after_ack ?c)) = 0" "\<not> pending_dirty (the (after_ack ?c))"
    using assms(3) by (simp_all add: after_ack_def same_delivery_content_def)
  with run row ack ok show ?thesis by auto
qed

theorem keyed_duplicate_follow_up_witness:
  "\<exists>db1 db2 c'. enqueue demo_ext (demo_record ''d'' True) demo_leased = Inr (db1, Accepted) \<and>
     ack demo_ext ''d'' 1 db1 = Inr (db2, True) \<and> live db2 ''d'' = Some c' \<and> lease_until_ms c' = None"
  using keyed_duplicate_follow_up [OF demo_ext_inv [OF demo_leased_inv], of "demo_record ''d'' True"] demo_leased_live
  by (fastforce simp: demo_record_def leased_record_def sat_add_def)

section \<open>Retrying\<close>

text \<open>What a failed attempt makes of a leased delivery \<open>r\<close>: scheduled again, a dead letter that can be
  redriven, or a permanent dead letter, with a follow-up when a keyed duplicate is pending.\<close>

definition retried ::
    "externs \<Rightarrow> retry_failure \<Rightarrow> retry_policy \<Rightarrow> u64 \<Rightarrow> delivery_record \<Rightarrow> retry_outcome \<Rightarrow>
     delivery_record option \<Rightarrow> dead_record option \<Rightarrow> bool" where
  "retried X failure policy now_ms r oc nl nd \<longleftrightarrow>
     (let r1 = failed_record failure r; d = retry_dead_record r1 failure now_ms in
      if attempt r1 < max_attempts policy
      then oc = Scheduled \<and> (\<exists>due. now_ms \<le> due \<and>
        delayed_due X (delivery_id r) (attempt r1) policy now_ms = Inr due \<and> nl = Some (r1\<lparr>not_before_ms := due\<rparr>))
      else if rf_replayable failure
      then oc = DeadPendingRedrive \<and> nl = None \<and> nd = Some d
      else oc = PermanentDead \<and>
        (if collapse_by_dedup_id r \<and> pending_dirty r
         then nl = Some (fst (prepare_dirty_follow_up r1 now_ms)) \<and> nd = Some (d\<lparr>allows_keyed_reuse := True\<rparr>)
         else nl = None \<and> nd = Some d))"

lemma delayed_due_ge: "delayed_due X i n policy now_ms = Inr due \<Longrightarrow> now_ms \<le> due"
  by (auto simp: delayed_due_def Let_def split: option.splits intro: order_trans [OF sat_add_ge sat_add_ge])

lemma compact_keeps_new:
  assumes "segment_encoding b64" and "store_inv b64 db1" and "compact_terminal_dead_records b64 now_ms db1 = Inr (db', n)"
    and "dead db1 i = Some d" and "dead_at_ms d = now_ms"
  shows "dead db' i = Some d"
proof -
  have "compacted_to (retention_cutoff now_ms) db1 db'" using compact_inv(2) assms(1-3) by blast
  then have "dead db' i = dead db1 i \<or> (\<exists>c. retention_cutoff now_ms = Some c \<and> dead_at_ms d \<le> c)"
    using assms(4) unfolding compacted_to_def by fastforce
  with retention_cutoff_less assms(4,5) show ?thesis by (metis leD)
qed

lemma compact_live:
  assumes "segment_encoding b64" and "store_inv b64 db1" and "compact_terminal_dead_records b64 now_ms db1 = Inr (db', n)"
  shows "live db' = live db1" and "suppressed db' = suppressed db1"
  using compact_inv(2) [OF assms] by (simp_all add: compacted_to_def live_side_same_def)

lemma retry_exhausted_retried:
  assumes inv: "store_inv (ext_b64 X) db" and r: "live db i = Some r"
    and run: "retry_exhausted X i failure now_ms (failed_record failure r) (leased_rem k db) = Inr (db1, oc)"
    and max: "max_attempts policy \<le> sat_add (attempt r) 1"
  obtains d nl where "live db1 = (live db)(i := nl)" "dead db1 i = Some d" "dead_at_ms d = now_ms"
    "retried X failure policy now_ms r oc nl (Some d)" "needs_suppression d \<Longrightarrow> i \<in> suppressed db1"
proof -
  note bt = bury_tables [OF inv refl refl refl, where k = k and i = i and r = "failed_record failure r"]
  have exh: "\<not> attempt (failed_record failure r) < max_attempts policy" using max by (simp add: leD)
  show thesis
    using run refl
  proof (cases rule: retry_exhausted_cases)
    case (replay d)
    show thesis
      by (rule that [of None d])
        (use replay exh bt(1,2) [of d] in \<open>auto simp: table_updates retried_def Let_def needs_suppression_def is_terminal_dead_record_def\<close>)
  next
    case (follow_up d r')
    show thesis
      by (rule that [of "Some r'" d])
        (use follow_up exh bt(1,2) [of d] in \<open>auto simp: table_updates retried_def Let_def needs_suppression_def\<close>)
  next
    case (terminal d db2)
    let ?b = "terminal_ins (make_dead_due_index_key (dept (failed_record failure r)) now_ms i)
      (bury X i d (failed_record failure r) (leased_rem k db))"
    have "probe_inv (terminal_suppression_by_slot ?b)"
      using bt(9) [of d] store_invD(5) [OF inv] by (simp add: terminal_ins_def)
    with terminal(5) obtain t where t: "db2 = ?b\<lparr>terminal_suppression_by_slot := t\<rparr>" "suppressed_ids t = insert i (suppressed ?b)"
      by (rule suppress_terminal_deliveryE)
    show thesis
      by (rule that [of None d])
        (use terminal t exh bt(1,2) [of d] in \<open>auto simp: table_updates retried_def Let_def\<close>)
  qed
qed

text \<open>C10: Reporting a failed attempt. When the holder of the current lease reports a failure and the call
  succeeds, the delivery is scheduled again at or after the current time while attempts are left;
  otherwise it becomes a dead letter: one that keeps the delivery for a redrive if the failure is
  replayable, a permanent one otherwise, whose identity is then suppressed unless a pending keyed
  duplicate takes its place as a ready delivery. No other live delivery changes.\<close>

theorem retry_spec:
  assumes "segment_encoding (ext_b64 X)" and "store_inv (ext_b64 X) db"
    and "retry X i (lease_generation r) failure policy now_ms db = Inr (db', oc)"
    and "live db i = Some r" and "lease_until_ms r = Some u"
  shows "retried X failure policy now_ms r oc (live db' i) (dead db' i) \<and>
    (\<forall>j. j \<noteq> i \<longrightarrow> live db' j = live db j) \<and>
    (\<forall>d. oc = PermanentDead \<and> dead db' i = Some d \<and> \<not> allows_keyed_reuse d \<longrightarrow> i \<in> suppressed db')"
  using assms(3)
proof (cases rule: retry_cases)
  case (exhausted r' u' db1 n)
  have r': "r' = r" using exhausted(1) assms(4) by simp
  have inv1: "store_inv (ext_b64 X) db1"
    using retry_exhausted_inv [OF assms(1,2) exhausted(1,2) refl exhausted(5)] .
  obtain d nl where d: "live db1 = (live db)(i := nl)" "dead db1 i = Some d" "dead_at_ms d = now_ms"
    "retried X failure policy now_ms r oc nl (Some d)" "needs_suppression d \<Longrightarrow> i \<in> suppressed db1"
    using retry_exhausted_retried [OF assms(2,4) exhausted(5) [unfolded r'] exhausted(4) [unfolded r']] by blast
  have dd: "dead db' i = Some d" using compact_keeps_new [OF assms(1) inv1 exhausted(6) d(2,3)] .
  have "oc = PermanentDead \<Longrightarrow> is_terminal_dead_record d"
    using d(4) exhausted(4) by (auto simp: retried_def Let_def r' is_terminal_dead_record_def leD split: if_splits)
  with d dd compact_live [OF assms(1) inv1 exhausted(6)] show ?thesis by (auto simp: needs_suppression_def)
next
  case (rescheduled r' u' due r'' db1 n)
  have r': "r' = r" using rescheduled(1) assms(4) by simp
  have inv1: "store_inv (ext_b64 X) db1"
    using rescheduled(7) by (intro release_lease_inv [OF assms(1,2) rescheduled(1,2) _ _ _ rescheduled(8)]) simp_all
  have id: "delivery_id r = i" using store_inv_live_id [OF assms(2,4)] by simp
  have "live db' = (live db)(i \<mapsto> r'')"
    using rescheduled(8) compact_live(1) [OF assms(1) inv1 rescheduled(9)] by (simp add: table_updates)
  moreover have "attempt (failed_record failure r) < max_attempts policy" using rescheduled(4) by (simp add: r')
  then have "retried X failure policy now_ms r oc (Some r'') (dead db' i)"
    using rescheduled(5-7) delayed_due_ge [OF rescheduled(6)] by (simp add: retried_def Let_def r' id)
  ultimately show ?thesis using rescheduled(5) by simp
qed (use assms in auto)

theorem retry_spec_witness:
  "retry demo_ext ''d'' 1 (demo_failure False) demo_policy 10 demo_leased = Inr (demo_dead False, PermanentDead) \<and>
   retried demo_ext (demo_failure False) demo_policy 10 (leased_record 16 (demo_record ''d'' True)) PermanentDead
     (live (demo_dead False) ''d'') (dead (demo_dead False) ''d'')"
proof -
  have run: "retry demo_ext ''d'' (lease_generation (leased_record 16 (demo_record ''d'' True))) (demo_failure False)
      demo_policy 10 demo_leased = Inr (demo_dead False, PermanentDead)"
    using demo_dead_run(1) by (simp add: leased_record_def demo_record_def sat_add_def)
  from retry_spec [OF demo_segment(2) demo_ext_inv [OF demo_leased_inv] run demo_leased_live] demo_dead_run(1) show ?thesis
    by (simp add: leased_record_def)
qed

end
