(* ===== verification/Store_Finality.thy ===== *)
theory Store_Finality
  imports Store_Machine
begin

text \<open>
  What is final in the store: a suppressed delivery whose dead record is terminal never comes back, a
  delivery is redriven only so often, and what one compaction removes.
\<close>

section \<open>Suppressed deliveries stay dead\<close>

definition laid_to_rest :: "string \<Rightarrow> store_db \<Rightarrow> bool" where
  "laid_to_rest i db \<longleftrightarrow> i \<in> suppressed db \<and> live db i = None \<and>
     (\<forall>d. dead db i = Some d \<longrightarrow> is_terminal_dead_record d)"

lemma rows_kept_rest: "rows_kept db db' \<Longrightarrow> laid_to_rest i db \<Longrightarrow> laid_to_rest i db'"
  by (auto simp: rows_kept_def laid_to_rest_def)

lemma compacted_rest: "compacted_to cutoff db db' \<Longrightarrow> laid_to_rest i db \<Longrightarrow> laid_to_rest i db'"
  unfolding compacted_to_def live_side_same_def laid_to_rest_def by (metis option.discI)

lemma enqueue_rest:
  assumes seg: "segment_encoding (ext_b64 X)" and inv: "store_inv (ext_b64 X) db"
    and run: "enqueue X r db = Inr (db', oc)" and rest: "laid_to_rest i db"
  shows "laid_to_rest i db'"
  using run
proof (cases rule: enqueue_cases)
  case (collapse c)
  then have "i \<noteq> delivery_id r" using rest by (auto simp: laid_to_rest_def)
  with rest collapse(3) show ?thesis
    by (auto simp: laid_to_rest_def enqueue_collapse_def table_updates split: option.splits)
next
  case (duplicate c)
  with rest show ?thesis by simp
next
  case (suppressed n)
  with compacted_rest [OF compact_inv(2) [OF seg inv suppressed(2)] rest] show ?thesis by simp
next
  case (fresh db1 n)
  have 1: "laid_to_rest i db1" "store_inv (ext_b64 X) db1"
    using compacted_rest [OF compact_inv(2) [OF seg inv fresh(2)] rest] compact_inv(1) [OF seg inv fresh(2)] by auto
  then have "i \<noteq> delivery_id r" using fresh(3) is_suppressed_iff [OF 1(2)] by (auto simp: laid_to_rest_def)
  with 1(1) fresh(5) show ?thesis by (auto simp: laid_to_rest_def table_updates)
qed

lemma retry_rest:
  assumes seg: "segment_encoding (ext_b64 X)" and inv: "store_inv (ext_b64 X) db"
    and run: "retry X j gen failure policy now_ms db = Inr (db', oc)" and rest: "laid_to_rest i db"
  shows "laid_to_rest i db'"
  using run
proof (cases rule: retry_cases)
  case (unleased r)
  with rest show ?thesis by simp
next
  case (missing n)
  show ?thesis by (rule compacted_rest [OF compact_inv(2) [OF seg inv missing(3)] rest])
next
  case (stale r u n)
  show ?thesis by (rule compacted_rest [OF compact_inv(2) [OF seg inv stale(5)] rest])
next
  case (exhausted r u db1 n)
  have "i \<noteq> j" using exhausted(1) rest by (auto simp: laid_to_rest_def)
  with retry_exhausted_rows [OF inv exhausted(5)] rest have "laid_to_rest i db1"
    by (auto simp: laid_to_rest_def)
  moreover have "store_inv (ext_b64 X) db1"
    using retry_exhausted_inv [OF seg inv exhausted(1,2) refl exhausted(5)] .
  ultimately show ?thesis using compacted_rest [OF compact_inv(2) [OF seg _ exhausted(6)]] by blast
next
  case (rescheduled r u due r' db1 n)
  have "i \<noteq> j" using rescheduled(1) rest by (auto simp: laid_to_rest_def)
  with rescheduled(8) rest have "laid_to_rest i db1" by (auto simp: laid_to_rest_def table_updates)
  moreover have "store_inv (ext_b64 X) db1"
    using rescheduled(7) by (intro release_lease_inv [OF seg inv rescheduled(1,2) _ _ _ rescheduled(8)]) simp_all
  ultimately show ?thesis using compacted_rest [OF compact_inv(2) [OF seg _ rescheduled(9)]] by blast
qed

lemma sweep_one_rest:
  assumes inv: "store_inv (ext_b64 X) db" and run: "sweep_one X queues now_ms budget_ms (db, sw) j = Inr (db', sw')"
    and rest: "laid_to_rest i db"
  shows "laid_to_rest i db'"
  using run
proof (cases rule: sweep_one_cases)
  case (buried r since d)
  with sweep_dead_letter_rows [OF buried(5) inv] rest show ?thesis by (auto simp: laid_to_rest_def)
qed (use rest in \<open>auto simp: laid_to_rest_def table_updates\<close>)

lemma sweep_rest:
  assumes seg: "segment_encoding (ext_b64 X)" and inv: "store_inv (ext_b64 X) db"
    and run: "sweep_subscriber_absence X queues now_ms budget limit db = Inr (db', sw)" and rest: "laid_to_rest i db"
  shows "laid_to_rest i db'"
  using run
proof (cases rule: sweep_cases)
  case same
  with rest show ?thesis by simp
next
  case (swept db1 n)
  let ?P = "\<lambda>st. store_inv (ext_b64 X) (fst st) \<and> laid_to_rest i (fst st)"
  have "?P (db1, sw)"
    using swept(1)
  proof (rule fold_result_inv [where P = ?P])
    show "?P (db, empty_sweep)" using inv rest by simp
    show "?P s'" if "sweep_one X queues now_ms (duration_millis budget) s j = Inr s'" "?P s" for s j s'
      using that sweep_one_inv [OF seg] sweep_one_rest by (cases s; cases s') fastforce
  qed
  then show ?thesis using compacted_rest [OF compact_inv(2) [OF seg _ swept(2)]] by simp
qed

lemma redrive_effect_rest: "redrive_effect j db res db' res' \<Longrightarrow> laid_to_rest i db \<Longrightarrow> laid_to_rest i db'"
  unfolding redrive_effect_def
  by (elim disjE conjE exE)
    (auto simp: rows_same_def made_permanent_def revived_def laid_to_rest_def split: if_splits)

text \<open>A property of pairs of states that each processed key respects holds for the whole redrive.\<close>

lemma redrive_fold_rel:
  assumes seg: "segment_encoding (ext_b64 X)"
    and "fold_result (redrive_key X policy depts now_ms) (a, q, k) ps = Inr (b, q', k')"
    and "store_inv (ext_b64 X) a" and "\<And>p. p \<in> set ps \<Longrightarrow> dead_key_wf p \<and> dead_due_key_current a p"
    and "P a q" and "\<And>p a q k b q' k'. redrive_key X policy depts now_ms (a, q, k) p = Inr (b, q', k') \<Longrightarrow>
      redrive_effect (ikey_id p) a q b q' \<Longrightarrow> P a q \<Longrightarrow> P b q'"
  shows "store_inv (ext_b64 X) b \<and> P b q'"
  using assms(2-)
proof (induction ps arbitrary: a q k)
  case (Cons p ps)
  from Cons.prems(1) obtain a1 q1 k1 where step: "redrive_key X policy depts now_ms (a, q, k) p = Inr (a1, q1, k1)"
    and rest: "fold_result (redrive_key X policy depts now_ms) (a1, q1, k1) ps = Inr (b, q', k')" by auto
  have 1: "store_inv (ext_b64 X) a1" "redrive_effect (ikey_id p) a q a1 q1"
    using redrive_key_inv [OF seg Cons.prems(2) _ _ step] Cons.prems(3) by auto
  have cur: "dead_key_wf p' \<and> dead_due_key_current a1 p'" if "p' \<in> set ps" for p'
    using Cons.prems(3) [of p'] that redrive_effect_current [OF 1(2)] by auto
  show ?case
    by (rule Cons.IH [OF rest 1(1) cur Cons.prems(5) [OF step 1(2) Cons.prems(4)]]) (use Cons.prems(5) in blast)+
qed simp

lemma redrive_rest:
  assumes seg: "segment_encoding (ext_b64 X)" and inv: "store_inv (ext_b64 X) db"
    and run: "redrive_due_inner X policy depts now_ms limit db = Inr (db', res)" and rest: "laid_to_rest i db"
  shows "laid_to_rest i db'"
  using run
proof (cases rule: redrive_due_inner_cases)
  case same
  with rest show ?thesis by simp
next
  case (driven ps db1 m n)
  have "store_inv (ext_b64 X) db1 \<and> laid_to_rest i db1"
    by (rule redrive_fold_rel [OF seg driven(2) inv, where P = "\<lambda>db q. laid_to_rest i db"])
      (use collect_due_dead_current [OF inv driven(1)] rest redrive_effect_rest in blast)+
  then show ?thesis using compacted_rest [OF compact_inv(2) [OF seg _ driven(3)]] by blast
qed

lemma store_step_rest:
  assumes m: "machine_inv X db" and step: "store_step X l db db'" and rest: "laid_to_rest i db"
  shows "laid_to_rest i db'"
proof -
  have seg: "segment_encoding (ext_b64 X)" and inv: "store_inv (ext_b64 X) db" using m by (auto simp: machine_inv_def)
  show ?thesis
    using step
  proof (cases rule: store_step.cases)
    case (step_enqueue r oc)
    then show ?thesis using enqueue_rest [OF seg inv _ rest] by auto
  next
    case (step_ack j gen ok)
    from step_ack(2) show ?thesis
      by (cases rule: ack_cases) (use rest in \<open>auto simp: laid_to_rest_def table_updates\<close>)
  next
    case (step_defer j gen lock policy now_ms oc)
    from step_defer(2) show ?thesis
      by (cases rule: defer_lock_busy_cases) (use rest in \<open>auto simp: laid_to_rest_def table_updates\<close>)
  next
    case (step_retry j gen failure policy now_ms oc)
    then show ?thesis using retry_rest [OF seg inv _ rest] by auto
  next
    case (step_sweep queues now_ms budget limit sw)
    then show ?thesis using sweep_rest [OF seg inv _ rest] by auto
  next
    case (step_redrive policy depts now_ms limit res)
    then show ?thesis using redrive_rest [OF seg inv _ rest] by auto
  next
    case (step_rebind m rb)
    show ?thesis by (rule rows_kept_rest [OF rebind_kept [OF inv step_rebind(2)] rest])
  next
    case step_lease
    show ?thesis by (rule rows_kept_rest [OF lease_matching_kept [OF step_lease(2)] rest])
  next
    case step_next_due
    show ?thesis by (rule rows_kept_rest [OF next_due_kept [OF step_next_due(2)] rest])
  next
    case step_renew
    show ?thesis by (rule rows_kept_rest [OF renew_leases_kept [OF step_renew(2)] rest])
  qed
qed

lemma run_rest:
  assumes "run (store_step X) db ls db'" and "machine_inv X db" and "laid_to_rest i db"
  shows "laid_to_rest i db'"
  using machine.run_rel [OF assms(1,2), where R = "\<lambda>a b. laid_to_rest i a \<longrightarrow> laid_to_rest i b"]
    store_step_rest assms(3) by blast

section \<open>How often a delivery is redriven\<close>

lemma redrive_key_redriven:
  assumes "redrive_key X policy depts now_ms (db, res, m) p = Inr (db', res', m')"
  shows "redriven res' = redriven res \<or>
    (\<exists>d r. redriven res' = redriven res @ [r] \<and> dead db (ikey_id p) = Some d \<and> live db (ikey_id p) = None \<and>
       dr_redrive_count d < max_redrives policy \<and> redrive_count r = sat_add (dr_redrive_count d) 1 \<and>
       attempt r = 0 \<and> lease_until_ms r = None \<and> not_before_ms r = now_ms \<and>
       dead_redrive_cooldown_elapsed (dead_at_ms d) (duration_millis (cooldown policy)) now_ms)"
  using assms
proof (cases rule: redrive_key_cases)
  case (due d)
  show ?thesis
  proof (cases "\<exists>r0 r. dr_record d = Some r0 \<and> redrive_target depts d r0 = Some r \<and> \<not> max_redrives policy \<le> dr_redrive_count d")
    case True
    then obtain r0 r where r: "dr_record d = Some r0" "redrive_target depts d r0 = Some r"
      "\<not> max_redrives policy \<le> dr_redrive_count d" by blast
    from due(5) r obtain lv where lv: "read_delivery_table (delivery_by_id db) (ikey_id p) = Inr lv"
      and run: "(case lv of Some current \<Rightarrow> redrive_collision X p d r current (db, res, m)
          | None \<Rightarrow> Inr (redrive_revive X now_ms p d r (db, res, m))) = Inr (db', res', m')" by auto
    show ?thesis
    proof (cases lv)
      case None
      have "live db (ikey_id p) = None" using read_delivery_table_decoded [OF lv] None by simp
      with run None r(3) due(1,4) show ?thesis by (auto simp: redrive_revive_def Let_def)
    next
      case (Some c)
      with run redrive_collision_redriven show ?thesis by auto
    qed
  next
    case False
    with due(5) show ?thesis
      by (auto split: option.splits if_splits dest!: redrive_exhausted_redriven)
  qed
qed auto

text \<open>What holds of every delivery a redrive brings back.\<close>

definition redriven_ok :: "redrive_policy \<Rightarrow> u64 \<Rightarrow> delivery_record \<Rightarrow> bool" where
  "redriven_ok policy now_ms r \<longleftrightarrow> 1 \<le> redrive_count r \<and> redrive_count r \<le> max_redrives policy \<and>
     attempt r = 0 \<and> lease_until_ms r = None \<and> not_before_ms r = now_ms"

lemma sat_add_1_le: "a < b \<Longrightarrow> sat_add a 1 \<le> b"
  by (simp add: word_le_nat_alt word_less_nat_alt unat_sat_add)

lemma redrive_due_inner_redriven:
  assumes seg: "segment_encoding (ext_b64 X)" and inv: "store_inv (ext_b64 X) db"
    and run: "redrive_due_inner X policy depts now_ms limit db = Inr (db', res)" and r: "r \<in> set (redriven res)"
  shows "redriven_ok policy now_ms r"
proof -
  have step: "\<forall>r \<in> set (redriven q'). redriven_ok policy now_ms r"
    if "redrive_key X policy depts now_ms (a, q, k) p = Inr (b, q', k')" "\<forall>r \<in> set (redriven q). redriven_ok policy now_ms r"
    for a q k p b q' k'
    using redrive_key_redriven [OF that(1)] that(2) sat_add_1_le by (auto simp: redriven_ok_def)
  consider "redriven res = []"
    | ps db1 m where "collect_due_dead_keys policy depts now_ms limit db = Inr ps"
      "fold_result (redrive_key X policy depts now_ms) (db, \<lparr>redriven = [], permanent_dead = []\<rparr>, False) ps = Inr (db1, res, m)"
    using run by (auto simp: redrive_due_inner_def Let_def split: if_splits)
  then show ?thesis
  proof cases
    case 2
    have "store_inv (ext_b64 X) db1 \<and> (\<forall>r \<in> set (redriven res). redriven_ok policy now_ms r)"
      by (rule redrive_fold_rel [OF seg 2(2) inv, where P = "\<lambda>_ q. \<forall>r \<in> set (redriven q). redriven_ok policy now_ms r"])
        (use collect_due_dead_current [OF inv 2(1)] step in auto)
    with r show ?thesis by blast
  qed (use r in simp)
qed

section \<open>What a compaction removes\<close>

text \<open>The keys of the terminal dead records up to a time.\<close>

definition old_terminal_keys :: "u64 \<Rightarrow> store_db \<Rightarrow> due_index_key list" where
  "old_terminal_keys c db =
     filter (\<lambda>p. due_ms p \<le> c) (map parsed_dead_key (map fst (t_iter (terminal_dead_by_time db))))"

definition old_terminal :: "u64 \<Rightarrow> store_db \<Rightarrow> string \<Rightarrow> bool" where
  "old_terminal c db i \<longleftrightarrow> (\<exists>d. dead db i = Some d \<and> is_terminal_dead_record d \<and> dead_at_ms d \<le> c)"

lemma set_old_terminal_keys:
  assumes inv: "store_inv b64 db"
  shows "p \<in> set (old_terminal_keys c db) \<longleftrightarrow>
    (\<exists>d. dead db (ikey_id p) = Some d \<and> is_terminal_dead_record d \<and> dead_at_ms d \<le> c \<and>
       p = parsed_dead_key (make_dead_due_index_key (dr_dept d) (dead_at_ms d) (ikey_id p)))" (is "_ \<longleftrightarrow> ?rhs")
proof -
  have "p \<in> set (old_terminal_keys c db) \<longleftrightarrow>
      (\<exists>k. k \<in> fst ` set (t_iter (terminal_dead_by_time db)) \<and> p = parsed_dead_key k \<and> due_ms p \<le> c)"
    by (auto simp: old_terminal_keys_def)
  also have "\<dots> \<longleftrightarrow> (\<exists>i d. dead db i = Some d \<and> is_terminal_dead_record d \<and>
      p = parsed_dead_key (make_dead_due_index_key (dr_dept d) (dead_at_ms d) i) \<and> due_ms p \<le> c)"
    unfolding terminal_table_keys [OF inv] by blast
  also have "\<dots> \<longleftrightarrow> ?rhs"
  proof
    assume "\<exists>i d. dead db i = Some d \<and> is_terminal_dead_record d \<and>
      p = parsed_dead_key (make_dead_due_index_key (dr_dept d) (dead_at_ms d) i) \<and> due_ms p \<le> c"
    then obtain i d where d: "dead db i = Some d" "is_terminal_dead_record d" "due_ms p \<le> c"
      and p: "p = parsed_dead_key (make_dead_due_index_key (dr_dept d) (dead_at_ms d) i)" by blast
    have "ikey_id p = i" "due_ms p = dead_at_ms d" by (simp_all add: p)
    with d p show ?rhs by auto
  next
    assume ?rhs
    then obtain d where d: "dead db (ikey_id p) = Some d" "is_terminal_dead_record d" "dead_at_ms d \<le> c"
      and p: "p = parsed_dead_key (make_dead_due_index_key (dr_dept d) (dead_at_ms d) (ikey_id p))" by blast
    have "due_ms p = dead_at_ms d" by (subst p) simp
    with d p show "\<exists>i d. dead db i = Some d \<and> is_terminal_dead_record d \<and>
      p = parsed_dead_key (make_dead_due_index_key (dr_dept d) (dead_at_ms d) i) \<and> due_ms p \<le> c" by metis
  qed
  finally show ?thesis .
qed

lemma old_terminal_ids:
  assumes "store_inv b64 db"
  shows "ikey_id ` set (old_terminal_keys c db) = {i. old_terminal c db i}"
proof (rule set_eqI)
  fix i
  show "i \<in> ikey_id ` set (old_terminal_keys c db) \<longleftrightarrow> i \<in> {i. old_terminal c db i}"
  proof
    assume "i \<in> ikey_id ` set (old_terminal_keys c db)"
    then show "i \<in> {i. old_terminal c db i}" using set_old_terminal_keys [OF assms] by (auto simp: old_terminal_def)
  next
    assume "i \<in> {i. old_terminal c db i}"
    then obtain d where d: "dead db i = Some d" "is_terminal_dead_record d" "dead_at_ms d \<le> c" by (auto simp: old_terminal_def)
    then have "parsed_dead_key (make_dead_due_index_key (dr_dept d) (dead_at_ms d) i) \<in> set (old_terminal_keys c db)"
      unfolding set_old_terminal_keys [OF assms] by auto
    then show "i \<in> ikey_id ` set (old_terminal_keys c db)" by (rule rev_image_eqI) simp
  qed
qed

lemma distinct_old_terminal_keys:
  assumes inv: "store_inv b64 db"
  shows "distinct (map ikey_id (old_terminal_keys c db))"
proof -
  let ?key = "\<lambda>i. make_dead_due_index_key (dr_dept (the (dead db i))) (dead_at_ms (the (dead db i))) i"
  define ks where "ks = map fst (t_iter (terminal_dead_by_time db))"
  have key: "?key (ikey_id (parsed_dead_key k)) = k" if "k \<in> set ks" for k
  proof -
    have "k \<in> fst ` set (t_iter (terminal_dead_by_time db))" using that by (simp add: ks_def)
    then show ?thesis unfolding terminal_table_keys [OF inv] by auto
  qed
  have "distinct ks"
    using tab.entries_distinct [of "terminal_dead_by_time db"] store_invD(1) [OF inv] by (simp add: tables_ok_def ks_def)
  moreover have "map ?key (map ikey_id (map parsed_dead_key ks)) = ks"
    unfolding map_map comp_def by (rule map_idI) (rule key)
  ultimately have "distinct (map ?key (map ikey_id (map parsed_dead_key ks)))" by (simp only:)
  then have "distinct (map ikey_id (map parsed_dead_key ks))" by (rule conjunct1 [OF distinct_map [THEN iffD1]])
  then show ?thesis unfolding old_terminal_keys_def ks_def [symmetric] by (rule distinct_map_filter)
qed

lemma compact_key_removes:
  assumes "dead db (ikey_id p) = Some d" and "is_terminal_dead_record d" and "dead_at_ms d \<le> c" and "due_ms p = dead_at_ms d"
  shows "\<exists>db'. compact_key b64 (Some c) p (db, n) = Inr ((db', Suc n), True) \<and> dead db' = (dead db)(ikey_id p := None)"
  using assms by (auto simp: compact_key_def Let_def table_updates leD)

lemma compact_loop_removes:
  assumes "distinct (map ikey_id ps)"
    and "\<And>p. p \<in> set ps \<Longrightarrow> \<exists>d. dead db (ikey_id p) = Some d \<and> is_terminal_dead_record d \<and> dead_at_ms d \<le> c \<and> due_ms p = dead_at_ms d"
  shows "\<exists>db'. compact_loop b64 (Some c) (db, n) ps = Inr (db', n + length ps) \<and>
    dead db' = dead db |` (- (ikey_id ` set ps))"
  using assms
proof (induction ps arbitrary: db n)
  case Nil
  then show ?case by simp
next
  case (Cons p ps)
  obtain d where d: "dead db (ikey_id p) = Some d" "is_terminal_dead_record d" "dead_at_ms d \<le> c" "due_ms p = dead_at_ms d"
    using Cons.prems(2) [of p] by auto
  from compact_key_removes [OF this] obtain db1
    where 1: "compact_key b64 (Some c) p (db, n) = Inr ((db1, Suc n), True)" "dead db1 = (dead db)(ikey_id p := None)" by blast
  have rest: "\<exists>d. dead db1 (ikey_id q) = Some d \<and> is_terminal_dead_record d \<and> dead_at_ms d \<le> c \<and> due_ms q = dead_at_ms d"
    if "q \<in> set ps" for q
  proof -
    have "ikey_id q \<noteq> ikey_id p" using Cons.prems(1) that by (metis distinct.simps(2) image_eqI list.map(2) set_map)
    with Cons.prems(2) [of q] that show ?thesis by (simp add: 1(2))
  qed
  have dist: "distinct (map ikey_id ps)" using Cons.prems(1) by simp
  from Cons.IH [OF dist rest, of "Suc n"] obtain db'
    where 2: "compact_loop b64 (Some c) (db1, Suc n) ps = Inr (db', Suc n + length ps)"
      "dead db' = dead db1 |` (- (ikey_id ` set ps))" by blast
  have "dead db' = dead db |` (- (ikey_id ` set (p # ps)))"
    unfolding 2(2) 1(2) by (auto simp: restrict_map_def fun_eq_iff)
  with 1 2 show ?case by auto
qed

text \<open>The identities that one compaction with a cutoff removes: those of the first keys, oldest first.\<close>

lemma compact_removes:
  assumes inv: "store_inv b64 db" and c: "retention_cutoff now_ms = Some c"
  shows "\<exists>db'. compact_terminal_dead_records b64 now_ms db =
      Inr (db', length (take TERMINAL_DEAD_COMPACTION_LIMIT (old_terminal_keys c db))) \<and>
    dead db' = dead db |` (- (ikey_id ` set (take TERMINAL_DEAD_COMPACTION_LIMIT (old_terminal_keys c db))))"
proof -
  let ?ps = "take TERMINAL_DEAD_COMPACTION_LIMIT (old_terminal_keys c db)"
  have keys: "collect_compactable_terminal_dead_keys db c = Inr ?ps"
    by (simp add: collect_compactable_eq [OF inv] old_terminal_keys_def)
  have cut: "TERMINAL_DEAD_RETENTION_MS \<le> now_ms" "c = now_ms - TERMINAL_DEAD_RETENTION_MS"
    using c by (auto simp: retention_cutoff_def split: if_splits)
  have dist: "distinct (map ikey_id ?ps)" using distinct_old_terminal_keys [OF inv] by (simp add: take_map [symmetric])
  have cur: "\<exists>d. dead db (ikey_id p) = Some d \<and> is_terminal_dead_record d \<and> dead_at_ms d \<le> c \<and> due_ms p = dead_at_ms d"
    if "p \<in> set ?ps" for p
  proof -
    have "p \<in> set (old_terminal_keys c db)" using that by (rule in_set_takeD)
    then obtain d where d: "dead db (ikey_id p) = Some d" "is_terminal_dead_record d" "dead_at_ms d \<le> c"
      "p = parsed_dead_key (make_dead_due_index_key (dr_dept d) (dead_at_ms d) (ikey_id p))"
      unfolding set_old_terminal_keys [OF inv] by blast
    have "due_ms p = dead_at_ms d" by (subst d(4)) simp
    with d show ?thesis by blast
  qed
  from compact_loop_removes [OF dist cur, of b64 0] obtain db'
    where "compact_loop b64 (Some c) (db, 0) ?ps = Inr (db', length ?ps)" "dead db' = dead db |` (- (ikey_id ` set ?ps))"
    by auto
  with keys cut show ?thesis
    by (cases "?ps = []") (auto simp: compact_terminal_dead_records_def Let_def simp del: take_eq_Nil length_take)
qed

end
