(* ===== verification/Finality_Theorems.thy ===== *)
theory Finality_Theorems
  imports Settlement_Theorems Store_Finality
begin

text \<open>
  The theorems of the delivery store on dead letters: suppressed deliveries never come back, bounded
  redrives, and what a compaction removes.
\<close>

section \<open>Suppression\<close>

text \<open>C11: A terminally dead, suppressed delivery never comes back. From any reachable database, whatever
  sequence of operations follows (also after its dead record has been compacted away), the delivery is
  never live again, and every attempt to accept it is answered as terminally suppressed.\<close>

theorem suppressed_forever:
  assumes "reach (store_init X) (store_step X) db" and "i \<in> suppressed db" and "live db i = None"
    and "\<forall>d. dead db i = Some d \<longrightarrow> is_terminal_dead_record d" and "run (store_step X) db ls db'"
  shows "live db' i = None \<and> i \<in> suppressed db' \<and>
    (\<forall>r db'' oc. delivery_id r = i \<and> enqueue X r db' = Inr (db'', oc) \<longrightarrow>
       oc = TerminallySuppressed \<and> live db'' = live db')"
proof -
  have m: "machine_inv X db" using machine.reach_inv [OF assms(1)] .
  then have seg: "segment_encoding (ext_b64 X)" and inv: "store_inv (ext_b64 X) db'"
    using machine.run_inv [OF assms(5)] by (auto simp: machine_inv_def)
  have rest: "laid_to_rest i db'" using run_rest [OF assms(5) m] assms(2-4) by (simp add: laid_to_rest_def)
  have "oc = TerminallySuppressed \<and> live db'' = live db'" if "delivery_id r = i" "enqueue X r db' = Inr (db'', oc)" for r db'' oc
    using that(2)
  proof (cases rule: enqueue_cases)
    case (suppressed n)
    with compact_live(1) [OF seg inv suppressed(2)] show ?thesis by simp
  next
    case (fresh db1 n)
    then have False
      using compact_live(2) [OF seg inv fresh(2)] is_suppressed_iff [OF compact_inv(1) [OF seg inv fresh(2)]] rest that(1)
      by (simp add: laid_to_rest_def)
    then show ?thesis ..
  qed (use rest that(1) in \<open>auto simp: laid_to_rest_def\<close>)
  with rest show ?thesis unfolding laid_to_rest_def by blast
qed

lemma demo_dead_rest:
  "''d'' \<in> suppressed (demo_dead False)" "live (demo_dead False) ''d'' = None"
  "\<forall>d. dead (demo_dead False) ''d'' = Some d \<longrightarrow> is_terminal_dead_record d"
proof -
  have run: "retry demo_ext ''d'' (lease_generation (leased_record 16 (demo_record ''d'' True))) (demo_failure False)
      demo_policy 10 demo_leased = Inr (demo_dead False, PermanentDead)"
    using demo_dead_run(1) by (simp add: leased_record_def demo_record_def sat_add_def)
  have "terminal_delivery_is_suppressed (demo_dead False) ''d'' \<and> live (demo_dead False) ''d'' = None \<and>
      (case dead (demo_dead False) ''d'' of None \<Rightarrow> False | Some d \<Rightarrow> is_terminal_dead_record d)" by code_simp
  then show "''d'' \<in> suppressed (demo_dead False)" "live (demo_dead False) ''d'' = None"
    "\<forall>d. dead (demo_dead False) ''d'' = Some d \<longrightarrow> is_terminal_dead_record d"
    using is_suppressed_iff [OF demo_inv [OF demo_dead_reach]] by (auto split: option.splits)
qed

theorem suppressed_forever_witness:
  "''d'' \<in> suppressed (demo_dead False) \<and> live (demo_dead False) ''d'' = None \<and>
   (\<exists>db'. enqueue demo_ext (demo_record ''d'' True) (demo_dead False) = Inr (db', TerminallySuppressed) \<and>
      live db' ''d'' = None)"
proof -
  have "isl (enqueue demo_ext (demo_record ''d'' True) (demo_dead False)) = False" by code_simp
  then obtain db' oc where run: "enqueue demo_ext (demo_record ''d'' True) (demo_dead False) = Inr (db', oc)"
    by (cases "enqueue demo_ext (demo_record ''d'' True) (demo_dead False)") auto
  moreover have "delivery_id (demo_record ''d'' True) = ''d''" by (simp add: demo_record_def)
  ultimately show ?thesis
    using suppressed_forever [OF demo_dead_reach demo_dead_rest run_Nil] demo_dead_rest(1,2) by metis
qed

section \<open>Redrives\<close>

text \<open>C12: Redrives are bounded. Every delivery that a redrive brings back has been redriven at least once
  and at most \<open>max_redrives\<close> times, starts with no attempts and no lease, and is due at once.\<close>

theorem redrive_bounded:
  assumes "segment_encoding (ext_b64 X)" and "store_inv (ext_b64 X) db"
    and "redrive_due_inner X policy depts now_ms limit db = Inr (db', res)" and "r \<in> set (redriven res)"
  shows "1 \<le> redrive_count r \<and> redrive_count r \<le> max_redrives policy \<and> attempt r = 0 \<and>
    lease_until_ms r = None \<and> not_before_ms r = now_ms"
  using redrive_due_inner_redriven [OF assms] by (simp add: redriven_ok_def)

definition demo_redrive :: redrive_policy where
  "demo_redrive = \<lparr>max_redrives = 2, cooldown = from_millis 1\<rparr>"

lemma demo_redriven: "\<exists>db' res r. redrive_due demo_ext demo_redrive 12 5 (demo_dead True) = Inr (db', res) \<and> redriven res = [r]"
proof -
  have "case redrive_due demo_ext demo_redrive 12 5 (demo_dead True) of Inl _ \<Rightarrow> False
    | Inr (db', res) \<Rightarrow> redriven res = [hd (redriven res)]" by code_simp
  then show ?thesis by (auto split: sum.splits)
qed

theorem redrive_bounded_witness:
  "\<exists>db' res r. redrive_due_inner demo_ext demo_redrive None 12 5 (demo_dead True) = Inr (db', res) \<and>
     r \<in> set (redriven res) \<and> redrive_count r \<le> 2 \<and> not_before_ms r = 12"
proof -
  obtain db' res r where run: "redrive_due_inner demo_ext demo_redrive None 12 5 (demo_dead True) = Inr (db', res)"
    and r: "redriven res = [r]" using demo_redriven by (auto simp: redrive_due_def)
  from redrive_bounded [OF demo_segment(2) demo_ext_inv [OF demo_inv [OF demo_dead_reach]] run, of r] run r show ?thesis
    by (auto simp: demo_redrive_def)
qed

section \<open>Compaction\<close>

text \<open>C13: A compaction never fails on a consistent database. It removes dead records only, only terminal
  ones whose retention has run out, at most 1024 of them at a time and as many as it counts; when it
  counts fewer, none is left. Suppressed identities stay suppressed, and the live deliveries are not
  touched.\<close>

theorem compaction_spec:
  assumes "segment_encoding b64" and "store_inv b64 db" and "TERMINAL_DEAD_RETENTION_MS \<le> now_ms"
  shows "\<exists>db' n. compact_terminal_dead_records b64 now_ms db = Inr (db', n) \<and> store_inv b64 db' \<and>
    live db' = live db \<and> suppressed db' = suppressed db \<and> n \<le> 1024 \<and>
    card {i. dead db i \<noteq> None \<and> dead db' i = None} = n \<and>
    (\<forall>i. dead db' i = dead db i \<or>
       dead db' i = None \<and> old_terminal (now_ms - TERMINAL_DEAD_RETENTION_MS) db i) \<and>
    (n < 1024 \<longrightarrow> (\<forall>i. \<not> old_terminal (now_ms - TERMINAL_DEAD_RETENTION_MS) db' i))"
proof -
  define c ps where "c = now_ms - TERMINAL_DEAD_RETENTION_MS"
    and "ps = take TERMINAL_DEAD_COMPACTION_LIMIT (old_terminal_keys c db)"
  have cut: "retention_cutoff now_ms = Some c" using assms(3) by (simp add: retention_cutoff_def c_def)
  obtain db' where run: "compact_terminal_dead_records b64 now_ms db = Inr (db', length ps)"
    and dd: "dead db' = dead db |` (- (ikey_id ` set ps))"
    using compact_removes [OF assms(2) cut] by (auto simp: ps_def)
  have ids: "i \<in> ikey_id ` set ps \<Longrightarrow> old_terminal c db i" for i
    using old_terminal_ids [OF assms(2), of c] by (auto simp: ps_def dest: in_set_takeD)
  then have "{i. dead db i \<noteq> None \<and> dead db' i = None} = ikey_id ` set ps"
    by (auto simp: dd restrict_map_def old_terminal_def split: if_splits)
  moreover have "distinct (map ikey_id ps)"
    using distinct_old_terminal_keys [OF assms(2)] by (simp add: ps_def take_map [symmetric])
  then have "card (ikey_id ` set ps) = length ps" using distinct_card [of "map ikey_id ps"] by simp
  moreover have "\<not> old_terminal c db' i" if "length ps < 1024" for i
  proof -
    have "ps = old_terminal_keys c db" using that by (auto simp: ps_def TERMINAL_DEAD_COMPACTION_LIMIT_def)
    then have "i \<in> ikey_id ` set ps \<longleftrightarrow> old_terminal c db i" using old_terminal_ids [OF assms(2), of c] by auto
    then show ?thesis by (auto simp: old_terminal_def dd restrict_map_def split: if_splits)
  qed
  moreover have "length ps \<le> 1024" by (simp add: ps_def TERMINAL_DEAD_COMPACTION_LIMIT_def)
  moreover have "\<forall>i. dead db' i = dead db i \<or> dead db' i = None \<and> old_terminal c db i"
    using ids by (auto simp: dd restrict_map_def)
  ultimately show ?thesis
    using run compact_inv(1) [OF assms(1,2) run] compact_live [OF assms(1,2) run] by (auto simp: c_def [symmetric])
qed

theorem compaction_spec_witness:
  "TERMINAL_DEAD_RETENTION_MS \<le> 86400010 \<and>
   (\<exists>db' n. compact_terminal_dead_records encode_ordered_lineage_id 86400010 (demo_dead False) = Inr (db', n) \<and>
     live db' = live (demo_dead False) \<and> suppressed db' = suppressed (demo_dead False))"
proof -
  have now: "TERMINAL_DEAD_RETENTION_MS \<le> 86400010" by (simp add: TERMINAL_DEAD_RETENTION_MS_def)
  from compaction_spec [OF demo_segment(1) demo_inv [OF demo_dead_reach] now, of False] now show ?thesis by blast
qed

end
