(* ===== verification/Sha256.thy ===== *)
theory Sha256
  imports Fkst_Prelude
begin

text \<open>
  The SHA-256 routine of the delivery router (\<open>sha256\<close>, \<open>stable_hex_hash\<close> in
  \<open>supervise/delivery_router.rs\<close>) on lists of bytes with wrapping 32-bit arithmetic, and the
  definition of the standard it is compared with: the message schedule by its recurrence, the padding by
  its length equation.
\<close>

unbundle bit_operations_syntax

section \<open>The routine\<close>

definition H0 :: "u32 list" where
  "H0 = [0x6a09e667, 0xbb67ae85, 0x3c6ef372, 0xa54ff53a, 0x510e527f, 0x9b05688c, 0x1f83d9ab, 0x5be0cd19]"

definition K :: "u32 list" where
  "K = concat [
     [0x428a2f98, 0x71374491, 0xb5c0fbcf, 0xe9b5dba5, 0x3956c25b, 0x59f111f1, 0x923f82a4],
     [0xab1c5ed5, 0xd807aa98, 0x12835b01, 0x243185be, 0x550c7dc3, 0x72be5d74, 0x80deb1fe],
     [0x9bdc06a7, 0xc19bf174, 0xe49b69c1, 0xefbe4786, 0x0fc19dc6, 0x240ca1cc, 0x2de92c6f],
     [0x4a7484aa, 0x5cb0a9dc, 0x76f988da, 0x983e5152, 0xa831c66d, 0xb00327c8, 0xbf597fc7],
     [0xc6e00bf3, 0xd5a79147, 0x06ca6351, 0x14292967, 0x27b70a85, 0x2e1b2138, 0x4d2c6dfc],
     [0x53380d13, 0x650a7354, 0x766a0abb, 0x81c2c92e, 0x92722c85, 0xa2bfe8a1, 0xa81a664b],
     [0xc24b8b70, 0xc76c51a3, 0xd192e819, 0xd6990624, 0xf40e3585, 0x106aa070, 0x19a4c116],
     [0x1e376c08, 0x2748774c, 0x34b0bcb5, 0x391c0cb3, 0x4ed8aa4a, 0x5b9cca4f, 0x682e6ff3],
     [0x748f82ee, 0x78a5636f, 0x84c87814, 0x8cc70208, 0x90befffa, 0xa4506ceb, 0xbef9a3f7],
     [0xc67178f2]]"

text \<open>\<open>u64::to_be_bytes\<close>, \<open>u32::to_be_bytes\<close> and \<open>u32::from_be_bytes\<close>.\<close>

definition be_bytes64 :: "u64 \<Rightarrow> u8 list" where
  "be_bytes64 x = map (\<lambda>i. ucast (drop_bit (8 * (7 - i)) x)) [0..<8]"

definition be_bytes32 :: "u32 \<Rightarrow> u8 list" where
  "be_bytes32 x = map (\<lambda>i. ucast (drop_bit (8 * (3 - i)) x)) [0..<4]"

definition from_be_bytes32 :: "u8 list \<Rightarrow> u32" where
  "from_be_bytes32 bs = foldl (\<lambda>acc b. push_bit 8 acc OR ucast b) 0 bs"

text \<open>The loop that appends zero bytes.\<close>

function pad_zeros :: "u8 list \<Rightarrow> u8 list" where
  "pad_zeros m = (if length m mod 64 \<noteq> 56 then pad_zeros (m @ [0]) else m)"
  by pat_completeness auto
termination
proof (relation "measure (\<lambda>m. (120 - length m mod 64) mod 64)")
  show "(m @ [0], m) \<in> measure (\<lambda>m. (120 - length m mod 64) mod 64)"
    if "length m mod 64 \<noteq> 56" for m :: "u8 list"
  proof -
    have r: "length m mod 64 < 64" by simp
    have s: "Suc (length m) mod 64 = (if length m mod 64 = 63 then 0 else Suc (length m mod 64))"
      by (simp add: mod_Suc)
    define q where "q = length m mod 64"
    have "q < 64" "q \<noteq> 56" using r that by (auto simp: q_def)
    then have "(120 - (if q = 63 then 0 else Suc q)) mod 64 < (120 - q) mod (64 :: nat)"
      by (cases "q < 56") (auto simp: mod_if)
    then show ?thesis by (cases "q = 63") (simp_all add: s flip: q_def)
  qed
qed simp

declare pad_zeros.simps [simp del]

definition pad_message :: "u8 list \<Rightarrow> u8 list" where
  "pad_message input =
     (let bit_len = (of_nat (length input) :: u64) * 8
      in pad_zeros (input @ [0x80]) @ be_bytes64 bit_len)"

text \<open>\<open>slice::chunks_exact\<close>: a shorter remainder is not visited.\<close>

definition chunks_exact :: "nat \<Rightarrow> 'a list \<Rightarrow> 'a list list" where
  "chunks_exact n xs = filter (\<lambda>c. length c = n) (chunks n xs)"

definition load_word :: "u8 list \<Rightarrow> u32 list \<Rightarrow> nat \<Rightarrow> u32 list" where
  "load_word chunk w idx =
     (let offset = idx * 4
      in w[idx := from_be_bytes32 [chunk ! offset, chunk ! (offset + 1), chunk ! (offset + 2), chunk ! (offset + 3)]])"

definition extend_word :: "u32 list \<Rightarrow> nat \<Rightarrow> u32 list" where
  "extend_word w idx =
     (let s0 = word_rotr 7 (w ! (idx - 15)) XOR word_rotr 18 (w ! (idx - 15)) XOR drop_bit 3 (w ! (idx - 15));
          s1 = word_rotr 17 (w ! (idx - 2)) XOR word_rotr 19 (w ! (idx - 2)) XOR drop_bit 10 (w ! (idx - 2))
      in w[idx := w ! (idx - 16) + s0 + w ! (idx - 7) + s1])"

definition schedule :: "u8 list \<Rightarrow> u32 list" where
  "schedule chunk = foldl extend_word (foldl (load_word chunk) (replicate 64 0) [0..<16]) [16..<64]"

type_synonym sha_vars = "u32 \<times> u32 \<times> u32 \<times> u32 \<times> u32 \<times> u32 \<times> u32 \<times> u32"

fun sha_round :: "u32 list \<Rightarrow> sha_vars \<Rightarrow> nat \<Rightarrow> sha_vars" where
  "sha_round w (a, b, c, d, e, f, g, hh) idx =
     (let s1 = word_rotr 6 e XOR word_rotr 11 e XOR word_rotr 25 e;
          ch = (e AND f) XOR (NOT e AND g);
          temp1 = hh + s1 + ch + K ! idx + w ! idx;
          s0 = word_rotr 2 a XOR word_rotr 13 a XOR word_rotr 22 a;
          maj = (a AND b) XOR (a AND c) XOR (b AND c);
          temp2 = s0 + maj
      in (temp1 + temp2, a, b, c, d + temp1, e, f, g))"

definition sha_block :: "u32 list \<Rightarrow> u8 list \<Rightarrow> u32 list" where
  "sha_block h chunk =
     (let w = schedule chunk;
          (a, b, c, d, e, f, g, hh) =
            foldl (sha_round w) (h ! 0, h ! 1, h ! 2, h ! 3, h ! 4, h ! 5, h ! 6, h ! 7) [0..<64]
      in [h ! 0 + a, h ! 1 + b, h ! 2 + c, h ! 3 + d, h ! 4 + e, h ! 5 + f, h ! 6 + g, h ! 7 + hh])"

definition sha256 :: "u8 list \<Rightarrow> u8 list" where
  "sha256 input = concat (map be_bytes32 (foldl sha_block H0 (chunks_exact 64 (pad_message input))))"

definition bytes_of :: "string \<Rightarrow> u8 list" where
  "bytes_of s = map of_char s"

text \<open>\<open>{byte:02x}\<close> of a machine byte.\<close>

definition u8_hex :: "u8 \<Rightarrow> string" where
  "u8_hex b = byte_hex (char_of (unat b))"

definition stable_hex_hash :: "string \<Rightarrow> string" where
  "stable_hex_hash value = concat (map u8_hex (take 16 (sha256 (bytes_of value))))"

section \<open>Padding\<close>

lemma pad_zeros_eq: "pad_zeros m = m @ replicate ((120 - length m mod 64) mod 64) 0"
proof (induction m rule: pad_zeros.induct)
  case (1 m)
  define q where "q = length m mod 64"
  have q: "q < 64" by (simp add: q_def)
  show ?case
  proof (cases "q = 56")
    case True
    then show ?thesis by (simp add: pad_zeros.simps [of m] q_def)
  next
    case False
    have s: "Suc (length m) mod 64 = (if q = 63 then 0 else Suc q)"
      by (simp add: mod_Suc q_def)
    have n: "(120 - q) mod 64 = Suc ((120 - (if q = 63 then 0 else Suc q)) mod (64 :: nat))"
      using q False by (cases "q < 56") (auto simp: mod_if)
    have "pad_zeros m = pad_zeros (m @ [0])"
      using False by (simp add: pad_zeros.simps [of m] q_def)
    also have "\<dots> = m @ 0 # replicate ((120 - (if q = 63 then 0 else Suc q)) mod 64) 0"
      using 1 False by (simp add: q_def [symmetric] s)
    also have "\<dots> = m @ replicate ((120 - q) mod 64) 0" by (simp add: n)
    finally show ?thesis by (simp add: q_def)
  qed
qed

lemma length_pad_zeros: "length (pad_zeros m) mod 64 = 56"
proof -
  define d r where "d = length m div 64" and "r = length m mod 64"
  have m: "length m = 64 * d + r" and "r < 64" by (simp_all add: d_def r_def)
  then have "length m + (120 - r) = 56 + 64 * (d + 1)" by simp
  then have "(length m + (120 - r) mod 64) mod 64 = (56 + 64 * (d + 1)) mod 64"
    by (metis mod_add_right_eq)
  also have "\<dots> = 56" by (subst mod_mult_self2) simp
  finally show ?thesis by (simp add: pad_zeros_eq r_def)
qed

lemma length_be_bytes [simp]: "length (be_bytes64 x) = 8" "length (be_bytes32 y) = 4"
  by (simp_all add: be_bytes64_def be_bytes32_def)

lemma length_pad_message: "length (pad_message input) mod 64 = 0"
proof -
  have "(length (pad_zeros (input @ [0x80])) + 8) mod 64 = (56 + 8) mod 64"
    using length_pad_zeros [of "input @ [0x80]"] by (metis mod_add_left_eq)
  then show ?thesis by (simp add: pad_message_def Let_def)
qed

text \<open>Every byte of the padded message is in a block that is visited.\<close>

lemma chunks_full:
  assumes "length xs mod n = 0" and "0 < n"
  shows "\<forall>c \<in> set (chunks n xs). length c = n" and "concat (chunks n xs) = xs"
proof -
  have "(\<forall>c \<in> set (chunks n xs). length c = n) \<and> concat (chunks n xs) = xs"
    using assms
  proof (induction n xs rule: chunks.induct)
    case (1 n xs)
    show ?case
    proof (cases "xs = []")
      case True
      then show ?thesis by (simp add: chunks.simps)
    next
      case False
      with 1(2,3) have "n \<le> length xs"
        by (metis length_0_conv mod_less not_le)
      then have d: "length (drop n xs) mod n = 0" using 1(2) le_mod_geq [of n "length xs"] by simp
      have IH: "(\<forall>c \<in> set (chunks n (drop n xs)). length c = n) \<and>
          concat (chunks n (drop n xs)) = drop n xs"
        by (rule 1(1) [OF _ d 1(3)]) (use 1(3) False in simp)
      have c: "chunks n xs = take n xs # chunks n (drop n xs)"
        using 1(3) False by (subst chunks.simps) simp
      have "length (take n xs) = n" using \<open>n \<le> length xs\<close> by simp
      with IH show ?thesis unfolding c by (metis append_take_drop_id concat.simps(2) set_ConsD)
    qed
  qed
  then show "\<forall>c \<in> set (chunks n xs). length c = n" and "concat (chunks n xs) = xs" by auto
qed

lemma chunks_exact_pad:
  "concat (chunks_exact 64 (pad_message input)) = pad_message input"
  "\<forall>c \<in> set (chunks_exact 64 (pad_message input)). length c = 64"
  using chunks_full [OF length_pad_message [of input]] by (simp_all add: chunks_exact_def filter_id_conv)

section \<open>The schedule and its recurrence\<close>

definition sigma0 :: "u32 \<Rightarrow> u32" where
  "sigma0 x = word_rotr 7 x XOR word_rotr 18 x XOR drop_bit 3 x"

definition sigma1 :: "u32 \<Rightarrow> u32" where
  "sigma1 x = word_rotr 17 x XOR word_rotr 19 x XOR drop_bit 10 x"

text \<open>\<open>W t\<close> of the standard.\<close>

fun W :: "u8 list \<Rightarrow> nat \<Rightarrow> u32" where
  "W chunk t =
     (if t < 16 then from_be_bytes32 (take 4 (drop (4 * t) chunk))
      else sigma1 (W chunk (t - 2)) + W chunk (t - 7) + sigma0 (W chunk (t - 15)) + W chunk (t - 16))"

declare W.simps [simp del]

lemma take4_drop: "4 * t + 4 \<le> length c \<Longrightarrow> take 4 (drop (4 * t) c) = [c ! (t * 4), c ! (t * 4 + 1), c ! (t * 4 + 2), c ! (t * 4 + 3)]"
  by (rule nth_equalityI) (auto simp: less_Suc_eq numeral_eq_Suc nth_append mult.commute)

lemma load_words:
  assumes "length chunk = 64" and "n \<le> 16"
  shows "length (foldl (load_word chunk) (replicate 64 0) [0..<n]) = 64 \<and>
    (\<forall>t < n. foldl (load_word chunk) (replicate 64 0) [0..<n] ! t = W chunk t)"
  using assms(2)
proof (induction n)
  case (Suc n)
  then show ?case using assms(1)
    by (auto simp: load_word_def Let_def nth_list_update W.simps take4_drop less_Suc_eq)
qed simp

lemma extend_words:
  assumes "length w = 64" and "\<forall>t < 16. w ! t = W chunk t" and "16 \<le> n" and "n \<le> 64"
  shows "length (foldl extend_word w [16..<n]) = 64 \<and> (\<forall>t < n. foldl extend_word w [16..<n] ! t = W chunk t)"
  using assms(3,4)
proof (induction n rule: dec_induct)
  case base
  then show ?case using assms(1,2) by simp
next
  case (step n)
  define v where "v = foldl extend_word w [16..<n]"
  have v: "length v = 64" "\<And>t. t < n \<Longrightarrow> v ! t = W chunk t" using step by (auto simp: v_def)
  have f: "foldl extend_word w [16..<Suc n] = extend_word v n" using step(1) by (simp add: v_def)
  have "extend_word v n ! n = W chunk n"
    using v step(1,4)
    by (simp add: extend_word_def Let_def W.simps [of chunk n] sigma0_def sigma1_def algebra_simps)
  moreover have "extend_word v n ! t = v ! t" if "t < n" for t
    using that by (simp add: extend_word_def Let_def)
  moreover have "length (extend_word v n) = 64" by (simp add: extend_word_def Let_def v)
  ultimately show ?case unfolding f using v by (auto simp: less_Suc_eq)
qed

lemma schedule_W:
  assumes "length chunk = 64"
  shows "schedule chunk = map (W chunk) [0..<64]"
proof -
  note l = load_words [OF assms, of 16, simplified]
  from extend_words [of "foldl (load_word chunk) (replicate 64 0) [0..<16]" chunk 64] l
  have "length (schedule chunk) = 64" "\<And>t. t < 64 \<Longrightarrow> schedule chunk ! t = W chunk t"
    by (auto simp: schedule_def)
  then show ?thesis by (intro nth_equalityI) auto
qed

section \<open>Output\<close>

lemma length_sha_block [simp]: "length (sha_block h chunk) = 8"
  by (simp add: sha_block_def Let_def split: prod.split)

lemma length_sha_fold: "length h = 8 \<Longrightarrow> length (foldl sha_block h cs) = 8"
  by (induction cs arbitrary: h) auto

lemma length_sha256 [simp]: "length (sha256 input) = 32"
proof -
  have "length (foldl sha_block H0 (chunks_exact 64 (pad_message input))) = 8"
    by (rule length_sha_fold) (simp add: H0_def)
  then show ?thesis by (simp add: sha256_def length_concat comp_def sum_list_triv)
qed

lemma concat_map_pairs: "(\<And>x. length (f x) = n) \<Longrightarrow> length (concat (map f xs)) = n * length xs"
  by (induction xs) auto

lemma length_stable_hex_hash [simp]: "length (stable_hex_hash value) = 32"
  using concat_map_pairs [of u8_hex 2] by (simp add: stable_hex_hash_def u8_hex_def)

lemma stable_hex_hash_alnum: "list_all is_alnum (stable_hex_hash value)"
proof -
  have "list_all is_alnum (concat (map u8_hex bs))" for bs
    by (induction bs) (auto simp: u8_hex_def byte_hex_alnum)
  then show ?thesis by (simp add: stable_hex_hash_def)
qed

section \<open>The standard\<close>

text \<open>FIPS 180-4: the padding adds the least number of zero bits for which the length is 448 modulo 512,
  the compression function uses \<open>W t\<close>, \<open>Ch\<close>, \<open>Maj\<close> and the two \<open>\<Sigma>\<close> functions.\<close>

definition fips_pad :: "u8 list \<Rightarrow> u8 list" where
  "fips_pad m =
     (let k = hd (filter (\<lambda>k. (8 * length m + 8 + 8 * k) mod 512 = 448) [0..<64])
      in m @ [0x80] @ replicate k 0 @ be_bytes64 (of_nat (8 * length m)))"

definition Ch :: "u32 \<Rightarrow> u32 \<Rightarrow> u32 \<Rightarrow> u32" where
  "Ch x y z = (x AND y) XOR (NOT x AND z)"

definition Maj :: "u32 \<Rightarrow> u32 \<Rightarrow> u32 \<Rightarrow> u32" where
  "Maj x y z = (x AND y) XOR (x AND z) XOR (y AND z)"

definition Sigma0 :: "u32 \<Rightarrow> u32" where
  "Sigma0 x = word_rotr 2 x XOR word_rotr 13 x XOR word_rotr 22 x"

definition Sigma1 :: "u32 \<Rightarrow> u32" where
  "Sigma1 x = word_rotr 6 x XOR word_rotr 11 x XOR word_rotr 25 x"

primrec fips_rounds :: "u8 list \<Rightarrow> sha_vars \<Rightarrow> nat \<Rightarrow> sha_vars" where
  "fips_rounds blk v 0 = v"
| "fips_rounds blk v (Suc t) =
     (case fips_rounds blk v t of (a, b, c, d, e, f, g, h) \<Rightarrow>
        let T1 = h + Sigma1 e + Ch e f g + K ! t + W blk t;
            T2 = Sigma0 a + Maj a b c
        in (T1 + T2, a, b, c, d + T1, e, f, g))"

fun fips_block :: "sha_vars \<Rightarrow> u8 list \<Rightarrow> sha_vars" where
  "fips_block (h0, h1, h2, h3, h4, h5, h6, h7) blk =
     (case fips_rounds blk (h0, h1, h2, h3, h4, h5, h6, h7) 64 of (a, b, c, d, e, f, g, h) \<Rightarrow>
        (h0 + a, h1 + b, h2 + c, h3 + d, h4 + e, h5 + f, h6 + g, h7 + h))"

fun fips_vars :: "sha_vars \<Rightarrow> u32 list" where
  "fips_vars (h0, h1, h2, h3, h4, h5, h6, h7) = [h0, h1, h2, h3, h4, h5, h6, h7]"

definition fips_init :: sha_vars where
  "fips_init = (0x6a09e667, 0xbb67ae85, 0x3c6ef372, 0xa54ff53a, 0x510e527f, 0x9b05688c, 0x1f83d9ab, 0x5be0cd19)"

definition fips_sha256 :: "u8 list \<Rightarrow> u8 list" where
  "fips_sha256 m = concat (map be_bytes32 (fips_vars (foldl fips_block fips_init (chunks 64 (fips_pad m)))))"

text \<open>The least number of zero bytes is the one the loop appends.\<close>

lemma hd_filter_least:
  fixes n b :: nat
  assumes "P n" and "\<And>k. k < n \<Longrightarrow> \<not> P k" and "n < b"
  shows "hd (filter P [0..<b]) = n"
proof -
  have "[0..<b] = [0..<n] @ n # [Suc n..<b]"
    using assms(3) by (metis append_Cons append_Nil le_less not_le upt_add_eq_append upt_conv_Cons zero_le less_imp_add_positive)
  moreover have "filter P [0..<n] = []" using assms(2) by (simp add: filter_empty_conv)
  ultimately show ?thesis using assms(1) by simp
qed

lemma pad_count:
  "hd (filter (\<lambda>k. (8 * n + 8 + 8 * k) mod 512 = 448) [0..<64]) = (120 - Suc n mod 64) mod 64"
proof (rule hd_filter_least)
  define d r where "d = Suc n div 64" and "r = Suc n mod 64"
  have n: "Suc n = 64 * d + r" and r: "r < 64" by (simp_all add: d_def r_def)
  have e: "8 * n + 8 + 8 * k = 8 * (r + k) + d * 512" for k using n by simp
  have m: "(8 * n + 8 + 8 * k) mod 512 = 8 * ((r + k) mod 64)" for k
    unfolding e using mult_mod_right [of 8 "r + k" 64] by simp
  have c: "(120 - Suc n mod 64) mod 64 = (if r \<le> 56 then 56 - r else 120 - r)"
    using r unfolding r_def [symmetric] by (cases "r \<le> 56") (auto simp: mod_if)
  show "(8 * n + 8 + 8 * ((120 - Suc n mod 64) mod 64)) mod 512 = 448"
    unfolding m c using r by (cases "r \<le> 56") simp_all
  show "(8 * n + 8 + 8 * k) mod 512 \<noteq> 448" if "k < (120 - Suc n mod 64) mod 64" for k
  proof -
    have b: "r + k < 56 \<or> 56 < r + k \<and> r + k < 120"
      using that r unfolding c by (cases "r \<le> 56") (simp_all, linarith)
    have "(r + k) mod 64 \<noteq> 56"
    proof (cases "r + k < 64")
      case True
      with b show ?thesis by (simp only: mod_less) linarith
    next
      case False
      then have "(r + k) mod 64 = (r + k - 64) mod 64" by (intro le_mod_geq) simp
      moreover have "r + k - 64 < 56" using b False by linarith
      ultimately show ?thesis by simp
    qed
    then show ?thesis unfolding m by simp
  qed
qed simp

lemma pad_message_fips: "pad_message m = fips_pad m"
  unfolding pad_message_def fips_pad_def pad_zeros_eq pad_count Let_def by (simp add: mult.commute)

lemma rounds_fips:
  assumes "length blk = 64" and "n \<le> 64"
  shows "foldl (sha_round (schedule blk)) v [0..<n] = fips_rounds blk v n"
  using assms(2)
proof (induction n)
  case (Suc n)
  then have "schedule blk ! n = W blk n" by (simp add: schedule_W [OF assms(1)])
  with Suc show ?case
    by (simp add: Let_def Ch_def Maj_def Sigma0_def Sigma1_def split: prod.split)
qed simp

lemma block_fips: "length blk = 64 \<Longrightarrow> sha_block (fips_vars v) blk = fips_vars (fips_block v blk)"
  by (induction v blk rule: fips_block.induct) (simp add: sha_block_def rounds_fips Let_def split: prod.split)

lemma blocks_fips:
  "\<forall>b \<in> set bs. length b = 64 \<Longrightarrow> foldl sha_block (fips_vars v) bs = fips_vars (foldl fips_block v bs)"
  by (induction bs arbitrary: v) (auto simp: block_fips)

lemma sha256_fips: "sha256 m = fips_sha256 m"
proof -
  have "chunks_exact 64 (pad_message m) = chunks 64 (fips_pad m)"
    using chunks_full [OF length_pad_message [of m]]
    by (simp add: chunks_exact_def filter_id_conv flip: pad_message_fips)
  moreover have "H0 = fips_vars fips_init" by (simp add: H0_def fips_init_def)
  ultimately show ?thesis
    using blocks_fips [of "chunks_exact 64 (pad_message m)" fips_init] chunks_exact_pad(2) [of m]
    by (simp add: sha256_def fips_sha256_def)
qed

end
