(* ===== verification/Startup_Config.thy ===== *)
theory Startup_Config
  imports Ordered_Table
begin

text \<open>
  The declarations of the startup graph and their validation (\<open>fkst-common/src/config.rs\<close>,
  \<open>built_in_provider.rs\<close>, \<open>validation.rs\<close>). A \<open>BTreeMap\<close> is a table, iterated in key order.
  An error message is a constructor of \<open>schema_error\<close> with the names the message mentions. Whether a
  path is a file is asked from the file system, a parameter \<open>is_file\<close>.
\<close>

section \<open>Declarations\<close>

record queue_decl =
  capacity :: nat
  fanout :: bool

datatype raiser_decl = CronRaiser string string | FileWatchRaiser string string

record retry_decl =
  decl_max_attempts :: u64
  decl_base :: string
  decl_cap :: string

record department_decl =
  lua :: string
  owner_root :: string
  owner_namespace :: string
  consumes :: "string list"
  produces :: "string list"
  published_seam :: "string list"
  ephemeral :: "string list"
  stall_window :: string
  graph_json :: bool
  retry_of :: "retry_decl option"

record limits_decl =
  global_codex_processes :: nat

record config =
  cfg_queue :: "queue_decl table"
  cfg_raiser :: "raiser_decl table"
  cfg_department :: "department_decl table"
  cfg_limits :: limits_decl

fun raiser_produces :: "raiser_decl \<Rightarrow> string" where
  "raiser_produces (CronRaiser interval q) = q"
| "raiser_produces (FileWatchRaiser glob q) = q"

section \<open>Built-in providers\<close>

definition FAILURE_FACT_SCHEMA :: string where
  "FAILURE_FACT_SCHEMA = ''fkst.failure_fact.v1''"

record built_in_provider =
  provider :: string
  queue_local_name :: string
  producer_label :: string
  source_of_truth :: string
  payload_schema :: string
  trust_boundary :: string

definition BUILT_IN_DEAD_LETTER_PROVIDER :: built_in_provider where
  "BUILT_IN_DEAD_LETTER_PROVIDER =
     \<lparr>provider = ''runtime.dead_letter'', queue_local_name = ''dead_letter'',
      producer_label = ''runtime-produced provider '' @ [CHR 0x27] @ ''runtime.dead_letter'' @ [CHR 0x27],
      source_of_truth = ''durable delivery dead table'', payload_schema = FAILURE_FACT_SCHEMA,
      trust_boundary = ''framework reliable delivery runtime''\<rparr>"

text \<open>\<open>str::rsplit_once(c)\<close>: the text after the last occurrence.\<close>

definition after_last :: "char \<Rightarrow> string \<Rightarrow> string option" where
  "after_last c s = (if c \<in> set s then Some (last (split_on c s)) else None)"

definition owns_queue :: "built_in_provider \<Rightarrow> string \<Rightarrow> bool" where
  "owns_queue p q =
     (case after_last (CHR ''.'') q of
        Some local_name \<Rightarrow> local_name = queue_local_name p
      | None \<Rightarrow> q = queue_local_name p)"

definition BUILT_IN_PROVIDER_CONTRACTS :: "built_in_provider list" where
  "BUILT_IN_PROVIDER_CONTRACTS = [BUILT_IN_DEAD_LETTER_PROVIDER]"

definition built_in_provider_for_queue :: "string \<Rightarrow> built_in_provider option" where
  "built_in_provider_for_queue q = List.find (\<lambda>p. owns_queue p q) BUILT_IN_PROVIDER_CONTRACTS"

section \<open>Runtime keys\<close>

datatype runtime_key_error =
    KeyEmpty | KeyAbsolute | KeyTrailingSlash | KeyBackslash | KeyNul
  | SegmentEmpty | SegmentAllDots string | SegmentTooLong | SegmentInvalid string

definition key_byte :: "char \<Rightarrow> bool" where
  "key_byte c \<longleftrightarrow> is_alnum c \<or> c = CHR ''.'' \<or> c = CHR ''_'' \<or> c = CHR ''-''"

definition validate_segment :: "string \<Rightarrow> runtime_key_error + unit" where
  "validate_segment seg =
     (if seg = [] then Inl SegmentEmpty
      else if list_all (\<lambda>c. c = CHR ''.'') seg then Inl (SegmentAllDots seg)
      else if length seg > 255 then Inl SegmentTooLong
      else if \<not> list_all key_byte seg then Inl (SegmentInvalid seg)
      else Inr ())"

definition validate_runtime_key :: "string \<Rightarrow> runtime_key_error + string" where
  "validate_runtime_key key =
     (if key = [] then Inl KeyEmpty
      else if hd key = CHR ''/'' then Inl KeyAbsolute
      else if last key = CHR ''/'' then Inl KeyTrailingSlash
      else if CHR 0x5C \<in> set key then Inl KeyBackslash
      else if CHR 0x00 \<in> set key then Inl KeyNul
      else rbind (fold_result (\<lambda>_ seg. validate_segment seg) () (split_on (CHR ''/'') key)) (\<lambda>_. Inr key))"

section \<open>Validation of the startup graph\<close>

datatype validation_scope = ClosedWorld | PartialGraph

datatype schema_error =
    NoCodexProcesses
  | QueueWithoutCapacity string
  | RaiserQueueUndeclared string string
  | ConsumedQueueUndeclared string string
  | ProducedQueueUndeclared string string
  | EphemeralNotConsumed string string
  | LuaFileMissing string string
  | BadStallWindow string string
  | RetryAttemptsZero string
  | BadRetryBase string string
  | BadRetryCap string string
  | RetryCapBelowBase string
  | NoSourceToPropagate string string "string list"
  | IsolatedQueue string
  | QueueWithoutProducer string "string list"
  | MultipleConsumers string "string list"
  | FeedbackQueue string "string list"

datatype schema_warning = UnconsumedQueue string "string list" | UnproducedQueue string "string list"

definition parse_duration_millis :: "string \<Rightarrow> nat option" where
  "parse_duration_millis raw =
     (if raw = [] then None
      else case parse_nat (u128_max + 1) (butlast raw) of
          None \<Rightarrow> None
        | Some v \<Rightarrow>
            if v = 0 then None
            else if last raw = CHR ''s'' then Some (sat_mul128 v 1000)
            else if last raw = CHR ''m'' then Some (sat_mul128 v 60000)
            else if last raw = CHR ''h'' then Some (sat_mul128 v 3600000)
            else None)"

definition validate_retry_decl :: "string \<Rightarrow> retry_decl \<Rightarrow> schema_error + unit" where
  "validate_retry_decl name rd =
     (if decl_max_attempts rd = 0 then Inl (RetryAttemptsZero name)
      else case parse_duration_millis (decl_base rd) of
          None \<Rightarrow> Inl (BadRetryBase name (decl_base rd))
        | Some b \<Rightarrow>
            (case parse_duration_millis (decl_cap rd) of
               None \<Rightarrow> Inl (BadRetryCap name (decl_cap rd))
             | Some c \<Rightarrow> if c < b then Inl (RetryCapBelowBase name) else Inr ()))"

definition quoted :: "string \<Rightarrow> string \<Rightarrow> string" where
  "quoted label name = label @ '' '' @ [CHR 0x27] @ name @ [CHR 0x27]"

definition queue_is_fanout :: "config \<Rightarrow> string \<Rightarrow> bool" where
  "queue_is_fanout cfg q = (case t_get (cfg_queue cfg) q of None \<Rightarrow> False | Some d \<Rightarrow> fanout d)"

definition queue_producers :: "config \<Rightarrow> string \<Rightarrow> string list" where
  "queue_producers cfg q =
     sort (map (\<lambda>(n, _). quoted ''raiser'' n) (filter (\<lambda>(_, r). raiser_produces r = q) (t_iter (cfg_raiser cfg))) @
           map (\<lambda>(n, _). quoted ''department'' n) (filter (\<lambda>(_, d). q \<in> set (produces d)) (t_iter (cfg_department cfg))))"

definition queue_consumers :: "config \<Rightarrow> string \<Rightarrow> string list" where
  "queue_consumers cfg q =
     sort (map (\<lambda>(n, _). quoted ''department'' n) (filter (\<lambda>(_, d). q \<in> set (consumes d)) (t_iter (cfg_department cfg))))"

definition reliable_consumers_for_queue :: "config \<Rightarrow> string \<Rightarrow> string list" where
  "reliable_consumers_for_queue cfg q =
     sort (map fst (filter (\<lambda>(_, d). q \<in> set (consumes d) \<and> q \<notin> set (ephemeral d)) (t_iter (cfg_department cfg))))"

definition queue_feedback_departments :: "config \<Rightarrow> string \<Rightarrow> string list" where
  "queue_feedback_departments cfg q =
     sort (map (\<lambda>(n, _). quoted ''department'' n)
       (filter (\<lambda>(_, d). q \<in> set (consumes d) \<and> q \<in> set (produces d)) (t_iter (cfg_department cfg))))"

definition validate_queue_contract :: "config \<Rightarrow> string \<Rightarrow> string list \<Rightarrow> schema_error + unit" where
  "validate_queue_contract cfg q consumers =
     (if queue_is_fanout cfg q then Inr ()
      else if length consumers > 1 then Inl (MultipleConsumers q consumers)
      else if queue_feedback_departments cfg q \<noteq> [] then Inl (FeedbackQueue q (queue_feedback_departments cfg q))
      else Inr ())"

text \<open>\<open>Path::join\<close> with a relative path.\<close>

definition path_join :: "string \<Rightarrow> string \<Rightarrow> string" where
  "path_join root p = (if root = [] \<or> last root = CHR ''/'' then root @ p else root @ ''/'' @ p)"

definition is_absolute :: "string \<Rightarrow> bool" where
  "is_absolute p \<longleftrightarrow> p \<noteq> [] \<and> hd p = CHR ''/''"

text \<open>A loop over names that stops at the first violation.\<close>

definition check_each :: "('x \<Rightarrow> 'e + unit) \<Rightarrow> 'x list \<Rightarrow> 'e + unit" where
  "check_each f xs = fold_result (\<lambda>_ x. f x) () xs"

definition declared :: "config \<Rightarrow> string \<Rightarrow> bool" where
  "declared cfg q \<longleftrightarrow> q \<in> fst ` set (t_iter (cfg_queue cfg))"

definition validate_department ::
    "(string \<Rightarrow> bool) \<Rightarrow> string \<Rightarrow> config \<Rightarrow> string \<times> department_decl \<Rightarrow> schema_error + unit" where
  "validate_department is_file project_root cfg row =
     (case row of (name, d) \<Rightarrow>
      rbind (check_each (\<lambda>q. if \<not> declared cfg q then Inl (ConsumedQueueUndeclared name q) else Inr ()) (consumes d)) (\<lambda>_.
      rbind (check_each (\<lambda>q. if \<not> declared cfg q then Inl (ProducedQueueUndeclared name q) else Inr ()) (produces d)) (\<lambda>_.
      rbind (check_each (\<lambda>q. if q \<notin> set (consumes d) then Inl (EphemeralNotConsumed name q) else Inr ()) (ephemeral d)) (\<lambda>_.
        let lua_full = (if is_absolute (lua d) then lua d else path_join project_root (lua d)) in
        if \<not> is_file lua_full then Inl (LuaFileMissing name (lua d))
        else if \<not> (stall_window d \<noteq> [] \<and> last (stall_window d) \<in> {CHR ''s'', CHR ''m'', CHR ''h''})
        then Inl (BadStallWindow name (stall_window d))
        else (case retry_of d of None \<Rightarrow> Inr () | Some rd \<Rightarrow> validate_retry_decl name rd)))))"

definition validate_propagation :: "config \<Rightarrow> string \<times> department_decl \<Rightarrow> schema_error + unit" where
  "validate_propagation cfg row =
     (case row of (name, d) \<Rightarrow>
      if consumes d = [] then Inr ()
      else if list_ex (\<lambda>q. q \<notin> set (ephemeral d)) (consumes d) then Inr ()
      else check_each (\<lambda>q. let down = reliable_consumers_for_queue cfg q in
             if down \<noteq> [] then Inl (NoSourceToPropagate name q down) else Inr ()) (produces d))"

definition all_producers :: "config \<Rightarrow> string \<Rightarrow> string list" where
  "all_producers cfg q =
     queue_producers cfg q @
     (case built_in_provider_for_queue q of None \<Rightarrow> [] | Some p \<Rightarrow> [producer_label p]) @
     (case List.find (\<lambda>(_, d). q \<in> set (consumes d) \<and> q \<in> set (published_seam d)) (t_iter (cfg_department cfg)) of
        None \<Rightarrow> []
      | Some (n, _) \<Rightarrow> [quoted ''external seam declared by department'' n])"

definition validate_queue ::
    "validation_scope \<Rightarrow> config \<Rightarrow> schema_warning list \<Rightarrow> string \<Rightarrow> schema_error + schema_warning list" where
  "validate_queue scope cfg warnings q =
     (let producers = all_producers cfg q; consumers = queue_consumers cfg q in
      if producers = [] \<and> consumers = [] then Inl (IsolatedQueue q)
      else let w1 = (if producers \<noteq> [] \<and> consumers = [] then warnings @ [UnconsumedQueue q producers] else warnings) in
        rbind (if producers = [] \<and> consumers \<noteq> []
               then (case scope of
                       ClosedWorld \<Rightarrow> Inl (QueueWithoutProducer q consumers)
                     | PartialGraph \<Rightarrow> Inr (w1 @ [UnproducedQueue q consumers]))
               else Inr w1) (\<lambda>w2.
        rbind (validate_queue_contract cfg q consumers) (\<lambda>_. Inr w2)))"

definition validate_with_scope ::
    "(string \<Rightarrow> bool) \<Rightarrow> string \<Rightarrow> validation_scope \<Rightarrow> config \<Rightarrow> schema_error + schema_warning list" where
  "validate_with_scope is_file project_root scope cfg =
     (if global_codex_processes (cfg_limits cfg) = 0 then Inl NoCodexProcesses
      else
        rbind (check_each (\<lambda>(n, q). if capacity q = 0 then Inl (QueueWithoutCapacity n) else Inr ())
                (t_iter (cfg_queue cfg))) (\<lambda>_.
        rbind (check_each (\<lambda>(n, r). if \<not> declared cfg (raiser_produces r)
                 then Inl (RaiserQueueUndeclared n (raiser_produces r)) else Inr ()) (t_iter (cfg_raiser cfg))) (\<lambda>_.
        rbind (check_each (validate_department is_file project_root cfg) (t_iter (cfg_department cfg))) (\<lambda>_.
        rbind (check_each (validate_propagation cfg) (t_iter (cfg_department cfg))) (\<lambda>_.
          fold_result (validate_queue scope cfg) [] (sort (map fst (t_iter (cfg_queue cfg)))))))))"

definition validate ::
    "(string \<Rightarrow> bool) \<Rightarrow> string \<Rightarrow> config \<Rightarrow> schema_error + schema_warning list" where
  "validate is_file project_root cfg = validate_with_scope is_file project_root ClosedWorld cfg"

end
