(* ===== verification/Startup_Validation.thy ===== *)
theory Startup_Validation
  imports Startup_Config
begin

text \<open>
  What the validation of the startup graph accepts: a declarative reading of a well-formed graph and of a
  runtime key, and that the validators accept exactly those.
\<close>

section \<open>Loops of checks\<close>

lemma check_each_Inr: "check_each f xs = Inr u \<longleftrightarrow> (\<forall>x \<in> set xs. f x = Inr ())"
  unfolding check_each_def by (induction xs) (auto simp: rbind_eq_Inr)

lemma fold_result_accepts:
  assumes "\<And>s x. (\<exists>s'. f s x = Inr s') \<longleftrightarrow> ok x"
  shows "(\<exists>s'. fold_result f s xs = Inr s') \<longleftrightarrow> (\<forall>x \<in> set xs. ok x)"
proof (induction xs arbitrary: s)
  case (Cons x xs)
  show ?case
  proof (cases "f s x")
    case (Inl e)
    then have "\<not> ok x" using assms [of s x] by auto
    with Inl show ?thesis by simp
  next
    case (Inr t)
    then have "ok x" using assms [of s x] by auto
    with Inr Cons.IH [of t] show ?thesis by simp
  qed
qed simp

section \<open>Runtime keys\<close>

definition segment_ok :: "string \<Rightarrow> bool" where
  "segment_ok seg \<longleftrightarrow> seg \<noteq> [] \<and> \<not> list_all (\<lambda>c. c = CHR ''.'') seg \<and> length seg \<le> 255 \<and> list_all key_byte seg"

lemma validate_segment_Inr: "validate_segment seg = Inr u \<longleftrightarrow> segment_ok seg"
  by (auto simp: validate_segment_def segment_ok_def)

lemma split_on_members: "x \<in> set s \<Longrightarrow> x \<noteq> c \<Longrightarrow> \<exists>t \<in> set (split_on c s). x \<in> set t"
proof (induction s)
  case (Cons y s)
  obtain u us where "split_on c s = u # us" by (cases "split_on c s") auto
  with Cons show ?case by auto
qed simp

lemma split_on_snoc: "split_on c (s @ [c]) = split_on c s @ [[]]"
proof (induction s)
  case (Cons y s)
  obtain u us where "split_on c s = u # us" by (cases "split_on c s") auto
  with Cons show ?case by simp
qed simp

lemma split_on_edges:
  assumes "s \<noteq> []" and "hd s = c \<or> last s = c"
  shows "[] \<in> set (split_on c s)"
proof (cases "hd s = c")
  case True
  with assms(1) show ?thesis by (cases s) auto
next
  case False
  with assms have "s = butlast s @ [c]" using append_butlast_last_id [of s] by simp
  then show ?thesis using split_on_snoc [of c "butlast s"] by simp
qed

text \<open>The validator accepts exactly the keys whose segments are well formed; its other checks are implied.\<close>

lemma validate_runtime_key_iff:
  "validate_runtime_key key = Inr k \<longleftrightarrow> k = key \<and> (\<forall>seg \<in> set (split_on (CHR ''/'') key). segment_ok seg)"
proof -
  let ?ok = "\<forall>seg \<in> set (split_on (CHR ''/'') key). segment_ok seg"
  have segs: "fold_result (\<lambda>_ seg. validate_segment seg) () (split_on (CHR ''/'') key) = Inr u \<longleftrightarrow> ?ok" for u
    using check_each_Inr [of validate_segment "split_on (CHR ''/'') key" u] by (simp add: check_each_def validate_segment_Inr)
  have "\<not> ?ok" if "key = [] \<or> hd key = CHR ''/'' \<or> last key = CHR ''/''"
  proof -
    have "[] \<in> set (split_on (CHR ''/'') key)" using that split_on_edges [of key "CHR ''/''"] by (cases "key = []") auto
    then show ?thesis by (auto simp: segment_ok_def)
  qed
  moreover have "\<not> ?ok" if "c \<in> set key" "\<not> key_byte c" "c \<noteq> CHR ''/''" for c
    using split_on_members [OF that(1,3)] that(2) by (auto simp: segment_ok_def list_all_iff)
  moreover have "\<not> key_byte (CHR 0x5C)" "\<not> key_byte (CHR 0x00)" by (simp_all add: key_byte_def is_alnum_def)
  ultimately show ?thesis using segs by (auto simp: validate_runtime_key_def rbind_eq_Inr)
qed

section \<open>Well-formed graphs\<close>

definition retry_decl_ok :: "retry_decl \<Rightarrow> bool" where
  "retry_decl_ok rd \<longleftrightarrow> decl_max_attempts rd \<noteq> 0 \<and>
     (\<exists>b c. parse_duration_millis (decl_base rd) = Some b \<and> parse_duration_millis (decl_cap rd) = Some c \<and> b \<le> c)"

definition department_ok :: "(string \<Rightarrow> bool) \<Rightarrow> string \<Rightarrow> config \<Rightarrow> department_decl \<Rightarrow> bool" where
  "department_ok is_file root cfg d \<longleftrightarrow>
     (\<forall>q. q \<in> set (consumes d) \<or> q \<in> set (produces d) \<longrightarrow> t_get (cfg_queue cfg) q \<noteq> None) \<and>
     set (ephemeral d) \<subseteq> set (consumes d) \<and>
     is_file (if is_absolute (lua d) then lua d else path_join root (lua d)) \<and>
     (\<exists>w u. stall_window d = w @ [u] \<and> u \<in> {CHR ''s'', CHR ''m'', CHR ''h''}) \<and>
     (\<forall>rd. retry_of d = Some rd \<longrightarrow> retry_decl_ok rd)"

text \<open>A department that consumes nothing reliably must not feed a reliable consumer.\<close>

definition consumes_reliably :: "department_decl \<Rightarrow> string \<Rightarrow> bool" where
  "consumes_reliably d q \<longleftrightarrow> q \<in> set (consumes d) \<and> q \<notin> set (ephemeral d)"

definition propagation_ok :: "config \<Rightarrow> department_decl \<Rightarrow> bool" where
  "propagation_ok cfg d \<longleftrightarrow> consumes d = [] \<or> (\<exists>q. consumes_reliably d q) \<or>
     (\<forall>q n e. q \<in> set (produces d) \<and> t_get (cfg_department cfg) n = Some e \<longrightarrow> \<not> consumes_reliably e q)"

definition has_consumer :: "config \<Rightarrow> string \<Rightarrow> bool" where
  "has_consumer cfg q \<longleftrightarrow> (\<exists>n d. t_get (cfg_department cfg) n = Some d \<and> q \<in> set (consumes d))"

definition has_producer :: "config \<Rightarrow> string \<Rightarrow> bool" where
  "has_producer cfg q \<longleftrightarrow>
     (\<exists>n r. t_get (cfg_raiser cfg) n = Some r \<and> raiser_produces r = q) \<or>
     (\<exists>n d. t_get (cfg_department cfg) n = Some d \<and> q \<in> set (produces d)) \<or>
     built_in_provider_for_queue q \<noteq> None \<or>
     (\<exists>n d. t_get (cfg_department cfg) n = Some d \<and> q \<in> set (consumes d) \<and> q \<in> set (published_seam d))"

definition single_consumer :: "config \<Rightarrow> string \<Rightarrow> bool" where
  "single_consumer cfg q \<longleftrightarrow>
     (\<forall>n d m e. t_get (cfg_department cfg) n = Some d \<and> t_get (cfg_department cfg) m = Some e \<and>
        q \<in> set (consumes d) \<and> q \<in> set (consumes e) \<longrightarrow> n = m) \<and>
     (\<forall>n d. t_get (cfg_department cfg) n = Some d \<longrightarrow> \<not> (q \<in> set (consumes d) \<and> q \<in> set (produces d)))"

definition queue_ok :: "validation_scope \<Rightarrow> config \<Rightarrow> string \<Rightarrow> bool" where
  "queue_ok scope cfg q \<longleftrightarrow> (has_producer cfg q \<or> has_consumer cfg q) \<and>
     (scope = ClosedWorld \<and> has_consumer cfg q \<longrightarrow> has_producer cfg q) \<and>
     (queue_is_fanout cfg q \<or> single_consumer cfg q)"

definition graph_ok :: "(string \<Rightarrow> bool) \<Rightarrow> string \<Rightarrow> validation_scope \<Rightarrow> config \<Rightarrow> bool" where
  "graph_ok is_file root scope cfg \<longleftrightarrow> 0 < global_codex_processes (cfg_limits cfg) \<and>
     (\<forall>n q. t_get (cfg_queue cfg) n = Some q \<longrightarrow> 0 < capacity q) \<and>
     (\<forall>n r. t_get (cfg_raiser cfg) n = Some r \<longrightarrow> t_get (cfg_queue cfg) (raiser_produces r) \<noteq> None) \<and>
     (\<forall>n d. t_get (cfg_department cfg) n = Some d \<longrightarrow> department_ok is_file root cfg d) \<and>
     (\<forall>n d. t_get (cfg_department cfg) n = Some d \<longrightarrow> propagation_ok cfg d) \<and>
     (\<forall>n q. t_get (cfg_queue cfg) n = Some q \<longrightarrow> queue_ok scope cfg n)"

definition config_tables_ok :: "config \<Rightarrow> bool" where
  "config_tables_ok cfg \<longleftrightarrow> t_ok (cfg_queue cfg) \<and> t_ok (cfg_raiser cfg) \<and> t_ok (cfg_department cfg)"

section \<open>The validators accept exactly the well-formed graphs\<close>

lemma declared_iff: "t_ok (cfg_queue cfg) \<Longrightarrow> declared cfg q \<longleftrightarrow> t_get (cfg_queue cfg) q \<noteq> None"
proof -
  assume "t_ok (cfg_queue cfg)"
  moreover have "declared cfg q \<longleftrightarrow> (\<exists>v. (q, v) \<in> set (t_iter (cfg_queue cfg)))" unfolding declared_def by force
  ultimately show ?thesis by (simp add: tab.entries_get)
qed

lemma rows_iff: "t_ok t \<Longrightarrow> (\<forall>x \<in> set (t_iter t). P x) \<longleftrightarrow> (\<forall>n v. t_get t n = Some v \<longrightarrow> P (n, v))"
  by (force simp: tab.entries_get)

lemma validate_retry_decl_iff: "validate_retry_decl n rd = Inr u \<longleftrightarrow> retry_decl_ok rd"
  by (auto simp: validate_retry_decl_def retry_decl_ok_def not_less split: option.splits)

lemma ends_iff: "s \<noteq> [] \<and> last s \<in> A \<longleftrightarrow> (\<exists>w u. s = w @ [u] \<and> u \<in> A)"
  by (metis append_butlast_last_id last_snoc snoc_eq_iff_butlast)

lemma validate_department_iff:
  assumes "t_ok (cfg_queue cfg)"
  shows "validate_department is_file root cfg (n, d) = Inr u \<longleftrightarrow> department_ok is_file root cfg d"
proof -
  have "validate_department is_file root cfg (n, d) = Inr u \<longleftrightarrow>
      (\<forall>q \<in> set (consumes d). declared cfg q) \<and> (\<forall>q \<in> set (produces d). declared cfg q) \<and>
      (\<forall>q \<in> set (ephemeral d). q \<in> set (consumes d)) \<and>
      is_file (if is_absolute (lua d) then lua d else path_join root (lua d)) \<and>
      (stall_window d \<noteq> [] \<and> last (stall_window d) \<in> {CHR ''s'', CHR ''m'', CHR ''h''}) \<and>
      (\<forall>rd. retry_of d = Some rd \<longrightarrow> retry_decl_ok rd)"
    by (auto simp: validate_department_def Let_def rbind_eq_Inr check_each_Inr validate_retry_decl_iff split: option.splits if_splits)
  also have "\<dots> \<longleftrightarrow> department_ok is_file root cfg d"
    unfolding ends_iff department_ok_def declared_iff [OF assms] by blast
  finally show ?thesis .
qed

lemma sort_eq_Nil: "sort xs = [] \<longleftrightarrow> xs = []"
  by (metis set_empty set_sort)

lemma filter_map_Nil: "map f (filter P xs) = [] \<longleftrightarrow> (\<forall>x \<in> set xs. \<not> P x)"
  by (auto simp: filter_empty_conv)

lemma reliable_consumers_Nil:
  assumes "t_ok (cfg_department cfg)"
  shows "reliable_consumers_for_queue cfg q = [] \<longleftrightarrow>
    (\<forall>n e. t_get (cfg_department cfg) n = Some e \<longrightarrow> \<not> consumes_reliably e q)"
  by (simp add: reliable_consumers_for_queue_def sort_eq_Nil filter_empty_conv rows_iff [OF assms] consumes_reliably_def
      del: map_is_Nil_conv)

lemma validate_propagation_iff:
  assumes "t_ok (cfg_department cfg)"
  shows "validate_propagation cfg (n, d) = Inr u \<longleftrightarrow> propagation_ok cfg d"
  by (auto simp: validate_propagation_def Let_def check_each_Inr reliable_consumers_Nil [OF assms] propagation_ok_def
      consumes_reliably_def list_ex_iff split: if_splits)

lemma queue_consumers_Nil:
  assumes "t_ok (cfg_department cfg)"
  shows "queue_consumers cfg q = [] \<longleftrightarrow> \<not> has_consumer cfg q"
  by (simp add: queue_consumers_def sort_eq_Nil filter_empty_conv rows_iff [OF assms] has_consumer_def)

lemma find_None_iff_rows:
  assumes "t_ok t"
  shows "List.find P (t_iter t) = None \<longleftrightarrow> (\<forall>n v. t_get t n = Some v \<longrightarrow> \<not> P (n, v))"
  unfolding find_None_iff2 [symmetric] by (force simp: find_None_iff tab.entries_get [OF assms])

lemma all_producers_Nil:
  assumes "t_ok (cfg_raiser cfg)" and "t_ok (cfg_department cfg)"
  shows "all_producers cfg q = [] \<longleftrightarrow> \<not> has_producer cfg q"
proof -
  have 1: "queue_producers cfg q = [] \<longleftrightarrow>
      \<not> (\<exists>n r. t_get (cfg_raiser cfg) n = Some r \<and> raiser_produces r = q) \<and>
      \<not> (\<exists>n d. t_get (cfg_department cfg) n = Some d \<and> q \<in> set (produces d))"
    by (simp add: queue_producers_def sort_eq_Nil filter_empty_conv rows_iff [OF assms(1)] rows_iff [OF assms(2)])
  have 2: "(case List.find (\<lambda>(_, d). q \<in> set (consumes d) \<and> q \<in> set (published_seam d)) (t_iter (cfg_department cfg)) of
        None \<Rightarrow> [] | Some (n, _) \<Rightarrow> [quoted ''external seam declared by department'' n]) = [] \<longleftrightarrow>
      \<not> (\<exists>n d. t_get (cfg_department cfg) n = Some d \<and> q \<in> set (consumes d) \<and> q \<in> set (published_seam d))"
    using find_None_iff_rows [OF assms(2), of "\<lambda>(_, d). q \<in> set (consumes d) \<and> q \<in> set (published_seam d)"]
    by (cases "List.find (\<lambda>(_, d). q \<in> set (consumes d) \<and> q \<in> set (published_seam d)) (t_iter (cfg_department cfg))") auto
  have 3: "(case built_in_provider_for_queue q of None \<Rightarrow> [] | Some p \<Rightarrow> [producer_label p]) = [] \<longleftrightarrow>
      built_in_provider_for_queue q = None" by (cases "built_in_provider_for_queue q") auto
  show ?thesis unfolding all_producers_def has_producer_def append_is_Nil_conv 1 2 3 by auto
qed

lemma length_le_1_iff:
  assumes "distinct (map fst xs)"
  shows "length (filter P xs) \<le> 1 \<longleftrightarrow> (\<forall>x \<in> set xs. \<forall>y \<in> set xs. P x \<and> P y \<longrightarrow> fst x = fst y)"
proof -
  have dist: "distinct (map fst (filter P xs))" using assms by (rule distinct_map_filter)
  show ?thesis
  proof
    assume "length (filter P xs) \<le> 1"
    then have len: "filter P xs = [] \<or> (\<exists>z. filter P xs = [z])" by (cases "filter P xs") auto
    show "\<forall>x \<in> set xs. \<forall>y \<in> set xs. P x \<and> P y \<longrightarrow> fst x = fst y"
    proof (intro ballI impI)
      fix x y assume "x \<in> set xs" "y \<in> set xs" "P x \<and> P y"
      then have "x \<in> set (filter P xs)" "y \<in> set (filter P xs)" by simp_all
      with len show "fst x = fst y" by (metis empty_iff list.set(1) set_ConsD)
    qed
  next
    assume eq: "\<forall>x \<in> set xs. \<forall>y \<in> set xs. P x \<and> P y \<longrightarrow> fst x = fst y"
    show "length (filter P xs) \<le> 1"
    proof (rule ccontr)
      assume "\<not> length (filter P xs) \<le> 1"
      then obtain a b rest where ab: "filter P xs = a # b # rest"
        by (metis One_nat_def Suc_le_mono le0 length_Cons list.exhaust list.size(3))
      then have "fst a \<noteq> fst b" using dist by auto
      moreover have "a \<in> set (filter P xs)" "b \<in> set (filter P xs)" unfolding ab by simp_all
      ultimately show False using eq by auto
    qed
  qed
qed

lemma queue_contract_iff:
  assumes "t_ok (cfg_department cfg)"
  shows "validate_queue_contract cfg q (queue_consumers cfg q) = Inr u \<longleftrightarrow> queue_is_fanout cfg q \<or> single_consumer cfg q"
proof -
  have "length (queue_consumers cfg q) \<le> 1 \<longleftrightarrow>
      (\<forall>n d m e. t_get (cfg_department cfg) n = Some d \<and> t_get (cfg_department cfg) m = Some e \<and>
        q \<in> set (consumes d) \<and> q \<in> set (consumes e) \<longrightarrow> n = m)"
    using length_le_1_iff [OF tab.entries_distinct [OF assms], of "\<lambda>(_, d). q \<in> set (consumes d)"]
    by (simp add: queue_consumers_def rows_iff [OF assms]) blast
  moreover have "queue_feedback_departments cfg q = [] \<longleftrightarrow>
      (\<forall>n d. t_get (cfg_department cfg) n = Some d \<longrightarrow> \<not> (q \<in> set (consumes d) \<and> q \<in> set (produces d)))"
    by (simp add: queue_feedback_departments_def sort_eq_Nil filter_empty_conv rows_iff [OF assms])
  ultimately show ?thesis unfolding validate_queue_contract_def single_consumer_def not_less [symmetric] by auto
qed

lemma validate_queue_iff:
  assumes "t_ok (cfg_raiser cfg)" and "t_ok (cfg_department cfg)"
  shows "(\<exists>w'. validate_queue scope cfg w q = Inr w') \<longleftrightarrow> queue_ok scope cfg q"
proof -
  have "(\<exists>w'. validate_queue scope cfg w q = Inr w') \<longleftrightarrow>
      (has_producer cfg q \<or> has_consumer cfg q) \<and>
      (scope = ClosedWorld \<and> \<not> has_producer cfg q \<and> has_consumer cfg q \<longrightarrow> False) \<and>
      validate_queue_contract cfg q (queue_consumers cfg q) = Inr ()"
    using all_producers_Nil [OF assms, of q] queue_consumers_Nil [OF assms(2), of q]
    by (cases scope) (auto simp: validate_queue_def Let_def rbind_eq_Inr)
  then show ?thesis unfolding queue_contract_iff [OF assms(2)] queue_ok_def by blast
qed

lemma validate_with_scope_iff:
  assumes "config_tables_ok cfg"
  shows "(\<exists>ws. validate_with_scope is_file root scope cfg = Inr ws) \<longleftrightarrow> graph_ok is_file root scope cfg"
proof -
  have t: "t_ok (cfg_queue cfg)" "t_ok (cfg_raiser cfg)" "t_ok (cfg_department cfg)"
    using assms by (simp_all add: config_tables_ok_def)
  have queues: "(\<exists>ws. fold_result (validate_queue scope cfg) [] (sort (map fst (t_iter (cfg_queue cfg)))) = Inr ws) \<longleftrightarrow>
      (\<forall>n q. t_get (cfg_queue cfg) n = Some q \<longrightarrow> queue_ok scope cfg n)"
  proof -
    have "(\<forall>x \<in> set (sort (map fst (t_iter (cfg_queue cfg)))). queue_ok scope cfg x) \<longleftrightarrow>
        (\<forall>y \<in> set (t_iter (cfg_queue cfg)). queue_ok scope cfg (fst y))" by simp
    then show ?thesis
      unfolding fold_result_accepts [of "validate_queue scope cfg" "queue_ok scope cfg", OF validate_queue_iff [OF t(2,3)]]
        rows_iff [OF t(1)] fst_conv .
  qed
  have "(\<exists>ws. validate_with_scope is_file root scope cfg = Inr ws) \<longleftrightarrow>
      0 < global_codex_processes (cfg_limits cfg) \<and>
      (\<forall>x \<in> set (t_iter (cfg_queue cfg)). 0 < capacity (snd x)) \<and>
      (\<forall>x \<in> set (t_iter (cfg_raiser cfg)). declared cfg (raiser_produces (snd x))) \<and>
      (\<forall>x \<in> set (t_iter (cfg_department cfg)). validate_department is_file root cfg x = Inr ()) \<and>
      (\<forall>x \<in> set (t_iter (cfg_department cfg)). validate_propagation cfg x = Inr ()) \<and>
      (\<exists>ws. fold_result (validate_queue scope cfg) [] (sort (map fst (t_iter (cfg_queue cfg)))) = Inr ws)"
  proof -
    have 1: "check_each (\<lambda>(n, q). if capacity q = 0 then Inl (QueueWithoutCapacity n) else Inr ()) (t_iter (cfg_queue cfg)) = Inr u \<longleftrightarrow>
        (\<forall>x \<in> set (t_iter (cfg_queue cfg)). 0 < capacity (snd x))" for u
      unfolding check_each_Inr by (intro ball_cong refl) (auto split: prod.split)
    have 2: "check_each (\<lambda>(n, r). if \<not> declared cfg (raiser_produces r)
          then Inl (RaiserQueueUndeclared n (raiser_produces r)) else Inr ()) (t_iter (cfg_raiser cfg)) = Inr u \<longleftrightarrow>
        (\<forall>x \<in> set (t_iter (cfg_raiser cfg)). declared cfg (raiser_produces (snd x)))" for u
      unfolding check_each_Inr by (intro ball_cong refl) (auto split: prod.split)
    show ?thesis
      unfolding validate_with_scope_def by (simp add: rbind_eq_Inr check_each_Inr 1 [unfolded check_each_Inr] 2 [unfolded check_each_Inr])
  qed
  then show ?thesis
    unfolding queues rows_iff [OF t(1)] rows_iff [OF t(2)] rows_iff [OF t(3)] validate_department_iff [OF t(1)]
      validate_propagation_iff [OF t(3)] declared_iff [OF t(1)] graph_ok_def snd_conv .
qed

end
