(* ===== verification/Delivery_Identity.thy ===== *)
theory Delivery_Identity
  imports Sha256 Startup_Validation Delivery_Index
begin

text \<open>
  The derivation of delivery identifiers (\<open>supervise/delivery_router.rs\<close>: \<open>derive_delivery_identity\<close>
  and the runtime keys it builds). The two \<open>expect\<close> calls of the source that can fail are values of
  \<open>identity_panic\<close>; the third, that a chunk of an encoded part is UTF-8, cannot, since encoded parts
  are ASCII (\<open>encode_runtime_key_part_chars\<close>).
\<close>

section \<open>Runtime keys\<close>

definition DELIVERY_ID_PART_CHUNK_BYTES :: nat where
  "DELIVERY_ID_PART_CHUNK_BYTES = 200"

definition encode_runtime_key_part :: "string \<Rightarrow> string" where
  "encode_runtime_key_part part =
     (if part = [] then ''_''
      else let encoded = concat (map (\<lambda>byte.
                  if is_alnum byte \<or> byte = CHR ''.'' \<or> byte = CHR ''-'' then [byte]
                  else if byte = CHR ''_'' then ''__''
                  else ''_x'' @ byte_HEX byte) part)
           in if list_all (\<lambda>c. c = CHR ''.'') encoded then ''_x'' @ encoded else encoded)"

definition escape_dots :: "string \<Rightarrow> string" where
  "escape_dots chunk = (if list_all (\<lambda>c. c = CHR ''.'') chunk then ''_x'' @ chunk else chunk)"

definition runtime_key_part_segments :: "string \<Rightarrow> string list" where
  "runtime_key_part_segments part =
     map escape_dots (chunks DELIVERY_ID_PART_CHUNK_BYTES (encode_runtime_key_part part))"

definition runtime_key :: "string list \<Rightarrow> string" where
  "runtime_key parts = join ''/'' (concat (map runtime_key_part_segments parts))"

definition encode_runtime_key_part_v3 :: "string \<Rightarrow> string" where
  "encode_runtime_key_part_v3 part =
     (if part = [] then ''_''
      else concat (map (\<lambda>byte.
             if is_alnum byte \<or> byte = CHR ''-'' then [byte]
             else CHR ''_'' # byte_HEX byte @ ''_'') part))"

definition runtime_key_part_segments_v3 :: "string \<Rightarrow> string list" where
  "runtime_key_part_segments_v3 part = chunks DELIVERY_ID_PART_CHUNK_BYTES (encode_runtime_key_part_v3 part)"

datatype runtime_key_part = Raw string | Escaped string

fun part_segments_v3 :: "runtime_key_part \<Rightarrow> string list" where
  "part_segments_v3 (Raw part) = [part]"
| "part_segments_v3 (Escaped part) = runtime_key_part_segments_v3 part"

definition runtime_key_v3 :: "runtime_key_part list \<Rightarrow> string" where
  "runtime_key_v3 parts = join ''/'' (concat (map part_segments_v3 parts))"

fun router_source_kind_key :: "source_kind \<Rightarrow> string" where
  "router_source_kind_key File = ''file_watch''"
| "router_source_kind_key Cron = ''cron''"
| "router_source_kind_key Git = ''git''"
| "router_source_kind_key External = ''external''"

section \<open>Identities\<close>

record derived_delivery =
  parent_delivery_id :: string
  ordinal :: nat

record delivery_identity =
  di_delivery_id :: string
  di_collapse_by_dedup_id :: bool

datatype identity_panic = SourceRequired | KeyNotRuntimeSafe runtime_key_error

definition dedup_identity_key :: "string \<Rightarrow> string \<Rightarrow> string \<Rightarrow> string" where
  "dedup_identity_key q dpt dedup_key =
     runtime_key_v3 [Raw ''delivery'', Raw ''v3'', Raw ''raised'', Raw ''queue'', Raw q, Raw ''dept'', Raw dpt,
       Raw ''dedup'', Escaped dedup_key]"

definition raised_source_key :: "string \<Rightarrow> string \<Rightarrow> source_ref \<Rightarrow> string" where
  "raised_source_key q dpt src =
     runtime_key_v3 [Raw ''delivery'', Raw ''v3'', Raw ''raised-src'', Raw ''queue'', Raw q, Raw ''dept'', Raw dpt,
       Raw ''kind'', Raw (router_source_kind_key (src_kind src)), Raw ''ref'', Escaped (src_reference src)]"

definition parent_identity_key :: "string \<Rightarrow> string \<Rightarrow> derived_delivery \<Rightarrow> string" where
  "parent_identity_key q dpt derived =
     runtime_key [''delivery'', ''v2'', ''raised'', ''queue'', q, ''dept'', dpt,
       ''parent_hash'', stable_hex_hash (parent_delivery_id derived), ''ordinal'', dec (ordinal derived)]"

definition source_identity_key :: "string \<Rightarrow> string \<Rightarrow> source_ref \<Rightarrow> string" where
  "source_identity_key q dpt src =
     runtime_key [''delivery'', ''v1'', ''source'', router_source_kind_key (src_kind src), ''queue'', q,
       ''dept'', dpt, ''ref'', src_reference src]"

definition derive_delivery_identity ::
    "string \<Rightarrow> string \<Rightarrow> source_ref option \<Rightarrow> derived_delivery option \<Rightarrow> string option \<Rightarrow> source_ref option \<Rightarrow>
     identity_panic + delivery_identity" where
  "derive_delivery_identity q dpt src derived raised_dedup_key raised_source_ref =
     rbind
       (case derived of
          Some dd \<Rightarrow>
            (case (if raised_dedup_key = Some [] then None else raised_dedup_key) of
               Some dedup_key \<Rightarrow> Inr (dedup_identity_key q dpt dedup_key, True)
             | None \<Rightarrow>
                 (case (if raised_source_ref = None then src else raised_source_ref) of
                    Some source_ref \<Rightarrow> Inr (raised_source_key q dpt source_ref, False)
                  | None \<Rightarrow> Inr (parent_identity_key q dpt dd, False)))
        | None \<Rightarrow>
            (case src of
               None \<Rightarrow> Inl SourceRequired
             | Some source_ref \<Rightarrow> Inr (source_identity_key q dpt source_ref, False)))
       (\<lambda>(key, collapse).
          case validate_runtime_key key of
            Inl e \<Rightarrow> Inl (KeyNotRuntimeSafe e)
          | Inr _ \<Rightarrow> Inr \<lparr>di_delivery_id = key, di_collapse_by_dedup_id = collapse\<rparr>)"

definition derive_delivery_id ::
    "string \<Rightarrow> string \<Rightarrow> source_ref option \<Rightarrow> derived_delivery option \<Rightarrow> string option \<Rightarrow> source_ref option \<Rightarrow>
     identity_panic + string" where
  "derive_delivery_id q dpt src derived raised_dedup_key raised_source_ref =
     rbind (derive_delivery_identity q dpt src derived raised_dedup_key raised_source_ref)
       (\<lambda>i. Inr (di_delivery_id i))"

section \<open>Source references in payloads\<close>

definition payload_source_kind :: "string \<Rightarrow> source_kind option" where
  "payload_source_kind kind =
     (if kind = ''file'' \<or> kind = ''file_watch'' then Some File
      else if kind = ''cron'' then Some Cron
      else if kind = ''git'' then Some Git
      else if kind = ''external'' then Some External
      else None)"

definition payload_source_ref :: "json \<Rightarrow> source_ref option" where
  "payload_source_ref pl =
     Option.bind (json_get pl ''source_ref'') (\<lambda>src.
     Option.bind (Option.bind (json_get src ''kind'') json_as_str) (\<lambda>kind.
     Option.bind (Option.bind (json_get src ''reference'') json_as_str) (\<lambda>reference.
       if reference = [] then None
       else Option.bind (payload_source_kind kind) (\<lambda>k.
         Some \<lparr>src_kind = k, src_reference = reference\<rparr>))))"

text \<open>\<open>payload.get("dedup_key").and_then(as_str).filter(non-empty)\<close> of \<open>publish_outcome\<close>.\<close>

definition payload_dedup_key :: "json \<Rightarrow> string option" where
  "payload_dedup_key pl =
     (case Option.bind (json_get pl ''dedup_key'') json_as_str of
        None \<Rightarrow> None
      | Some key \<Rightarrow> if key = [] then None else Some key)"

section \<open>Encoded parts\<close>

text \<open>The router encodes a part as the delivery index does.\<close>

lemma encode_runtime_key_part_index: "encode_runtime_key_part = encode_index_part"
proof
  have "encode_index_byte = (\<lambda>byte.
      if is_alnum byte \<or> byte = CHR ''.'' \<or> byte = CHR ''-'' then [byte]
      else if byte = CHR ''_'' then ''__'' else ''_x'' @ byte_HEX byte)"
    by (rule ext) (simp add: encode_index_byte_def)
  then show "encode_runtime_key_part part = encode_index_part part" for part
    by (simp add: encode_runtime_key_part_def encode_index_part_def all_dots_def)
qed

lemma key_byte_key_char: "key_byte = key_char"
  by (rule ext) (auto simp: key_byte_def key_char_def)

lemma encode_runtime_key_part_chars: "list_all key_byte (encode_runtime_key_part part)"
  using encode_index_part_chars [of part] by (simp add: encode_runtime_key_part_index key_byte_key_char)

lemma encode_v3_chars: "list_all (\<lambda>c. is_alnum c \<or> c = CHR ''-'' \<or> c = CHR ''_'') (encode_runtime_key_part_v3 part)"
proof -
  have "list_all (\<lambda>c. is_alnum c \<or> c = CHR ''-'' \<or> c = CHR ''_'') (byte_HEX b)" for b
    using byte_HEX_alnum [of b] by (auto simp: list_all_iff)
  then show ?thesis unfolding encode_runtime_key_part_v3_def
    by (cases part) (simp_all add: list_all_concat_map)
qed

lemma list_all_not_dots:
  "list_all (\<lambda>c. is_alnum c \<or> c = CHR ''-'' \<or> c = CHR ''_'') s \<Longrightarrow> s \<noteq> [] \<Longrightarrow> \<not> list_all (\<lambda>c. c = CHR ''.'') s"
  by (cases s) auto

lemma encode_index_part_not_Nil [simp]: "encode_index_part s \<noteq> []"
  by (simp add: encode_index_part_def Let_def)

lemma encode_v3_not_Nil [simp]: "encode_runtime_key_part_v3 s \<noteq> []"
  by (cases s) (auto simp: encode_runtime_key_part_v3_def)

text \<open>Every segment that the encoders produce is a valid key segment.\<close>

lemma escaped_segment_ok: "seg \<in> set (runtime_key_part_segments part) \<Longrightarrow> segment_ok seg"
proof -
  assume "seg \<in> set (runtime_key_part_segments part)"
  then obtain c where c: "c \<in> set (chunks 200 (encode_runtime_key_part part))" and seg: "seg = escape_dots c"
    by (auto simp: runtime_key_part_segments_def DELIVERY_ID_PART_CHUNK_BYTES_def)
  from chunks_length [OF c] have "list_all key_byte c" and "c \<noteq> []" and "length c \<le> 200"
    using encode_runtime_key_part_chars [of part] by (auto simp: list_all_iff)
  then show "segment_ok seg"
    unfolding seg segment_ok_def escape_dots_def by (auto simp: key_byte_def is_alnum_def)
qed

lemma escaped_v3_segment_ok: "seg \<in> set (runtime_key_part_segments_v3 part) \<Longrightarrow> segment_ok seg"
proof -
  assume "seg \<in> set (runtime_key_part_segments_v3 part)"
  then have c: "seg \<in> set (chunks 200 (encode_runtime_key_part_v3 part))"
    by (auto simp: runtime_key_part_segments_v3_def DELIVERY_ID_PART_CHUNK_BYTES_def)
  from chunks_length [OF c]
  have "list_all (\<lambda>c. is_alnum c \<or> c = CHR ''-'' \<or> c = CHR ''_'') seg" and "seg \<noteq> []" and "length seg \<le> 200"
    using encode_v3_chars [of part] by (auto simp: list_all_iff)
  then show "segment_ok seg"
    using list_all_not_dots [of seg] by (auto simp: segment_ok_def key_byte_def list_all_iff)
qed

lemma segment_ok_no_slash: "segment_ok seg \<Longrightarrow> CHR ''/'' \<notin> set seg"
  by (auto simp: segment_ok_def list_all_iff key_byte_def)

lemma segments_not_Nil [simp]:
  "runtime_key_part_segments p \<noteq> []" "runtime_key_part_segments_v3 p \<noteq> []"
  by (simp_all add: runtime_key_part_segments_def runtime_key_part_segments_v3_def
      DELIVERY_ID_PART_CHUNK_BYTES_def encode_runtime_key_part_index)

end
