(* ===== verification/Identity_Injectivity.thy ===== *)
theory Identity_Injectivity
  imports Delivery_Identity
begin

text \<open>
  Delivery identifiers are injective: the segments of an encoded part determine the part although a part is
  cut into chunks and a chunk of dots is escaped, and a sequence of parts separated by short labels is
  determined by its segments although the number of chunks of a part varies.
\<close>

section \<open>Chunks\<close>

lemma chunks_butlast: "c \<in> set (butlast (chunks n xs)) \<Longrightarrow> length c = n"
proof (induction n xs rule: chunks.induct)
  case (1 n xs)
  show ?case
  proof (cases "n = 0 \<or> xs = [] \<or> drop n xs = []")
    case True
    with 1(2) show ?thesis by (auto simp: chunks.simps [of n xs] chunks.simps [of n "[]"] split: if_splits)
  next
    case False
    then have "chunks n xs = take n xs # chunks n (drop n xs)" and "chunks n (drop n xs) \<noteq> []"
      by (simp_all add: chunks.simps [of n xs])
    with 1 False show ?thesis by auto
  qed
qed

definition short :: "string \<Rightarrow> bool" where
  "short s \<longleftrightarrow> length s < 200"

abbreviation segs :: "string \<Rightarrow> string list" where
  "segs \<equiv> runtime_key_part_segments"

lemma segs_butlast_long: "s \<in> set (butlast (segs p)) \<Longrightarrow> \<not> short s"
proof -
  assume "s \<in> set (butlast (segs p))"
  then obtain c where "c \<in> set (butlast (chunks 200 (encode_runtime_key_part p)))" and "s = escape_dots c"
    by (auto simp: runtime_key_part_segments_def DELIVERY_ID_PART_CHUNK_BYTES_def simp flip: map_butlast)
  then show ?thesis using chunks_butlast [of c 200] by (simp add: short_def escape_dots_def)
qed

lemma segs_short_head: "segs p = m # rest \<Longrightarrow> short m \<Longrightarrow> rest = []"
  using segs_butlast_long [of m p] by (cases rest) auto

text \<open>After a part comes its label: the segments before the label are the part's, or one of the two parts
  ends with a chunk that reads like the label.\<close>

lemma segs_label_cases:
  assumes "segs p @ m # xs = segs q @ m # ys" and "short m"
  obtains "segs p = segs q" "xs = ys"
    | "segs q = segs p @ [m]" "xs = m # ys"
    | "segs p = segs q @ [m]" "ys = m # xs"
proof -
  have tail: "us = []" if "segs b = segs a @ m # us" for a b us
    using that segs_butlast_long [of m b] assms(2) by (cases us) (auto simp: butlast_append)
  from assms(1) consider us where "segs p = segs q @ us" "us @ m # xs = m # ys"
    | us where "segs q = segs p @ us" "m # xs = us @ m # ys"
    unfolding append_eq_append_conv2 by metis
  then show thesis
  proof cases
    case (1 us)
    show ?thesis
    proof (cases us)
      case Nil
      with 1 that(1) show ?thesis by simp
    next
      case (Cons u us')
      with 1(2) have u: "us = m # us'" and "us' @ m # xs = ys" by auto
      with tail [of p q us'] 1(1) have "us' = []" by blast
      with u 1 show ?thesis by (intro that(3)) auto
    qed
  next
    case (2 us)
    show ?thesis
    proof (cases us)
      case Nil
      with 2 that(1) show ?thesis by simp
    next
      case (Cons u us')
      with 2(2) have u: "us = m # us'" and "xs = us' @ m # ys" by auto
      with tail [of q p us'] 2(1) have "us' = []" by blast
      with u 2 show ?thesis by (intro that(2)) auto
    qed
  qed
qed

lemma segs_label_head:
  assumes "segs p @ m # xs = l # ys" and "short l"
  shows "segs p = [l] \<and> m # xs = ys"
proof -
  obtain r where "segs p = l # r" using assms(1) by (cases "segs p") auto
  with segs_short_head [OF this assms(2)] assms(1) show ?thesis by auto
qed

lemma short_labels [simp]: "short ''dept''" "short ''ref''" "short ''parent__hash''"
  by (simp_all add: short_def)

text \<open>Two parts, each followed by its label, and a rest that does not begin with the second label.\<close>

lemma segs_labels:
  assumes eq: "segs a @ l # segs b @ m # c = segs a' @ l # segs b' @ m # c'"
    and l: "short l" and m: "short m" and rest: "c \<noteq> m # c'" "c' \<noteq> m # c"
  shows "segs a = segs a' \<and> segs b = segs b' \<and> c = c'"
proof -
  have two: "segs x = segs x' \<and> c = c'" if "segs x @ m # c = segs x' @ m # c'" for x x'
    using that m by (rule segs_label_cases) (use rest in auto)
  have shifted: "c1 = m # c2" if "segs b1 @ m # c1 = l # segs b2 @ m # c2" for b1 b2 c1 c2
  proof -
    from segs_label_head [OF that l] have "segs b2 @ m # c2 = m # c1" by simp
    from segs_label_head [OF this m] show ?thesis by simp
  qed
  from eq l show ?thesis
    by (rule segs_label_cases) (use two shifted rest in blast)+
qed

section \<open>Parts\<close>

text \<open>A chunk of dots and its escape do not both continue an encoded text.\<close>

abbreviation enc :: "string \<Rightarrow> string" where
  "enc s \<equiv> concat (map encode_index_byte s)"

lemma byte_HEX_split: "\<exists>h1 h2. byte_HEX c = [h1, h2] \<and> is_alnum h1 \<and> is_alnum h2"
  using byte_HEX_alnum [of c] by (auto simp: byte_HEX_def)

lemma enc_dot_escape:
  "enc s = u @ CHR ''.'' # v \<Longrightarrow> enc t = u @ ''_x.'' @ w \<Longrightarrow> False"
proof (induction s arbitrary: u t)
  case (Cons b s)
  show ?case
  proof (cases u)
    case Nil
    with Cons.prems(2) encode_bytes_not_escape [of t w] show ?thesis by simp
  next
    case u: (Cons x u')
    with Cons.prems(2) obtain d t' where t: "t = d # t'" by (cases t) auto
    have bd: "b = d \<and> (\<exists>u''. u = encode_index_byte b @ u'')"
    proof (cases b rule: encode_index_byte_cases)
      case plain: 1
      then show ?thesis using Cons.prems t u by (cases d rule: encode_index_byte_cases) auto
    next
      case under: 2
      then show ?thesis using Cons.prems t u
        by (cases d rule: encode_index_byte_cases; cases u') (auto simp: Cons_eq_append_conv)
    next
      case esc: 3
      obtain h1 h2 where h: "byte_HEX b = [h1, h2]" "is_alnum h1" "is_alnum h2" using byte_HEX_split by blast
      obtain g1 g2 where g: "byte_HEX d = [g1, g2]" "is_alnum g1" "is_alnum g2" using byte_HEX_split by blast
      have "b = d" if "h1 = g1" "h2 = g2" using that h g byte_HEX_inject [of b d] by simp
      with esc h g Cons.prems t u show ?thesis
        by (cases d rule: encode_index_byte_cases) (auto simp: Cons_eq_append_conv)
    qed
    then obtain u'' where u'': "u = encode_index_byte b @ u''" by blast
    from Cons.prems bd u'' t have "enc s = u'' @ CHR ''.'' # v" and "enc t' = u'' @ ''_x.'' @ w" by auto
    then show ?thesis by (rule Cons.IH)
  qed
qed simp

lemma encode_dot_escape:
  assumes u0: "u \<noteq> []"
    and s: "encode_index_part s = u @ CHR ''.'' # v" and t: "encode_index_part t = u @ ''_x.'' @ w"
  shows False
proof -
  have special: "enc r \<noteq> ''_x'' @ ds @ ''_x.'' @ w'" if "all_dots ds" for r ds w'
  proof (cases ds)
    case Nil
    have "enc r \<noteq> ''_x_'' @ z" for z
    proof (cases r)
      case (Cons b r')
      obtain h1 h2 where "byte_HEX b = [h1, h2]" "is_alnum h1" using byte_HEX_split by blast
      then show ?thesis using Cons by (cases b rule: encode_index_byte_cases) auto
    qed simp
    with Nil show ?thesis by simp
  next
    case (Cons d ds')
    with that encode_bytes_not_escape [of r] show ?thesis by (simp add: all_dots_def)
  qed
  have dots: False if "''_x'' @ ds = u @ ''_x.'' @ w" "all_dots ds" for ds
  proof -
    have d: "c \<in> set ds \<Longrightarrow> c = CHR ''.''" for c using that(2) by (simp add: all_dots_def list_all_iff)
    from that(1) u0 consider "u = ''_''" | u' where "u = ''_x'' @ u'"
 by (cases u; cases "tl u") auto
    then show False
    proof cases
      case 1
      with that(1) show False by simp
    next
      case (2 u')
      with that(1) have "CHR ''x'' \<in> set ds" by simp
      then show False using d by blast
    qed
  qed
  have shape: "encode_index_part r = ''_'' \<or> (\<exists>ds. encode_index_part r = ''_x'' @ ds \<and> all_dots ds) \<or>
      encode_index_part r = enc r" for r
    by (auto simp: encode_index_part_def Let_def)
  have "encode_index_part t \<noteq> ''_''" unfolding t by (cases u) auto
  moreover have "\<not> (\<exists>ds. encode_index_part t = ''_x'' @ ds \<and> all_dots ds)" unfolding t using dots by metis
  ultimately have et: "enc t = u @ ''_x.'' @ w" using shape [of t] t by metis
  consider "encode_index_part s = ''_''" | ds where "encode_index_part s = ''_x'' @ ds" "all_dots ds"
    | "encode_index_part s = enc s"
    using shape [of s] by blast
  then show False
  proof cases
    case 1
    with s show False by (cases u) auto
  next
    case (2 ds)
    with s have "''_x'' @ ds = u @ CHR ''.'' # v" by simp
    then obtain u' where u: "u = ''_x'' @ u'" and ds: "ds = u' @ CHR ''.'' # v"
      by (cases u; cases "tl u") auto
    with special [of u' t w] et 2(2) show False by (simp add: all_dots_def)
  next
    case 3
    with s et show False using enc_dot_escape [of s u v t w] by simp
  qed
qed

lemma encode_not_dots: "\<not> all_dots (encode_index_part s)"
  by (auto simp: encode_index_part_def all_dots_def Let_def)

lemma escape_dots_clash:
  assumes cs: "chunks 200 (encode_index_part s) = P @ c # X" and ds: "chunks 200 (encode_index_part t) = P @ d # Y"
    and c: "all_dots c" and d: "d = ''_x'' @ c"
  shows False
proof -
  have "d \<in> set (chunks 200 (encode_index_part t))" and c_in: "c \<in> set (chunks 200 (encode_index_part s))"
    using cs ds by simp_all
  with d have "length c < 200" and "c \<noteq> []" using chunks_length [of d] chunks_length [of c] by fastforce+
  with chunks_butlast [of c 200 "encode_index_part s"] have X: "X = []"
    unfolding cs by (cases X) (auto simp: butlast_append)
  obtain c' where c': "c = CHR ''.'' # c'" using all_dots_head [OF c \<open>c \<noteq> []\<close>] by blast
  have s: "encode_index_part s = concat P @ CHR ''.'' # c'"
    using concat_chunks [of 200 "encode_index_part s"] cs X c' by simp
  have t: "encode_index_part t = concat P @ ''_x.'' @ c' @ concat Y"
    using concat_chunks [of 200 "encode_index_part t"] ds d c' by simp
  have "P \<noteq> []" using encode_not_dots [of s] s c c' by auto
  then have "concat P \<noteq> []" using chunks_length [of "hd P" 200 "encode_index_part s"] cs by (cases P) auto
  then show False using s t by (rule encode_dot_escape)
qed

lemma segs_inject [simp, key_inject]: "segs s = segs t \<longleftrightarrow> s = t"
proof
  define cs ds where "cs = chunks 200 (encode_index_part s)" and "ds = chunks 200 (encode_index_part t)"
  assume "segs s = segs t"
  then have eq: "map escape_dots cs = map escape_dots ds"
    by (simp add: runtime_key_part_segments_def DELIVERY_ID_PART_CHUNK_BYTES_def
        encode_runtime_key_part_index cs_def ds_def)
  have "cs = ds"
  proof (rule ccontr)
    assume "cs \<noteq> ds"
    moreover have "length cs = length ds" using arg_cong [OF eq, of length] by simp
    ultimately have "\<exists>P c X d Y. c \<noteq> d \<and> cs = P @ [c] @ X \<and> ds = P @ [d] @ Y"
      by (rule same_length_different)
    then obtain P c X d Y where "c \<noteq> d \<and> cs = P @ [c] @ X \<and> ds = P @ [d] @ Y"
      by (elim exE)
    then have ne: "c \<noteq> d" and cs: "cs = P @ c # X" and ds: "ds = P @ d # Y" by simp_all
    with eq have "escape_dots c = escape_dots d" by simp
    with ne consider "all_dots c" "d = ''_x'' @ c" | "all_dots d" "c = ''_x'' @ d"
      unfolding escape_dots_def all_dots_def [symmetric] by (metis append_same_eq same_append_eq)
    then show False
    proof cases
      case 1
      show ?thesis by (rule escape_dots_clash [OF cs [unfolded cs_def] ds [unfolded ds_def] 1])
    next
      case 2
      show ?thesis by (rule escape_dots_clash [OF ds [unfolded ds_def] cs [unfolded cs_def] 2])
    qed
  qed
  then have "concat cs = concat ds" by simp
  then show "s = t" by (simp add: cs_def ds_def concat_chunks)
qed simp

lemma encode_v3_inject [simp, key_inject]: "encode_runtime_key_part_v3 s = encode_runtime_key_part_v3 t \<longleftrightarrow> s = t"
proof
  define e where "e byte = (if is_alnum byte \<or> byte = CHR ''-'' then [byte] else CHR ''_'' # byte_HEX byte @ ''_'')" for byte
  have cancel: "c = d" if "e c @ xs = e d @ ys" for c d xs ys
    using that by (auto simp: e_def split: if_splits)
  have under: "concat (map e (c # r)) \<noteq> ''_''" for c r by (auto simp: e_def byte_HEX_def)
  assume eq: "encode_runtime_key_part_v3 s = encode_runtime_key_part_v3 t"
  have v3: "encode_runtime_key_part_v3 r = (if r = [] then ''_'' else concat (map e r))" for r
    by (simp add: encode_runtime_key_part_v3_def e_def [abs_def])
  have "concat (map e s) = concat (map e t)"
  proof (cases "s = [] \<or> t = []")
    case True
    with eq under show ?thesis unfolding v3 by (metis list.exhaust)
  next
    case False
    with eq show ?thesis unfolding v3 by simp
  qed
  moreover have "e c \<noteq> []" for c by (simp add: e_def)
  ultimately show "s = t" using concat_map_inject [of e s t] cancel by metis
qed simp

lemma segs_v3_inject [simp, key_inject]: "runtime_key_part_segments_v3 s = runtime_key_part_segments_v3 t \<longleftrightarrow> s = t"
proof
  assume "runtime_key_part_segments_v3 s = runtime_key_part_segments_v3 t"
  then have "concat (runtime_key_part_segments_v3 s) = concat (runtime_key_part_segments_v3 t)" by simp
  then show "s = t"
    by (simp add: runtime_key_part_segments_v3_def DELIVERY_ID_PART_CHUNK_BYTES_def concat_chunks)
qed simp

lemma router_source_kind_key_inject [simp, key_inject]:
  "router_source_kind_key a = router_source_kind_key b \<longleftrightarrow> a = b"
  by (cases a; cases b) simp_all

lemma dec_inject [simp, key_inject]: "dec m = dec n \<longleftrightarrow> m = n"
proof (induction m arbitrary: n rule: dec.induct)
  case (1 m)
  show ?case
  proof (cases "m < 10 \<or> n < 10")
    case True
    then show ?thesis by (auto simp: dec.simps [of m] dec.simps [of n] digit_eq_iff)
  next
    case False
    then have "dec m = dec n \<longleftrightarrow> m div 10 = n div 10 \<and> m mod 10 = n mod 10"
      using 1 [of "n div 10"] by (simp add: dec.simps [of m] dec.simps [of n] digit_eq_iff)
    also have "\<dots> \<longleftrightarrow> m = n" by (metis div_mult_mod_eq)
    finally show ?thesis .
  qed
qed

section \<open>Logical identities\<close>

text \<open>What a delivery identifier stands for.\<close>

datatype logical_identity =
    ByDedup string string string
  | ByRaisedSource string string source_kind string
  | ByParent string string string nat
  | BySource source_kind string string string

definition logical_identity ::
    "string \<Rightarrow> string \<Rightarrow> source_ref option \<Rightarrow> derived_delivery option \<Rightarrow> string option \<Rightarrow> source_ref option \<Rightarrow>
     logical_identity option" where
  "logical_identity q dpt src derived raised_dedup_key raised_source_ref =
     (case (derived, raised_dedup_key, raised_source_ref, src) of
        (Some dd, Some (c # key), _, _) \<Rightarrow> Some (ByDedup q dpt (c # key))
      | (Some dd, _, Some r, _) \<Rightarrow> Some (ByRaisedSource q dpt (src_kind r) (src_reference r))
      | (Some dd, _, None, Some r) \<Rightarrow> Some (ByRaisedSource q dpt (src_kind r) (src_reference r))
      | (Some dd, _, None, None) \<Rightarrow> Some (ByParent q dpt (stable_hex_hash (parent_delivery_id dd)) (ordinal dd))
      | (None, _, _, Some r) \<Rightarrow> Some (BySource (src_kind r) q dpt (src_reference r))
      | (None, _, _, None) \<Rightarrow> None)"

fun logical_segments :: "logical_identity \<Rightarrow> string list" where
  "logical_segments (ByDedup q d key) =
     [''delivery'', ''v3'', ''raised'', ''queue'', q, ''dept'', d, ''dedup''] @ runtime_key_part_segments_v3 key"
| "logical_segments (ByRaisedSource q d k r) =
     [''delivery'', ''v3'', ''raised-src'', ''queue'', q, ''dept'', d, ''kind'', router_source_kind_key k, ''ref'']
     @ runtime_key_part_segments_v3 r"
| "logical_segments (ByParent q d h n) =
     [''delivery'', ''v2'', ''raised'', ''queue''] @ segs q @ ''dept'' # segs d @ ''parent__hash'' # h # ''ordinal'' # segs (dec n)"
| "logical_segments (BySource k q d r) =
     [''delivery'', ''v1'', ''source'', encode_runtime_key_part (router_source_kind_key k), ''queue'']
     @ segs q @ ''dept'' # segs d @ ''ref'' # segs r"

definition logical_key :: "logical_identity \<Rightarrow> string" where
  "logical_key l = join ''/'' (logical_segments l)"

fun names_ok :: "logical_identity \<Rightarrow> bool" where
  "names_ok (ByDedup q d key) = (CHR ''/'' \<notin> set q \<and> CHR ''/'' \<notin> set d)"
| "names_ok (ByRaisedSource q d k r) = (CHR ''/'' \<notin> set q \<and> CHR ''/'' \<notin> set d)"
| "names_ok (ByParent q d h n) = (length h = 32 \<and> list_all is_alnum h)"
| "names_ok (BySource k q d r) = True"

lemma segs_single:
  assumes "length (encode_runtime_key_part s) \<le> 200"
  shows "segs s = [encode_runtime_key_part s]"
proof -
  have "\<not> list_all (\<lambda>c. c = CHR ''.'') (encode_runtime_key_part s)"
    using encode_not_dots [of s] by (simp add: encode_runtime_key_part_index all_dots_def)
  moreover have "encode_runtime_key_part s \<noteq> []" by (simp add: encode_runtime_key_part_index)
  ultimately show ?thesis using assms
    by (simp add: runtime_key_part_segments_def DELIVERY_ID_PART_CHUNK_BYTES_def escape_dots_def
        chunks.simps [of _ "encode_runtime_key_part s"] chunks.simps [of _ "[]"])
qed

lemma encode_alnum: "list_all is_alnum s \<Longrightarrow> s \<noteq> [] \<Longrightarrow> encode_runtime_key_part s = s"
proof -
  assume a: "list_all is_alnum s" "s \<noteq> []"
  have "enc s = s" using a(1) by (induction s) (auto simp: encode_index_byte_def)
  moreover have "\<not> all_dots s" using a by (cases s) (auto simp: all_dots_def)
  ultimately show ?thesis using a(2) by (simp add: encode_runtime_key_part_index encode_index_part_def)
qed

lemma segs_alnum: "list_all is_alnum s \<Longrightarrow> s \<noteq> [] \<Longrightarrow> length s \<le> 200 \<Longrightarrow> segs s = [s]"
  by (simp add: segs_single encode_alnum)

lemma segs_labels_const:
  "segs ''delivery'' = [''delivery'']" "segs ''v1'' = [''v1'']" "segs ''v2'' = [''v2'']" "segs ''source'' = [''source'']"
  "segs ''raised'' = [''raised'']" "segs ''queue'' = [''queue'']" "segs ''dept'' = [''dept'']" "segs ''ref'' = [''ref'']"
  "segs ''ordinal'' = [''ordinal'']"
  by (rule segs_alnum; simp add: is_alnum_def)+

lemma encode_parent_hash: "encode_runtime_key_part ''parent_hash'' = ''parent__hash''"
  by code_simp

lemma segs_parent_hash: "segs ''parent_hash'' = [''parent__hash'']"
  using segs_single [of "''parent_hash''"] by (simp add: encode_parent_hash)

lemma encode_kind: "encode_runtime_key_part (router_source_kind_key k) =
    (case k of File \<Rightarrow> ''file__watch'' | Cron \<Rightarrow> ''cron'' | Git \<Rightarrow> ''git'' | External \<Rightarrow> ''external'')"
  by (cases k; simp; code_simp)

lemma segs_kind: "segs (router_source_kind_key k) = [encode_runtime_key_part (router_source_kind_key k)]"
  by (rule segs_single) (simp add: encode_kind split: source_kind.split)

lemma logical_segments_no_slash:
  assumes "names_ok l" and "s \<in> set (logical_segments l)"
  shows "CHR ''/'' \<notin> set s"
proof -
  have e: "CHR ''/'' \<notin> set t" if "t \<in> set (segs p) \<union> set (runtime_key_part_segments_v3 p)" for t p
    using that escaped_segment_ok escaped_v3_segment_ok segment_ok_no_slash by blast
  have k: "CHR ''/'' \<notin> set (router_source_kind_key k)" "CHR ''/'' \<notin> set (encode_runtime_key_part p)" for k p
    by (cases k, simp_all) (simp add: encode_runtime_key_part_index)
  have h: "CHR ''/'' \<notin> set h" if "list_all is_alnum h" for h using that by (auto simp: list_all_iff)
  show ?thesis using assms by (cases l) (use e k h in auto)
qed

lemma split_logical_key:
  assumes "names_ok l"
  shows "split_on (CHR ''/'') (logical_key l) = logical_segments l"
proof -
  have "logical_segments l \<noteq> []" by (cases l) simp_all
  then show ?thesis
    using assms split_on_join [of "logical_segments l"] logical_segments_no_slash [of l] by (simp add: logical_key_def)
qed

lemma logical_segments_inject:
  assumes "names_ok l" and "names_ok l'" and "logical_segments l = logical_segments l'"
  shows "l = l'"
proof (cases l)
  case (ByParent q d h n)
  with assms(3) obtain q' d' h' n' where l': "l' = ByParent q' d' h' n'" by (cases l') auto
  let ?c = "h # ''ordinal'' # segs (dec n)" and ?c' = "h' # ''ordinal'' # segs (dec n')"
  have "length h = 32" "length h' = 32" using assms(1,2) ByParent l' by simp_all
  then have "?c \<noteq> ''parent__hash'' # ?c'" "?c' \<noteq> ''parent__hash'' # ?c" by auto
  moreover from assms(3) ByParent l'
  have "segs q @ ''dept'' # segs d @ ''parent__hash'' # ?c = segs q' @ ''dept'' # segs d' @ ''parent__hash'' # ?c'" by simp
  ultimately have "segs q = segs q' \<and> segs d = segs d' \<and> ?c = ?c'"
    using short_labels segs_labels [of q "''dept''" d "''parent__hash''" ?c q' d' ?c'] by blast
  with ByParent l' show ?thesis by simp
next
  case (BySource k q d r)
  with assms(3) obtain k' q' d' r' where l': "l' = BySource k' q' d' r'" by (cases l') auto
  have "segs r \<noteq> ''ref'' # segs r'" "segs r' \<noteq> ''ref'' # segs r"
    using segs_short_head [of r "''ref''"] segs_short_head [of r' "''ref''"] by (auto simp: short_def)
  moreover from assms(3) BySource l'
  have "segs q @ ''dept'' # segs d @ ''ref'' # segs r = segs q' @ ''dept'' # segs d' @ ''ref'' # segs r'"
    and "router_source_kind_key k = router_source_kind_key k'"
    by (simp_all add: encode_runtime_key_part_index)
  ultimately have "segs q = segs q' \<and> segs d = segs d' \<and> segs r = segs r' \<and> k = k'"
    using segs_labels [of q "''dept''" d "''ref''" "segs r" q' d' "segs r'"] by simp
  with BySource l' show ?thesis by simp
qed (use assms in \<open>cases l'; simp\<close>)+

lemma logical_key_inject:
  "names_ok l \<Longrightarrow> names_ok l' \<Longrightarrow> logical_key l = logical_key l' \<longleftrightarrow> l = l'"
  using split_logical_key logical_segments_inject by metis

section \<open>The derived identity\<close>

lemma identity_keys:
  "dedup_identity_key q d key = logical_key (ByDedup q d key)"
  "raised_source_key q d r = logical_key (ByRaisedSource q d (src_kind r) (src_reference r))"
  "parent_identity_key q d dd = logical_key (ByParent q d (stable_hex_hash (parent_delivery_id dd)) (ordinal dd))"
  "source_identity_key q d r = logical_key (BySource (src_kind r) q d (src_reference r))"
proof -
  have "stable_hex_hash p \<noteq> []" for p using length_stable_hex_hash [of p] by fastforce
  then have h: "segs (stable_hex_hash p) = [stable_hex_hash p]" for p
    by (intro segs_alnum) (simp_all add: stable_hex_hash_alnum)
  show "parent_identity_key q d dd = logical_key (ByParent q d (stable_hex_hash (parent_delivery_id dd)) (ordinal dd))"
    by (simp add: parent_identity_key_def runtime_key_def logical_key_def segs_labels_const segs_parent_hash h)
  show "source_identity_key q d r = logical_key (BySource (src_kind r) q d (src_reference r))"
    by (simp add: source_identity_key_def runtime_key_def logical_key_def segs_labels_const segs_kind)
qed (simp_all add: dedup_identity_key_def raised_source_key_def runtime_key_v3_def logical_key_def)

fun by_dedup :: "logical_identity \<Rightarrow> bool" where
  "by_dedup (ByDedup q d key) = True"
| "by_dedup _ = False"

lemma dedup_cases:
  obtains (none) "dk = None" | (empty) "dk = Some []" | (key) c k where "dk = Some (c # k)"
  by (cases dk; cases "the dk") auto

text \<open>The identity is the key of the logical identity, when that key is valid.\<close>

lemma derive_logical:
  "derive_delivery_identity q d src derived dk rs =
     (case logical_identity q d src derived dk rs of
        None \<Rightarrow> Inl SourceRequired
      | Some l \<Rightarrow>
          (case validate_runtime_key (logical_key l) of
             Inl e \<Rightarrow> Inl (KeyNotRuntimeSafe e)
           | Inr _ \<Rightarrow> Inr \<lparr>di_delivery_id = logical_key l, di_collapse_by_dedup_id = by_dedup l\<rparr>))"
  unfolding derive_delivery_identity_def logical_identity_def identity_keys
  by (cases derived; cases rs; cases src; cases dk rule: dedup_cases) (simp_all split: sum.split)

end
