(* ===== verification/Identity_Theorems.thy ===== *)
theory Identity_Theorems
  imports Identity_Injectivity
begin

text \<open>
  The theorems on delivery identifiers: the hash of the router is SHA-256, an identifier determines the
  logical delivery it was derived from, and when the derivation succeeds.
\<close>

section \<open>Validity of the derived keys\<close>

fun raw_names_valid :: "logical_identity \<Rightarrow> bool" where
  "raw_names_valid (ByDedup q d key) = (segment_ok q \<and> segment_ok d)"
| "raw_names_valid (ByRaisedSource q d k r) = (segment_ok q \<and> segment_ok d)"
| "raw_names_valid _ = True"

lemma label_segments_ok:
  "segment_ok ''delivery''" "segment_ok ''v1''" "segment_ok ''v2''" "segment_ok ''v3''" "segment_ok ''raised''"
  "segment_ok ''raised-src''" "segment_ok ''source''" "segment_ok ''queue''" "segment_ok ''dept''"
  "segment_ok ''dedup''" "segment_ok ''kind''" "segment_ok ''ref''" "segment_ok ''parent__hash''"
  "segment_ok ''ordinal''"
  by code_simp+

lemma kind_segments_ok:
  "segment_ok (router_source_kind_key k)" "segment_ok (encode_runtime_key_part (router_source_kind_key k))"
  by (cases k; simp only: router_source_kind_key.simps; code_simp)+

lemma hash_segment_ok: "length h = 32 \<Longrightarrow> list_all is_alnum h \<Longrightarrow> segment_ok h"
proof -
  assume a: "length h = 32" "list_all is_alnum h"
  then have "\<not> list_all (\<lambda>c. c = CHR ''.'') h" by (cases h) auto
  moreover have "list_all key_byte h" using a(2) by (simp add: list_all_iff key_byte_def)
  moreover have "h \<noteq> []" using a(1) by auto
  ultimately show ?thesis using a(1) by (simp add: segment_ok_def)
qed

lemma logical_segments_ok:
  assumes "names_ok l"
  shows "(\<forall>s \<in> set (logical_segments l). segment_ok s) \<longleftrightarrow> raw_names_valid l"
proof -
  have e: "\<forall>s \<in> set (segs p). segment_ok s" "\<forall>s \<in> set (runtime_key_part_segments_v3 p). segment_ok s" for p
    by (auto dest: escaped_segment_ok escaped_v3_segment_ok)
  show ?thesis using assms
    by (cases l) (simp_all add: label_segments_ok kind_segments_ok hash_segment_ok ball_Un e)
qed

lemma logical_key_valid:
  "names_ok l \<Longrightarrow> validate_runtime_key (logical_key l) = Inr k \<longleftrightarrow> k = logical_key l \<and> raw_names_valid l"
  by (simp add: validate_runtime_key_iff split_logical_key logical_segments_ok)

lemma logical_names_ok:
  assumes "CHR ''/'' \<notin> set q" and "CHR ''/'' \<notin> set d" and "logical_identity q d src derived dk rs = Some l"
  shows "names_ok l"
  using assms unfolding logical_identity_def
  by (cases derived; cases rs; cases src; cases dk rule: dedup_cases) (auto simp: stable_hex_hash_alnum)

lemma derive_iff:
  assumes "CHR ''/'' \<notin> set q" and "CHR ''/'' \<notin> set d"
  shows "derive_delivery_identity q d src derived dk rs = Inr i \<longleftrightarrow>
    (\<exists>l. logical_identity q d src derived dk rs = Some l \<and> raw_names_valid l \<and>
         i = \<lparr>di_delivery_id = logical_key l, di_collapse_by_dedup_id = by_dedup l\<rparr>)"
proof (cases "logical_identity q d src derived dk rs")
  case (Some l)
  with logical_key_valid [OF logical_names_ok [OF assms Some]] show ?thesis
    by (cases "validate_runtime_key (logical_key l)") (auto simp: derive_logical)
qed (simp add: derive_logical)

definition keyed :: "derived_delivery option \<Rightarrow> string option \<Rightarrow> bool" where
  "keyed derived dk \<longleftrightarrow> derived \<noteq> None \<and> dk \<noteq> None \<and> dk \<noteq> Some []"

definition sourced :: "derived_delivery option \<Rightarrow> source_ref option \<Rightarrow> source_ref option \<Rightarrow> bool" where
  "sourced derived rs src \<longleftrightarrow> derived \<noteq> None \<and> (rs \<noteq> None \<or> src \<noteq> None)"

lemma logical_facts:
  assumes "logical_identity q d src derived dk rs = Some l"
  shows "by_dedup l \<longleftrightarrow> keyed derived dk"
    and "raw_names_valid l \<longleftrightarrow> (keyed derived dk \<or> sourced derived rs src \<longrightarrow> segment_ok q \<and> segment_ok d)"
  using assms unfolding keyed_def sourced_def
  by (cases derived; cases rs; cases src; cases dk rule: dedup_cases; force simp: logical_identity_def)+

section \<open>The theorems\<close>


text \<open>C15: Two deliveries have the same identifier exactly when they are the same logical delivery: both
  raised under the same deduplication key, both raised for the same source reference, both raised from
  parents with the same hash at the same position, or both admitted from the same source, in each case for
  the same queue and department, whose names contain no slash. Chunking, escaping and names that look like
  labels never confuse two of them.\<close>

theorem delivery_id_injective:
  assumes "CHR ''/'' \<notin> set q" and "CHR ''/'' \<notin> set d" and "CHR ''/'' \<notin> set q'" and "CHR ''/'' \<notin> set d'"
    and "derive_delivery_identity q d src derived dk rs = Inr i"
    and "derive_delivery_identity q' d' src' derived' dk' rs' = Inr i'"
  shows "di_delivery_id i = di_delivery_id i' \<longleftrightarrow>
    logical_identity q d src derived dk rs = logical_identity q' d' src' derived' dk' rs'"
proof -
  from assms(5) obtain l where l: "logical_identity q d src derived dk rs = Some l" "di_delivery_id i = logical_key l"
    unfolding derive_iff [OF assms(1,2)] by auto
  from assms(6) obtain l' where l': "logical_identity q' d' src' derived' dk' rs' = Some l'" "di_delivery_id i' = logical_key l'"
    unfolding derive_iff [OF assms(3,4)] by auto
  show ?thesis
    using logical_key_inject [OF logical_names_ok [OF assms(1,2) l(1)] logical_names_ok [OF assms(3,4) l'(1)]] l l' by simp
qed

theorem delivery_id_injective_witness:
  "\<exists>i i'. derive_delivery_identity ''jobs'' ''dept'' None (Some \<lparr>parent_delivery_id = ''p'', ordinal = 0\<rparr>) (Some ''a/b'') None = Inr i \<and>
     derive_delivery_identity ''jobs'' ''dept'' None (Some \<lparr>parent_delivery_id = ''p'', ordinal = 0\<rparr>) (Some ''a_2F_b'') None = Inr i' \<and>
     di_delivery_id i \<noteq> di_delivery_id i'"
proof -
  let ?i = "\<lparr>di_delivery_id = ''delivery/v3/raised/queue/jobs/dept/dept/dedup/a_2F_b'', di_collapse_by_dedup_id = True\<rparr>"
  let ?j = "\<lparr>di_delivery_id = ''delivery/v3/raised/queue/jobs/dept/dept/dedup/a_5F_2F_5F_b'', di_collapse_by_dedup_id = True\<rparr>"
  have i: "derive_delivery_identity ''jobs'' ''dept'' None (Some \<lparr>parent_delivery_id = ''p'', ordinal = 0\<rparr>) (Some ''a/b'') None = Inr ?i"
    by code_simp
  have j: "derive_delivery_identity ''jobs'' ''dept'' None (Some \<lparr>parent_delivery_id = ''p'', ordinal = 0\<rparr>) (Some ''a_2F_b'') None = Inr ?j"
    by code_simp
  have n: "CHR ''/'' \<notin> set ''jobs''" "CHR ''/'' \<notin> set ''dept''" by simp_all
  have "di_delivery_id ?i \<noteq> di_delivery_id ?j"
    unfolding delivery_id_injective [OF n n i j] by (simp add: logical_identity_def)
  with i j show ?thesis by blast
qed

text \<open>C16: Deriving an identifier fails exactly when a delivery that was not raised has no source, or when
  a raised delivery with a deduplication key or a source reference names a queue or department that is no
  valid key segment; sources and parents are encoded and never fail. An identifier collapses duplicates
  exactly when the delivery was raised with a non-empty deduplication key, and it is a valid runtime key.\<close>

theorem delivery_identity_total:
  assumes "CHR ''/'' \<notin> set q" and "CHR ''/'' \<notin> set d"
  shows "(derive_delivery_identity q d src derived dk rs = Inl SourceRequired \<longleftrightarrow> derived = None \<and> src = None) \<and>
    ((\<exists>i. derive_delivery_identity q d src derived dk rs = Inr i) \<longleftrightarrow>
      (derived \<noteq> None \<or> src \<noteq> None) \<and>
      (keyed derived dk \<or> sourced derived rs src \<longrightarrow> segment_ok q \<and> segment_ok d)) \<and>
    (\<forall>i. derive_delivery_identity q d src derived dk rs = Inr i \<longrightarrow>
      (di_collapse_by_dedup_id i \<longleftrightarrow> keyed derived dk) \<and>
      validate_runtime_key (di_delivery_id i) = Inr (di_delivery_id i))"
proof (intro conjI allI impI)
  have none: "logical_identity q d src derived dk rs = None \<longleftrightarrow> derived = None \<and> src = None"
    by (cases derived; cases rs; cases src; cases dk rule: dedup_cases) (simp_all add: logical_identity_def)
  show "derive_delivery_identity q d src derived dk rs = Inl SourceRequired \<longleftrightarrow> derived = None \<and> src = None"
    unfolding none [symmetric] derive_logical by (auto split: option.split sum.split)
  show "(\<exists>i. derive_delivery_identity q d src derived dk rs = Inr i) \<longleftrightarrow>
      (derived \<noteq> None \<or> src \<noteq> None) \<and>
      (keyed derived dk \<or> sourced derived rs src \<longrightarrow> segment_ok q \<and> segment_ok d)"
    unfolding derive_iff [OF assms]
    using none logical_facts(2) [of q d src derived dk rs] by (cases "logical_identity q d src derived dk rs") auto
  fix i
  assume "derive_delivery_identity q d src derived dk rs = Inr i"
  then obtain l where l: "logical_identity q d src derived dk rs = Some l" "raw_names_valid l"
    and i: "i = \<lparr>di_delivery_id = logical_key l, di_collapse_by_dedup_id = by_dedup l\<rparr>"
    unfolding derive_iff [OF assms] by auto
  show "di_collapse_by_dedup_id i \<longleftrightarrow> keyed derived dk" using logical_facts(1) [OF l(1)] by (simp add: i)
  show "validate_runtime_key (di_delivery_id i) = Inr (di_delivery_id i)"
    using logical_key_valid [OF logical_names_ok [OF assms l(1)]] l(2) by (simp add: i)
qed

theorem delivery_identity_total_witness:
  "(\<exists>i. derive_delivery_identity ''jobs'' ''worker'' (Some \<lparr>src_kind = Cron, src_reference = ''../..''\<rparr>) None None None = Inr i) \<and>
   derive_delivery_identity ''jobs'' ''worker'' None None None None = Inl SourceRequired \<and>
   \<not> (\<exists>i. derive_delivery_identity ''..'' ''worker'' None (Some \<lparr>parent_delivery_id = ''p'', ordinal = 0\<rparr>) (Some ''k'') None = Inr i)"
proof -
  have n: "CHR ''/'' \<notin> set ''jobs''" "CHR ''/'' \<notin> set ''worker''" "CHR ''/'' \<notin> set ''..''" by simp_all
  show ?thesis
    using delivery_identity_total [OF n(1,2), of "Some \<lparr>src_kind = Cron, src_reference = ''../..''\<rparr>" None None None]
      delivery_identity_total [OF n(1,2), of None None None None]
      delivery_identity_total [OF n(3,2), of None "Some \<lparr>parent_delivery_id = ''p'', ordinal = 0\<rparr>" "Some ''k''" None]
    by (simp add: segment_ok_def keyed_def sourced_def)
qed

end
