(* ===== verification/Queue_Starvation.thy ===== *)
theory Queue_Starvation
  imports Delivery_Types Ordered_Table
begin

text \<open>
  JSON objects as they are built (\<open>json!\<close>, index assignment) and the normalisation of queue-starvation
  events (\<open>supervise/queue_starvation.rs\<close>), which adds a \<open>queue_liveness\<close> object to the payload of an
  event whose source names the detector.
\<close>

section \<open>Objects\<close>

text \<open>\<open>json!\<close> on an object: the map is ordered by key, a repeated key keeps its last value.\<close>

definition json_object :: "(string \<times> json) list \<Rightarrow> json" where
  "json_object kvs = JObject (fold (\<lambda>(k, v). t_insert k v) kvs [])"

text \<open>\<open>value[key] = v\<close>: inserts into an object, turns \<open>null\<close> into an object, and panics on any other
  value.\<close>

fun json_index_assign :: "json \<Rightarrow> string \<Rightarrow> json \<Rightarrow> json option" where
  "json_index_assign (JObject kvs) k v = Some (JObject (t_insert k v kvs))"
| "json_index_assign JNull k v = Some (JObject [(k, v)])"
| "json_index_assign _ k v = None"

definition json_opt :: "('a \<Rightarrow> json) \<Rightarrow> 'a option \<Rightarrow> json" where
  "json_opt f x = (case x of None \<Rightarrow> JNull | Some y \<Rightarrow> f y)"

definition json_u64 :: "u64 \<Rightarrow> json" where
  "json_u64 n = JNumber (PosInt n)"

lemma map_of_fold_t_insert:
  "map_of (fold (\<lambda>(k, v). t_insert k v) kvs t) k = (case map_of (rev kvs) k of None \<Rightarrow> map_of t k | Some v \<Rightarrow> Some v)"
  by (induction kvs arbitrary: t) (auto simp: map_of_t_insert map_add_def split: option.splits)

lemma json_get_object: "json_get (json_object kvs) k = map_of (rev kvs) k"
  by (simp add: json_object_def map_of_fold_t_insert split: option.split)

lemma json_get_distinct:
  "distinct (map fst kvs) \<Longrightarrow> json_get (json_object kvs) k = map_of kvs k"
proof -
  assume "distinct (map fst kvs)"
  then have "map_of (rev kvs) = map_of kvs" by (subst map_of_inject_set) (simp_all flip: rev_map)
  then show ?thesis by (simp add: json_get_object)
qed

lemma json_get_assign:
  "json_index_assign j k v = Some j' \<Longrightarrow> json_get j' k' = (if k' = k then Some v else json_get j k')"
  by (cases "(j, k, v)" rule: json_index_assign.cases) (auto simp: map_of_t_insert)

section \<open>Queue starvation\<close>

definition NEXT_ACTION :: string where
  "NEXT_ACTION = ''route through normal intake consensus implementation review pipeline''"

record starvation_source =
  repo_owner :: string
  repo_name :: string
  qs_state :: string
  pr_number :: string
  qs_owner :: string
  issue_repo_owner :: string
  issue_repo_name :: string
  issue_number :: string

definition item_id :: "starvation_source \<Rightarrow> string" where
  "item_id s = qs_owner s @ ''/issue/'' @ issue_repo_owner s @ ''/'' @ issue_repo_name s @ ''/'' @ issue_number s"

definition linked_item_id :: "starvation_source \<Rightarrow> string" where
  "linked_item_id s = qs_owner s @ ''/pr/'' @ repo_owner s @ ''/'' @ repo_name s @ ''/'' @ pr_number s"

definition has_nonempty_segments :: "starvation_source \<Rightarrow> bool" where
  "has_nonempty_segments s =
     list_all (\<lambda>segment. segment \<noteq> [])
       [repo_owner s, repo_name s, qs_state s, pr_number s, qs_owner s,
        issue_repo_owner s, issue_repo_name s, issue_number s]"

text \<open>\<open>Iterator::position\<close>.\<close>

fun position :: "('a \<Rightarrow> bool) \<Rightarrow> 'a list \<Rightarrow> nat option" where
  "position P [] = None"
| "position P (x # xs) = (if P x then Some 0 else map_option Suc (position P xs))"

definition queue_starvation_source :: "source_ref \<Rightarrow> starvation_source option" where
  "queue_starvation_source src =
     (let segments = split_on (CHR ''/'') (src_reference src) in
      case position (\<lambda>segment. segment = ''queue-starvation'') segments of
        None \<Rightarrow> None
      | Some detector \<Rightarrow>
          let rest = drop (detector + 1) segments in
          if length rest < 11 \<or> rest ! 3 \<noteq> ''pr'' \<or> rest ! 5 \<noteq> ''proposal'' \<or> rest ! 7 \<noteq> ''issue''
          then None
          else let parsed =
                 \<lparr>repo_owner = rest ! 0, repo_name = rest ! 1, qs_state = rest ! 2, pr_number = rest ! 4,
                  qs_owner = rest ! 6, issue_repo_owner = rest ! 8, issue_repo_name = rest ! 9,
                  issue_number = rest ! 10\<rparr>
               in if has_nonempty_segments parsed then Some parsed else None)"

text \<open>\<open>iter().find_map(f)\<close>.\<close>

fun find_map :: "('a \<Rightarrow> 'b option) \<Rightarrow> 'a list \<Rightarrow> 'b option" where
  "find_map f [] = None"
| "find_map f (x # xs) = (case f x of None \<Rightarrow> find_map f xs | Some y \<Rightarrow> Some y)"

definition payload_u64 :: "json \<Rightarrow> string list \<Rightarrow> u64 option" where
  "payload_u64 pl keys =
     find_map (\<lambda>key.
       Option.bind
         (case json_get pl key of
            Some v \<Rightarrow> Some v
          | None \<Rightarrow> Option.bind (json_get pl ''watchdog'') (\<lambda>watchdog. json_get watchdog key))
         json_as_u64) keys"

text \<open>\<open>u64::saturating_mul\<close>.\<close>

definition sat_mul :: "u64 \<Rightarrow> u64 \<Rightarrow> u64" where
  "sat_mul a b = clamp_u64 (unat a * unat b)"

definition payload_seconds :: "json \<Rightarrow> string list \<Rightarrow> string list \<Rightarrow> u64 option" where
  "payload_seconds pl second_keys minute_keys =
     (case payload_u64 pl second_keys of
        Some seconds \<Rightarrow> Some seconds
      | None \<Rightarrow> map_option (\<lambda>minutes. sat_mul minutes 60) (payload_u64 pl minute_keys))"

definition queue_liveness_json :: "event \<Rightarrow> source_ref option \<Rightarrow> json option" where
  "queue_liveness_json ev src =
     Option.bind (Option.bind src queue_starvation_source) (\<lambda>s.
     Option.bind (payload_seconds (ev_payload ev)
                    [''queue_head_age_seconds'', ''age_seconds''] [''queue_head_age_minutes'', ''age_minutes'']) (\<lambda>age_seconds.
     Option.bind (payload_seconds (ev_payload ev)
                    [''threshold_seconds'', ''slo_seconds''] [''threshold_minutes'', ''slo_minutes'']) (\<lambda>slo_seconds.
       let order = (case payload_u64 (ev_payload ev) [''queue_order'', ''order''] of None \<Rightarrow> 1 | Some n \<Rightarrow> n) in
       Some (json_object [
         (''item_id'', JString (item_id s)),
         (''linked_item_id'', JString (linked_item_id s)),
         (''queue'', JString (ev_queue ev)),
         (''owner'', JString (qs_owner s)),
         (''state'', JString (qs_state s)),
         (''order'', json_u64 order),
         (''age_seconds'', json_u64 age_seconds),
         (''slo_seconds'', json_u64 slo_seconds),
         (''breached'', JBool (slo_seconds \<le> age_seconds)),
         (''next_action'', JString NEXT_ACTION)]))))"

text \<open>\<open>None\<close> is the panic of the index assignment.\<close>

definition canonicalize_event :: "event \<Rightarrow> source_ref option \<Rightarrow> event option" where
  "canonicalize_event ev src =
     (case queue_liveness_json ev src of
        None \<Rightarrow> Some ev
      | Some liveness \<Rightarrow>
          map_option (\<lambda>pl. ev\<lparr>ev_payload := pl\<rparr>) (json_index_assign (ev_payload ev) ''queue_liveness'' liveness))"

section \<open>Normalisation does not panic\<close>

lemma payload_u64_object: "payload_u64 pl keys = Some n \<Longrightarrow> \<exists>kvs. pl = JObject kvs"
proof -
  have "payload_u64 pl keys = None" if "\<And>k. json_get pl k = None"
    unfolding payload_u64_def by (induction keys) (simp_all add: that)
  then show "payload_u64 pl keys = Some n \<Longrightarrow> \<exists>kvs. pl = JObject kvs" by (cases pl) auto
qed

lemma payload_seconds_object: "payload_seconds pl ss ms = Some n \<Longrightarrow> \<exists>kvs. pl = JObject kvs"
  by (auto simp: payload_seconds_def split: option.splits dest: payload_u64_object)

lemma queue_liveness_object:
  "queue_liveness_json ev src = Some j \<Longrightarrow> \<exists>kvs. ev_payload ev = JObject kvs"
  unfolding queue_liveness_json_def Let_def by (auto split: bind_splits dest: payload_seconds_object)

lemma canonicalize_total: "\<exists>ev'. canonicalize_event ev src = Some ev'"
  using queue_liveness_object [of ev src] by (auto simp: canonicalize_event_def split: option.split)

lemma canonicalize_fields:
  assumes "canonicalize_event ev src = Some ev'"
  shows "ev_queue ev' = ev_queue ev" and "ev_ts ev' = ev_ts ev"
    and "k \<noteq> ''queue_liveness'' \<Longrightarrow> json_get (ev_payload ev') k = json_get (ev_payload ev) k"
    and "queue_liveness_json ev src = Some j \<Longrightarrow> json_get (ev_payload ev') ''queue_liveness'' = Some j"
    and "queue_liveness_json ev src = None \<Longrightarrow> ev' = ev"
  using assms by (auto simp: canonicalize_event_def json_get_assign split: option.splits)

lemma canonicalize_id [simp]: "canonicalize_event ev None = Some ev"
  by (simp add: canonicalize_event_def queue_liveness_json_def)

text \<open>The liveness object depends on no field that the normalisation changes.\<close>

lemma find_map_cong: "(\<And>x. x \<in> set xs \<Longrightarrow> f x = g x) \<Longrightarrow> find_map f xs = find_map g xs"
  by (induction xs) (auto split: option.split)

lemma payload_u64_cong:
  assumes "\<And>k. k \<noteq> ''queue_liveness'' \<Longrightarrow> json_get pl' k = json_get pl k" and "''queue_liveness'' \<notin> set keys"
  shows "payload_u64 pl' keys = payload_u64 pl keys"
  unfolding payload_u64_def
proof (rule find_map_cong)
  fix key
  assume "key \<in> set keys"
  with assms(2) have "key \<noteq> ''queue_liveness''" by auto
  then have "json_get pl' key = json_get pl key" "json_get pl' ''watchdog'' = json_get pl ''watchdog''"
    by (simp_all add: assms(1))
  then show "Option.bind (case json_get pl' key of Some v \<Rightarrow> Some v
        | None \<Rightarrow> Option.bind (json_get pl' ''watchdog'') (\<lambda>watchdog. json_get watchdog key)) json_as_u64 =
      Option.bind (case json_get pl key of Some v \<Rightarrow> Some v
        | None \<Rightarrow> Option.bind (json_get pl ''watchdog'') (\<lambda>watchdog. json_get watchdog key)) json_as_u64"
    by (simp only:)
qed

lemma canonicalize_idempotent:
  assumes "canonicalize_event ev src = Some ev'"
  shows "canonicalize_event ev' src = Some ev'"
proof (cases "queue_liveness_json ev src")
  case None
  then show ?thesis using assms canonicalize_fields(5) [OF assms] by simp
next
  case (Some j)
  have u: "payload_u64 (ev_payload ev') keys = payload_u64 (ev_payload ev) keys"
    if "''queue_liveness'' \<notin> set keys" for keys
    using canonicalize_fields(3) [OF assms] that by (rule payload_u64_cong)
  have us: "payload_u64 (ev_payload ev') [a, b] = payload_u64 (ev_payload ev) [a, b]"
    if "a \<noteq> ''queue_liveness''" "b \<noteq> ''queue_liveness''" for a b
    by (rule u) (use that in auto)
  have fields:
    "payload_u64 (ev_payload ev') [''queue_head_age_seconds'', ''age_seconds''] = payload_u64 (ev_payload ev) [''queue_head_age_seconds'', ''age_seconds'']"
    "payload_u64 (ev_payload ev') [''queue_head_age_minutes'', ''age_minutes''] = payload_u64 (ev_payload ev) [''queue_head_age_minutes'', ''age_minutes'']"
    "payload_u64 (ev_payload ev') [''threshold_seconds'', ''slo_seconds''] = payload_u64 (ev_payload ev) [''threshold_seconds'', ''slo_seconds'']"
    "payload_u64 (ev_payload ev') [''threshold_minutes'', ''slo_minutes''] = payload_u64 (ev_payload ev) [''threshold_minutes'', ''slo_minutes'']"
    "payload_u64 (ev_payload ev') [''queue_order'', ''order''] = payload_u64 (ev_payload ev) [''queue_order'', ''order'']"
    by (rule us; simp)+
  have "queue_liveness_json ev' src = queue_liveness_json ev src"
    unfolding queue_liveness_json_def payload_seconds_def canonicalize_fields(1) [OF assms] fields ..
  moreover obtain kvs where kvs: "ev_payload ev = JObject kvs" using queue_liveness_object [OF Some] by blast
  moreover have "t_insert k v (t_insert k v t) = t_insert k v t" for k and v :: json and t
    by (induction k v t rule: t_insert.induct) auto
  ultimately show ?thesis using assms Some by (auto simp: canonicalize_event_def)
qed

end
