(* ===== verification/Rust_Text.thy ===== *)
theory Rust_Text
  imports Fkst_Prelude
begin

text \<open>
  Text functions of the Rust standard library on UTF-8 byte strings: Unicode white space, \<open>trim\<close>,
  \<open>split_whitespace\<close>, \<open>lines\<close>, \<open>starts_with\<close>, \<open>replace\<close>, \<open>trim_matches\<close> with an ASCII
  class.
\<close>

section \<open>White space\<close>

text \<open>The number of bytes of the white-space character a string starts with, 0 if it does not start with
  one: U+0009 to U+000D, U+0020, U+0085, U+00A0, U+1680, U+2000 to U+200A, U+2028, U+2029, U+202F,
  U+205F and U+3000.\<close>

definition ascii_ws :: "char \<Rightarrow> bool" where
  "ascii_ws c \<longleftrightarrow> (let n = (of_char c :: nat) in 9 \<le> n \<and> n \<le> 13 \<or> n = 32)"

definition ws_prefix :: "string \<Rightarrow> nat" where
  "ws_prefix s =
     (case s of
        [] \<Rightarrow> 0
      | c # cs \<Rightarrow>
          if ascii_ws c then 1
          else let b = map (of_char :: char \<Rightarrow> nat) (take 3 s) in
            if take 2 b = [0xC2, 0x85] \<or> take 2 b = [0xC2, 0xA0] then 2
            else if b = [0xE1, 0x9A, 0x80] \<or> b = [0xE2, 0x81, 0x9F] \<or> b = [0xE3, 0x80, 0x80] \<or>
                    length b = 3 \<and> take 2 b = [0xE2, 0x80] \<and>
                    (0x80 \<le> b ! 2 \<and> b ! 2 \<le> 0x8A \<or> b ! 2 \<in> {0xA8, 0xA9, 0xAF})
            then 3 else 0)"

definition ws_suffix :: "string \<Rightarrow> nat" where
  "ws_suffix s =
     (if s \<noteq> [] \<and> ws_prefix (drop (length s - 1) s) = 1 then 1
      else if 2 \<le> length s \<and> ws_prefix (drop (length s - 2) s) = 2 then 2
      else if 3 \<le> length s \<and> ws_prefix (drop (length s - 3) s) = 3 then 3
      else 0)"

lemma ws_prefix_Nil [simp]: "ws_prefix [] = 0"
  by (simp add: ws_prefix_def)

function trim_start :: "string \<Rightarrow> string" where
  "trim_start s = (if ws_prefix s = 0 then s else trim_start (drop (ws_prefix s) s))"
  by pat_completeness auto
termination
proof (relation "measure length")
  show "(drop (ws_prefix s) s, s) \<in> measure length" if "ws_prefix s \<noteq> 0" for s
    using that by (cases s) auto
qed simp

function trim_end :: "string \<Rightarrow> string" where
  "trim_end s = (if ws_suffix s = 0 then s else trim_end (take (length s - ws_suffix s) s))"
  by pat_completeness auto
termination
proof (relation "measure length")
  show "(take (length s - ws_suffix s) s, s) \<in> measure length" if "ws_suffix s \<noteq> 0" for s
    using that by (cases s) (auto simp: ws_suffix_def)
qed simp

declare trim_start.simps [simp del] trim_end.simps [simp del]

definition trim :: "string \<Rightarrow> string" where
  "trim s = trim_end (trim_start s)"

text \<open>The pieces between white-space characters, the empty ones dropped.\<close>

function ws_pieces :: "string \<Rightarrow> string \<Rightarrow> string list" where
  "ws_pieces acc s =
     (if s = [] then [acc]
      else if ws_prefix s = 0 then ws_pieces (acc @ [hd s]) (tl s)
      else acc # ws_pieces [] (drop (ws_prefix s) s))"
  by pat_completeness auto
termination
  by (relation "measure (\<lambda>(acc, s). length s)") (auto simp: neq_Nil_conv)

declare ws_pieces.simps [simp del]

definition split_whitespace :: "string \<Rightarrow> string list" where
  "split_whitespace s = filter (\<lambda>p. p \<noteq> []) (ws_pieces [] s)"

section \<open>Lines, prefixes, replacement\<close>

definition strip_cr :: "string \<Rightarrow> string" where
  "strip_cr s = (if s \<noteq> [] \<and> last s = CHR 0x0D then butlast s else s)"

text \<open>\<open>str::lines\<close>: a final line without text is not a line; the last line keeps a lone carriage return
  only when no newline follows it.\<close>

definition lines_of :: "string \<Rightarrow> string list" where
  "lines_of s =
     (let ps = split_on (CHR 0x0A) s
      in map strip_cr (butlast ps) @ (if last ps = [] then [] else [last ps]))"

definition starts_with :: "string \<Rightarrow> string \<Rightarrow> bool" where
  "starts_with s p \<longleftrightarrow> take (length p) s = p"

text \<open>\<open>str::replace\<close> with a pattern that is not empty.\<close>

function replace_all :: "string \<Rightarrow> string \<Rightarrow> string \<Rightarrow> string" where
  "replace_all pat r s =
     (if pat = [] \<or> s = [] then s
      else if starts_with s pat then r @ replace_all pat r (drop (length pat) s)
      else hd s # replace_all pat r (tl s))"
  by pat_completeness auto
termination
  by (relation "measure (\<lambda>(pat, r, s). length s)") (auto simp: neq_Nil_conv)

declare replace_all.simps [simp del]

definition is_ascii_punctuation :: "char \<Rightarrow> bool" where
  "is_ascii_punctuation c \<longleftrightarrow> (let n = (of_char c :: nat)
     in 33 \<le> n \<and> n \<le> 47 \<or> 58 \<le> n \<and> n \<le> 64 \<or> 91 \<le> n \<and> n \<le> 96 \<or> 123 \<le> n \<and> n \<le> 126)"

definition trim_matches :: "(char \<Rightarrow> bool) \<Rightarrow> string \<Rightarrow> string" where
  "trim_matches P s = rev (dropWhile P (rev (dropWhile P s)))"

definition is_ascii_hexdigit :: "char \<Rightarrow> bool" where
  "is_ascii_hexdigit c \<longleftrightarrow> is_digit c \<or> (let n = (of_char c :: nat) in 65 \<le> n \<and> n \<le> 70 \<or> 97 \<le> n \<and> n \<le> 102)"

definition is_ascii_alphabetic :: "char \<Rightarrow> bool" where
  "is_ascii_alphabetic c \<longleftrightarrow> (let n = (of_char c :: nat) in 65 \<le> n \<and> n \<le> 90 \<or> 97 \<le> n \<and> n \<le> 122)"

section \<open>Lemmas\<close>

lemma replace_all_self: "pat \<noteq> [] \<Longrightarrow> replace_all pat r pat = r"
  by (simp add: replace_all.simps [of pat r pat] replace_all.simps [of pat r "[]"] starts_with_def)

lemma trim_matches_id: "list_all (\<lambda>c. \<not> P c) s \<Longrightarrow> trim_matches P s = s"
proof -
  have "dropWhile P t = t" if "list_all (\<lambda>c. \<not> P c) t" for t using that by (cases t) auto
  then show "list_all (\<lambda>c. \<not> P c) s \<Longrightarrow> trim_matches P s = s" by (simp add: trim_matches_def)
qed

text \<open>An ASCII byte that is not white space does not start a white-space character.\<close>

lemma ws_prefix_ascii: "(of_char c :: nat) < 128 \<Longrightarrow> \<not> ascii_ws c \<Longrightarrow> ws_prefix (c # s) = 0"
  by (auto simp: ws_prefix_def Let_def)

lemma ws_prefix_space: "ascii_ws c \<Longrightarrow> ws_prefix (c # s) = 1"
  by (simp add: ws_prefix_def)

definition plain_ascii :: "string \<Rightarrow> bool" where
  "plain_ascii s \<longleftrightarrow> list_all (\<lambda>c. (of_char c :: nat) < 128 \<and> \<not> ascii_ws c) s"

lemma plain_ascii_simps [simp]:
  "plain_ascii []" "plain_ascii (c # s) \<longleftrightarrow> (of_char c :: nat) < 128 \<and> \<not> ascii_ws c \<and> plain_ascii s"
  "plain_ascii (s @ t) \<longleftrightarrow> plain_ascii s \<and> plain_ascii t"
  by (auto simp: plain_ascii_def)

lemma ws_pieces_plain:
  "plain_ascii t \<Longrightarrow> ws_pieces acc (t @ s) = ws_pieces (acc @ t) s"
proof (induction t arbitrary: acc)
  case (Cons c t)
  then show ?case by (subst ws_pieces.simps) (simp add: ws_prefix_ascii)
qed simp

lemma ws_pieces_join:
  "list_all plain_ascii ts \<Longrightarrow> ts \<noteq> [] \<Longrightarrow> ws_pieces [] (join '' '' ts) = ts"
proof (induction "'' ''" ts rule: join.induct)
  case (2 t)
  then show ?case using ws_pieces_plain [of t "[]" "[]"] by (simp add: ws_pieces.simps [of t])
next
  case (3 t u us)
  have "ws_prefix (CHR '' '' # join '' '' (u # us)) = 1" by (rule ws_prefix_space) (simp add: ascii_ws_def)
  with 3 show ?case using ws_pieces_plain [of t "[]" "CHR '' '' # join '' '' (u # us)"]
    by (simp add: ws_pieces.simps [of t "CHR '' '' # join '' '' (u # us)"])
qed simp

lemma split_whitespace_join:
  assumes "list_all plain_ascii ts" and "[] \<notin> set ts"
  shows "split_whitespace (join '' '' ts) = ts"
proof (cases "ts = []")
  case True
  then show ?thesis by (simp add: split_whitespace_def ws_pieces.simps [of "[]" "[]"])
next
  case False
  then show ?thesis using assms ws_pieces_join [of ts]
    by (auto simp: split_whitespace_def filter_id_conv)
qed

lemma trim_start_plain: "(of_char c :: nat) < 128 \<Longrightarrow> \<not> ascii_ws c \<Longrightarrow> trim_start (c # s) = c # s"
  by (subst trim_start.simps) (simp add: ws_prefix_ascii)

lemma ws_suffix_ascii:
  assumes "(of_char c :: nat) < 128" and "\<not> ascii_ws c"
  shows "ws_suffix (s @ [c]) = 0"
proof -
  have p1: "ws_prefix [c] = 0" using assms by (rule ws_prefix_ascii)
  have p2: "ws_prefix [a, c] \<noteq> 2" for a using assms by (auto simp: ws_prefix_def Let_def)
  have p3: "ws_prefix [a, b, c] \<noteq> 3" for a b using assms by (auto simp: ws_prefix_def Let_def)
  have d2: "\<exists>a. drop (length s - 1) (s @ [c]) = [a, c]" if "1 \<le> length s"
    using that by (cases s rule: rev_cases) auto
  have d3: "\<exists>a b. drop (length s - 2) (s @ [c]) = [a, b, c]" if "2 \<le> length s"
  proof -
    from that obtain t b where t: "s = t @ [b]" by (cases s rule: rev_cases) auto
    moreover from that t obtain u a where "t = u @ [a]" by (cases t rule: rev_cases) auto
    ultimately show ?thesis by simp
  qed
  show ?thesis using p1 p2 p3 d2 d3 unfolding ws_suffix_def by (auto simp: numeral_eq_Suc)
qed

lemma trim_end_plain: "(of_char c :: nat) < 128 \<Longrightarrow> \<not> ascii_ws c \<Longrightarrow> trim_end (s @ [c]) = s @ [c]"
  by (subst trim_end.simps) (simp add: ws_suffix_ascii)

lemma plain_ascii_ends:
  assumes "plain_ascii s" and "s \<noteq> []"
  shows "\<exists>c t. s = c # t \<and> (of_char c :: nat) < 128 \<and> \<not> ascii_ws c"
    and "\<exists>c t. s = t @ [c] \<and> (of_char c :: nat) < 128 \<and> \<not> ascii_ws c"
proof -
  show "\<exists>c t. s = c # t \<and> (of_char c :: nat) < 128 \<and> \<not> ascii_ws c" using assms by (cases s) auto
  show "\<exists>c t. s = t @ [c] \<and> (of_char c :: nat) < 128 \<and> \<not> ascii_ws c"
    using assms by (cases s rule: rev_cases) auto
qed

lemma trim_plain_ends:
  assumes "plain_ascii a" "a \<noteq> []" "plain_ascii b" "b \<noteq> []"
  shows "trim (a @ m @ b) = a @ m @ b"
proof -
  obtain c t where c: "a = c # t" "(of_char c :: nat) < 128" "\<not> ascii_ws c" using plain_ascii_ends(1) [OF assms(1,2)] by blast
  obtain d u where d: "b = u @ [d]" "(of_char d :: nat) < 128" "\<not> ascii_ws d" using plain_ascii_ends(2) [OF assms(3,4)] by blast
  have "trim_start (a @ m @ b) = a @ m @ b" using trim_start_plain [OF c(2,3), of "t @ m @ b"] by (simp add: c(1))
  moreover have "trim_end (a @ m @ b) = a @ m @ b" using trim_end_plain [OF d(2,3), of "a @ m @ u"] by (simp add: d(1))
  ultimately show ?thesis by (simp add: trim_def)
qed

lemma trim_plain: "plain_ascii a \<Longrightarrow> a \<noteq> [] \<Longrightarrow> trim a = a"
proof -
  assume "plain_ascii a" "a \<noteq> []"
  then obtain c t where c: "a = c # t" "(of_char c :: nat) < 128" "\<not> ascii_ws c" using plain_ascii_ends(1) by blast
  from \<open>plain_ascii a\<close> \<open>a \<noteq> []\<close> obtain d u where d: "a = u @ [d]" "(of_char d :: nat) < 128" "\<not> ascii_ws d"
    using plain_ascii_ends(2) by blast
  have "trim_start a = a" using trim_start_plain [OF c(2,3)] by (simp add: c(1))
  moreover have "trim_end a = a" using trim_end_plain [OF d(2,3)] by (simp add: d(1))
  ultimately show ?thesis by (simp add: trim_def)
qed

end
