(* ===== verification/Failure_Fact.thy ===== *)
theory Failure_Fact
  imports Queue_Starvation Startup_Config Delivery_Retry Rust_Text
begin

unbundle bit_operations_syntax

text \<open>
  Structured failure facts (\<open>supervise/failure_fact.rs\<close>): the classification of delivery errors, the
  payloads that report them and the fingerprints that make repeated failures recognisable. The time stamp
  of a new event is an argument.
\<close>

section \<open>Fingerprints\<close>

definition FAILURE_FACT_QUEUE :: string where
  "FAILURE_FACT_QUEUE = ''fkst.failure_fact''"

datatype error_class =
    DeliveryFailure | FrameworkChildNonzero | FrameworkChildSpawn | LockBusy | RaisedPublish | SpawnArgs
  | StoreOpWatchdog | SchemaValidation

fun error_class_str :: "error_class \<Rightarrow> string" where
  "error_class_str DeliveryFailure = ''delivery_failure''"
| "error_class_str FrameworkChildNonzero = ''framework_child_nonzero''"
| "error_class_str FrameworkChildSpawn = ''framework_child_spawn''"
| "error_class_str LockBusy = ''lock_busy''"
| "error_class_str RaisedPublish = ''raised_publish''"
| "error_class_str SpawnArgs = ''spawn_args''"
| "error_class_str StoreOpWatchdog = ''store_op_watchdog''"
| "error_class_str SchemaValidation = ''schema_validation''"

definition classify_delivery_error :: "string \<Rightarrow> error_class" where
  "classify_delivery_error err =
     (if starts_with err ''exit='' then FrameworkChildNonzero
      else if starts_with err ''spawn error:'' then FrameworkChildSpawn
      else if starts_with err ''raised publish error:'' then RaisedPublish
      else if starts_with err ''build spawn args:'' then SpawnArgs
      else DeliveryFailure)"

definition looks_like_rfc3339_timestamp :: "string \<Rightarrow> bool" where
  "looks_like_rfc3339_timestamp token \<longleftrightarrow>
     length token \<ge> 20 \<and> token ! 4 = CHR ''-'' \<and> token ! 7 = CHR ''-'' \<and>
     (token ! 10 = CHR ''T'' \<or> token ! 10 = CHR ''t'' \<or> token ! 10 = CHR '' '')"

definition looks_like_sha :: "string \<Rightarrow> bool" where
  "looks_like_sha token \<longleftrightarrow>
     7 \<le> length token \<and> length token \<le> 64 \<and> list_all is_ascii_hexdigit token \<and> list_ex is_ascii_alphabetic token"

definition looks_like_epoch_number :: "string \<Rightarrow> bool" where
  "looks_like_epoch_number token \<longleftrightarrow> length token \<ge> 10 \<and> list_all is_digit token"

definition normalize_token :: "string \<Rightarrow> string" where
  "normalize_token token =
     (let trimmed = trim_matches is_ascii_punctuation token in
      if looks_like_rfc3339_timestamp trimmed then replace_all trimmed ''<timestamp>'' token
      else if looks_like_sha trimmed then replace_all trimmed ''<sha>'' token
      else if looks_like_epoch_number trimmed then replace_all trimmed ''<number>'' token
      else token)"

definition normalize_for_fingerprint :: "string \<Rightarrow> string" where
  "normalize_for_fingerprint raw = join '' '' (map normalize_token (split_whitespace raw))"

definition failure_fnv1a64 :: "string \<Rightarrow> u64" where
  "failure_fnv1a64 input =
     foldl (\<lambda>hash byte. (hash XOR of_char byte) * 0x100000001b3) 0xcbf29ce484222325 input"

text \<open>\<open>{n:016x}\<close>.\<close>

definition hex16 :: "u64 \<Rightarrow> string" where
  "hex16 n = zpad 16 (hexn (unat n))"

definition fingerprint :: "error_class \<Rightarrow> string \<Rightarrow> string" where
  "fingerprint cls raw = error_class_str cls @ '':'' @ hex16 (failure_fnv1a64 (normalize_for_fingerprint raw))"

section \<open>Facts\<close>

fun source_kind_name :: "source_kind \<Rightarrow> string" where
  "source_kind_name File = ''file''"
| "source_kind_name Cron = ''cron''"
| "source_kind_name Git = ''git''"
| "source_kind_name External = ''external''"

definition source_ref_json :: "source_ref option \<Rightarrow> json" where
  "source_ref_json src =
     (case src of
        Some s \<Rightarrow> json_object [(''kind'', JString (source_kind_name (src_kind s))), (''reference'', JString (src_reference s))]
      | None \<Rightarrow> JNull)"

definition failure_fact_event :: "u64 \<Rightarrow> json \<Rightarrow> event" where
  "failure_fact_event ts pl = \<lparr>ev_queue = FAILURE_FACT_QUEUE, ev_payload = pl, ev_ts = ts\<rparr>"

definition lock_busy_failure_fact ::
    "u64 \<Rightarrow> string \<Rightarrow> string \<Rightarrow> delivery_record option \<Rightarrow> string option \<Rightarrow> event" where
  "lock_busy_failure_fact ts origin_dept origin_queue rec lock =
     (let lock_label = (case lock of None \<Rightarrow> ''unknown'' | Some l \<Rightarrow> l);
          err = ''lock busy lock='' @ lock_label
      in failure_fact_event ts (json_object [
        (''schema'', JString FAILURE_FACT_SCHEMA),
        (''error_class'', JString (error_class_str LockBusy)),
        (''fingerprint'', JString (fingerprint LockBusy lock_label)),
        (''error'', JString err),
        (''lock'', json_opt JString lock),
        (''attempt'', json_opt (\<lambda>r. json_u64 (attempt r)) rec),
        (''delivery_id'', json_opt (\<lambda>r. JString (delivery_id r)) rec),
        (''origin_queue'', JString origin_queue),
        (''origin_dept'', JString origin_dept),
        (''source_ref'', source_ref_json (Option.bind rec source)),
        (''observed_at_ms'', json_opt (\<lambda>r. json_u64 (observed_at_ms r)) rec)]))"

definition delivery_failure_fact :: "u64 \<Rightarrow> delivery_record \<Rightarrow> string \<Rightarrow> event" where
  "delivery_failure_fact ts r err =
     (let cls = classify_delivery_error err
      in failure_fact_event ts (json_object [
        (''schema'', JString FAILURE_FACT_SCHEMA),
        (''error_class'', JString (error_class_str cls)),
        (''fingerprint'', JString (fingerprint cls err)),
        (''error'', JString (error_excerpt err)),
        (''attempt'', json_u64 (sat_add (attempt r) 1)),
        (''delivery_id'', JString (delivery_id r)),
        (''origin_queue'', JString (queue r)),
        (''origin_dept'', JString (dept r)),
        (''source_ref'', source_ref_json (source r)),
        (''observed_at_ms'', json_u64 (observed_at_ms r))]))"

definition dead_letter_payload :: "delivery_record \<Rightarrow> string \<Rightarrow> json" where
  "dead_letter_payload r err =
     (let cls = classify_delivery_error err
      in json_object [
        (''delivery_id'', JString (delivery_id r)),
        (''dedup_id'', JString (delivery_id r)),
        (''queue'', JString (queue r)),
        (''dept'', JString (dept r)),
        (''origin_queue'', JString (queue r)),
        (''origin_dept'', JString (dept r)),
        (''attempt'', json_u64 (sat_add (attempt r) 1)),
        (''error'', JString (error_excerpt err)),
        (''error_class'', JString (error_class_str cls)),
        (''fingerprint'', JString (fingerprint cls err)),
        (''source_ref'', source_ref_json (source r))])"

definition dead_record_payload :: "dead_record \<Rightarrow> json" where
  "dead_record_payload d =
     (let err = (case error_excerpt_of d of None \<Rightarrow> ''unknown delivery failure'' | Some e \<Rightarrow> e);
          cls = classify_delivery_error err
      in json_object [
        (''delivery_id'', JString (dr_delivery_id d)),
        (''dedup_id'', JString (dr_delivery_id d)),
        (''queue'', JString (dr_queue d)),
        (''dept'', JString (dr_dept d)),
        (''origin_queue'', JString (dr_queue d)),
        (''origin_dept'', JString (dr_dept d)),
        (''attempt'', json_u64 (attempts d)),
        (''redrive_count'', json_u64 (dr_redrive_count d)),
        (''error'', JString (error_excerpt err)),
        (''error_class'', JString (error_class_str cls)),
        (''fingerprint'', JString (fingerprint cls err)),
        (''source_ref'', source_ref_json (dr_source d))])"

definition store_watchdog_failure_fact :: "u64 \<Rightarrow> string \<Rightarrow> string \<Rightarrow> u64 \<Rightarrow> event" where
  "store_watchdog_failure_fact ts op dpt elapsed_ms =
     (let message = ''durable delivery store operation exceeded watchdog threshold op='' @ op @
                    '' dept='' @ dpt @ '' elapsed_ms='' @ dec (unat elapsed_ms)
      in failure_fact_event ts (json_object [
        (''schema'', JString FAILURE_FACT_SCHEMA),
        (''error_class'', JString (error_class_str StoreOpWatchdog)),
        (''fingerprint'', JString (fingerprint StoreOpWatchdog message)),
        (''error'', JString message),
        (''origin_dept'', JString dpt),
        (''store_op'', JString op),
        (''elapsed_ms'', json_u64 elapsed_ms)]))"

definition schema_validation_failure_fact :: "u64 \<Rightarrow> string \<Rightarrow> event" where
  "schema_validation_failure_fact ts err =
     failure_fact_event ts (json_object [
        (''schema'', JString FAILURE_FACT_SCHEMA),
        (''error_class'', JString (error_class_str SchemaValidation)),
        (''fingerprint'', JString (fingerprint SchemaValidation err)),
        (''error'', JString (error_excerpt err))])"

end
