(* ===== verification/Event_Fanout.thy ===== *)
theory Event_Fanout
  imports Delivery_Types Ordered_Table
begin

text \<open>
  The fan-out of events to bounded mailboxes (\<open>supervise/event_fanout.rs\<close>). A mailbox is a bounded
  \<open>tokio\<close> channel: its capacity, the events in it and whether the receiver was dropped. Whether the
  map's lock is contended when \<open>send\<close> tries it is an argument.
\<close>

section \<open>Mailboxes\<close>

record mailbox =
  mb_capacity :: nat
  mb_events :: "event list"
  mb_closed :: bool

datatype try_send_error = MailboxFull | MailboxClosed

definition try_send :: "event \<Rightarrow> mailbox \<Rightarrow> mailbox \<times> (try_send_error + unit)" where
  "try_send ev m =
     (if mb_closed m then (m, Inl MailboxClosed)
      else if length (mb_events m) \<ge> mb_capacity m then (m, Inl MailboxFull)
      else (m\<lparr>mb_events := mb_events m @ [ev]\<rparr>, Inr ()))"

text \<open>What the owner of the receiver does: take the next event, drop the receiver.\<close>

definition mb_recv :: "mailbox \<Rightarrow> mailbox \<times> event option" where
  "mb_recv m = (case mb_events m of [] \<Rightarrow> (m, None) | e # es \<Rightarrow> (m\<lparr>mb_events := es\<rparr>, Some e))"

definition mb_close :: "mailbox \<Rightarrow> mailbox" where
  "mb_close m = m\<lparr>mb_closed := True\<rparr>"

section \<open>The fan-out\<close>

type_synonym fanout_map = "mailbox list table"

datatype fanout_error = LockContention
datatype fanout_warning = SlowConsumer | ConsumerClosed | UnknownQueue

definition fanout_new :: fanout_map where
  "fanout_new = t_empty"

text \<open>\<open>mpsc::channel(0)\<close> panics: \<open>None\<close>. Otherwise the new map and the index of the new mailbox.\<close>

definition fanout_subscribe :: "string \<Rightarrow> nat \<Rightarrow> fanout_map \<Rightarrow> (fanout_map \<times> nat) option" where
  "fanout_subscribe q capacity_of m =
     (if capacity_of = 0 then None
      else let senders = (case t_get m q of None \<Rightarrow> [] | Some ss \<Rightarrow> ss);
               mb = \<lparr>mb_capacity = capacity_of, mb_events = [], mb_closed = False\<rparr>
           in Some (t_insert q (senders @ [mb]) m, length senders))"

fun send_all :: "event \<Rightarrow> mailbox list \<Rightarrow> mailbox list \<times> fanout_warning list" where
  "send_all ev [] = ([], [])"
| "send_all ev (m # ms) =
     (let (m', r) = try_send ev m; (ms', ws) = send_all ev ms
      in (m' # ms', (case r of Inr _ \<Rightarrow> ws | Inl MailboxFull \<Rightarrow> SlowConsumer # ws | Inl MailboxClosed \<Rightarrow> ConsumerClosed # ws)))"

definition fanout_send ::
    "bool \<Rightarrow> string \<Rightarrow> event \<Rightarrow> fanout_map \<Rightarrow> fanout_map \<times> (fanout_error + fanout_warning list)" where
  "fanout_send contended q ev m =
     (if contended then (m, Inl LockContention)
      else case t_get m q of
          None \<Rightarrow> (m, Inr [UnknownQueue])
        | Some senders \<Rightarrow> (let (senders', ws) = send_all ev senders in (t_insert q senders' m, Inr ws)))"

section \<open>Lemmas\<close>

definition mailbox_ok :: "mailbox \<Rightarrow> bool" where
  "mailbox_ok m \<longleftrightarrow> 0 < mb_capacity m \<and> length (mb_events m) \<le> mb_capacity m"

definition fanout_ok :: "fanout_map \<Rightarrow> bool" where
  "fanout_ok m \<longleftrightarrow> (\<forall>q ms. t_get m q = Some ms \<longrightarrow> list_all mailbox_ok ms)"

definition accepts :: "mailbox \<Rightarrow> bool" where
  "accepts m \<longleftrightarrow> \<not> mb_closed m \<and> length (mb_events m) < mb_capacity m"

definition delivered_to :: "event \<Rightarrow> mailbox \<Rightarrow> mailbox" where
  "delivered_to ev m = (if accepts m then m\<lparr>mb_events := mb_events m @ [ev]\<rparr> else m)"

lemma fst_try_send [simp]: "fst (try_send ev m) = delivered_to ev m"
  by (simp add: try_send_def delivered_to_def accepts_def)

lemma fst_send_all: "fst (send_all ev ms) = map (delivered_to ev) ms"
  by (induction ms) (simp_all add: case_prod_beta Let_def)

lemma delivered_to_ok: "mailbox_ok m \<Longrightarrow> mailbox_ok (delivered_to ev m)"
  by (simp add: mailbox_ok_def delivered_to_def accepts_def)

lemma fanout_send_get:
  assumes "fanout_send contended q ev m = (m', r)"
  shows "t_get m' = (if contended then t_get m else (t_get m)(q := map_option (map (delivered_to ev)) (t_get m q)))"
  using assms fst_send_all [of ev]
  by (auto simp: fanout_send_def t_get_def map_of_t_insert case_prod_beta fun_upd_idem split: option.splits if_splits)

lemma fanout_send_ok:
  assumes "fanout_ok m" and "fanout_send contended q ev m = (m', r)"
  shows "fanout_ok m'"
  using assms(1) fanout_send_get [OF assms(2)] delivered_to_ok
  by (auto simp: fanout_ok_def list_all_iff split: if_splits)

lemma fanout_subscribe_ok:
  assumes "fanout_ok m" and "fanout_subscribe q c m = Some (m', i)"
  shows "fanout_ok m'"
  using assms by (auto simp: fanout_subscribe_def fanout_ok_def t_get_def map_of_t_insert mailbox_ok_def Let_def
      split: if_splits option.splits)

end
