(* ===== verification/Delivery_Router.thy ===== *)
theory Delivery_Router
  imports Delivery_Identity Failure_Fact Event_Fanout Delivery_Settlement
begin

text \<open>
  The delivery router (\<open>supervise/delivery_router.rs\<close>): the subscriptions of the startup graph, and the
  publication of an event to durable and ephemeral subscribers. The router's mutable parts (the fan-out
  map, the store, the wake channels) and the events it hands to the journal are the state; an operation
  returns the new state also when it fails, because what it enqueued before an error stays. The clock, the
  size of a serialised payload and the contention of the fan-out lock are arguments.
\<close>

section \<open>Data\<close>

definition MAX_DURABLE_PAYLOAD_BYTES :: nat where
  "MAX_DURABLE_PAYLOAD_BYTES = 64 * 1024"

record subscription =
  sub_dept :: string
  sub_reliable :: bool

record wake_channel =
  wk_capacity :: nat
  wk_pending :: nat
  wk_closed :: bool

record delivery_router =
  rt_fanout :: fanout_map
  rt_store :: "store_db option"
  rt_subscriptions :: "subscription list table"
  rt_wakes :: "wake_channel table"
  rt_wakes_poisoned :: bool
  rt_journal :: "(string \<times> (string \<times> string) list) list"

record publish_envelope =
  pe_event :: event
  pe_source :: "source_ref option"
  pe_cron_payload :: "json option"
  pe_derived :: "derived_delivery option"

datatype publish_status = Published | PublishSuppressed string

datatype publish_error =
    NoSubscriptions string
  | SourceRefRequired string string
  | StoreNotOpen
  | PayloadNotSerialised
  | PayloadTooLarge nat
  | IdentityPanic identity_panic
  | CanonicalisePanic
  | EnqueueFailed string store_error
  | FanoutFailed fanout_error
  | DeliverySuppressed string
  | NotFailureFactQueue

record publish_env =
  env_externs :: externs
  env_clock :: "nat \<Rightarrow> u64"
  env_json_len :: "json \<Rightarrow> nat option"
  env_contended :: bool

section \<open>Subscriptions\<close>

definition add_subscription :: "string \<Rightarrow> department_decl \<Rightarrow> subscription list table \<Rightarrow> string \<Rightarrow> subscription list table" where
  "add_subscription dept_name d by_queue q =
     (let subs = (case t_get by_queue q of None \<Rightarrow> [] | Some ss \<Rightarrow> ss)
      in t_insert q (subs @ [\<lparr>sub_dept = dept_name, sub_reliable = (q \<notin> set (ephemeral d))\<rparr>]) by_queue)"

definition subscriptions :: "config \<Rightarrow> subscription list table" where
  "subscriptions cfg =
     (let by_queue = foldl (\<lambda>acc (dept_name, d). foldl (add_subscription dept_name d) acc (consumes d))
                       t_empty (t_iter (cfg_department cfg))
      in map (\<lambda>(q, subs). (q, sort_key sub_dept subs)) by_queue)"

definition has_reliable_subscriptions :: "config \<Rightarrow> bool" where
  "has_reliable_subscriptions cfg \<longleftrightarrow>
     list_ex (\<lambda>(_, d). list_ex (\<lambda>q. \<not> list_ex (\<lambda>e. e = q) (ephemeral d)) (consumes d)) (t_iter (cfg_department cfg))"

definition router_new :: "config \<Rightarrow> fanout_map \<Rightarrow> store_db option \<Rightarrow> delivery_router" where
  "router_new cfg fo st =
     \<lparr>rt_fanout = fo, rt_store = st, rt_subscriptions = subscriptions cfg, rt_wakes = t_empty,
      rt_wakes_poisoned = False, rt_journal = []\<rparr>"

definition current_subscriber_queues :: "delivery_router \<Rightarrow> string list" where
  "current_subscriber_queues rt = map fst (t_iter (rt_subscriptions rt))"

definition reliable_subscriber_queues :: "delivery_router \<Rightarrow> string list" where
  "reliable_subscriber_queues rt =
     map fst (filter (\<lambda>(_, subs). list_ex sub_reliable subs) (t_iter (rt_subscriptions rt)))"

definition single_reliable_subscribers_by_queue :: "delivery_router \<Rightarrow> string table" where
  "single_reliable_subscribers_by_queue rt =
     List.map_filter (\<lambda>(q, subs).
       let reliable = filter sub_reliable subs
       in if length reliable = 1 then Some (q, sub_dept (reliable ! 0)) else None) (t_iter (rt_subscriptions rt))"

section \<open>Waking a consumer\<close>

definition register_reliable_wake :: "string \<Rightarrow> wake_channel \<Rightarrow> delivery_router \<Rightarrow> delivery_router" where
  "register_reliable_wake dpt wake rt =
     (if rt_wakes_poisoned rt then rt else rt\<lparr>rt_wakes := t_insert dpt wake (rt_wakes rt)\<rparr>)"

definition wake_try_send :: "wake_channel \<Rightarrow> wake_channel" where
  "wake_try_send w =
     (if wk_closed w \<or> wk_pending w \<ge> wk_capacity w then w else w\<lparr>wk_pending := wk_pending w + 1\<rparr>)"

definition notify_reliable :: "string \<Rightarrow> delivery_router \<Rightarrow> delivery_router" where
  "notify_reliable dpt rt =
     (if rt_wakes_poisoned rt then rt
      else case t_get (rt_wakes rt) dpt of
          None \<Rightarrow> rt
        | Some wake \<Rightarrow> rt\<lparr>rt_wakes := t_insert dpt (wake_try_send wake) (rt_wakes rt)\<rparr>)"

section \<open>Publishing\<close>

definition publish_reason :: "publish_envelope \<Rightarrow> string" where
  "publish_reason env =
     (if pe_derived env \<noteq> None then ''raised''
      else if pe_cron_payload env \<noteq> None then ''cron''
      else if pe_source env \<noteq> None then ''source''
      else ''ephemeral'')"

definition ensure_payload_within_bound :: "(json \<Rightarrow> nat option) \<Rightarrow> json \<Rightarrow> publish_error + unit" where
  "ensure_payload_within_bound json_len pl =
     (case json_len pl of
        None \<Rightarrow> Inl PayloadNotSerialised
      | Some n \<Rightarrow> if n > MAX_DURABLE_PAYLOAD_BYTES then Inl (PayloadTooLarge n) else Inr ())"

definition router_journal :: "string \<Rightarrow> (string \<times> string) list \<Rightarrow> delivery_router \<Rightarrow> delivery_router" where
  "router_journal ev fs rt = rt\<lparr>rt_journal := rt_journal rt @ [(ev, fs)]\<rparr>"

text \<open>The record that is enqueued for one reliable subscriber.\<close>

definition record_for ::
    "publish_envelope \<Rightarrow> source_ref \<Rightarrow> u64 \<Rightarrow> string \<Rightarrow> delivery_identity \<Rightarrow> delivery_record" where
  "record_for env src now_ms dpt identity =
     \<lparr>delivery_id = di_delivery_id identity, queue = ev_queue (pe_event env), dept = dpt,
      payload = ev_payload (pe_event env), source = Some src, cron_payload = pe_cron_payload env,
      observed_at_ms = ev_ts (pe_event env), attempt = 0, redrive_count = 0,
      collapse_by_dedup_id = di_collapse_by_dedup_id identity, pending_dirty = False,
      subscriber_absent_since_ms = None, lease_generation = 0, lease_until_ms = None,
      not_before_ms = now_ms, last_error_excerpt = None\<rparr>"

definition publish_reliable ::
    "publish_env \<Rightarrow> publish_envelope \<Rightarrow> u64 \<Rightarrow> string \<Rightarrow> string option \<Rightarrow> delivery_router \<Rightarrow>
     delivery_router \<times> (publish_error + string option)" where
  "publish_reliable E env now_ms dpt suppressed rt =
     (let q = ev_queue (pe_event env) in
      case pe_source env of
        None \<Rightarrow> (rt, Inl (SourceRefRequired q dpt))
      | Some src \<Rightarrow>
      case rt_store rt of
        None \<Rightarrow> (rt, Inl StoreNotOpen)
      | Some db \<Rightarrow>
      case ensure_payload_within_bound (env_json_len E) (ev_payload (pe_event env)) of
        Inl e \<Rightarrow> (rt, Inl e)
      | Inr _ \<Rightarrow>
      case derive_delivery_identity q dpt (Some src) (pe_derived env)
             (payload_dedup_key (ev_payload (pe_event env))) (payload_source_ref (ev_payload (pe_event env))) of
        Inl p \<Rightarrow> (rt, Inl (IdentityPanic p))
      | Inr identity \<Rightarrow>
      let r = record_for env src now_ms dpt identity in
      case enqueue (env_externs E) r db of
        Inl e \<Rightarrow> (rt, Inl (EnqueueFailed (delivery_id r) e))
      | Inr (db', Accepted) \<Rightarrow>
          (notify_reliable dpt
             (router_journal ''delivered''
                [(''queue'', q), (''dept'', dpt), (''delivery_id'', delivery_id r), (''reason'', ''durable_enqueue'')]
                (rt\<lparr>rt_store := Some db'\<rparr>)),
           Inr suppressed)
      | Inr (db', TerminallySuppressed) \<Rightarrow>
          (router_journal ''delivery_suppressed''
             [(''queue'', q), (''dept'', dpt), (''delivery_id'', delivery_id r), (''reason'', ''terminal_tombstone'')]
             (rt\<lparr>rt_store := Some db'\<rparr>),
           Inr (case suppressed of None \<Rightarrow> Some (delivery_id r) | Some i \<Rightarrow> Some i)))"

text \<open>The loop over the subscribers: it carries whether an ephemeral one was met and the first suppressed
  delivery. The clock is read once per reliable subscriber; \<open>i\<close> counts the subscribers.\<close>

fun publish_loop ::
    "publish_env \<Rightarrow> publish_envelope \<Rightarrow> nat \<Rightarrow> subscription list \<Rightarrow> bool \<Rightarrow> string option \<Rightarrow> delivery_router \<Rightarrow>
     delivery_router \<times> (publish_error + bool \<times> string option)" where
  "publish_loop E env i [] sent suppressed rt = (rt, Inr (sent, suppressed))"
| "publish_loop E env i (sub # subs) sent suppressed rt =
     (if sub_reliable sub then
        (case publish_reliable E env (env_clock E i) (sub_dept sub) suppressed rt of
           (rt', Inl e) \<Rightarrow> (rt', Inl e)
         | (rt', Inr suppressed') \<Rightarrow> publish_loop E env (Suc i) subs sent suppressed' rt')
      else publish_loop E env (Suc i) subs True suppressed
             (router_journal ''delivered''
               [(''queue'', ev_queue (pe_event env)), (''dept'', sub_dept sub), (''delivery_id'', ''ephemeral''),
                (''reason'', ''ephemeral_fanout'')] rt))"

definition publish_outcome ::
    "publish_env \<Rightarrow> publish_envelope \<Rightarrow> delivery_router \<Rightarrow> delivery_router \<times> (publish_error + publish_status)" where
  "publish_outcome E env0 rt =
     (case canonicalize_event (pe_event env0) (pe_source env0) of
        None \<Rightarrow> (rt, Inl CanonicalisePanic)
      | Some ev \<Rightarrow>
      let env = env0\<lparr>pe_event := ev\<rparr>; q = ev_queue ev in
      case t_get (rt_subscriptions rt) q of
        None \<Rightarrow> (rt, Inl (NoSubscriptions q))
      | Some subscribers \<Rightarrow>
      let rt1 = router_journal ''published''
                  [(''queue'', q), (''subscriber_count'', dec (length subscribers)), (''reason'', publish_reason env)] rt in
      case publish_loop E env 0 subscribers False None rt1 of
        (rt2, Inl e) \<Rightarrow> (rt2, Inl e)
      | (rt2, Inr (sent, suppressed)) \<Rightarrow>
          let (fo, res) = (if sent then fanout_send (env_contended E) q ev (rt_fanout rt2) else (rt_fanout rt2, Inr []));
              rt3 = rt2\<lparr>rt_fanout := fo\<rparr>
          in case res of
               Inl e \<Rightarrow> (rt3, Inl (FanoutFailed e))
             | Inr _ \<Rightarrow> (rt3, Inr (case suppressed of None \<Rightarrow> Published | Some i \<Rightarrow> PublishSuppressed i)))"

definition publish ::
    "publish_env \<Rightarrow> publish_envelope \<Rightarrow> delivery_router \<Rightarrow> delivery_router \<times> (publish_error + unit)" where
  "publish E env rt =
     (case publish_outcome E env rt of
        (rt', Inl e) \<Rightarrow> (rt', Inl e)
      | (rt', Inr Published) \<Rightarrow> (rt', Inr ())
      | (rt', Inr (PublishSuppressed i)) \<Rightarrow> (rt', Inl (DeliverySuppressed i)))"

section \<open>Failure facts\<close>

definition failure_fact_source :: "event \<Rightarrow> source_ref" where
  "failure_fact_source ev =
     (let fp = (case Option.bind (json_get (ev_payload ev) ''fingerprint'') json_as_str of None \<Rightarrow> ''unknown'' | Some f \<Rightarrow> f)
      in \<lparr>src_kind = External, src_reference = FAILURE_FACT_SCHEMA @ ''/'' @ fp @ ''/'' @ dec (unat (ev_ts ev))\<rparr>)"

definition publish_failure_fact ::
    "publish_env \<Rightarrow> event \<Rightarrow> delivery_router \<Rightarrow> delivery_router \<times> (publish_error + unit)" where
  "publish_failure_fact E ev rt =
     (if ev_queue ev \<noteq> FAILURE_FACT_QUEUE then (rt, Inl NotFailureFactQueue)
      else case t_get (rt_subscriptions rt) FAILURE_FACT_QUEUE of
          None \<Rightarrow> (rt, Inr ())
        | Some subscribers \<Rightarrow>
            if subscribers = [] then (rt, Inr ())
            else publish E \<lparr>pe_event = ev, pe_source = Some (failure_fact_source ev), pe_cron_payload = None,
                            pe_derived = None\<rparr> rt)"

section \<open>The watchdog of store operations\<close>

text \<open>\<open>supervise/delivery_watch.rs\<close>: an operation that took longer than the threshold is reported when its
  watch is dropped. Instants are nanosecond counts of a monotonic clock.\<close>

definition STORE_OP_WARN_AFTER :: duration where
  "STORE_OP_WARN_AFTER = from_millis 250"

record watchdog_warning_info =
  ww_op :: string
  ww_dept :: string
  ww_elapsed_ms :: u64

definition watchdog_warning :: "string \<Rightarrow> string \<Rightarrow> nat \<Rightarrow> nat \<Rightarrow> watchdog_warning_info option" where
  "watchdog_warning op dpt started now =
     (let elapsed = now - started
      in if elapsed > STORE_OP_WARN_AFTER
         then Some \<lparr>ww_op = op, ww_dept = dpt, ww_elapsed_ms = clamp_u64 (as_millis elapsed)\<rparr>
         else None)"

text \<open>The publisher slot is empty or holds the router; a poisoned slot counts as empty. The outcome of the
  publication is only logged.\<close>

definition publish_store_watchdog_fact ::
    "publish_env \<Rightarrow> bool \<Rightarrow> u64 \<Rightarrow> watchdog_warning_info \<Rightarrow> delivery_router \<Rightarrow> delivery_router" where
  "publish_store_watchdog_fact E has_publisher ts w rt =
     (if \<not> has_publisher then rt
      else fst (publish_failure_fact E (store_watchdog_failure_fact ts (ww_op w) (ww_dept w) (ww_elapsed_ms w)) rt))"

definition drop_store_op_watch ::
    "publish_env \<Rightarrow> bool \<Rightarrow> u64 \<Rightarrow> string \<Rightarrow> string \<Rightarrow> nat \<Rightarrow> nat \<Rightarrow> delivery_router \<Rightarrow> delivery_router" where
  "drop_store_op_watch E has_publisher ts op dpt started now rt =
     (case watchdog_warning op dpt started now of
        None \<Rightarrow> rt
      | Some w \<Rightarrow> publish_store_watchdog_fact E has_publisher ts w rt)"

end
