(* ===== verification/Router_Properties.thy ===== *)
theory Router_Properties
  imports Delivery_Router Identity_Injectivity Store_Machine
begin

text \<open>
  Lemmas on the delivery router: which subscriptions a startup graph gives, that every identifier is in the
  key range of the store's indexes, and that publishing is a run of enqueue steps of the delivery store.
\<close>

section \<open>Subscriptions\<close>

definition subs_of :: "(string \<times> department_decl) list \<Rightarrow> string \<Rightarrow> subscription list" where
  "subs_of rows q = concat (map (\<lambda>(n, d). map (\<lambda>_. \<lparr>sub_dept = n, sub_reliable = (q \<notin> set (ephemeral d))\<rparr>)
     (filter (\<lambda>q'. q' = q) (consumes d))) rows)"

definition subs_at :: "subscription list table \<Rightarrow> string \<Rightarrow> subscription list" where
  "subs_at t q = (case t_get t q of None \<Rightarrow> [] | Some ss \<Rightarrow> ss)"

lemma add_subscription_at:
  "subs_at (add_subscription n d t q) q' =
     subs_at t q' @ (if q' = q then [\<lparr>sub_dept = n, sub_reliable = (q \<notin> set (ephemeral d))\<rparr>] else [])"
  by (simp add: subs_at_def add_subscription_def Let_def t_get_def map_of_t_insert)

lemma add_subscription_nonempty:
  "t_get t q' \<noteq> Some [] \<Longrightarrow> t_get (add_subscription n d t q) q' \<noteq> Some []"
  by (simp add: add_subscription_def Let_def t_get_def map_of_t_insert)

lemma add_department_at:
  "subs_at (foldl (add_subscription n d) t qs) q =
     subs_at t q @ map (\<lambda>_. \<lparr>sub_dept = n, sub_reliable = (q \<notin> set (ephemeral d))\<rparr>) (filter (\<lambda>q'. q' = q) qs)"
  by (induction qs arbitrary: t) (auto simp: add_subscription_at)

lemma add_department_nonempty:
  "t_get t q \<noteq> Some [] \<Longrightarrow> t_get (foldl (add_subscription n d) t qs) q \<noteq> Some []"
  by (induction qs arbitrary: t) (simp_all add: add_subscription_nonempty)

lemma add_departments:
  fixes rows :: "(string \<times> department_decl) list"
  defines "f \<equiv> foldl (\<lambda>acc (dept_name, d). foldl (add_subscription dept_name d) acc (consumes d))"
  shows "subs_at (f t rows) q = subs_at t q @ subs_of rows q"
    and "t_get t q \<noteq> Some [] \<Longrightarrow> t_get (f t rows) q \<noteq> Some []"
  unfolding f_def
  by (induction rows arbitrary: t) (auto simp: subs_of_def add_department_at add_department_nonempty)

lemma subs_of_dept: "s \<in> set (subs_of rows q) \<longleftrightarrow>
   (\<exists>n d. (n, d) \<in> set rows \<and> q \<in> set (consumes d) \<and> s = \<lparr>sub_dept = n, sub_reliable = (q \<notin> set (ephemeral d))\<rparr>)"
  unfolding subs_of_def by (auto simp: image_iff)

lemma subs_of_sorted: "sorted (map fst rows) \<Longrightarrow> sorted (map sub_dept (subs_of rows q))"
proof (induction rows)
  case Nil
  then show ?case by (simp add: subs_of_def)
next
  case (Cons row rows)
  obtain n d where row: "row = (n, d)" by (cases row)
  have first: "\<forall>x \<in> set (map sub_dept (subs_of [row] q)). x = n" by (auto simp: subs_of_dept row)
  have "sorted (map sub_dept (subs_of [row] q))"
  proof -
    have "map sub_dept (subs_of [row] q) = replicate (length (subs_of [row] q)) n"
      using first by (intro replicate_eqI) auto
    then show ?thesis by (simp only: sorted_replicate)
  qed
  moreover have "\<forall>y \<in> set (map sub_dept (subs_of rows q)). n \<le> y"
    using Cons.prems row by (fastforce simp: subs_of_dept)
  moreover have "subs_of (row # rows) q = subs_of [row] q @ subs_of rows q" by (simp add: subs_of_def)
  ultimately show ?case using Cons first by (simp add: sorted_append)
qed

text \<open>The subscriptions of a queue: one for each time a department lists it, in the order of departments.\<close>

lemma subscriptions_get:
  assumes "t_ok (cfg_department cfg)"
  shows "t_get (subscriptions cfg) q =
    (let subs = subs_of (t_iter (cfg_department cfg)) q in if subs = [] then None else Some subs)"
proof -
  let ?rows = "t_iter (cfg_department cfg)"
  define t where "t = foldl (\<lambda>acc (dept_name, d). foldl (add_subscription dept_name d) acc (consumes d)) t_empty ?rows"
  have at: "subs_at t q = subs_of ?rows q" and ne: "t_get t q \<noteq> Some []"
    using add_departments [where t = t_empty and rows = ?rows and q = q] by (simp_all add: t_def subs_at_def t_empty_def t_get_def)
  have "sorted (map fst ?rows)"
    using assms by (simp add: t_ok_def t_iter_def strict_sorted_iff)
  then have "sort_key sub_dept (subs_of ?rows q) = subs_of ?rows q"
    by (rule sort_key_id_if_sorted [OF subs_of_sorted])
  moreover have "t_get (subscriptions cfg) q = map_option (sort_key sub_dept) (t_get t q)"
    by (simp add: subscriptions_def Let_def t_def t_get_def map_of_map)
  ultimately show ?thesis using at ne by (auto simp: subs_at_def Let_def split: option.splits)
qed

section \<open>Identifiers in the key range\<close>

lemma logical_key_id_ok: "id_ok (logical_key l)"
proof -
  obtain ss where "logical_segments l = ''delivery'' # ss" by (cases l) auto
  then obtain s where "logical_key l = ''delivery'' @ s" unfolding logical_key_def by (cases ss) auto
  then show ?thesis by (simp add: id_ok_def max_scalar_def less_char_def)
qed

lemma derived_id_ok: "derive_delivery_identity q d src derived dk rs = Inr i \<Longrightarrow> id_ok (di_delivery_id i)"
  unfolding derive_logical by (auto simp: logical_key_id_ok split: option.splits sum.splits)

section \<open>Publishing as a run of the store\<close>

lemma enqueue_keeps_live:
  assumes "machine_inv X db" and "enqueue X r db = Inr (db', oc)"
  shows "dom (live db) \<subseteq> dom (live db')" and "oc = Accepted \<Longrightarrow> live db' (delivery_id r) \<noteq> None"
proof -
  have side: "live db1 = live db"
    if "compact_terminal_dead_records (ext_b64 X) (observed_at_ms r) db = Inr (db1, n)" for db1 n
    using compact_inv(2) [OF _ _ that] assms(1) by (simp add: machine_inv_def compacted_to_def live_side_same_def)
  from assms(2) show "dom (live db) \<subseteq> dom (live db')"
  proof (cases rule: enqueue_cases)
    case (collapse c)
    show ?thesis unfolding collapse(3)
      by (rule enqueue_collapse_cases [of "delivery_id r" r c db]) (auto simp: table_updates)
  next
    case (suppressed n)
    then show ?thesis using side by simp
  next
    case (fresh db1 n)
    then show ?thesis using side by (auto simp: table_updates)
  qed simp
  show "live db' (delivery_id r) \<noteq> None" if "oc = Accepted"
    using assms(2)
  proof (cases rule: enqueue_cases)
    case (collapse c)
    show ?thesis unfolding collapse(3)
      by (rule enqueue_collapse_cases [of "delivery_id r" r c db]) (use collapse(1) in \<open>auto simp: table_updates\<close>)
  next
    case (fresh db1 n)
    then show ?thesis by (simp add: table_updates)
  qed (use that in simp_all)
qed

lemma router_frame [simp]:
  "rt_store (notify_reliable d rt) = rt_store rt" "rt_fanout (notify_reliable d rt) = rt_fanout rt"
  "rt_subscriptions (notify_reliable d rt) = rt_subscriptions rt" "rt_journal (notify_reliable d rt) = rt_journal rt"
  "rt_store (router_journal ev fs rt) = rt_store rt" "rt_fanout (router_journal ev fs rt) = rt_fanout rt"
  "rt_subscriptions (router_journal ev fs rt) = rt_subscriptions rt"
  by (simp_all add: notify_reliable_def router_journal_def split: option.split)

text \<open>One reliable subscriber: what a publication to it needs, and the enqueue step it makes.\<close>

definition derived_for :: "publish_envelope \<Rightarrow> string \<Rightarrow> identity_panic + delivery_identity" where
  "derived_for env dpt =
     derive_delivery_identity (ev_queue (pe_event env)) dpt (pe_source env) (pe_derived env)
       (payload_dedup_key (ev_payload (pe_event env))) (payload_source_ref (ev_payload (pe_event env)))"

definition first_suppressed :: "string option \<Rightarrow> string \<Rightarrow> enqueue_outcome \<Rightarrow> string option" where
  "first_suppressed supp i oc =
     (case oc of Accepted \<Rightarrow> supp | TerminallySuppressed \<Rightarrow> (case supp of None \<Rightarrow> Some i | Some j \<Rightarrow> Some j))"

lemma publish_reliable_frame:
  assumes "publish_reliable E env now_ms dpt supp rt = (rt', res)"
  shows "rt_fanout rt' = rt_fanout rt" and "rt_subscriptions rt' = rt_subscriptions rt"
    and "res = Inl e \<Longrightarrow> rt' = rt" and "rt_store rt = None \<Longrightarrow> rt' = rt \<and> (\<exists>e. res = Inl e)"
  using assms unfolding publish_reliable_def Let_def
  by (auto split: option.splits sum.splits prod.splits enqueue_outcome.splits)

lemma publish_reliable_ok:
  assumes "publish_reliable E env now_ms dpt supp rt = (rt', Inr supp')" and "rt_store rt = Some db"
  obtains src identity db' oc where "pe_source env = Some src" "derived_for env dpt = Inr identity"
    "store_step (env_externs E) (LEnqueue (record_for env src now_ms dpt identity) oc) db db'"
    "rt_store rt' = Some db'" "supp' = first_suppressed supp (di_delivery_id identity) oc"
proof -
  from assms obtain src where src: "pe_source env = Some src"
    unfolding publish_reliable_def Let_def by (auto split: option.splits)
  with assms obtain identity where idn: "derived_for env dpt = Inr identity"
    unfolding publish_reliable_def Let_def derived_for_def by (auto split: sum.splits)
  let ?r = "record_for env src now_ms dpt identity"
  have fresh: "fresh_record ?r"
    using derived_id_ok idn unfolding derived_for_def by (auto simp: fresh_record_def record_for_def)
  have i: "delivery_id ?r = di_delivery_id identity" by (simp add: record_for_def)
  from assms src idn obtain db' oc where run: "enqueue (env_externs E) ?r db = Inr (db', oc)"
    unfolding publish_reliable_def Let_def derived_for_def by (auto split: sum.splits)
  with assms src idn have "rt_store rt' = Some db'" "supp' = first_suppressed supp (di_delivery_id identity) oc"
    unfolding publish_reliable_def Let_def derived_for_def first_suppressed_def
    by (auto simp: i split: sum.splits enqueue_outcome.splits option.splits)
  with src idn step_enqueue [OF fresh run] show thesis by (rule that)
qed

text \<open>The whole loop.\<close>

lemma publish_loop_frame:
  assumes "publish_loop E env i subs sent supp rt = (rt', res)"
  shows "rt_fanout rt' = rt_fanout rt \<and> rt_subscriptions rt' = rt_subscriptions rt \<and>
    (rt_store rt = None \<longrightarrow> rt_store rt' = None) \<and>
    (\<forall>b s. res = Inr (b, s) \<longrightarrow> (b \<longleftrightarrow> sent \<or> (\<exists>sub \<in> set subs. \<not> sub_reliable sub)))"
  using assms
proof (induction E env i subs sent supp rt rule: publish_loop.induct)
  case (2 E env i sub subs sent supp rt)
  show ?case
  proof (cases "sub_reliable sub")
    case True
    obtain rt1 r where p: "publish_reliable E env (env_clock E i) (sub_dept sub) supp rt = (rt1, r)" by fastforce
    note frame = publish_reliable_frame [OF p]
    show ?thesis
    proof (cases r)
      case (Inl e)
      with 2(3) True p frame(3) [of e] show ?thesis by auto
    next
      case (Inr s')
      with 2(3) True p have "publish_loop E env (Suc i) subs sent s' rt1 = (rt', res)" by simp
      from 2(1) [OF True _ _ this] p Inr frame True show ?thesis by auto
    qed
  next
    case False
    with 2(2) [OF False] 2(3) show ?thesis by auto
  qed
qed auto

lemma step_enqueue_run: "store_step X (LEnqueue r oc) db db' \<Longrightarrow> enqueue X r db = Inr (db', oc)"
  by (auto elim: store_stepE)

definition enqueue_label :: "store_label \<Rightarrow> bool" where
  "enqueue_label l \<longleftrightarrow> (\<exists>r oc. l = LEnqueue r oc)"

definition suppressed_in :: "store_label list \<Rightarrow> string \<Rightarrow> bool" where
  "suppressed_in ls j \<longleftrightarrow> (\<exists>r. LEnqueue r TerminallySuppressed \<in> set ls \<and> delivery_id r = j)"

definition derives_id :: "publish_envelope \<Rightarrow> string \<Rightarrow> subscription \<Rightarrow> bool" where
  "derives_id env j sub \<longleftrightarrow> sub_reliable sub \<and>
     (case derived_for env (sub_dept sub) of Inl _ \<Rightarrow> False | Inr identity \<Rightarrow> di_delivery_id identity = j)"

text \<open>The step made for one reliable subscriber, and the steps of a loop: those of the first reliable
  subscribers, in their order.\<close>

definition sub_label :: "publish_envelope \<Rightarrow> subscription \<Rightarrow> store_label \<Rightarrow> bool" where
  "sub_label env sub l \<longleftrightarrow> (\<exists>src now_ms identity oc. pe_source env = Some src \<and> derived_for env (sub_dept sub) = Inr identity \<and>
     l = LEnqueue (record_for env src now_ms (sub_dept sub) identity) oc)"

definition loop_labels :: "publish_envelope \<Rightarrow> subscription list \<Rightarrow> store_label list \<Rightarrow> bool" where
  "loop_labels env subs ls \<longleftrightarrow> list_all2 (sub_label env) (take (length ls) (filter sub_reliable subs)) ls"

text \<open>Every reliable subscriber has its delivery in the store, unless one was suppressed.\<close>

definition loop_result ::
    "publish_envelope \<Rightarrow> subscription list \<Rightarrow> string option \<Rightarrow> string option \<Rightarrow> store_label list \<Rightarrow> store_db \<Rightarrow> bool" where
  "loop_result env subs supp s ls db' \<longleftrightarrow>
     (s = None \<longrightarrow> supp = None \<and> (\<forall>sub \<in> set subs. sub_reliable sub \<longrightarrow>
        (\<exists>identity. derived_for env (sub_dept sub) = Inr identity \<and> live db' (di_delivery_id identity) \<noteq> None))) \<and>
     (\<forall>j. s = Some j \<longrightarrow> supp = Some j \<or> suppressed_in ls j \<and>
        list_ex (derives_id env j) subs)"

lemma publish_loop_run:
  assumes "publish_loop E env i subs sent supp rt = (rt', res)"
    and "machine_inv (env_externs E) db" and "rt_store rt = Some db"
  shows "\<exists>db' ls. rt_store rt' = Some db' \<and> run (store_step (env_externs E)) db ls db' \<and> list_all enqueue_label ls \<and>
    loop_labels env subs ls \<and> (\<forall>x. res = Inr x \<longrightarrow> length ls = length (filter sub_reliable subs)) \<and>
    dom (live db) \<subseteq> dom (live db') \<and> (\<forall>b s. res = Inr (b, s) \<longrightarrow> loop_result env subs supp s ls db')"
  using assms
proof (induction E env i subs sent supp rt arbitrary: db rule: publish_loop.induct)
  case (1 E env i sent supp rt)
  then show ?case by (auto intro!: exI [of _ db] exI [of _ "[]"] run_Nil simp: loop_result_def loop_labels_def)
next
  case (2 E env i sub subs sent supp rt)
  let ?X = "env_externs E"
  show ?case
  proof (cases "sub_reliable sub")
    case True
    obtain rt1 r where p: "publish_reliable E env (env_clock E i) (sub_dept sub) supp rt = (rt1, r)" by fastforce
    show ?thesis
    proof (cases r)
      case (Inl e)
      with 2(3,5) True p publish_reliable_frame(3) [OF p, of e] show ?thesis
        by (auto intro!: exI [of _ db] exI [of _ "[]"] run_Nil simp: loop_labels_def)
    next
      case (Inr supp1)
      obtain src identity db1 oc where src: "pe_source env = Some src" and idn: "derived_for env (sub_dept sub) = Inr identity"
        and step: "store_step ?X (LEnqueue (record_for env src (env_clock E i) (sub_dept sub) identity) oc) db db1"
        and st: "rt_store rt1 = Some db1" and supp1: "supp1 = first_suppressed supp (di_delivery_id identity) oc"
        by (rule publish_reliable_ok [OF p [unfolded Inr] 2(5)])
      let ?r = "record_for env src (env_clock E i) (sub_dept sub) identity"
      have id: "delivery_id ?r = di_delivery_id identity" by (simp add: record_for_def)
      note kept = enqueue_keeps_live [OF 2(4) step_enqueue_run [OF step]]
      have inv1: "machine_inv ?X db1" using 2(4) step by (rule machine.step_inv)
      have loop: "publish_loop E env (Suc i) subs sent supp1 rt1 = (rt', res)" using 2(3) True p Inr by simp
      from 2(1) [OF True p [symmetric] Inr loop inv1 st]
      obtain db' ls where rest: "rt_store rt' = Some db'" "run (store_step ?X) db1 ls db'" "list_all enqueue_label ls"
        "loop_labels env subs ls" "\<forall>x. res = Inr x \<longrightarrow> length ls = length (filter sub_reliable subs)"
        "dom (live db1) \<subseteq> dom (live db')" "\<forall>b s. res = Inr (b, s) \<longrightarrow> loop_result env subs supp1 s ls db'"
        by blast
      let ?ls = "LEnqueue ?r oc # ls"
      have res: "loop_result env (sub # subs) supp s ?ls db'" if "res = Inr (b, s)" for b s
      proof -
        have sub: "loop_result env subs supp1 s ls db'" using rest(7) that by blast
        show ?thesis
        proof (cases oc)
          case Accepted
          then have "supp1 = supp" by (simp add: supp1 first_suppressed_def)
          moreover have "live db' (di_delivery_id identity) \<noteq> None"
            using kept(2) [OF Accepted] rest(6) unfolding id by blast
          ultimately show ?thesis using sub idn unfolding loop_result_def suppressed_in_def by auto
        next
          case TerminallySuppressed
          then have "supp1 \<noteq> None" and j: "supp1 = supp \<or> supp = None \<and> supp1 = Some (di_delivery_id identity)"
            by (auto simp: supp1 first_suppressed_def split: option.splits)
          moreover have "suppressed_in ?ls (di_delivery_id identity)"
            unfolding suppressed_in_def using TerminallySuppressed id by auto
          moreover have "derives_id env (di_delivery_id identity) sub" using True idn by (simp add: derives_id_def)
          ultimately show ?thesis using sub unfolding loop_result_def suppressed_in_def by auto
        qed
      qed
      have "run (store_step ?X) db ?ls db'" using step rest(2) by (rule run_Cons)
      moreover have "list_all enqueue_label ?ls" using rest(3) by (simp add: enqueue_label_def [of "LEnqueue ?r oc"])
      moreover have "loop_labels env (sub # subs) ?ls"
        using rest(4) True src idn by (auto simp: loop_labels_def sub_label_def)
      moreover have "\<forall>x. res = Inr x \<longrightarrow> length ?ls = length (filter sub_reliable (sub # subs))" using rest(5) True by simp
      moreover have "dom (live db) \<subseteq> dom (live db')" using kept(1) rest(6) by (rule subset_trans)
      ultimately show ?thesis using rest(1) res by (intro exI [of _ db'] exI [of _ ?ls]) simp
    qed
  next
    case False
    let ?rt = "router_journal ''delivered''
      [(''queue'', ev_queue (pe_event env)), (''dept'', sub_dept sub), (''delivery_id'', ''ephemeral''),
       (''reason'', ''ephemeral_fanout'')] rt"
    have "publish_loop E env (Suc i) subs True supp ?rt = (rt', res)" using 2(3) False by simp
    from 2(2) [OF False this 2(4)] 2(5) obtain db' ls where "rt_store rt' = Some db'" "run (store_step ?X) db ls db'"
      "list_all enqueue_label ls" "loop_labels env subs ls" "\<forall>x. res = Inr x \<longrightarrow> length ls = length (filter sub_reliable subs)"
      "dom (live db) \<subseteq> dom (live db')" "\<forall>b s. res = Inr (b, s) \<longrightarrow> loop_result env subs supp s ls db'"
      by auto
    moreover have "loop_result env subs supp s ls db' \<Longrightarrow> loop_result env (sub # subs) supp s ls db'" for s
      using False unfolding loop_result_def by auto
    moreover have "loop_labels env subs ls \<Longrightarrow> loop_labels env (sub # subs) ls" using False by (simp add: loop_labels_def)
    moreover have "length (filter sub_reliable (sub # subs)) = length (filter sub_reliable subs)" using False by simp
    ultimately show ?thesis by (intro exI [of _ db'] exI [of _ ls]) auto
  qed
qed

text \<open>The two ways through a publication.\<close>

lemma publish_outcome_split:
  assumes "publish_outcome E env rt = (rt', res)"
  obtains ev where "canonicalize_event (pe_event env) (pe_source env) = Some ev"
      "t_get (rt_subscriptions rt) (ev_queue ev) = None" "rt' = rt" "res = Inl (NoSubscriptions (ev_queue ev))"
    | ev subs rt1 rt2 r where "canonicalize_event (pe_event env) (pe_source env) = Some ev"
      "t_get (rt_subscriptions rt) (ev_queue ev) = Some subs"
      "rt_store rt1 = rt_store rt" "rt_fanout rt1 = rt_fanout rt" "rt_subscriptions rt1 = rt_subscriptions rt"
      "publish_loop E (env\<lparr>pe_event := ev\<rparr>) 0 subs False None rt1 = (rt2, r)" "rt_store rt' = rt_store rt2"
      "\<And>e. r = Inl e \<Longrightarrow> res = Inl e"
      "\<And>sent s. r = Inr (sent, s) \<Longrightarrow>
         (let (fo, x) = (if sent then fanout_send (env_contended E) (ev_queue ev) ev (rt_fanout rt2) else (rt_fanout rt2, Inr []))
          in rt_fanout rt' = fo \<and>
             res = (case x of Inl e \<Rightarrow> Inl (FanoutFailed e) | Inr _ \<Rightarrow> Inr (case s of None \<Rightarrow> Published | Some i \<Rightarrow> PublishSuppressed i)))"
proof -
  obtain ev where ev: "canonicalize_event (pe_event env) (pe_source env) = Some ev"
    using canonicalize_total by blast
  show thesis
  proof (cases "t_get (rt_subscriptions rt) (ev_queue ev)")
    case None
    with ev assms show ?thesis by (intro that(1) [of ev]) (auto simp: publish_outcome_def Let_def)
  next
    case (Some subs)
    define rt1 where "rt1 = router_journal ''published''
      [(''queue'', ev_queue ev), (''subscriber_count'', dec (length subs)), (''reason'', publish_reason (env\<lparr>pe_event := ev\<rparr>))] rt"
    obtain rt2 r where loop: "publish_loop E (env\<lparr>pe_event := ev\<rparr>) 0 subs False None rt1 = (rt2, r)" by fastforce
    show ?thesis
    proof (rule that(2) [OF ev Some _ _ _ loop])
      show "rt_store rt1 = rt_store rt" "rt_fanout rt1 = rt_fanout rt" "rt_subscriptions rt1 = rt_subscriptions rt"
        by (simp_all add: rt1_def)
    qed (use assms ev Some loop in \<open>auto simp: publish_outcome_def Let_def rt1_def split: sum.splits prod.splits if_splits\<close>)
  qed
qed

end
