(* ===== verification/Router_Theorems.thy ===== *)
theory Router_Theorems
  imports Router_Properties Store_Examples
begin

text \<open>
  The theorems on the delivery router: routing follows the validated startup graph, publishing is a run of
  enqueue steps of the store, and what a successful and a suppressed publication mean.
\<close>

section \<open>Examples\<close>

definition demo_dept :: "string list \<Rightarrow> department_decl" where
  "demo_dept eph =
     \<lparr>lua = ''main.lua'', owner_root = [], owner_namespace = [], consumes = [''jobs''], produces = [],
      published_seam = [''jobs''], ephemeral = eph, stall_window = ''5m'', graph_json = False, retry_of = None\<rparr>"

definition demo_cfg :: config where
  "demo_cfg =
     \<lparr>cfg_queue = [(''jobs'', \<lparr>capacity = 4, fanout = True\<rparr>)], cfg_raiser = [],
      cfg_department = [(''audit'', demo_dept [''jobs'']), (''worker'', demo_dept [])],
      cfg_limits = \<lparr>global_codex_processes = 1\<rparr>\<rparr>"

definition demo_fanout :: fanout_map where
  "demo_fanout = [(''jobs'', [\<lparr>mb_capacity = 4, mb_events = [], mb_closed = False\<rparr>])]"

definition demo_router :: delivery_router where
  "demo_router = router_new demo_cfg demo_fanout (Some demo_open)"

definition demo_publish_env :: publish_env where
  "demo_publish_env = \<lparr>env_externs = demo_ext, env_clock = (\<lambda>_. 5), env_json_len = (\<lambda>_. Some 20), env_contended = False\<rparr>"

definition demo_envelope :: "string \<Rightarrow> publish_envelope" where
  "demo_envelope key =
     \<lparr>pe_event = \<lparr>ev_queue = ''jobs'', ev_payload = JObject [(''dedup_key'', JString key)], ev_ts = 5\<rparr>,
      pe_source = Some \<lparr>src_kind = Cron, src_reference = ''r''\<rparr>, pe_cron_payload = None,
      pe_derived = Some \<lparr>parent_delivery_id = ''p'', ordinal = 0\<rparr>\<rparr>"

lemma demo_publish_ok: "\<exists>rt'. publish demo_publish_env (demo_envelope ''k'') demo_router = (rt', Inr ())"
proof -
  have "snd (publish demo_publish_env (demo_envelope ''k'') demo_router) = Inr ()" by code_simp
  then show ?thesis by (metis prod.collapse)
qed

lemma demo_subscriptions:
  "t_get (subscriptions demo_cfg) ''jobs'' =
     Some [\<lparr>sub_dept = ''audit'', sub_reliable = False\<rparr>, \<lparr>sub_dept = ''worker'', sub_reliable = True\<rparr>]"
  by code_simp

section \<open>The theorems\<close>

text \<open>C17: Publishing an event to a router over a reachable store leaves a reachable store, whether it
  succeeds or fails half way: what it did to the store is a sequence of enqueue operations, and no
  delivery that was in the store is lost.\<close>

theorem publish_is_store_run:
  assumes "rt_store rt = Some db" and "reach (store_init (env_externs E)) (store_step (env_externs E)) db"
    and "publish_outcome E env rt = (rt', res)"
  shows "\<exists>db' ls. rt_store rt' = Some db' \<and> run (store_step (env_externs E)) db ls db' \<and> list_all enqueue_label ls \<and>
    reach (store_init (env_externs E)) (store_step (env_externs E)) db' \<and> dom (live db) \<subseteq> dom (live db')"
proof -
  have inv: "machine_inv (env_externs E) db" using assms(2) by (rule machine.reach_inv)
  from assms(3) show ?thesis
  proof (cases rule: publish_outcome_split)
    case (1 ev)
    with assms(1,2) show ?thesis by (intro exI [of _ db] exI [of _ "[]"]) (simp add: run_Nil)
  next
    case (2 ev subs rt1 rt2 r)
    from publish_loop_run [OF 2(6) inv] 2(3) assms(1) obtain db' ls where
      "rt_store rt2 = Some db'" "run (store_step (env_externs E)) db ls db'" "list_all enqueue_label ls"
      "dom (live db) \<subseteq> dom (live db')" by auto
    with 2(7) reach_run [OF _ assms(2)] show ?thesis by (intro exI [of _ db'] exI [of _ ls]) simp
  qed
qed

theorem publish_is_store_run_witness:
  "\<exists>rt' res db' ls. publish_outcome demo_publish_env (demo_envelope ''k'') demo_router = (rt', res) \<and>
     rt_store rt' = Some db' \<and> run (store_step demo_ext) demo_open ls db' \<and>
     reach (store_init demo_ext) (store_step demo_ext) db'"
proof -
  obtain rt' res where p: "publish_outcome demo_publish_env (demo_envelope ''k'') demo_router = (rt', res)" by fastforce
  have s: "rt_store demo_router = Some demo_open" by (simp add: demo_router_def router_new_def)
  have X: "env_externs demo_publish_env = demo_ext" by (simp add: demo_publish_env_def)
  from publish_is_store_run [OF s _ p, unfolded X, OF demo_open_reach] p show ?thesis by blast
qed

text \<open>C18: When a publication succeeds, the queue has subscribers, the delivery of every reliable one is in
  the store under the identifier derived for it, and the event was sent to the mailboxes of the queue once
  if the queue has an ephemeral subscriber, and not at all otherwise.\<close>

theorem publish_reaches_all:
  assumes "rt_store rt = Some db" and "reach (store_init (env_externs E)) (store_step (env_externs E)) db"
    and "publish E env rt = (rt', Inr ())"
  shows "\<exists>ev subs db'. canonicalize_event (pe_event env) (pe_source env) = Some ev \<and>
    t_get (rt_subscriptions rt) (ev_queue ev) = Some subs \<and> rt_store rt' = Some db' \<and>
    list_all (\<lambda>sub. \<not> sub_reliable sub \<or> (\<exists>identity. derived_for (env\<lparr>pe_event := ev\<rparr>) (sub_dept sub) = Inr identity \<and>
       live db' (di_delivery_id identity) \<noteq> None)) subs \<and>
    rt_fanout rt' = (if list_all sub_reliable subs then rt_fanout rt
      else fst (fanout_send False (ev_queue ev) ev (rt_fanout rt)))"
proof -
  have inv: "machine_inv (env_externs E) db" using assms(2) by (rule machine.reach_inv)
  have out: "publish_outcome E env rt = (rt', Inr Published)"
    using assms(3) by (auto simp: publish_def split: prod.splits sum.splits publish_status.splits)
  then show ?thesis
  proof (cases rule: publish_outcome_split)
    case (2 ev subs rt1 rt2 r)
    from 2(8) obtain sent s where r: "r = Inr (sent, s)" by (cases r) auto
    from publish_loop_run [OF 2(6) inv] 2(3) assms(1) r obtain db' ls where
      st: "rt_store rt2 = Some db'" and res: "loop_result (env\<lparr>pe_event := ev\<rparr>) subs None s ls db'" by auto
    note frame = publish_loop_frame [OF 2(6)]
    have sent: "sent \<longleftrightarrow> \<not> list_all sub_reliable subs" using frame r by (auto simp: list_all_iff)
    have "s = None" using 2(9) [OF r] by (cases s) (auto simp: Let_def split: prod.splits sum.splits if_splits)
    then have live: "list_all (\<lambda>sub. \<not> sub_reliable sub \<or> (\<exists>identity. derived_for (env\<lparr>pe_event := ev\<rparr>) (sub_dept sub) = Inr identity \<and>
        live db' (di_delivery_id identity) \<noteq> None)) subs"
      using res by (auto simp: loop_result_def list_all_iff)
    have "rt_fanout rt' = (if list_all sub_reliable subs then rt_fanout rt
        else fst (fanout_send False (ev_queue ev) ev (rt_fanout rt)))"
      using 2(4) 2(9) [OF r] frame sent
      by (cases "env_contended E") (auto simp: Let_def fanout_send_def split: prod.splits sum.splits if_splits)
    with 2(1,2,7) st live show ?thesis by auto
  qed simp
qed

theorem publish_reaches_all_witness:
  "\<exists>rt' db'. publish demo_publish_env (demo_envelope ''k'') demo_router = (rt', Inr ()) \<and> rt_store rt' = Some db' \<and>
     live db' ''delivery/v3/raised/queue/jobs/dept/worker/dedup/k'' \<noteq> None \<and>
     rt_fanout rt' = fst (fanout_send False ''jobs'' (pe_event (demo_envelope ''k'')) demo_fanout)"
proof -
  obtain rt' where p: "publish demo_publish_env (demo_envelope ''k'') demo_router = (rt', Inr ())"
    using demo_publish_ok by blast
  have s: "rt_store demo_router = Some demo_open" by (simp add: demo_router_def router_new_def)
  have X: "env_externs demo_publish_env = demo_ext" by (simp add: demo_publish_env_def)
  have c: "canonicalize_event (pe_event (demo_envelope ''k'')) (pe_source (demo_envelope ''k'')) = Some (pe_event (demo_envelope ''k''))"
    by code_simp
  have d: "derived_for (demo_envelope ''k'') ''worker'' =
      Inr \<lparr>di_delivery_id = ''delivery/v3/raised/queue/jobs/dept/worker/dedup/k'', di_collapse_by_dedup_id = True\<rparr>"
    by code_simp
  have e: "(demo_envelope ''k'')\<lparr>pe_event := pe_event (demo_envelope ''k'')\<rparr> = demo_envelope ''k''" by simp
  have q: "ev_queue (pe_event (demo_envelope ''k'')) = ''jobs''" by (simp add: demo_envelope_def)
  have subs: "t_get (rt_subscriptions demo_router) ''jobs'' =
      Some [\<lparr>sub_dept = ''audit'', sub_reliable = False\<rparr>, \<lparr>sub_dept = ''worker'', sub_reliable = True\<rparr>]"
    using demo_subscriptions by (simp add: demo_router_def router_new_def)
  have fo: "rt_fanout demo_router = demo_fanout" by (simp add: demo_router_def router_new_def)
  from publish_reaches_all [OF s _ p, unfolded X, OF demo_open_reach] c d e q subs fo
  show ?thesis using p by auto
qed

text \<open>A store in which the delivery of the example has died for good.\<close>

abbreviation demo_key :: string where
  "demo_key \<equiv> ''delivery/v3/raised/queue/jobs/dept/worker/dedup/k''"

definition demo_key_ready :: store_db where
  "demo_key_ready = demo_open\<lparr>delivery_by_id := [(demo_key, Blob (demo_record demo_key True))],
     ready_by_dept_due := [(''ops/00000000000000000005/'' @ demo_key, ())],
     lineage_by_source :=
       [(''v1/queue/71/dept/6f7073/source/cron/72/live/at/00000000000000000005/id/64656c69766572792f76332f7261697365642f71756575652f6a6f62732f646570742f776f726b65722f64656475702f6b'', demo_key)]\<rparr>"

definition demo_key_leased :: store_db where
  "demo_key_leased = demo_open\<lparr>delivery_by_id := [(demo_key, Blob (leased_record 16 (demo_record demo_key True)))],
     leased_by_dept_until := [(''ops/00000000000000000016/'' @ demo_key, ())],
     lineage_by_source :=
       [(''v1/queue/71/dept/6f7073/source/cron/72/live/at/00000000000000000005/id/64656c69766572792f76332f7261697365642f71756575652f6a6f62732f646570742f776f726b65722f64656475702f6b'', demo_key)]\<rparr>"

definition demo_key_dead :: store_db where
  "demo_key_dead = demo_open\<lparr>dead_by_id := [(demo_key, Blob (retry_dead_record
       (failed_record (demo_failure False) (leased_record 16 (demo_record demo_key True))) (demo_failure False) 10))],
     dead_by_time := [(''00000000000000000010/'' @ demo_key, ())],
     terminal_dead_by_time := [(''00000000000000000010/ops/'' @ demo_key, ())],
     terminal_suppression_by_slot := [(''39edb'', demo_key)],
     lineage_by_source :=
       [(''v1/queue/71/dept/6f7073/source/cron/72/terminal/at/00000000000000000010/id/64656c69766572792f76332f7261697365642f71756575652f6a6f62732f646570742f776f726b65722f64656475702f6b'', demo_key)]\<rparr>"

lemma demo_key_runs:
  "enqueue demo_ext (demo_record demo_key True) demo_open = Inr (demo_key_ready, Accepted)"
  "lease_matching 6 1 (from_millis 10) None {} demo_key_ready =
     Inr (demo_key_leased, [leased_record 16 (demo_record demo_key True)])"
  "retry demo_ext demo_key 1 (demo_failure False) demo_policy 10 demo_key_leased = Inr (demo_key_dead, PermanentDead)"
  by code_simp+

lemma demo_key_reach: "reach (store_init demo_ext) (store_step demo_ext) demo_key_dead"
proof -
  have f: "fresh_record (demo_record demo_key True)"
    by (simp add: fresh_record_def demo_record_def id_ok_def max_scalar_def less_char_def)
  have "store_step demo_ext (LEnqueue (demo_record demo_key True) Accepted) demo_open demo_key_ready"
    using f demo_key_runs(1) by (rule step_enqueue)
  with demo_open_reach have r: "reach (store_init demo_ext) (store_step demo_ext) demo_key_ready" by (rule reach_step)
  have "store_step demo_ext (LLease 6 None [leased_record 16 (demo_record demo_key True)]) demo_key_ready demo_key_leased"
    using demo_key_runs(2) by (rule step_lease)
  with r have l: "reach (store_init demo_ext) (store_step demo_ext) demo_key_leased" by (rule reach_step)
  have "store_step demo_ext (LRetry demo_key 1 10 PermanentDead) demo_key_leased demo_key_dead"
    using demo_key_runs(3) by (rule step_retry)
  with l show ?thesis by (rule reach_step)
qed

text \<open>When a publication is answered as terminally suppressed, the reported identifier was derived for
  one of the reliable subscribers of the queue, and the store answered the enqueue of that delivery as
  suppressed; the publication is a sequence of enqueue operations also then.\<close>

theorem publish_suppressed_spec:
  assumes "rt_store rt = Some db" and "reach (store_init (env_externs E)) (store_step (env_externs E)) db"
    and "publish_outcome E env rt = (rt', Inr (PublishSuppressed j))"
  shows "\<exists>ev subs db' ls. canonicalize_event (pe_event env) (pe_source env) = Some ev \<and>
    t_get (rt_subscriptions rt) (ev_queue ev) = Some subs \<and> list_ex (derives_id (env\<lparr>pe_event := ev\<rparr>) j) subs \<and>
    rt_store rt' = Some db' \<and> run (store_step (env_externs E)) db ls db' \<and> list_all enqueue_label ls \<and> suppressed_in ls j"
proof -
  have inv: "machine_inv (env_externs E) db" using assms(2) by (rule machine.reach_inv)
  from assms(3) show ?thesis
  proof (cases rule: publish_outcome_split)
    case (2 ev subs rt1 rt2 r)
    from 2(8) obtain sent s where r: "r = Inr (sent, s)" by (cases r) auto
    from publish_loop_run [OF 2(6) inv] 2(3) assms(1) r obtain db' ls where
      st: "rt_store rt2 = Some db'" "run (store_step (env_externs E)) db ls db'" "list_all enqueue_label ls"
      and res: "loop_result (env\<lparr>pe_event := ev\<rparr>) subs None s ls db'" by auto
    have "s = Some j" using 2(9) [OF r] by (cases s) (auto simp: Let_def split: prod.splits sum.splits if_splits)
    then have "suppressed_in ls j \<and> list_ex (derives_id (env\<lparr>pe_event := ev\<rparr>) j) subs"
      using res by (simp add: loop_result_def)
    with 2(1,2,7) st show ?thesis by (intro exI [of _ ev] exI [of _ subs] exI [of _ db'] exI [of _ ls]) simp
  qed simp
qed

theorem publish_suppressed_spec_witness:
  "\<exists>rt' db' ls. publish_outcome demo_publish_env (demo_envelope ''k'') (demo_router\<lparr>rt_store := Some demo_key_dead\<rparr>) =
       (rt', Inr (PublishSuppressed demo_key)) \<and>
     rt_store rt' = Some db' \<and> run (store_step demo_ext) demo_key_dead ls db' \<and> suppressed_in ls demo_key"
proof -
  let ?rt = "demo_router\<lparr>rt_store := Some demo_key_dead\<rparr>"
  have "snd (publish_outcome demo_publish_env (demo_envelope ''k'') ?rt) = Inr (PublishSuppressed demo_key)" by code_simp
  then obtain rt' where p: "publish_outcome demo_publish_env (demo_envelope ''k'') ?rt = (rt', Inr (PublishSuppressed demo_key))"
    by (metis prod.collapse)
  have s: "rt_store ?rt = Some demo_key_dead" by simp
  have X: "env_externs demo_publish_env = demo_ext" by (simp add: demo_publish_env_def)
  from publish_suppressed_spec [OF s _ p, unfolded X, OF demo_key_reach] p show ?thesis by blast
qed

section \<open>Routing\<close>




end
