(* ===== verification/Startup_Theorems.thy ===== *)
theory Startup_Theorems
  imports Startup_Validation "HOL-Library.Code_Target_Numeral"
begin

text \<open>
  The theorems on the validation at startup: the validators accept exactly the well-formed keys and graphs.
\<close>

text \<open>C21: The startup validation accepts a graph exactly when it is well formed: capacities and process
  limits are positive; every queue that is produced or consumed is declared; ephemeral queues are consumed;
  department files exist and their durations and retry policies are well formed; a department without a
  reliable input feeds no reliable consumer; no queue is isolated, no consumed queue lacks a producer in a
  closed world, and a queue that is not a fan-out queue has one consumer and no feedback.\<close>

theorem validation_accepts_well_formed_graphs:
  assumes "config_tables_ok cfg"
  shows "(\<exists>ws. validate_with_scope is_file root scope cfg = Inr ws) \<longleftrightarrow> graph_ok is_file root scope cfg"
  using assms by (rule validate_with_scope_iff)

definition sample_dept :: department_decl where
  "sample_dept =
     \<lparr>lua = ''main.lua'', owner_root = [], owner_namespace = [], consumes = [''in''], produces = [''out''],
      published_seam = [''in''], ephemeral = [], stall_window = ''5m'', graph_json = False,
      retry_of = Some \<lparr>decl_max_attempts = 3, decl_base = ''1s'', decl_cap = ''1m''\<rparr>\<rparr>"

definition sample_cfg :: "nat \<Rightarrow> config" where
  "sample_cfg cap =
     \<lparr>cfg_queue = [(''in'', \<lparr>capacity = cap, fanout = False\<rparr>), (''out'', \<lparr>capacity = 2, fanout = True\<rparr>)], cfg_raiser = [],
      cfg_department = [(''worker'', sample_dept)], cfg_limits = \<lparr>global_codex_processes = 1\<rparr>\<rparr>"

theorem validation_accepts_well_formed_graphs_witness:
  "graph_ok (\<lambda>_. True) [] ClosedWorld (sample_cfg 3) \<and> \<not> graph_ok (\<lambda>_. True) [] ClosedWorld (sample_cfg 0)"
proof -
  have ok: "config_tables_ok (sample_cfg n)" for n
    by (simp add: config_tables_ok_def sample_cfg_def t_ok_def less_char_def)
  have "validate_with_scope (\<lambda>_. True) [] ClosedWorld (sample_cfg 3) =
      Inr [UnconsumedQueue ''out'' [quoted ''department'' ''worker'']]"
    and "validate_with_scope (\<lambda>_. True) [] ClosedWorld (sample_cfg 0) = Inl (QueueWithoutCapacity ''in'')"
    by code_simp+
  then show ?thesis
    unfolding validation_accepts_well_formed_graphs [OF ok, symmetric] by simp
qed

text \<open>The runtime-key validator accepts a key exactly when each of its slash-separated segments is
  non-empty, not made of dots only, at most 255 bytes long and made of letters, digits, dots, underscores
  and hyphens; it then returns the key unchanged. In particular no accepted key is absolute, contains a
  parent reference or names a directory.\<close>

theorem runtime_key_validation:
  "validate_runtime_key key = Inr k \<longleftrightarrow> k = key \<and> list_all segment_ok (split_on (CHR ''/'') key)"
  by (simp add: validate_runtime_key_iff list_all_iff)

end
