(* ===== verification/Fingerprints.thy ===== *)
theory Fingerprints
  imports Failure_Fact
begin

text \<open>
  Fingerprints of failures do not depend on the volatile tokens of a message (time stamps, hashes, long
  numbers), also when punctuation surrounds them.
\<close>

section \<open>Tokens\<close>

lemma replace_all_skip:
  assumes "c \<notin> set pre"
  shows "replace_all (c # cs) r (pre @ s) = pre @ replace_all (c # cs) r s"
  using assms
proof (induction pre)
  case (Cons x pre)
  then have "x \<noteq> c" by auto
  with Cons show ?case by (subst replace_all.simps) (simp add: starts_with_def)
qed simp

lemma replace_all_Nil: "replace_all pat r [] = []"
  by (subst replace_all.simps) simp

lemma replace_all_hit: "pat \<noteq> [] \<Longrightarrow> replace_all pat r (pat @ s) = r @ replace_all pat r s"
  by (subst replace_all.simps) (simp add: starts_with_def)

lemma replace_all_wrapped:
  assumes "hd core \<notin> set pre \<union> set post" and "core \<noteq> []"
  shows "replace_all core r (pre @ core @ post) = pre @ r @ post"
proof -
  obtain c cs where core: "core = c # cs" using assms(2) by (cases core) auto
  have "replace_all core r post = post"
    using replace_all_skip [of c post cs r "[]"] assms(1) by (simp add: core replace_all_Nil)
  moreover have "replace_all core r (pre @ core @ post) = pre @ replace_all core r (core @ post)"
    using replace_all_skip [of c pre cs r "core @ post"] assms(1) by (simp add: core)
  ultimately show ?thesis by (simp only: replace_all_hit [OF assms(2)])
qed

lemma dropWhile_stop: "list_all P pre \<Longrightarrow> s \<noteq> [] \<Longrightarrow> \<not> P (hd s) \<Longrightarrow> dropWhile P (pre @ s) = s"
  by (induction pre) (cases s, auto)

lemma trim_matches_wrapped:
  assumes "list_all P pre" and "list_all P post" and "core \<noteq> []" and "\<not> P (hd core)" and "\<not> P (last core)"
  shows "trim_matches P (pre @ core @ post) = core"
proof -
  have "dropWhile P (pre @ core @ post) = core @ post"
    using assms(1,3,4) by (intro dropWhile_stop) auto
  moreover have "dropWhile P (rev post @ rev core) = rev core"
    using assms(2,3,5) by (intro dropWhile_stop) (auto simp: hd_rev)
  ultimately show ?thesis by (simp add: trim_matches_def)
qed

text \<open>What the normalisation puts in the place of a volatile token.\<close>

definition token_kind :: "string \<Rightarrow> string option" where
  "token_kind t =
     (if looks_like_rfc3339_timestamp t then Some ''<timestamp>''
      else if looks_like_sha t then Some ''<sha>''
      else if looks_like_epoch_number t then Some ''<number>''
      else None)"

definition wrapped_in_punctuation :: "string \<Rightarrow> string \<Rightarrow> string \<Rightarrow> bool" where
  "wrapped_in_punctuation pre core post \<longleftrightarrow>
     list_all is_ascii_punctuation pre \<and> list_all is_ascii_punctuation post \<and> core \<noteq> [] \<and>
     \<not> is_ascii_punctuation (hd core) \<and> \<not> is_ascii_punctuation (last core)"

lemma normalize_wrapped:
  assumes "wrapped_in_punctuation pre core post" and "token_kind core = Some k"
  shows "normalize_token (pre @ core @ post) = pre @ k @ post"
proof -
  have t: "trim_matches is_ascii_punctuation (pre @ core @ post) = core"
    using assms(1) by (intro trim_matches_wrapped) (auto simp: wrapped_in_punctuation_def)
  have h: "hd core \<notin> set pre \<union> set post" and ne: "core \<noteq> []"
    using assms(1) by (auto simp: wrapped_in_punctuation_def list_all_iff)
  show ?thesis
    using assms(2) replace_all_wrapped [OF h ne]
    unfolding normalize_token_def t Let_def token_kind_def by (auto split: if_splits)
qed

section \<open>Shape\<close>

lemma length_hexn: "n < 16 ^ Suc k \<Longrightarrow> length (hexn n) \<le> Suc k"
proof (induction k arbitrary: n)
  case 0
  then show ?case by (simp add: hexn.simps)
next
  case (Suc k)
  show ?case
  proof (cases "n < 16")
    case True
    then show ?thesis by (simp add: hexn.simps)
  next
    case False
    have "n div 16 < 16 ^ Suc k" using Suc.prems by (simp add: div_less_iff_less_mult)
    with Suc.IH False show ?thesis by (simp add: hexn.simps [of n])
  qed
qed

lemma length_hex16 [simp]: "length (hex16 n) = 16"
proof -
  have "unat n < 16 ^ Suc 15" using unat_u64_less [of n] by simp
  then have "length (hexn (unat n)) \<le> 16" using length_hexn [of "unat n" 15] by simp
  then show ?thesis by (simp add: hex16_def zpad_def)
qed

lemma error_class_str_inject: "error_class_str a = error_class_str b \<longleftrightarrow> a = b"
  by (cases a; cases b; simp)

lemma fingerprint_class: "fingerprint a s = fingerprint b t \<Longrightarrow> a = b"
proof -
  assume "fingerprint a s = fingerprint b t"
  then have "(error_class_str a @ '':'') @ hex16 (failure_fnv1a64 (normalize_for_fingerprint s)) =
      (error_class_str b @ '':'') @ hex16 (failure_fnv1a64 (normalize_for_fingerprint t))"
    by (simp add: fingerprint_def)
  then have "error_class_str a @ '':'' = error_class_str b @ '':''"
    by (subst (asm) append_eq_append_conv) simp_all
  then show "a = b" by (simp add: error_class_str_inject)
qed

lemma fingerprint_same_normal:
  "normalize_for_fingerprint s = normalize_for_fingerprint t \<Longrightarrow> fingerprint c s = fingerprint c t"
  by (simp add: fingerprint_def)

end
