(* ===== verification/Raised_Frames.thy ===== *)
theory Raised_Frames
  imports Delivery_Types Rust_Text
begin

text \<open>
  The protocol between a department process and its supervisor: the buffer of raised events and the frame
  that the child prints (\<open>raise.rs\<close>), and the parser that the supervisor runs on the child's output
  (\<open>supervise/raised.rs\<close>). The base64 and JSON codecs are third-party code: arguments of the definitions,
  with the laws used in \<open>codec_ok\<close>.
\<close>

section \<open>Raising\<close>

record raised_entry =
  re_queue :: string
  re_payload :: json

record raise_codec =
  rc_to_json :: "raised_entry list \<Rightarrow> string"
  rc_from_json :: "string \<Rightarrow> raised_entry list option"
  rc_b64_encode :: "string \<Rightarrow> string"
  rc_b64_decode :: "string \<Rightarrow> string option"

text \<open>The queues a department may raise to; the error names the queue.\<close>

definition ensure_allowed :: "string list \<Rightarrow> string \<Rightarrow> string + unit" where
  "ensure_allowed allowed_queues q = (if q \<in> set allowed_queues then Inr () else Inl q)"

text \<open>The buffer, its snapshot and the two ways to encode a frame.\<close>

definition raise_push :: "string \<Rightarrow> json \<Rightarrow> raised_entry list \<Rightarrow> raised_entry list" where
  "raise_push q pl buf = buf @ [\<lparr>re_queue = q, re_payload = pl\<rparr>]"

definition raise_snapshot :: "raised_entry list \<Rightarrow> (string \<times> json) list" where
  "raise_snapshot buf = map (\<lambda>entry. (re_queue entry, re_payload entry)) buf"

definition encode_entries :: "raise_codec \<Rightarrow> raised_entry list \<Rightarrow> string option" where
  "encode_entries C entries =
     (if entries = [] then None else Some (rc_b64_encode C (rc_to_json C entries)))"

definition encoded_frame :: "raise_codec \<Rightarrow> raised_entry list \<Rightarrow> string option" where
  "encoded_frame C buf = encode_entries C buf"

definition drain_encoded_frame :: "raise_codec \<Rightarrow> raised_entry list \<Rightarrow> raised_entry list \<times> string option" where
  "drain_encoded_frame C buf = ([], encode_entries C buf)"

text \<open>What is printed on the standard output.\<close>

definition emit_stdout :: "raise_codec \<Rightarrow> raised_entry list \<Rightarrow> string" where
  "emit_stdout C buf =
     (case encoded_frame C buf of None \<Rightarrow> [] | Some b64 \<Rightarrow> ''RAISED: '' @ b64 @ [CHR 0x0A])"

definition emit_authenticated_stdout :: "raise_codec \<Rightarrow> string \<Rightarrow> raised_entry list \<Rightarrow> string" where
  "emit_authenticated_stdout C token buf =
     (case encoded_frame C buf of None \<Rightarrow> [] | Some b64 \<Rightarrow> ''RAISED-AUTH: '' @ token @ '' '' @ b64 @ [CHR 0x0A])"

definition drain_emit_authenticated_stdout ::
    "raise_codec \<Rightarrow> string \<Rightarrow> raised_entry list \<Rightarrow> raised_entry list \<times> string" where
  "drain_emit_authenticated_stdout C token buf =
     (case drain_encoded_frame C buf of
        (buf', None) \<Rightarrow> (buf', [])
      | (buf', Some b64) \<Rightarrow> (buf', ''RAISED-AUTH: '' @ token @ '' '' @ b64 @ [CHR 0x0A]))"

text \<open>The Lua function \<open>raise\<close>: the parent must be alive, the queue name resolve and be declared. What the
  liveness check and the name resolution say are arguments; a payload that is no JSON is \<open>null\<close>.\<close>

datatype raise_error = ParentGone | NameUnresolved | QueueNotDeclared string

definition raise_call ::
    "bool \<Rightarrow> (string \<Rightarrow> string option) \<Rightarrow> string list \<Rightarrow> string \<Rightarrow> json option \<Rightarrow> raised_entry list \<Rightarrow>
     raise_error + raised_entry list" where
  "raise_call parent_alive resolve allowed_queues q pl buf =
     (if \<not> parent_alive then Inl ParentGone
      else case resolve q of
          None \<Rightarrow> Inl NameUnresolved
        | Some q' \<Rightarrow>
            (case ensure_allowed allowed_queues q' of
               Inl e \<Rightarrow> Inl (QueueNotDeclared e)
             | Inr _ \<Rightarrow> Inr (raise_push q' (case pl of None \<Rightarrow> JNull | Some j \<Rightarrow> j) buf)))"

section \<open>Parsing\<close>

text \<open>The clock stamps each event.\<close>

definition decode_raised_payload :: "raise_codec \<Rightarrow> (nat \<Rightarrow> u64) \<Rightarrow> string \<Rightarrow> event list" where
  "decode_raised_payload C clock b64_part =
     (case rc_b64_decode C b64_part of
        None \<Rightarrow> []
      | Some decoded_bytes \<Rightarrow>
          (case rc_from_json C decoded_bytes of
             None \<Rightarrow> []
           | Some entries \<Rightarrow>
               map (\<lambda>(i, e). \<lparr>ev_queue = re_queue e, ev_payload = re_payload e, ev_ts = clock i\<rparr>) (enumerate 0 entries)))"

definition parse_raised_line :: "raise_codec \<Rightarrow> (nat \<Rightarrow> u64) \<Rightarrow> string \<Rightarrow> event list" where
  "parse_raised_line C clock line =
     (case strip_prefix ''RAISED: '' (trim_start line) of
        None \<Rightarrow> []
      | Some b64_part \<Rightarrow> decode_raised_payload C clock (trim b64_part))"

definition parse_authenticated_raised_line :: "raise_codec \<Rightarrow> (nat \<Rightarrow> u64) \<Rightarrow> string \<Rightarrow> string \<Rightarrow> event list" where
  "parse_authenticated_raised_line C clock line token =
     (case strip_prefix ''RAISED-AUTH: '' (trim_start line) of
        None \<Rightarrow> []
      | Some rest \<Rightarrow>
          (case split_once (CHR '' '') (trim rest) of
             None \<Rightarrow> []
           | Some (frame_token, b64_part) \<Rightarrow>
               if frame_token \<noteq> token then []
               else decode_raised_payload C clock (trim b64_part)))"

definition last_frame :: "string \<Rightarrow> string \<Rightarrow> string option" where
  "last_frame marker stdout = List.find (\<lambda>line. starts_with (trim_start line) marker) (rev (lines_of stdout))"

definition parse_authenticated_raised :: "raise_codec \<Rightarrow> (nat \<Rightarrow> u64) \<Rightarrow> string \<Rightarrow> string \<Rightarrow> event list" where
  "parse_authenticated_raised C clock stdout token =
     (case last_frame ''RAISED-AUTH: '' stdout of
        None \<Rightarrow> []
      | Some line \<Rightarrow> parse_authenticated_raised_line C clock line token)"

definition parse_raised :: "raise_codec \<Rightarrow> (nat \<Rightarrow> u64) \<Rightarrow> string \<Rightarrow> event list" where
  "parse_raised C clock stdout =
     (case last_frame ''RAISED: '' stdout of
        None \<Rightarrow> []
      | Some line \<Rightarrow> parse_raised_line C clock line)"

section \<open>Lemmas\<close>

definition codec_ok :: "raise_codec \<Rightarrow> raised_entry list \<Rightarrow> bool" where
  "codec_ok C buf \<longleftrightarrow>
     rc_from_json C (rc_to_json C buf) = Some buf \<and> rc_b64_encode C (rc_to_json C buf) \<noteq> [] \<and>
     (\<forall>s. rc_b64_decode C (rc_b64_encode C s) = Some s \<and> plain_ascii (rc_b64_encode C s))"

section \<open>Lines\<close>

lemma split_on_append_sep: "split_on c (a @ c # b) = split_on c a @ split_on c b"
proof (induction a)
  case (Cons x a)
  obtain u us where "split_on c a = u # us" by (cases "split_on c a") auto
  with Cons show ?case by simp
qed simp

lemma lines_of_append: "lines_of (a @ CHR 0x0A # b) = map strip_cr (split_on (CHR 0x0A) a) @ lines_of b"
  by (simp add: lines_of_def Let_def split_on_append_sep butlast_append)

lemma find_rev_middle:
  assumes "\<forall>x \<in> set ys. \<not> P x" and "P x"
  shows "List.find P (rev (xs @ x # ys)) = Some x"
proof -
  have "List.find P (us @ x # vs) = Some x" if "\<forall>x \<in> set us. \<not> P x" for us vs
    using that assms(2) by (induction us) auto
  with assms(1) show ?thesis by simp
qed

text \<open>A frame printed on a line of its own is the last frame when no frame follows it.\<close>

lemma last_frame_middle:
  assumes "out = [] \<or> last out = CHR 0x0A" and "CHR 0x0A \<notin> set frame" and "strip_cr frame = frame"
    and "starts_with (trim_start frame) marker"
    and "\<forall>line \<in> set (lines_of post). \<not> starts_with (trim_start line) marker"
  shows "last_frame marker (out @ frame @ CHR 0x0A # post) = Some frame"
proof -
  have "\<exists>xs. lines_of (out @ frame @ CHR 0x0A # post) = xs @ lines_of (frame @ CHR 0x0A # post)"
  proof (cases out rule: rev_cases)
    case (snoc a c)
    with assms(1) show ?thesis using lines_of_append [of a "frame @ CHR 0x0A # post"] by simp
  qed simp
  moreover have "lines_of (frame @ CHR 0x0A # post) = frame # lines_of post"
    using assms(2,3) by (simp add: lines_of_append split_on_no_sep)
  ultimately show ?thesis
    using assms(4,5) find_rev_middle [of "lines_of post" "\<lambda>line. starts_with (trim_start line) marker" frame]
    unfolding last_frame_def by auto
qed

lemma strip_cr_plain: "plain_ascii b \<Longrightarrow> b \<noteq> [] \<Longrightarrow> strip_cr (a @ b) = a @ b"
  using plain_ascii_ends(2) [of b] by (auto simp: strip_cr_def ascii_ws_def)

lemma plain_ascii_not_in: "plain_ascii s \<Longrightarrow> CHR 0x0A \<notin> set s \<and> CHR '' '' \<notin> set s"
  by (auto simp: plain_ascii_def list_all_iff ascii_ws_def)

lemma strip_prefix_append [simp]: "strip_prefix p (p @ s) = Some s"
  by (induction p) auto

lemma split_once_join: "split_once c s = Some (a, b) \<Longrightarrow> s = a @ c # b"
  by (induction c s arbitrary: a rule: split_once.induct) (auto split: if_splits)

lemma decode_encoded:
  assumes "codec_ok C buf"
  shows "map (\<lambda>e. (ev_queue e, ev_payload e)) (decode_raised_payload C clock (rc_b64_encode C (rc_to_json C buf))) = raise_snapshot buf"
proof -
  have "map ((\<lambda>e. (ev_queue e, ev_payload e)) \<circ> (\<lambda>(i, e). \<lparr>ev_queue = re_queue e, ev_payload = re_payload e, ev_ts = clock i\<rparr>))
      (enumerate n buf) = raise_snapshot buf" for n
    unfolding raise_snapshot_def by (induction buf arbitrary: n) auto
  then show ?thesis using assms by (simp add: decode_raised_payload_def codec_ok_def)
qed

lemma parse_own_frame:
  assumes "codec_ok C buf" and "plain_ascii token" and "token \<noteq> []"
  shows "parse_authenticated_raised_line C clock (''RAISED-AUTH: '' @ token @ '' '' @ rc_b64_encode C (rc_to_json C buf)) token =
    decode_raised_payload C clock (rc_b64_encode C (rc_to_json C buf))"
proof -
  let ?b = "rc_b64_encode C (rc_to_json C buf)"
  have b: "plain_ascii ?b" "?b \<noteq> []" using assms(1) by (simp_all add: codec_ok_def)
  have "trim_start (''RAISED-AUTH: '' @ token @ '' '' @ ?b) = ''RAISED-AUTH: '' @ token @ '' '' @ ?b"
    using trim_start_plain [of "CHR ''R''"] by (simp add: ascii_ws_def)
  moreover have "trim (token @ '' '' @ ?b) = token @ '' '' @ ?b"
    using assms(2,3) b by (intro trim_plain_ends)
  moreover have "split_once (CHR '' '') (token @ '' '' @ ?b) = Some (token, ?b)"
    using split_once_append [of "CHR '' ''" token ?b] plain_ascii_not_in [OF assms(2)] by simp
  ultimately show ?thesis
    using trim_plain [OF b] by (simp add: parse_authenticated_raised_line_def del: append_Cons append_Nil)
qed

end
