(* ===== verification/Supervisor_Journal.thy ===== *)
theory Supervisor_Journal
  imports Queue_Starvation
begin

text \<open>
  The supervisor journal (\<open>supervise/journal.rs\<close>): one line per event, written to a file that is given
  up at the first failed write. The versions that every line carries come from the build and are arguments;
  whether a write succeeds is an argument of the operation.
\<close>

section \<open>Lines\<close>

definition escape_char :: "char \<Rightarrow> string" where
  "escape_char c =
     (if c = CHR 0x5C then [CHR 0x5C, CHR 0x5C]
      else if c = CHR 0x0A then [CHR 0x5C, CHR ''n'']
      else if c = CHR 0x0D then [CHR 0x5C, CHR ''r'']
      else if c = CHR 0x09 then [CHR 0x5C, CHR ''t'']
      else if c = CHR '' '' then [CHR 0x5C, CHR ''s'']
      else if c = CHR ''='' then [CHR 0x5C, CHR ''='']
      else [c])"

definition escape_value :: "string \<Rightarrow> string" where
  "escape_value value = concat (map escape_char value)"

record provenance =
  current_engine_ver :: string
  current_pkg_versions_summary :: string

definition format_line :: "provenance \<Rightarrow> string \<Rightarrow> (string \<times> string) list \<Rightarrow> string" where
  "format_line pv ev fs =
     ''event='' @ escape_value ev @
     '' engine_ver='' @ escape_value (current_engine_ver pv) @
     '' pkg_versions='' @ escape_value (current_pkg_versions_summary pv) @
     concat (map (\<lambda>(key, value). '' '' @ key @ ''='' @ escape_value value) fs) @ [CHR 0x0A]"

section \<open>The writer\<close>

text \<open>The file is the text written so far; \<open>None\<close> is a disabled journal.\<close>

record journal =
  journal_file :: "string option"
  journal_path :: "string option"

definition journal_disabled :: journal where
  "journal_disabled = \<lparr>journal_file = None, journal_path = None\<rparr>"

text \<open>A failed write may leave any part of the line in the file, which is then no longer written.\<close>

definition journal_event :: "provenance \<Rightarrow> bool \<Rightarrow> string \<Rightarrow> (string \<times> string) list \<Rightarrow> journal \<Rightarrow> journal" where
  "journal_event pv write_ok ev fs j =
     (case journal_file j of
        None \<Rightarrow> j
      | Some contents \<Rightarrow>
          if write_ok then j\<lparr>journal_file := Some (contents @ format_line pv ev fs)\<rparr>
          else j\<lparr>journal_file := None, journal_path := None\<rparr>)"

section \<open>Reading a line back\<close>

text \<open>The inverse of the escape.\<close>

fun unescape_value :: "string \<Rightarrow> string" where
  "unescape_value [] = []"
| "unescape_value (c # cs) =
     (if c = CHR 0x5C then
        (case cs of
           [] \<Rightarrow> []
         | d # ds \<Rightarrow>
             (if d = CHR ''n'' then CHR 0x0A else if d = CHR ''r'' then CHR 0x0D
              else if d = CHR ''t'' then CHR 0x09 else if d = CHR ''s'' then CHR '' ''
              else d) # unescape_value ds)
      else c # unescape_value cs)"

lemma unescape_escape_char: "unescape_value (escape_char c @ s) = c # unescape_value s"
  by (auto simp: escape_char_def)

lemma unescape_escape [simp]: "unescape_value (escape_value s) = s"
  unfolding escape_value_def by (induction s) (simp_all add: unescape_escape_char)

lemma escape_value_no_delims: "set (escape_value s) \<inter> {CHR 0x0A, CHR 0x0D, CHR 0x09, CHR '' ''} = {}"
  by (auto simp: escape_value_def escape_char_def split: if_splits)

definition read_field :: "string \<Rightarrow> string \<times> string" where
  "read_field s = (case split_once (CHR ''='') s of None \<Rightarrow> (s, []) | Some (k, v) \<Rightarrow> (k, unescape_value v))"

definition read_line :: "string \<Rightarrow> (string \<times> string) list" where
  "read_line line = map read_field (split_on (CHR '' '') (butlast line))"

definition journal_fields :: "provenance \<Rightarrow> string \<Rightarrow> (string \<times> string) list \<Rightarrow> (string \<times> string) list" where
  "journal_fields pv ev fs =
     (''event'', ev) # (''engine_ver'', current_engine_ver pv) #
     (''pkg_versions'', current_pkg_versions_summary pv) # fs"

definition field_text :: "string \<times> string \<Rightarrow> string" where
  "field_text kv = fst kv @ CHR ''='' # escape_value (snd kv)"

definition plain_key :: "string \<Rightarrow> bool" where
  "plain_key k \<longleftrightarrow> set k \<inter> {CHR ''='', CHR '' '', CHR 0x0A} = {}"

lemma join_space_Cons: "ss \<noteq> [] \<Longrightarrow> join '' '' (s # ss) = s @ CHR '' '' # join '' '' ss"
  by (cases ss) auto

lemma join_space_fields:
  "join '' '' (map field_text (kv # kvs)) = field_text kv @ concat (map (\<lambda>kv. '' '' @ field_text kv) kvs)"
  by (induction kvs arbitrary: kv) (simp_all add: join_space_Cons)

lemma format_line_join: "format_line pv ev fs = join '' '' (map field_text (journal_fields pv ev fs)) @ [CHR 0x0A]"
  by (simp only: journal_fields_def join_space_fields format_line_def)
    (simp add: field_text_def case_prod_unfold)

lemma read_field_text: "plain_key (fst kv) \<Longrightarrow> read_field (field_text kv) = kv"
  by (cases kv) (simp add: read_field_def field_text_def plain_key_def split_once_append)

lemma field_text_no_space: "plain_key (fst kv) \<Longrightarrow> CHR '' '' \<notin> set (field_text kv) \<and> CHR 0x0A \<notin> set (field_text kv)"
  using escape_value_no_delims [of "snd kv"] by (auto simp: field_text_def plain_key_def)

lemma read_format_line:
  assumes "\<forall>kv \<in> set fs. plain_key (fst kv)"
  shows "read_line (format_line pv ev fs) = journal_fields pv ev fs"
proof -
  have keys: "\<forall>kv \<in> set (journal_fields pv ev fs). plain_key (fst kv)"
    using assms by (simp add: journal_fields_def plain_key_def)
  have "split_on (CHR '' '') (join '' '' (map field_text (journal_fields pv ev fs))) =
      map field_text (journal_fields pv ev fs)"
    using keys field_text_no_space by (intro split_on_join) (auto simp: journal_fields_def)
  then show ?thesis
    using keys by (simp add: read_line_def format_line_join map_idI read_field_text)
qed

end
