(* ===== verification/Messaging_Theorems.thy ===== *)
theory Messaging_Theorems
  imports Fingerprints Raised_Frames Supervisor_Journal Event_Fanout "HOL-Library.Code_Target_Numeral"
begin

text \<open>
  The theorems on the messages between the parts of the supervisor: raised events, the journal, the fan-out
  to mailboxes, queue-starvation events and failure fingerprints.
\<close>

section \<open>Raised events\<close>

text \<open>C23: What a department raised arrives. The frame that a child prints for its buffered events, on a
  line of its own, anywhere in an output in which no later line looks like a frame, is parsed by the
  supervisor into exactly the buffered queue names and payloads, in order.\<close>

theorem raised_round_trip:
  assumes "codec_ok C buf" and "plain_ascii token" and "token \<noteq> []" and "buf \<noteq> []"
    and "out = [] \<or> last out = CHR 0x0A"
    and "\<forall>line \<in> set (lines_of post). \<not> starts_with (trim_start line) ''RAISED-AUTH: ''"
  shows "map (\<lambda>e. (ev_queue e, ev_payload e))
      (parse_authenticated_raised C clock (out @ emit_authenticated_stdout C token buf @ post) token) = raise_snapshot buf"
proof -
  let ?b = "rc_b64_encode C (rc_to_json C buf)"
  let ?f = "''RAISED-AUTH: '' @ token @ '' '' @ ?b"
  have b: "plain_ascii ?b" "?b \<noteq> []" using assms(1) by (simp_all add: codec_ok_def)
  have emit: "emit_authenticated_stdout C token buf = ?f @ [CHR 0x0A]"
    using assms(4) by (simp add: emit_authenticated_stdout_def encoded_frame_def encode_entries_def)
  have "last_frame ''RAISED-AUTH: '' (out @ ?f @ CHR 0x0A # post) = Some ?f"
  proof (rule last_frame_middle [OF assms(5) _ _ _ assms(6)])
    show "CHR 0x0A \<notin> set ?f" using plain_ascii_not_in [OF assms(2)] plain_ascii_not_in [OF b(1)] by simp
    show "strip_cr ?f = ?f" using strip_cr_plain [OF b, of "''RAISED-AUTH: '' @ token @ '' ''"] by simp
    have "trim_start ?f = ?f" using trim_start_plain [of "CHR ''R''"] by (simp add: ascii_ws_def)
    then show "starts_with (trim_start ?f) ''RAISED-AUTH: ''" by (simp add: starts_with_def)
  qed
  then have "parse_authenticated_raised C clock (out @ emit_authenticated_stdout C token buf @ post) token =
      decode_raised_payload C clock ?b"
    using parse_own_frame [OF assms(1-3)] by (simp add: parse_authenticated_raised_def emit)
  then show ?thesis using decode_encoded [OF assms(1)] by simp
qed

text \<open>A codec for the example: queue names one per line, bytes in hexadecimal.\<close>

definition nibble_value :: "char \<Rightarrow> nat" where
  "nibble_value c = (if is_digit c then of_char c - 48 else of_char c - 87)"

definition hex_codec :: raise_codec where
  "hex_codec =
     \<lparr>rc_to_json = (\<lambda>es. join [CHR 0x0A] (map re_queue es)),
      rc_from_json = (\<lambda>s. Some (map (\<lambda>q. \<lparr>re_queue = q, re_payload = JNull\<rparr>) (split_on (CHR 0x0A) s))),
      rc_b64_encode = (\<lambda>s. concat (map byte_hex s)),
      rc_b64_decode = (\<lambda>s. Some (map (\<lambda>p. char_of (16 * nibble_value (p ! 0) + nibble_value (p ! 1))) (chunks 2 s)))\<rparr>"

lemma chunks_hex: "chunks 2 (concat (map byte_hex s)) = map byte_hex s"
proof (induction s)
  case (Cons c s)
  obtain a b where "byte_hex c = [a, b]" by (simp add: byte_hex_def)
  with Cons show ?case by (simp add: chunks.simps [of 2 "a # b # concat (map byte_hex s)"])
qed (simp add: chunks.simps)

lemma nibble_value_lower: "n < 16 \<Longrightarrow> nibble_value (hex_lower n) = n"
  by (auto simp: nibble_value_def is_digit_def of_char_hex_lower)

lemma nibble_value_byte: "char_of (16 * nibble_value (byte_hex c ! 0) + nibble_value (byte_hex c ! 1)) = c"
  using byte_nibbles [of c] by (simp add: byte_hex_def nibble_value_lower)

lemma plain_ascii_alnum: "list_all is_alnum s \<Longrightarrow> plain_ascii s"
  by (auto simp: plain_ascii_def list_all_iff is_alnum_def ascii_ws_def Let_def)

lemma hex_codec_ok: "codec_ok hex_codec [\<lparr>re_queue = ''jobs'', re_payload = JNull\<rparr>]"
proof -
  have "plain_ascii (concat (map byte_hex s))" for s
    by (rule plain_ascii_alnum) (induction s, auto simp: byte_hex_alnum)
  moreover have "map (\<lambda>p. char_of (16 * nibble_value (p ! 0) + nibble_value (p ! 1))) (map byte_hex s) = s" for s
    using nibble_value_byte by (simp add: map_idI)
  ultimately show ?thesis by (simp add: codec_ok_def hex_codec_def chunks_hex byte_hex_def)
qed

theorem raised_round_trip_witness:
  "map (\<lambda>e. (ev_queue e, ev_payload e))
     (parse_authenticated_raised hex_codec (\<lambda>_. 7)
        (''log line'' @ [CHR 0x0A] @ emit_authenticated_stdout hex_codec ''tok'' [\<lparr>re_queue = ''jobs'', re_payload = JNull\<rparr>] @ ''bye'')
        ''tok'') = [(''jobs'', JNull)]"
proof -
  have l: "\<forall>line \<in> set (lines_of ''bye''). \<not> starts_with (trim_start line) ''RAISED-AUTH: ''" by code_simp
  have t: "plain_ascii ''tok''" by (simp add: ascii_ws_def)
  have o: "''log line'' @ [CHR 0x0A] = [] \<or> last (''log line'' @ [CHR 0x0A]) = CHR 0x0A" by simp
  have r: "raise_snapshot [\<lparr>re_queue = ''jobs'', re_payload = JNull\<rparr>] = [(''jobs'', JNull)]" by (simp add: raise_snapshot_def)
  show ?thesis
    using raised_round_trip [OF hex_codec_ok t _ _ o l, of "\<lambda>_. 7"]
    by (simp only: r append_assoc) simp
qed



section \<open>Declared queues\<close>

text \<open>A script's calls of \<open>raise\<close>, failed calls leaving the buffer as it is.\<close>

fun raise_calls ::
    "(string \<Rightarrow> string option) \<Rightarrow> string list \<Rightarrow> (bool \<times> string \<times> json option) list \<Rightarrow> raised_entry list \<Rightarrow> raised_entry list" where
  "raise_calls resolve allowed [] buf = buf"
| "raise_calls resolve allowed ((alive, q, pl) # calls) buf =
     raise_calls resolve allowed calls
       (case raise_call alive resolve allowed q pl buf of Inl _ \<Rightarrow> buf | Inr buf' \<Rightarrow> buf')"

text \<open>Whatever a script does, the buffer holds only events for queues that its department declares to
  produce, and keeps the order of the successful calls: a call appends one entry for the resolved queue or
  fails and changes nothing.\<close>

theorem raise_only_declared:
  "list_all (\<lambda>e. re_queue e \<in> set allowed) (raise_calls resolve allowed calls []) \<and>
   (\<forall>buf alive q pl buf'. raise_call alive resolve allowed q pl buf = Inr buf' \<longleftrightarrow>
      alive \<and> (\<exists>q'. resolve q = Some q' \<and> q' \<in> set allowed \<and>
        buf' = buf @ [\<lparr>re_queue = q', re_payload = (case pl of None \<Rightarrow> JNull | Some j \<Rightarrow> j)\<rparr>]))"
proof
  have call: "raise_call alive resolve allowed q pl buf = Inr buf' \<longleftrightarrow>
      alive \<and> (\<exists>q'. resolve q = Some q' \<and> q' \<in> set allowed \<and>
        buf' = buf @ [\<lparr>re_queue = q', re_payload = (case pl of None \<Rightarrow> JNull | Some j \<Rightarrow> j)\<rparr>])" for buf alive q pl buf'
    by (auto simp: raise_call_def ensure_allowed_def raise_push_def split: option.split)
  then show "\<forall>buf alive q pl buf'. raise_call alive resolve allowed q pl buf = Inr buf' \<longleftrightarrow>
      alive \<and> (\<exists>q'. resolve q = Some q' \<and> q' \<in> set allowed \<and>
        buf' = buf @ [\<lparr>re_queue = q', re_payload = (case pl of None \<Rightarrow> JNull | Some j \<Rightarrow> j)\<rparr>])" by blast
  have "list_all (\<lambda>e. re_queue e \<in> set allowed) buf \<Longrightarrow>
      list_all (\<lambda>e. re_queue e \<in> set allowed) (raise_calls resolve allowed calls buf)" for buf
  proof (induction resolve allowed calls buf rule: raise_calls.induct)
    case (2 resolve allowed alive q pl calls buf)
    show ?case
    proof (cases "raise_call alive resolve allowed q pl buf")
      case (Inl e)
      with 2 show ?thesis by simp
    next
      case (Inr b)
      then have "list_all (\<lambda>e. re_queue e \<in> set allowed) b"
        using 2(2) by (auto simp: raise_call_def ensure_allowed_def raise_push_def split: option.splits if_splits)
      with 2(1) Inr show ?thesis by simp
    qed
  qed simp
  then show "list_all (\<lambda>e. re_queue e \<in> set allowed) (raise_calls resolve allowed calls [])" by simp
qed

section \<open>The journal\<close>

text \<open>C26: The journal keeps one line per event: a line ends with its only newline, and reading it back, by
  splitting at spaces and at the first equals sign and undoing the escapes, gives the event name, the
  versions and the fields with their exact values, whatever characters the values contain.\<close>

theorem journal_line_round_trip:
  assumes "\<forall>kv \<in> set fs. plain_key (fst kv)"
  shows "read_line (format_line pv ev fs) = journal_fields pv ev fs \<and>
    last (format_line pv ev fs) = CHR 0x0A \<and> CHR 0x0A \<notin> set (butlast (format_line pv ev fs))"
proof -
  have keys: "\<forall>kv \<in> set (journal_fields pv ev fs). plain_key (fst kv)"
    using assms by (simp add: journal_fields_def plain_key_def)
  have "CHR 0x0A \<notin> set (join '' '' (map field_text (journal_fields pv ev fs)))"
    using set_join [of "'' ''" "map field_text (journal_fields pv ev fs)"] keys field_text_no_space by fastforce
  then show ?thesis using read_format_line [OF assms] by (simp add: format_line_join)
qed

theorem journal_line_round_trip_witness:
  "read_line (format_line \<lparr>current_engine_ver = ''1.0'', current_pkg_versions_summary = ''a=1 b=2''\<rparr> ''dept exit''
       [(''reason'', ''exit=0'' @ [CHR 0x0A] @ ''x'')]) =
     [(''event'', ''dept exit''), (''engine_ver'', ''1.0''), (''pkg_versions'', ''a=1 b=2''), (''reason'', ''exit=0'' @ [CHR 0x0A] @ ''x'')]"
proof -
  have k: "\<forall>kv \<in> set [(''reason'', ''exit=0'' @ [CHR 0x0A] @ ''x'')]. plain_key (fst kv)" by (simp add: plain_key_def)
  show ?thesis
    using journal_line_round_trip [OF k, of "\<lparr>current_engine_ver = ''1.0'', current_pkg_versions_summary = ''a=1 b=2''\<rparr>" "''dept exit''"]
    by (simp add: journal_fields_def)
qed

section \<open>The fan-out\<close>







section \<open>Queue starvation\<close>

lemma position_skip: "x \<notin> set xs \<Longrightarrow> position (\<lambda>y. y = x) (xs @ x # ys) = Some (length xs)"
  by (induction xs) auto

lemma starvation_source:
  assumes "src_reference src = join ''/'' (pre @ ''queue-starvation'' # o1 # n1 # st # ''pr'' # pn # ''proposal'' # ow # ''issue'' # o2 # n2 # num # post)"
    and "''queue-starvation'' \<notin> set pre"
    and "\<forall>s \<in> set (pre @ [o1, n1, st, pn, ow, o2, n2, num] @ post). CHR ''/'' \<notin> set s"
    and "[] \<notin> set [o1, n1, st, pn, ow, o2, n2, num]"
  shows "queue_starvation_source src = Some \<lparr>repo_owner = o1, repo_name = n1, qs_state = st, pr_number = pn, qs_owner = ow,
    issue_repo_owner = o2, issue_repo_name = n2, issue_number = num\<rparr>"
proof -
  let ?segs = "pre @ ''queue-starvation'' # o1 # n1 # st # ''pr'' # pn # ''proposal'' # ow # ''issue'' # o2 # n2 # num # post"
  have "split_on (CHR ''/'') (src_reference src) = ?segs"
    unfolding assms(1) using assms(3) by (intro split_on_join) auto
  moreover have "position (\<lambda>y. y = ''queue-starvation'') ?segs = Some (length pre)"
    using assms(2) by (rule position_skip)
  ultimately show ?thesis using assms(4) by (auto simp: queue_starvation_source_def has_nonempty_segments_def)
qed

text \<open>Normalising an event never fails, keeps its queue, time stamp and every other payload field, and
  is idempotent. An event from a starvation detector (the source reference names pull request, owner and
  issue) whose payload gives an age and a limit in seconds gains a liveness object that names the issue,
  the pull request, the age and the limit, and says that the limit is breached exactly when the age has
  reached it.\<close>

theorem queue_starvation_normalisation:
  assumes "src_reference src = join ''/'' (pre @ ''queue-starvation'' # o1 # n1 # st # ''pr'' # pn # ''proposal'' # ow # ''issue'' # o2 # n2 # num # post)"
    and "''queue-starvation'' \<notin> set pre"
    and "\<forall>s \<in> set (pre @ [o1, n1, st, pn, ow, o2, n2, num] @ post). CHR ''/'' \<notin> set s"
    and "[] \<notin> set [o1, n1, st, pn, ow, o2, n2, num]"
    and "json_get (ev_payload ev) ''queue_head_age_seconds'' = Some (json_u64 age)"
    and "json_get (ev_payload ev) ''threshold_seconds'' = Some (json_u64 slo)"
  shows "\<exists>ev' j. canonicalize_event ev (Some src) = Some ev' \<and> canonicalize_event ev' (Some src) = Some ev' \<and>
    ev_queue ev' = ev_queue ev \<and> ev_ts ev' = ev_ts ev \<and>
    (\<forall>k. k \<noteq> ''queue_liveness'' \<longrightarrow> json_get (ev_payload ev') k = json_get (ev_payload ev) k) \<and>
    json_get (ev_payload ev') ''queue_liveness'' = Some j \<and>
    json_get j ''item_id'' = Some (JString (join ''/'' [ow, ''issue'', o2, n2, num])) \<and>
    json_get j ''linked_item_id'' = Some (JString (join ''/'' [ow, ''pr'', o1, n1, pn])) \<and>
    json_get j ''age_seconds'' = Some (json_u64 age) \<and> json_get j ''slo_seconds'' = Some (json_u64 slo) \<and>
    json_get j ''breached'' = Some (JBool (slo \<le> age))"
proof -
  note src = starvation_source [OF assms(1-4)]
  have "payload_seconds (ev_payload ev) [''queue_head_age_seconds'', ''age_seconds''] [''queue_head_age_minutes'', ''age_minutes''] = Some age"
    and "payload_seconds (ev_payload ev) [''threshold_seconds'', ''slo_seconds''] [''threshold_minutes'', ''slo_minutes''] = Some slo"
    using assms(5,6) by (simp_all add: payload_seconds_def payload_u64_def json_u64_def)
  then obtain j where j: "queue_liveness_json ev (Some src) = Some j"
    and fields: "json_get j ''item_id'' = Some (JString (join ''/'' [ow, ''issue'', o2, n2, num]))"
      "json_get j ''linked_item_id'' = Some (JString (join ''/'' [ow, ''pr'', o1, n1, pn]))"
      "json_get j ''age_seconds'' = Some (json_u64 age)" "json_get j ''slo_seconds'' = Some (json_u64 slo)"
      "json_get j ''breached'' = Some (JBool (slo \<le> age))"
    by (simp add: queue_liveness_json_def src Let_def json_get_object item_id_def linked_item_id_def)
  obtain ev' where ev': "canonicalize_event ev (Some src) = Some ev'" using canonicalize_total by blast
  note cf = canonicalize_fields [OF ev']
  show ?thesis
    using ev' canonicalize_idempotent [OF ev'] cf(1-3) cf(4) [OF j] fields by blast
qed

theorem queue_starvation_normalisation_witness:
  "\<exists>ev' j. canonicalize_event \<lparr>ev_queue = ''q'', ev_payload = JObject [(''queue_head_age_seconds'', json_u64 90), (''threshold_seconds'', json_u64 60)], ev_ts = 1\<rparr>
       (Some \<lparr>src_kind = External, src_reference = ''w/queue-starvation/o/n/s/pr/1/proposal/w/issue/p/r/2''\<rparr>) = Some ev' \<and>
     json_get (ev_payload ev') ''queue_liveness'' = Some j \<and> json_get j ''item_id'' = Some (JString ''w/issue/p/r/2'') \<and>
     json_get j ''breached'' = Some (JBool True)"
proof -
  let ?src = "\<lparr>src_kind = External, src_reference = ''w/queue-starvation/o/n/s/pr/1/proposal/w/issue/p/r/2''\<rparr>"
  have r: "src_reference ?src = join ''/'' ([''w''] @ ''queue-starvation'' # ''o'' # ''n'' # ''s'' # ''pr'' # ''1'' # ''proposal'' # ''w'' # ''issue'' # ''p'' # ''r'' # ''2'' # [])"
    by simp
  show ?thesis
    using queue_starvation_normalisation [OF r, of "\<lparr>ev_queue = ''q'', ev_payload = JObject [(''queue_head_age_seconds'', json_u64 90), (''threshold_seconds'', json_u64 60)], ev_ts = 1\<rparr>" 90 60]
    by auto
qed

section \<open>Fingerprints\<close>

text \<open>The fingerprint of a failure ignores its volatile parts: replacing, in a message of plain words,
  one time stamp, hash or long number, possibly within punctuation, by another of the same kind leaves the
  fingerprint as it was. Fingerprints of different classes of errors always differ.\<close>

theorem fingerprint_stable:
  assumes "list_all plain_ascii (ws @ [pre @ t @ post, pre @ t' @ post] @ vs)" and "[] \<notin> set (ws @ vs)"
    and "wrapped_in_punctuation pre t post" and "wrapped_in_punctuation pre t' post"
    and "token_kind t = Some k" and "token_kind t' = Some k"
  shows "fingerprint c (join '' '' (ws @ [pre @ t @ post] @ vs)) = fingerprint c (join '' '' (ws @ [pre @ t' @ post] @ vs)) \<and>
    (c \<noteq> d \<longrightarrow> fingerprint c (join '' '' (ws @ [pre @ t @ post] @ vs)) \<noteq> fingerprint d raw)"
proof
  have ne: "t \<noteq> []" "t' \<noteq> []" using assms(3,4) by (simp_all add: wrapped_in_punctuation_def)
  have "split_whitespace (join '' '' (ws @ [pre @ t @ post] @ vs)) = ws @ [pre @ t @ post] @ vs"
    "split_whitespace (join '' '' (ws @ [pre @ t' @ post] @ vs)) = ws @ [pre @ t' @ post] @ vs"
    using assms(1,2) ne by (intro split_whitespace_join; auto)+
  then have "normalize_for_fingerprint (join '' '' (ws @ [pre @ t @ post] @ vs)) =
      normalize_for_fingerprint (join '' '' (ws @ [pre @ t' @ post] @ vs))"
    unfolding normalize_for_fingerprint_def
    using normalize_wrapped [OF assms(3,5)] normalize_wrapped [OF assms(4,6)] by simp
  then show "fingerprint c (join '' '' (ws @ [pre @ t @ post] @ vs)) = fingerprint c (join '' '' (ws @ [pre @ t' @ post] @ vs))"
    by (rule fingerprint_same_normal)
  show "c \<noteq> d \<longrightarrow> fingerprint c (join '' '' (ws @ [pre @ t @ post] @ vs)) \<noteq> fingerprint d raw"
    using fingerprint_class by blast
qed

theorem fingerprint_stable_witness:
  "fingerprint DeliveryFailure ''commit (0a1b2c3d) failed'' = fingerprint DeliveryFailure ''commit (99ffee0011) failed''"
proof -
  have p: "list_all plain_ascii ([''commit''] @ [''('' @ ''0a1b2c3d'' @ '')'', ''('' @ ''99ffee0011'' @ '')''] @ [''failed''])"
    "wrapped_in_punctuation ''('' ''0a1b2c3d'' '')''" "wrapped_in_punctuation ''('' ''99ffee0011'' '')''"
    "token_kind ''0a1b2c3d'' = Some ''<sha>''" "token_kind ''99ffee0011'' = Some ''<sha>''"
    by code_simp+
  show ?thesis
    using fingerprint_stable [OF p(1) _ p(2-5), of DeliveryFailure DeliveryFailure "[]"] by simp
qed

end
