(* ===== verification/Path_Glob.thy ===== *)
theory Path_Glob
  imports Rust_Text "HOL-Library.While_Combinator"
begin

text \<open>
  The glob matcher of the file watcher (\<open>supervise/source_runner.rs\<close>). Text is a list of UTF-8 bytes, a
  character is its group of bytes. The matcher of one segment is the loop of the code, with its two cursors
  and the position of the last star; \<open>wildcard\<close> and \<open>segments_match\<close> are the reference semantics of
  \<open>?\<close>, \<open>*\<close> and \<open>**\<close>.
\<close>

section \<open>Characters of a string\<close>

definition is_continuation :: "char \<Rightarrow> bool" where
  "is_continuation c \<longleftrightarrow> 128 \<le> (of_char c :: nat) \<and> (of_char c :: nat) < 192"

text \<open>\<open>str::chars\<close>: a character is a byte with the continuation bytes behind it.\<close>

function chars_of :: "string \<Rightarrow> string list" where
  "chars_of [] = []"
| "chars_of (c # cs) = (c # takeWhile is_continuation cs) # chars_of (dropWhile is_continuation cs)"
  by pat_completeness auto
termination
  by (relation "measure length") (simp_all add: le_imp_less_Suc length_dropWhile_le)

section \<open>The matcher of one segment\<close>

abbreviation star :: string where
  "star \<equiv> ''*''"

abbreviation question :: string where
  "question \<equiv> ''?''"

record glob_cursor =
  gc_gi :: nat
  gc_ti :: nat
  gc_star :: "nat option"
  gc_star_text :: nat
  gc_failed :: bool

definition glob_start :: glob_cursor where
  "glob_start = \<lparr>gc_gi = 0, gc_ti = 0, gc_star = None, gc_star_text = 0, gc_failed = False\<rparr>"

definition glob_step :: "string list \<Rightarrow> string list \<Rightarrow> glob_cursor \<Rightarrow> glob_cursor" where
  "glob_step g t s =
     (if gc_gi s < length g \<and> (g ! gc_gi s = question \<or> g ! gc_gi s = t ! gc_ti s)
      then s\<lparr>gc_gi := gc_gi s + 1, gc_ti := gc_ti s + 1\<rparr>
      else if gc_gi s < length g \<and> g ! gc_gi s = star
      then s\<lparr>gc_star := Some (gc_gi s), gc_gi := gc_gi s + 1, gc_star_text := gc_ti s\<rparr>
      else case gc_star s of
          Some star_idx \<Rightarrow>
            s\<lparr>gc_gi := star_idx + 1, gc_star_text := gc_star_text s + 1, gc_ti := gc_star_text s + 1\<rparr>
        | None \<Rightarrow> s\<lparr>gc_failed := True\<rparr>)"

definition glob_continues :: "string list \<Rightarrow> glob_cursor \<Rightarrow> bool" where
  "glob_continues t s \<longleftrightarrow> gc_ti s < length t \<and> \<not> gc_failed s"

text \<open>\<open>None\<close> would be a loop that does not end. The trailing stars of the pattern are skipped at the end.\<close>

definition glob_segment_match :: "string \<Rightarrow> string \<Rightarrow> bool option" where
  "glob_segment_match glob txt =
     (let g = chars_of glob; t = chars_of txt in
      case while_option (glob_continues t) (glob_step g t) glob_start of
        None \<Rightarrow> None
      | Some s \<Rightarrow> Some (\<not> gc_failed s \<and> dropWhile (\<lambda>c. c = star) (drop (gc_gi s) g) = []))"

section \<open>Paths\<close>

definition normalize_separators :: "string \<Rightarrow> string" where
  "normalize_separators s = map (\<lambda>c. if c = CHR 0x5C then CHR ''/'' else c) s"

definition split_path_segments :: "string \<Rightarrow> string list" where
  "split_path_segments s = split_on (CHR ''/'') s"

text \<open>The short-circuit operators over computations that may not return.\<close>

definition lazy_and :: "bool option \<Rightarrow> bool option \<Rightarrow> bool option" where
  "lazy_and a b = (case a of None \<Rightarrow> None | Some False \<Rightarrow> Some False | Some True \<Rightarrow> b)"

definition lazy_or :: "bool option \<Rightarrow> bool option \<Rightarrow> bool option" where
  "lazy_or a b = (case a of None \<Rightarrow> None | Some False \<Rightarrow> b | Some True \<Rightarrow> Some True)"

function glob_segments_match :: "string list \<Rightarrow> string list \<Rightarrow> bool option" where
  "glob_segments_match [] path = Some (path = [])"
| "glob_segments_match (g # gs) path =
     (if g = ''**''
      then lazy_or (glob_segments_match gs path)
             (if path = [] then Some False else glob_segments_match (g # gs) (tl path))
      else if path = [] then Some False
      else lazy_and (glob_segment_match g (hd path)) (glob_segments_match gs (tl path)))"
  by pat_completeness auto
termination
  by (relation "measures [\<lambda>(gs, path). length gs + length path]") (auto simp: Suc_diff_le)

definition glob_matches_path :: "string \<Rightarrow> string \<Rightarrow> bool option" where
  "glob_matches_path glob path =
     glob_segments_match (split_path_segments (normalize_separators glob))
       (split_path_segments (normalize_separators path))"

definition glob_has_magic :: "string \<Rightarrow> bool" where
  "glob_has_magic glob \<longleftrightarrow> CHR ''*'' \<in> set glob \<or> CHR ''?'' \<in> set glob \<or> CHR ''['' \<in> set glob"

definition glob_has_recursive_wildcard :: "string \<Rightarrow> bool" where
  "glob_has_recursive_wildcard glob \<longleftrightarrow> ''**'' \<in> set (split_path_segments glob)"

text \<open>The directory part of the pattern before its first magic character.\<close>

definition literal_prefix_before_magic :: "string \<Rightarrow> string" where
  "literal_prefix_before_magic glob =
     (let prefix = takeWhile (\<lambda>c. c \<noteq> CHR ''*'' \<and> c \<noteq> CHR ''?'' \<and> c \<noteq> CHR ''['') glob
      in if CHR ''/'' \<notin> set prefix then ''.''
         else let idx = length prefix - length (takeWhile (\<lambda>c. c \<noteq> CHR ''/'') (rev prefix)) - 1
           in if idx = 0 then ''/'' else take idx prefix)"

section \<open>Reference semantics\<close>

fun wildcard :: "string list \<Rightarrow> string list \<Rightarrow> bool" where
  "wildcard [] t \<longleftrightarrow> t = []"
| "wildcard (p # ps) t \<longleftrightarrow>
     (if p = star then \<exists>n \<le> length t. wildcard ps (drop n t)
      else t \<noteq> [] \<and> (p = question \<or> p = hd t) \<and> wildcard ps (tl t))"

fun segments_match :: "string list \<Rightarrow> string list \<Rightarrow> bool" where
  "segments_match [] path \<longleftrightarrow> path = []"
| "segments_match (g # gs) path \<longleftrightarrow>
     (if g = ''**'' then \<exists>n \<le> length path. segments_match gs (drop n path)
      else path \<noteq> [] \<and> wildcard (chars_of g) (chars_of (hd path)) \<and> segments_match gs (tl path))"

section \<open>The segment matcher is correct\<close>

lemma wildcard_star_Cons:
  "wildcard (star # ps) (c # t) \<longleftrightarrow> wildcard ps (c # t) \<or> wildcard (star # ps) t"
proof -
  have "(\<exists>n \<le> Suc (length t). wildcard ps (drop n (c # t))) \<longleftrightarrow>
      wildcard ps (c # t) \<or> (\<exists>n \<le> length t. wildcard ps (drop n t))"
    by (metis drop0 drop_Suc_Cons le0 not0_implies_Suc not_less_eq_eq)
  then show ?thesis by simp
qed

lemma wildcard_star_Nil: "wildcard (star # ps) [] \<longleftrightarrow> wildcard ps []"
  by simp

lemma wildcard_Nil: "wildcard ps [] \<longleftrightarrow> dropWhile (\<lambda>c. c = star) ps = []"
  by (induction ps) auto

text \<open>A star absorbs more.\<close>

lemma wildcard_star_drop: "wildcard (star # ps) (drop m t) \<Longrightarrow> wildcard (star # ps) t"
proof (induction m arbitrary: t)
  case (Suc m)
  then show ?case
    by (cases t) (auto simp del: wildcard.simps simp: wildcard_star_Cons)
qed simp

text \<open>A stretch of the pattern without a star consumes one character each.\<close>

lemma wildcard_fixed:
  "star \<notin> set qs \<Longrightarrow> wildcard (qs @ ps) t \<Longrightarrow> length qs \<le> length t \<and> wildcard ps (drop (length qs) t)"
proof (induction qs arbitrary: t)
  case (Cons q qs)
  then show ?case by (cases t) auto
qed simp

text \<open>What the loop keeps. Since the last star the pattern has no other star and has moved as far as the
  text; a match exists iff one exists from the cursors or with the last star absorbing one character more.\<close>

definition cursor_ok :: "string list \<Rightarrow> string list \<Rightarrow> glob_cursor \<Rightarrow> bool" where
  "cursor_ok g t s \<longleftrightarrow> gc_gi s \<le> length g \<and> gc_ti s \<le> length t \<and> gc_star_text s \<le> gc_ti s \<and>
     (\<forall>k. gc_star s = Some k \<longrightarrow> k < gc_gi s \<and> g ! k = star \<and>
        (\<exists>qs. drop (Suc k) g = qs @ drop (gc_gi s) g \<and> star \<notin> set qs \<and> length qs = gc_ti s - gc_star_text s))"

definition cursor_match :: "string list \<Rightarrow> string list \<Rightarrow> glob_cursor \<Rightarrow> bool" where
  "cursor_match g t s \<longleftrightarrow> wildcard (drop (gc_gi s) g) (drop (gc_ti s) t) \<or>
     (\<exists>k. gc_star s = Some k \<and> gc_star_text s < length t \<and> wildcard (drop k g) (drop (Suc (gc_star_text s)) t))"

lemma drop_star: "k < length g \<Longrightarrow> g ! k = star \<Longrightarrow> drop k g = star # drop (Suc k) g"
  by (metis Cons_nth_drop_Suc)

lemma older_star:
  assumes "cursor_ok g t s" and "gc_star s = Some k" and "gc_star_text s < length t"
    and "wildcard (drop k g) (drop (Suc (gc_star_text s)) t)"
  obtains m where "gc_ti s < m" "m \<le> length t" "wildcard (drop (gc_gi s) g) (drop m t)"
proof -
  let ?d = "gc_ti s - gc_star_text s" and ?st = "gc_star_text s"
  obtain qs where k: "k < gc_gi s" "gc_gi s \<le> length g" "g ! k = star"
    and qs: "drop (Suc k) g = qs @ drop (gc_gi s) g" "star \<notin> set qs" "length qs = ?d" and le: "?st \<le> gc_ti s"
    using assms(1,2) by (auto simp: cursor_ok_def)
  from k have "drop k g = star # (qs @ drop (gc_gi s) g)" by (simp add: drop_star qs(1))
  with assms(4) obtain n where n: "n \<le> length t - Suc ?st" "wildcard (qs @ drop (gc_gi s) g) (drop (n + Suc ?st) t)"
    by auto
  from wildcard_fixed [OF qs(2) n(2)] have "?d \<le> length t - (n + Suc ?st)"
    and "wildcard (drop (gc_gi s) g) (drop (?d + (n + Suc ?st)) t)" by (simp_all add: qs(3))
  with n(1) assms(3) le show thesis by (intro that [of "?d + (n + Suc ?st)"]) auto
qed

text \<open>One step keeps this; it fails only where no match is left. The three kinds of step in turn.\<close>

definition step_kept :: "string list \<Rightarrow> string list \<Rightarrow> glob_cursor \<Rightarrow> glob_cursor \<Rightarrow> bool" where
  "step_kept g t s s' \<longleftrightarrow> cursor_ok g t s' \<and>
     (if gc_failed s' then \<not> cursor_match g t s else cursor_match g t s' \<longleftrightarrow> cursor_match g t s)"

lemma drop_text: "i < length t \<Longrightarrow> drop i t = t ! i # drop (Suc i) t"
  by (simp add: Cons_nth_drop_Suc)

lemma step_kept_char:
  assumes ok: "cursor_ok g t s" and go: "glob_continues t s"
    and char: "gc_gi s < length g" "g ! gc_gi s = question \<or> g ! gc_gi s = t ! gc_ti s" "g ! gc_gi s \<noteq> star"
  shows "step_kept g t s (glob_step g t s)"
proof -
  let ?gi = "gc_gi s" and ?ti = "gc_ti s" and ?st = "gc_star_text s"
  have ti: "?ti < length t" and live: "\<not> gc_failed s" using go by (simp_all add: glob_continues_def)
  note g = drop_text [OF char(1)] and t = drop_text [OF ti]
  have eq: "glob_step g t s = s\<lparr>gc_gi := ?gi + 1, gc_ti := ?ti + 1\<rparr>" using char by (simp add: glob_step_def)
  have "\<exists>qs. drop (Suc k) g = qs @ drop (Suc ?gi) g \<and> star \<notin> set qs \<and> length qs = Suc ?ti - ?st"
    if "gc_star s = Some k" for k
  proof -
    from ok that obtain qs where "drop (Suc k) g = qs @ drop ?gi g" "star \<notin> set qs" "length qs = ?ti - ?st" "?st \<le> ?ti"
      by (auto simp: cursor_ok_def)
    with char g show ?thesis by (intro exI [of _ "qs @ [g ! ?gi]"]) auto
  qed
  moreover have "wildcard (drop ?gi g) (drop ?ti t) \<longleftrightarrow> wildcard (drop (Suc ?gi) g) (drop (Suc ?ti) t)"
    using char(2,3) by (auto simp: g t)
  ultimately show ?thesis using ok ti char(1) live by (auto simp: step_kept_def eq cursor_ok_def cursor_match_def)
qed

lemma step_kept_star:
  assumes ok: "cursor_ok g t s" and go: "glob_continues t s" and plain: "t ! gc_ti s \<noteq> star"
    and star: "gc_gi s < length g" "g ! gc_gi s = star"
  shows "step_kept g t s (glob_step g t s)"
proof -
  let ?gi = "gc_gi s" and ?ti = "gc_ti s" and ?st = "gc_star_text s"
  have ti: "?ti < length t" and live: "\<not> gc_failed s" using go by (simp_all add: glob_continues_def)
  note g = drop_star [OF star] and t = drop_text [OF ti]
  have eq: "glob_step g t s = s\<lparr>gc_star := Some ?gi, gc_gi := ?gi + 1, gc_star_text := ?ti\<rparr>"
    using star plain by (auto simp: glob_step_def)
  have "wildcard (drop ?gi g) (drop ?ti t)"
    if "gc_star s = Some k" "?st < length t" "wildcard (drop k g) (drop (Suc ?st) t)" for k
  proof -
    from ok that obtain m where "?ti < m" "wildcard (drop ?gi g) (drop m t)" by (rule older_star)
    then have "wildcard (star # drop (Suc ?gi) g) (drop (m - ?ti) (drop ?ti t))" by (simp add: g del: wildcard.simps)
    then show ?thesis unfolding g by (rule wildcard_star_drop)
  qed
  moreover have "wildcard (drop ?gi g) (drop ?ti t) \<longleftrightarrow>
      wildcard (drop (Suc ?gi) g) (drop ?ti t) \<or> wildcard (drop ?gi g) (drop (Suc ?ti) t)"
    unfolding g t by (rule wildcard_star_Cons)
  ultimately have "cursor_match g t (glob_step g t s) \<longleftrightarrow> cursor_match g t s"
    using ti by (auto simp: eq cursor_match_def simp del: wildcard.simps)
  moreover have "cursor_ok g t (glob_step g t s)" using ok star ti by (auto simp: eq cursor_ok_def)
  ultimately show ?thesis using live by (simp add: step_kept_def eq)
qed

lemma step_kept_stuck:
  assumes ok: "cursor_ok g t s" and go: "glob_continues t s"
    and stuck: "gc_gi s < length g \<longrightarrow> g ! gc_gi s \<noteq> question \<and> g ! gc_gi s \<noteq> t ! gc_ti s \<and> g ! gc_gi s \<noteq> star"
  shows "step_kept g t s (glob_step g t s)"
proof -
  let ?gi = "gc_gi s" and ?ti = "gc_ti s" and ?st = "gc_star_text s"
  have ti: "?ti < length t" and live: "\<not> gc_failed s" using go by (simp_all add: glob_continues_def)
  note t = drop_text [OF ti]
  have no: "\<not> wildcard (drop ?gi g) (drop ?ti t)"
    using stuck by (cases "?gi < length g") (simp_all add: t drop_text [of ?gi g])
  show ?thesis
  proof (cases "gc_star s")
    case None
    with stuck have "glob_step g t s = s\<lparr>gc_failed := True\<rparr>" by (auto simp: glob_step_def)
    with None no ok show ?thesis by (simp add: step_kept_def cursor_match_def cursor_ok_def)
  next
    case (Some k)
    with stuck have eq: "glob_step g t s = s\<lparr>gc_gi := k + 1, gc_star_text := ?st + 1, gc_ti := ?st + 1\<rparr>"
      by (auto simp: glob_step_def)
    have k: "k < length g" "g ! k = star" "?st < length t" using ok Some ti by (auto simp: cursor_ok_def)
    note dk = drop_star [OF k(1,2)]
    have "wildcard (drop k g) (drop (Suc ?st) t) \<longleftrightarrow> wildcard (drop (Suc k) g) (drop (Suc ?st) t) \<or>
        Suc ?st < length t \<and> wildcard (drop k g) (drop (Suc (Suc ?st)) t)"
    proof (cases "Suc ?st < length t")
      case True
      then show ?thesis unfolding dk drop_text [OF True] by (simp only: wildcard_star_Cons) simp
    qed (simp add: dk)
    then have "cursor_match g t (glob_step g t s) \<longleftrightarrow> cursor_match g t s"
      using Some no k(3) by (simp add: eq cursor_match_def del: wildcard.simps)
    moreover have "cursor_ok g t (glob_step g t s)" using ok Some k by (auto simp: eq cursor_ok_def)
    ultimately show ?thesis using live by (simp add: step_kept_def eq)
  qed
qed

lemma glob_step_kept:
  assumes "cursor_ok g t s" and "glob_continues t s" and "star \<notin> set t"
  shows "step_kept g t s (glob_step g t s)"
proof -
  have "t ! gc_ti s \<noteq> star" using assms(2,3) nth_mem by (metis glob_continues_def)
  with assms show ?thesis
    by (cases "gc_gi s < length g \<and> g ! gc_gi s = star")
      (auto intro: step_kept_star step_kept_char step_kept_stuck)
qed

text \<open>The loop ends for every pattern and text: a new star or a character moves the pattern cursor, a step
  back moves the text position of the star.\<close>

definition cursor_bounds :: "string list \<Rightarrow> string list \<Rightarrow> glob_cursor \<Rightarrow> bool" where
  "cursor_bounds g t s \<longleftrightarrow> gc_gi s \<le> length g \<and> gc_star_text s \<le> gc_ti s \<and> (\<forall>k. gc_star s = Some k \<longrightarrow> k < length g)"

lemma glob_loop_ends: "\<exists>s. while_option (glob_continues t) (glob_step g t) glob_start = Some s"
proof (rule wf_rel_while_option_Some [where P = "cursor_bounds g t"])
  let ?R = "measures [\<lambda>s. if gc_failed s then 0 else 1 :: nat, \<lambda>s. length t - gc_star_text s, \<lambda>s. length g - gc_gi s]"
  show "wf ?R" by simp
  show "(glob_step g t s, s) \<in> ?R" if "cursor_bounds g t s \<and> glob_continues t s" for s
    using that by (auto simp: cursor_bounds_def glob_continues_def glob_step_def split: option.split)
  show "cursor_bounds g t (glob_step g t s)" if "cursor_bounds g t s \<and> glob_continues t s" for s
    using that by (auto simp: cursor_bounds_def glob_continues_def glob_step_def split: option.split)
  show "cursor_bounds g t glob_start" by (simp add: cursor_bounds_def glob_start_def)
qed

definition loop_kept :: "string list \<Rightarrow> string list \<Rightarrow> glob_cursor \<Rightarrow> bool" where
  "loop_kept g t s \<longleftrightarrow> cursor_ok g t s \<and> (if gc_failed s then \<not> wildcard g t else cursor_match g t s \<longleftrightarrow> wildcard g t)"

lemma glob_loop_correct:
  assumes plain: "star \<notin> set t" and run: "while_option (glob_continues t) (glob_step g t) glob_start = Some s"
  shows "\<not> gc_failed s \<and> dropWhile (\<lambda>c. c = star) (drop (gc_gi s) g) = [] \<longleftrightarrow> wildcard g t"
proof -
  have "loop_kept g t s"
    using _ run
  proof (rule while_option_rule)
    show "loop_kept g t glob_start" by (simp add: loop_kept_def cursor_ok_def cursor_match_def glob_start_def)
    show "loop_kept g t (glob_step g t c)" if kept: "loop_kept g t c" and go: "glob_continues t c" for c
      using glob_step_kept [OF _ go plain] kept go
      by (auto simp: loop_kept_def step_kept_def glob_continues_def split: if_splits)
  qed
  moreover have "wildcard (drop (gc_gi s) g) (drop (gc_ti s) t)"
    if match: "cursor_match g t s" and ok: "cursor_ok g t s" and "\<not> gc_failed s"
  proof -
    have "gc_ti s = length t" using while_option_stop [OF run] ok that(3) by (simp add: glob_continues_def cursor_ok_def)
    then show ?thesis using match older_star [OF ok] unfolding cursor_match_def by (metis leD)
  qed
  moreover have "\<not> gc_failed s \<Longrightarrow> length t \<le> gc_ti s" using while_option_stop [OF run] by (simp add: glob_continues_def)
  ultimately show ?thesis
    unfolding wildcard_Nil [symmetric] loop_kept_def by (metis cursor_match_def drop_all)
qed

lemma glob_segment_match_wildcard:
  "star \<notin> set (chars_of txt) \<Longrightarrow> glob_segment_match glob txt = Some (wildcard (chars_of glob) (chars_of txt))"
  using glob_loop_ends [of "chars_of txt" "chars_of glob"] glob_loop_correct [of "chars_of txt" "chars_of glob"]
  by (auto simp: glob_segment_match_def Let_def)

lemma glob_segment_match_ends: "\<exists>b. glob_segment_match glob txt = Some b"
  using glob_loop_ends [of "chars_of txt" "chars_of glob"] by (auto simp: glob_segment_match_def Let_def)

section \<open>The path matcher is correct\<close>

lemma glob_segments_match_ends: "\<exists>b. glob_segments_match gs path = Some b"
proof (induction gs path rule: glob_segments_match.induct)
  case (2 g gs path)
  obtain b where "glob_segment_match g (hd path) = Some b" using glob_segment_match_ends by blast
  with 2 show ?case by (cases b) (auto simp: lazy_and_def lazy_or_def split: option.splits bool.splits)
qed simp

lemma segments_match_deep:
  "segments_match (''**'' # gs) (p # path) \<longleftrightarrow> segments_match gs (p # path) \<or> segments_match (''**'' # gs) path"
proof -
  have "(\<exists>n \<le> Suc (length path). segments_match gs (drop n (p # path))) \<longleftrightarrow>
      segments_match gs (p # path) \<or> (\<exists>n \<le> length path. segments_match gs (drop n path))"
    by (metis drop0 drop_Suc_Cons le0 not0_implies_Suc not_less_eq_eq)
  then show ?thesis by simp
qed

lemma glob_segments_match_spec:
  "\<forall>p \<in> set path. star \<notin> set (chars_of p) \<Longrightarrow> glob_segments_match gs path = Some (segments_match gs path)"
proof (induction gs path rule: glob_segments_match.induct)
  case (2 g gs path)
  show ?case
  proof (cases path)
    case (Cons p path')
    with 2 show ?thesis
      by (simp add: lazy_and_def lazy_or_def glob_segment_match_wildcard segments_match_deep split: bool.split
        del: segments_match.simps(2)) simp
  qed (use 2 in \<open>auto simp: lazy_or_def split: bool.split\<close>)
qed simp

text \<open>A path without a star byte has no star segment character.\<close>

lemma star_chars: "star \<in> set (chars_of s) \<Longrightarrow> CHR ''*'' \<in> set s"
proof (induction s rule: chars_of.induct)
  case (2 c cs)
  have "set (dropWhile is_continuation cs) \<subseteq> set cs" by (auto dest: set_dropWhileD)
  with 2 show ?case by auto
qed simp

lemma glob_matches_path_spec:
  assumes "CHR ''*'' \<notin> set path"
  shows "glob_matches_path glob path =
    Some (segments_match (split_path_segments (normalize_separators glob)) (split_path_segments (normalize_separators path)))"
proof -
  have "CHR ''*'' \<notin> set (normalize_separators path)" using assms by (auto simp: normalize_separators_def split: if_splits)
  then have "\<forall>p \<in> set (split_path_segments (normalize_separators path)). star \<notin> set (chars_of p)"
    using star_chars split_on_parts unfolding split_path_segments_def by blast
  then show ?thesis unfolding glob_matches_path_def by (rule glob_segments_match_spec)
qed

end
