(* ===== verification/Source_Runner.thy ===== *)
theory Source_Runner
  imports Delivery_Router Path_Glob
begin

unbundle bit_operations_syntax

text \<open>
  The raisers (\<open>supervise/source_runner.rs\<close>): durations of the configuration, cron raisers and the
  file-watch raiser. Clocks are arguments, and so are the answers of the file system (whether a path is a
  file, its canonical path, its metadata, the files a scan finds). An \<open>Instant\<close> is a count of nanoseconds;
  its own range is not bounded in the model.
\<close>

section \<open>Durations\<close>

datatype duration_error =
    EmptyDuration
  | NotANumber string
  | BadDurationUnit string
  | DurationBoundaryPanic
  | DurationOverflowPanic

text \<open>\<open>parse_duration\<close>. Splitting before the last byte panics inside a character. The products wrap in a
  build without overflow checks and panic in one with them.\<close>

definition mul_secs :: "bool \<Rightarrow> u64 \<Rightarrow> nat \<Rightarrow> duration_error + u64" where
  "mul_secs checks n k =
     (if checks \<and> unat n * k \<ge> 18446744073709551616 then Inl DurationOverflowPanic else Inr (n * of_nat k))"

definition parse_duration :: "bool \<Rightarrow> string \<Rightarrow> duration_error + duration" where
  "parse_duration checks raw =
     (let s = trim raw in
      if s = [] then Inl EmptyDuration
      else if is_continuation (last s) then Inl DurationBoundaryPanic
      else case parse_u64 (butlast s) of
          None \<Rightarrow> Inl (NotANumber (butlast s))
        | Some n \<Rightarrow>
            rbind (if last s = CHR ''s'' then Inr n
                   else if last s = CHR ''m'' then mul_secs checks n 60
                   else if last s = CHR ''h'' then mul_secs checks n 3600
                   else Inl (BadDurationUnit [last s]))
              (\<lambda>secs. Inr (from_secs (unat secs))))"

section \<open>Cron raisers\<close>

record source_emission =
  se_event :: event
  se_source :: source_ref
  se_cron_payload :: "json option"

definition cron_payload_json :: "string \<Rightarrow> json" where
  "cron_payload_json name = json_object [(''raiser'', JString name)]"

definition cron_source_reference :: "string \<Rightarrow> u64 \<Rightarrow> string" where
  "cron_source_reference name slot = name @ ''/slot/'' @ dec (unat slot)"

definition cron_emission :: "string \<Rightarrow> string \<Rightarrow> u64 \<Rightarrow> u64 \<Rightarrow> source_emission" where
  "cron_emission name produces_q slot observed_at =
     \<lparr>se_event = \<lparr>ev_queue = produces_q, ev_payload = cron_payload_json name, ev_ts = observed_at\<rparr>,
      se_source = \<lparr>src_kind = Cron, src_reference = cron_source_reference name slot\<rparr>,
      se_cron_payload = Some (cron_payload_json name)\<rparr>"

definition deterministic_hash_u64 :: "string \<Rightarrow> u64" where
  "deterministic_hash_u64 bytes =
     foldl (\<lambda>hash byte. (hash XOR of_char byte) * 0x100000001b3) 0xcbf29ce484222325 bytes"

definition cron_first_fire_jitter :: "string \<Rightarrow> duration \<Rightarrow> duration" where
  "cron_first_fire_jitter name interval =
     (let bound = min interval (from_secs 30); bound_ms = clamp_u64 (as_millis bound)
      in if bound_ms = 0 then from_millis 0 else from_millis (unat (deterministic_hash_u64 name mod bound_ms)))"

definition cron_slot_unix_millis :: "duration \<Rightarrow> u64 \<Rightarrow> u64" where
  "cron_slot_unix_millis interval now_ms =
     (let interval_ms = clamp_u64 (as_millis interval)
      in if interval_ms = 0 then now_ms else (now_ms div interval_ms) * interval_ms)"

text \<open>One turn of the loop of \<open>spawn_cron\<close>: the emission, whose failure is only logged, and the next time
  to fire, where the ticks missed meanwhile coalesce.\<close>

definition envelope_of :: "source_emission \<Rightarrow> publish_envelope" where
  "envelope_of em =
     \<lparr>pe_event = se_event em, pe_source = Some (se_source em), pe_cron_payload = se_cron_payload em, pe_derived = None\<rparr>"

definition cron_fire ::
    "publish_env \<Rightarrow> u64 \<Rightarrow> u64 \<Rightarrow> string \<Rightarrow> duration \<Rightarrow> string \<Rightarrow> delivery_router \<Rightarrow> delivery_router" where
  "cron_fire E ts now_ms name interval produces_q rt =
     (let slot = cron_slot_unix_millis interval now_ms
      in fst (publish E (envelope_of (cron_emission name produces_q slot ts))
           (router_journal ''raiser_fired''
             [(''name'', name), (''queue'', produces_q), (''reason'', ''cron_tick'')] rt)))"

definition cron_start :: "bool \<Rightarrow> string \<Rightarrow> string \<Rightarrow> nat \<Rightarrow> duration_error + duration \<times> nat" where
  "cron_start checks name interval_str now =
     rbind (parse_duration checks interval_str) (\<lambda>interval. Inr (interval, now + cron_first_fire_jitter name interval))"

definition cron_next :: "duration \<Rightarrow> nat \<Rightarrow> nat \<Rightarrow> nat" where
  "cron_next interval next now = max (next + interval) now"

section \<open>The file watcher\<close>

record file_identity =
  fi_len :: u64
  fi_modified :: "int option"

type_synonym seen_files = "string \<Rightarrow> file_identity option"

record file_system =
  fs_is_file :: "string \<Rightarrow> bool"
  fs_canonicalize :: "string \<Rightarrow> string option"
  fs_metadata :: "string \<Rightarrow> file_identity option"

text \<open>The kinds of notification; the ones that may be a new file.\<close>

datatype notify_kind = KAny | KAccess | KCreate | KModifyName | KModifyOther | KRemove | KOther

fun is_file_creation_like :: "notify_kind \<Rightarrow> bool" where
  "is_file_creation_like KCreate = True"
| "is_file_creation_like KModifyName = True"
| "is_file_creation_like KAny = True"
| "is_file_creation_like KOther = True"
| "is_file_creation_like _ = False"

definition file_source_reference :: "string \<Rightarrow> file_identity \<Rightarrow> string" where
  "file_source_reference path identity =
     (let modified_ms = (case fi_modified identity of
            None \<Rightarrow> None
          | Some m \<Rightarrow> if m < 0 then None else Some (clamp_u64 (as_millis (nat m))))
      in case modified_ms of
           Some ms \<Rightarrow> path @ ''/len/'' @ dec (unat (fi_len identity)) @ ''/mtime/'' @ dec (unat ms)
         | None \<Rightarrow> path @ ''/len/'' @ dec (unat (fi_len identity)))"

definition file_emission :: "string \<Rightarrow> string \<Rightarrow> file_identity \<Rightarrow> u64 \<Rightarrow> source_emission" where
  "file_emission produces_q path identity ts =
     \<lparr>se_event = \<lparr>ev_queue = produces_q, ev_payload = json_object [(''path'', JString path)], ev_ts = ts\<rparr>,
      se_source = \<lparr>src_kind = File, src_reference = file_source_reference path identity\<rparr>,
      se_cron_payload = None\<rparr>"

definition emit_abs_path ::
    "publish_env \<Rightarrow> u64 \<Rightarrow> string \<Rightarrow> string \<Rightarrow> string \<Rightarrow> file_identity \<Rightarrow> delivery_router \<Rightarrow> delivery_router" where
  "emit_abs_path E ts name produces_q path identity rt =
     fst (publish E (envelope_of (file_emission produces_q path identity ts))
       (router_journal ''raiser_fired''
         [(''name'', name), (''queue'', produces_q), (''reason'', ''file_watch_match'')] rt))"

definition emit_changed_path ::
    "publish_env \<Rightarrow> u64 \<Rightarrow> file_system \<Rightarrow> string \<Rightarrow> string \<Rightarrow> string \<Rightarrow> seen_files \<times> delivery_router \<Rightarrow>
     seen_files \<times> delivery_router" where
  "emit_changed_path E ts fs name produces_q path st =
     (case fs_metadata fs path of
        None \<Rightarrow> st
      | Some identity \<Rightarrow>
          if fst st path = Some identity then st
          else ((fst st)(path \<mapsto> identity), emit_abs_path E ts name produces_q path identity (snd st)))"

text \<open>A scan emits the files that match, in the order the directory walk found them; a notification emits
  one path. The environment of each publication is given by its number.\<close>

fun emit_scan ::
    "(nat \<Rightarrow> publish_env) \<Rightarrow> (nat \<Rightarrow> u64) \<Rightarrow> nat \<Rightarrow> file_system \<Rightarrow> string \<Rightarrow> string \<Rightarrow> string list \<Rightarrow>
     seen_files \<times> delivery_router \<Rightarrow> seen_files \<times> delivery_router" where
  "emit_scan Es ts i fs name produces_q [] st = st"
| "emit_scan Es ts i fs name produces_q (path # paths) st =
     emit_scan Es ts (Suc i) fs name produces_q paths (emit_changed_path (Es i) (ts i) fs name produces_q path st)"

definition emit_if_match ::
    "publish_env \<Rightarrow> u64 \<Rightarrow> file_system \<Rightarrow> string \<Rightarrow> string \<Rightarrow> string \<Rightarrow> string \<Rightarrow> seen_files \<times> delivery_router \<Rightarrow>
     (seen_files \<times> delivery_router) option" where
  "emit_if_match E ts fs name glob produces_q path st =
     (if \<not> fs_is_file fs path then Some st
      else case fs_canonicalize fs path of
          None \<Rightarrow> Some st
        | Some path' \<Rightarrow>
            map_option (\<lambda>matched. if matched then emit_changed_path E ts fs name produces_q path' st else st)
              (glob_matches_path glob path'))"

datatype fixture_error = CannotCanonicalize string | NotAFile string | GlobMismatch string string | CannotStat string

definition file_watch_fixture_emission ::
    "file_system \<Rightarrow> string \<Rightarrow> string \<Rightarrow> string \<Rightarrow> u64 \<Rightarrow> (fixture_error + source_emission) option" where
  "file_watch_fixture_emission fs glob produces_q fixture observed_at =
     (case fs_canonicalize fs fixture of
        None \<Rightarrow> Some (Inl (CannotCanonicalize fixture))
      | Some path \<Rightarrow>
          if \<not> fs_is_file fs path then Some (Inl (NotAFile path))
          else map_option (\<lambda>matched.
              if \<not> matched then Inl (GlobMismatch path glob)
              else case fs_metadata fs path of
                  None \<Rightarrow> Inl (CannotStat path)
                | Some identity \<Rightarrow> Inr (file_emission produces_q path identity observed_at))
            (glob_matches_path glob path))"

section \<open>Durations agree with the validation\<close>

lemma digits_plain: "list_all is_digit s \<Longrightarrow> plain_ascii s"
  by (induction s) (auto simp: is_digit_def ascii_ws_def Let_def)

lemma parse_nat_plain: "parse_nat n s = Some v \<Longrightarrow> plain_ascii s"
  by (auto simp: parse_nat_def Let_def digits_plain ascii_ws_def is_digit_def split: list.splits if_splits)

lemma parse_nat_less: "parse_nat n s = Some v \<Longrightarrow> v < n"
  by (auto simp: parse_nat_def Let_def split: if_splits)

lemma parse_nat_bound: "parse_nat n s = Some v \<Longrightarrow> v < m \<Longrightarrow> parse_nat m s = Some v"
  by (auto simp: parse_nat_def Let_def split: if_splits)

text \<open>The factor of a unit, in seconds.\<close>

fun unit_secs :: "char \<Rightarrow> nat option" where
  "unit_secs c = (if c = CHR ''s'' then Some 1 else if c = CHR ''m'' then Some 60 else if c = CHR ''h'' then Some 3600 else None)"

lemma parse_duration_millisE:
  assumes "parse_duration_millis raw = Some ms"
  obtains num u v k where "raw = num @ [u]" "parse_nat (u128_max + 1) num = Some v" "v \<noteq> 0"
    "unit_secs u = Some k" "ms = min (v * (k * 1000)) u128_max"
  using assms unfolding parse_duration_millis_def sat_mul128_def
  by (cases raw rule: rev_cases) (auto split: option.splits if_splits)

lemma parse_duration_unit:
  assumes "plain_ascii (num @ [u])" and "parse_u64 num = Some n" and "unit_secs u = Some k"
    and "unat n * k < 18446744073709551616"
  shows "parse_duration checks (num @ [u]) = Inr (from_secs (unat n * k))"
proof -
  have "\<not> is_continuation u" using assms(3) by (auto simp: is_continuation_def split: if_splits)
  moreover have "unat (n * of_nat k) = unat n * k"
    using assms(4) by (simp add: unat_word_ariths take_bit_eq_mod unat_of_nat) (metis mod_less mod_mult_right_eq)
  ultimately show ?thesis
    using assms by (auto simp: parse_duration_def trim_plain mul_secs_def split: if_splits)
qed

lemma parse_duration_validated:
  assumes "parse_duration_millis raw = Some ms" and "ms < 18446744073709551616 * 1000"
  shows "parse_duration checks raw = Inr (from_millis ms)"
proof -
  from assms(1) obtain num u v k where raw: "raw = num @ [u]" and v: "parse_nat (u128_max + 1) num = Some v"
    and k: "unit_secs u = Some k" and ms: "ms = min (v * (k * 1000)) u128_max" by (rule parse_duration_millisE)
  have k0: "0 < k" using k by (auto split: if_splits)
  have eq: "ms = v * (k * 1000)" using ms assms(2) by (auto simp: u128_max_def min_def split: if_splits)
  then have small: "v * k < 18446744073709551616" using assms(2) by (simp add: mult.commute)
  have "v \<le> v * k" using k0 by (cases k) auto
  with small have "v < 18446744073709551616" by (rule order_le_less_trans [rotated])
  then have n: "parse_u64 num = Some (of_nat v)" "unat (of_nat v :: u64) = v"
    using parse_nat_bound [OF v] by (simp_all add: parse_u64_def unat_of_nat)
  have "plain_ascii (num @ [u])" using parse_nat_plain [OF v] k by (auto simp: ascii_ws_def split: if_splits)
  from parse_duration_unit [OF this n(1) k] small show ?thesis
    by (simp add: n(2) raw eq from_secs_def from_millis_def)
qed

section \<open>Cron slots\<close>

lemma cron_slot_bounds:
  assumes "0 < as_millis interval"
  shows "unat (cron_slot_unix_millis interval now_ms) \<le> unat now_ms"
    and "unat now_ms < unat (cron_slot_unix_millis interval now_ms) + as_millis interval"
    and "as_millis interval < 18446744073709551616 \<Longrightarrow> as_millis interval dvd unat (cron_slot_unix_millis interval now_ms)"
proof -
  let ?i = "min (as_millis interval) 18446744073709551615"
  have i: "unat (clamp_u64 (as_millis interval)) = ?i" by (rule unat_clamp_u64)
  then have "clamp_u64 (as_millis interval) \<noteq> 0" using assms by (metis unat_0 min_def not_less0 zero_neq_numeral)
  moreover have slot_fits: "unat now_ms div ?i mod 18446744073709551616 = unat now_ms div ?i"
      "unat now_ms div ?i * ?i mod 18446744073709551616 = unat now_ms div ?i * ?i"
    using unat_u64_less [of now_ms] div_times_less_eq_dividend [of "unat now_ms" ?i] div_le_dividend [of "unat now_ms" ?i]
    by (intro mod_less; linarith)+
  ultimately have slot: "unat (cron_slot_unix_millis interval now_ms) = unat now_ms div ?i * ?i"
    using i slot_fits by (simp add: cron_slot_unix_millis_def Let_def unat_word_ariths unat_div del: unat_u64_less)
  show "unat (cron_slot_unix_millis interval now_ms) \<le> unat now_ms" unfolding slot by simp
  have "unat now_ms < unat now_ms div ?i * ?i + ?i"
    using div_mult_mod_eq [of "unat now_ms" ?i] mod_less_divisor [of ?i "unat now_ms"] assms by linarith
  then show "unat now_ms < unat (cron_slot_unix_millis interval now_ms) + as_millis interval" unfolding slot by linarith
  show "as_millis interval dvd unat (cron_slot_unix_millis interval now_ms)" if "as_millis interval < 18446744073709551616"
    using that unfolding slot by simp
qed

section \<open>Scanning\<close>

lemma emit_scan_fixed:
  assumes "\<forall>path \<in> set paths. fs_metadata fs path = None \<or> fst st path = fs_metadata fs path"
  shows "emit_scan Es ts i fs name q paths st = st"
  using assms by (induction paths arbitrary: i) (auto simp: emit_changed_path_def split: option.splits)

lemma emit_scan_seen:
  "fst (emit_scan Es ts i fs name q paths st) p =
     (if p \<in> set paths \<and> fs_metadata fs p \<noteq> None then fs_metadata fs p else fst st p)"
  by (induction paths arbitrary: i st) (auto simp: emit_changed_path_def split: option.splits)

end
