(* ===== verification/Consumer.thy ===== *)
theory Consumer
  imports Source_Runner Raised_Frames Supervisor_Journal
begin

text \<open>
  The consumer of a department (\<open>supervise/consumer.rs\<close>): it leases due deliveries, runs a child for each,
  publishes what the child raises, settles the delivery by what became of the child, renews the leases of
  running children and looks after dead letters. The store of a consumer and the store of its router are
  the same object, so both are \<open>rt_store\<close> of the router; the journal is the router's as well.

  What the code reads from outside is in a \<open>consumer_env\<close>: every reading of the clock and every fresh token
  has an address, the path of calls that leads to it, so that no two readings are tied to each other. The
  child process itself (\<open>spawner.rs\<close>) is an argument: the lines it prints and how it ends. A publication
  that panics is treated like one that fails.
\<close>

section \<open>What the handlers read from outside\<close>

record consumer_env =
  ce_externs :: externs
  ce_json_len :: "json \<Rightarrow> nat option"
  ce_now :: "nat list \<Rightarrow> u64"
  ce_token :: "nat list \<Rightarrow> string"
  ce_contended :: "nat list \<Rightarrow> bool"
  ce_finished :: "nat list \<Rightarrow> string \<Rightarrow> bool"

text \<open>The environment of the \<open>i\<close>-th call made by a handler.\<close>

definition in_step :: "nat \<Rightarrow> consumer_env \<Rightarrow> consumer_env" where
  "in_step i V = V\<lparr>ce_now := \<lambda>p. ce_now V (i # p), ce_token := \<lambda>p. ce_token V (i # p),
     ce_contended := \<lambda>p. ce_contended V (i # p), ce_finished := \<lambda>p. ce_finished V (i # p)\<rparr>"

definition publish_env_of :: "consumer_env \<Rightarrow> publish_env" where
  "publish_env_of V =
     \<lparr>env_externs = ce_externs V, env_clock = \<lambda>i. ce_now V [i], env_json_len = ce_json_len V,
      env_contended = ce_contended V []\<rparr>"

section \<open>Constants, times, capacity\<close>

definition DISPATCH_INTERVAL :: duration where
  "DISPATCH_INTERVAL = from_secs 1"

definition DISPATCH_BATCH :: nat where
  "DISPATCH_BATCH = 16"

definition REDRIVE_COOLDOWN :: duration where
  "REDRIVE_COOLDOWN = from_secs 600"

definition REDRIVE_MAX :: u64 where
  "REDRIVE_MAX = 3"

definition DURATION_MAX :: duration where
  "DURATION_MAX = from_secs 18446744073709551615 + 999999999"

definition dur_sat_add :: "duration \<Rightarrow> duration \<Rightarrow> duration" where
  "dur_sat_add a b = min (a + b) DURATION_MAX"

definition retry_lease :: "duration \<Rightarrow> duration" where
  "retry_lease stall = dur_sat_add (dur_sat_add stall DISPATCH_INTERVAL) (from_secs 5)"

definition renew_interval :: "duration \<Rightarrow> duration" where
  "renew_interval stall = max (retry_lease stall div 2) (from_secs 1)"

definition next_renew_at_ms :: "u64 \<Rightarrow> duration \<Rightarrow> u64" where
  "next_renew_at_ms now_ms stall = sat_add now_ms (duration_millis (renew_interval stall))"

definition durable_dispatch_capacity :: "nat \<Rightarrow> nat \<Rightarrow> nat \<Rightarrow> nat" where
  "durable_dispatch_capacity running_len max_in_flight admission_burst =
     min (min (max_in_flight - running_len) admission_burst) DISPATCH_BATCH"

definition policy_from_decl :: "bool \<Rightarrow> retry_decl \<Rightarrow> duration_error + retry_policy" where
  "policy_from_decl checks rd =
     rbind (parse_duration checks (decl_base rd)) (\<lambda>b.
     rbind (parse_duration checks (decl_cap rd)) (\<lambda>c.
       Inr \<lparr>max_attempts = decl_max_attempts rd, base = b, cap = c\<rparr>))"

datatype should_exit = ExitYes | ExitNo

definition on_ephemeral_disconnect :: "bool \<Rightarrow> bool \<Rightarrow> should_exit \<times> bool" where
  "on_ephemeral_disconnect reliable_queues_empty ephemeral_open =
     (if reliable_queues_empty then (ExitYes, ephemeral_open) else (ExitNo, False))"

section \<open>Failures of a child\<close>

record delivery_failure =
  df_message :: string
  df_replayable :: bool

datatype io_error_kind = WouldBlock | OutOfMemory | OtherIoError

text \<open>A spawn error: its text and the I/O errors in its chain of causes, with their error numbers.\<close>

record spawn_error =
  sp_message :: string
  sp_io_chain :: "(io_error_kind \<times> int option) list"

record spawn_result =
  sr_pid :: nat
  sr_exit_code :: int
  sr_stdout :: string
  sr_stderr :: string
  sr_spawn_return_ms :: nat
  sr_first_pipe_read_ms :: "nat option"
  sr_wait_complete_ms :: nat
  sr_capture_complete_ms :: nat
  sr_elapsed_ms :: nat
  sr_log_path :: "string option"

definition show_int :: "int \<Rightarrow> string" where
  "show_int i = (if i < 0 then ''-'' @ dec (nat (- i)) else dec (nat i))"

definition failure_permanent :: "string \<Rightarrow> delivery_failure" where
  "failure_permanent message = \<lparr>df_message = message, df_replayable = False\<rparr>"

definition is_replayable_framework_exit_code :: "int \<Rightarrow> bool" where
  "is_replayable_framework_exit_code code \<longleftrightarrow> code = 124"

text \<open>The error numbers are those of Linux: EMFILE, ENFILE, EAGAIN (which is EWOULDBLOCK) and ENOMEM.\<close>

definition replayable_errnos :: "int list" where
  "replayable_errnos = [24, 23, 11, 11, 12]"

definition is_replayable_spawn_error :: "spawn_error \<Rightarrow> bool" where
  "is_replayable_spawn_error err \<longleftrightarrow>
     list_ex (\<lambda>(kind, errno). kind = WouldBlock \<or> kind = OutOfMemory \<or>
       (case errno of None \<Rightarrow> False | Some n \<Rightarrow> n \<in> set replayable_errnos)) (sp_io_chain err)"

definition failure_from_spawn_result :: "spawn_result \<Rightarrow> delivery_failure" where
  "failure_from_spawn_result result =
     \<lparr>df_message = ''exit='' @ show_int (sr_exit_code result) @ '' stderr='' @ sr_stderr result,
      df_replayable = is_replayable_framework_exit_code (sr_exit_code result)\<rparr>"

definition failure_from_spawn_error :: "spawn_error \<Rightarrow> delivery_failure" where
  "failure_from_spawn_error err =
     \<lparr>df_message = ''spawn error: '' @ sp_message err, df_replayable = is_replayable_spawn_error err\<rparr>"

text \<open>A busy lock (\<open>sdk_git.rs\<close>): the child ends with a code of its own and names the lock on its standard
  error.\<close>

definition LOCK_BUSY_EXIT_CODE :: int where
  "LOCK_BUSY_EXIT_CODE = 75"

definition LOCK_BUSY_FACT_PREFIX :: string where
  "LOCK_BUSY_FACT_PREFIX = ''event=with_lock_busy error_class=lock_busy lock=''"

definition LOCK_BUSY_FACT_SUFFIX :: string where
  "LOCK_BUSY_FACT_SUFFIX = '' outcome=deferred''"

definition strip_suffix :: "string \<Rightarrow> string \<Rightarrow> string option" where
  "strip_suffix p s = map_option rev (strip_prefix (rev p) (rev s))"

definition lock_busy_line :: "string \<Rightarrow> string option" where
  "lock_busy_line line =
     Option.bind (strip_prefix LOCK_BUSY_FACT_PREFIX line) (\<lambda>rest.
     Option.bind (strip_suffix LOCK_BUSY_FACT_SUFFIX rest) (\<lambda>lock.
       case validate_runtime_key lock of
         Inl _ \<Rightarrow> None
       | Inr validated \<Rightarrow> if validated = lock then Some lock else None))"

definition lock_busy_key_from_stderr :: "string \<Rightarrow> string option" where
  "lock_busy_key_from_stderr stderr =
     (case List.map_filter lock_busy_line (lines_of stderr) of [] \<Rightarrow> None | lock # _ \<Rightarrow> Some lock)"

text \<open>\<open>Some lock\<close> for a child that ended because of a lock, whose name may be unknown.\<close>

definition lock_busy_from_spawn_result :: "spawn_result \<Rightarrow> string option option" where
  "lock_busy_from_spawn_result result =
     (if sr_exit_code result = LOCK_BUSY_EXIT_CODE then Some (lock_busy_key_from_stderr (sr_stderr result)) else None)"

section \<open>Publishing what a child raises\<close>

datatype raised_error = ReservedQueue string | PublishFailed publish_error

definition reject_reserved_raised_queue :: "event \<Rightarrow> raised_error + unit" where
  "reject_reserved_raised_queue ev =
     (if ev_queue ev = FAILURE_FACT_QUEUE then Inl (ReservedQueue (ev_queue ev)) else Inr ())"

fun publish_raised_events ::
    "consumer_env \<Rightarrow> nat \<Rightarrow> event list \<Rightarrow> delivery_record \<Rightarrow> nat \<Rightarrow> delivery_router \<Rightarrow>
     delivery_router \<times> nat \<times> (raised_error + unit)" where
  "publish_raised_events V i [] parent next_ordinal rt = (rt, next_ordinal, Inr ())"
| "publish_raised_events V i (raised_ev # evs) parent next_ordinal rt =
     (case reject_reserved_raised_queue raised_ev of
        Inl e \<Rightarrow> (rt, next_ordinal, Inl e)
      | Inr _ \<Rightarrow>
          let env = \<lparr>pe_event = raised_ev\<lparr>ev_ts := observed_at_ms parent\<rparr>, pe_source = source parent,
                     pe_cron_payload = None,
                     pe_derived = Some \<lparr>parent_delivery_id = delivery_id parent, ordinal = next_ordinal\<rparr>\<rparr>;
              next_ordinal' = min (next_ordinal + 1) usize_max
          in case publish_outcome (publish_env_of (in_step i V)) env rt of
               (rt', Inl e) \<Rightarrow> (rt', next_ordinal', Inl (PublishFailed e))
             | (rt', Inr _) \<Rightarrow> publish_raised_events V (Suc i) evs parent next_ordinal' rt')"

definition publish_raised ::
    "consumer_env \<Rightarrow> raise_codec \<Rightarrow> string \<Rightarrow> string option \<Rightarrow> delivery_record \<Rightarrow> delivery_router \<Rightarrow>
     delivery_router \<times> (raised_error + unit)" where
  "publish_raised V C stdout token parent rt =
     (case token of
        None \<Rightarrow> (rt, Inr ())
      | Some tok \<Rightarrow>
          (case publish_raised_events (in_step 0 V) 0
                  (parse_authenticated_raised C (\<lambda>i. ce_now V [1, i]) stdout tok) parent 0 rt of
             (rt', _, res) \<Rightarrow> (rt', res)))"

fun publish_ephemeral_raised_events ::
    "consumer_env \<Rightarrow> nat \<Rightarrow> event list \<Rightarrow> delivery_router \<Rightarrow> delivery_router \<times> (raised_error + unit)" where
  "publish_ephemeral_raised_events V i [] rt = (rt, Inr ())"
| "publish_ephemeral_raised_events V i (raised_ev # evs) rt =
     (case reject_reserved_raised_queue raised_ev of
        Inl e \<Rightarrow> (rt, Inl e)
      | Inr _ \<Rightarrow>
          (case publish (publish_env_of (in_step i V))
                  \<lparr>pe_event = raised_ev, pe_source = None, pe_cron_payload = None, pe_derived = None\<rparr> rt of
             (rt', Inl e) \<Rightarrow> (rt', Inl (PublishFailed e))
           | (rt', Inr _) \<Rightarrow> publish_ephemeral_raised_events V (Suc i) evs rt'))"

definition publish_ephemeral_raised ::
    "consumer_env \<Rightarrow> raise_codec \<Rightarrow> string \<Rightarrow> string option \<Rightarrow> delivery_router \<Rightarrow>
     delivery_router \<times> (raised_error + unit)" where
  "publish_ephemeral_raised V C stdout token rt =
     (case token of
        None \<Rightarrow> (rt, Inr ())
      | Some tok \<Rightarrow>
          publish_ephemeral_raised_events (in_step 0 V) 0
            (parse_authenticated_raised C (\<lambda>i. ce_now V [1, i]) stdout tok) rt)"

section \<open>Failure facts and dead letters\<close>

text \<open>The publication of a fact or a dead letter may fail, which is only logged.\<close>

definition consumer_publish_failure_fact :: "consumer_env \<Rightarrow> event \<Rightarrow> delivery_router \<Rightarrow> delivery_router" where
  "consumer_publish_failure_fact V ev rt = fst (publish_failure_fact (publish_env_of V) ev rt)"

definition publish_dead_letter_to :: "consumer_env \<Rightarrow> dead_record \<Rightarrow> string \<Rightarrow> delivery_router \<Rightarrow> delivery_router" where
  "publish_dead_letter_to V d q rt =
     fst (publish (publish_env_of (in_step 0 V))
       \<lparr>pe_event = \<lparr>ev_queue = q, ev_payload = dead_record_payload d, ev_ts = ce_now V [1]\<rparr>,
        pe_source = Some \<lparr>src_kind = External, src_reference = ''dead/'' @ dr_delivery_id d\<rparr>,
        pe_cron_payload = None, pe_derived = None\<rparr> rt)"

definition publish_permanent_dead_letter :: "consumer_env \<Rightarrow> dead_record \<Rightarrow> delivery_router \<Rightarrow> delivery_router" where
  "publish_permanent_dead_letter V d rt =
     (case split_once (CHR ''.'') (dr_dept d) of
        None \<Rightarrow> if dr_queue d = ''dead_letter'' then rt else publish_dead_letter_to V d ''dead_letter'' rt
      | Some (namespace, _) \<Rightarrow>
          let dead_letter = namespace @ ''.dead_letter''
          in if dr_queue d = dead_letter then rt else publish_dead_letter_to V d dead_letter rt)"

definition record_lock_busy_fact ::
    "consumer_env \<Rightarrow> string \<Rightarrow> string \<Rightarrow> delivery_record option \<Rightarrow> string option \<Rightarrow> string \<Rightarrow>
     delivery_router \<Rightarrow> delivery_router" where
  "record_lock_busy_fact V dpt q rec lock outcome rt =
     consumer_publish_failure_fact (in_step 0 V) (lock_busy_failure_fact (ce_now V [1]) dpt q rec lock)
       (router_journal ''lock_busy''
         [(''dept'', dpt),
          (''delivery_id'', case rec of None \<Rightarrow> ''ephemeral'' | Some r \<Rightarrow> delivery_id r),
          (''origin_queue'', q), (''error_class'', ''lock_busy''),
          (''lock'', case lock of None \<Rightarrow> ''unknown'' | Some l \<Rightarrow> l), (''outcome'', outcome)] rt)"

section \<open>Settling a delivery\<close>

text \<open>The texts of errors, as they go to the journal and into failure messages.\<close>

record error_texts =
  et_store :: "store_error \<Rightarrow> string"
  et_raised :: "raised_error \<Rightarrow> string"

definition defer_lock_busy_record ::
    "consumer_env \<Rightarrow> delivery_record \<Rightarrow> string option \<Rightarrow> retry_policy \<Rightarrow> delivery_router \<Rightarrow> delivery_router" where
  "defer_lock_busy_record V r lock policy rt =
     (case rt_store rt of
        None \<Rightarrow> rt
      | Some db \<Rightarrow>
          let lock_label = (case lock of None \<Rightarrow> ''unknown'' | Some l \<Rightarrow> l);
              (rt1, outcome) =
                (case defer_lock_busy (ce_externs V) (delivery_id r) (lease_generation r) lock_label policy (ce_now V []) db of
                   Inr (db', DeferScheduled) \<Rightarrow> (rt\<lparr>rt_store := Some db'\<rparr>, ''deferred'')
                 | Inr (db', DeferStale) \<Rightarrow> (rt\<lparr>rt_store := Some db'\<rparr>, ''stale_or_missing'')
                 | Inr (db', DeferMissing) \<Rightarrow> (rt\<lparr>rt_store := Some db'\<rparr>, ''stale_or_missing'')
                 | Inl e \<Rightarrow> (rt, ''defer_failed''))
          in record_lock_busy_fact (in_step 0 V) (dept r) (queue r) (Some r) lock outcome rt1)"

definition settled_journal :: "string \<Rightarrow> delivery_record \<Rightarrow> string \<Rightarrow> delivery_router \<Rightarrow> delivery_router" where
  "settled_journal ev r reason rt =
     router_journal ev [(''dept'', dept r), (''delivery_id'', delivery_id r), (''reason'', reason)] rt"

definition retry_record ::
    "consumer_env \<Rightarrow> error_texts \<Rightarrow> retry_policy option \<Rightarrow> delivery_record \<Rightarrow> delivery_failure \<Rightarrow> delivery_router \<Rightarrow>
     delivery_router" where
  "retry_record V T retry_policy_opt r failure rt =
     (case rt_store rt of
        None \<Rightarrow> rt
      | Some db \<Rightarrow>
      case retry_policy_opt of
        None \<Rightarrow>
          settled_journal ''acked'' r ''dropped_no_retry_policy''
            (case ack (ce_externs V) (delivery_id r) (lease_generation r) db of
               Inl e \<Rightarrow> rt
             | Inr (db', _) \<Rightarrow> rt\<lparr>rt_store := Some db'\<rparr>)
      | Some policy \<Rightarrow>
      case retry (ce_externs V) (delivery_id r) (lease_generation r)
             \<lparr>rf_message = df_message failure, rf_replayable = df_replayable failure\<rparr> policy (ce_now V []) db of
        Inl e \<Rightarrow> settled_journal ''retried'' r (''failed:'' @ et_store T e) rt
      | Inr (db', oc) \<Rightarrow>
          let rt1 = rt\<lparr>rt_store := Some db'\<rparr> in
          case oc of
            DeadPendingRedrive \<Rightarrow> settled_journal ''dead_lettered'' r ''dead_pending_redrive'' rt1
          | PermanentDead \<Rightarrow>
              (case get_dead (delivery_id r) db' of
                 None \<Rightarrow> rt1
               | Some d \<Rightarrow>
                   publish_permanent_dead_letter (in_step 1 V) d
                     (consumer_publish_failure_fact (in_step 0 V)
                       (delivery_failure_fact (ce_now V [2]) r (df_message failure))
                       (settled_journal ''dead_lettered'' r ''permanent_dead'' rt1)))
          | Scheduled \<Rightarrow> settled_journal ''retried'' r (df_message failure) rt1
          | Stale \<Rightarrow> settled_journal ''retried'' r ''stale_or_missing'' rt1
          | Missing \<Rightarrow> settled_journal ''retried'' r ''stale_or_missing'' rt1)"

record completed_delivery =
  cd_record :: delivery_record
  cd_failure :: "delivery_failure option"
  cd_lock_busy :: "string option option"

definition finish_durable_record ::
    "consumer_env \<Rightarrow> error_texts \<Rightarrow> string \<Rightarrow> retry_policy option \<Rightarrow> retry_policy \<Rightarrow> completed_delivery \<Rightarrow>
     delivery_router \<Rightarrow> delivery_router" where
  "finish_durable_record V T dept_name retry_policy_opt lock_busy_backoff fin rt =
     (case rt_store rt of
        None \<Rightarrow> rt
      | Some db \<Rightarrow>
      case cd_lock_busy fin of
        Some lock \<Rightarrow> defer_lock_busy_record V (cd_record fin) lock lock_busy_backoff rt
      | None \<Rightarrow>
      case cd_failure fin of
        Some failure \<Rightarrow> retry_record V T retry_policy_opt (cd_record fin) failure rt
      | None \<Rightarrow>
          let acked = (\<lambda>reason rt1. router_journal ''acked''
                [(''dept'', dept_name), (''delivery_id'', delivery_id (cd_record fin)), (''reason'', reason)] rt1)
          in case ack (ce_externs V) (delivery_id (cd_record fin)) (lease_generation (cd_record fin)) db of
               Inr (db', True) \<Rightarrow> acked ''completed'' (rt\<lparr>rt_store := Some db'\<rparr>)
             | Inr (db', False) \<Rightarrow> acked ''stale_or_missing'' (rt\<lparr>rt_store := Some db'\<rparr>)
             | Inl e \<Rightarrow> acked (''failed:'' @ et_store T e) rt)"

text \<open>The entry used by test drivers, which give the child's exit code, its error and what it raised.\<close>

record test_durable_completion =
  td_exit_code :: int
  td_error :: "string option"
  td_raises :: "event list"

definition publish_test_raised_events ::
    "consumer_env \<Rightarrow> event list \<Rightarrow> delivery_record \<Rightarrow> delivery_router \<Rightarrow> delivery_router \<times> (raised_error + unit)" where
  "publish_test_raised_events V evs parent rt =
     (case publish_raised_events V 0 evs parent 0 rt of (rt', _, res) \<Rightarrow> (rt', res))"

definition finish_test_durable_record ::
    "consumer_env \<Rightarrow> error_texts \<Rightarrow> retry_policy option \<Rightarrow> delivery_record \<Rightarrow> test_durable_completion \<Rightarrow>
     delivery_router \<Rightarrow> delivery_router" where
  "finish_test_durable_record V T policy r completion rt =
     (let (rt1, failure) =
            (if td_exit_code completion = 0
             then (case publish_test_raised_events (in_step 0 V) (td_raises completion) r rt of
                     (rt', Inl e) \<Rightarrow> (rt', Some (failure_permanent (''raised publish error: '' @ et_raised T e)))
                   | (rt', Inr _) \<Rightarrow> (rt', None))
             else (rt, Some \<lparr>df_message = (case td_error completion of
                                Some m \<Rightarrow> m | None \<Rightarrow> ''exit='' @ show_int (td_exit_code completion)),
                             df_replayable = is_replayable_framework_exit_code (td_exit_code completion)\<rparr>));
          default_backoff = \<lparr>max_attempts = 1, base = DISPATCH_INTERVAL, cap = DISPATCH_INTERVAL\<rparr>
      in finish_durable_record (in_step 1 V) T (dept r) policy
           (case policy of Some p \<Rightarrow> p | None \<Rightarrow> default_backoff)
           \<lparr>cd_record = r, cd_failure = failure, cd_lock_busy = None\<rparr> rt1)"

end
