(* ===== verification/Consumer_Loop.thy ===== *)
theory Consumer_Loop
  imports Consumer
begin

text \<open>
  The loop of a consumer (\<open>supervise/consumer.rs\<close>): its state, the tasks it spawns and the arms of its
  \<open>select!\<close>, and the relation that interleaves them with each other, with the lines and the end of running
  children, and with the steps that other consumers make on the shared store. The channel on which finished
  tasks report delays a sender while it is full and loses nothing; here it is a queue.
\<close>

section \<open>Configuration and state\<close>

record consumer_config =
  cc_name :: string
  cc_decl :: department_decl
  cc_project_root :: string
  cc_package_roots :: "string list"
  cc_catalog :: "string + string"
  cc_event_json :: "event \<Rightarrow> string + string"
  cc_framework_binary :: string
  cc_log_dir :: string
  cc_stall_window :: duration
  cc_codex_permit_slots :: nat
  cc_max_in_flight :: nat
  cc_admission_burst :: nat
  cc_retry_policy :: "retry_policy option"
  cc_lock_busy_backoff :: retry_policy

definition reliable_queues :: "department_decl \<Rightarrow> string list" where
  "reliable_queues d = filter (\<lambda>q. \<not> list_ex (\<lambda>e. e = q) (ephemeral d)) (consumes d)"

definition ephemeral_queues :: "department_decl \<Rightarrow> string list" where
  "ephemeral_queues d = filter (\<lambda>q. list_ex (\<lambda>e. e = q) (ephemeral d)) (consumes d)"

record spawn_args_info =
  sa_framework_bin :: string
  sa_lua_full :: string
  sa_project_root :: string
  sa_graph_package_roots :: "string list"
  sa_catalog_snapshot :: string
  sa_event_json :: string
  sa_stall_window :: duration
  sa_codex_permit_slots :: nat
  sa_log_dir :: string
  sa_raised_auth_token :: "string option"
  sa_replay_scratch_bypass :: bool
  sa_owner_namespace :: string

definition spawn_args :: "consumer_config \<Rightarrow> string \<Rightarrow> event \<Rightarrow> string + spawn_args_info" where
  "spawn_args cfg token ev =
     rbind (cc_catalog cfg) (\<lambda>catalog.
     rbind (cc_event_json cfg ev) (\<lambda>event_json.
       Inr \<lparr>sa_framework_bin = cc_framework_binary cfg,
            sa_lua_full = (if is_absolute (lua (cc_decl cfg)) then lua (cc_decl cfg)
                           else path_join (cc_project_root cfg) (lua (cc_decl cfg))),
            sa_project_root = cc_project_root cfg, sa_graph_package_roots = cc_package_roots cfg,
            sa_catalog_snapshot = catalog, sa_event_json = event_json, sa_stall_window = cc_stall_window cfg,
            sa_codex_permit_slots = cc_codex_permit_slots cfg, sa_log_dir = cc_log_dir cfg,
            sa_raised_auth_token = Some token, sa_replay_scratch_bypass = False,
            sa_owner_namespace = owner_namespace (cc_decl cfg)\<rparr>))"

definition event_from_record :: "delivery_record \<Rightarrow> event" where
  "event_from_record r = \<lparr>ev_queue = queue r, ev_payload = payload r, ev_ts = observed_at_ms r\<rparr>"

definition requires_replay_scratch_bypass :: "delivery_record \<Rightarrow> bool" where
  "requires_replay_scratch_bypass r \<longleftrightarrow> lease_generation r > 1"

text \<open>A running delivery in the consumer's table; the task behind its handle, with what the observer of
  the child's output keeps; the task of an ephemeral event.\<close>

record running_delivery =
  rd_next_renew_at_ms :: u64
  rd_record :: delivery_record

record consumer_task =
  ct_record :: delivery_record
  ct_args :: spawn_args_info
  ct_next_ordinal :: nat
  ct_publish_error :: "string option"

record ephemeral_task =
  ep_origin_queue :: string
  ep_args :: spawn_args_info
  ep_raised_observed :: bool
  ep_publish_error :: "string option"

record consumer_state =
  cs_router :: delivery_router
  cs_running :: "running_delivery table"
  cs_tasks :: "consumer_task list"
  cs_completed :: "completed_delivery list"
  cs_ephemeral :: "ephemeral_task list"
  cs_ephemeral_open :: bool
  cs_wake_open :: bool
  cs_exited :: bool

text \<open>The start of a consumer. The two \<open>expect\<close>s on the declared durations panic; \<open>Inl\<close> is that panic.\<close>

definition consumer_policies ::
    "bool \<Rightarrow> department_decl \<Rightarrow> retry_policy \<Rightarrow> duration_error + duration \<times> retry_policy option \<times> retry_policy" where
  "consumer_policies checks d lock_busy_default_backoff =
     rbind (parse_duration checks (stall_window d)) (\<lambda>stall.
     rbind (case retry_of d of None \<Rightarrow> Inr None | Some rd \<Rightarrow> rbind (policy_from_decl checks rd) (\<lambda>p. Inr (Some p)))
       (\<lambda>policy. Inr (stall, policy, case policy of Some p \<Rightarrow> p | None \<Rightarrow> lock_busy_default_backoff)))"

definition consumer_start :: "string \<Rightarrow> department_decl \<Rightarrow> nat \<Rightarrow> delivery_router \<Rightarrow> consumer_state" where
  "consumer_start name d queue_capacity rt =
     \<lparr>cs_router = (if reliable_queues d = [] then rt
                   else register_reliable_wake name \<lparr>wk_capacity = queue_capacity, wk_pending = 0, wk_closed = False\<rparr> rt),
      cs_running = t_empty, cs_tasks = [], cs_completed = [], cs_ephemeral = [],
      cs_ephemeral_open = (ephemeral_queues d \<noteq> []), cs_wake_open = (reliable_queues d \<noteq> []), cs_exited = False\<rparr>"

section \<open>Dispatching\<close>

definition dispatch_record ::
    "consumer_env \<Rightarrow> error_texts \<Rightarrow> consumer_config \<Rightarrow> delivery_record \<Rightarrow> consumer_state \<Rightarrow> consumer_state" where
  "dispatch_record V T cfg r st =
     (if t_get (cs_running st) (delivery_id r) \<noteq> None then st
      else case spawn_args cfg (ce_token V []) (event_from_record r) of
          Inl err \<Rightarrow>
            st\<lparr>cs_router := retry_record (in_step 0 V) T (cc_retry_policy cfg) r
                 (failure_permanent (''build spawn args: '' @ err)) (cs_router st)\<rparr>
        | Inr args \<Rightarrow>
            st\<lparr>cs_tasks := cs_tasks st @ [\<lparr>ct_record = r,
                 ct_args = args\<lparr>sa_replay_scratch_bypass := requires_replay_scratch_bypass r\<rparr>,
                 ct_next_ordinal = 0, ct_publish_error = None\<rparr>],
               cs_running := t_insert (delivery_id r)
                 \<lparr>rd_next_renew_at_ms = next_renew_at_ms (ce_now V [1]) (cc_stall_window cfg), rd_record = r\<rparr>
                 (cs_running st)\<rparr>)"

fun dispatch_records ::
    "consumer_env \<Rightarrow> error_texts \<Rightarrow> consumer_config \<Rightarrow> nat \<Rightarrow> delivery_record list \<Rightarrow> consumer_state \<Rightarrow>
     consumer_state" where
  "dispatch_records V T cfg i [] st = st"
| "dispatch_records V T cfg i (r # rs) st =
     dispatch_records V T cfg (Suc i) rs (dispatch_record (in_step i V) T cfg r st)"

definition set_store :: "store_db \<Rightarrow> consumer_state \<Rightarrow> consumer_state" where
  "set_store db st = st\<lparr>cs_router := (cs_router st)\<lparr>rt_store := Some db\<rparr>\<rparr>"

definition dispatch_due ::
    "consumer_env \<Rightarrow> error_texts \<Rightarrow> consumer_config \<Rightarrow> consumer_state \<Rightarrow> consumer_state" where
  "dispatch_due V T cfg st =
     (case rt_store (cs_router st) of
        None \<Rightarrow> st
      | Some db \<Rightarrow>
          let capacity = durable_dispatch_capacity (length (cs_running st)) (cc_max_in_flight cfg) (cc_admission_burst cfg)
          in if capacity = 0 then st
             else case lease_for_dept_excluding (cc_name cfg) (ce_now V []) capacity
                         (retry_lease (cc_stall_window cfg)) (set (map fst (t_iter (cs_running st)))) db of
                 Inl e \<Rightarrow> st
               | Inr (db', leased) \<Rightarrow> dispatch_records (in_step 0 V) T cfg 0 leased (set_store db' st))"

section \<open>Leases and dead letters at a tick\<close>

definition renewals_due :: "consumer_env \<Rightarrow> running_delivery table \<Rightarrow> (string \<times> u64) list" where
  "renewals_due V running =
     map (\<lambda>(i, rd). (delivery_id (rd_record rd), lease_generation (rd_record rd)))
       (filter (\<lambda>(i, rd). \<not> ce_finished V [0] i \<and> rd_next_renew_at_ms rd \<le> ce_now V []) (t_iter running))"

definition apply_renewal ::
    "consumer_env \<Rightarrow> u64 \<Rightarrow> delivery_record table \<Rightarrow> running_delivery table \<Rightarrow> string \<times> u64 \<Rightarrow> running_delivery table" where
  "apply_renewal V next_renew renewed running renewal =
     (let i = fst renewal in
      case t_get running i of
        None \<Rightarrow> running
      | Some rd \<Rightarrow>
          if ce_finished V [1] i then running
          else case t_get renewed i of
              None \<Rightarrow> running
            | Some r \<Rightarrow>
                t_insert i (rd\<lparr>rd_record := (rd_record rd)\<lparr>lease_until_ms := lease_until_ms r,
                                               lease_generation := lease_generation r\<rparr>,
                               rd_next_renew_at_ms := next_renew\<rparr>) running)"

definition renew_running :: "consumer_env \<Rightarrow> consumer_config \<Rightarrow> consumer_state \<Rightarrow> consumer_state" where
  "renew_running V cfg st =
     (case rt_store (cs_router st) of
        None \<Rightarrow> st
      | Some db \<Rightarrow>
          let now = ce_now V [];
              lease_until = sat_add now (duration_millis (retry_lease (cc_stall_window cfg)));
              renewals = renewals_due V (cs_running st)
          in if renewals = [] then st
             else case renew_leases renewals lease_until db of
                 Inl e \<Rightarrow> st
               | Inr (db', renewed) \<Rightarrow>
                   (set_store db' st)\<lparr>cs_running :=
                      foldl (apply_renewal V (next_renew_at_ms now (cc_stall_window cfg)) renewed) (cs_running st) renewals\<rparr>)"

fun publish_permanent_dead_letters ::
    "consumer_env \<Rightarrow> nat \<Rightarrow> dead_record list \<Rightarrow> delivery_router \<Rightarrow> delivery_router" where
  "publish_permanent_dead_letters V i [] rt = rt"
| "publish_permanent_dead_letters V i (d # ds) rt =
     publish_permanent_dead_letters V (Suc i) ds (publish_permanent_dead_letter (in_step i V) d rt)"

definition maintain_dead_letters :: "consumer_env \<Rightarrow> delivery_router \<Rightarrow> delivery_router" where
  "maintain_dead_letters V rt =
     (case rt_store rt of
        None \<Rightarrow> rt
      | Some db \<Rightarrow>
          (case redrive_due_with_current_subscribers (ce_externs V)
                  \<lparr>max_redrives = REDRIVE_MAX, cooldown = REDRIVE_COOLDOWN\<rparr>
                  (single_reliable_subscribers_by_queue rt) (ce_now V []) DISPATCH_BATCH db of
             Inl e \<Rightarrow> rt
           | Inr (db', result) \<Rightarrow>
               publish_permanent_dead_letters (in_step 0 V) 0 (permanent_dead result)
                 (foldl (\<lambda>rt1 r. notify_reliable (dept r) rt1) (rt\<lparr>rt_store := Some db'\<rparr>) (redriven result))))"

definition on_tick :: "consumer_env \<Rightarrow> error_texts \<Rightarrow> consumer_config \<Rightarrow> consumer_state \<Rightarrow> consumer_state" where
  "on_tick V T cfg st =
     (let st1 = renew_running (in_step 0 V) cfg st;
          st2 = st1\<lparr>cs_router := maintain_dead_letters (in_step 1 V) (cs_router st1)\<rparr>
      in dispatch_due (in_step 2 V) T cfg st2)"

section \<open>Running a child\<close>

definition opt_path :: "string option \<Rightarrow> string" where
  "opt_path p = (case p of None \<Rightarrow> ''none'' | Some s \<Rightarrow> s)"

text \<open>The two journal lines of a child that ran, and the line of one that did not start.\<close>

definition report_spawn_result :: "string \<Rightarrow> spawn_result \<Rightarrow> delivery_router \<Rightarrow> delivery_router" where
  "report_spawn_result dept_name result rt =
     router_journal ''dept_child_exit''
       [(''dept'', dept_name), (''pid'', dec (sr_pid result)), (''exit_code'', show_int (sr_exit_code result)),
        (''spawn_return_ms'', dec (sr_spawn_return_ms result)),
        (''first_pipe_read_ms'', case sr_first_pipe_read_ms result of None \<Rightarrow> ''none'' | Some v \<Rightarrow> dec v),
        (''wait_complete_ms'', dec (sr_wait_complete_ms result)),
        (''capture_complete_ms'', dec (sr_capture_complete_ms result)),
        (''elapsed_ms'', dec (sr_elapsed_ms result)), (''log_path'', opt_path (sr_log_path result)),
        (''reason'', ''natural_exit'')]
       (router_journal ''dept_child_spawn''
         [(''dept'', dept_name), (''pid'', dec (sr_pid result)), (''exit_code'', ''pending''), (''elapsed_ms'', ''0''),
          (''log_path'', opt_path (sr_log_path result)), (''reason'', ''spawn_framework_run'')] rt)"

definition report_no_child :: "string \<Rightarrow> string \<Rightarrow> delivery_router \<Rightarrow> delivery_router" where
  "report_no_child dept_name reason rt =
     router_journal ''dept_child_exit''
       [(''dept'', dept_name), (''pid'', ''none''), (''exit_code'', ''none''), (''elapsed_ms'', ''0''),
        (''log_path'', ''none''), (''reason'', reason)] rt"

text \<open>The observer of the standard output, called for each line of a durable child.\<close>

definition observe_line ::
    "consumer_env \<Rightarrow> error_texts \<Rightarrow> raise_codec \<Rightarrow> string \<Rightarrow> consumer_task \<times> delivery_router \<Rightarrow>
     consumer_task \<times> delivery_router" where
  "observe_line V T C line task_rt =
     (case task_rt of (task, rt) \<Rightarrow>
      case sa_raised_auth_token (ct_args task) of
        None \<Rightarrow> (task, rt)
      | Some token \<Rightarrow>
          (case publish_raised_events (in_step 0 V) 0
                  (parse_authenticated_raised_line C (\<lambda>i. ce_now V [1, i]) line token)
                  (ct_record task) (ct_next_ordinal task) rt of
             (rt', next_ordinal, Inl e) \<Rightarrow>
               (task\<lparr>ct_next_ordinal := next_ordinal, ct_publish_error := Some (et_raised T e)\<rparr>, rt')
           | (rt', next_ordinal, Inr _) \<Rightarrow> (task\<lparr>ct_next_ordinal := next_ordinal\<rparr>, rt')))"

text \<open>What is left of \<open>run_durable_record\<close> when the child has ended.\<close>

definition raised_publish_failure :: "string \<Rightarrow> delivery_failure" where
  "raised_publish_failure err = failure_permanent (''raised publish error: '' @ err)"

definition task_exit ::
    "consumer_env \<Rightarrow> error_texts \<Rightarrow> raise_codec \<Rightarrow> string \<Rightarrow> spawn_error + spawn_result \<Rightarrow> consumer_task \<Rightarrow>
     delivery_router \<Rightarrow> delivery_router \<times> completed_delivery" where
  "task_exit V T C dept_name outcome task rt =
     (let complete = (\<lambda>failure. \<lparr>cd_record = ct_record task, cd_failure = failure, cd_lock_busy = None\<rparr>) in
      case outcome of
        Inl err \<Rightarrow>
          (report_no_child dept_name (''spawn_error:'' @ sp_message err) rt,
           complete (Some (failure_from_spawn_error err)))
      | Inr result \<Rightarrow>
          let rt1 = report_spawn_result dept_name result rt in
          case lock_busy_from_spawn_result result of
            Some lock \<Rightarrow> (rt1, \<lparr>cd_record = ct_record task, cd_failure = None, cd_lock_busy = Some lock\<rparr>)
          | None \<Rightarrow>
              if sr_exit_code result = 0
              then (case ct_publish_error task of
                      Some err \<Rightarrow> (rt1, complete (Some (raised_publish_failure err)))
                    | None \<Rightarrow>
                        if ct_next_ordinal task = 0
                        then (case publish_raised V C (sr_stdout result) (sa_raised_auth_token (ct_args task))
                                     (ct_record task) rt1 of
                                (rt2, Inl e) \<Rightarrow> (rt2, complete (Some (raised_publish_failure (et_raised T e))))
                              | (rt2, Inr _) \<Rightarrow> (rt2, complete None))
                        else (rt1, complete None))
              else (rt1, complete (Some (failure_from_spawn_result result))))"

section \<open>Ephemeral events\<close>

definition spawn_ephemeral :: "consumer_env \<Rightarrow> consumer_config \<Rightarrow> event \<Rightarrow> consumer_state \<Rightarrow> consumer_state" where
  "spawn_ephemeral V cfg ev st =
     (case spawn_args cfg (ce_token V []) ev of
        Inl err \<Rightarrow>
          st\<lparr>cs_router := report_no_child (cc_name cfg) (''build_spawn_args:'' @ err) (cs_router st)\<rparr>
      | Inr args \<Rightarrow>
          st\<lparr>cs_ephemeral := cs_ephemeral st @
               [\<lparr>ep_origin_queue = ev_queue ev, ep_args = args, ep_raised_observed = False, ep_publish_error = None\<rparr>]\<rparr>)"

definition observe_ephemeral_line ::
    "consumer_env \<Rightarrow> error_texts \<Rightarrow> raise_codec \<Rightarrow> string \<Rightarrow> ephemeral_task \<times> delivery_router \<Rightarrow>
     ephemeral_task \<times> delivery_router" where
  "observe_ephemeral_line V T C line task_rt =
     (case task_rt of (task, rt) \<Rightarrow>
      case sa_raised_auth_token (ep_args task) of
        None \<Rightarrow> (task, rt)
      | Some token \<Rightarrow>
          let evs = parse_authenticated_raised_line C (\<lambda>i. ce_now V [1, i]) line token;
              task1 = (if evs = [] then task else task\<lparr>ep_raised_observed := True\<rparr>)
          in case publish_ephemeral_raised_events (in_step 0 V) 0 evs rt of
               (rt', Inl e) \<Rightarrow> (task1\<lparr>ep_publish_error := Some (et_raised T e)\<rparr>, rt')
             | (rt', Inr _) \<Rightarrow> (task1, rt'))"

definition ephemeral_exit ::
    "consumer_env \<Rightarrow> raise_codec \<Rightarrow> string \<Rightarrow> spawn_error + spawn_result \<Rightarrow> ephemeral_task \<Rightarrow> delivery_router \<Rightarrow>
     delivery_router" where
  "ephemeral_exit V C dept_name outcome task rt =
     (case outcome of
        Inl err \<Rightarrow> report_no_child dept_name (''spawn_error:'' @ sp_message err) rt
      | Inr result \<Rightarrow>
          let rt1 = report_spawn_result dept_name result rt in
          case lock_busy_from_spawn_result result of
            Some lock \<Rightarrow>
              record_lock_busy_fact (in_step 0 V) dept_name (ep_origin_queue task) None lock ''ephemeral_dropped'' rt1
          | None \<Rightarrow>
              if sr_exit_code result \<noteq> 0 \<or> ep_publish_error task \<noteq> None \<or> ep_raised_observed task then rt1
              else fst (publish_ephemeral_raised (in_step 1 V) C (sr_stdout result)
                     (sa_raised_auth_token (ep_args task)) rt1))"

section \<open>The interleaving\<close>

text \<open>The arm for a completed task: the delivery leaves the table of running ones and is settled.\<close>

definition on_completed ::
    "consumer_env \<Rightarrow> error_texts \<Rightarrow> consumer_config \<Rightarrow> completed_delivery \<Rightarrow> consumer_state \<Rightarrow> consumer_state" where
  "on_completed V T cfg fin st =
     st\<lparr>cs_running := t_remove (delivery_id (cd_record fin)) (cs_running st),
        cs_router := finish_durable_record V T (cc_name cfg) (cc_retry_policy cfg) (cc_lock_busy_backoff cfg) fin
          (cs_router st)\<rparr>"

definition on_ephemeral :: "consumer_env \<Rightarrow> consumer_config \<Rightarrow> event option \<Rightarrow> consumer_state \<Rightarrow> consumer_state" where
  "on_ephemeral V cfg maybe_ev st =
     (case maybe_ev of
        None \<Rightarrow>
          (case on_ephemeral_disconnect (reliable_queues (cc_decl cfg) = []) (cs_ephemeral_open st) of
             (ExitYes, open) \<Rightarrow> st\<lparr>cs_ephemeral_open := open, cs_exited := True\<rparr>
           | (ExitNo, open) \<Rightarrow> st\<lparr>cs_ephemeral_open := open\<rparr>)
      | Some ev \<Rightarrow> if ev_queue ev \<in> set (ephemeral_queues (cc_decl cfg)) then spawn_ephemeral V cfg ev st else st)"

definition on_wake ::
    "consumer_env \<Rightarrow> error_texts \<Rightarrow> consumer_config \<Rightarrow> bool \<Rightarrow> consumer_state \<Rightarrow> consumer_state" where
  "on_wake V T cfg disconnected st =
     dispatch_due V T cfg (if disconnected then st\<lparr>cs_wake_open := False\<rparr> else st)"

inductive consumer_step ::
    "consumer_env \<Rightarrow> error_texts \<Rightarrow> raise_codec \<Rightarrow> consumer_config \<Rightarrow> consumer_state \<Rightarrow> consumer_state \<Rightarrow> bool"
  for V :: consumer_env and T :: error_texts and C :: raise_codec and cfg :: consumer_config where
  arm_ephemeral: "\<not> cs_exited st \<Longrightarrow> cs_ephemeral_open st \<Longrightarrow> consumer_step V T C cfg st (on_ephemeral V cfg maybe_ev st)"
| arm_wake: "\<not> cs_exited st \<Longrightarrow> cs_wake_open st \<Longrightarrow> consumer_step V T C cfg st (on_wake V T cfg disconnected st)"
| arm_tick: "\<not> cs_exited st \<Longrightarrow> reliable_queues (cc_decl cfg) \<noteq> [] \<Longrightarrow> consumer_step V T C cfg st (on_tick V T cfg st)"
| arm_completed: "\<not> cs_exited st \<Longrightarrow> cs_running st \<noteq> t_empty \<Longrightarrow> cs_completed st = fin # rest \<Longrightarrow>
    consumer_step V T C cfg st (on_completed V T cfg fin (st\<lparr>cs_completed := rest\<rparr>))"
| task_line: "cs_tasks st = before @ task # after \<Longrightarrow> observe_line V T C line (task, cs_router st) = (task', rt') \<Longrightarrow>
    consumer_step V T C cfg st (st\<lparr>cs_tasks := before @ task' # after, cs_router := rt'\<rparr>)"
| task_ends: "cs_tasks st = before @ task # after \<Longrightarrow>
    task_exit V T C (cc_name cfg) outcome task (cs_router st) = (rt', fin) \<Longrightarrow>
    consumer_step V T C cfg st
      (st\<lparr>cs_tasks := before @ after, cs_completed := cs_completed st @ [fin], cs_router := rt'\<rparr>)"
| ephemeral_line: "cs_ephemeral st = before @ etask # after \<Longrightarrow>
    observe_ephemeral_line V T C line (etask, cs_router st) = (etask', rt') \<Longrightarrow>
    consumer_step V T C cfg st (st\<lparr>cs_ephemeral := before @ etask' # after, cs_router := rt'\<rparr>)"
| ephemeral_ends: "cs_ephemeral st = before @ etask # after \<Longrightarrow>
    consumer_step V T C cfg st
      (st\<lparr>cs_ephemeral := before @ after, cs_router := ephemeral_exit V C (cc_name cfg) outcome etask (cs_router st)\<rparr>)"

end
