(* ===== verification/Consumer_Properties.thy ===== *)
theory Consumer_Properties
  imports Consumer_Loop Router_Properties
begin

text \<open>
  Lemmas on the consumer. Every handler moves the shared store by a run of store operations
  (\<open>router_moves\<close>, with a predicate on the operations of the run), and the loop keeps the invariant of the
  consumer's own tables (\<open>tables_inv\<close>).
\<close>

named_theorems router_moves_intros

section \<open>Moving the store\<close>

definition router_moves :: "externs \<Rightarrow> (store_label \<Rightarrow> bool) \<Rightarrow> delivery_router \<Rightarrow> delivery_router \<Rightarrow> bool" where
  "router_moves X P rt rt' \<longleftrightarrow> rt_subscriptions rt' = rt_subscriptions rt \<and> (rt_store rt = None \<longrightarrow> rt_store rt' = None) \<and>
     (\<forall>db. rt_store rt = Some db \<and> machine_inv X db \<longrightarrow>
        (\<exists>db' ls. rt_store rt' = Some db' \<and> run (store_step X) db ls db' \<and> list_all P ls))"

lemma router_movesI:
  assumes "rt_subscriptions rt' = rt_subscriptions rt" and "rt_store rt = None \<Longrightarrow> rt_store rt' = None"
    and "\<And>db. rt_store rt = Some db \<Longrightarrow> machine_inv X db \<Longrightarrow>
      \<exists>db' ls. rt_store rt' = Some db' \<and> run (store_step X) db ls db' \<and> list_all P ls"
  shows "router_moves X P rt rt'"
  using assms unfolding router_moves_def by simp

lemma router_moves_frame:
  assumes "rt_subscriptions rt' = rt_subscriptions rt" and "rt_store rt' = rt_store rt"
  shows "router_moves X P rt rt'"
proof (rule router_movesI)
  fix db
  assume "rt_store rt = Some db"
  with assms(2) show "\<exists>db' ls. rt_store rt' = Some db' \<and> run (store_step X) db ls db' \<and> list_all P ls"
    by (intro exI [of _ db] exI [of _ "[]"]) (simp add: run_Nil)
qed (use assms in simp_all)

lemma router_moves_refl [simp, intro]: "router_moves X P rt rt"
  by (rule router_moves_frame) simp_all

lemma router_moves_trans:
  assumes "router_moves X P a b" and "router_moves X P b c"
  shows "router_moves X P a c"
proof (rule router_movesI)
  fix db
  assume a: "rt_store a = Some db" "machine_inv X db"
  from assms(1) a obtain db1 ls where b: "rt_store b = Some db1" "run (store_step X) db ls db1" "list_all P ls"
    unfolding router_moves_def by blast
  from machine.run_inv [OF b(2) a(2)] assms(2) b(1) obtain db2 ks where
    c: "rt_store c = Some db2" "run (store_step X) db1 ks db2" "list_all P ks" unfolding router_moves_def by blast
  show "\<exists>db' ls. rt_store c = Some db' \<and> run (store_step X) db ls db' \<and> list_all P ls"
    using run_append [OF b(2) c(2)] c(1,3) b(3) by (intro exI [of _ db2] exI [of _ "ls @ ks"]) simp
qed (use assms in \<open>simp_all add: router_moves_def\<close>)

interpretation moving: composing_moves "router_moves X P" for X P
  by unfold_locales (auto intro: router_moves_trans)

lemma router_moves_mono:
  assumes "router_moves X P rt rt'" and "\<And>l. P l \<Longrightarrow> Q l"
  shows "router_moves X Q rt rt'"
proof -
  have "list_all P ls \<Longrightarrow> list_all Q ls" for ls using assms(2) by (simp add: list_all_iff)
  with assms(1) show ?thesis unfolding router_moves_def by blast
qed

lemma router_moves_journal [router_moves_intros]: "router_moves X P rt (router_journal ev fs rt)"
  by (rule router_moves_frame) simp_all

lemma router_moves_notify [router_moves_intros]: "router_moves X P rt (notify_reliable d rt)"
  by (rule router_moves_frame) simp_all

lemma router_moves_step:
  assumes "rt_store rt = Some db" and "store_step X l db db'" and "P l"
  shows "router_moves X P rt (rt\<lparr>rt_store := Some db'\<rparr>)"
proof (rule router_movesI)
  fix d
  assume "rt_store rt = Some d"
  with assms run_single [of "store_step X", OF assms(2)]
  show "\<exists>db'' ls. rt_store (rt\<lparr>rt_store := Some db'\<rparr>) = Some db'' \<and> run (store_step X) d ls db'' \<and> list_all P ls"
    by (intro exI [of _ db'] exI [of _ "[l]"]) simp
qed (use assms(1) in simp_all)

text \<open>A reachable database stays reachable, and what holds of all runs holds of the move.\<close>

lemma router_moves_reach:
  assumes "router_moves X P rt rt'" and "rt_store rt = Some db" and "reach (store_init X) (store_step X) db"
  obtains db' ls where "rt_store rt' = Some db'" "run (store_step X) db ls db'" "list_all P ls"
    "reach (store_init X) (store_step X) db'"
proof -
  from assms(1,2) machine.reach_inv [OF assms(3)] obtain db' ls where
    run: "rt_store rt' = Some db'" "run (store_step X) db ls db'" "list_all P ls" unfolding router_moves_def by blast
  from this reach_run [OF run(2) assms(3)] show thesis by (rule that)
qed

section \<open>Publishing\<close>

text \<open>The steps of a publication enqueue to the queue of the event. No acknowledging step is among them.\<close>

definition enqueues_to :: "string \<Rightarrow> store_label \<Rightarrow> bool" where
  "enqueues_to q l \<longleftrightarrow> (\<exists>r oc. l = LEnqueue r oc \<and> queue r = q)"

definition no_ack :: "store_label \<Rightarrow> bool" where
  "no_ack l \<longleftrightarrow> (\<forall>i gen. l \<noteq> LAck i gen True)"

lemma enqueues_no_ack: "enqueues_to q l \<Longrightarrow> no_ack l"
  by (auto simp: enqueues_to_def no_ack_def)

lemma sub_label_to: "sub_label env sub l \<Longrightarrow> enqueues_to (ev_queue (pe_event env)) l"
  by (auto simp: sub_label_def enqueues_to_def record_for_def)

lemma loop_labels_to: "loop_labels env subs ls \<Longrightarrow> list_all (enqueues_to (ev_queue (pe_event env))) ls"
  unfolding loop_labels_def list_all_length list_all2_conv_all_nth by (metis sub_label_to)

lemma publish_outcome_moves:
  "router_moves (env_externs E) (enqueues_to (ev_queue (pe_event env))) rt (fst (publish_outcome E env rt))"
proof -
  obtain rt' res where p: "publish_outcome E env rt = (rt', res)" by fastforce
  from p show ?thesis
  proof (cases rule: publish_outcome_split)
    case (1 ev)
    then show ?thesis by (simp add: p)
  next
    case (2 ev subs rt1 rt2 r)
    have q: "ev_queue ev = ev_queue (pe_event env)" using canonicalize_fields(1) [OF 2(1)] .
    have subs: "rt_subscriptions rt' = rt_subscriptions rt"
      using p publish_loop_frame [OF 2(6)] 2(5) by (auto simp: publish_outcome_def Let_def split: option.splits prod.splits sum.splits if_splits dest!: publish_loop_frame)
    have "\<exists>db' ls. rt_store rt' = Some db' \<and> run (store_step (env_externs E)) db ls db' \<and>
        list_all (enqueues_to (ev_queue (pe_event env))) ls" if "rt_store rt = Some db" "machine_inv (env_externs E) db" for db
      using publish_loop_run [OF 2(6) that(2)] that(1) 2(3,7) loop_labels_to [of "env\<lparr>pe_event := ev\<rparr>" subs] q by fastforce
    moreover have "rt_store rt = None \<longrightarrow> rt_store rt' = None" using publish_loop_frame [OF 2(6)] 2(3,7) by simp
    ultimately show ?thesis using subs by (simp add: p router_moves_def)
  qed
qed

lemma publish_fst: "fst (publish E env rt) = fst (publish_outcome E env rt)"
  by (simp add: publish_def split: prod.split sum.split publish_status.split)

lemma publish_moves: "router_moves (env_externs E) (enqueues_to (ev_queue (pe_event env))) rt (fst (publish E env rt))"
  unfolding publish_fst by (rule publish_outcome_moves)

lemma publish_failure_fact_moves:
  "router_moves (env_externs E) (enqueues_to FAILURE_FACT_QUEUE) rt (fst (publish_failure_fact E ev rt))"
  using publish_moves [of E "\<lparr>pe_event = ev, pe_source = Some (failure_fact_source ev), pe_cron_payload = None, pe_derived = None\<rparr>" rt]
  by (auto simp: publish_failure_fact_def split: option.split)

lemma env_in_step [simp]: "ce_externs (in_step i V) = ce_externs V" "env_externs (publish_env_of V) = ce_externs V"
  by (simp_all add: in_step_def publish_env_of_def)

section \<open>The handlers move the store\<close>

lemma fact_moves: "router_moves (ce_externs V) (enqueues_to FAILURE_FACT_QUEUE) rt (consumer_publish_failure_fact V ev rt)"
  using publish_failure_fact_moves [of "publish_env_of V" rt ev] by (simp add: consumer_publish_failure_fact_def)

lemma dead_letter_to_moves: "router_moves (ce_externs V) (enqueues_to q) rt (publish_dead_letter_to V d q rt)"
  unfolding publish_dead_letter_to_def
  by (rule router_moves_mono, rule publish_moves [of "publish_env_of (in_step 0 V)", simplified]) simp

lemma dead_letter_moves:
  "router_moves (ce_externs V) (\<lambda>l. \<exists>q. q \<noteq> dr_queue d \<and> enqueues_to q l) rt (publish_permanent_dead_letter V d rt)"
proof -
  have to: "router_moves (ce_externs V) (\<lambda>l. \<exists>q. q \<noteq> dr_queue d \<and> enqueues_to q l) rt
      (if dr_queue d = q then rt else publish_dead_letter_to V d q rt)" for q
  proof (cases "dr_queue d = q")
    case False
    then show ?thesis by (simp only: if_False) (rule router_moves_mono [OF dead_letter_to_moves], metis)
  qed simp
  show ?thesis
  proof (cases "split_once (CHR ''.'') (dr_dept d)")
    case None
    then show ?thesis using to [of "''dead_letter''"] by (simp only: publish_permanent_dead_letter_def option.case)
  next
    case (Some nd)
    then show ?thesis using to [of "fst nd @ ''.dead_letter''"]
      by (cases nd) (simp only: publish_permanent_dead_letter_def option.case prod.case Let_def fst_conv)
  qed
qed

lemma fact_no_ack [router_moves_intros]:
  "router_moves (ce_externs V) no_ack rt (consumer_publish_failure_fact V ev rt)"
  using fact_moves enqueues_no_ack by (rule router_moves_mono)

lemma dead_letter_no_ack [router_moves_intros]:
  "router_moves (ce_externs V) no_ack rt (publish_permanent_dead_letter V d rt)"
  using dead_letter_moves by (rule router_moves_mono) (auto intro: enqueues_no_ack)

lemma settled_journal_moves [router_moves_intros]: "router_moves X P rt (settled_journal ev r reason rt)"
  unfolding settled_journal_def by (rule router_moves_journal)

lemma lock_busy_fact_moves [router_moves_intros]:
  "router_moves (ce_externs V) no_ack rt (record_lock_busy_fact V dpt q rec lock outcome rt)"
  unfolding record_lock_busy_fact_def
  using router_moves_trans [OF router_moves_journal fact_no_ack [of "in_step 0 V", unfolded env_in_step]] .

lemma defer_moves: "router_moves (ce_externs V) no_ack rt (defer_lock_busy_record V r lock policy rt)"
proof (cases "rt_store rt")
  case (Some db)
  let ?lock = "case lock of None \<Rightarrow> ''unknown'' | Some l \<Rightarrow> l"
  let ?d = "defer_lock_busy (ce_externs V) (delivery_id r) (lease_generation r) ?lock policy (ce_now V []) db"
  have step: "router_moves (ce_externs V) no_ack rt (rt\<lparr>rt_store := Some db'\<rparr>)" if "?d = Inr (db', oc)" for db' oc
    using Some step_defer [OF that] by (rule router_moves_step) (simp add: no_ack_def)
  have fact: "router_moves (ce_externs V) no_ack rt1 (record_lock_busy_fact (in_step 0 V) (dept r) (queue r) (Some r) lock oc rt1)"
    for rt1 oc using lock_busy_fact_moves [of "in_step 0 V"] by simp
  show ?thesis
    unfolding defer_lock_busy_record_def Some using step fact
    by (cases ?d) (auto split: lock_busy_defer_outcome.split intro: router_moves_trans)
qed (simp add: defer_lock_busy_record_def)

text \<open>A failure is retried: no delivery is acknowledged if the department has a retry policy.\<close>

lemma retry_record_moves:
  "router_moves (ce_externs V) (\<lambda>l. policy \<noteq> None \<longrightarrow> no_ack l) rt (retry_record V T policy r failure rt)"
proof (cases "rt_store rt")
  case (Some db)
  let ?X = "ce_externs V" and ?P = "\<lambda>l. policy \<noteq> None \<longrightarrow> no_ack l"
  have keep: "router_moves ?X no_ack a b \<Longrightarrow> router_moves ?X ?P a b" for a b by (erule router_moves_mono) simp
  note journal = router_moves_trans [OF _ settled_journal_moves]
  show ?thesis
  proof (cases policy)
    case None
    have "router_moves ?X ?P rt (rt\<lparr>rt_store := Some db'\<rparr>)"
      if "ack ?X (delivery_id r) (lease_generation r) db = Inr (db', ok)" for db' ok
      using Some step_ack [OF that] by (rule router_moves_step) (simp add: None)
    then show ?thesis unfolding retry_record_def Some None
      by (auto intro!: journal split: sum.split)
  next
    case (Some p)
    let ?r = "retry ?X (delivery_id r) (lease_generation r)
      \<lparr>rf_message = df_message failure, rf_replayable = df_replayable failure\<rparr> p (ce_now V []) db"
    have step: "router_moves ?X no_ack rt (rt\<lparr>rt_store := Some db'\<rparr>)" if "?r = Inr (db', oc)" for db' oc
      using \<open>rt_store rt = Some db\<close> step_retry [OF that] by (rule router_moves_step) (simp add: no_ack_def)
    have dead: "router_moves ?X no_ack rt a \<Longrightarrow>
        router_moves ?X no_ack rt (publish_permanent_dead_letter (in_step 1 V) d (consumer_publish_failure_fact (in_step 0 V) ev a))"
      for a d ev
      by (rule router_moves_trans [OF _ router_moves_trans [OF fact_no_ack [of "in_step 0 V", unfolded env_in_step]
        dead_letter_no_ack [of "in_step 1 V", unfolded env_in_step]]])
    have "router_moves ?X no_ack rt (retry_record V T policy r failure rt)"
    proof (cases ?r)
      case (Inl e)
      then show ?thesis unfolding retry_record_def Some \<open>rt_store rt = Some db\<close> by (simp add: settled_journal_moves)
    next
      case (Inr x)
      then obtain db' oc where run: "?r = Inr (db', oc)" by (cases x) simp
      note moved = step [OF this]
      show ?thesis unfolding retry_record_def Some \<open>rt_store rt = Some db\<close> option.case run sum.case prod.case Let_def
        using moved journal [OF moved] dead [OF journal [OF moved]] by (simp split: retry_outcome.split option.split del: One_nat_def)
    qed
    then show ?thesis by (rule keep)
  qed
qed (simp add: retry_record_def)

text \<open>A completed delivery is acknowledged only if its child succeeded, or failed in a department without
  a retry policy.\<close>

definition settles_by_ack :: "retry_policy option \<Rightarrow> completed_delivery \<Rightarrow> bool" where
  "settles_by_ack policy fin \<longleftrightarrow> cd_lock_busy fin = None \<and> (cd_failure fin = None \<or> policy = None)"

lemma finish_moves:
  "router_moves (ce_externs V) (\<lambda>l. settles_by_ack policy fin \<or> no_ack l) rt
     (finish_durable_record V T name policy backoff fin rt)"
proof (cases "rt_store rt")
  case (Some db)
  let ?P = "\<lambda>l. settles_by_ack policy fin \<or> no_ack l"
  consider (busy) lock where "cd_lock_busy fin = Some lock"
    | (failed) failure where "cd_lock_busy fin = None" "cd_failure fin = Some failure"
    | (succeeded) "cd_lock_busy fin = None" "cd_failure fin = None" by fastforce
  then show ?thesis
  proof cases
    case busy
    then show ?thesis unfolding finish_durable_record_def Some option.case
      by (simp only: option.case) (rule router_moves_mono [OF defer_moves], simp)
  next
    case failed
    then show ?thesis unfolding finish_durable_record_def Some option.case
      by (simp only: option.case) (rule router_moves_mono [OF retry_record_moves], auto simp: settles_by_ack_def failed)
  next
    case succeeded
    have step: "router_moves (ce_externs V) ?P rt (rt\<lparr>rt_store := Some db'\<rparr>)"
      if "ack (ce_externs V) (delivery_id (cd_record fin)) (lease_generation (cd_record fin)) db = Inr (db', ok)" for db' ok
      using Some step_ack [OF that] by (rule router_moves_step) (simp add: settles_by_ack_def succeeded)
    then show ?thesis unfolding finish_durable_record_def Some option.case succeeded Let_def
      by (auto intro: router_moves_trans [OF _ router_moves_journal] router_moves_journal split: sum.split bool.split)
  qed
qed (simp add: finish_durable_record_def)

text \<open>What a child raises is never published to the reserved queue of failure facts.\<close>

definition enqueues_unreserved :: "store_label \<Rightarrow> bool" where
  "enqueues_unreserved l \<longleftrightarrow> (\<exists>q. q \<noteq> FAILURE_FACT_QUEUE \<and> enqueues_to q l)"

lemma publish_outcome_unreserved:
  assumes "ev_queue (pe_event env) \<noteq> FAILURE_FACT_QUEUE"
  shows "router_moves (env_externs E) enqueues_unreserved rt (fst (publish_outcome E env rt))"
  using publish_outcome_moves by (rule router_moves_mono) (use assms in \<open>auto simp: enqueues_unreserved_def\<close>)

lemma raised_events_moves:
  "router_moves (ce_externs V) enqueues_unreserved rt (fst (publish_raised_events V i evs parent n rt))"
proof (induction V i evs parent n rt rule: publish_raised_events.induct)
  case (2 V i ev evs parent n rt)
  let ?E = "publish_env_of (in_step i V)"
  let ?env = "\<lparr>pe_event = ev\<lparr>ev_ts := observed_at_ms parent\<rparr>, pe_source = source parent, pe_cron_payload = None,
    pe_derived = Some \<lparr>parent_delivery_id = delivery_id parent, ordinal = n\<rparr>\<rparr>"
  show ?case
  proof (cases "ev_queue ev = FAILURE_FACT_QUEUE")
    case False
    obtain rt' res where p: "publish_outcome ?E ?env rt = (rt', res)" by fastforce
    have first: "router_moves (ce_externs V) enqueues_unreserved rt rt'"
      using publish_outcome_unreserved [of ?env ?E rt] False p by simp
    show ?thesis
    proof (cases res)
      case (Inl e)
      with first p False show ?thesis by (simp add: reject_reserved_raised_queue_def Let_def)
    next
      case (Inr st)
      then have "router_moves (ce_externs V) enqueues_unreserved rt'
          (fst (publish_raised_events V (Suc i) evs parent (min (n + 1) usize_max) rt'))"
        using 2 [of "()" ?env "min (n + 1) usize_max" rt' res st] p False by (simp add: reject_reserved_raised_queue_def)
      with first p False Inr show ?thesis
        by (auto simp: reject_reserved_raised_queue_def Let_def intro: router_moves_trans)
    qed
  qed (simp add: reject_reserved_raised_queue_def)
qed simp

lemma ephemeral_raised_moves:
  "router_moves (ce_externs V) enqueues_unreserved rt (fst (publish_ephemeral_raised_events V i evs rt))"
proof (induction V i evs rt rule: publish_ephemeral_raised_events.induct)
  case (2 V i ev evs rt)
  let ?E = "publish_env_of (in_step i V)"
  let ?env = "\<lparr>pe_event = ev, pe_source = None, pe_cron_payload = None, pe_derived = None\<rparr>"
  show ?case
  proof (cases "ev_queue ev = FAILURE_FACT_QUEUE")
    case False
    obtain rt' res where p: "publish ?E ?env rt = (rt', res)" by fastforce
    have first: "router_moves (ce_externs V) enqueues_unreserved rt rt'"
      using publish_outcome_unreserved [of ?env ?E rt] False p publish_fst [of ?E ?env rt] by simp
    show ?thesis
    proof (cases res)
      case (Inr u)
      then have "router_moves (ce_externs V) enqueues_unreserved rt' (fst (publish_ephemeral_raised_events V (Suc i) evs rt'))"
        using 2 p False by (simp add: reject_reserved_raised_queue_def)
      with first p False Inr show ?thesis by (auto simp: reject_reserved_raised_queue_def intro: router_moves_trans)
    qed (use first p False in \<open>simp add: reject_reserved_raised_queue_def\<close>)
  qed (simp add: reject_reserved_raised_queue_def)
qed simp

end
