(* ===== verification/Consumer_Machine.thy ===== *)
theory Consumer_Machine
  imports Consumer_Properties Store_Lease_Spec
begin

text \<open>
  The consumer as a transition system: its own steps, and the moves that other consumers, raisers and
  sweepers make on the shared router and store in between. The invariant ties the consumer's table of
  running deliveries to the tasks that exist for them.
\<close>

section \<open>Steps and moves of the store\<close>

lemma publish_raised_moves:
  "router_moves (ce_externs V) enqueues_unreserved rt (fst (publish_raised V C stdout token parent rt))"
  using raised_events_moves [of "in_step 0 V"]
  by (auto simp: publish_raised_def split: option.split prod.split) (metis fst_conv)

lemma publish_ephemeral_raised_moves:
  "router_moves (ce_externs V) enqueues_unreserved rt (fst (publish_ephemeral_raised V C stdout token rt))"
  using ephemeral_raised_moves [of "in_step 0 V"] by (auto simp: publish_ephemeral_raised_def split: option.split)

lemma observe_line_moves:
  assumes "observe_line V T C line (task, rt) = (task', rt')"
  shows "router_moves (ce_externs V) enqueues_unreserved rt rt'" and "ct_record task' = ct_record task"
    and "ct_args task' = ct_args task"
proof -
  have moves: "router_moves (ce_externs V) enqueues_unreserved rt a"
    if "publish_raised_events (in_step 0 V) 0 evs r n rt = (a, b)" for evs r n a b
    using raised_events_moves [of "in_step 0 V" rt 0 evs r n] that by simp
  show "router_moves (ce_externs V) enqueues_unreserved rt rt'"
    using assms moves by (auto simp: observe_line_def split: option.splits prod.splits sum.splits)
  show "ct_record task' = ct_record task" "ct_args task' = ct_args task"
    using assms by (auto simp: observe_line_def split: option.splits prod.splits sum.splits)
qed

lemma observe_ephemeral_line_moves:
  assumes "observe_ephemeral_line V T C line (task, rt) = (task', rt')"
  shows "router_moves (ce_externs V) enqueues_unreserved rt rt'"
proof -
  have moves: "router_moves (ce_externs V) enqueues_unreserved rt a"
    if "publish_ephemeral_raised_events (in_step 0 V) 0 evs rt = (a, b)" for evs a b
    using ephemeral_raised_moves [of "in_step 0 V" rt 0 evs] that by simp
  show ?thesis
    using assms moves by (auto simp: observe_ephemeral_line_def Let_def split: option.splits prod.splits sum.splits)
qed

lemma report_moves: "router_moves X P rt (report_spawn_result n res rt)" "router_moves X P rt (report_no_child n reason rt)"
  unfolding report_spawn_result_def report_no_child_def
  by (blast intro: router_moves_trans router_moves_journal)+

lemma task_exit_moves:
  assumes "task_exit V T C name outcome task rt = (rt', fin)"
  shows "router_moves (ce_externs V) enqueues_unreserved rt rt'" and "cd_record fin = ct_record task"
proof -
  have raised: "router_moves (ce_externs V) enqueues_unreserved rt a"
    if "publish_raised V C s tok r (report_spawn_result name res rt) = (a, b)" for s tok r res a b
    using router_moves_trans [OF report_moves(1) publish_raised_moves] that by (metis fst_conv)
  show "router_moves (ce_externs V) enqueues_unreserved rt rt'"
    using assms raised report_moves
    by (auto simp: task_exit_def Let_def split: sum.splits option.splits if_splits prod.splits)
  show "cd_record fin = ct_record task"
    using assms by (auto simp: task_exit_def Let_def split: sum.splits option.splits if_splits prod.splits)
qed

lemma unreserved_no_ack: "enqueues_unreserved l \<Longrightarrow> no_ack l"
  by (auto simp: enqueues_unreserved_def intro: enqueues_no_ack)

lemma ephemeral_exit_moves: "router_moves (ce_externs V) no_ack rt (ephemeral_exit V C name outcome task rt)"
proof -
  note busy = router_moves_trans [OF report_moves(1) lock_busy_fact_moves [of "in_step 0 V", unfolded env_in_step]]
  note raised = router_moves_trans [OF report_moves(1)
    router_moves_mono [OF publish_ephemeral_raised_moves [of "in_step 1 V", unfolded env_in_step] unreserved_no_ack]]
  show ?thesis
    unfolding ephemeral_exit_def using busy raised report_moves
    by (simp add: Let_def split: sum.split option.split)
qed

lemma dead_letters_moves: "router_moves (ce_externs V) no_ack rt (publish_permanent_dead_letters V i ds rt)"
proof (induction V i ds rt rule: publish_permanent_dead_letters.induct)
  case (2 V i d ds rt)
  then show ?case
    using router_moves_trans [OF dead_letter_no_ack [of "in_step i V", unfolded env_in_step]] by simp
qed simp

lemma maintain_moves: "router_moves (ce_externs V) no_ack rt (maintain_dead_letters V rt)"
proof (cases "rt_store rt")
  case (Some db)
  let ?r = "redrive_due_with_current_subscribers (ce_externs V) \<lparr>max_redrives = REDRIVE_MAX, cooldown = REDRIVE_COOLDOWN\<rparr>
    (single_reliable_subscribers_by_queue rt) (ce_now V []) DISPATCH_BATCH db"
  have "router_moves (ce_externs V) no_ack rt (publish_permanent_dead_letters (in_step 0 V) 0 ds
      (foldl (\<lambda>rt1 r. notify_reliable (dept r) rt1) (rt\<lparr>rt_store := Some db'\<rparr>) rs))"
    if "?r = Inr (db', res)" for db' res rs ds
  proof (rule router_moves_trans [OF _ dead_letters_moves [of "in_step 0 V", unfolded env_in_step]],
      rule router_moves_trans [OF _ moving.foldl_moves])
    show "router_moves (ce_externs V) no_ack rt (rt\<lparr>rt_store := Some db'\<rparr>)"
      using Some that unfolding redrive_due_with_current_subscribers_def
      by (rule router_moves_step [OF _ step_redrive]) (simp add: no_ack_def)
  qed (rule router_moves_notify)
  then show ?thesis by (simp add: maintain_dead_letters_def Some split: sum.split prod.split) blast
qed (simp add: maintain_dead_letters_def)

lemma router_moves_inv:
  assumes "router_moves X P rt rt'" and "\<And>db. rt_store rt = Some db \<Longrightarrow> machine_inv X db" and "rt_store rt' = Some db'"
  shows "machine_inv X db'"
proof (cases "rt_store rt")
  case None
  with assms(1,3) show ?thesis by (simp add: router_moves_def)
next
  case (Some db)
  with assms(1) assms(2) [OF Some] obtain ls db1 where "rt_store rt' = Some db1" and run: "run (store_step X) db ls db1"
    unfolding router_moves_def by blast
  with assms(3) machine.run_inv [OF run assms(2) [OF Some]] show ?thesis by simp
qed

section \<open>Dispatching and renewing\<close>

lemma router_set_store [simp]: "cs_router (set_store db st) = (cs_router st)\<lparr>rt_store := Some db\<rparr>"
    "cs_running (set_store db st) = cs_running st" "cs_tasks (set_store db st) = cs_tasks st"
    "cs_completed (set_store db st) = cs_completed st" "cs_ephemeral (set_store db st) = cs_ephemeral st"
  by (simp_all add: set_store_def)

abbreviation any_label :: "store_label \<Rightarrow> bool" where
  "any_label \<equiv> \<lambda>_. True"

lemma dispatch_record_moves:
  "router_moves (ce_externs V) any_label (cs_router st) (cs_router (dispatch_record V T cfg r st))"
  using router_moves_mono [OF retry_record_moves [of "in_step 0 V", unfolded env_in_step]]
  by (auto simp: dispatch_record_def split: sum.split)

lemma dispatch_records_moves:
  "router_moves (ce_externs V) any_label (cs_router st) (cs_router (dispatch_records V T cfg i rs st))"
proof (induction V T cfg i rs st rule: dispatch_records.induct)
  case (2 V T cfg i r rs st)
  then show ?case using router_moves_trans [OF dispatch_record_moves [of "in_step i V", unfolded env_in_step]] by simp
qed simp

lemma dispatch_due_moves: "router_moves (ce_externs V) any_label (cs_router st) (cs_router (dispatch_due V T cfg st))"
proof (cases "rt_store (cs_router st)")
  case (Some db)
  have "router_moves (ce_externs V) any_label (cs_router st)
      (cs_router (dispatch_records (in_step 0 V) T cfg 0 rs (set_store db' st)))"
    if "lease_for_dept_excluding d now_ms n dur ex db = Inr (db', rs)" for d now_ms n dur ex db' rs
    using router_moves_trans [OF router_moves_step [OF Some step_lease [OF that [unfolded lease_for_dept_excluding_def]]]
      dispatch_records_moves [of "in_step 0 V" "set_store db' st", unfolded env_in_step router_set_store]] by simp
  then show ?thesis by (simp add: dispatch_due_def Let_def Some split: sum.split prod.split)
qed (simp add: dispatch_due_def)

lemma renew_moves: "router_moves (ce_externs V) any_label (cs_router st) (cs_router (renew_running V cfg st))"
proof (cases "rt_store (cs_router st)")
  case (Some db)
  have "router_moves (ce_externs V) any_label (cs_router st) ((cs_router st)\<lparr>rt_store := Some db'\<rparr>)"
    if "renew_leases rs u db = Inr (db', x)" for rs u db' x
    using Some step_renew [OF that] by (rule router_moves_step) simp
  then show ?thesis by (simp add: renew_running_def Let_def Some split: sum.split prod.split)
qed (simp add: renew_running_def)

lemma on_tick_moves: "router_moves (ce_externs V) any_label (cs_router st) (cs_router (on_tick V T cfg st))"
proof -
  let ?st1 = "renew_running (in_step 0 V) cfg st"
  let ?st2 = "?st1\<lparr>cs_router := maintain_dead_letters (in_step 1 V) (cs_router ?st1)\<rparr>"
  have "router_moves (ce_externs V) any_label (cs_router st) (cs_router ?st1)"
    using renew_moves [of "in_step 0 V" st cfg] by simp
  moreover have "router_moves (ce_externs V) any_label (cs_router ?st1) (cs_router ?st2)"
    using router_moves_mono [OF maintain_moves [of "in_step 1 V" "cs_router ?st1"]] by simp
  moreover have "router_moves (ce_externs V) any_label (cs_router ?st2) (cs_router (dispatch_due (in_step 2 V) T cfg ?st2))"
    using dispatch_due_moves [of "in_step 2 V" ?st2 T cfg] by simp
  ultimately show ?thesis unfolding on_tick_def Let_def by (blast intro: router_moves_trans)
qed

lemma consumer_step_moves:
  assumes "consumer_step V T C cfg st st'"
  shows "router_moves (ce_externs V) any_label (cs_router st) (cs_router st')"
  using assms
proof cases
  case (arm_ephemeral maybe_ev)
  then show ?thesis
    using report_moves(2)
    by (auto simp: on_ephemeral_def spawn_ephemeral_def on_ephemeral_disconnect_def split: option.split sum.split)
next
  case (arm_wake disconnected)
  then show ?thesis
    using dispatch_due_moves [of V st T cfg] dispatch_due_moves [of V "st\<lparr>cs_wake_open := False\<rparr>" T cfg] by (simp add: on_wake_def)
next
  case arm_tick
  then show ?thesis using on_tick_moves by simp
next
  case (arm_completed fin rest)
  then show ?thesis using router_moves_mono [OF finish_moves] by (simp add: on_completed_def)
next
  case (task_line before task after line task' rt')
  then show ?thesis using router_moves_mono [OF observe_line_moves(1)] by simp
next
  case (task_ends before task after outcome rt' fin)
  then show ?thesis using router_moves_mono [OF task_exit_moves(1)] by simp
next
  case (ephemeral_line before etask after line etask' rt')
  then show ?thesis using router_moves_mono [OF observe_ephemeral_line_moves] by simp
next
  case (ephemeral_ends before etask after outcome)
  then show ?thesis using router_moves_mono [OF ephemeral_exit_moves] by simp
qed

section \<open>The tables of the consumer\<close>

text \<open>The deliveries for which a task exists or has reported.\<close>

definition task_ids :: "consumer_state \<Rightarrow> string list" where
  "task_ids st = map (\<lambda>t. delivery_id (ct_record t)) (cs_tasks st) @ map (\<lambda>f. delivery_id (cd_record f)) (cs_completed st)"

text \<open>The table is in order, there is exactly one task for each running delivery, a running delivery is
  under its identity, and at most \<open>n\<close> run.\<close>

definition tables_upto :: "nat \<Rightarrow> consumer_state \<Rightarrow> bool" where
  "tables_upto n st \<longleftrightarrow> t_ok (cs_running st) \<and> distinct (task_ids st) \<and> set (task_ids st) = dom (t_get (cs_running st)) \<and>
     (\<forall>i rd. t_get (cs_running st) i = Some rd \<longrightarrow> delivery_id (rd_record rd) = i) \<and> length (cs_running st) \<le> n"

definition tables_inv :: "consumer_config \<Rightarrow> consumer_state \<Rightarrow> bool" where
  "tables_inv cfg st \<longleftrightarrow> tables_upto (cc_max_in_flight cfg) st"

lemma tables_upto_mono: "tables_upto n st \<Longrightarrow> n \<le> m \<Longrightarrow> tables_upto m st"
  by (simp add: tables_upto_def)

lemma tables_frame:
  "cs_running st' = cs_running st \<Longrightarrow> cs_tasks st' = cs_tasks st \<Longrightarrow> cs_completed st' = cs_completed st \<Longrightarrow>
   tables_upto n st' \<longleftrightarrow> tables_upto n st"
  by (simp add: tables_upto_def task_ids_def)

lemma t_length: "t_ok t \<Longrightarrow> length t = card (dom (t_get t))"
proof -
  assume "t_ok t"
  then have "distinct (map fst t)" by (simp add: t_ok_def strict_sorted_iff)
  then show ?thesis using distinct_card [of "map fst t"] by (simp add: t_get_def dom_map_of_conv_image_fst)
qed

lemma t_get_simps: "t_get (t_insert k v t) = (t_get t)(k \<mapsto> v)" "t_get (t_remove k t) = (t_get t)(k := None)"
  by (simp_all add: t_get_def map_of_t_insert map_of_t_remove)

lemma finite_dom_t_get [simp]: "finite (dom (t_get t))"
  by (simp add: t_get_def finite_dom_map_of)

text \<open>Dispatching a record adds at most one running delivery.\<close>

lemma dispatch_record_tables:
  assumes "tables_upto n st"
  shows "tables_upto (Suc n) (dispatch_record V T cfg r st)"
proof -
  have old: "tables_upto (Suc n) st" using assms by (simp add: tables_upto_def)
  show ?thesis
  proof (cases "t_get (cs_running st) (delivery_id r) = None")
    case True
    then have fresh: "delivery_id r \<notin> set (task_ids st)" using assms by (auto simp: tables_upto_def)
    show ?thesis
    proof (cases "spawn_args cfg (ce_token V []) (event_from_record r)")
      case (Inl err)
      with True old show ?thesis by (simp add: dispatch_record_def tables_upto_def task_ids_def)
    next
      case (Inr args)
      let ?st = "dispatch_record V T cfg r st"
      obtain rd where run: "cs_running ?st = t_insert (delivery_id r) rd (cs_running st)" "rd_record rd = r"
        and tasks: "map (\<lambda>t. delivery_id (ct_record t)) (cs_tasks ?st) = map (\<lambda>t. delivery_id (ct_record t)) (cs_tasks st) @ [delivery_id r]"
        and comp: "cs_completed ?st = cs_completed st"
        using True Inr by (simp add: dispatch_record_def)
      have "length (cs_running ?st) \<le> Suc (length (cs_running st))"
        using assms True unfolding tables_upto_def run(1)
        by (simp add: t_length t_ok_insert t_get_simps card_insert_if)
      then show ?thesis
        using assms fresh unfolding tables_upto_def task_ids_def tasks comp run(1)
        by (auto simp: t_ok_insert t_get_simps run(2))
    qed
  qed (use old in \<open>simp add: dispatch_record_def\<close>)
qed

lemma dispatch_records_tables: "tables_upto n st \<Longrightarrow> tables_upto (n + length rs) (dispatch_records V T cfg i rs st)"
proof (induction V T cfg i rs st arbitrary: n rule: dispatch_records.induct)
  case (2 V T cfg i r rs st)
  from 2(1) [OF dispatch_record_tables [OF 2(2)]] show ?case by simp
qed simp

lemma dispatch_due_tables:
  assumes inv: "tables_inv cfg st" and store: "\<And>db. rt_store (cs_router st) = Some db \<Longrightarrow> machine_inv X db"
  shows "tables_inv cfg (dispatch_due V T cfg st)"
proof (cases "rt_store (cs_router st)")
  case (Some db)
  let ?n = "length (cs_running st)" and ?max = "cc_max_in_flight cfg"
  let ?c = "durable_dispatch_capacity ?n ?max (cc_admission_burst cfg)"
  have cap: "?n + ?c \<le> ?max" using inv by (auto simp: tables_inv_def tables_upto_def durable_dispatch_capacity_def)
  have "tables_inv cfg (dispatch_records (in_step 0 V) T cfg 0 rs (set_store db' st))"
    if "lease_for_dept_excluding d now_ms ?c dur ex db = Inr (db', rs)" for d now_ms dur ex db' rs
  proof -
    have "length rs \<le> ?c"
      using lease_matching_between [OF _ that [unfolded lease_for_dept_excluding_def]] store [OF Some]
      by (auto simp: machine_inv_def)
    moreover have "tables_upto ?n (set_store db' st)" using inv by (simp add: tables_inv_def tables_upto_def task_ids_def)
    from dispatch_records_tables [OF this, of rs "in_step 0 V" T cfg 0]
    have "tables_upto (?n + length rs) (dispatch_records (in_step 0 V) T cfg 0 rs (set_store db' st))" .
    ultimately show ?thesis using cap unfolding tables_inv_def by (elim tables_upto_mono) linarith
  qed
  then show ?thesis using inv by (simp add: dispatch_due_def Let_def Some split: sum.split prod.split)
qed (use inv in \<open>simp add: dispatch_due_def\<close>)

text \<open>Renewing changes neither the keys nor the identities of the table.\<close>

definition table_ok :: "running_delivery table \<Rightarrow> string set \<Rightarrow> bool" where
  "table_ok t keys \<longleftrightarrow> t_ok t \<and> dom (t_get t) = keys \<and> (\<forall>i rd. t_get t i = Some rd \<longrightarrow> delivery_id (rd_record rd) = i)"

lemma apply_renewal_table: "table_ok t keys \<Longrightarrow> table_ok (apply_renewal V nr renewed t renewal) keys"
  unfolding table_ok_def apply_renewal_def Let_def
  by (auto simp: t_get_simps t_ok_insert split: option.split)

lemma apply_renewals_table: "table_ok t keys \<Longrightarrow> table_ok (foldl (apply_renewal V nr renewed) t renewals) keys"
  by (induction renewals arbitrary: t) (simp_all add: apply_renewal_table)

lemma tables_upto_table:
  "tables_upto n st \<longleftrightarrow> table_ok (cs_running st) (set (task_ids st)) \<and> distinct (task_ids st) \<and> length (cs_running st) \<le> n"
  by (auto simp: tables_upto_def table_ok_def)

lemma renew_tables: "tables_upto n st \<Longrightarrow> tables_upto n (renew_running V cfg st)"
proof -
  assume inv: "tables_upto n st"
  have keep: "tables_upto n ((set_store db st)\<lparr>cs_running := foldl (apply_renewal V nr renewed) (cs_running st) renewals\<rparr>)"
    (is "tables_upto n ?st") for db nr renewed renewals
  proof -
    have ids: "task_ids ?st = task_ids st" by (simp add: task_ids_def)
    have "table_ok (cs_running ?st) (set (task_ids st))" using inv by (simp add: tables_upto_table apply_renewals_table)
    moreover from this have "length (cs_running ?st) = length (cs_running st)"
      using inv by (simp add: tables_upto_table table_ok_def t_length)
    ultimately show ?thesis using inv unfolding tables_upto_table ids by simp
  qed
  show ?thesis using inv keep by (simp add: renew_running_def Let_def split: option.split sum.split prod.split)
qed

lemma consumer_step_tables:
  assumes "consumer_step V T C cfg st st'" and inv: "tables_inv cfg st"
    and store: "\<And>db. rt_store (cs_router st) = Some db \<Longrightarrow> machine_inv (ce_externs V) db"
  shows "tables_inv cfg st'"
  using assms(1)
proof cases
  case (arm_ephemeral maybe_ev)
  with inv show ?thesis
    by (auto simp: on_ephemeral_def spawn_ephemeral_def on_ephemeral_disconnect_def tables_inv_def tables_upto_def task_ids_def
      split: option.split sum.split)
next
  case (arm_wake disconnected)
  have "tables_inv cfg (st\<lparr>cs_wake_open := False\<rparr>)" using inv by (simp add: tables_inv_def tables_upto_def task_ids_def)
  with arm_wake inv store show ?thesis
    by (auto simp: on_wake_def intro: dispatch_due_tables)
next
  case arm_tick
  let ?st1 = "renew_running (in_step 0 V) cfg st"
  let ?st2 = "?st1\<lparr>cs_router := maintain_dead_letters (in_step 1 V) (cs_router ?st1)\<rparr>"
  have "router_moves (ce_externs V) any_label (cs_router st) (cs_router ?st2)"
    using router_moves_trans [OF renew_moves [of "in_step 0 V" st cfg, unfolded env_in_step]
      router_moves_mono [OF maintain_moves [of "in_step 1 V" "cs_router ?st1", unfolded env_in_step]]] by simp
  then have "machine_inv (ce_externs V) db" if "rt_store (cs_router ?st2) = Some db" for db
    using store that by (rule router_moves_inv)
  moreover have "tables_inv cfg ?st2"
    using renew_tables [OF inv [unfolded tables_inv_def], of "in_step 0 V" cfg]
      tables_frame [of ?st2 ?st1] by (simp add: tables_inv_def)
  ultimately have "tables_inv cfg (dispatch_due (in_step 2 V) T cfg ?st2)" by (rule dispatch_due_tables [rotated])
  then show ?thesis unfolding arm_tick(1) on_tick_def Let_def .
next
  case (arm_completed fin rest)
  let ?i = "delivery_id (cd_record fin)" and ?run = "cs_running st"
  have ids: "task_ids st = map (\<lambda>t. delivery_id (ct_record t)) (cs_tasks st) @ ?i # map (\<lambda>f. delivery_id (cd_record f)) rest"
    using arm_completed by (simp add: task_ids_def)
  have "t_ok (t_remove ?i ?run)" using inv by (simp add: tables_inv_def tables_upto_def t_ok_remove)
  moreover from this have "length (t_remove ?i ?run) \<le> length ?run" by (simp add: t_remove_def)
  ultimately show ?thesis
    using inv unfolding arm_completed(1) on_completed_def tables_inv_def tables_upto_def ids
    by (auto simp: task_ids_def t_get_simps split: if_splits)
next
  case (task_line before task after line task' rt')
  with inv observe_line_moves(2) [OF task_line(3)] show ?thesis by (simp add: tables_inv_def tables_upto_def task_ids_def)
next
  case (task_ends before task after outcome rt' fin)
  with inv task_exit_moves(2) [OF task_ends(3)] show ?thesis by (auto simp: tables_inv_def tables_upto_def task_ids_def)
next
  case (ephemeral_line before etask after line etask' rt')
  with inv show ?thesis by (simp add: tables_inv_def tables_upto_def task_ids_def)
next
  case (ephemeral_ends before etask after outcome)
  with inv show ?thesis by (simp add: tables_inv_def tables_upto_def task_ids_def)
qed

section \<open>The system\<close>

text \<open>A label names the environment of a step of the consumer; \<open>None\<close> is a step of others, who move the
  store by operations of their own and may change the router's other parts.\<close>

definition others_step :: "externs \<Rightarrow> consumer_state \<Rightarrow> consumer_state \<Rightarrow> bool" where
  "others_step X st st' \<longleftrightarrow> (\<exists>rt'. router_moves X any_label (cs_router st) rt' \<and> st' = st\<lparr>cs_router := rt'\<rparr>)"

definition system_step ::
    "externs \<Rightarrow> error_texts \<Rightarrow> raise_codec \<Rightarrow> consumer_config \<Rightarrow> consumer_env option \<Rightarrow> consumer_state \<Rightarrow> consumer_state \<Rightarrow> bool" where
  "system_step X T C cfg l st st' \<longleftrightarrow>
     (case l of None \<Rightarrow> others_step X st st' | Some V \<Rightarrow> ce_externs V = X \<and> consumer_step V T C cfg st st')"

definition store_reachable :: "externs \<Rightarrow> delivery_router \<Rightarrow> bool" where
  "store_reachable X rt \<longleftrightarrow> (\<forall>db. rt_store rt = Some db \<longrightarrow> reach (store_init X) (store_step X) db)"

definition system_init :: "externs \<Rightarrow> consumer_config \<Rightarrow> consumer_state \<Rightarrow> bool" where
  "system_init X cfg st \<longleftrightarrow>
     (\<exists>capacity rt. st = consumer_start (cc_name cfg) (cc_decl cfg) capacity rt \<and> store_reachable X rt)"

definition system_inv :: "externs \<Rightarrow> consumer_config \<Rightarrow> consumer_state \<Rightarrow> bool" where
  "system_inv X cfg st \<longleftrightarrow> tables_inv cfg st \<and> store_reachable X (cs_router st)"

lemma router_moves_reachable: "router_moves X P rt rt' \<Longrightarrow> store_reachable X rt \<Longrightarrow> store_reachable X rt'"
  unfolding store_reachable_def
  by (metis (no_types, lifting) machine.reach_inv option.inject option.distinct(1) not_None_eq reach_run router_moves_def)

lemma system_step_moves: "system_step X T C cfg l st st' \<Longrightarrow> router_moves X any_label (cs_router st) (cs_router st')"
  using consumer_step_moves by (auto simp: system_step_def others_step_def split: option.splits)

interpretation consumer: inductive_invariant "system_init X cfg" "system_step X T C cfg" "system_inv X cfg" for X T C cfg
proof
  show "system_inv X cfg st" if "system_init X cfg st" for st
    using that by (auto simp: system_init_def system_inv_def tables_inv_def tables_upto_def task_ids_def consumer_start_def
      store_reachable_def register_reliable_wake_def t_ok_def t_empty_def t_get_def split: if_splits)
  show "system_inv X cfg st'" if inv: "system_inv X cfg st" and step: "system_step X T C cfg l st st'" for l st st'
  proof -
    have store: "store_reachable X (cs_router st)" using inv by (simp add: system_inv_def)
    have "tables_inv cfg st'"
    proof (cases l)
      case None
      with step obtain rt' where "st' = st\<lparr>cs_router := rt'\<rparr>" by (auto simp: system_step_def others_step_def)
      with inv tables_frame [of st' st] show ?thesis by (simp add: system_inv_def tables_inv_def)
    next
      case (Some V)
      with step have run: "ce_externs V = X" "consumer_step V T C cfg st st'" by (simp_all add: system_step_def)
      show ?thesis
        using run(2) inv store machine.reach_inv
        by (intro consumer_step_tables [OF run(2)]) (auto simp: system_inv_def store_reachable_def run(1))
    qed
    then show ?thesis using router_moves_reachable [OF system_step_moves [OF step] store] by (simp add: system_inv_def)
  qed
qed

section \<open>What a run without acknowledgements keeps\<close>

lemma run_held:
  assumes "run (store_step X) db ls db'" and "machine_inv X db" and "list_all no_ack ls" and "i \<in> held db"
  shows "i \<in> held db' \<or> (\<exists>ls1 l ls2 db1. ls = ls1 @ l # ls2 \<and> run (store_step X) db ls1 db1 \<and> retired (label_time l) i db1)"
  using assms
proof (induction rule: run.induct)
  case (run_Cons l db db1 ls db2)
  have inv: "machine_inv X db1" using run_Cons.prems(1) run_Cons.hyps(1) by (rule machine.step_inv)
  from store_step_held [OF run_Cons.prems(1) run_Cons.hyps(1) run_Cons.prems(3)] run_Cons.prems(2)
  consider "i \<in> held db1" | "retired (label_time l) i db" by (auto simp: no_ack_def)
  then show ?case
  proof cases
    case 1
    from run_Cons.IH [OF inv _ 1] run_Cons.prems(2)
    consider "i \<in> held db2" | ls1 k ls2 dbk where "ls = ls1 @ k # ls2" "run (store_step X) db1 ls1 dbk" "retired (label_time k) i dbk"
      by auto
    then show ?thesis
    proof cases
      case 2
      from run.run_Cons [where step = "store_step X", OF run_Cons.hyps(1) 2(2)] 2(1,3) show ?thesis
        by (intro disjI2 exI [of _ "l # ls1"] exI [of _ k] exI [of _ ls2] exI [of _ dbk]) simp
    qed simp
  next
    case 2
    then show ?thesis
      by (intro disjI2 exI [of _ "[]"] exI [of _ l] exI [of _ ls] exI [of _ db]) (simp add: run_Nil)
  qed
qed simp

section \<open>Raising again\<close>

lemma enqueue_existing:
  assumes "machine_inv X db" and "enqueue X r db = Inr (db', oc)" and "delivery_id r \<in> dom (live db)"
  shows "dom (live db') = dom (live db)"
  using assms(2)
proof (cases rule: enqueue_cases)
  case (collapse c)
  show ?thesis unfolding collapse(3)
    by (rule enqueue_collapse_cases [of "delivery_id r" r c db]) (use collapse(1) assms(3) in \<open>auto simp: table_updates\<close>)
next
  case (suppressed n)
  then show ?thesis using assms(3) by auto
next
  case (fresh db1 n)
  then show ?thesis using assms(3) by auto
qed simp

definition label_id :: "store_label \<Rightarrow> string" where
  "label_id l = (case l of LEnqueue r oc \<Rightarrow> delivery_id r | _ \<Rightarrow> [])"

lemma run_existing:
  assumes "run (store_step X) db ls db'" and "machine_inv X db" and "list_all enqueue_label ls"
    and "set (map label_id ls) \<subseteq> dom (live db)"
  shows "dom (live db') = dom (live db)"
  using assms
proof (induction rule: run.induct)
  case (run_Cons l db db1 ls db2)
  from run_Cons.prems(2) obtain r oc where l: "l = LEnqueue r oc" by (auto simp: enqueue_label_def)
  have "dom (live db1) = dom (live db)"
    using enqueue_existing [OF run_Cons.prems(1) step_enqueue_run [OF run_Cons.hyps(1) [unfolded l]]] run_Cons.prems(3)
    by (simp add: l label_id_def)
  moreover have "machine_inv X db1" using run_Cons.prems(1) run_Cons.hyps(1) by (rule machine.step_inv)
  ultimately show ?case using run_Cons.IH run_Cons.prems(2,3) by simp
qed simp

text \<open>The identities an event gets are determined by the subscriptions and the envelope; those of what a
  child raises by its delivery, the events and their order.\<close>

definition sub_id :: "publish_envelope \<Rightarrow> subscription \<Rightarrow> string" where
  "sub_id env sub = (case derived_for env (sub_dept sub) of Inl _ \<Rightarrow> [] | Inr identity \<Rightarrow> di_delivery_id identity)"

definition event_ids :: "subscription list table \<Rightarrow> publish_envelope \<Rightarrow> string list" where
  "event_ids t env =
     (case canonicalize_event (pe_event env) (pe_source env) of
        None \<Rightarrow> []
      | Some ev \<Rightarrow>
          (case t_get t (ev_queue ev) of
             None \<Rightarrow> []
           | Some subs \<Rightarrow> map (sub_id (env\<lparr>pe_event := ev\<rparr>)) (filter sub_reliable subs)))"

definition raised_envelope :: "delivery_record \<Rightarrow> nat \<Rightarrow> event \<Rightarrow> publish_envelope" where
  "raised_envelope parent n ev =
     \<lparr>pe_event = ev\<lparr>ev_ts := observed_at_ms parent\<rparr>, pe_source = source parent, pe_cron_payload = None,
      pe_derived = Some \<lparr>parent_delivery_id = delivery_id parent, ordinal = n\<rparr>\<rparr>"

fun raised_ids :: "subscription list table \<Rightarrow> delivery_record \<Rightarrow> nat \<Rightarrow> event list \<Rightarrow> string list" where
  "raised_ids t parent n [] = []"
| "raised_ids t parent n (ev # evs) = event_ids t (raised_envelope parent n ev) @ raised_ids t parent (min (n + 1) usize_max) evs"

lemma loop_labels_ids: "loop_labels env subs ls \<Longrightarrow> length ls = length (filter sub_reliable subs) \<Longrightarrow>
   map label_id ls = map (sub_id env) (filter sub_reliable subs)"
  unfolding loop_labels_def
  by (rule nth_equalityI) (auto simp: list_all2_conv_all_nth sub_label_def sub_id_def label_id_def record_for_def)

lemma publish_outcome_ids:
  assumes "publish_outcome E env rt = (rt', Inr status)" and "rt_store rt = Some db" and "machine_inv (env_externs E) db"
  shows "\<exists>db' ls. rt_store rt' = Some db' \<and> run (store_step (env_externs E)) db ls db' \<and> list_all enqueue_label ls \<and>
    map label_id ls = event_ids (rt_subscriptions rt) env"
  using assms(1)
proof (cases rule: publish_outcome_split)
  case (1 ev)
  then show ?thesis by simp
next
  case (2 ev subs rt1 rt2 r)
  obtain x where r: "r = Inr x" using 2(8) by (cases r) auto
  from publish_loop_run [OF 2(6) assms(3)] 2(3) assms(2) r obtain db' ls where
    run: "rt_store rt2 = Some db'" "run (store_step (env_externs E)) db ls db'" "list_all enqueue_label ls"
      "loop_labels (env\<lparr>pe_event := ev\<rparr>) subs ls" "length ls = length (filter sub_reliable subs)" by auto
  have "map label_id ls = event_ids (rt_subscriptions rt) env"
    using loop_labels_ids [OF run(4,5)] by (simp add: event_ids_def 2(1,2))
  with run 2(7) show ?thesis by (intro exI [of _ db'] exI [of _ ls]) simp
qed

lemma raised_events_ids:
  assumes "publish_raised_events V i evs parent n rt = (rt', n', Inr u)" and "rt_store rt = Some db"
    and "machine_inv (ce_externs V) db"
  shows "\<exists>db' ls. rt_store rt' = Some db' \<and> run (store_step (ce_externs V)) db ls db' \<and> list_all enqueue_label ls \<and>
    map label_id ls = raised_ids (rt_subscriptions rt) parent n evs"
  using assms
proof (induction V i evs parent n rt arbitrary: db rule: publish_raised_events.induct)
  case (1 V i parent n rt)
  then show ?case by (intro exI [of _ db] exI [of _ "[]"]) (simp add: run_Nil)
next
  case (2 V i ev evs parent n rt)
  let ?E = "publish_env_of (in_step i V)" and ?env = "raised_envelope parent n ev"
  have q: "ev_queue ev \<noteq> FAILURE_FACT_QUEUE" using 2(2) by (auto simp: reject_reserved_raised_queue_def)
  obtain rt1 res where p: "publish_outcome ?E ?env rt = (rt1, res)" by fastforce
  obtain status where res: "res = Inr status"
    using 2(2) p q by (cases res) (auto simp: reject_reserved_raised_queue_def raised_envelope_def Let_def)
  from publish_outcome_ids [OF p [unfolded res] 2(3)] 2(4) obtain db1 ls where
    first: "rt_store rt1 = Some db1" "run (store_step (ce_externs V)) db ls db1" "list_all enqueue_label ls"
      "map label_id ls = event_ids (rt_subscriptions rt) ?env" by auto
  have subs: "rt_subscriptions rt1 = rt_subscriptions rt"
    using publish_outcome_moves [of ?E ?env rt] p by (simp add: router_moves_def)
  have rest: "publish_raised_events V (Suc i) evs parent (min (n + 1) usize_max) rt1 = (rt', n', Inr u)"
    using 2(2) p q res by (simp add: reject_reserved_raised_queue_def raised_envelope_def Let_def)
  have inv: "machine_inv (ce_externs V) db1" using first(2) 2(4) by (rule machine.run_inv)
  have "\<exists>db' ls. rt_store rt' = Some db' \<and> run (store_step (ce_externs V)) db1 ls db' \<and> list_all enqueue_label ls \<and>
      map label_id ls = raised_ids (rt_subscriptions rt1) parent (min (n + 1) usize_max) evs"
    using 2(1) [OF _ refl refl _ _ rest first(1) inv] p q res
    by (simp add: reject_reserved_raised_queue_def raised_envelope_def)
  then obtain db2 ks where "rt_store rt' = Some db2" and ks: "run (store_step (ce_externs V)) db1 ks db2" and
      "list_all enqueue_label ks" "map label_id ks = raised_ids (rt_subscriptions rt) parent (min (n + 1) usize_max) evs"
    by (auto simp: subs)
  with run_append [OF first(2) ks] first(3,4) show ?case by (intro exI [of _ db2] exI [of _ "ls @ ks"]) simp
qed

end
