(* ===== verification/Source_Theorems.thy ===== *)
theory Source_Theorems
  imports Consumer_Loop Startup_Theorems Identity_Injectivity
begin

text \<open>
  The theorems on the raisers and on the durations of the configuration: the glob matcher, the agreement of
  the two duration parsers and where it ends, and cron slots.
\<close>

section \<open>Globs\<close>

text \<open>C36: The glob matcher returns for every pattern and path, and for a path without a star it decides the
  reference semantics, in which a question mark stands for one character, a star for any characters of a
  segment and a double star for any number of segments.\<close>

theorem glob_matcher_correct:
  "(\<exists>b. glob_matches_path glob path = Some b) \<and>
   (CHR ''*'' \<notin> set path \<longrightarrow> glob_matches_path glob path =
      Some (segments_match (split_path_segments (normalize_separators glob)) (split_path_segments (normalize_separators path))))"
  using glob_matches_path_spec glob_segments_match_ends unfolding glob_matches_path_def by blast

theorem glob_matcher_correct_witness:
  "CHR ''*'' \<notin> set ''/in/a/b.json'' \<and>
   glob_matches_path ''/in/**/*.js?n'' ''/in/a/b.json'' = Some (segments_match
      (split_path_segments (normalize_separators ''/in/**/*.js?n'')) (split_path_segments (normalize_separators ''/in/a/b.json''))) \<and>
   glob_matches_path ''/in/**/*.js?n'' ''/in/a/b.json'' = Some True"
proof -
  have "CHR ''*'' \<notin> set ''/in/a/b.json''" by simp
  moreover have "glob_matches_path ''/in/**/*.js?n'' ''/in/a/b.json'' = Some True" by code_simp
  ultimately show ?thesis using glob_matcher_correct [of "''/in/**/*.js?n''" "''/in/a/b.json''"] by blast
qed

text \<open>A star in the text is taken for the star of the pattern, which is then used up: the pattern of one
  star does not match a name that begins with a star.\<close>

lemma star_in_text_mismatch:
  "glob_segment_match ''*'' ''*a'' = Some False \<and> wildcard (chars_of ''*'') (chars_of ''*a'')"
proof
  show "glob_segment_match ''*'' ''*a'' = Some False" by code_simp
  show "wildcard (chars_of ''*'') (chars_of ''*a'')" by (simp add: is_continuation_def) (rule exI [of _ 2], simp)
qed

section \<open>Durations\<close>

text \<open>Where the durations of an accepted department are numbers that fit, the consumer starts with
  exactly the policies that were validated: the stall window and the bounds of the retry delay are the
  validated milliseconds, the lower bound is positive and not above the upper one, and lock-busy deferrals
  use the department's own policy.\<close>

theorem validated_policies_start:
  assumes "validate_retry_decl name rd = Inr ()" and "retry_of d = Some rd"
    and "parse_duration_millis (stall_window d) = Some s" and "s < 18446744073709551616 * 1000"
    and "parse_duration_millis (decl_base rd) = Some b" and "parse_duration_millis (decl_cap rd) = Some c"
    and "c < 18446744073709551616 * 1000"
  shows "consumer_policies checks d backoff =
      Inr (from_millis s, Some \<lparr>max_attempts = decl_max_attempts rd, base = from_millis b, cap = from_millis c\<rparr>,
           \<lparr>max_attempts = decl_max_attempts rd, base = from_millis b, cap = from_millis c\<rparr>) \<and>
    0 < decl_max_attempts rd \<and> 0 < b \<and> b \<le> c"
proof -
  have le: "b \<le> c" and pos: "decl_max_attempts rd \<noteq> 0"
    using assms(1,5,6) by (auto simp: validate_retry_decl_def split: if_splits)
  have "0 < b"
    using assms(5) by (rule parse_duration_millisE) (auto simp: u128_max_def split: if_splits)
  moreover have "parse_duration checks (decl_base rd) = Inr (from_millis b)"
    using assms(5) by (rule parse_duration_validated) (use le assms(7) in simp)
  moreover note parse_duration_validated [OF assms(6,7), of checks] parse_duration_validated [OF assms(3,4), of checks]
  ultimately show ?thesis
    using le pos assms(2) by (simp add: consumer_policies_def policy_from_decl_def word_gt_0)
qed

theorem validated_policies_start_witness:
  "consumer_policies True sample_dept \<lparr>max_attempts = 1, base = 0, cap = 0\<rparr> =
     Inr (from_secs 300, Some \<lparr>max_attempts = 3, base = from_secs 1, cap = from_secs 60\<rparr>,
          \<lparr>max_attempts = 3, base = from_secs 1, cap = from_secs 60\<rparr>)"
proof -
  let ?rd = "\<lparr>decl_max_attempts = 3, decl_base = ''1s'', decl_cap = ''1m''\<rparr>"
  have rd: "validate_retry_decl ''worker'' ?rd = Inr ()" "retry_of sample_dept = Some ?rd"
    and s: "parse_duration_millis (stall_window sample_dept) = Some 300000"
    and b: "parse_duration_millis (decl_base ?rd) = Some 1000" and c: "parse_duration_millis (decl_cap ?rd) = Some 60000"
    by code_simp+
  from validated_policies_start [OF rd s _ b c, of True "\<lparr>max_attempts = 1, base = 0, cap = 0\<rparr>"] show ?thesis by (simp add: from_secs_def from_millis_def)
qed


section \<open>Cron slots\<close>

text \<open>The slot of a cron tick is the multiple of the interval at or before the time, less than one
  interval ago, and two ticks of a raiser have the same source reference exactly when they fall into the
  same slot. A tick that comes twice in its slot is thereby recognised as the same source, and ticks of
  different slots never are.\<close>

theorem cron_slot_identity:
  assumes "0 < as_millis interval" and "as_millis interval < 18446744073709551616"
  shows "unat (cron_slot_unix_millis interval now_ms) \<le> unat now_ms \<and>
    unat now_ms < unat (cron_slot_unix_millis interval now_ms) + as_millis interval \<and>
    as_millis interval dvd unat (cron_slot_unix_millis interval now_ms) \<and>
    (cron_source_reference name (cron_slot_unix_millis interval now_ms) =
       cron_source_reference name (cron_slot_unix_millis interval later_ms) \<longleftrightarrow>
     unat now_ms div as_millis interval = unat later_ms div as_millis interval)"
proof -
  have slot: "unat (cron_slot_unix_millis interval t) div as_millis interval = unat t div as_millis interval" for t
    using cron_slot_bounds [OF assms(1), of t] assms
    by (metis (no_types, lifting) add.commute div_le_mono dvd_div_mult_self less_mult_imp_div_less mult.commute
      mult_Suc nle_le not_less_eq order_less_le order_antisym_conv less_Suc_eq_le)
  have "unat (cron_slot_unix_millis interval now_ms) = unat (cron_slot_unix_millis interval later_ms) \<longleftrightarrow>
      unat now_ms div as_millis interval = unat later_ms div as_millis interval"
    using slot cron_slot_bounds(3) [OF assms(1) assms(2)] by (metis dvd_div_mult_self)
  then show ?thesis
    using cron_slot_bounds [OF assms(1), of now_ms] assms(2) by (simp add: cron_source_reference_def)
qed

theorem cron_slot_identity_witness:
  "cron_source_reference ''tick'' (cron_slot_unix_millis (from_secs 10) 25000) =
     cron_source_reference ''tick'' (cron_slot_unix_millis (from_secs 10) 29999) \<and>
   cron_source_reference ''tick'' (cron_slot_unix_millis (from_secs 10) 25000) \<noteq>
     cron_source_reference ''tick'' (cron_slot_unix_millis (from_secs 10) 30000)"
proof -
  have i: "0 < as_millis (from_secs 10)" "as_millis (from_secs 10) < 18446744073709551616"
    by (simp_all add: as_millis_def from_secs_def)
  from cron_slot_identity [OF i, of 25000 "''tick''" 29999] cron_slot_identity [OF i, of 25000 "''tick''" 30000]
  show ?thesis by (simp add: as_millis_def from_secs_def)
qed

end
