(* ===== verification/Config_Registry.thy ===== *)
theory Config_Registry
  imports Ordered_Table Rust_Text
begin

text \<open>
  The operational settings and where their values come from (\<open>fkst-framework/src/config_registry.rs\<close>):
  the process environment, then the host's \<open>fkst.env\<close>, then the default of the registry. Environments
  are tables; the order of a hash map is not observable here. An entry of the process environment may
  not be valid UTF-8.
\<close>

section \<open>The registry\<close>

datatype config_value_type = UsizeValue | DurationStringValue | StringValue

datatype config_kind = Operational string | HostFact

datatype config_key =
    QueueCapacity | DepartmentDefaultStallWindow | CodexPermitSlots | MaxInFlightPerDept
  | DurableAdmissionBurstPerDept | SubscriberAbsentDeliveryBudget | RatePoolRoot
  | RetryDefaultMaxAttempts | RetryDefaultBase | RetryDefaultCap | CandidatePrefix | CandidateFromSep

record config_entry =
  ce_key :: config_key
  ce_name :: string
  env_key :: string
  ce_kind :: config_kind
  value_type :: config_value_type

definition config_row :: "config_key \<Rightarrow> string \<Rightarrow> string \<Rightarrow> config_kind \<Rightarrow> config_value_type \<Rightarrow> config_entry" where
  "config_row k n e kd t = \<lparr>ce_key = k, ce_name = n, env_key = e, ce_kind = kd, value_type = t\<rparr>"

definition CONFIG_REGISTRY :: "config_entry list" where
  "CONFIG_REGISTRY =
     [config_row QueueCapacity ''queue_capacity'' ''FKST_QUEUE_CAPACITY'' (Operational ''16'') UsizeValue,
      config_row DepartmentDefaultStallWindow ''department_default_stall_window''
        ''FKST_DEPARTMENT_DEFAULT_STALL_WINDOW'' (Operational ''30s'') DurationStringValue,
      config_row CodexPermitSlots ''codex_permit_slots'' ''FKST_CODEX_PERMIT_SLOTS'' (Operational ''20'') UsizeValue,
      config_row MaxInFlightPerDept ''max_in_flight_per_dept'' ''FKST_MAX_IN_FLIGHT_PER_DEPT''
        (Operational ''16'') UsizeValue,
      config_row DurableAdmissionBurstPerDept ''durable_admission_burst_per_dept''
        ''FKST_DURABLE_ADMISSION_BURST_PER_DEPT'' (Operational ''1'') UsizeValue,
      config_row SubscriberAbsentDeliveryBudget ''subscriber_absent_delivery_budget''
        ''FKST_SUBSCRIBER_ABSENT_DELIVERY_BUDGET'' (Operational ''168h'') DurationStringValue,
      config_row RatePoolRoot ''rate_pool_root'' ''FKST_RATE_POOL_ROOT'' (Operational ''~/.fkst/rate-pools'') StringValue,
      config_row RetryDefaultMaxAttempts ''retry_default_max_attempts'' ''FKST_RETRY_DEFAULT_MAX_ATTEMPTS''
        (Operational ''5'') UsizeValue,
      config_row RetryDefaultBase ''retry_default_base'' ''FKST_RETRY_DEFAULT_BASE'' (Operational ''60s'') DurationStringValue,
      config_row RetryDefaultCap ''retry_default_cap'' ''FKST_RETRY_DEFAULT_CAP'' (Operational ''30m'') DurationStringValue,
      config_row CandidatePrefix ''candidate_prefix'' ''FKST_CANDIDATE_PREFIX'' HostFact StringValue,
      config_row CandidateFromSep ''candidate_from_sep'' ''FKST_CANDIDATE_FROM_SEP'' HostFact StringValue]"

text \<open>The lookup of an entry; that every key has one is the lemma \<open>config_entry_exists\<close>.\<close>

definition config_entry_of :: "config_key \<Rightarrow> config_entry option" where
  "config_entry_of k = find (\<lambda>e. ce_key e = k) CONFIG_REGISTRY"

section \<open>Resolution\<close>

datatype config_source = FromEnv | FromFkstEnv | FromDefault

record resolved =
  res_value :: string
  res_source :: config_source

datatype config_error =
    RegistryPanic
  | MissingSetting string
  | NotUtf8 string
  | LineNeedsEquals nat
  | InvalidKey nat
  | NotPositiveInteger string
  | MustBePositive string
  | NotADuration string
  | DurationNotANumber string

definition nonempty :: "string option \<Rightarrow> string option" where
  "nonempty value = (case value of None \<Rightarrow> None | Some v \<Rightarrow> if trim v = [] then None else Some (trim v))"

definition resolve_setting :: "config_key \<Rightarrow> string table \<Rightarrow> string table \<Rightarrow> config_error + resolved" where
  "resolve_setting key process_env fkst_env =
     (case config_entry_of key of
        None \<Rightarrow> Inl RegistryPanic
      | Some entry \<Rightarrow>
          (case nonempty (t_get process_env (env_key entry)) of
             Some value \<Rightarrow> Inr \<lparr>res_value = value, res_source = FromEnv\<rparr>
           | None \<Rightarrow>
               (case nonempty (t_get fkst_env (env_key entry)) of
                  Some value \<Rightarrow> Inr \<lparr>res_value = value, res_source = FromFkstEnv\<rparr>
                | None \<Rightarrow>
                    (case ce_kind entry of
                       Operational dflt \<Rightarrow> Inr \<lparr>res_value = dflt, res_source = FromDefault\<rparr>
                     | HostFact \<Rightarrow> Inl (MissingSetting (env_key entry))))))"

definition parse_positive_usize :: "string \<Rightarrow> string \<Rightarrow> config_error + nat" where
  "parse_positive_usize env raw =
     (case parse_nat 18446744073709551616 (trim raw) of
        None \<Rightarrow> Inl (NotPositiveInteger env)
      | Some v \<Rightarrow> if v = 0 then Inl (MustBePositive env) else Inr v)"

definition parse_duration_string :: "string \<Rightarrow> string \<Rightarrow> config_error + string" where
  "parse_duration_string env raw =
     (let value = trim raw
      in if value = [] \<or> last value \<notin> {CHR ''s'', CHR ''m'', CHR ''h''} then Inl (NotADuration env)
         else Inr value)"

definition parse_positive_duration_string :: "string \<Rightarrow> string \<Rightarrow> config_error + string" where
  "parse_positive_duration_string env raw =
     rbind (parse_duration_string env raw) (\<lambda>value.
       case parse_u64 (butlast value) of
         None \<Rightarrow> Inl (DurationNotANumber env)
       | Some amount \<Rightarrow> if amount = 0 then Inl (MustBePositive env) else Inr value)"

section \<open>Environments\<close>

datatype os_text = Utf8 string | NonUtf8

record config_context =
  host_root :: string
  process_env :: "string table"
  fkst_env :: "string table"

definition rate_pool_key :: "string \<Rightarrow> bool" where
  "rate_pool_key key \<longleftrightarrow> starts_with key ''FKST_RATE_POOL_'' \<and> key \<noteq> ''FKST_RATE_POOL_ROOT''"

definition env_var :: "(os_text \<times> os_text) list \<Rightarrow> string \<Rightarrow> os_text option" where
  "env_var os key = map_of os (Utf8 key)"

definition process_env_for_registry :: "(os_text \<times> os_text) list \<Rightarrow> config_error + string table" where
  "process_env_for_registry os =
     rbind (fold_result (\<lambda>values entry.
              case env_var os (env_key entry) of
                Some (Utf8 value) \<Rightarrow> Inr (t_insert (env_key entry) value values)
              | None \<Rightarrow> Inr values
              | Some NonUtf8 \<Rightarrow> Inl (NotUtf8 (env_key entry))) t_empty CONFIG_REGISTRY)
       (\<lambda>values.
          fold_result (\<lambda>values (k, v).
            case k of
              NonUtf8 \<Rightarrow> Inr values
            | Utf8 key \<Rightarrow>
                if rate_pool_key key
                then (case v of
                    NonUtf8 \<Rightarrow> Inl (NotUtf8 key)
                  | Utf8 value \<Rightarrow> Inr (t_insert key value values))
                else Inr values) values os)"

definition trim_end_cr :: "string \<Rightarrow> string" where
  "trim_end_cr s = rev (dropWhile (\<lambda>c. c = CHR 0x0D) (rev s))"

definition read_fkst_line :: "string table \<Rightarrow> nat \<times> string \<Rightarrow> config_error + string table" where
  "read_fkst_line values = (\<lambda>(idx, raw).
     let line = trim_end_cr raw in
     if line = [] \<or> hd line = CHR ''#'' then Inr values
     else case split_once (CHR ''='') line of
         None \<Rightarrow> Inl (LineNeedsEquals (idx + 1))
       | Some (key, value) \<Rightarrow>
           if trim key \<noteq> key \<or> key = [] then Inl (InvalidKey (idx + 1))
           else Inr (t_insert key value values))"

text \<open>\<open>content\<close> is \<open>None\<close> when the host has no \<open>fkst.env\<close>.\<close>

definition read_fkst_env :: "string option \<Rightarrow> config_error + string table" where
  "read_fkst_env content =
     (case content of
        None \<Rightarrow> Inr t_empty
      | Some text \<Rightarrow> fold_result read_fkst_line t_empty (enumerate 0 (lines_of text)))"

definition from_host_root ::
    "string \<Rightarrow> (os_text \<times> os_text) list \<Rightarrow> string option \<Rightarrow> config_error + config_context" where
  "from_host_root root os content =
     rbind (process_env_for_registry os) (\<lambda>penv.
     rbind (read_fkst_env content) (\<lambda>fenv.
       Inr \<lparr>host_root = root, process_env = penv, fkst_env = fenv\<rparr>))"

definition rate_pool_env :: "config_context \<Rightarrow> string table" where
  "rate_pool_env ctx =
     foldl (\<lambda>t (k, v). t_insert k v t) t_empty
       (filter (\<lambda>(k, v). rate_pool_key k) (t_iter (fkst_env ctx)) @
        filter (\<lambda>(k, v). rate_pool_key k) (t_iter (process_env ctx)))"

definition resolved_with ::
    "(string \<Rightarrow> string \<Rightarrow> config_error + 'a) \<Rightarrow> config_context \<Rightarrow> config_key \<Rightarrow> config_error + 'a" where
  "resolved_with parse ctx key =
     rbind (resolve_setting key (process_env ctx) (fkst_env ctx)) (\<lambda>r.
       case config_entry_of key of None \<Rightarrow> Inl RegistryPanic | Some entry \<Rightarrow> parse (env_key entry) (res_value r))"

definition resolved_positive_usize :: "config_context \<Rightarrow> config_key \<Rightarrow> config_error + nat" where
  "resolved_positive_usize = resolved_with parse_positive_usize"

definition resolved_duration_string :: "config_context \<Rightarrow> config_key \<Rightarrow> config_error + string" where
  "resolved_duration_string = resolved_with parse_duration_string"

definition resolved_positive_duration_string :: "config_context \<Rightarrow> config_key \<Rightarrow> config_error + string" where
  "resolved_positive_duration_string = resolved_with parse_positive_duration_string"

definition resolved_string :: "config_context \<Rightarrow> config_key \<Rightarrow> config_error + string" where
  "resolved_string ctx key =
     rbind (resolve_setting key (process_env ctx) (fkst_env ctx)) (\<lambda>r. Inr (res_value r))"

end
