(* ===== verification/Rate_Pool.thy ===== *)
theory Rate_Pool
  imports Config_Registry
begin

text \<open>
  The named token buckets that ration external commands (\<open>fkst-framework/src/rate_pool.rs\<close>). A bucket
  is a text file, its ledger, which every process reads and replaces under an exclusive lock, so an
  attempt to take a token is one atomic step, whoever makes it. The numbers that the source keeps as
  \<open>u128\<close> are natural numbers with the saturation written out. What the file system answers to the
  replacement of the ledger is an input of the step.
\<close>

section \<open>Buckets\<close>

record rate_pool_config =
  burst :: u64
  refill_per_minute :: u64

record bucket_state =
  tokens :: u64
  remainder_numerator :: nat
  updated_nanos :: nat

definition NANOS_PER_MINUTE :: nat where
  "NANOS_PER_MINUTE = 60000000000"

definition sat_add128 :: "nat \<Rightarrow> nat \<Rightarrow> nat" where
  "sat_add128 a b = min (a + b) u128_max"

definition empty_state :: "nat \<Rightarrow> bucket_state" where
  "empty_state now_nanos = \<lparr>tokens = 0, remainder_numerator = 0, updated_nanos = now_nanos\<rparr>"

definition refill :: "bucket_state \<Rightarrow> rate_pool_config \<Rightarrow> nat \<Rightarrow> bucket_state" where
  "refill state config now_nanos =
     (if now_nanos < updated_nanos state then state\<lparr>updated_nanos := now_nanos\<rparr>
      else if now_nanos = updated_nanos state then state
      else if burst config \<le> tokens state
      then state\<lparr>tokens := burst config, remainder_numerator := 0, updated_nanos := now_nanos\<rparr>
      else
        let elapsed = now_nanos - updated_nanos state;
            produced_numerator = sat_add128 (sat_mul128 elapsed (unat (refill_per_minute config)))
                                   (remainder_numerator state);
            produced = produced_numerator div NANOS_PER_MINUTE;
            state1 = state\<lparr>remainder_numerator := produced_numerator mod NANOS_PER_MINUTE\<rparr>;
            state2 =
              (if 0 < produced
               then let t = min (sat_add (tokens state1) (clamp_u64 produced)) (burst config);
                        s = state1\<lparr>tokens := t\<rparr>
                    in if burst config \<le> t then s\<lparr>remainder_numerator := 0\<rparr> else s
               else state1)
        in state2\<lparr>updated_nanos := now_nanos\<rparr>)"

section \<open>The ledger file\<close>

definition parse_state_field :: "nat \<Rightarrow> string option \<Rightarrow> string \<Rightarrow> nat option" where
  "parse_state_field bound line label =
     (case line of
        None \<Rightarrow> None
      | Some l \<Rightarrow>
          (case split_once (CHR ''='') l of
             None \<Rightarrow> None
           | Some (key, value) \<Rightarrow> if key \<noteq> label then None else parse_nat bound value))"

definition nth_line :: "string list \<Rightarrow> nat \<Rightarrow> string option" where
  "nth_line ls n = (if n < length ls then Some (ls ! n) else None)"

text \<open>\<open>content\<close> is \<open>None\<close> when the file cannot be opened or is not valid UTF-8.\<close>

definition read_state :: "string option \<Rightarrow> nat \<Rightarrow> rate_pool_config \<Rightarrow> bucket_state" where
  "read_state content now_nanos config =
     (case content of
        None \<Rightarrow> empty_state now_nanos
      | Some text \<Rightarrow>
          if trim text = [] then empty_state now_nanos
          else let ls = lines_of text in
            case parse_state_field (u128_max + 1) (nth_line ls 0) ''updated_nanos'' of
              None \<Rightarrow> empty_state now_nanos
            | Some u \<Rightarrow>
            case parse_state_field 18446744073709551616 (nth_line ls 1) ''tokens'' of
              None \<Rightarrow> empty_state now_nanos
            | Some t \<Rightarrow>
            case parse_state_field (u128_max + 1) (nth_line ls 2) ''remainder_nanos'' of
              None \<Rightarrow> empty_state now_nanos
            | Some r \<Rightarrow>
                \<lparr>tokens = min (of_nat t) (burst config), remainder_numerator = r, updated_nanos = u\<rparr>)"

definition format_state :: "bucket_state \<Rightarrow> string" where
  "format_state state =
     ''updated_nanos='' @ dec (updated_nanos state) @ [CHR 0x0A] @
     ''tokens='' @ dec (unat (tokens state)) @ [CHR 0x0A] @
     ''remainder_nanos='' @ dec (remainder_numerator state) @ [CHR 0x0A]"

text \<open>The replacement writes a temporary file, renames it over the ledger and syncs the directory. It fails
  before or after the rename, or succeeds.\<close>

datatype write_outcome = Written | FailedBeforeRename | FailedAfterRename

datatype rate_pool_error =
    LedgerWriteFailed
  | InvalidPoolName string
  | PoolNeedsTwoFields string
  | PoolFieldNotANumber string string
  | PoolFieldZero string string
  | HomeNotSet
  | RootNotCanonical string
  | RootSettingFailed config_error

fun write_state :: "write_outcome \<Rightarrow> bucket_state \<Rightarrow> string option \<Rightarrow> string option \<times> (rate_pool_error + unit)" where
  "write_state Written state ledger = (Some (format_state state), Inr ())"
| "write_state FailedBeforeRename state ledger = (ledger, Inl LedgerWriteFailed)"
| "write_state FailedAfterRename state ledger = (Some (format_state state), Inl LedgerWriteFailed)"

definition try_acquire_token ::
    "rate_pool_config \<Rightarrow> nat \<Rightarrow> write_outcome \<Rightarrow> string option \<Rightarrow> string option \<times> (rate_pool_error + bool)" where
  "try_acquire_token config now w ledger =
     (let state = refill (read_state ledger now config) config now;
          admitted = 0 < tokens state;
          state' = (if admitted then state\<lparr>tokens := tokens state - 1\<rparr> else state)
      in case write_state w state' ledger of
           (ledger', Inl e) \<Rightarrow> (ledger', Inl e)
         | (ledger', Inr _) \<Rightarrow> (ledger', Inr admitted))"

section \<open>Waiting for a token\<close>

definition INITIAL_WAIT :: duration where
  "INITIAL_WAIT = from_millis 20"

definition MAX_WAIT :: duration where
  "MAX_WAIT = from_secs 1"

text \<open>The loop of one process while no other one uses the bucket. \<open>clock n slept\<close> is the time the
  \<open>n\<close>-th attempt reads after \<open>slept\<close> nanoseconds of sleep; \<open>disk n\<close> is the answer of the file
  system to its replacement.\<close>

partial_function (option) acquire_loop ::
    "rate_pool_config \<Rightarrow> (nat \<Rightarrow> duration \<Rightarrow> nat) \<Rightarrow> (nat \<Rightarrow> write_outcome) \<Rightarrow> nat \<Rightarrow> duration \<Rightarrow> duration \<Rightarrow>
     string option \<Rightarrow> (string option \<times> (rate_pool_error + unit)) option" where
  "acquire_loop config clock disk n slept wait ledger =
     (case try_acquire_token config (clock n slept) (disk n) ledger of
        (ledger', Inl e) \<Rightarrow> Some (ledger', Inl e)
      | (ledger', Inr admitted) \<Rightarrow>
          if admitted then Some (ledger', Inr ())
          else acquire_loop config clock disk (n + 1) (slept + wait) (min (wait * 2) MAX_WAIT) ledger')"

definition acquire_token ::
    "rate_pool_config \<Rightarrow> (nat \<Rightarrow> duration \<Rightarrow> nat) \<Rightarrow> (nat \<Rightarrow> write_outcome) \<Rightarrow> string option \<Rightarrow>
     (string option \<times> (rate_pool_error + unit)) option" where
  "acquire_token config clock disk ledger = acquire_loop config clock disk 0 0 INITIAL_WAIT ledger"

section \<open>Pools and the commands they ration\<close>

definition validate_pool_name :: "string \<Rightarrow> bool" where
  "validate_pool_name name \<longleftrightarrow> name \<noteq> [] \<and> list_all (\<lambda>b. is_alnum b \<or> b = CHR ''_'') name"

definition parse_positive_u64 :: "string \<Rightarrow> string \<Rightarrow> string \<Rightarrow> rate_pool_error + u64" where
  "parse_positive_u64 env label raw =
     (case parse_u64 raw of
        None \<Rightarrow> Inl (PoolFieldNotANumber env label)
      | Some value \<Rightarrow> if value = 0 then Inl (PoolFieldZero env label) else Inr value)"

definition parse_pool_config :: "string \<Rightarrow> string \<Rightarrow> rate_pool_error + rate_pool_config" where
  "parse_pool_config env raw =
     (case map trim (split_on (CHR '','') raw) of
        [b, r] \<Rightarrow>
          rbind (parse_positive_u64 env ''burst'' b) (\<lambda>burst_value.
          rbind (parse_positive_u64 env ''refill_per_minute'' r) (\<lambda>refill_value.
            Inr \<lparr>burst = burst_value, refill_per_minute = refill_value\<rparr>))
      | _ \<Rightarrow> Inl (PoolNeedsTwoFields env))"

definition to_ascii_lowercase :: "string \<Rightarrow> string" where
  "to_ascii_lowercase s =
     map (\<lambda>c. let n = (of_char c :: nat) in if 65 \<le> n \<and> n \<le> 90 then char_of (n + 32) else c) s"

definition parse_pool_definition ::
    "rate_pool_config table \<Rightarrow> string \<times> string \<Rightarrow> rate_pool_error + rate_pool_config table" where
  "parse_pool_definition pools = (\<lambda>(env, raw).
     case strip_prefix ''FKST_RATE_POOL_'' env of
       None \<Rightarrow> Inr pools
     | Some name \<Rightarrow>
         if name = ''ROOT'' then Inr pools
         else if \<not> validate_pool_name name then Inl (InvalidPoolName env)
         else rbind (parse_pool_config env raw) (\<lambda>config. Inr (t_insert (to_ascii_lowercase name) config pools)))"

definition parse_pool_definitions :: "string table \<Rightarrow> rate_pool_error + rate_pool_config table" where
  "parse_pool_definitions values = fold_result parse_pool_definition t_empty (t_iter values)"

text \<open>\<open>PathBuf::push\<close> and \<open>Path::file_name\<close>.\<close>

definition path_push :: "string \<Rightarrow> string \<Rightarrow> string" where
  "path_push base p =
     (if p \<noteq> [] \<and> hd p = CHR ''/'' then p
      else if base = [] \<or> last base = CHR ''/'' then base @ p else base @ ''/'' @ p)"

definition file_name :: "string \<Rightarrow> string option" where
  "file_name path =
     (let segs = filter (\<lambda>s. s \<noteq> [] \<and> s \<noteq> ''.'') (split_on (CHR ''/'') path)
      in if segs = [] \<or> last segs = ''..'' then None else Some (last segs))"

definition expand_home :: "string option \<Rightarrow> string \<Rightarrow> rate_pool_error + string" where
  "expand_home home raw =
     (if raw = ''~'' \<or> starts_with raw ''~/''
      then (case home of
          None \<Rightarrow> Inl HomeNotSet
        | Some h \<Rightarrow>
            if h = [] then Inl HomeNotSet
            else Inr (if 2 < length raw then path_push h (drop 2 raw) else h))
      else Inr raw)"

text \<open>\<open>canonicalize\<close> creates the directory and resolves it; \<open>None\<close> when either fails.\<close>

record rate_pool_registry =
  rpr_root :: string
  rpr_pools :: "rate_pool_config table"

definition canonicalize_configured_root ::
    "(string \<Rightarrow> string option) \<Rightarrow> string \<Rightarrow> bool \<Rightarrow> rate_pool_error + string" where
  "canonicalize_configured_root canonicalize root no_pools =
     (if no_pools then Inr root
      else case canonicalize root of None \<Rightarrow> Inl (RootNotCanonical root) | Some p \<Rightarrow> Inr p)"

definition from_config ::
    "(string \<Rightarrow> string option) \<Rightarrow> string option \<Rightarrow> config_context \<Rightarrow> rate_pool_error + rate_pool_registry" where
  "from_config canonicalize home ctx =
     rbind (parse_pool_definitions (rate_pool_env ctx)) (\<lambda>pools.
     rbind (case resolved_string ctx RatePoolRoot of Inl e \<Rightarrow> Inl (RootSettingFailed e) | Inr raw \<Rightarrow> expand_home home raw)
       (\<lambda>root.
     rbind (canonicalize_configured_root canonicalize (path_push (host_root ctx) root) (pools = t_empty)) (\<lambda>root'.
       Inr \<lparr>rpr_root = root', rpr_pools = pools\<rparr>)))"

definition pool_values :: "(os_text \<times> os_text) list \<Rightarrow> rate_pool_error + string table" where
  "pool_values os =
     fold_result (\<lambda>values (k, v).
       case k of
         NonUtf8 \<Rightarrow> Inr values
       | Utf8 key \<Rightarrow>
           if rate_pool_key key
           then (case v of
               NonUtf8 \<Rightarrow> Inl (RootSettingFailed (NotUtf8 key))
             | Utf8 value \<Rightarrow> Inr (t_insert key value values))
           else Inr values) t_empty os"

definition from_env ::
    "(string \<Rightarrow> string option) \<Rightarrow> string option \<Rightarrow> (os_text \<times> os_text) list \<Rightarrow> rate_pool_error + rate_pool_registry" where
  "from_env canonicalize home os =
     rbind (case env_var os ''FKST_RATE_POOL_ROOT'' of
          Some NonUtf8 \<Rightarrow> Inl (RootSettingFailed (NotUtf8 ''FKST_RATE_POOL_ROOT''))
        | Some (Utf8 value) \<Rightarrow>
            if trim value \<noteq> [] then expand_home home (trim value) else expand_home home ''~/.fkst/rate-pools''
        | None \<Rightarrow> expand_home home ''~/.fkst/rate-pools'') (\<lambda>root.
     rbind (pool_values os) (\<lambda>values.
     rbind (parse_pool_definitions values) (\<lambda>pools.
     rbind (canonicalize_configured_root canonicalize root (pools = t_empty)) (\<lambda>root'.
       Inr \<lparr>rpr_root = root', rpr_pools = pools\<rparr>))))"

definition pool_name_for_program :: "string \<Rightarrow> string option" where
  "pool_name_for_program program = map_option to_ascii_lowercase (file_name program)"

text \<open>The first word of a shell command: quotes are removed, a backslash takes the next character as it is.\<close>

fun single_quoted :: "string \<Rightarrow> string \<times> string" where
  "single_quoted [] = ([], [])"
| "single_quoted (c # cs) =
     (if c = CHR 0x27 then ([], cs) else let (w, rest) = single_quoted cs in (c # w, rest))"

fun double_quoted :: "string \<Rightarrow> string \<times> string" where
  "double_quoted [] = ([], [])"
| "double_quoted (c # cs) =
     (if c = CHR 0x22 then ([], cs)
      else if c = CHR 0x5C
      then (case cs of [] \<Rightarrow> ([], []) | e # es \<Rightarrow> let (w, rest) = double_quoted es in (e # w, rest))
      else let (w, rest) = double_quoted cs in (c # w, rest))"

lemma single_quoted_shorter: "length (snd (single_quoted cs)) \<le> length cs"
  by (induction cs rule: single_quoted.induct) (auto split: prod.splits)

lemma double_quoted_shorter: "length (snd (double_quoted cs)) \<le> length cs"
proof (induction cs rule: double_quoted.induct)
  case (2 c cs)
  show ?case
  proof (cases "c = CHR 0x5C")
    case True
    then show ?thesis using 2(1) by (cases cs) (auto simp: case_prod_beta Let_def le_SucI)
  next
    case False
    then show ?thesis using 2(2) by (auto simp: case_prod_beta Let_def le_SucI)
  qed
qed simp

function shell_word :: "string \<Rightarrow> string" where
  "shell_word [] = []"
| "shell_word (c # cs) =
     (if c = CHR 0x27 then fst (single_quoted cs) @ shell_word (snd (single_quoted cs))
      else if c = CHR 0x22 then fst (double_quoted cs) @ shell_word (snd (double_quoted cs))
      else if c = CHR 0x5C then (case cs of [] \<Rightarrow> [] | e # es \<Rightarrow> e # shell_word es)
      else if ws_prefix (c # cs) \<noteq> 0 then []
      else c # shell_word cs)"
  by pat_completeness auto
termination
  by (relation "measure length") (auto simp: le_imp_less_Suc single_quoted_shorter double_quoted_shorter)

definition first_shell_word :: "string \<Rightarrow> string option" where
  "first_shell_word command =
     (let trimmed = trim_start command
      in if trimmed = [] \<or> hd trimmed = CHR ''#'' then None
         else if shell_word trimmed = [] then None else Some (shell_word trimmed))"

text \<open>The pool a command is charged to, and the acquisition: \<open>ledger_of\<close> is the ledger file of the pool.\<close>

definition pool_of_name :: "rate_pool_registry \<Rightarrow> string \<Rightarrow> (string \<times> rate_pool_config) option" where
  "pool_of_name reg name =
     (let normalized = to_ascii_lowercase name
      in map_option (\<lambda>config. (normalized, config)) (t_get (rpr_pools reg) normalized))"

definition acquire_for_name ::
    "rate_pool_registry \<Rightarrow> (nat \<Rightarrow> duration \<Rightarrow> nat) \<Rightarrow> (nat \<Rightarrow> write_outcome) \<Rightarrow> string \<Rightarrow> (string \<Rightarrow> string option) \<Rightarrow>
     ((string \<Rightarrow> string option) \<times> (rate_pool_error + bool)) option" where
  "acquire_for_name reg clock disk name ledgers =
     (case pool_of_name reg name of
        None \<Rightarrow> Some (ledgers, Inr False)
      | Some (normalized, config) \<Rightarrow>
          map_option (\<lambda>(ledger', r). (ledgers(normalized := ledger'), map_sum id (\<lambda>_. True) r))
            (acquire_token config clock disk (ledgers normalized)))"

definition acquire_for_program ::
    "rate_pool_registry \<Rightarrow> (nat \<Rightarrow> duration \<Rightarrow> nat) \<Rightarrow> (nat \<Rightarrow> write_outcome) \<Rightarrow> string \<Rightarrow> (string \<Rightarrow> string option) \<Rightarrow>
     ((string \<Rightarrow> string option) \<times> (rate_pool_error + bool)) option" where
  "acquire_for_program reg clock disk program ledgers =
     (case pool_name_for_program program of
        None \<Rightarrow> Some (ledgers, Inr False)
      | Some name \<Rightarrow> acquire_for_name reg clock disk name ledgers)"

definition acquire_for_command_text ::
    "rate_pool_registry \<Rightarrow> (nat \<Rightarrow> duration \<Rightarrow> nat) \<Rightarrow> (nat \<Rightarrow> write_outcome) \<Rightarrow> string \<Rightarrow> (string \<Rightarrow> string option) \<Rightarrow>
     ((string \<Rightarrow> string option) \<times> (rate_pool_error + bool)) option" where
  "acquire_for_command_text reg clock disk command ledgers =
     (case first_shell_word command of
        None \<Rightarrow> Some (ledgers, Inr False)
      | Some program \<Rightarrow> acquire_for_program reg clock disk program ledgers)"

section \<open>The ledger reads back\<close>

lemma dec_digits: "list_all is_digit (dec n)"
  by (induction n rule: dec.induct) (subst dec.simps, auto simp: is_digit_digit)

lemma digits_value_dec: "digits_value (dec n) = n"
proof (induction n rule: dec.induct)
  case (1 n)
  show ?case
  proof (cases "n < 10")
    case True
    then show ?thesis by (subst dec.simps) (simp add: digits_value_def of_char_digit)
  next
    case False
    then have "digits_value (dec n) = 10 * digits_value (dec (n div 10)) + (of_char (digit (n mod 10)) - 48)"
      by (subst dec.simps) (simp add: digits_value_snoc)
    also have "\<dots> = n" using 1 [OF False] by (simp add: of_char_digit)
    finally show ?thesis .
  qed
qed

lemma parse_nat_dec: "n < bound \<Longrightarrow> parse_nat bound (dec n) = Some n"
proof -
  assume n: "n < bound"
  obtain c cs where dec: "dec n = c # cs" by (cases "dec n") auto
  with dec_digits [of n] have "c \<noteq> CHR ''+''" by (auto simp: is_digit_def)
  with dec have "(case dec n of c # cs \<Rightarrow> if c = CHR ''+'' then cs else dec n | [] \<Rightarrow> []) = dec n" by simp
  with n dec_digits [of n] show ?thesis by (simp add: parse_nat_def digits_value_dec)
qed

lemma dec_plain: "c \<in> set (dec n) \<Longrightarrow> c \<noteq> CHR 0x0A \<and> c \<noteq> CHR 0x0D \<and> c \<noteq> CHR ''=''"
  using dec_digits [of n] by (auto simp: list_all_iff is_digit_def)

definition field_line :: "string \<Rightarrow> nat \<Rightarrow> string" where
  "field_line label n = label @ CHR ''='' # dec n"

lemma parse_field_line:
  "CHR ''='' \<notin> set label \<Longrightarrow> n < bound \<Longrightarrow> parse_state_field bound (Some (field_line label n)) label = Some n"
  by (simp add: parse_state_field_def field_line_def split_once_append parse_nat_dec)

lemma field_line_one_line:
  assumes "CHR 0x0A \<notin> set label"
  shows "CHR 0x0A \<notin> set (field_line label n)" and "strip_cr (field_line label n) = field_line label n"
proof -
  have "last (field_line label n) \<in> set (dec n)" by (simp add: field_line_def)
  then show "strip_cr (field_line label n) = field_line label n" by (auto simp: strip_cr_def dest: dec_plain)
  show "CHR 0x0A \<notin> set (field_line label n)" using assms by (auto simp: field_line_def dest: dec_plain)
qed

lemma lines_of_three:
  assumes "\<forall>l \<in> {a, b, c}. CHR 0x0A \<notin> set l \<and> strip_cr l = l"
  shows "lines_of (a @ [CHR 0x0A] @ b @ [CHR 0x0A] @ c @ [CHR 0x0A]) = [a, b, c]"
  using assms by (simp add: lines_of_def split_on_append Let_def)

lemma format_state_lines:
  "lines_of (format_state s) =
     [field_line ''updated_nanos'' (updated_nanos s), field_line ''tokens'' (unat (tokens s)),
      field_line ''remainder_nanos'' (remainder_numerator s)]"
proof -
  have "format_state s = field_line ''updated_nanos'' (updated_nanos s) @ [CHR 0x0A] @
      field_line ''tokens'' (unat (tokens s)) @ [CHR 0x0A] @
      field_line ''remainder_nanos'' (remainder_numerator s) @ [CHR 0x0A]"
    by (simp add: format_state_def field_line_def)
  moreover have "\<forall>l \<in> {field_line ''updated_nanos'' (updated_nanos s), field_line ''tokens'' (unat (tokens s)),
      field_line ''remainder_nanos'' (remainder_numerator s)}. CHR 0x0A \<notin> set l \<and> strip_cr l = l"
    by (simp add: field_line_one_line)
  ultimately show ?thesis by (simp only: lines_of_three)
qed

lemma trim_end_space: "ascii_ws c \<Longrightarrow> trim_end (s @ [c]) = trim_end s"
  by (subst trim_end.simps) (simp add: ws_suffix_def ws_prefix_space)

lemma trim_format_state: "trim (format_state s) \<noteq> []"
proof -
  obtain t c where t: "dec (remainder_numerator s) = t @ [c]" by (cases "dec (remainder_numerator s)" rule: rev_cases) auto
  then have c: "is_digit c" using dec_digits [of "remainder_numerator s"] by simp
  define m where "m = tl (''updated_nanos='' @ dec (updated_nanos s) @ [CHR 0x0A] @
     ''tokens='' @ dec (unat (tokens s)) @ [CHR 0x0A] @ ''remainder_nanos='' @ t)"
  have eq: "format_state s = (CHR ''u'' # m @ [c]) @ [CHR 0x0A]" by (simp add: format_state_def t m_def)
  have "trim_start (format_state s) = format_state s"
    using trim_start_plain [of "CHR ''u''" "m @ [c, CHR 0x0A]"] by (simp add: eq ascii_ws_def)
  moreover have "trim_end (format_state s) = CHR ''u'' # m @ [c]"
    using trim_end_space [of "CHR 0x0A" "CHR ''u'' # m @ [c]"] trim_end_plain [of c "CHR ''u'' # m"] c
    by (simp add: eq ascii_ws_def is_digit_def)
  ultimately show ?thesis by (simp add: trim_def)
qed

lemma read_format_state:
  assumes "tokens s \<le> burst config" and "updated_nanos s \<le> u128_max" and "remainder_numerator s \<le> u128_max"
  shows "read_state (Some (format_state s)) now_nanos config = s"
proof -
  have "parse_state_field (u128_max + 1) (Some (field_line ''updated_nanos'' (updated_nanos s))) ''updated_nanos'' =
      Some (updated_nanos s)"
    "parse_state_field (u128_max + 1) (Some (field_line ''remainder_nanos'' (remainder_numerator s))) ''remainder_nanos'' =
      Some (remainder_numerator s)"
    "parse_state_field 18446744073709551616 (Some (field_line ''tokens'' (unat (tokens s)))) ''tokens'' =
      Some (unat (tokens s))"
    using assms by (simp_all add: parse_field_line)
  with assms(1) show ?thesis
    by (simp add: read_state_def trim_format_state format_state_lines nth_line_def min_absorb1)
qed

section \<open>Metering\<close>

text \<open>The contract of a meter: what it still holds at a time is bounded by a capacity, grows with time at
  most at a rate, and every admission costs a unit. From it follows the bound on the admissions in a
  window of time. \<open>usable m t\<close> says that the meter \<open>m\<close> is in order at the time \<open>t\<close>; the times reach
  up to \<open>horizon\<close>.\<close>

fun admissions :: "(nat \<Rightarrow> 'w \<Rightarrow> 'm \<Rightarrow> 'm \<times> bool) \<Rightarrow> 'm \<Rightarrow> (nat \<times> 'w) list \<Rightarrow> 'm \<times> nat" where
  "admissions attempt m [] = (m, 0)"
| "admissions attempt m ((t, w) # xs) =
     (let (m1, a) = attempt t w m; (m2, n) = admissions attempt m1 xs
      in (m2, (if a then 1 else 0) + n))"

locale meter =
  fixes attempt :: "nat \<Rightarrow> 'w \<Rightarrow> 'm \<Rightarrow> 'm \<times> bool"
    and level :: "'m \<Rightarrow> nat \<Rightarrow> nat"
    and usable :: "'m \<Rightarrow> nat \<Rightarrow> bool"
    and cost rate cap horizon :: nat
  assumes level_cap: "level m t \<le> cap"
    and level_grows: "usable m t \<Longrightarrow> t \<le> t' \<Longrightarrow> level m t' \<le> level m t + (t' - t) * rate"
    and usable_later: "usable m t \<Longrightarrow> t \<le> t' \<Longrightarrow> usable m t'"
    and attempt_usable: "usable m t \<Longrightarrow> t \<le> horizon \<Longrightarrow> usable (fst (attempt t w m)) t"
    and attempt_spends: "usable m t \<Longrightarrow> t \<le> horizon \<Longrightarrow>
      level (fst (attempt t w m)) t + (if snd (attempt t w m) then cost else 0) \<le> level m t"
begin

lemma admissions_usable:
  assumes "sorted (t # map fst xs)" and "usable m t" and "last (t # map fst xs) \<le> horizon"
  shows "usable (fst (admissions attempt m xs)) (last (t # map fst xs))"
  using assms
proof (induction xs arbitrary: m t)
  case (Cons x xs)
  obtain t1 w where x: "x = (t1, w)" by (cases x)
  have "t1 \<le> last (t1 # map fst xs)" using Cons.prems(1) by (auto simp: x last_map)
  then have "t1 \<le> horizon" using Cons.prems(3) by (simp add: x)
  moreover have "usable m t1" using Cons.prems(1,2) usable_later by (simp add: x)
  ultimately have "usable (fst (attempt t1 w m)) t1" by (simp add: attempt_usable)
  then have "usable (fst (admissions attempt (fst (attempt t1 w m)) xs)) (last (t1 # map fst xs))"
    using Cons.prems(1,3) by (intro Cons.IH) (simp_all add: x)
  then show ?case by (simp add: x case_prod_beta Let_def)
qed simp

lemma admissions_bounded:
  assumes "sorted (t # map fst xs)" and "usable m t" and "last (t # map fst xs) \<le> horizon"
  shows "snd (admissions attempt m xs) * cost \<le> level m t + (last (t # map fst xs) - t) * rate"
  using assms
proof (induction xs arbitrary: m t)
  case (Cons x xs)
  obtain t1 w where x: "x = (t1, w)" by (cases x)
  let ?m1 = "fst (attempt t1 w m)" and ?last = "last (t1 # map fst xs)"
  have le: "t \<le> t1" "t1 \<le> ?last" using Cons.prems(1) by (auto simp: x last_map)
  have t1: "t1 \<le> horizon" "usable m t1"
    using le Cons.prems(3) usable_later [OF Cons.prems(2) le(1)] by (auto simp: x)
  have "snd (admissions attempt ?m1 xs) * cost \<le> level ?m1 t1 + (?last - t1) * rate"
    using Cons.prems(1,3) attempt_usable [OF t1(2,1)] by (intro Cons.IH) (simp_all add: x)
  moreover have "level ?m1 t1 + (if snd (attempt t1 w m) then cost else 0) \<le> level m t + (t1 - t) * rate"
    using attempt_spends [OF t1(2,1)] level_grows [OF Cons.prems(2) le(1)] by (rule order_trans)
  moreover have "(t1 - t) * rate + (?last - t1) * rate = (?last - t) * rate"
    using le by (simp add: add_mult_distrib [symmetric])
  ultimately have "((if snd (attempt t1 w m) then 1 else 0) + snd (admissions attempt ?m1 xs)) * cost
      \<le> level m t + (?last - t) * rate"
    by (simp add: algebra_simps split: if_splits)
  then show ?case by (simp add: x case_prod_beta Let_def)
qed simp

text \<open>The admissions in a window that starts with an attempt.\<close>

corollary window_bounded:
  assumes "sorted (t # map fst (before @ x # window))" and "usable m t"
    and "last (map fst (x # window)) \<le> horizon"
  shows "snd (admissions attempt (fst (admissions attempt m before)) (x # window)) * cost
    \<le> cap + (last (map fst (x # window)) - fst x) * rate"
proof -
  let ?m = "fst (admissions attempt m before)" and ?u = "last (t # map fst before)"
  have sorted: "sorted (t # map fst before)" "sorted (map fst (x # window))" "?u \<le> fst x"
    using assms(1) by (auto simp: sorted_append last_map)
  have "fst x \<le> last (map fst (x # window))" using sorted(2) by (auto simp: last_map)
  with assms(3) sorted(3) have "?u \<le> horizon" by simp
  then have "usable ?m ?u" using sorted(1) assms(2) by (intro admissions_usable) auto
  then have "usable ?m (fst x)" using sorted(3) usable_later by blast
  then have "snd (admissions attempt ?m (x # window)) * cost
      \<le> level ?m (fst x) + (last (fst x # map fst (x # window)) - fst x) * rate"
    using sorted(2) assms(3) by (intro admissions_bounded) auto
  with level_cap [of ?m "fst x"] show ?thesis by simp
qed

end

section \<open>The bucket is a meter\<close>

text \<open>The contents of a bucket in token fractions: what it holds, and what it is worth at a time, the refill
  that is still to be credited included.\<close>

definition contents :: "bucket_state \<Rightarrow> nat" where
  "contents s = unat (tokens s) * NANOS_PER_MINUTE + remainder_numerator s"

definition capacity_of :: "rate_pool_config \<Rightarrow> nat" where
  "capacity_of config = unat (burst config) * NANOS_PER_MINUTE"

definition bucket_ok :: "rate_pool_config \<Rightarrow> bucket_state \<Rightarrow> nat \<Rightarrow> bool" where
  "bucket_ok config s t \<longleftrightarrow> contents s \<le> capacity_of config \<and> updated_nanos s \<le> t"

definition worth :: "rate_pool_config \<Rightarrow> bucket_state \<Rightarrow> nat \<Rightarrow> nat" where
  "worth config s t =
     min (capacity_of config) (contents s + (t - updated_nanos s) * unat (refill_per_minute config))"

lemma nanos_pos [simp]: "0 < NANOS_PER_MINUTE"
  by (simp add: NANOS_PER_MINUTE_def)

lemma bucket_ok_tokens: "bucket_ok config s t \<Longrightarrow> tokens s \<le> burst config"
proof -
  assume "bucket_ok config s t"
  then have "unat (tokens s) * NANOS_PER_MINUTE \<le> unat (burst config) * NANOS_PER_MINUTE"
    unfolding bucket_ok_def contents_def capacity_of_def by linarith
  then show ?thesis by (simp add: word_le_nat_alt)
qed

lemma unat_min: "unat (min (a :: u64) b) = min (unat a) (unat b)"
  by (simp add: min_def word_le_nat_alt)

lemma refill_updated: "updated_nanos (refill s config now) = now"
  by (simp add: refill_def Let_def)

lemma produced_split: "n div NANOS_PER_MINUTE * NANOS_PER_MINUTE + n mod NANOS_PER_MINUTE = n"
  by (rule div_mult_mod_eq)

text \<open>A refill never credits more than the time that has passed is worth, nor more than the bucket holds.\<close>

lemma refill_contents:
  assumes "bucket_ok config s now"
  shows "contents (refill s config now) \<le> worth config s now"
proof -
  have le: "contents s \<le> capacity_of config" "updated_nanos s \<le> now" using assms by (simp_all add: bucket_ok_def)
  consider "now = updated_nanos s" | "updated_nanos s < now" "burst config \<le> tokens s"
    | "updated_nanos s < now" "tokens s < burst config" using le(2) by force
  then show ?thesis
  proof cases
    case 1
    then show ?thesis using le by (simp add: refill_def worth_def)
  next
    case 2
    then have "tokens s = burst config" using bucket_ok_tokens [OF assms] by simp
    with 2 le show ?thesis by (simp add: refill_def worth_def contents_def capacity_of_def)
  next
    case 3
    define num where "num = sat_add128 (sat_mul128 (now - updated_nanos s) (unat (refill_per_minute config)))
      (remainder_numerator s)"
    define p where "p = num div NANOS_PER_MINUTE"
    have num: "num \<le> (now - updated_nanos s) * unat (refill_per_minute config) + remainder_numerator s"
      by (simp add: num_def sat_add128_def sat_mul128_def)
    define r where "r = num mod NANOS_PER_MINUTE"
    have r: "r < NANOS_PER_MINUTE" by (simp add: r_def)
    have split: "p * NANOS_PER_MINUTE + r = num" unfolding p_def r_def by (rule produced_split)
    have t: "unat (tokens s) < unat (burst config)" using 3(2) by (simp add: word_less_nat_alt)
    define t' where "t' = min (sat_add (tokens s) (clamp_u64 p)) (burst config)"
    have t': "unat t' \<le> unat (tokens s) + p" "unat t' \<le> unat (burst config)"
      by (auto simp: t'_def unat_min unat_sat_add unat_clamp_u64)
    have "contents (refill s config now) \<le> unat (tokens s) * NANOS_PER_MINUTE + num \<and>
        contents (refill s config now) \<le> capacity_of config"
    proof (cases "0 < p")
      case False
      have "refill s config now = s\<lparr>remainder_numerator := r, updated_nanos := now\<rparr>"
        using 3 False by (simp add: refill_def Let_def num_def p_def r_def not_le)
      moreover have "Suc (unat (tokens s)) * NANOS_PER_MINUTE \<le> unat (burst config) * NANOS_PER_MINUTE"
        using t by (intro mult_right_mono) auto
      ultimately show ?thesis using False split r by (simp add: contents_def capacity_of_def)
    next
      case True
      have rf: "refill s config now =
          s\<lparr>tokens := t', remainder_numerator := (if burst config \<le> t' then 0 else r), updated_nanos := now\<rparr>"
        using 3 True by (simp add: refill_def Let_def num_def p_def r_def t'_def not_le)
      have "unat t' * NANOS_PER_MINUTE \<le> unat (tokens s) * NANOS_PER_MINUTE + p * NANOS_PER_MINUTE"
        using t'(1) by (metis add_mult_distrib mult_right_mono le0)
      moreover have "unat t' * NANOS_PER_MINUTE \<le> unat (burst config) * NANOS_PER_MINUTE"
        using t'(2) by (intro mult_right_mono) auto
      moreover have "Suc (unat t') * NANOS_PER_MINUTE \<le> unat (burst config) * NANOS_PER_MINUTE" if "\<not> burst config \<le> t'"
        using that by (intro mult_right_mono) (auto simp: not_le word_less_nat_alt)
      ultimately show ?thesis using split r by (auto simp: rf contents_def capacity_of_def)
    qed
    with num show ?thesis by (simp add: worth_def contents_def)
  qed
qed

text \<open>An attempt of any process, with what it leaves in the ledger and whether it was admitted.\<close>

definition rate_attempt :: "rate_pool_config \<Rightarrow> nat \<Rightarrow> write_outcome \<Rightarrow> string option \<Rightarrow> string option \<times> bool" where
  "rate_attempt config t w ledger =
     (fst (try_acquire_token config t w ledger), snd (try_acquire_token config t w ledger) = Inr True)"

definition ledger_worth :: "rate_pool_config \<Rightarrow> string option \<Rightarrow> nat \<Rightarrow> nat" where
  "ledger_worth config ledger t = worth config (read_state ledger t config) t"

definition ledger_ok :: "rate_pool_config \<Rightarrow> string option \<Rightarrow> nat \<Rightarrow> bool" where
  "ledger_ok config ledger t \<longleftrightarrow> bucket_ok config (read_state ledger t config) t"

text \<open>A ledger is unreadable at every time, or it holds one state.\<close>

lemma read_state_cases:
  obtains "\<And>t. read_state ledger t config = empty_state t"
  | s where "\<And>t. read_state ledger t config = s"
proof (cases "\<forall>t. read_state ledger t config = empty_state t")
  case True
  then show thesis using that(1) by blast
next
  case False
  then obtain t0 where "read_state ledger t0 config \<noteq> empty_state t0" by blast
  then have "read_state ledger t config = read_state ledger t0 config" for t
    by (auto simp: read_state_def Let_def split: option.splits if_splits)
  then show thesis by (rule that(2))
qed

lemma empty_state_simps [simp]:
  "contents (empty_state t) = 0" "updated_nanos (empty_state t) = t"
  by (simp_all add: contents_def empty_state_def)

definition after_attempt :: "rate_pool_config \<Rightarrow> nat \<Rightarrow> string option \<Rightarrow> bucket_state" where
  "after_attempt config t ledger =
     (let state = refill (read_state ledger t config) config t
      in if 0 < tokens state then state\<lparr>tokens := tokens state - 1\<rparr> else state)"

lemma try_acquire_cases:
  "try_acquire_token config t w ledger =
     (case w of
        Written \<Rightarrow> (Some (format_state (after_attempt config t ledger)),
                     Inr (0 < tokens (refill (read_state ledger t config) config t)))
      | FailedBeforeRename \<Rightarrow> (ledger, Inl LedgerWriteFailed)
      | FailedAfterRename \<Rightarrow> (Some (format_state (after_attempt config t ledger)), Inl LedgerWriteFailed))"
  by (cases w) (simp_all add: try_acquire_token_def after_attempt_def Let_def)

lemma after_attempt_updated: "updated_nanos (after_attempt config t ledger) = t"
  by (simp add: after_attempt_def Let_def refill_updated)

lemma after_attempt_spends:
  assumes "ledger_ok config ledger t"
  shows "contents (after_attempt config t ledger) +
      (if 0 < tokens (refill (read_state ledger t config) config t) then NANOS_PER_MINUTE else 0)
      \<le> ledger_worth config ledger t"
proof -
  let ?r = "refill (read_state ledger t config) config t"
  have "unat (tokens ?r - 1) + 1 = unat (tokens ?r)" if "0 < tokens ?r"
    using that by (metis add.commute add_diff_inverse_nat less_one nat_neq_iff unat_eq_zero unat_minus_one word_neq_0_conv)
  then have "unat (tokens ?r - 1) * NANOS_PER_MINUTE + NANOS_PER_MINUTE = unat (tokens ?r) * NANOS_PER_MINUTE"
    if "0 < tokens ?r" using that by (metis add_mult_distrib mult_1)
  then have "contents (after_attempt config t ledger) + (if 0 < tokens ?r then NANOS_PER_MINUTE else 0) = contents ?r"
    by (auto simp: after_attempt_def Let_def contents_def)
  also have "\<dots> \<le> ledger_worth config ledger t"
    using assms unfolding ledger_ok_def ledger_worth_def by (rule refill_contents)
  finally show ?thesis .
qed

lemma worth_cap: "worth config s t \<le> capacity_of config"
  by (simp add: worth_def)

lemma capacity_fits: "capacity_of config \<le> u128_max"
proof -
  have "unat (burst config) \<le> 18446744073709551615" by simp
  then show ?thesis unfolding capacity_of_def u128_max_def NANOS_PER_MINUTE_def by linarith
qed

lemma after_attempt_ok:
  assumes "ledger_ok config ledger t"
  shows "bucket_ok config (after_attempt config t ledger) t"
proof -
  have "contents (after_attempt config t ledger) \<le> ledger_worth config ledger t"
    using after_attempt_spends [OF assms] by linarith
  with worth_cap show ?thesis by (auto simp: bucket_ok_def after_attempt_updated ledger_worth_def intro: order_trans)
qed

lemma after_attempt_reads_back:
  assumes "ledger_ok config ledger t" and "t \<le> u128_max"
  shows "read_state (Some (format_state (after_attempt config t ledger))) u config = after_attempt config t ledger"
proof (rule read_format_state)
  note ok = after_attempt_ok [OF assms(1)]
  show "tokens (after_attempt config t ledger) \<le> burst config" using ok by (rule bucket_ok_tokens)
  show "updated_nanos (after_attempt config t ledger) \<le> u128_max" using assms(2) by (simp add: after_attempt_updated)
  have "remainder_numerator (after_attempt config t ledger) \<le> contents (after_attempt config t ledger)"
    by (simp add: contents_def)
  with ok capacity_fits [of config] show "remainder_numerator (after_attempt config t ledger) \<le> u128_max"
    by (simp add: bucket_ok_def)
qed

lemma after_attempt_worth:
  "bucket_ok config (after_attempt config t ledger) t \<Longrightarrow>
     worth config (after_attempt config t ledger) t = contents (after_attempt config t ledger)"
  by (simp add: worth_def bucket_ok_def after_attempt_updated)

interpretation bucket: meter "rate_attempt config" "ledger_worth config" "ledger_ok config"
  NANOS_PER_MINUTE "unat (refill_per_minute config)" "capacity_of config" u128_max for config
proof
  fix m :: "string option" and t t' :: nat and w
  show "ledger_worth config m t \<le> capacity_of config" by (simp add: ledger_worth_def worth_cap)
  show "ledger_worth config m t' \<le> ledger_worth config m t + (t' - t) * unat (refill_per_minute config)"
    if "ledger_ok config m t" "t \<le> t'"
  proof (rule read_state_cases [of m config])
    fix s assume s: "\<And>t. read_state m t config = s"
    have "(t' - updated_nanos s) * unat (refill_per_minute config) =
        (t' - t) * unat (refill_per_minute config) + (t - updated_nanos s) * unat (refill_per_minute config)"
      using that by (simp add: ledger_ok_def bucket_ok_def s add_mult_distrib [symmetric])
    then show ?thesis by (simp add: ledger_worth_def worth_def s min_def)
  qed (simp add: ledger_worth_def worth_def)
  show "ledger_ok config m t'" if "ledger_ok config m t" "t \<le> t'"
    using that by (rule_tac read_state_cases [of m config]) (auto simp: ledger_ok_def bucket_ok_def)
  show "ledger_ok config (fst (rate_attempt config t w m)) t" if "ledger_ok config m t" "t \<le> u128_max"
    using that after_attempt_ok [OF that(1)] after_attempt_reads_back [OF that]
    by (cases w) (simp_all add: rate_attempt_def try_acquire_cases, simp_all add: ledger_ok_def)
  show "ledger_worth config (fst (rate_attempt config t w m)) t +
      (if snd (rate_attempt config t w m) then NANOS_PER_MINUTE else 0) \<le> ledger_worth config m t"
    if "ledger_ok config m t" "t \<le> u128_max"
    using after_attempt_spends [OF that(1)] after_attempt_reads_back [OF that]
      after_attempt_worth [OF after_attempt_ok [OF that(1)]]
    by (cases w) (simp_all add: rate_attempt_def try_acquire_cases, simp_all add: ledger_worth_def split: if_splits)
qed

section \<open>Waiting ends\<close>

lemma refill_remainder:
  "remainder_numerator s \<le> u128_max \<Longrightarrow> remainder_numerator (refill s config now) \<le> u128_max"
proof -
  assume r: "remainder_numerator s \<le> u128_max"
  have "n mod NANOS_PER_MINUTE \<le> u128_max" for n
    using mod_less_divisor [OF nanos_pos, of n] unfolding NANOS_PER_MINUTE_def u128_max_def by linarith
  with r show ?thesis by (simp add: refill_def Let_def)
qed

lemma read_state_bounds:
  assumes "now \<le> u128_max"
  shows "remainder_numerator (read_state ledger now config) \<le> u128_max"
proof -
  have "parse_state_field (Suc u128_max) l x = Some v \<Longrightarrow> v \<le> u128_max" for l x v
    by (auto simp: parse_state_field_def parse_nat_def Let_def split: option.splits if_splits)
  then show ?thesis by (auto simp: read_state_def empty_state_def Let_def split: option.splits)
qed

text \<open>The ledger of a bucket that has just refused: no token, and a state that reads back.\<close>

definition refused :: "string option \<Rightarrow> bucket_state \<Rightarrow> bool" where
  "refused ledger s \<longleftrightarrow> ledger = Some (format_state s) \<and> tokens s = 0 \<and>
     updated_nanos s \<le> u128_max \<and> remainder_numerator s \<le> u128_max"

lemma refused_reads_back: "refused ledger s \<Longrightarrow> read_state ledger now config = s"
  by (auto simp: refused_def intro: read_format_state)

lemma attempt_refused:
  assumes "try_acquire_token config now w ledger = (ledger', Inr False)" and "now \<le> u128_max"
  shows "refused ledger' (refill (read_state ledger now config) config now)"
  using assms refill_remainder [OF read_state_bounds [OF assms(2)], of ledger config config now]
  by (cases w) (auto simp: try_acquire_cases refused_def after_attempt_def refill_updated word_gt_0 Let_def)

text \<open>Time that passes turns into token fractions until one token is complete.\<close>

lemma refill_progress:
  assumes "tokens s = 0" and "0 < burst config" and "0 < refill_per_minute config"
    and "0 < d" and "updated_nanos s + d \<le> now" and "tokens (refill s config now) = 0"
  shows "remainder_numerator s + d \<le> remainder_numerator (refill s config now)"
    and "remainder_numerator (refill s config now) < NANOS_PER_MINUTE"
proof -
  define num where "num = sat_add128 (sat_mul128 (now - updated_nanos s) (unat (refill_per_minute config)))
    (remainder_numerator s)"
  have later: "\<not> now < updated_nanos s" "now \<noteq> updated_nanos s" "\<not> burst config \<le> tokens s"
    using assms by auto
  have one: "min (sat_add 0 (clamp_u64 p)) (burst config) \<noteq> 0" if "0 < p" for p
  proof -
    have "unat (min (sat_add 0 (clamp_u64 p)) (burst config)) \<noteq> 0"
      using that assms(2) by (simp add: unat_min unat_sat_add unat_clamp_u64 word_less_nat_alt min_def)
    then show ?thesis by auto
  qed
  have div0: "num div NANOS_PER_MINUTE = 0"
  proof (rule ccontr)
    assume "num div NANOS_PER_MINUTE \<noteq> 0"
    moreover from this have "tokens (refill s config now) = min (sat_add 0 (clamp_u64 (num div NANOS_PER_MINUTE))) (burst config)"
      using later assms(1) by (auto simp: refill_def Let_def num_def)
    ultimately show False using one [of "num div NANOS_PER_MINUTE"] assms(6) by simp
  qed
  then have small: "num < NANOS_PER_MINUTE" using nanos_pos by (auto simp: div_eq_0_iff)
  have rem: "remainder_numerator (refill s config now) = num"
    using later div0 small by (simp add: refill_def Let_def num_def)
  have "d * 1 \<le> (now - updated_nanos s) * unat (refill_per_minute config)"
    using assms(3,5) by (intro mult_le_mono) (auto simp: word_less_nat_alt)
  moreover have "num = (now - updated_nanos s) * unat (refill_per_minute config) + remainder_numerator s"
    using small unfolding num_def sat_add128_def sat_mul128_def NANOS_PER_MINUTE_def u128_max_def by linarith
  ultimately show "remainder_numerator s + d \<le> remainder_numerator (refill s config now)" by (simp add: rem)
  show "remainder_numerator (refill s config now) < NANOS_PER_MINUTE" using small by (simp add: rem)
qed

text \<open>The number of attempts after which a token is complete, however slowly the bucket fills.\<close>

definition MAX_ATTEMPTS :: nat where
  "MAX_ATTEMPTS = 3001"

definition clock_advances :: "(nat \<Rightarrow> duration \<Rightarrow> nat) \<Rightarrow> bool" where
  "clock_advances clock \<longleftrightarrow>
     (\<forall>n slept d. clock n slept + d \<le> clock (n + 1) (slept + d)) \<and>
     (\<forall>n slept. n \<le> MAX_ATTEMPTS \<and> slept \<le> MAX_ATTEMPTS * MAX_WAIT \<longrightarrow> clock n slept \<le> u128_max)"

lemma acquire_loop_turn:
  assumes "0 < burst config" and "0 < refill_per_minute config" and "clock n slept \<le> u128_max"
    and "refused ledger s" and "updated_nanos s + INITIAL_WAIT \<le> clock n slept"
  obtains ledger' r where "acquire_loop config clock disk n slept wait ledger = Some (ledger', r)"
      "(\<forall>n. disk n = Written) \<longrightarrow> r = Inr ()"
  | ledger' s' where "acquire_loop config clock disk n slept wait ledger =
        acquire_loop config clock disk (n + 1) (slept + wait) (min (wait * 2) MAX_WAIT) ledger'"
      "refused ledger' s'" "updated_nanos s' = clock n slept"
      "remainder_numerator s + INITIAL_WAIT \<le> remainder_numerator s'" "remainder_numerator s' < NANOS_PER_MINUTE"
proof -
  let ?now = "clock n slept" and ?s' = "refill s config (clock n slept)"
  obtain ledger' x where x: "try_acquire_token config ?now (disk n) ledger = (ledger', x)" by fastforce
  show thesis
  proof (cases x)
    case (Inl e)
    then have "disk n \<noteq> Written" using x by (cases "disk n") (auto simp: try_acquire_cases)
    with Inl x show thesis by (intro that(1) [of ledger' "Inl e"]) (auto simp: acquire_loop.simps)
  next
    case (Inr admitted)
    show thesis
    proof (cases admitted)
      case True
      with Inr x show thesis by (intro that(1) [of ledger' "Inr ()"]) (auto simp: acquire_loop.simps)
    next
      case False
      with Inr x have r: "refused ledger' ?s'"
        using attempt_refused [of config ?now "disk n" ledger ledger'] assms(3,4) by (simp add: refused_reads_back)
      have prog: "remainder_numerator s + INITIAL_WAIT \<le> remainder_numerator ?s'" "remainder_numerator ?s' < NANOS_PER_MINUTE"
        using refill_progress [of s config INITIAL_WAIT ?now] assms r by (auto simp: refused_def INITIAL_WAIT_def from_millis_def)
      show thesis
        using False Inr x by (intro that(2) [OF _ r refill_updated prog]) (subst acquire_loop.simps, simp)
    qed
  qed
qed

lemma wait_bounds: "INITIAL_WAIT \<le> wait \<Longrightarrow> INITIAL_WAIT \<le> min (wait * 2) MAX_WAIT" "min (wait * 2) MAX_WAIT \<le> MAX_WAIT"
  by (auto simp: INITIAL_WAIT_def MAX_WAIT_def from_millis_def from_secs_def)

lemma acquire_loop_ends:
  assumes "0 < burst config" and "0 < refill_per_minute config" and "clock_advances clock"
    and "refused ledger s" and "updated_nanos s + INITIAL_WAIT \<le> clock n slept"
    and "INITIAL_WAIT \<le> wait" and "wait \<le> MAX_WAIT"
    and "NANOS_PER_MINUTE \<le> remainder_numerator s + k * INITIAL_WAIT"
    and "n + k \<le> MAX_ATTEMPTS" and "slept + k * MAX_WAIT \<le> MAX_ATTEMPTS * MAX_WAIT"
  shows "\<exists>ledger' r. acquire_loop config clock disk n slept wait ledger = Some (ledger', r) \<and>
    ((\<forall>n. disk n = Written) \<longrightarrow> r = Inr ())"
  using assms(4-)
proof (induction k arbitrary: n slept wait ledger s)
  case 0
  have "clock n slept \<le> u128_max" using 0(6,7) assms(3) by (simp add: clock_advances_def)
  from acquire_loop_turn [of config clock n slept, OF assms(1,2) this 0(1,2), of disk wait] show ?case
    using 0(5) by cases auto
next
  case (Suc k)
  have "clock n slept \<le> u128_max" using Suc.prems(6,7) assms(3) by (simp add: clock_advances_def)
  from acquire_loop_turn [of config clock n slept, OF assms(1,2) this Suc.prems(1,2), of disk wait] show ?case
  proof cases
    case (2 ledger' s')
    from 2 have turn: "acquire_loop config clock disk n slept wait ledger =
        acquire_loop config clock disk (n + 1) (slept + wait) (min (wait * 2) MAX_WAIT) ledger'"
      and s': "refused ledger' s'" "updated_nanos s' = clock n slept"
      and rem: "remainder_numerator s + INITIAL_WAIT \<le> remainder_numerator s'" "remainder_numerator s' < NANOS_PER_MINUTE"
      by blast+
    have "clock n slept + wait \<le> clock (n + 1) (slept + wait)" using assms(3) by (simp add: clock_advances_def)
    with s'(2) Suc.prems(3) have adv: "updated_nanos s' + INITIAL_WAIT \<le> clock (n + 1) (slept + wait)" by simp
    have "NANOS_PER_MINUTE \<le> remainder_numerator s' + k * INITIAL_WAIT" using Suc.prems(5) rem(1) by simp
    then show ?thesis unfolding turn
      using Suc.prems(4,6,7) by (intro Suc.IH [OF s'(1) adv wait_bounds(1) [OF Suc.prems(3)] wait_bounds(2)]) simp_all
  qed blast
qed

theorem acquire_token_ends:
  assumes "0 < burst config" and "0 < refill_per_minute config" and "clock_advances clock"
  shows "\<exists>ledger' r. acquire_token config clock disk ledger = Some (ledger', r) \<and>
    ((\<forall>n. disk n = Written) \<longrightarrow> r = Inr ())"
proof -
  let ?now = "clock 0 0"
  have now: "?now \<le> u128_max" using assms(3) by (simp add: clock_advances_def)
  obtain ledger' x where x: "try_acquire_token config ?now (disk 0) ledger = (ledger', x)" by fastforce
  consider e where "x = Inl e" | "x = Inr True" | "x = Inr False" by (cases x) auto
  then show ?thesis
  proof cases
    case 1
    then have "disk 0 \<noteq> Written" using x by (cases "disk 0") (auto simp: try_acquire_cases)
    with 1 x show ?thesis by (auto simp: acquire_token_def acquire_loop.simps)
  next
    case 2
    with x show ?thesis by (auto simp: acquire_token_def acquire_loop.simps)
  next
    case 3
    let ?s = "refill (read_state ledger ?now config) config ?now"
    have r: "refused ledger' ?s" using attempt_refused x 3 now by blast
    have adv: "updated_nanos ?s + INITIAL_WAIT \<le> clock 1 INITIAL_WAIT"
      using assms(3) unfolding clock_advances_def refill_updated by (metis One_nat_def add.left_neutral add_0)
    have "acquire_token config clock disk ledger =
        acquire_loop config clock disk 1 INITIAL_WAIT (min (INITIAL_WAIT * 2) MAX_WAIT) ledger'"
      using x 3 by (simp add: acquire_token_def) (subst acquire_loop.simps, simp)
    moreover have "\<exists>ledger'' r. acquire_loop config clock disk 1 INITIAL_WAIT (min (INITIAL_WAIT * 2) MAX_WAIT) ledger' =
        Some (ledger'', r) \<and> ((\<forall>n. disk n = Written) \<longrightarrow> r = Inr ())"
      by (rule acquire_loop_ends [OF assms r adv wait_bounds(1) [OF order_refl] wait_bounds(2), of 3000])
        (simp_all add: NANOS_PER_MINUTE_def INITIAL_WAIT_def MAX_WAIT_def MAX_ATTEMPTS_def from_millis_def from_secs_def)
    ultimately show ?thesis by simp
  qed
qed

end
