(* ===== verification/Name_Resolver.thy ===== *)
theory Name_Resolver
  imports Rust_Text
begin

text \<open>
  How the names of queues and departments are resolved between packages
  (\<open>fkst-framework/src/path_resolver.rs\<close>, \<open>NameResolver\<close>). With one namespace names stay flat; with
  several a bare name belongs to its owner and a qualified one names its namespace. Sets of strings are
  finite sets given by lists.
\<close>

section \<open>Names\<close>

datatype name_resolution_mode = LegacyFlat | Namespaced

record name_resolver =
  nr_mode :: name_resolution_mode
  namespaces :: "string list"
  recorded_only_queues :: "string list"

datatype name_error =
    EmptySegment string
  | BadSegment string string
  | NotBareOrQualified string
  | UnknownOwner string
  | ForeignNamespace string string
  | UnknownNamespace string string

datatype parsed_name = Bare string | Qualified string string

definition name_byte :: "char \<Rightarrow> bool" where
  "name_byte b \<longleftrightarrow> is_alnum b \<or> b = CHR ''_'' \<or> b = CHR ''-''"

definition validate_name_segment :: "string \<Rightarrow> string \<Rightarrow> name_error + unit" where
  "validate_name_segment label value =
     (if value = [] then Inl (EmptySegment label)
      else if \<not> list_all name_byte value then Inl (BadSegment label value)
      else Inr ())"

definition parse_name :: "string \<Rightarrow> name_error + parsed_name" where
  "parse_name raw =
     (case split_on (CHR ''.'') raw of
        [name] \<Rightarrow> rbind (validate_name_segment ''name'' name) (\<lambda>_. Inr (Bare name))
      | [namespace, name] \<Rightarrow>
          rbind (validate_name_segment ''namespace'' namespace) (\<lambda>_.
          rbind (validate_name_segment ''name'' name) (\<lambda>_. Inr (Qualified namespace name)))
      | _ \<Rightarrow> Inl (NotBareOrQualified raw))"

section \<open>The resolver\<close>

definition new_resolver :: "string list \<Rightarrow> name_resolver" where
  "new_resolver names =
     (let ns = remdups names
      in \<lparr>nr_mode = (if length ns = 1 then LegacyFlat else Namespaced), namespaces = ns, recorded_only_queues = []\<rparr>)"

definition with_recorded_only_queues :: "string list \<Rightarrow> name_resolver \<Rightarrow> name_resolver" where
  "with_recorded_only_queues queues r = r\<lparr>recorded_only_queues := queues\<rparr>"

definition add_recorded_only_queue :: "string \<Rightarrow> name_resolver \<Rightarrow> name_resolver" where
  "add_recorded_only_queue queue r = r\<lparr>recorded_only_queues := List.insert queue (recorded_only_queues r)\<rparr>"

definition validate_owner :: "name_resolver \<Rightarrow> string \<Rightarrow> name_error + unit" where
  "validate_owner r owner =
     rbind (if nr_mode r = Namespaced then validate_name_segment ''owner namespace'' owner else Inr ()) (\<lambda>_.
       if owner \<notin> set (namespaces r) then Inl (UnknownOwner owner) else Inr ())"

definition qualified_name :: "string \<Rightarrow> string \<Rightarrow> string" where
  "qualified_name namespace name = namespace @ ''.'' @ name"

definition resolve_name :: "name_resolver \<Rightarrow> string \<Rightarrow> string \<Rightarrow> name_error + string" where
  "resolve_name r owner raw =
     rbind (validate_owner r owner) (\<lambda>_.
     rbind (parse_name raw) (\<lambda>parsed.
       case (nr_mode r, parsed) of
         (LegacyFlat, Bare name) \<Rightarrow> Inr name
       | (LegacyFlat, Qualified namespace name) \<Rightarrow>
           if qualified_name namespace name \<in> set (recorded_only_queues r) then Inr (qualified_name namespace name)
           else if namespace \<noteq> owner then Inl (ForeignNamespace raw namespace)
           else Inr name
       | (Namespaced, Bare name) \<Rightarrow> Inr (qualified_name owner name)
       | (Namespaced, Qualified namespace name) \<Rightarrow>
           if namespace \<notin> set (namespaces r)
           then if qualified_name namespace name \<in> set (recorded_only_queues r) then Inr (qualified_name namespace name)
             else Inl (UnknownNamespace raw namespace)
           else Inr (qualified_name namespace name)))"

definition canonical_decl_name :: "name_resolver \<Rightarrow> string \<Rightarrow> string \<Rightarrow> name_error + string" where
  "canonical_decl_name r owner raw =
     rbind (if nr_mode r = Namespaced then validate_name_segment ''owner namespace'' owner else Inr ()) (\<lambda>_.
     rbind (validate_name_segment ''declaration name'' raw) (\<lambda>_.
       case nr_mode r of
         LegacyFlat \<Rightarrow> Inr raw
       | Namespaced \<Rightarrow> Inr (qualified_name owner raw)))"

section \<open>Segments and parses\<close>

definition name_segment :: "string \<Rightarrow> bool" where
  "name_segment s \<longleftrightarrow> s \<noteq> [] \<and> list_all name_byte s"

lemma validate_name_segment_ok [simp]: "validate_name_segment label v = Inr u \<longleftrightarrow> name_segment v"
  by (auto simp: validate_name_segment_def name_segment_def)

lemma name_segment_no_dot: "name_segment s \<Longrightarrow> CHR ''.'' \<notin> set s"
  by (auto simp: name_segment_def name_byte_def list_all_iff)

lemma qualified_name_inject:
  "name_segment a \<Longrightarrow> name_segment c \<Longrightarrow> qualified_name a b = qualified_name c d \<longleftrightarrow> a = c \<and> b = d"
  by (auto simp: qualified_name_def dest: name_segment_no_dot sep_append_inject)

lemma parse_bare: "name_segment s \<Longrightarrow> parse_name s = Inr (Bare s)"
  by (simp add: parse_name_def split_on_no_sep name_segment_no_dot rbind_eq_Inr)

lemma parse_qualified:
  "name_segment a \<Longrightarrow> name_segment b \<Longrightarrow> parse_name (qualified_name a b) = Inr (Qualified a b)"
  by (simp add: parse_name_def qualified_name_def split_on_append split_on_no_sep name_segment_no_dot rbind_eq_Inr)

lemma parse_name_cases:
  assumes "parse_name raw = Inr p"
  shows "(\<exists>n. p = Bare n \<and> raw = n \<and> name_segment n) \<or>
    (\<exists>a b. p = Qualified a b \<and> raw = qualified_name a b \<and> name_segment a \<and> name_segment b)"
proof -
  have raw: "raw = join ''.'' (split_on (CHR ''.'') raw)" by (simp add: join_split_on)
  show ?thesis
    using assms raw by (auto simp: parse_name_def rbind_eq_Inr qualified_name_def split: list.splits)
qed

text \<open>The names a resolver can answer with, and the name a department of a namespace means.\<close>

lemma resolve_name_namespaced:
  assumes "nr_mode r = Namespaced"
  shows "resolve_name r owner raw = Inr full \<longleftrightarrow>
    name_segment owner \<and> owner \<in> set (namespaces r) \<and>
    (name_segment raw \<and> full = qualified_name owner raw \<or>
     (\<exists>a b. raw = qualified_name a b \<and> name_segment a \<and> name_segment b \<and> full = raw \<and>
        (a \<in> set (namespaces r) \<or> raw \<in> set (recorded_only_queues r))))" (is "?l = ?r")
proof
  assume l: ?l
  then obtain p where "parse_name raw = Inr p" by (auto simp: resolve_name_def rbind_eq_Inr)
  then consider n where "raw = n" "name_segment n" | a b where "raw = qualified_name a b" "name_segment a" "name_segment b"
    by (auto dest: parse_name_cases)
  then show ?r
    using l assms by cases (auto simp: resolve_name_def validate_owner_def rbind_eq_Inr parse_bare parse_qualified split: if_splits)
next
  assume ?r
  then show ?l using assms
    by (auto simp: resolve_name_def validate_owner_def rbind_eq_Inr parse_bare parse_qualified)
qed

lemma resolve_name_flat:
  assumes "nr_mode r = LegacyFlat"
  shows "resolve_name r owner raw = Inr full \<longleftrightarrow>
    owner \<in> set (namespaces r) \<and>
    (name_segment raw \<and> full = raw \<or>
     (\<exists>a b. raw = qualified_name a b \<and> name_segment a \<and> name_segment b \<and>
        (if raw \<in> set (recorded_only_queues r) then full = raw else a = owner \<and> full = b)))" (is "?l = ?r")
proof
  assume l: ?l
  then obtain p where "parse_name raw = Inr p" by (auto simp: resolve_name_def rbind_eq_Inr)
  then consider n where "raw = n" "name_segment n" | a b where "raw = qualified_name a b" "name_segment a" "name_segment b"
    by (auto dest: parse_name_cases)
  then show ?r
    using l assms by cases (auto simp: resolve_name_def validate_owner_def rbind_eq_Inr parse_bare parse_qualified split: if_splits)
next
  assume ?r
  then show ?l using assms
    by (auto simp: resolve_name_def validate_owner_def rbind_eq_Inr parse_bare parse_qualified split: if_splits)
qed

end
