(* ===== verification/Host_Theorems.thy ===== *)
theory Host_Theorems
  imports Rate_Pool Name_Resolver
begin

text \<open>
  The properties of the host services: the settings, the token buckets that ration commands and the
  resolution of names between packages.
\<close>

section \<open>Settings\<close>

lemma config_entry_exists: "\<exists>e. config_entry_of k = Some e \<and> ce_key e = k"
  by (cases k) (simp_all add: config_entry_of_def CONFIG_REGISTRY_def config_row_def)

text \<open>No two settings share their variable, so setting one never changes another.\<close>

lemma registry_env_keys_distinct: "distinct (map env_key CONFIG_REGISTRY)"
  by (simp add: CONFIG_REGISTRY_def config_row_def)

text \<open>Every default of the registry is a value of its declared type.\<close>

definition default_typed :: "config_entry \<Rightarrow> bool" where
  "default_typed e =
     (case ce_kind e of
        HostFact \<Rightarrow> True
      | Operational dflt \<Rightarrow>
          (case value_type e of
             UsizeValue \<Rightarrow> (\<exists>n > 0. parse_positive_usize (env_key e) dflt = Inr n)
           | DurationStringValue \<Rightarrow> parse_positive_duration_string (env_key e) dflt = Inr dflt
           | StringValue \<Rightarrow> trim dflt = dflt \<and> dflt \<noteq> []))"

lemma trim_literal: "plain_ascii s \<Longrightarrow> trim s = s"
proof (cases "s = []")
  case True
  moreover have "trim [] = []" by code_simp
  ultimately show ?thesis by simp
qed (simp add: trim_plain)

lemma registry_defaults_typed: "list_all default_typed CONFIG_REGISTRY"
  by (simp add: CONFIG_REGISTRY_def config_row_def default_typed_def parse_positive_usize_def
      parse_positive_duration_string_def parse_duration_string_def trim_literal ascii_ws_def
      parse_u64_def parse_nat_def is_digit_def digits_value_def)

text \<open>Where a setting's value comes from.\<close>

lemma resolve_setting_source:
  assumes "resolve_setting key penv fenv = Inr r" and "config_entry_of key = Some e"
  shows "res_source r = FromEnv \<longleftrightarrow> nonempty (t_get penv (env_key e)) = Some (res_value r)"
    and "res_source r = FromDefault \<Longrightarrow> ce_kind e = Operational (res_value r)"
  using assms by (auto simp: resolve_setting_def split: option.splits config_kind.splits)

section \<open>Token buckets\<close>


text \<open>C28: A bucket admits no more than its rate. Let any processes use the bucket, one after another under
  its lock and with a clock that does not go back, starting from a ledger that does not exist; replacing
  the ledger may fail at any attempt. Then in every window of time the number of admitted commands is at
  most the burst plus what the refill rate yields during the window: a window from \<open>t\<close> to \<open>u\<close> admits
  at most \<open>burst + (u - t) * refill_per_minute / 1 min\<close>. The bound is exact to the nanosecond.\<close>

theorem rate_pool_bounded:
  assumes "sorted (map fst (before @ (t, w) # window))"
    and "last (map fst ((t, w) # window)) \<le> u128_max"
  shows "snd (admissions (rate_attempt config) (fst (admissions (rate_attempt config) None before)) ((t, w) # window)) *
      NANOS_PER_MINUTE
    \<le> unat (burst config) * NANOS_PER_MINUTE +
      (last (map fst ((t, w) # window)) - t) * unat (refill_per_minute config)"
proof -
  have "ledger_ok config None 0" by (simp add: ledger_ok_def bucket_ok_def read_state_def)
  moreover have "sorted (0 # map fst (before @ (t, w) # window))" using assms(1) by simp
  ultimately show ?thesis
    using bucket.window_bounded [of 0 before "(t, w)" window config None] assms(2) by (simp add: capacity_of_def)
qed


text \<open>One token of burst and one per minute: of four attempts within 90 seconds two are admitted.\<close>

definition slow_pool :: rate_pool_config where
  "slow_pool = \<lparr>burst = 1, refill_per_minute = 1\<rparr>"

definition spend :: "bucket_state \<Rightarrow> bucket_state" where
  "spend s = (if 0 < tokens s then s\<lparr>tokens := tokens s - 1\<rparr> else s)"

lemma attempt_missing:
  "rate_attempt config t Written None =
     (Some (format_state (spend (refill (empty_state t) config t))), 0 < tokens (refill (empty_state t) config t))"
  by (simp add: rate_attempt_def try_acquire_cases after_attempt_def read_state_def spend_def Let_def)

lemma attempt_stored:
  "tokens s \<le> burst config \<Longrightarrow> updated_nanos s \<le> u128_max \<Longrightarrow> remainder_numerator s \<le> u128_max \<Longrightarrow>
   rate_attempt config t Written (Some (format_state s)) =
     (Some (format_state (spend (refill s config t))), 0 < tokens (refill s config t))"
  by (simp add: rate_attempt_def try_acquire_cases after_attempt_def read_format_state spend_def Let_def)

theorem rate_pool_bounded_witness:
  "snd (admissions (rate_attempt slow_pool) None
     [(0, Written), (60000000000, Written), (60000000001, Written), (150000000000, Written)]) = 2 \<and>
   snd (admissions (rate_attempt slow_pool) None
     [(0, Written), (60000000000, Written), (60000000001, Written), (150000000000, Written)]) * NANOS_PER_MINUTE
   \<le> unat (burst slow_pool) * NANOS_PER_MINUTE + 150000000000 * unat (refill_per_minute slow_pool)"
proof -
  let ?w = "[(60000000000, Written), (60000000001, Written), (150000000000, Written)]"
  have "snd (admissions (rate_attempt slow_pool) None ((0, Written) # ?w)) = 2"
    by (simp add: attempt_missing attempt_stored refill_def empty_state_def slow_pool_def sat_add128_def sat_mul128_def
        NANOS_PER_MINUTE_def u128_max_def sat_add_def clamp_u64_def spend_def)
  moreover have "sorted (map fst ([] @ (0 :: nat, Written) # ?w))" by simp
  moreover have "last (map fst ((0 :: nat, Written) # ?w)) \<le> u128_max" by (simp add: u128_max_def)
  ultimately show ?thesis using rate_pool_bounded [of "[]" 0 Written ?w slow_pool] by simp
qed


section \<open>Names between packages\<close>

text \<open>C40: Names resolve consistently between packages. A resolved name resolves to itself, so resolution can
  be applied any number of times. With several packages a resolved name means the same to every owner,
  two owners reach the same name by bare names only if they are the same owner and wrote the same name
  (no package can capture the local name of another one), and the name under which a declaration is
  published is the one by which its owner refers to it.\<close>

theorem name_resolution_consistent:
  assumes "resolve_name r owner raw = Inr full"
  shows "resolve_name r owner full = Inr full \<and>
    (nr_mode r = Namespaced \<longrightarrow>
       (\<forall>other. name_segment other \<and> other \<in> set (namespaces r) \<longrightarrow> resolve_name r other full = Inr full) \<and>
       (\<forall>other raw'. CHR ''.'' \<notin> set raw \<and> CHR ''.'' \<notin> set raw' \<and> resolve_name r other raw' = Inr full \<longrightarrow>
          other = owner \<and> raw' = raw)) \<and>
    (\<forall>decl. canonical_decl_name r owner raw = Inr decl \<longrightarrow> decl = full)"
proof (cases "nr_mode r")
  case LegacyFlat
  then show ?thesis
    using assms by (auto simp: resolve_name_flat canonical_decl_name_def rbind_eq_Inr dest: name_segment_no_dot split: if_splits)
      (auto simp: qualified_name_def dest: name_segment_no_dot)
next
  case Namespaced
  have dotted: "CHR ''.'' \<in> set (qualified_name a b)" for a b by (simp add: qualified_name_def)
  show ?thesis
    using assms Namespaced
    by (auto simp: resolve_name_namespaced canonical_decl_name_def rbind_eq_Inr qualified_name_inject dotted
        dest: name_segment_no_dot)
qed

definition two_packages :: name_resolver where
  "two_packages = new_resolver [''billing'', ''host'']"

theorem name_resolution_consistent_witness:
  "resolve_name two_packages ''billing'' ''inbox'' = Inr ''billing.inbox'' \<and>
   resolve_name two_packages ''host'' ''billing.inbox'' = Inr ''billing.inbox'' \<and>
   resolve_name two_packages ''host'' ''inbox'' \<noteq> Inr ''billing.inbox''"
proof -
  have mode: "nr_mode two_packages = Namespaced" by code_simp
  have "resolve_name two_packages ''billing'' ''inbox'' = Inr ''billing.inbox''" by code_simp
  moreover have "name_segment ''host'' \<and> ''host'' \<in> set (namespaces two_packages)" by code_simp
  ultimately show ?thesis
    using name_resolution_consistent [of two_packages "''billing''" "''inbox''" "''billing.inbox''"] mode by force
qed

end
