(* ===== verification/Codex_Adoption.thy ===== *)
theory Codex_Adoption
  imports Rate_Pool Failure_Fact Terminal_Suppression
begin

text \<open>
  Adoptable codex runs (\<open>fkst-framework/src/sdk_codex.rs\<close>, with the error classes of
  \<open>boundary_resource.rs\<close>). A request for a worktree has a key, and the key a directory in which the
  requests and the detached workers of all processes meet: \<open>status.json\<close>, \<open>result.json\<close>,
  \<open>effect.json\<close>, a receipt log, the output files, the lock \<open>run.lock\<close> and one witness lock per run.

  A file holds what was written to it, or cannot be read or decoded. An operation is a function from the
  directory to the writes it plans, in order, and its answer; how far the plan gets is up to the step
  relation in \<open>Codex_Machine\<close>. Tail files and the logs of single runs lie outside the directory and are
  left out, as are the permit files.
\<close>

section \<open>Error classes\<close>

datatype boundary_error_class = QuotaExhausted | AuthDegraded | ProviderUnavailable | ProviderThrottle

fun boundary_label :: "boundary_error_class \<Rightarrow> string" where
  "boundary_label QuotaExhausted = ''quota-exhausted''"
| "boundary_label AuthDegraded = ''auth-degraded''"
| "boundary_label ProviderUnavailable = ''provider-unavailable''"
| "boundary_label ProviderThrottle = ''provider-throttle''"

fun has_infix :: "string \<Rightarrow> string \<Rightarrow> bool" where
  "has_infix needle [] = (needle = [])"
| "has_infix needle (c # cs) = (starts_with (c # cs) needle \<or> has_infix needle cs)"

definition contains_any :: "string \<Rightarrow> string list \<Rightarrow> bool" where
  "contains_any haystack needles = list_ex (\<lambda>needle. has_infix needle haystack) needles"

definition classify_text :: "string \<Rightarrow> boundary_error_class option" where
  "classify_text text =
     (let lower = to_ascii_lowercase text in
      if contains_any lower [''secondary rate limit'', ''abuse detection'', ''too many requests'', ''429'', ''throttl'']
      then Some ProviderThrottle
      else if contains_any lower
        [''quota exceeded'', ''quota-exhausted'', ''rate limit exceeded'', ''api rate limit'', ''resource exhausted'']
      then Some QuotaExhausted
      else if contains_any lower
        [''401'', ''bad credentials'', ''requires authentication'', ''authentication failed'', ''auth failed'',
         ''unauthorized'', ''keyring'']
      then Some AuthDegraded
      else if contains_any lower
        [''503'', ''502'', ''504'', ''service unavailable'', ''provider unavailable'', ''connection refused'',
         ''timed out'', ''timeout'']
      then Some ProviderUnavailable
      else None)"

definition class_for_adapter_failure :: "string \<Rightarrow> string \<Rightarrow> boundary_error_class" where
  "class_for_adapter_failure kind message =
     (case classify_text message of
        Some cls \<Rightarrow> cls
      | None \<Rightarrow> if kind = ''permit'' then QuotaExhausted else ProviderUnavailable)"

definition classify_process_output :: "int \<Rightarrow> string \<Rightarrow> string \<Rightarrow> boundary_error_class option" where
  "classify_process_output exit_status out err =
     (if exit_status = 0 then None else classify_text (out @ [CHR 0x0A] @ err))"

section \<open>Requests, records and results\<close>

datatype codex_sandbox = ReadOnly | WorkspaceWrite | DangerFullAccess

fun sandbox_str :: "codex_sandbox \<Rightarrow> string" where
  "sandbox_str ReadOnly = ''read-only''"
| "sandbox_str WorkspaceWrite = ''workspace-write''"
| "sandbox_str DangerFullAccess = ''danger-full-access''"

definition parse_sandbox :: "string \<Rightarrow> codex_sandbox option" where
  "parse_sandbox mode =
     (if mode = ''read-only'' then Some ReadOnly
      else if mode = ''workspace-write'' then Some WorkspaceWrite
      else if mode = ''danger-full-access'' then Some DangerFullAccess
      else None)"

record codex_diagnostic =
  cd_line :: nat
  cd_raw :: string

record codex_request =
  cq_run_id :: string
  cq_prompt :: string
  cq_context :: "string option"
  cq_worktree :: "string option"
  cq_sandbox :: "codex_sandbox option"
  cq_timeout_seconds :: int
  cq_log_path :: string
  cq_role :: "string option"
  cq_label :: "string option"
  cq_proposal_id :: "string option"
  cq_dedup_key :: "string option"
  cq_dept :: "string option"
  cq_started_at_ms :: u64

record codex_adoption_record =
  ar_key :: string
  ar_run_id :: string
  ar_role :: "string option"
  ar_label :: "string option"
  ar_dept :: "string option"
  ar_proposal_id :: "string option"
  ar_dedup_key :: "string option"
  ar_status :: string
  ar_started_at_ms :: u64
  ar_ended_at_ms :: "u64 option"
  ar_timeout_seconds :: int
  ar_worker_pid :: "u32 option"
  ar_codex_pid :: "u32 option"
  ar_exit_code :: "int option"
  ar_log_path :: string
  ar_cmd_line :: string
  ar_error_kind :: "string option"
  ar_error :: "string option"
  ar_codex_error_info :: "string option"
  ar_diagnostics :: "codex_diagnostic list"

record codex_adoption_result_record =
  rr_ended_at_ms :: u64
  rr_exit_code :: int
  rr_error_kind :: "string option"
  rr_error :: "string option"
  rr_codex_error_info :: "string option"
  rr_diagnostics :: "codex_diagnostic list"

record codex_adoption_effect_record =
  er_effect_key :: string
  er_stdout :: string
  er_stderr :: string
  er_result :: codex_adoption_result_record

datatype codex_provenance = Produced | Adopted

record codex_result =
  cx_stdout :: string
  cx_raw_stdout :: "string option"
  cx_stderr :: string
  cx_exit_code :: int
  cx_log_path :: string
  cx_error_kind :: "string option"
  cx_error_class :: "string option"
  cx_error :: "string option"
  cx_codex_error_info :: "string option"
  cx_diagnostics :: "codex_diagnostic list"
  cx_run_id :: "string option"
  cx_provenance :: codex_provenance

definition codex_success :: "string \<Rightarrow> string \<Rightarrow> int \<Rightarrow> string \<Rightarrow> codex_result" where
  "codex_success out err exit_status log_path =
     \<lparr>cx_stdout = out, cx_raw_stdout = None, cx_stderr = err, cx_exit_code = exit_status, cx_log_path = log_path,
      cx_error_kind = None, cx_error_class = map_option boundary_label (classify_process_output exit_status out err),
      cx_error = None, cx_codex_error_info = None, cx_diagnostics = [], cx_run_id = None, cx_provenance = Produced\<rparr>"

definition codex_failure :: "string \<Rightarrow> string \<Rightarrow> string \<Rightarrow> string \<Rightarrow> int \<Rightarrow> string \<Rightarrow> codex_result" where
  "codex_failure kind message out err exit_status log_path =
     \<lparr>cx_stdout = out, cx_raw_stdout = None,
      cx_stderr = (if trim err = [] then message else err @ [CHR 0x0A] @ message),
      cx_exit_code = exit_status, cx_log_path = log_path, cx_error_kind = Some kind,
      cx_error_class = Some (boundary_label (class_for_adapter_failure kind message)), cx_error = Some message,
      cx_codex_error_info = None, cx_diagnostics = [], cx_run_id = None, cx_provenance = Produced\<rparr>"

section \<open>Commands and keys\<close>

definition shell_quote :: "string \<Rightarrow> string" where
  "shell_quote value =
     (if list_all (\<lambda>b. is_alnum b \<or> b \<in> {CHR ''_'', CHR ''-'', CHR ''.'', CHR ''/'', CHR '':'', CHR ''=''}) value
      then value
      else [CHR 0x27] @ replace_all [CHR 0x27] [CHR 0x27, CHR 0x22, CHR 0x27, CHR 0x22, CHR 0x27] value @ [CHR 0x27])"

definition format_command :: "string \<Rightarrow> string list \<Rightarrow> string" where
  "format_command program args = join '' '' (program # map shell_quote args)"

definition command_args_for_request :: "codex_request \<Rightarrow> string list" where
  "command_args_for_request request =
     [''exec''] @
     (case cq_sandbox request of
        Some sandbox \<Rightarrow> [''--sandbox'', sandbox_str sandbox]
      | None \<Rightarrow> [''--dangerously-bypass-approvals-and-sandbox'']) @
     (case cq_context request of Some ctx \<Rightarrow> [''--context'', ctx] | None \<Rightarrow> []) @
     (case cq_worktree request of Some wt \<Rightarrow> [''-C'', wt] | None \<Rightarrow> []) @
     [''--json'', ''-'']"

definition command_line_for_request :: "codex_request \<Rightarrow> string" where
  "command_line_for_request request = format_command ''codex'' (command_args_for_request request)"

definition sanitize_adoption_key_segment :: "string \<Rightarrow> string" where
  "sanitize_adoption_key_segment value =
     (let key = map (\<lambda>b. if is_alnum b \<or> b = CHR ''_'' \<or> b = CHR ''-'' then b else CHR ''-'') (take 80 value)
      in if key = [] then ''work-unit'' else key)"

definition nul_tag :: "string \<Rightarrow> string" where
  "nul_tag s = [CHR 0x00] @ s @ [CHR 0x00]"

definition opt_text :: "string option \<Rightarrow> string" where
  "opt_text s = (case s of None \<Rightarrow> [] | Some t \<Rightarrow> t)"

definition adoption_request_hash :: "codex_request \<Rightarrow> string" where
  "adoption_request_hash request =
     hex16 (fnv1a64 0xcbf29ce484222325
       (opt_text (cq_dedup_key request) @
        nul_tag ''worktree'' @ opt_text (cq_worktree request) @
        (case cq_sandbox request of Some sandbox \<Rightarrow> nul_tag ''sandbox'' @ sandbox_str sandbox | None \<Rightarrow> []) @
        nul_tag ''prompt'' @ cq_prompt request @
        nul_tag ''context'' @ opt_text (cq_context request)))"

definition adoption_key_for_request :: "codex_request \<Rightarrow> string" where
  "adoption_key_for_request request =
     (case cq_dedup_key request of
        Some dedup \<Rightarrow> ''dedup-'' @ sanitize_adoption_key_segment dedup @ ''-'' @ adoption_request_hash request
      | None \<Rightarrow> ''prompt-'' @ adoption_request_hash request)"

text \<open>Only a request for a worktree is adoptable.\<close>

definition adoptable :: "codex_request \<Rightarrow> bool" where
  "adoptable request = (case cq_worktree request of None \<Rightarrow> False | Some wt \<Rightarrow> trim wt \<noteq> [])"

section \<open>The directory of a key\<close>

datatype 'a stored = Absent | Unreadable | Stored 'a

text \<open>A line of the receipt log is \<open>None\<close> when it has no receipt prefix or does not decode.\<close>

record adoption_dir =
  ad_status :: "codex_adoption_record stored"
  ad_result :: "codex_adoption_result_record stored"
  ad_effect :: "codex_adoption_effect_record stored"
  ad_effect_log :: "codex_adoption_effect_record option list stored"
  ad_stdout :: "string stored"
  ad_stderr :: "string stored"
  ad_prompt :: "string stored"

datatype adoption_write =
    WriteStatus codex_adoption_record
  | WriteResult codex_adoption_result_record
  | WriteEffect codex_adoption_effect_record
  | AppendEffectLog codex_adoption_effect_record
  | WriteStdout string
  | WriteStderr string
  | WritePrompt string
  | RemoveResult
  | RemoveEffect
  | RemoveEffectLog

fun apply_write :: "adoption_write \<Rightarrow> adoption_dir \<Rightarrow> adoption_dir" where
  "apply_write (WriteStatus r) d = d\<lparr>ad_status := Stored r\<rparr>"
| "apply_write (WriteResult r) d = d\<lparr>ad_result := Stored r\<rparr>"
| "apply_write (WriteEffect e) d = d\<lparr>ad_effect := Stored e\<rparr>"
| "apply_write (AppendEffectLog e) d =
     d\<lparr>ad_effect_log := (case ad_effect_log d of
         Absent \<Rightarrow> Stored [Some e]
       | Unreadable \<Rightarrow> Unreadable
       | Stored ls \<Rightarrow> Stored (ls @ [Some e]))\<rparr>"
| "apply_write (WriteStdout s) d = d\<lparr>ad_stdout := Stored s\<rparr>"
| "apply_write (WriteStderr s) d = d\<lparr>ad_stderr := Stored s\<rparr>"
| "apply_write (WritePrompt s) d = d\<lparr>ad_prompt := Stored s\<rparr>"
| "apply_write RemoveResult d = d\<lparr>ad_result := Absent\<rparr>"
| "apply_write RemoveEffect d = d\<lparr>ad_effect := Absent\<rparr>"
| "apply_write RemoveEffectLog d = d\<lparr>ad_effect_log := Absent\<rparr>"

definition apply_writes :: "adoption_write list \<Rightarrow> adoption_dir \<Rightarrow> adoption_dir" where
  "apply_writes ws d = fold apply_write ws d"

section \<open>Planned operations\<close>

datatype adoption_error =
    Unreadable_file
  | RecordNotVisible
  | RecordKeyMismatch
  | RecordStatusMismatch
  | EffectKeyMismatch
  | InvalidRunId string

type_synonym 'a plan = "adoption_dir \<Rightarrow> adoption_write list \<times> (adoption_error + 'a)"

definition give :: "'a \<Rightarrow> 'a plan" where
  "give x d = ([], Inr x)"

definition refuse :: "adoption_error \<Rightarrow> 'a plan" where
  "refuse e d = ([], Inl e)"

definition write_file :: "adoption_write \<Rightarrow> unit plan" where
  "write_file w d = ([w], Inr ())"

definition followed_by :: "'a plan \<Rightarrow> ('a \<Rightarrow> 'b plan) \<Rightarrow> 'b plan" where
  "followed_by m f d =
     (case m d of
        (ws, Inl e) \<Rightarrow> (ws, Inl e)
      | (ws, Inr x) \<Rightarrow> (case f x (apply_writes ws d) of (ws', r) \<Rightarrow> (ws @ ws', r)))"

definition read_file :: "(adoption_dir \<Rightarrow> 'a stored) \<Rightarrow> 'a option plan" where
  "read_file f d =
     (case f d of
        Absent \<Rightarrow> ([], Inr None)
      | Unreadable \<Rightarrow> ([], Inl Unreadable_file)
      | Stored x \<Rightarrow> ([], Inr (Some x)))"

definition read_optional_string :: "(adoption_dir \<Rightarrow> string stored) \<Rightarrow> string plan" where
  "read_optional_string f = followed_by (read_file f) (\<lambda>s. give (opt_text s))"

definition STATUS_INTENT :: string where "STATUS_INTENT = ''intent''"
definition STATUS_RUNNING :: string where "STATUS_RUNNING = ''running''"
definition STATUS_COMPLETED :: string where "STATUS_COMPLETED = ''completed''"

definition write_visible_adoption_record :: "codex_adoption_record \<Rightarrow> string \<Rightarrow> unit plan" where
  "write_visible_adoption_record r expected_status =
     followed_by (write_file (WriteStatus r)) (\<lambda>_.
     followed_by (read_file ad_status) (\<lambda>visible.
       case visible of
         None \<Rightarrow> refuse RecordNotVisible
       | Some v \<Rightarrow>
           if ar_key v \<noteq> ar_key r then refuse RecordKeyMismatch
           else if ar_status v \<noteq> expected_status then refuse RecordStatusMismatch
           else give ()))"

section \<open>Recovering what a run has left\<close>

definition completed_with :: "codex_adoption_record \<Rightarrow> codex_adoption_result_record \<Rightarrow> codex_adoption_record" where
  "completed_with r res =
     r\<lparr>ar_status := STATUS_COMPLETED, ar_ended_at_ms := Some (rr_ended_at_ms res),
       ar_exit_code := Some (rr_exit_code res), ar_error_kind := rr_error_kind res, ar_error := rr_error res,
       ar_codex_error_info := rr_codex_error_info res, ar_diagnostics := rr_diagnostics res\<rparr>"

definition promote_completed_adoption_result :: "codex_adoption_result_record \<Rightarrow> bool plan" where
  "promote_completed_adoption_result res =
     followed_by (read_file ad_status) (\<lambda>found.
       case found of
         None \<Rightarrow> give False
       | Some r \<Rightarrow>
           followed_by (write_visible_adoption_record (completed_with r res) STATUS_COMPLETED) (\<lambda>_. give True))"

definition promote_completed_adoption_effect :: "string \<Rightarrow> codex_adoption_effect_record \<Rightarrow> bool plan" where
  "promote_completed_adoption_effect key e =
     (if er_effect_key e \<noteq> key then refuse EffectKeyMismatch
      else
        followed_by (write_file (WriteStdout (er_stdout e))) (\<lambda>_.
        followed_by (write_file (WriteStderr (er_stderr e))) (\<lambda>_.
        followed_by (write_file (WriteResult (er_result e))) (\<lambda>_.
          promote_completed_adoption_result (er_result e)))))"

definition read_codex_effect_record_from_log :: "string \<Rightarrow> codex_adoption_effect_record option plan" where
  "read_codex_effect_record_from_log key =
     followed_by (read_file ad_effect_log) (\<lambda>body.
       give (case body of
           None \<Rightarrow> None
         | Some ls \<Rightarrow>
             foldl (\<lambda>matched line.
               case line of
                 Some e \<Rightarrow> if er_effect_key e = key then Some e else matched
               | None \<Rightarrow> matched) None ls))"

definition recover_completed_by ::
    "string \<Rightarrow> codex_adoption_effect_record option plan \<Rightarrow> bool plan" where
  "recover_completed_by key effect_of =
     followed_by (read_file ad_status) (\<lambda>found.
       case found of
         None \<Rightarrow> give False
       | Some r \<Rightarrow>
           if ar_status r = STATUS_COMPLETED \<or> ar_key r \<noteq> key then give False
           else followed_by effect_of (\<lambda>effect.
             case effect of
               None \<Rightarrow> give False
             | Some e \<Rightarrow> promote_completed_adoption_effect key e))"

definition recover_completed_adoption_effect_by_key :: "string \<Rightarrow> bool plan" where
  "recover_completed_adoption_effect_by_key key = recover_completed_by key (read_file ad_effect)"

definition recover_completed_external_codex_effect_by_key :: "string \<Rightarrow> bool plan" where
  "recover_completed_external_codex_effect_by_key key =
     recover_completed_by key (read_codex_effect_record_from_log key)"

definition recover_completed_adoption_result_locked_from_disk :: "string \<Rightarrow> bool plan" where
  "recover_completed_adoption_result_locked_from_disk key =
     followed_by (read_file ad_result) (\<lambda>found.
       case found of
         Some res \<Rightarrow> promote_completed_adoption_result res
       | None \<Rightarrow>
           followed_by (recover_completed_adoption_effect_by_key key) (\<lambda>recovered.
             if recovered then give True else recover_completed_external_codex_effect_by_key key))"

section \<open>Reading the outcome\<close>

definition adopted_result :: "codex_adoption_record \<Rightarrow> string \<Rightarrow> string \<Rightarrow> string \<Rightarrow> codex_result" where
  "adopted_result r out err requesting_run_id =
     (let exit_status = (case ar_exit_code r of None \<Rightarrow> -1 | Some c \<Rightarrow> c);
          provenance = (if ar_run_id r = requesting_run_id then Produced else Adopted);
          base = (case ar_error_kind r of
              Some kind \<Rightarrow>
                codex_failure kind (case ar_error r of None \<Rightarrow> ''adopted codex failed'' | Some m \<Rightarrow> m) out err
                  exit_status (ar_log_path r)
            | None \<Rightarrow> codex_success out err exit_status (ar_log_path r))
      in base\<lparr>cx_codex_error_info := ar_codex_error_info r, cx_diagnostics := ar_diagnostics r,
              cx_run_id := Some (ar_run_id r), cx_provenance := provenance\<rparr>)"

definition read_completed_adoption_result :: "string \<Rightarrow> codex_result option plan" where
  "read_completed_adoption_result requesting_run_id =
     followed_by (read_file ad_status) (\<lambda>found.
       case found of
         None \<Rightarrow> give None
       | Some r \<Rightarrow>
           if ar_status r \<noteq> STATUS_COMPLETED then give None
           else
             followed_by (read_optional_string ad_stdout) (\<lambda>out.
             followed_by (read_optional_string ad_stderr) (\<lambda>err.
               give (Some (adopted_result r out err requesting_run_id)))))"

definition adoption_result_succeeded :: "codex_result \<Rightarrow> bool" where
  "adoption_result_succeeded result \<longleftrightarrow> cx_error_kind result = None \<and> cx_exit_code result = 0"

definition only_reusable :: "codex_result option plan \<Rightarrow> codex_result option plan" where
  "only_reusable m =
     followed_by m (\<lambda>found.
       case found of
         None \<Rightarrow> give None
       | Some result \<Rightarrow> if adoption_result_succeeded result then give (Some result) else give None)"

definition read_reusable_adoption_result :: "string \<Rightarrow> codex_result option plan" where
  "read_reusable_adoption_result requesting_run_id = only_reusable (read_completed_adoption_result requesting_run_id)"

definition recover_completed_adoption_result_locked :: "string \<Rightarrow> string \<Rightarrow> codex_result option plan" where
  "recover_completed_adoption_result_locked key requesting_run_id =
     followed_by (recover_completed_adoption_result_locked_from_disk key) (\<lambda>recovered.
       if \<not> recovered then give None else read_completed_adoption_result requesting_run_id)"

definition recover_reusable_adoption_result_locked :: "string \<Rightarrow> string \<Rightarrow> codex_result option plan" where
  "recover_reusable_adoption_result_locked key requesting_run_id =
     only_reusable (recover_completed_adoption_result_locked key requesting_run_id)"

section \<open>Witnesses of running workers\<close>

text \<open>\<open>alive\<close> is the set of the runs whose witness lock is held.\<close>

definition valid_run_id :: "string \<Rightarrow> bool" where
  "valid_run_id run \<longleftrightarrow> run \<noteq> [] \<and> length run \<le> 200 \<and>
     list_all (\<lambda>b. is_alnum b \<or> b = CHR ''_'' \<or> b = CHR ''-'') run"

definition adoption_effect_alive :: "(string \<Rightarrow> bool) \<Rightarrow> codex_adoption_record \<Rightarrow> bool plan" where
  "adoption_effect_alive alive r =
     (if \<not> valid_run_id (ar_run_id r) then refuse (InvalidRunId (ar_run_id r)) else give (alive (ar_run_id r)))"

definition adoption_record_is_current :: "codex_adoption_record \<Rightarrow> string \<Rightarrow> string \<Rightarrow> bool" where
  "adoption_record_is_current r run key \<longleftrightarrow>
     ar_status r = STATUS_RUNNING \<and> ar_run_id r = run \<and> ar_key r = key"

section \<open>Starting a run\<close>

definition adoption_record_from_request ::
    "codex_request \<Rightarrow> string \<Rightarrow> string \<Rightarrow> u32 option \<Rightarrow> u32 option \<Rightarrow> codex_adoption_record" where
  "adoption_record_from_request request key status worker_pid codex_pid =
     \<lparr>ar_key = key, ar_run_id = cq_run_id request, ar_role = cq_role request, ar_label = cq_label request,
      ar_dept = cq_dept request, ar_proposal_id = cq_proposal_id request, ar_dedup_key = cq_dedup_key request,
      ar_status = status, ar_started_at_ms = cq_started_at_ms request, ar_ended_at_ms = None,
      ar_timeout_seconds = cq_timeout_seconds request, ar_worker_pid = worker_pid, ar_codex_pid = codex_pid,
      ar_exit_code = None, ar_log_path = cq_log_path request, ar_cmd_line = command_line_for_request request,
      ar_error_kind = None, ar_error = None, ar_codex_error_info = None, ar_diagnostics = []\<rparr>"

definition discard_previous_run_outcome :: "unit plan" where
  "discard_previous_run_outcome =
     followed_by (write_file RemoveResult) (\<lambda>_.
     followed_by (write_file RemoveEffect) (\<lambda>_. write_file RemoveEffectLog))"

definition start_adoption_worker :: "codex_request \<Rightarrow> string \<Rightarrow> unit plan" where
  "start_adoption_worker request key =
     followed_by discard_previous_run_outcome (\<lambda>_.
     followed_by (write_file (WritePrompt (cq_prompt request))) (\<lambda>_.
       write_visible_adoption_record (adoption_record_from_request request key STATUS_INTENT None None) STATUS_INTENT))"

text \<open>The part of a request under \<open>run.lock\<close>: it returns a reusable result, starts a worker, or waits for the
  one that runs.\<close>

datatype request_outcome = Returned codex_result | WorkerStarted | Waiting

definition run_adoptable_codex_request ::
    "(string \<Rightarrow> bool) \<Rightarrow> codex_request \<Rightarrow> string \<Rightarrow> request_outcome plan" where
  "run_adoptable_codex_request alive request key =
     followed_by (read_reusable_adoption_result (cq_run_id request)) (\<lambda>reusable.
       case reusable of
         Some result \<Rightarrow> give (Returned result)
       | None \<Rightarrow>
     followed_by (recover_reusable_adoption_result_locked key (cq_run_id request)) (\<lambda>recovered.
       case recovered of
         Some result \<Rightarrow> give (Returned result)
       | None \<Rightarrow>
     followed_by (read_file ad_status) (\<lambda>existing.
     followed_by (case existing of
           Some r \<Rightarrow> if ar_status r = STATUS_RUNNING then adoption_effect_alive alive r else give False
         | None \<Rightarrow> give False) (\<lambda>running.
       if running then give Waiting
       else followed_by (start_adoption_worker request key) (\<lambda>_. give WorkerStarted)))))"

section \<open>The worker\<close>

text \<open>The worker takes over the lock of its request. The answer is whether it goes on to run codex; then it
  holds the witness lock of its run.\<close>

definition claim_adoption_worker :: "(string \<Rightarrow> bool) \<Rightarrow> codex_request \<Rightarrow> string \<Rightarrow> u32 \<Rightarrow> bool plan" where
  "claim_adoption_worker alive request key pid =
     followed_by (recover_completed_adoption_result_locked_from_disk key) (\<lambda>recovered.
       if recovered then give False
       else if \<not> valid_run_id (cq_run_id request) then refuse (InvalidRunId (cq_run_id request))
       else if alive (cq_run_id request) then give False
       else
         followed_by (read_file ad_status) (\<lambda>existing.
         if (case existing of None \<Rightarrow> False | Some r \<Rightarrow> ar_status r = STATUS_COMPLETED) then give False
         else
           followed_by (case existing of
               Some r \<Rightarrow>
                 if ar_status r = STATUS_RUNNING \<and> ar_worker_pid r \<noteq> Some pid
                 then adoption_effect_alive (alive(cq_run_id request := True)) r else give False
             | None \<Rightarrow> give False) (\<lambda>other_runs.
             if other_runs then give False
             else
               followed_by (write_visible_adoption_record
                   (adoption_record_from_request request key STATUS_RUNNING (Some pid) None) STATUS_RUNNING)
                 (\<lambda>_. give True))))"

definition write_adoption_child_pid :: "string \<Rightarrow> string \<Rightarrow> u32 \<Rightarrow> unit plan" where
  "write_adoption_child_pid run key child_pid =
     followed_by (read_file ad_status) (\<lambda>found.
       case found of
         None \<Rightarrow> give ()
       | Some r \<Rightarrow>
           if \<not> adoption_record_is_current r run key then give ()
           else write_visible_adoption_record (r\<lparr>ar_codex_pid := Some child_pid\<rparr>) (ar_status r))"

definition result_record :: "codex_result \<Rightarrow> u64 \<Rightarrow> codex_adoption_result_record" where
  "result_record result ended_at_ms =
     \<lparr>rr_ended_at_ms = ended_at_ms, rr_exit_code = cx_exit_code result, rr_error_kind = cx_error_kind result,
      rr_error = cx_error result, rr_codex_error_info = cx_codex_error_info result,
      rr_diagnostics = cx_diagnostics result\<rparr>"

definition effect_record :: "string \<Rightarrow> codex_result \<Rightarrow> u64 \<Rightarrow> codex_adoption_effect_record" where
  "effect_record key result ended_at_ms =
     \<lparr>er_effect_key = key, er_stdout = cx_stdout result, er_stderr = cx_stderr result,
      er_result = result_record result ended_at_ms\<rparr>"

definition write_codex_effect_receipt :: "string \<Rightarrow> string \<Rightarrow> codex_result \<Rightarrow> u64 \<Rightarrow> unit plan" where
  "write_codex_effect_receipt run key result now_ms =
     followed_by (read_file ad_status) (\<lambda>current.
       if \<not> (case current of None \<Rightarrow> False | Some r \<Rightarrow> adoption_record_is_current r run key) then give ()
       else write_file (AppendEffectLog (effect_record key result now_ms)))"

text \<open>The result a worker reports when its receipt could not be written.\<close>

definition receipt_failure :: "codex_result \<Rightarrow> string \<Rightarrow> codex_result" where
  "receipt_failure result message =
     codex_failure ''effect_receipt'' (''codex effect receipt write failed: '' @ message) (cx_stdout result)
       (cx_stderr result) (-1) (cx_log_path result)"

definition publish_adoption_result_if_current ::
    "codex_request \<Rightarrow> string \<Rightarrow> u32 \<Rightarrow> codex_result \<Rightarrow> u64 \<Rightarrow> bool plan" where
  "publish_adoption_result_if_current request key pid result ended_at_ms =
     followed_by (read_file ad_status) (\<lambda>found.
       case found of
         None \<Rightarrow> give False
       | Some current \<Rightarrow>
           if \<not> adoption_record_is_current current (cq_run_id request) key then give False
           else
             followed_by (write_file (WriteEffect (effect_record key result ended_at_ms))) (\<lambda>_.
             followed_by (write_file (WriteStdout (cx_stdout result))) (\<lambda>_.
             followed_by (write_file (WriteStderr (cx_stderr result))) (\<lambda>_.
             followed_by (write_file (WriteResult (result_record result ended_at_ms))) (\<lambda>_.
             followed_by (write_visible_adoption_record
                 (completed_with (adoption_record_from_request request key STATUS_RUNNING (Some pid) None)
                   (result_record result ended_at_ms)) STATUS_COMPLETED) (\<lambda>_. give True))))))"

end
