(* ===== verification/Codex_Machine.thy ===== *)
theory Codex_Machine
  imports Codex_Adoption Transition_System
begin

text \<open>
  The processes that share the directory of a key: requests, waiting requests and detached workers.
  Whoever holds \<open>run.lock\<close> works through the writes it has planned, one step per write; it may stop before
  any of them, because a write fails or because the process dies. A worker inherits the lock from its
  request and gives it back once it has claimed the run. Its witness lock is held from the claim until it
  and its codex child are gone.
\<close>

section \<open>Steps\<close>

datatype continuation =
    Unlock
  | Spawn codex_request
  | Begin codex_request u32
  | Report codex_request u32 codex_result

datatype lock_holder = Section string "adoption_write list" continuation | Inherited codex_request

datatype worker = Claiming | Executing codex_request u32 | Reporting codex_request u32 codex_result

record adoption_system =
  as_dir :: adoption_dir
  as_lock :: "lock_holder option"
  as_workers :: "string \<Rightarrow> worker option"

definition alive :: "adoption_system \<Rightarrow> string \<Rightarrow> bool" where
  "alive s rid \<longleftrightarrow> as_workers s rid \<noteq> None"

definition after_request :: "codex_request \<Rightarrow> adoption_error + request_outcome \<Rightarrow> continuation" where
  "after_request req r = (if r = Inr WorkerStarted then Spawn req else Unlock)"

text \<open>What a worker is left with when the file system refuses one of its writes.\<close>

definition after_io_error :: "string \<Rightarrow> continuation \<Rightarrow> (string \<Rightarrow> worker option) \<Rightarrow> (string \<Rightarrow> worker option)" where
  "after_io_error message k w =
     (case k of
        Unlock \<Rightarrow> w
      | Spawn req \<Rightarrow> w
      | Begin req pid \<Rightarrow> w(cq_run_id req := None)
      | Report req pid result \<Rightarrow> w(cq_run_id req \<mapsto> Reporting req pid (receipt_failure result message)))"

datatype adoption_label = Requests string | Recovers string | Writes | Unlocks | Spawns string | Claims string
  | WorkBegins string | NotesChild string | Receipts string | Publishes string | IoError | Crash | WorkerDies string

inductive adoption_step :: "string \<Rightarrow> adoption_label \<Rightarrow> adoption_system \<Rightarrow> adoption_system \<Rightarrow> bool" for key where
  request:
    "as_lock s = None \<Longrightarrow> run_adoptable_codex_request (alive s) req key (as_dir s) = (ws, r) \<Longrightarrow>
     adoption_step key (Requests (cq_run_id req)) s
       (s\<lparr>as_lock := Some (Section (cq_run_id req) ws (after_request req r))\<rparr>)"
| recover:
    "as_lock s = None \<Longrightarrow> recover_completed_adoption_result_locked key rid (as_dir s) = (ws, r) \<Longrightarrow>
     adoption_step key (Recovers rid) s (s\<lparr>as_lock := Some (Section rid ws Unlock)\<rparr>)"
| do_write:
    "as_lock s = Some (Section rid (w # ws) k) \<Longrightarrow>
     adoption_step key Writes s (s\<lparr>as_dir := apply_write w (as_dir s), as_lock := Some (Section rid ws k)\<rparr>)"
| unlock:
    "as_lock s = Some (Section rid [] Unlock) \<Longrightarrow> adoption_step key Unlocks s (s\<lparr>as_lock := None\<rparr>)"
| spawn:
    "as_lock s = Some (Section rid [] (Spawn req)) \<Longrightarrow>
     adoption_step key (Spawns rid) s (s\<lparr>as_lock := Some (Inherited req)\<rparr>)"
| claim:
    "as_lock s = Some (Inherited req) \<Longrightarrow> claim_adoption_worker (alive s) req key pid (as_dir s) = (ws, Inr True) \<Longrightarrow>
     adoption_step key (Claims (cq_run_id req)) s
       (s\<lparr>as_lock := Some (Section (cq_run_id req) ws (Begin req pid)),
          as_workers := (as_workers s)(cq_run_id req \<mapsto> Claiming)\<rparr>)"
| claim_refused:
    "as_lock s = Some (Inherited req) \<Longrightarrow> claim_adoption_worker (alive s) req key pid (as_dir s) = (ws, r) \<Longrightarrow>
     r \<noteq> Inr True \<Longrightarrow>
     adoption_step key (Claims (cq_run_id req)) s (s\<lparr>as_lock := Some (Section (cq_run_id req) ws Unlock)\<rparr>)"
| begin_work:
    "as_lock s = Some (Section rid [] (Begin req pid)) \<Longrightarrow>
     adoption_step key (WorkBegins rid) s
       (s\<lparr>as_lock := None, as_workers := (as_workers s)(rid \<mapsto> Executing req pid)\<rparr>)"
| child_pid:
    "as_lock s = None \<Longrightarrow> as_workers s rid = Some (Executing req pid) \<Longrightarrow>
     write_adoption_child_pid rid key child (as_dir s) = (ws, r) \<Longrightarrow>
     adoption_step key (NotesChild rid) s (s\<lparr>as_lock := Some (Section rid ws Unlock)\<rparr>)"
| receipt:
    "as_lock s = None \<Longrightarrow> as_workers s rid = Some (Executing req pid) \<Longrightarrow> rid = cq_run_id req \<Longrightarrow>
     write_codex_effect_receipt rid key result now_ms (as_dir s) = (ws, Inr ()) \<Longrightarrow>
     adoption_step key (Receipts rid) s
       (s\<lparr>as_lock := Some (Section rid ws (Report req pid result)),
          as_workers := (as_workers s)(rid \<mapsto> Reporting req pid result)\<rparr>)"
| receipt_refused:
    "as_lock s = None \<Longrightarrow> as_workers s rid = Some (Executing req pid) \<Longrightarrow>
     write_codex_effect_receipt rid key result now_ms (as_dir s) = (ws, Inl e) \<Longrightarrow>
     adoption_step key (Receipts rid) s
       (s\<lparr>as_workers := (as_workers s)(rid \<mapsto> Reporting req pid (receipt_failure result message))\<rparr>)"
| report:
    "as_lock s = Some (Section rid [] (Report req pid result)) \<Longrightarrow> adoption_step key Unlocks s (s\<lparr>as_lock := None\<rparr>)"
| publish:
    "as_lock s = None \<Longrightarrow> as_workers s rid = Some (Reporting req pid result) \<Longrightarrow> rid = cq_run_id req \<Longrightarrow>
     publish_adoption_result_if_current req key pid result now_ms (as_dir s) = (ws, r) \<Longrightarrow>
     adoption_step key (Publishes rid) s (s\<lparr>as_lock := Some (Section rid ws Unlock)\<rparr>)"
| io_error:
    "as_lock s = Some (Section rid (w # ws) k) \<Longrightarrow>
     adoption_step key IoError s (s\<lparr>as_lock := None, as_workers := after_io_error message k (as_workers s)\<rparr>)"
| crash:
    "as_lock s = Some (Section rid ws k) \<Longrightarrow>
     adoption_step key Crash s (s\<lparr>as_lock := None, as_workers := (as_workers s)(rid := None)\<rparr>)"
| worker_lost:
    "as_lock s = Some (Inherited req) \<Longrightarrow> adoption_step key Crash s (s\<lparr>as_lock := None\<rparr>)"
| worker_dies:
    "as_workers s rid \<noteq> Some Claiming \<Longrightarrow> (\<nexists>ws k. as_lock s = Some (Section rid ws k)) \<Longrightarrow>
     adoption_step key (WorkerDies rid) s (s\<lparr>as_workers := (as_workers s)(rid := None)\<rparr>)"

definition empty_dir :: adoption_dir where
  "empty_dir = \<lparr>ad_status = Absent, ad_result = Absent, ad_effect = Absent, ad_effect_log = Absent,
     ad_stdout = Absent, ad_stderr = Absent, ad_prompt = Absent\<rparr>"

definition adoption_init :: "adoption_system \<Rightarrow> bool" where
  "adoption_init s \<longleftrightarrow> s = \<lparr>as_dir = empty_dir, as_lock = None, as_workers = (\<lambda>_. None)\<rparr>"

section \<open>States of the directory\<close>

definition succeeded :: "codex_adoption_result_record \<Rightarrow> bool" where
  "succeeded res \<longleftrightarrow> rr_error_kind res = None \<and> rr_exit_code res = 0"

definition record_succeeded :: "codex_adoption_record \<Rightarrow> bool" where
  "record_succeeded r \<longleftrightarrow> ar_error_kind r = None \<and> ar_exit_code r = Some 0"

definition has_status :: "string \<Rightarrow> string \<Rightarrow> adoption_dir \<Rightarrow> bool" where
  "has_status st rid d \<longleftrightarrow> (\<exists>r. ad_status d = Stored r \<and> ar_status r = st \<and> ar_run_id r = rid)"

definition no_outcome :: "adoption_dir \<Rightarrow> bool" where
  "no_outcome d \<longleftrightarrow> ad_result d = Absent \<and> ad_effect d = Absent \<and> ad_effect_log d = Absent"

text \<open>The outcome that a recovery would promote.\<close>

definition outcome :: "adoption_dir \<Rightarrow> codex_adoption_result_record option" where
  "outcome d =
     (case ad_result d of
        Stored res \<Rightarrow> Some res
      | _ \<Rightarrow>
        (case ad_effect d of
           Stored e \<Rightarrow> Some (er_result e)
         | _ \<Rightarrow>
           (case ad_effect_log d of
              Stored ls \<Rightarrow> (case last ls of Some e \<Rightarrow> Some (er_result e) | None \<Rightarrow> None)
            | _ \<Rightarrow> None)))"

text \<open>A successful run is on record: as the completed status, or as an outcome that is still to be promoted.\<close>

definition success_recorded :: "adoption_dir \<Rightarrow> bool" where
  "success_recorded d \<longleftrightarrow>
     (\<exists>r. ad_status d = Stored r \<and>
        (if ar_status r = STATUS_COMPLETED then record_succeeded r
         else \<exists>res. outcome d = Some res \<and> succeeded res))"

text \<open>Every file can be read, and carries the key of the directory.\<close>

definition tidy :: "string \<Rightarrow> adoption_dir \<Rightarrow> bool" where
  "tidy key d \<longleftrightarrow>
     ad_status d \<noteq> Unreadable \<and> ad_result d \<noteq> Unreadable \<and> ad_effect d \<noteq> Unreadable \<and> ad_effect_log d \<noteq> Unreadable \<and>
     ad_stdout d \<noteq> Unreadable \<and> ad_stderr d \<noteq> Unreadable \<and>
     (\<forall>r. ad_status d = Stored r \<longrightarrow> ar_key r = key) \<and>
     (\<forall>e. ad_effect d = Stored e \<longrightarrow> er_effect_key e = key) \<and>
     (\<forall>ls. ad_effect_log d = Stored ls \<longrightarrow>
        ls \<noteq> [] \<and> (\<forall>x \<in> set ls. \<exists>e. x = Some e \<and> er_effect_key e = key))"

text \<open>A successful completed status is the one that its result record describes.\<close>

definition status_backed :: "adoption_dir \<Rightarrow> bool" where
  "status_backed d \<longleftrightarrow>
     (\<forall>r. ad_status d = Stored r \<and> ar_status r = STATUS_COMPLETED \<and> record_succeeded r \<longrightarrow>
        (\<exists>res. ad_result d = Stored res \<and> completed_with r res = r))"

definition outcomes_agree :: "bool \<Rightarrow> adoption_dir \<Rightarrow> bool" where
  "outcomes_agree b d \<longleftrightarrow>
     (\<forall>res. ad_result d = Stored res \<longrightarrow> succeeded res = b) \<and>
     (\<forall>e. ad_effect d = Stored e \<longrightarrow> succeeded (er_result e) = b) \<and>
     (\<forall>ls e. ad_effect_log d = Stored ls \<and> Some e \<in> set ls \<longrightarrow> succeeded (er_result e) = b)"

definition dir_inv :: "string \<Rightarrow> (string \<Rightarrow> worker option) \<Rightarrow> adoption_dir \<Rightarrow> bool" where
  "dir_inv key w d \<longleftrightarrow> tidy key d \<and> status_backed d \<and>
     (\<forall>rid req pid. w rid = Some (Executing req pid) \<longrightarrow>
        has_status STATUS_RUNNING rid d \<and> no_outcome d \<and> cq_run_id req = rid) \<and>
     (\<forall>rid req pid result. w rid = Some (Reporting req pid result) \<and> has_status STATUS_RUNNING rid d \<longrightarrow>
        outcomes_agree (adoption_result_succeeded result) d)"

text \<open>Every state on the way through a plan is good, and no write of it loses a recorded success.\<close>

fun plan_ok :: "(adoption_dir \<Rightarrow> bool) \<Rightarrow> adoption_write list \<Rightarrow> adoption_dir \<Rightarrow> bool" where
  "plan_ok P [] d = P d"
| "plan_ok P (x # ws) d =
     (P d \<and> (success_recorded d \<longrightarrow> success_recorded (apply_write x d)) \<and> plan_ok P ws (apply_write x d))"

definition prepared :: "string \<Rightarrow> string \<Rightarrow> adoption_dir \<Rightarrow> bool" where
  "prepared st rid d \<longleftrightarrow> has_status st rid d \<and> no_outcome d"

definition holder_ok :: "string \<Rightarrow> (string \<Rightarrow> worker option) \<Rightarrow> adoption_dir \<Rightarrow> lock_holder option \<Rightarrow> bool" where
  "holder_ok key w d holder =
     (case holder of
        None \<Rightarrow> dir_inv key w d
      | Some (Inherited req) \<Rightarrow> dir_inv key w d \<and> prepared STATUS_INTENT (cq_run_id req) d
      | Some (Section rid ws k) \<Rightarrow>
          (case k of
             Unlock \<Rightarrow> plan_ok (dir_inv key w) ws d
           | Spawn req \<Rightarrow> rid = cq_run_id req \<and> plan_ok (\<lambda>d. dir_inv key w d \<and> \<not> success_recorded d) ws d \<and>
               prepared STATUS_INTENT rid (apply_writes ws d)
           | Begin req pid \<Rightarrow> rid = cq_run_id req \<and> w rid = Some Claiming \<and>
               plan_ok (\<lambda>d. dir_inv key w d \<and> \<not> success_recorded d) ws d \<and>
               prepared STATUS_RUNNING rid (apply_writes ws d)
           | Report req pid result \<Rightarrow> rid = cq_run_id req \<and> w rid = Some (Reporting req pid result) \<and>
               plan_ok (dir_inv key w) ws d \<and> length ws \<le> 1 \<and> (ws = [] \<or> no_outcome d)))"

definition system_inv :: "string \<Rightarrow> adoption_system \<Rightarrow> bool" where
  "system_inv key s \<longleftrightarrow> holder_ok key (as_workers s) (as_dir s) (as_lock s)"

section \<open>Plans\<close>

lemma apply_writes_simps [simp]:
  "apply_writes [] d = d" "apply_writes (x # ws) d = apply_writes ws (apply_write x d)"
  "apply_writes (ws @ ws') d = apply_writes ws' (apply_writes ws d)"
  by (simp_all add: apply_writes_def)

lemma plan_ok_here: "plan_ok P ws d \<Longrightarrow> P d"
  by (cases ws) auto

lemma plan_ok_append: "plan_ok P (ws @ ws') d \<longleftrightarrow> plan_ok P ws d \<and> plan_ok P ws' (apply_writes ws d)"
  by (induction ws arbitrary: d) (auto dest: plan_ok_here)

lemma plan_ok_end: "plan_ok P ws d \<Longrightarrow> P (apply_writes ws d)"
  by (induction ws arbitrary: d) auto

lemma plan_ok_mono: "plan_ok P ws d \<Longrightarrow> (\<And>d. P d \<Longrightarrow> Q d) \<Longrightarrow> plan_ok Q ws d"
  by (induction ws arbitrary: d) auto

lemma plan_ok_keeps: "plan_ok P ws d \<Longrightarrow> success_recorded d \<Longrightarrow> success_recorded (apply_writes ws d)"
  by (induction ws arbitrary: d) auto

text \<open>A plan that ends without a recorded success never had one on the way.\<close>

lemma plan_ok_never:
  "plan_ok P ws d \<Longrightarrow> \<not> success_recorded (apply_writes ws d) \<Longrightarrow> plan_ok (\<lambda>d. P d \<and> \<not> success_recorded d) ws d"
  by (induction ws arbitrary: d) (auto dest: plan_ok_keeps)

section \<open>What the operations plan\<close>

lemmas plan_defs = followed_by_def give_def refuse_def write_file_def read_file_def write_visible_adoption_record_def
  promote_completed_adoption_result_def read_optional_string_def

definition promotion :: "codex_adoption_record \<Rightarrow> codex_adoption_effect_record \<Rightarrow> adoption_write list" where
  "promotion r e =
     [WriteStdout (er_stdout e), WriteStderr (er_stderr e), WriteResult (er_result e),
      WriteStatus (completed_with r (er_result e))]"

lemma completed_with_simps [simp]:
  "ar_key (completed_with r res) = ar_key r"
  "ar_status (completed_with r res) = STATUS_COMPLETED"
  "ar_run_id (completed_with r res) = ar_run_id r"
  "completed_with (completed_with r res) res = completed_with r res"
  "record_succeeded (completed_with r res) = succeeded res"
  by (auto simp: completed_with_def record_succeeded_def succeeded_def)

lemma statuses_distinct [simp]:
  "STATUS_INTENT \<noteq> STATUS_RUNNING" "STATUS_RUNNING \<noteq> STATUS_INTENT" "STATUS_INTENT \<noteq> STATUS_COMPLETED"
  "STATUS_COMPLETED \<noteq> STATUS_INTENT" "STATUS_RUNNING \<noteq> STATUS_COMPLETED" "STATUS_COMPLETED \<noteq> STATUS_RUNNING"
  by (simp_all add: STATUS_INTENT_def STATUS_RUNNING_def STATUS_COMPLETED_def)

text \<open>In a log whose lines are all receipts of the key the last one counts.\<close>

lemma last_receipt:
  assumes "ls \<noteq> []" and "\<forall>x \<in> set ls. \<exists>e. x = Some e \<and> er_effect_key e = key"
  shows "foldl (\<lambda>matched line.
      case line of Some e \<Rightarrow> if er_effect_key e = key then Some e else matched | None \<Rightarrow> matched) None ls = last ls"
  using assms by (induction ls rule: rev_induct) (auto split: option.splits)

lemma recover_effect_plan:
  assumes "tidy key d"
  shows "recover_completed_adoption_effect_by_key key d =
    (case ad_status d of
       Stored r \<Rightarrow>
         if ar_status r = STATUS_COMPLETED then ([], Inr False)
         else (case ad_effect d of Stored e \<Rightarrow> (promotion r e, Inr True) | _ \<Rightarrow> ([], Inr False))
     | _ \<Rightarrow> ([], Inr False))"
  using assms
  by (cases "ad_status d"; cases "ad_effect d")
    (auto simp: recover_completed_adoption_effect_by_key_def recover_completed_by_def
      promote_completed_adoption_effect_def promotion_def plan_defs tidy_def)

lemma recover_log_plan:
  assumes "tidy key d"
  shows "recover_completed_external_codex_effect_by_key key d =
    (case ad_status d of
       Stored r \<Rightarrow>
         if ar_status r = STATUS_COMPLETED then ([], Inr False)
         else (case ad_effect_log d of Stored ls \<Rightarrow> (promotion r (the (last ls)), Inr True) | _ \<Rightarrow> ([], Inr False))
     | _ \<Rightarrow> ([], Inr False))"
proof (cases "ad_effect_log d")
  case (Stored ls)
  with assms have ls: "ls \<noteq> []" "\<forall>x \<in> set ls. \<exists>e. x = Some e \<and> er_effect_key e = key" by (auto simp: tidy_def)
  then obtain e where e: "last ls = Some e" "er_effect_key e = key" by (meson last_in_set)
  show ?thesis
    using assms Stored e last_receipt [OF ls]
    by (cases "ad_status d")
      (auto simp: recover_completed_external_codex_effect_by_key_def recover_completed_by_def
        read_codex_effect_record_from_log_def promote_completed_adoption_effect_def promotion_def plan_defs tidy_def)
next
  case Absent
  then show ?thesis
    using assms by (cases "ad_status d")
      (auto simp: recover_completed_external_codex_effect_by_key_def recover_completed_by_def
        read_codex_effect_record_from_log_def plan_defs tidy_def)
qed (use assms in \<open>simp add: tidy_def\<close>)

text \<open>The effect that stands for the outcome of a directory without result record.\<close>

definition effect_outcome :: "adoption_dir \<Rightarrow> codex_adoption_effect_record option" where
  "effect_outcome d =
     (case ad_effect d of
        Stored e \<Rightarrow> Some e
      | _ \<Rightarrow> (case ad_effect_log d of Stored ls \<Rightarrow> Some (the (last ls)) | _ \<Rightarrow> None))"

lemma recover_plan:
  assumes "tidy key d"
  shows "recover_completed_adoption_result_locked_from_disk key d =
    (case ad_status d of
       Stored r \<Rightarrow>
         (case ad_result d of
            Stored res \<Rightarrow> ([WriteStatus (completed_with r res)], Inr True)
          | _ \<Rightarrow>
            if ar_status r = STATUS_COMPLETED then ([], Inr False)
            else (case effect_outcome d of Some e \<Rightarrow> (promotion r e, Inr True) | None \<Rightarrow> ([], Inr False)))
     | _ \<Rightarrow> ([], Inr False))"
proof (cases "ad_result d")
  case Absent
  with assms show ?thesis
    by (cases "ad_status d"; cases "ad_effect d"; cases "ad_effect_log d")
      (auto simp: recover_completed_adoption_result_locked_from_disk_def recover_effect_plan recover_log_plan
        effect_outcome_def followed_by_def give_def read_file_def tidy_def)
next
  case (Stored res)
  with assms show ?thesis
    by (cases "ad_status d")
      (auto simp: recover_completed_adoption_result_locked_from_disk_def plan_defs tidy_def)
qed (use assms in \<open>simp add: tidy_def\<close>)

lemma effect_outcome_outcome:
  assumes "tidy key d" and "\<And>res. ad_result d \<noteq> Stored res"
  shows "outcome d = map_option er_result (effect_outcome d)"
proof -
  have "\<exists>e. last ls = Some e" if "ad_effect_log d = Stored ls" for ls
    using assms(1) that unfolding tidy_def by (meson last_in_set)
  then show ?thesis
    using assms(2) by (auto simp: outcome_def effect_outcome_def split: stored.splits)
qed

section \<open>Recovery keeps the invariant\<close>

lemmas dir_defs = dir_inv_def tidy_def status_backed_def has_status_def no_outcome_def outcomes_agree_def

lemma dir_inv_tidy: "dir_inv key w d \<Longrightarrow> tidy key d"
  by (simp add: dir_inv_def)

text \<open>The output files and the prompt play no role in the invariant.\<close>

lemma parts_output [simp]:
  "has_status st rid (d\<lparr>ad_stdout := x\<rparr>) = has_status st rid d"
  "has_status st rid (d\<lparr>ad_stderr := x\<rparr>) = has_status st rid d"
  "has_status st rid (d\<lparr>ad_prompt := x\<rparr>) = has_status st rid d"
  "no_outcome (d\<lparr>ad_stdout := x\<rparr>) = no_outcome d"
  "no_outcome (d\<lparr>ad_stderr := x\<rparr>) = no_outcome d"
  "no_outcome (d\<lparr>ad_prompt := x\<rparr>) = no_outcome d"
  "outcomes_agree b (d\<lparr>ad_stdout := x\<rparr>) = outcomes_agree b d"
  "outcomes_agree b (d\<lparr>ad_stderr := x\<rparr>) = outcomes_agree b d"
  "outcomes_agree b (d\<lparr>ad_prompt := x\<rparr>) = outcomes_agree b d"
  "status_backed (d\<lparr>ad_stdout := x\<rparr>) = status_backed d"
  "status_backed (d\<lparr>ad_stderr := x\<rparr>) = status_backed d"
  "status_backed (d\<lparr>ad_prompt := x\<rparr>) = status_backed d"
  by (simp_all add: has_status_def no_outcome_def outcomes_agree_def status_backed_def)

lemma dir_inv_output [simp]:
  "dir_inv key w d \<Longrightarrow> dir_inv key w (d\<lparr>ad_stdout := Stored x\<rparr>)"
  "dir_inv key w d \<Longrightarrow> dir_inv key w (d\<lparr>ad_stderr := Stored x\<rparr>)"
  "dir_inv key w d \<Longrightarrow> dir_inv key w (d\<lparr>ad_prompt := Stored x\<rparr>)"
  unfolding dir_inv_def by (simp_all add: tidy_def)

lemma outcome_output [simp]:
  "outcome (d\<lparr>ad_stdout := x\<rparr>) = outcome d"
  "outcome (d\<lparr>ad_stderr := x\<rparr>) = outcome d"
  "outcome (d\<lparr>ad_prompt := x\<rparr>) = outcome d"
  "outcome (d\<lparr>ad_status := y\<rparr>) = outcome d"
  by (simp_all add: outcome_def split: stored.split)

lemma success_recorded_output [simp]:
  "success_recorded (d\<lparr>ad_stdout := x\<rparr>) = success_recorded d"
  "success_recorded (d\<lparr>ad_stderr := x\<rparr>) = success_recorded d"
  "success_recorded (d\<lparr>ad_prompt := x\<rparr>) = success_recorded d"
  by (simp_all add: success_recorded_def)

lemma promote_status_ok:
  assumes "dir_inv key w d" and "ad_status d = Stored r" and "ad_result d = Stored res"
  shows "plan_ok (dir_inv key w) [WriteStatus (completed_with r res)] d"
proof -
  have idle: "\<nexists>rid req pid. w rid = Some (Executing req pid)" using assms by (auto simp: dir_defs)
  have "dir_inv key w (d\<lparr>ad_status := Stored (completed_with r res)\<rparr>)"
    using assms idle by (auto simp: dir_defs)
  moreover have "success_recorded (d\<lparr>ad_status := Stored (completed_with r res)\<rparr>)" if "success_recorded d"
  proof (cases "ar_status r = STATUS_COMPLETED")
    case True
    then have "record_succeeded r" using that assms(2) by (simp add: success_recorded_def)
    then obtain res' where "ad_result d = Stored res'" "completed_with r res' = r"
      using assms(1,2) True unfolding dir_inv_def status_backed_def by blast
    then have "completed_with r res = r" using assms(3) by simp
    with that assms(2) True show ?thesis by (simp add: success_recorded_def)
  next
    case False
    then show ?thesis using that assms(2,3) by (simp add: success_recorded_def outcome_def)
  qed
  ultimately show ?thesis using assms(1) by simp
qed

lemma write_result_ok:
  assumes "dir_inv key w d" and "ad_status d = Stored r" and "ar_status r \<noteq> STATUS_COMPLETED"
    and "\<And>res. ad_result d \<noteq> Stored res" and "effect_outcome d = Some e"
  shows "dir_inv key w (d\<lparr>ad_result := Stored (er_result e)\<rparr>)"
    and "success_recorded (d\<lparr>ad_result := Stored (er_result e)\<rparr>) = success_recorded d"
proof -
  have src: "ad_effect d = Stored e \<or> (\<exists>ls. ad_effect_log d = Stored ls \<and> Some e \<in> set ls)"
    using assms(1,5) unfolding dir_inv_def tidy_def effect_outcome_def
    by (auto split: stored.splits) (metis last_in_set option.sel)
  have idle: "\<nexists>rid req pid. w rid = Some (Executing req pid)" using assms(1) src by (auto simp: dir_defs)
  have agree: "outcomes_agree b (d\<lparr>ad_result := Stored (er_result e)\<rparr>)" if "outcomes_agree b d" for b
    using that src by (auto simp: outcomes_agree_def)
  have "has_status st rid (d\<lparr>ad_result := x\<rparr>) = has_status st rid d" for st rid x by (simp add: has_status_def)
  then show "dir_inv key w (d\<lparr>ad_result := Stored (er_result e)\<rparr>)"
    using assms(1-3) idle agree unfolding dir_inv_def by (auto simp: tidy_def status_backed_def)
  show "success_recorded (d\<lparr>ad_result := Stored (er_result e)\<rparr>) = success_recorded d"
    using assms(2,3) effect_outcome_outcome [OF dir_inv_tidy [OF assms(1)] assms(4)] assms(5)
    by (auto simp: success_recorded_def outcome_def)
qed

lemma effect_outcome_output [simp]:
  "effect_outcome (d\<lparr>ad_stdout := x\<rparr>) = effect_outcome d"
  "effect_outcome (d\<lparr>ad_stderr := x\<rparr>) = effect_outcome d"
  by (simp_all add: effect_outcome_def split: stored.split)

lemma promotion_ok:
  assumes "dir_inv key w d" and "ad_status d = Stored r" and "ar_status r \<noteq> STATUS_COMPLETED"
    and "\<And>res. ad_result d \<noteq> Stored res" and "effect_outcome d = Some e"
  shows "plan_ok (dir_inv key w) (promotion r e) d"
proof -
  let ?d2 = "d\<lparr>ad_stdout := Stored (er_stdout e), ad_stderr := Stored (er_stderr e)\<rparr>"
  have d2: "dir_inv key w ?d2" "ad_status ?d2 = Stored r" "\<And>res. ad_result ?d2 \<noteq> Stored res" "effect_outcome ?d2 = Some e"
    using assms by simp_all
  have res: "dir_inv key w (?d2\<lparr>ad_result := Stored (er_result e)\<rparr>)"
      "success_recorded (?d2\<lparr>ad_result := Stored (er_result e)\<rparr>) = success_recorded ?d2"
    using write_result_ok [OF d2(1,2) assms(3) d2(3,4)] by blast+
  have "plan_ok (dir_inv key w) [WriteStatus (completed_with r (er_result e))] (?d2\<lparr>ad_result := Stored (er_result e)\<rparr>)"
    using res(1) assms(2) by (intro promote_status_ok) simp_all
  with res assms(1) show ?thesis by (simp add: promotion_def)
qed

lemma recover_ok:
  assumes "dir_inv key w d" and "recover_completed_adoption_result_locked_from_disk key d = (ws, x)"
  shows "plan_ok (dir_inv key w) ws d" and "\<exists>b. x = Inr b"
    and "x = Inr False \<Longrightarrow> ws = []"
    and "x = Inr True \<Longrightarrow> \<exists>r. ad_status (apply_writes ws d) = Stored r \<and> ar_status r = STATUS_COMPLETED"
    and "x = Inr False \<Longrightarrow> ad_status d = Stored r \<Longrightarrow> ar_status r \<noteq> STATUS_COMPLETED \<Longrightarrow> outcome d = None"
proof -
  note plan = recover_plan [OF dir_inv_tidy [OF assms(1)], unfolded assms(2)]
  show "plan_ok (dir_inv key w) ws d"
    using plan assms(1) promote_status_ok [OF assms(1)] promotion_ok [OF assms(1)]
    by (auto split: stored.splits if_splits option.splits)
  show "\<exists>b. x = Inr b" "x = Inr False \<Longrightarrow> ws = []"
    using plan by (auto split: stored.splits if_splits option.splits)
  show "x = Inr True \<Longrightarrow> \<exists>r. ad_status (apply_writes ws d) = Stored r \<and> ar_status r = STATUS_COMPLETED"
    using plan by (auto simp: promotion_def split: stored.splits if_splits option.splits)
  show "x = Inr False \<Longrightarrow> ad_status d = Stored r \<Longrightarrow> ar_status r \<noteq> STATUS_COMPLETED \<Longrightarrow> outcome d = None"
    using plan effect_outcome_outcome [OF dir_inv_tidy [OF assms(1)]]
    by (auto split: stored.splits if_splits option.splits)
qed

section \<open>Requests keep the invariant\<close>

lemma adopted_succeeded [simp]: "adoption_result_succeeded (adopted_result r out err q) = record_succeeded r"
  by (cases "ar_error_kind r"; cases "ar_exit_code r")
    (simp_all add: adoption_result_succeeded_def adopted_result_def record_succeeded_def codex_failure_def
      codex_success_def Let_def)

lemma read_completed_tidy:
  assumes "tidy key d"
  obtains x where "read_completed_adoption_result q d = ([], Inr x)"
    "x = None \<longleftrightarrow> (\<nexists>r. ad_status d = Stored r \<and> ar_status r = STATUS_COMPLETED)"
    "\<And>res r. x = Some res \<Longrightarrow> ad_status d = Stored r \<Longrightarrow> adoption_result_succeeded res = record_succeeded r"
proof -
  have read: "\<exists>s. read_optional_string f d = ([], Inr s)" if "f d \<noteq> Unreadable" for f
    using that by (cases "f d") (simp_all add: read_optional_string_def followed_by_def read_file_def give_def)
  have "ad_stdout d \<noteq> Unreadable" "ad_stderr d \<noteq> Unreadable" using assms by (simp_all add: tidy_def)
  then obtain out err where "read_optional_string ad_stdout d = ([], Inr out)" "read_optional_string ad_stderr d = ([], Inr err)"
    using read [of ad_stdout] read [of ad_stderr] by auto
  then have "read_completed_adoption_result q d =
      ([], Inr (case ad_status d of
         Stored r \<Rightarrow> if ar_status r = STATUS_COMPLETED then Some (adopted_result r out err q) else None | _ \<Rightarrow> None))"
    using assms by (cases "ad_status d")
      (auto simp: read_completed_adoption_result_def followed_by_def read_file_def give_def tidy_def)
  then show thesis by (rule that) (auto split: stored.splits if_splits)
qed

text \<open>What is read for reuse is a success, and every completed success is.\<close>

lemma read_reusable_tidy:
  assumes "tidy key d"
  obtains x where "read_reusable_adoption_result q d = ([], Inr x)"
    "x = None \<longleftrightarrow> (\<nexists>r. ad_status d = Stored r \<and> ar_status r = STATUS_COMPLETED \<and> record_succeeded r)"
    "\<And>res. x = Some res \<Longrightarrow> adoption_result_succeeded res"
proof -
  from read_completed_tidy [OF assms, of q] obtain x where x: "read_completed_adoption_result q d = ([], Inr x)"
    "x = None \<longleftrightarrow> (\<nexists>r. ad_status d = Stored r \<and> ar_status r = STATUS_COMPLETED)"
    "\<And>res r. x = Some res \<Longrightarrow> ad_status d = Stored r \<Longrightarrow> adoption_result_succeeded res = record_succeeded r" by blast
  have "read_reusable_adoption_result q d =
      ([], Inr (case x of Some res \<Rightarrow> if adoption_result_succeeded res then Some res else None | None \<Rightarrow> None))"
    using x(1) by (cases x) (simp_all add: read_reusable_adoption_result_def only_reusable_def followed_by_def give_def)
  then show thesis
    by (rule that) (use x(2,3) in \<open>auto split: option.splits if_splits\<close>)
qed

text \<open>Nothing is left to promote.\<close>

definition settled :: "adoption_dir \<Rightarrow> bool" where
  "settled d \<longleftrightarrow> (\<forall>r. ad_status d = Stored r \<and> ar_status r \<noteq> STATUS_COMPLETED \<longrightarrow> outcome d = None)"

text \<open>Recovery for reuse: afterwards no success is on record that it does not return.\<close>

lemma recover_reusable:
  assumes "dir_inv key w d" and "\<nexists>r. ad_status d = Stored r \<and> ar_status r = STATUS_COMPLETED \<and> record_succeeded r"
  obtains ws x where "recover_reusable_adoption_result_locked key q d = (ws, Inr x)"
    "plan_ok (dir_inv key w) ws d"
    "x = None \<longleftrightarrow> \<not> success_recorded (apply_writes ws d)"
    "\<And>res. x = Some res \<Longrightarrow> adoption_result_succeeded res"
    "settled (apply_writes ws d)"
proof -
  obtain ws y where y: "recover_completed_adoption_result_locked_from_disk key d = (ws, y)" by fastforce
  note rec = recover_ok [OF assms(1) y]
  then obtain b where b: "y = Inr b" by blast
  let ?d = "apply_writes ws d"
  show thesis
  proof (cases b)
    case False
    then have ws: "ws = []" using rec(3) b by simp
    have none: "\<not> success_recorded d"
      using assms(2) rec(5) b False by (auto simp: success_recorded_def split: if_splits)
    have "recover_reusable_adoption_result_locked key q d = (ws, Inr None)"
      using y b False
      by (simp add: recover_reusable_adoption_result_locked_def only_reusable_def
          recover_completed_adoption_result_locked_def followed_by_def give_def)
    moreover have "settled d" using rec(5) b False by (auto simp: settled_def)
    ultimately show thesis using rec(1) ws none by (intro that [of "[]" None]) auto
  next
    case True
    have "tidy key ?d" using plan_ok_end [OF rec(1)] by (rule dir_inv_tidy)
    from read_completed_tidy [OF this, of q] obtain z where z: "read_completed_adoption_result q ?d = ([], Inr z)"
      "z = None \<longleftrightarrow> (\<nexists>r. ad_status ?d = Stored r \<and> ar_status r = STATUS_COMPLETED)"
      "\<And>res r. z = Some res \<Longrightarrow> ad_status ?d = Stored r \<Longrightarrow> adoption_result_succeeded res = record_succeeded r" by blast
    obtain r where r: "ad_status ?d = Stored r" "ar_status r = STATUS_COMPLETED" using rec(4) b True by auto
    with z obtain res where res: "z = Some res" "adoption_result_succeeded res = record_succeeded r" by auto
    have "recover_reusable_adoption_result_locked key q d =
        (ws, Inr (if adoption_result_succeeded res then Some res else None))"
      using y b True z(1) res(1)
      by (simp add: recover_reusable_adoption_result_locked_def only_reusable_def
          recover_completed_adoption_result_locked_def followed_by_def give_def)
    moreover have "success_recorded ?d = adoption_result_succeeded res"
      using r res(2) by (simp add: success_recorded_def)
    moreover have "settled ?d" using r by (simp add: settled_def)
    ultimately show thesis using rec(1) by (intro that) auto
  qed
qed

definition start_writes :: "codex_request \<Rightarrow> string \<Rightarrow> adoption_write list" where
  "start_writes req key =
     [RemoveResult, RemoveEffect, RemoveEffectLog, WritePrompt (cq_prompt req),
      WriteStatus (adoption_record_from_request req key STATUS_INTENT None None)]"

lemma record_from_request_simps [simp]:
  "ar_key (adoption_record_from_request req key st p c) = key"
  "ar_status (adoption_record_from_request req key st p c) = st"
  "ar_run_id (adoption_record_from_request req key st p c) = cq_run_id req"
  by (simp_all add: adoption_record_from_request_def)

lemma start_adoption_worker_plan: "start_adoption_worker req key d = (start_writes req key, Inr ())"
  by (simp add: start_adoption_worker_def discard_previous_run_outcome_def start_writes_def plan_defs)

lemma request_cases:
  assumes "dir_inv key w d" and "run_adoptable_codex_request is_alive req key d = (ws, r)"
  obtains (returned) res where "r = Inr (Returned res)" "adoption_result_succeeded res" "plan_ok (dir_inv key w) ws d"
  | (started) ws1 where "r = Inr WorkerStarted" "ws = ws1 @ start_writes req key" "plan_ok (dir_inv key w) ws1 d"
      "\<not> success_recorded (apply_writes ws1 d)" "settled (apply_writes ws1 d)"
      "\<And>x. ad_status (apply_writes ws1 d) = Stored x \<Longrightarrow> ar_status x = STATUS_RUNNING \<Longrightarrow> \<not> is_alive (ar_run_id x)"
  | (other) "r \<noteq> Inr WorkerStarted" "plan_ok (dir_inv key w) ws d" "\<not> success_recorded (apply_writes ws d)"
proof -
  from read_reusable_tidy [OF dir_inv_tidy [OF assms(1)], of "cq_run_id req"] obtain x where
    x: "read_reusable_adoption_result (cq_run_id req) d = ([], Inr x)"
      "x = None \<longleftrightarrow> (\<nexists>r. ad_status d = Stored r \<and> ar_status r = STATUS_COMPLETED \<and> record_succeeded r)"
      "\<And>res. x = Some res \<Longrightarrow> adoption_result_succeeded res" by blast
  show thesis
  proof (cases x)
    case (Some res)
    then have "ws = []" "r = Inr (Returned res)"
      using assms(2) x(1) by (simp_all add: run_adoptable_codex_request_def followed_by_def give_def)
    then show thesis using returned x(3) [OF Some] assms(1) by simp
  next
    case None
    with x(2) recover_reusable [OF assms(1), of "cq_run_id req"] obtain ws1 y where
      y: "recover_reusable_adoption_result_locked key (cq_run_id req) d = (ws1, Inr y)"
        "plan_ok (dir_inv key w) ws1 d" "y = None \<longleftrightarrow> \<not> success_recorded (apply_writes ws1 d)"
        "\<And>res. y = Some res \<Longrightarrow> adoption_result_succeeded res" "settled (apply_writes ws1 d)" by blast
    let ?d = "apply_writes ws1 d"
    show thesis
    proof (cases y)
      case (Some res)
      then have "ws = ws1" "r = Inr (Returned res)"
        using assms(2) x(1) None y(1) by (simp_all add: run_adoptable_codex_request_def followed_by_def give_def)
      then show thesis using returned y(2) y(4) [OF Some] by simp
    next
      case y_None: None
      have tidy: "tidy key ?d" using plan_ok_end [OF y(2)] by (rule dir_inv_tidy)
      define running where "running = (case ad_status ?d of
        Stored z \<Rightarrow> if ar_status z = STATUS_RUNNING then adoption_effect_alive is_alive z else give False
        | _ \<Rightarrow> give False)"
      have "\<exists>v. running ?d = ([], v)"
        by (cases "ad_status ?d")
          (auto simp: running_def adoption_effect_alive_def give_def refuse_def)
      then obtain v where v: "running ?d = ([], v)" ..
      have plan: "(ws, r) = (case v of
          Inl e \<Rightarrow> (ws1, Inl e)
        | Inr b \<Rightarrow> if b then (ws1, Inr Waiting) else (ws1 @ start_writes req key, Inr WorkerStarted))"
        using assms(2) x(1) None y(1) y_None v tidy unfolding running_def
        by (cases "ad_status ?d")
          (auto simp: run_adoptable_codex_request_def followed_by_def give_def read_file_def start_adoption_worker_plan
            tidy_def split: sum.splits if_splits)
      show thesis
      proof (cases "v = Inr False")
        case True
        then have "\<not> is_alive (ar_run_id z)" if "ad_status ?d = Stored z" "ar_status z = STATUS_RUNNING" for z
          using that v by (auto simp: running_def adoption_effect_alive_def give_def refuse_def split: if_splits)
        with True plan y(2,3,5) y_None show thesis by (intro started [of ws1]) auto
      next
        case False
        with plan have "ws = ws1" "r \<noteq> Inr WorkerStarted" by (auto split: sum.splits if_splits)
        then show thesis using other y(2,3) y_None by simp
      qed
    qed
  qed
qed

lemma outcome_None: "tidy key d \<Longrightarrow> outcome d = None \<Longrightarrow> no_outcome d"
proof -
  assume tidy: "tidy key d" and none: "outcome d = None"
  have "\<exists>e. last ls = Some e" if "ad_effect_log d = Stored ls" for ls
    using tidy that unfolding tidy_def by (meson last_in_set)
  with tidy none show ?thesis by (auto simp: outcome_def no_outcome_def tidy_def split: stored.splits)
qed

text \<open>Discarding the outcome of a failed run and announcing the next one.\<close>

definition quiet :: "string \<Rightarrow> (string \<Rightarrow> worker option) \<Rightarrow> adoption_dir \<Rightarrow> bool" where
  "quiet key w d \<longleftrightarrow> dir_inv key w d \<and> \<not> success_recorded d \<and> settled d \<and> (\<nexists>rid req pid. w rid = Some (Executing req pid))"

lemma quiet_discard:
  assumes "quiet key w d"
  shows "quiet key w (d\<lparr>ad_result := Absent\<rparr>)" and "quiet key w (d\<lparr>ad_effect := Absent\<rparr>)"
    and "quiet key w (d\<lparr>ad_effect_log := Absent\<rparr>)"
proof -
  have inv: "dir_inv key w d" and idle: "\<nexists>rid req pid. w rid = Some (Executing req pid)"
    and fail: "\<not> success_recorded d" and settled: "settled d"
    using assms by (simp_all add: quiet_def)
  have none: "no_outcome d" if "ad_status d = Stored r" "ar_status r \<noteq> STATUS_COMPLETED" for r
    using that settled outcome_None [OF dir_inv_tidy [OF inv]] by (auto simp: settled_def)
  have failed: "\<not> record_succeeded r" if "ad_status d = Stored r" "ar_status r = STATUS_COMPLETED" for r
    using that fail by (auto simp: success_recorded_def)
  show "quiet key w (d\<lparr>ad_result := Absent\<rparr>)" "quiet key w (d\<lparr>ad_effect := Absent\<rparr>)"
    "quiet key w (d\<lparr>ad_effect_log := Absent\<rparr>)"
    using inv idle none failed unfolding quiet_def dir_inv_def
    by (auto simp: settled_def success_recorded_def tidy_def status_backed_def has_status_def outcomes_agree_def
        outcome_def no_outcome_def split: if_splits)
qed

lemma quiet_D: "quiet key w d \<Longrightarrow> dir_inv key w d \<and> \<not> success_recorded d"
  by (simp add: quiet_def)

lemma quiet_prompt: "quiet key w d \<Longrightarrow> quiet key w (d\<lparr>ad_prompt := Stored x\<rparr>)"
  by (simp add: quiet_def settled_def)

lemma start_ok:
  assumes "quiet key w d"
  shows "plan_ok (\<lambda>d. dir_inv key w d \<and> \<not> success_recorded d) (start_writes req key) d"
    and "prepared STATUS_INTENT (cq_run_id req) (apply_writes (start_writes req key) d)"
proof -
  let ?d3 = "d\<lparr>ad_result := Absent, ad_effect := Absent, ad_effect_log := Absent\<rparr>"
  let ?d4 = "?d3\<lparr>ad_prompt := Stored (cq_prompt req)\<rparr>"
  let ?r = "adoption_record_from_request req key STATUS_INTENT None None"
  note q1 = quiet_discard(1) [OF assms] and q2 = quiet_discard(2) [OF quiet_discard(1) [OF assms]]
    and q3 = quiet_discard(3) [OF quiet_discard(2) [OF quiet_discard(1) [OF assms]]]
  note q4 = quiet_prompt [OF q3, of "cq_prompt req"]
  have "dir_inv key w (?d4\<lparr>ad_status := Stored ?r\<rparr>)"
    using q4 unfolding quiet_def dir_inv_def
    by (auto simp: tidy_def status_backed_def has_status_def outcomes_agree_def)
  moreover have "\<not> success_recorded (?d4\<lparr>ad_status := Stored ?r\<rparr>)"
    by (simp add: success_recorded_def outcome_def)
  ultimately show "plan_ok (\<lambda>d. dir_inv key w d \<and> \<not> success_recorded d) (start_writes req key) d"
    using assms [THEN quiet_D] q1 [THEN quiet_D] q2 [THEN quiet_D] q3 [THEN quiet_D] q4 [THEN quiet_D]
    by (simp add: start_writes_def)
  show "prepared STATUS_INTENT (cq_run_id req) (apply_writes (start_writes req key) d)"
    by (simp add: start_writes_def prepared_def has_status_def no_outcome_def)
qed

text \<open>The part of a request under the lock.\<close>

lemma request_holder_ok:
  assumes "dir_inv key w d" and "run_adoptable_codex_request (\<lambda>rid. w rid \<noteq> None) req key d = (ws, r)"
  shows "holder_ok key w d (Some (Section (cq_run_id req) ws (after_request req r)))"
  using assms
proof (cases rule: request_cases)
  case (started ws1)
  let ?d = "apply_writes ws1 d"
  have inv: "dir_inv key w ?d" using started(3) by (rule plan_ok_end)
  have "w rid \<noteq> Some (Executing q pid)" for rid q pid
  proof
    assume ex: "w rid = Some (Executing q pid)"
    then have "has_status STATUS_RUNNING rid ?d" using inv unfolding dir_inv_def by blast
    then obtain x where "ad_status ?d = Stored x" "ar_status x = STATUS_RUNNING" "ar_run_id x = rid"
      by (auto simp: has_status_def)
    with started(6) ex show False by auto
  qed
  then have "quiet key w ?d" using inv started(4,5) by (simp add: quiet_def)
  note start = start_ok [OF this, of req]
  have "plan_ok (\<lambda>d. dir_inv key w d \<and> \<not> success_recorded d) ws1 d"
    using started(3,4) by (rule plan_ok_never)
  then show ?thesis
    using start started(1,2) by (simp add: holder_ok_def after_request_def plan_ok_append)
qed (simp_all add: holder_ok_def after_request_def)

section \<open>Workers keep the invariant\<close>

lemma has_status_unique: "has_status st rid d \<Longrightarrow> has_status st' rid' d \<Longrightarrow> st = st' \<and> rid = rid'"
  by (auto simp: has_status_def)

lemma executing_status: "dir_inv key w d \<Longrightarrow> w rid = Some (Executing q p) \<Longrightarrow> has_status STATUS_RUNNING rid d"
  by (simp add: dir_inv_def)

lemma claim_plan:
  assumes "dir_inv key w d" and "prepared STATUS_INTENT (cq_run_id req) d"
  shows "claim_adoption_worker is_alive req key pid d =
      (if \<not> valid_run_id (cq_run_id req) then ([], Inl (InvalidRunId (cq_run_id req)))
       else if is_alive (cq_run_id req) then ([], Inr False)
       else ([WriteStatus (adoption_record_from_request req key STATUS_RUNNING (Some pid) None)], Inr True))"
proof -
  from assms(2) obtain r where r: "ad_status d = Stored r" "ar_status r = STATUS_INTENT" "ar_run_id r = cq_run_id req"
    by (auto simp: prepared_def has_status_def)
  have "ad_result d = Absent" "effect_outcome d = None"
    using assms(2) by (simp_all add: prepared_def no_outcome_def effect_outcome_def)
  then have "recover_completed_adoption_result_locked_from_disk key d = ([], Inr False)"
    using recover_plan [OF dir_inv_tidy [OF assms(1)]] r by simp
  then show ?thesis using r by (simp add: claim_adoption_worker_def plan_defs)
qed

lemma prepared_not_recorded: "prepared st rid d \<Longrightarrow> st \<noteq> STATUS_COMPLETED \<Longrightarrow> \<not> success_recorded d"
  by (auto simp: prepared_def has_status_def no_outcome_def success_recorded_def outcome_def)

lemma claim_holder_ok:
  assumes "dir_inv key w d" and "prepared STATUS_INTENT (cq_run_id req) d"
    and "claim_adoption_worker (\<lambda>rid. w rid \<noteq> None) req key pid d = (ws, Inr True)"
  shows "holder_ok key (w(cq_run_id req \<mapsto> Claiming)) d (Some (Section (cq_run_id req) ws (Begin req pid)))"
proof -
  let ?r = "adoption_record_from_request req key STATUS_RUNNING (Some pid) None"
  let ?w = "w(cq_run_id req \<mapsto> Claiming)" and ?d = "d\<lparr>ad_status := Stored ?r\<rparr>"
  have ws: "ws = [WriteStatus ?r]" "w (cq_run_id req) = None"
    using assms(3) claim_plan [OF assms(1,2), of "\<lambda>rid. w rid \<noteq> None" pid] by (auto split: if_splits)
  have inv: "dir_inv key ?w d" using assms(1) unfolding dir_inv_def by (auto split: if_splits)
  have idle: "\<nexists>rid q p. ?w rid = Some (Executing q p)"
    using assms(2) executing_status [OF assms(1)] has_status_unique [of STATUS_INTENT "cq_run_id req" d STATUS_RUNNING]
    by (auto simp: prepared_def split: if_splits)
  have "no_outcome d" using assms(2) by (simp add: prepared_def)
  then have prep: "prepared STATUS_RUNNING (cq_run_id req) ?d" by (simp add: prepared_def has_status_def no_outcome_def)
  have "tidy key ?d" using assms(1) by (simp add: dir_inv_def tidy_def)
  moreover have "outcomes_agree b ?d" for b using \<open>no_outcome d\<close> by (simp add: outcomes_agree_def no_outcome_def)
  moreover have "status_backed ?d" by (simp add: status_backed_def)
  ultimately have "dir_inv key ?w ?d" using idle unfolding dir_inv_def by blast
  then show ?thesis
    using inv ws prep prepared_not_recorded [OF assms(2)] prepared_not_recorded [OF prep] by (simp add: holder_ok_def)
qed

lemma agreed_outcome: "tidy key d \<Longrightarrow> outcomes_agree b d \<Longrightarrow> outcome d = Some x \<Longrightarrow> succeeded x = b"
  unfolding tidy_def outcomes_agree_def outcome_def
  by (auto split: stored.splits option.splits) (metis last_in_set)+

text \<open>A directory with the status of a run that reports, and outcomes that agree with its report.\<close>

definition reports :: "string \<Rightarrow> (string \<Rightarrow> worker option) \<Rightarrow> string \<Rightarrow> bool \<Rightarrow> adoption_dir \<Rightarrow> bool" where
  "reports key w rid b d \<longleftrightarrow> tidy key d \<and> has_status STATUS_RUNNING rid d \<and> outcomes_agree b d \<and>
     (\<exists>req pid result. w rid = Some (Reporting req pid result) \<and> b = adoption_result_succeeded result)"

lemma reports_inv: "reports key w rid b d \<Longrightarrow> (\<And>x q p. w x = Some (Executing q p) \<Longrightarrow> x = rid) \<Longrightarrow> dir_inv key w d"
proof -
  assume r: "reports key w rid b d" and only: "\<And>x q p. w x = Some (Executing q p) \<Longrightarrow> x = rid"
  have "w x \<noteq> Some (Executing q p)" for x q p using r only [of x q p] by (auto simp: reports_def)
  moreover have "outcomes_agree (adoption_result_succeeded result) d"
    if "w x = Some (Reporting q p result)" "has_status STATUS_RUNNING x d" for x q p result
    using r that has_status_unique [OF that(2), of STATUS_RUNNING rid] by (auto simp: reports_def)
  moreover have "status_backed d" using r by (auto simp: reports_def has_status_def status_backed_def)
  ultimately show ?thesis using r unfolding dir_inv_def reports_def by blast
qed

lemma reports_recorded: "reports key w rid b d \<Longrightarrow> success_recorded d \<longleftrightarrow> b \<and> outcome d \<noteq> None"
proof -
  assume r: "reports key w rid b d"
  then have "success_recorded d \<longleftrightarrow> (\<exists>res. outcome d = Some res \<and> succeeded res)"
    by (auto simp: reports_def has_status_def success_recorded_def)
  moreover have "succeeded x = b" if "outcome d = Some x" for x
    using r that agreed_outcome unfolding reports_def by blast
  ultimately show ?thesis by auto
qed

lemma publish_ok:
  assumes "dir_inv key w d" and "w (cq_run_id req) = Some (Reporting req pid0 result)"
    and "publish_adoption_result_if_current req key pid result now_ms d = (ws, r)"
  shows "plan_ok (dir_inv key w) ws d"
proof (cases "has_status STATUS_RUNNING (cq_run_id req) d")
  case False
  then have "ws = []"
    using assms(1,3) by (cases "ad_status d")
      (auto simp: publish_adoption_result_if_current_def adoption_record_is_current_def has_status_def plan_defs
        dir_inv_def tidy_def split: if_splits)
  then show ?thesis using assms(1) by simp
next
  case True
  then obtain c where c: "ad_status d = Stored c" "ar_status c = STATUS_RUNNING" "ar_run_id c = cq_run_id req"
    by (auto simp: has_status_def)
  let ?res = "result_record result now_ms" and ?e = "effect_record key result now_ms"
  let ?r = "adoption_record_from_request req key STATUS_RUNNING (Some pid) None"
  let ?d1 = "d\<lparr>ad_effect := Stored ?e\<rparr>"
  have key: "ar_key c = key" using assms(1) c(1) by (simp add: dir_inv_def tidy_def)
  have ws: "ws = WriteEffect ?e # promotion ?r ?e"
    using assms(3) c key
    by (simp add: publish_adoption_result_if_current_def adoption_record_is_current_def plan_defs promotion_def
        effect_record_def)
  let ?b = "adoption_result_succeeded result"
  have b: "succeeded ?res = ?b" "succeeded (er_result ?e) = ?b" "er_effect_key ?e = key" "er_result ?e = ?res"
    by (auto simp: succeeded_def result_record_def effect_record_def adoption_result_succeeded_def)
  have d: "reports key w (cq_run_id req) ?b d"
    using assms(1,2) True unfolding dir_inv_def reports_def by blast
  have only: "x = cq_run_id req" if "w x = Some (Executing q p)" for x q p
    using has_status_unique [OF executing_status [OF assms(1) that] True] by simp
  let ?d3 = "?d1\<lparr>ad_stdout := Stored (er_stdout ?e), ad_stderr := Stored (er_stderr ?e)\<rparr>"
  let ?d4 = "?d3\<lparr>ad_result := Stored ?res\<rparr>"
  have d1: "reports key w (cq_run_id req) ?b ?d1" and d4: "reports key w (cq_run_id req) ?b ?d4"
    using d b unfolding reports_def by (auto simp: tidy_def has_status_def outcomes_agree_def)
  have o: "outcome ?d1 \<noteq> None" "outcome ?d4 \<noteq> None" by (auto simp: outcome_def split: stored.split)
  have "dir_inv key w (?d4\<lparr>ad_status := Stored (completed_with ?r ?res)\<rparr>)"
  proof -
    have "w x \<noteq> Some (Executing q p)" for x q p using only assms(2) by fastforce
    then show ?thesis using d4 unfolding reports_def dir_inv_def
      by (auto simp: tidy_def has_status_def status_backed_def)
  qed
  moreover have "success_recorded (?d4\<lparr>ad_status := Stored (completed_with ?r ?res)\<rparr>) = ?b"
    using b(1) by (simp add: success_recorded_def)
  moreover note reports_recorded [OF d] reports_recorded [OF d1] reports_recorded [OF d4] o
    reports_inv [OF d1 only] reports_inv [OF d4 only] assms(1)
  ultimately show ?thesis unfolding ws by (simp add: promotion_def b(4))
qed

lemma child_pid_ok:
  assumes "dir_inv key w d" and "w rid = Some (Executing req pid)"
    and "write_adoption_child_pid rid key child d = (ws, r)"
  shows "plan_ok (dir_inv key w) ws d"
proof -
  from executing_status [OF assms(1,2)] obtain c where c: "ad_status d = Stored c" "ar_status c = STATUS_RUNNING" "ar_run_id c = rid"
    by (auto simp: has_status_def)
  have key: "ar_key c = key" using assms(1) c(1) by (simp add: dir_inv_def tidy_def)
  have ws: "ws = [WriteStatus (c\<lparr>ar_codex_pid := Some child\<rparr>)]"
    using assms(3) c key by (simp add: write_adoption_child_pid_def adoption_record_is_current_def plan_defs)
  let ?d = "d\<lparr>ad_status := Stored (c\<lparr>ar_codex_pid := Some child\<rparr>)\<rparr>"
  have same: "has_status st x ?d = has_status st x d" "no_outcome ?d = no_outcome d" "outcomes_agree b ?d = outcomes_agree b d" for st x b
    using c(1) by (auto simp: has_status_def no_outcome_def outcomes_agree_def)
  have "tidy key ?d" "status_backed ?d" using assms(1) c key by (simp_all add: dir_inv_def tidy_def status_backed_def)
  then have "dir_inv key w ?d" using assms(1) unfolding dir_inv_def same by blast
  moreover have "success_recorded ?d = success_recorded d" using c(1,2) by (simp add: success_recorded_def)
  ultimately show ?thesis using assms(1) ws by simp
qed

lemma inv_report:
  assumes "dir_inv key w d" and "w rid = Some (Executing req pid)"
  shows "dir_inv key (w(rid \<mapsto> Reporting req pid result)) d" and "no_outcome d"
proof -
  show none: "no_outcome d" using assms unfolding dir_inv_def by blast
  then have "outcomes_agree b d" for b by (simp add: outcomes_agree_def no_outcome_def)
  then show "dir_inv key (w(rid \<mapsto> Reporting req pid result)) d"
    using assms(1) unfolding dir_inv_def by (auto split: if_splits)
qed

lemma receipt_plan:
  assumes "dir_inv key w d" and "w rid = Some (Executing req pid)"
  shows "write_codex_effect_receipt rid key result now_ms d = ([AppendEffectLog (effect_record key result now_ms)], Inr ())"
proof -
  from executing_status [OF assms] obtain c where c: "ad_status d = Stored c" "ar_status c = STATUS_RUNNING" "ar_run_id c = rid"
    by (auto simp: has_status_def)
  moreover have "ar_key c = key" using assms(1) c(1) by (simp add: dir_inv_def tidy_def)
  ultimately show ?thesis by (simp add: write_codex_effect_receipt_def adoption_record_is_current_def plan_defs)
qed

lemma receipt_holder_ok:
  assumes "dir_inv key w d" and "w rid = Some (Executing req pid)" and "rid = cq_run_id req"
  shows "holder_ok key (w(rid \<mapsto> Reporting req pid result)) d
    (Some (Section rid [AppendEffectLog (effect_record key result now_ms)] (Report req pid result)))"
proof -
  let ?w = "w(rid \<mapsto> Reporting req pid result)" and ?e = "effect_record key result now_ms"
  let ?b = "adoption_result_succeeded result" and ?d = "d\<lparr>ad_effect_log := Stored [Some (effect_record key result now_ms)]\<rparr>"
  note inv = inv_report(1) [OF assms(1,2), of result] inv_report(2) [OF assms(1,2)]
  have running: "has_status STATUS_RUNNING rid d" by (rule executing_status [OF assms(1,2)])
  have "succeeded (er_result ?e) = ?b" "er_effect_key ?e = key"
    by (auto simp: succeeded_def result_record_def effect_record_def adoption_result_succeeded_def)
  then have "reports key ?w rid ?b ?d"
    using inv running by (auto simp: reports_def dir_inv_def tidy_def has_status_def outcomes_agree_def no_outcome_def)
  moreover have "x = rid" if "?w x = Some (Executing q p)" for x q p
    using that executing_status [OF assms(1), of x q p] has_status_unique [OF running] by (auto split: if_splits)
  ultimately have "dir_inv key ?w ?d" by (rule reports_inv)
  moreover have "\<not> success_recorded d"
    using running inv(2) by (intro prepared_not_recorded [of STATUS_RUNNING rid]) (simp_all add: prepared_def)
  ultimately show ?thesis using inv assms(3) by (simp add: holder_ok_def no_outcome_def)
qed

section \<open>Every step keeps the invariant\<close>

text \<open>Losing a worker never hurts.\<close>

lemma dir_inv_drop: "dir_inv key w d \<Longrightarrow> dir_inv key (w(rid := None)) d"
  unfolding dir_inv_def by (auto split: if_splits)

lemma holder_ok_here: "holder_ok key w d h \<Longrightarrow> dir_inv key w d"
  by (auto simp: holder_ok_def dest: plan_ok_here split: option.splits lock_holder.splits continuation.splits)

lemma holder_ok_drop:
  assumes "holder_ok key w d h" and "w rid \<noteq> Some Claiming" and "\<nexists>ws k. h = Some (Section rid ws k)"
  shows "holder_ok key (w(rid := None)) d h"
proof -
  have "plan_ok (dir_inv key w) ws x \<Longrightarrow> plan_ok (dir_inv key (w(rid := None))) ws x"
    "plan_ok (\<lambda>d. dir_inv key w d \<and> \<not> success_recorded d) ws x \<Longrightarrow>
     plan_ok (\<lambda>d. dir_inv key (w(rid := None)) d \<and> \<not> success_recorded d) ws x" for ws x
    by (erule plan_ok_mono, simp add: dir_inv_drop)+
  then show ?thesis
    using assms dir_inv_drop by (auto simp: holder_ok_def split: option.splits lock_holder.splits continuation.splits)
qed

lemma write_holder_ok:
  assumes "holder_ok key w d (Some (Section rid (x # ws) k))"
  shows "holder_ok key w (apply_write x d) (Some (Section rid ws k))"
  using assms by (cases k) (auto simp: holder_ok_def)

text \<open>A failing write ends a critical section.\<close>

lemma io_error_ok:
  assumes "holder_ok key w d (Some (Section rid (x # ws) k))"
  shows "dir_inv key (after_io_error message k w) d"
proof (cases k)
  case (Report req pid result)
  with assms have "no_outcome d" by (simp add: holder_ok_def)
  then have "outcomes_agree b d" for b by (simp add: outcomes_agree_def no_outcome_def)
  then show ?thesis
    using holder_ok_here [OF assms] Report unfolding dir_inv_def after_io_error_def by (auto split: if_splits)
qed (use holder_ok_here [OF assms] dir_inv_drop in \<open>simp_all add: after_io_error_def\<close>)

lemma begin_work_ok:
  assumes "holder_ok key w d (Some (Section rid [] (Begin req pid)))"
  shows "dir_inv key (w(rid \<mapsto> Executing req pid)) d"
proof -
  have "dir_inv key w d" "prepared STATUS_RUNNING rid d" "rid = cq_run_id req" using assms by (auto simp: holder_ok_def)
  then show ?thesis unfolding dir_inv_def prepared_def by (auto split: if_splits)
qed

lemma alive_workers: "alive s = (\<lambda>rid. as_workers s rid \<noteq> None)"
  by (simp add: alive_def fun_eq_iff)

lemma recover_locked_ok:
  assumes "dir_inv key w d" and "recover_completed_adoption_result_locked key q d = (ws, r)"
  shows "plan_ok (dir_inv key w) ws d"
proof -
  obtain ws1 y where y: "recover_completed_adoption_result_locked_from_disk key d = (ws1, y)" by fastforce
  note rec = recover_ok [OF assms(1) y]
  have "tidy key (apply_writes ws1 d)" using plan_ok_end [OF rec(1)] by (rule dir_inv_tidy)
  then obtain z where "read_completed_adoption_result q (apply_writes ws1 d) = ([], Inr z)"
    by (rule read_completed_tidy [of key _ q])
  then have "ws = ws1"
    using assms(2) y rec(2)
    by (auto simp: recover_completed_adoption_result_locked_def followed_by_def give_def split: if_splits)
  with rec(1) show ?thesis by simp
qed

lemma holder_ok_None [simp]: "holder_ok key w d None = dir_inv key w d"
  by (simp add: holder_ok_def)

lemma holder_ok_Unlock [simp]: "holder_ok key w d (Some (Section rid ws Unlock)) = plan_ok (dir_inv key w) ws d"
  by (simp add: holder_ok_def)

lemma holder_ok_Inherited [simp]:
  "holder_ok key w d (Some (Inherited req)) \<longleftrightarrow> dir_inv key w d \<and> prepared STATUS_INTENT (cq_run_id req) d"
  by (simp add: holder_ok_def)

lemma system_inv_step:
  assumes "system_inv key s" and "adoption_step key l s s'"
  shows "system_inv key s'"
proof -
  note ok = assms(1) [unfolded system_inv_def]
  have free: "dir_inv key (as_workers s) (as_dir s)" using ok by (rule holder_ok_here)
  from assms(2) show ?thesis
  proof (cases rule: adoption_step.cases)
    case (request req ws r)
    then show ?thesis using request_holder_ok [OF free] by (simp add: system_inv_def alive_workers)
  next
    case (recover rid ws r)
    then show ?thesis using recover_locked_ok [OF free] by (simp add: system_inv_def)
  next
    case (do_write rid w ws k)
    then show ?thesis using ok write_holder_ok by (simp add: system_inv_def)
  next
    case (unlock rid)
    then show ?thesis using free by (simp add: system_inv_def)
  next
    case (spawn rid req)
    then show ?thesis using ok by (auto simp: system_inv_def holder_ok_def)
  next
    case (claim req pid ws)
    then show ?thesis using ok claim_holder_ok [OF free] by (simp add: system_inv_def alive_workers)
  next
    case (claim_refused req pid ws r)
    then have "ws = []" using ok claim_plan [OF free, of req] by (auto split: if_splits)
    then show ?thesis using claim_refused free by (simp add: system_inv_def)
  next
    case (begin_work rid req pid)
    then show ?thesis using ok begin_work_ok by (simp add: system_inv_def)
  next
    case (child_pid rid req pid child ws r)
    then show ?thesis using child_pid_ok [OF free] by (simp add: system_inv_def)
  next
    case (receipt rid req pid result now_ms ws)
    then show ?thesis
      using receipt_plan [OF free] receipt_holder_ok [OF free, of rid req pid result now_ms] by (simp add: system_inv_def)
  next
    case (receipt_refused rid req pid result now_ms ws e message)
    then show ?thesis using inv_report(1) [OF free] by (simp add: system_inv_def)
  next
    case (report rid req pid result)
    then show ?thesis using free by (simp add: system_inv_def)
  next
    case (publish rid req pid result now_ms ws r)
    then show ?thesis using publish_ok [OF free] by (simp add: system_inv_def)
  next
    case (io_error rid w ws k message)
    then show ?thesis using ok io_error_ok by (simp add: system_inv_def)
  next
    case (crash rid ws k)
    then show ?thesis using dir_inv_drop [OF free] by (simp add: system_inv_def)
  next
    case (worker_lost req)
    then show ?thesis using free by (simp add: system_inv_def)
  next
    case (worker_dies rid)
    then show ?thesis using ok holder_ok_drop by (simp add: system_inv_def)
  qed
qed

interpretation adoption: inductive_invariant adoption_init "adoption_step key" "system_inv key" for key
proof
  show "system_inv key s" if "adoption_init s" for s
    using that
    by (auto simp: adoption_init_def system_inv_def dir_inv_def tidy_def status_backed_def empty_dir_def)
  show "system_inv key s'" if "system_inv key s" "adoption_step key l s s'" for s l s'
    using that by (rule system_inv_step)
qed

end
