(* ===== verification/Codex_Theorems.thy ===== *)
theory Codex_Theorems
  imports Codex_Machine
begin

text \<open>
  The properties of adoptable codex runs: at most one run of a key is at work, a worker that has been
  replaced publishes nothing, and a run that has succeeded is never run again.
\<close>

section \<open>What a recorded success excludes\<close>

lemma recorded_step:
  assumes "system_inv key s" and "success_recorded (as_dir s)" and "adoption_step key l s s'"
  shows "success_recorded (as_dir s') \<and> (\<forall>rid. l \<noteq> WorkBegins rid)"
proof -
  note ok = assms(1) [unfolded system_inv_def]
  from assms(3) show ?thesis
  proof (cases rule: adoption_step.cases)
    case (do_write rid x ws k)
    with ok have "holder_ok key (as_workers s) (as_dir s) (Some (Section rid (x # ws) k))" by simp
    then show ?thesis using do_write assms(2) by (cases k) (auto simp: holder_ok_def)
  next
    case (begin_work rid req pid)
    then have "prepared STATUS_RUNNING rid (as_dir s)" using ok by (auto simp: holder_ok_def)
    then show ?thesis using assms(2) prepared_not_recorded by fastforce
  qed (use assms(2) in simp_all)
qed

lemma recorded_run:
  assumes "run (adoption_step key) s ls s'" and "system_inv key s" and "success_recorded (as_dir s)"
  shows "success_recorded (as_dir s') \<and> (\<forall>rid. WorkBegins rid \<notin> set ls)"
  using assms
proof (induction rule: run.induct)
  case (run_Cons l s t ls u)
  have "success_recorded (as_dir t)" "\<forall>rid. l \<noteq> WorkBegins rid"
    using recorded_step [OF run_Cons.prems(1,2) run_Cons.hyps(1)] by auto
  then show ?case using run_Cons.IH [OF system_inv_step [OF run_Cons.prems(1) run_Cons.hyps(1)]] by auto
qed simp

lemma recorded_request:
  assumes "dir_inv key w d" and "success_recorded d"
  shows "\<exists>ws res. run_adoptable_codex_request is_alive req key d = (ws, Inr (Returned res)) \<and> adoption_result_succeeded res"
proof -
  obtain ws r where r: "run_adoptable_codex_request is_alive req key d = (ws, r)" by fastforce
  with assms(1) show ?thesis
  proof (cases rule: request_cases)
    case (started ws1)
    then show ?thesis using plan_ok_keeps [OF started(3) assms(2)] by simp
  next
    case other
    then show ?thesis using plan_ok_keeps [OF other(2) assms(2)] by simp
  qed (use r in blast)
qed

section \<open>A run from start to receipt\<close>

lemma write_all:
  assumes "reach adoption_init (adoption_step key) s" and "as_lock s = Some (Section rid ws k)"
  shows "reach adoption_init (adoption_step key) (s\<lparr>as_dir := apply_writes ws (as_dir s), as_lock := Some (Section rid [] k)\<rparr>)"
  using assms
proof (induction ws arbitrary: s)
  case Nil
  then have "s\<lparr>as_dir := as_dir s, as_lock := Some (Section rid [] k)\<rparr> = s" by (cases s) simp
  then show ?case using Nil by (simp only: apply_writes_simps)
next
  case (Cons x ws)
  let ?t = "s\<lparr>as_dir := apply_write x (as_dir s), as_lock := Some (Section rid ws k)\<rparr>"
  have "adoption_step key Writes s ?t" using Cons.prems(2) by (rule do_write)
  with Cons.prems(1) have "reach adoption_init (adoption_step key) ?t" by (rule reach_step)
  from Cons.IH [OF this] show ?case by simp
qed

definition first_dir :: "codex_request \<Rightarrow> string \<Rightarrow> u32 \<Rightarrow> adoption_dir" where
  "first_dir req key pid =
     apply_writes (start_writes req key @ [WriteStatus (adoption_record_from_request req key STATUS_RUNNING (Some pid) None)])
       empty_dir"

definition first_run :: "codex_request \<Rightarrow> string \<Rightarrow> u32 \<Rightarrow> adoption_system" where
  "first_run req key pid =
     \<lparr>as_dir = first_dir req key pid, as_lock = None, as_workers = (\<lambda>_. None)(cq_run_id req \<mapsto> Executing req pid)\<rparr>"

lemma first_run_reachable:
  assumes "valid_run_id (cq_run_id req)"
  shows "reach adoption_init (adoption_step key) (first_run req key pid)"
proof -
  let ?init = "\<lparr>as_dir = empty_dir, as_lock = None, as_workers = (\<lambda>_. None)\<rparr>"
  let ?rid = "cq_run_id req" and ?reach = "reach adoption_init (adoption_step key)"
  let ?d = "apply_writes (start_writes req key) empty_dir"
  let ?s = "\<lparr>as_dir = ?d, as_lock = Some (Inherited req), as_workers = (\<lambda>_. None)\<rparr>"
  let ?t = "\<lparr>as_dir = first_dir req key pid, as_lock = Some (Section ?rid [] (Begin req pid)),
    as_workers = (\<lambda>_. None)(?rid \<mapsto> Claiming)\<rparr>"
  have "run_adoptable_codex_request (alive ?init) req key empty_dir = (start_writes req key, Inr WorkerStarted)"
    by (simp add: run_adoptable_codex_request_def read_reusable_adoption_result_def only_reusable_def
        read_completed_adoption_result_def recover_reusable_adoption_result_locked_def
        recover_completed_adoption_result_locked_def recover_completed_adoption_result_locked_from_disk_def
        recover_completed_adoption_effect_by_key_def recover_completed_external_codex_effect_by_key_def
        recover_completed_by_def start_adoption_worker_plan empty_dir_def followed_by_def give_def read_file_def)
  then have "adoption_step key (Requests ?rid) ?init (?init\<lparr>as_lock := Some (Section ?rid (start_writes req key) (Spawn req))\<rparr>)"
    using request [of ?init req key "start_writes req key" "Inr WorkerStarted"] by (simp add: after_request_def)
  moreover have "?reach ?init" by (rule reach_init) (simp add: adoption_init_def)
  ultimately have "?reach (?init\<lparr>as_lock := Some (Section ?rid (start_writes req key) (Spawn req))\<rparr>)"
    by (metis reach_step)
  from write_all [OF this] have "?reach \<lparr>as_dir = ?d, as_lock = Some (Section ?rid [] (Spawn req)), as_workers = (\<lambda>_. None)\<rparr>"
    by simp
  moreover have "adoption_step key (Spawns ?rid) \<lparr>as_dir = ?d, as_lock = Some (Section ?rid [] (Spawn req)), as_workers = (\<lambda>_. None)\<rparr>
      \<lparr>as_dir = ?d, as_lock = Some (Inherited req), as_workers = (\<lambda>_. None)\<rparr>"
    using spawn [of "\<lparr>as_dir = ?d, as_lock = Some (Section ?rid [] (Spawn req)), as_workers = (\<lambda>_. None)\<rparr>" ?rid req key] by simp
  ultimately have inherited: "?reach ?s" by (rule reach_step)
  have ok: "dir_inv key (as_workers ?s) ?d" "prepared STATUS_INTENT ?rid ?d"
    using adoption.reach_inv [OF inherited] by (simp_all add: system_inv_def)
  let ?w = "WriteStatus (adoption_record_from_request req key STATUS_RUNNING (Some pid) None)"
  have "claim_adoption_worker (alive ?s) req key pid ?d = ([?w], Inr True)"
    using claim_plan [OF ok] assms by (simp add: alive_def)
  then have "adoption_step key (Claims ?rid) ?s
      (?s\<lparr>as_lock := Some (Section ?rid [?w] (Begin req pid)), as_workers := (as_workers ?s)(?rid \<mapsto> Claiming)\<rparr>)"
    by (intro claim) simp_all
  with inherited have "?reach (?s\<lparr>as_lock := Some (Section ?rid [?w] (Begin req pid)), as_workers := (as_workers ?s)(?rid \<mapsto> Claiming)\<rparr>)"
    by (rule reach_step)
  from write_all [OF this] have "?reach ?t" by (simp add: first_dir_def)
  moreover have "adoption_step key (WorkBegins ?rid) ?t (first_run req key pid)"
    using begin_work [of ?t ?rid req pid key] by (simp add: first_run_def)
  ultimately show ?thesis by (rule reach_step)
qed

definition receipted_run :: "codex_request \<Rightarrow> string \<Rightarrow> u32 \<Rightarrow> codex_result \<Rightarrow> u64 \<Rightarrow> adoption_system" where
  "receipted_run req key pid result now_ms =
     \<lparr>as_dir = (first_dir req key pid)\<lparr>ad_effect_log := Stored [Some (effect_record key result now_ms)]\<rparr>, as_lock = None,
      as_workers = (\<lambda>_. None)(cq_run_id req \<mapsto> Reporting req pid result)\<rparr>"

lemma receipted_run_reachable:
  assumes "valid_run_id (cq_run_id req)"
  shows "reach adoption_init (adoption_step key) (receipted_run req key pid result now_ms)"
proof -
  let ?s = "first_run req key pid" and ?rid = "cq_run_id req" and ?reach = "reach adoption_init (adoption_step key)"
  note reach = first_run_reachable [OF assms, of key pid]
  have inv: "dir_inv key (as_workers ?s) (as_dir ?s)"
    using adoption.reach_inv [OF reach] by (simp add: system_inv_def first_run_def)
  have ex: "as_workers ?s ?rid = Some (Executing req pid)" by (simp add: first_run_def)
  let ?w = "AppendEffectLog (effect_record key result now_ms)"
  let ?t = "?s\<lparr>as_lock := Some (Section ?rid [?w] (Report req pid result)), as_workers := (as_workers ?s)(?rid \<mapsto> Reporting req pid result)\<rparr>"
  have "adoption_step key (Receipts ?rid) ?s ?t"
    by (rule receipt [OF _ ex refl receipt_plan [OF inv ex]]) (simp add: first_run_def)
  with reach have "?reach ?t" by (rule reach_step)
  let ?u = "?t\<lparr>as_dir := apply_write ?w (as_dir ?s), as_lock := Some (Section ?rid [] (Report req pid result))\<rparr>"
  have "?reach ?u" using write_all [OF \<open>?reach ?t\<close>] by simp
  moreover have "adoption_step key Unlocks ?u (?u\<lparr>as_lock := None\<rparr>)" by (rule report [of _ ?rid req pid result]) simp
  ultimately have "?reach (?u\<lparr>as_lock := None\<rparr>)" by (rule reach_step)
  moreover have "ad_effect_log (first_dir req key pid) = Absent" by (simp add: first_dir_def start_writes_def)
  ultimately show ?thesis by (simp add: receipted_run_def first_run_def)
qed

lemma receipted_run_recorded:
  assumes "adoption_result_succeeded result"
  shows "success_recorded (as_dir (receipted_run req key pid result now_ms))"
  using assms
  by (simp add: success_recorded_def receipted_run_def first_dir_def start_writes_def outcome_def effect_record_def
      result_record_def succeeded_def adoption_result_succeeded_def)

section \<open>Properties\<close>

definition executing :: "adoption_system \<Rightarrow> string \<Rightarrow> bool" where
  "executing s rid \<longleftrightarrow> (\<exists>req pid. as_workers s rid = Some (Executing req pid))"

text \<open>C25: At most one run of a key is at work. Let any number of processes request the same work, wait for it,
  recover it and run it, in any order, with writes that fail and processes that die before any write. Then
  codex runs for at most one run at a time, and the status on disk is that run's, so every other request
  waits for it; and a worker that has been replaced is fenced: its publication writes nothing.\<close>

theorem codex_runs_exclusive:
  assumes "reach adoption_init (adoption_step key) s"
  shows "(\<forall>a b. executing s a \<and> executing s b \<longrightarrow> a = b) \<and>
    (\<forall>rid. executing s rid \<longrightarrow> has_status STATUS_RUNNING rid (as_dir s)) \<and>
    (\<forall>req pid result now_ms. \<not> has_status STATUS_RUNNING (cq_run_id req) (as_dir s) \<longrightarrow>
       publish_adoption_result_if_current req key pid result now_ms (as_dir s) = ([], Inr False))"
proof -
  have inv: "dir_inv key (as_workers s) (as_dir s)"
    using adoption.reach_inv [OF assms] unfolding system_inv_def by (rule holder_ok_here)
  have status: "has_status STATUS_RUNNING rid (as_dir s)" if "executing s rid" for rid
    using that executing_status [OF inv] by (auto simp: executing_def)
  moreover have "publish_adoption_result_if_current req key pid result now_ms (as_dir s) = ([], Inr False)"
    if "\<not> has_status STATUS_RUNNING (cq_run_id req) (as_dir s)" for req pid result now_ms
    using that inv by (cases "ad_status (as_dir s)")
      (auto simp: publish_adoption_result_if_current_def adoption_record_is_current_def has_status_def plan_defs
        dir_inv_def tidy_def)
  ultimately show ?thesis using has_status_unique by blast
qed

definition sample_request :: codex_request where
  "sample_request =
     \<lparr>cq_run_id = ''codex-A'', cq_prompt = ''fix it'', cq_context = None, cq_worktree = Some ''/w'', cq_sandbox = None,
      cq_timeout_seconds = 60, cq_log_path = ''/l'', cq_role = None, cq_label = None, cq_proposal_id = None,
      cq_dedup_key = Some ''k'', cq_dept = None, cq_started_at_ms = 0\<rparr>"

lemma sample_valid: "valid_run_id (cq_run_id sample_request)"
  by code_simp

theorem codex_runs_exclusive_witness:
  "executing (first_run sample_request ''k'' 7) ''codex-A'' \<and>
   has_status STATUS_RUNNING ''codex-A'' (as_dir (first_run sample_request ''k'' 7))"
proof -
  have "executing (first_run sample_request ''k'' 7) ''codex-A''"
    by (simp add: executing_def first_run_def sample_request_def)
  then show ?thesis using codex_runs_exclusive [OF first_run_reachable [OF sample_valid, of "''k''" 7]] by blast
qed

text \<open>C22: A codex run that has succeeded is never run again. As soon as the receipt of a successful run, or
  anything that it is turned into later, is on disk, no interleaving of requests, recoveries, workers, failing
  writes and dying processes ever starts codex for this key again; and whenever the lock is free, a request
  is answered at once with a successful result.\<close>

theorem codex_success_never_repeated:
  assumes "reach adoption_init (adoption_step key) s" and "success_recorded (as_dir s)"
    and "run (adoption_step key) s ls s'"
  shows "(\<forall>rid. WorkBegins rid \<notin> set ls) \<and>
    (as_lock s' = None \<longrightarrow>
       (\<forall>req. \<exists>ws res. run_adoptable_codex_request (alive s') req key (as_dir s') = (ws, Inr (Returned res)) \<and>
          adoption_result_succeeded res))"
proof -
  have inv: "system_inv key s" using assms(1) by (rule adoption.reach_inv)
  note rec = recorded_run [OF assms(3) inv assms(2)]
  have "dir_inv key (as_workers s') (as_dir s')"
    using adoption.run_inv [OF assms(3) inv] unfolding system_inv_def by (rule holder_ok_here)
  with rec recorded_request show ?thesis by blast
qed

theorem codex_success_never_repeated_witness:
  "let s = receipted_run sample_request ''k'' 7 (codex_success ''done'' [] 0 ''/l'') 5 in
   \<exists>ws res. run_adoptable_codex_request (alive s) sample_request ''k'' (as_dir s) = (ws, Inr (Returned res)) \<and>
     adoption_result_succeeded res"
proof -
  let ?r = "codex_success ''done'' [] 0 ''/l''"
  let ?s = "receipted_run sample_request ''k'' 7 ?r 5"
  have "adoption_result_succeeded ?r" by (simp add: adoption_result_succeeded_def codex_success_def)
  moreover have "as_lock ?s = None" by (simp add: receipted_run_def)
  ultimately show ?thesis
    using codex_success_never_repeated
      [OF receipted_run_reachable [OF sample_valid] receipted_run_recorded run_Nil, of ?r "''k''" 7 5]
    by simp
qed

end
