(* ===== verification/Delivery_Observe.thy ===== *)
theory Delivery_Observe
  imports Delivery_Settlement Delivery_Identity
begin

text \<open>
  Observations of the durable store (\<open>supervise/delivery_observe.rs\<close>, \<open>observe.rs\<close> and the request
  handler of \<open>supervise/observe_server.rs\<close>): a snapshot of the queues, the live deliveries and the dead
  letters, pages and windows of dead letters with opaque cursors, and the lineage of a source. The
  serialisation of JSON values and of the cursor's envelope and the base64 alphabet are arguments
  (\<open>observe_codec\<close>); so are the socket and the outcome of opening the database file. Counters of
  \<open>usize\<close> are natural numbers: they count rows of a table.
\<close>

section \<open>Data\<close>

record dead_letter_page_cursor =
  pc_dead_at_ms :: u64
  pc_delivery_id :: string

record dead_letter_cursor_envelope =
  ce_version :: u32
  ce_section :: string
  ce_dead_at_ms :: u64
  ce_delivery_id :: string

record dead_letter_page_request =
  page_section :: string
  page_after :: "string option"

record dead_letter_window_request =
  win_start_ms :: u64
  win_end_ms :: u64

datatype observe_error =
    EmptySince
  | PageWithSince
  | WindowWithPage
  | WindowReversed
  | LimitOutOfRange
  | WrongSection
  | CursorNotBase64
  | CursorNotJson
  | CursorVersion u32
  | CursorSection
  | CursorDeliveryId runtime_key_error
  | SerializeFailed
  | DigestPanic
  | StoreFailed store_error
  | RequestUndecodable
  | LiveOwnerUnavailable
  | OfflineOpenFailed
  | LiveSocketFailed
  | UnexpectedLineage
  | UnexpectedSnapshot
  | LiveReplied observe_error

record observe_codec =
  json_to_vec :: "json \<Rightarrow> string option"
  url_safe_encode :: "string \<Rightarrow> string"
  url_safe_decode :: "string \<Rightarrow> string option"
  envelope_to_vec :: "dead_letter_cursor_envelope \<Rightarrow> string option"
  envelope_from_slice :: "string \<Rightarrow> dead_letter_cursor_envelope option"

record delivery_observe_options =
  oo_now_ms :: u64
  oo_limit :: nat
  oo_since :: "string option"
  oo_dead_letter_page :: "dead_letter_page_cursor option option"
  oo_dead_letter_window :: "(u64 \<times> u64) option"
  oo_current_subscriber_queues :: "string list option"

datatype delivery_observe_status = Pending | InFlight | Retrying

datatype queue_subscriber_status = Current | Absent | Unknown

record payload_observe_summary =
  ps_schema :: "string option"
  ps_dedup_key :: "string option"
  ps_digest :: string
  ps_bytes :: nat

record delivery_observe_entry =
  oe_delivery_id :: string
  oe_queue :: string
  oe_dept :: string
  oe_source :: "source_ref option"
  oe_status :: delivery_observe_status
  oe_observed_at_ms :: u64
  oe_not_before_ms :: u64
  oe_attempt :: u64
  oe_redrive_count :: u64
  oe_lease_generation :: u64
  oe_lease_until_ms :: "u64 option"
  oe_fence_token :: string
  oe_subscriber_absent_since_ms :: "u64 option"
  oe_payload :: payload_observe_summary
  oe_last_error_excerpt :: "string option"

record dead_letter_observe_entry =
  de_delivery_id :: string
  de_queue :: string
  de_dept :: string
  de_source :: "source_ref option"
  de_observed_at_ms :: u64
  de_not_before_ms :: u64
  de_dead_at_ms :: u64
  de_attempts :: u64
  de_redrive_count :: u64
  de_replayable :: bool
  de_permanent :: bool
  de_payload :: payload_observe_summary
  de_error_excerpt :: "string option"

record queue_observe_state =
  qs_queue :: string
  qs_depth :: nat
  qs_pending :: nat
  qs_in_flight :: nat
  qs_retrying :: nat
  qs_oldest_pending_age_ms :: "u64 option"
  qs_subscriber_status :: queue_subscriber_status
  qs_has_current_subscriber :: "bool option"

record delivery_observe_page =
  op_section :: string
  op_next :: "string option"

record delivery_observe_snapshot =
  sn_schema_version :: nat
  sn_generated_at_ms :: u64
  sn_durable_root :: string
  sn_database :: string
  sn_max_deliveries :: nat
  sn_max_dead_letters :: nat
  sn_truncated_deliveries :: bool
  sn_truncated_dead_letters :: bool
  sn_dead_letters_complete :: "bool option"
  sn_queues :: "queue_observe_state list"
  sn_deliveries :: "delivery_observe_entry list"
  sn_dead_letters :: "dead_letter_observe_entry list"
  sn_page :: "delivery_observe_page option"

record lineage_observe_result =
  lo_live_delivery :: "delivery_observe_entry option"
  lo_terminal_dead_letter :: "dead_letter_observe_entry option"

record queue_accumulator =
  acc_pending :: nat
  acc_in_flight :: nat
  acc_retrying :: nat
  acc_oldest_pending_ms :: "u64 option"

section \<open>Entries\<close>

text \<open>\<open>manifest_hash.rs\<close> holds the hash of the delivery router a second time, with other variable names.\<close>

definition manifest_sha256 :: "u8 list \<Rightarrow> u8 list" where
  "manifest_sha256 input = sha256 input"

definition sha256_hex :: "u8 list \<Rightarrow> string" where
  "sha256_hex input = concat (map u8_hex (manifest_sha256 input))"

definition delivery_status :: "delivery_record \<Rightarrow> u64 \<Rightarrow> delivery_observe_status" where
  "delivery_status r now_ms =
     (if (case lease_until_ms r of None \<Rightarrow> False | Some lease_until \<Rightarrow> now_ms < lease_until) then InFlight
      else if 0 < attempt r \<and> now_ms < not_before_ms r then Retrying
      else Pending)"

definition fence_token :: "string \<Rightarrow> u64 \<Rightarrow> string" where
  "fence_token did generation = did @ ''#'' @ dec (unat generation)"

definition payload_string_field :: "json \<Rightarrow> string \<Rightarrow> string option" where
  "payload_string_field p key = Option.bind (json_get p key) json_as_str"

definition payload_summary :: "observe_codec \<Rightarrow> json \<Rightarrow> observe_error + payload_observe_summary" where
  "payload_summary C p =
     (case json_to_vec C p of
        None \<Rightarrow> Inl SerializeFailed
      | Some bytes \<Rightarrow>
          Inr \<lparr>ps_schema = payload_string_field p ''schema'', ps_dedup_key = payload_string_field p ''dedup_key'',
               ps_digest = sha256_hex (bytes_of bytes), ps_bytes = length bytes\<rparr>)"

definition stable_json_digest :: "observe_codec \<Rightarrow> json \<Rightarrow> observe_error + string" where
  "stable_json_digest C v =
     (case json_to_vec C v of None \<Rightarrow> Inl DigestPanic | Some bytes \<Rightarrow> Inr (sha256_hex (bytes_of bytes)))"

definition empty_payload_summary :: "observe_codec \<Rightarrow> observe_error + payload_observe_summary" where
  "empty_payload_summary C =
     rbind (stable_json_digest C JNull) (\<lambda>digest.
       Inr \<lparr>ps_schema = None, ps_dedup_key = None, ps_digest = digest, ps_bytes = 4\<rparr>)"

definition delivery_observe_entry_of ::
    "observe_codec \<Rightarrow> u64 \<Rightarrow> delivery_record \<Rightarrow> observe_error + delivery_observe_entry" where
  "delivery_observe_entry_of C now_ms r =
     rbind (payload_summary C (payload r)) (\<lambda>p.
       Inr \<lparr>oe_delivery_id = delivery_id r, oe_queue = queue r, oe_dept = dept r, oe_source = source r,
            oe_status = delivery_status r now_ms, oe_observed_at_ms = observed_at_ms r,
            oe_not_before_ms = not_before_ms r, oe_attempt = attempt r, oe_redrive_count = redrive_count r,
            oe_lease_generation = lease_generation r, oe_lease_until_ms = lease_until_ms r,
            oe_fence_token = fence_token (delivery_id r) (lease_generation r),
            oe_subscriber_absent_since_ms = subscriber_absent_since_ms r, oe_payload = p,
            oe_last_error_excerpt = last_error_excerpt r\<rparr>)"

definition dead_letter_observe_entry_of ::
    "observe_codec \<Rightarrow> dead_record \<Rightarrow> observe_error + dead_letter_observe_entry" where
  "dead_letter_observe_entry_of C d =
     rbind (case dr_record d of Some r \<Rightarrow> payload_summary C (payload r) | None \<Rightarrow> empty_payload_summary C)
       (\<lambda>p. Inr \<lparr>de_delivery_id = dr_delivery_id d, de_queue = dr_queue d, de_dept = dr_dept d,
            de_source = dr_source d, de_observed_at_ms = dr_observed_at_ms d,
            de_not_before_ms = dr_not_before_ms d, de_dead_at_ms = dead_at_ms d, de_attempts = attempts d,
            de_redrive_count = dr_redrive_count d, de_replayable = replayable d,
            de_permanent = permanent d, de_payload = p, de_error_excerpt = error_excerpt_of d\<rparr>)"

text \<open>\<open>collect::<Result<Vec<_>>>\<close> and \<open>Option::transpose\<close>.\<close>

fun collect_results :: "('a \<Rightarrow> 'e + 'b) \<Rightarrow> 'a list \<Rightarrow> 'e + 'b list" where
  "collect_results f [] = Inr []"
| "collect_results f (x # xs) = rbind (f x) (\<lambda>y. rbind (collect_results f xs) (\<lambda>ys. Inr (y # ys)))"

definition transpose_option :: "('a \<Rightarrow> 'e + 'b) \<Rightarrow> 'a option \<Rightarrow> 'e + 'b option" where
  "transpose_option f x = (case x of None \<Rightarrow> Inr None | Some a \<Rightarrow> rbind (f a) (\<lambda>b. Inr (Some b)))"

section \<open>Queues\<close>

definition empty_accumulator :: queue_accumulator where
  "empty_accumulator = \<lparr>acc_pending = 0, acc_in_flight = 0, acc_retrying = 0, acc_oldest_pending_ms = None\<rparr>"

definition observe_delivery :: "u64 \<Rightarrow> delivery_record \<Rightarrow> queue_accumulator \<Rightarrow> queue_accumulator" where
  "observe_delivery now_ms r acc =
     (case delivery_status r now_ms of
        Pending \<Rightarrow> acc\<lparr>acc_pending := acc_pending acc + 1,
          acc_oldest_pending_ms := Some (case acc_oldest_pending_ms acc of
              Some oldest \<Rightarrow> min oldest (not_before_ms r) | None \<Rightarrow> not_before_ms r)\<rparr>
      | InFlight \<Rightarrow> acc\<lparr>acc_in_flight := acc_in_flight acc + 1\<rparr>
      | Retrying \<Rightarrow> acc\<lparr>acc_retrying := acc_retrying acc + 1\<rparr>)"

definition finish_queue ::
    "u64 \<Rightarrow> string list option \<Rightarrow> string \<Rightarrow> queue_accumulator \<Rightarrow> queue_observe_state" where
  "finish_queue now_ms current q acc =
     (let status = (case current of
            Some subscribers \<Rightarrow> if q \<in> set subscribers then Current else Absent
          | None \<Rightarrow> Unknown)
      in \<lparr>qs_queue = q,
          qs_depth = min (min (acc_pending acc + acc_in_flight acc) usize_max + acc_retrying acc) usize_max,
          qs_pending = acc_pending acc, qs_in_flight = acc_in_flight acc, qs_retrying = acc_retrying acc,
          qs_oldest_pending_age_ms = map_option (\<lambda>observed. sat_sub now_ms observed) (acc_oldest_pending_ms acc),
          qs_subscriber_status = status,
          qs_has_current_subscriber = (case status of
              Current \<Rightarrow> Some True | Absent \<Rightarrow> Some False | Unknown \<Rightarrow> None)\<rparr>)"

text \<open>What the visitors of a scan collect: the queues, the live records and the dead records.\<close>

type_synonym observation = "queue_accumulator table \<times> delivery_record list \<times> dead_record list"

definition note_delivery :: "u64 \<Rightarrow> observation \<Rightarrow> delivery_record \<Rightarrow> observation" where
  "note_delivery now_ms ob r =
     (case ob of (queues, ls, ds) \<Rightarrow>
        (t_insert (queue r)
           (observe_delivery now_ms r (case t_get queues (queue r) of Some acc \<Rightarrow> acc | None \<Rightarrow> empty_accumulator))
           queues, ls @ [r], ds))"

definition note_record :: "u64 \<Rightarrow> observation \<Rightarrow> delivery_scan_record \<Rightarrow> store_error + observation" where
  "note_record now_ms ob x =
     (case x of
        ScanDelivery r \<Rightarrow> Inr (note_delivery now_ms ob r)
      | ScanDead d \<Rightarrow> (case ob of (queues, ls, ds) \<Rightarrow> Inr (queues, ls, ds @ [d])))"

section \<open>Cursors\<close>

fun position :: "('a \<Rightarrow> bool) \<Rightarrow> 'a list \<Rightarrow> nat option" where
  "position P [] = None"
| "position P (x # xs) = (if P x then Some 0 else map_option Suc (position P xs))"

definition trim_after_cursor :: "('a \<Rightarrow> string) \<Rightarrow> string \<Rightarrow> 'a list \<Rightarrow> 'a list" where
  "trim_after_cursor id_of since entries =
     (case position (\<lambda>e. id_of e = since) entries of None \<Rightarrow> entries | Some cursor \<Rightarrow> drop (cursor + 1) entries)"

definition trim_deliveries_after_cursor :: "string \<Rightarrow> delivery_record list \<Rightarrow> delivery_record list" where
  "trim_deliveries_after_cursor = trim_after_cursor delivery_id"

definition trim_dead_letters_after_cursor :: "string \<Rightarrow> dead_record list \<Rightarrow> dead_record list" where
  "trim_dead_letters_after_cursor = trim_after_cursor dr_delivery_id"

definition apply_limit :: "nat \<Rightarrow> 'a list \<Rightarrow> 'a list \<times> bool" where
  "apply_limit limit entries =
     (if length entries \<le> limit then (entries, False) else (take limit entries, True))"

definition encode_dead_letter_cursor :: "observe_codec \<Rightarrow> dead_letter_page_cursor \<Rightarrow> observe_error + string" where
  "encode_dead_letter_cursor C cursor =
     (case envelope_to_vec C \<lparr>ce_version = 1, ce_section = ''dead_letters'',
             ce_dead_at_ms = pc_dead_at_ms cursor, ce_delivery_id = pc_delivery_id cursor\<rparr> of
        None \<Rightarrow> Inl SerializeFailed
      | Some bytes \<Rightarrow> Inr (url_safe_encode C bytes))"

definition decode_dead_letter_cursor :: "observe_codec \<Rightarrow> string \<Rightarrow> observe_error + dead_letter_page_cursor" where
  "decode_dead_letter_cursor C encoded =
     (case url_safe_decode C encoded of
        None \<Rightarrow> Inl CursorNotBase64
      | Some decoded \<Rightarrow>
          (case envelope_from_slice C decoded of
             None \<Rightarrow> Inl CursorNotJson
           | Some envelope \<Rightarrow>
               if ce_version envelope \<noteq> 1 then Inl (CursorVersion (ce_version envelope))
               else if ce_section envelope \<noteq> ''dead_letters'' then Inl CursorSection
               else (case validate_runtime_key (ce_delivery_id envelope) of
                       Inl e \<Rightarrow> Inl (CursorDeliveryId e)
                     | Inr _ \<Rightarrow> Inr \<lparr>pc_dead_at_ms = ce_dead_at_ms envelope,
                                    pc_delivery_id = ce_delivery_id envelope\<rparr>)))"

section \<open>A snapshot\<close>

definition scan_for_snapshot ::
    "delivery_observe_options \<Rightarrow> store_db \<Rightarrow> store_error + observation" where
  "scan_for_snapshot opt db =
     (if oo_dead_letter_window opt \<noteq> None \<or> oo_dead_letter_page opt \<noteq> None
      then rbind (scan_records_for_dead_letter_window
             (map_option (\<lambda>c. (pc_dead_at_ms c, pc_delivery_id c))
               (Option.bind (oo_dead_letter_page opt) (\<lambda>after. after)))
             (oo_dead_letter_window opt)
             (if oo_since opt \<noteq> None \<and> oo_dead_letter_page opt = None then usize_max
              else min (oo_limit opt + 1) usize_max)
             (\<lambda>ob r. Inr (note_delivery (oo_now_ms opt) ob r)) (t_empty, [], []) db)
           (\<lambda>((queues, ls, _), ds). Inr (queues, ls, ds))
      else scan_records (note_record (oo_now_ms opt)) (t_empty, [], []) db)"

definition page_of ::
    "observe_codec \<Rightarrow> dead_record list \<Rightarrow> bool \<Rightarrow> observe_error + delivery_observe_page" where
  "page_of C ds truncated =
     rbind (if truncated
            then transpose_option (\<lambda>d. encode_dead_letter_cursor C
                     \<lparr>pc_dead_at_ms = dead_at_ms d, pc_delivery_id = dr_delivery_id d\<rparr>)
                   (if ds = [] then None else Some (last ds))
            else Inr None)
       (\<lambda>next_page. Inr \<lparr>op_section = ''dead_letters'', op_next = next_page\<rparr>)"

definition observe_snapshot ::
    "observe_codec \<Rightarrow> string \<Rightarrow> string \<Rightarrow> delivery_observe_options \<Rightarrow> store_db \<Rightarrow>
     observe_error + delivery_observe_snapshot" where
  "observe_snapshot C durable_root database opt db =
     (if oo_since opt = Some [] then Inl EmptySince
      else if oo_dead_letter_page opt \<noteq> None \<and> oo_since opt \<noteq> None then Inl PageWithSince
      else if oo_dead_letter_page opt \<noteq> None \<and> oo_dead_letter_window opt \<noteq> None then Inl WindowWithPage
      else case scan_for_snapshot opt db of
        Inl e \<Rightarrow> Inl (StoreFailed e)
      | Inr (queues, ls, ds) \<Rightarrow>
          let ls1 = sort_key (\<lambda>r. (queue r, dept r, not_before_ms r, delivery_id r)) ls;
              ds1 = sort_key (\<lambda>d. (dead_at_ms d, dr_delivery_id d)) ds;
              ls2 = (case oo_since opt of None \<Rightarrow> ls1 | Some since \<Rightarrow> trim_deliveries_after_cursor since ls1);
              ds2 = (case oo_since opt of None \<Rightarrow> ds1 | Some since \<Rightarrow> trim_dead_letters_after_cursor since ds1);
              (ls3, more_ls) = apply_limit (oo_limit opt) ls2;
              (ds3, more_ds) = apply_limit (oo_limit opt) ds2
          in rbind (transpose_option (\<lambda>_. page_of C ds3 more_ds) (oo_dead_letter_page opt)) (\<lambda>page.
             rbind (collect_results (delivery_observe_entry_of C (oo_now_ms opt)) ls3) (\<lambda>deliveries.
             rbind (collect_results (dead_letter_observe_entry_of C) ds3) (\<lambda>dead_letters.
               Inr \<lparr>sn_schema_version = 1, sn_generated_at_ms = oo_now_ms opt, sn_durable_root = durable_root,
                    sn_database = database, sn_max_deliveries = oo_limit opt, sn_max_dead_letters = oo_limit opt,
                    sn_truncated_deliveries = more_ls, sn_truncated_dead_letters = more_ds,
                    sn_dead_letters_complete = map_option (\<lambda>_. \<not> more_ds) (oo_dead_letter_window opt),
                    sn_queues = map (\<lambda>(q, acc).
                        finish_queue (oo_now_ms opt) (oo_current_subscriber_queues opt) q acc) (t_iter queues),
                    sn_deliveries = deliveries, sn_dead_letters = dead_letters, sn_page = page\<rparr>))))"

definition observe_lineage ::
    "externs \<Rightarrow> observe_codec \<Rightarrow> string \<Rightarrow> string \<Rightarrow> source_ref \<Rightarrow> u64 \<Rightarrow> store_db \<Rightarrow>
     observe_error + lineage_observe_result" where
  "observe_lineage X C q d src now_ms db =
     (case lookup_lineage X q d src db of
        Inl e \<Rightarrow> Inl (StoreFailed e)
      | Inr lineage \<Rightarrow>
          rbind (transpose_option (delivery_observe_entry_of C now_ms) (live_delivery lineage)) (\<lambda>live.
          rbind (transpose_option (dead_letter_observe_entry_of C) (terminal_dead_letter lineage)) (\<lambda>terminal.
            Inr \<lparr>lo_live_delivery = live, lo_terminal_dead_letter = terminal\<rparr>)))"

section \<open>Requests\<close>

record lineage_observe_request =
  lr_queue :: string
  lr_dept :: string
  lr_source_ref :: source_ref

record observe_socket_request =
  sr_limit :: nat
  sr_since :: "string option"
  sr_page :: "dead_letter_page_request option"
  sr_dead_letter_window :: "dead_letter_window_request option"
  sr_lineage :: "lineage_observe_request option"
  sr_now_ms :: u64

datatype observe_socket_response =
    RespOk delivery_observe_snapshot
  | RespLineageOk lineage_observe_result
  | RespErr observe_error

record observe_snapshot_options =
  so_limit :: nat
  so_since :: "string option"
  so_page :: "dead_letter_page_request option"
  so_dead_letter_window :: "dead_letter_window_request option"

definition DEFAULT_LIMIT :: nat where
  "DEFAULT_LIMIT = 500"

definition MAX_LIMIT :: nat where
  "MAX_LIMIT = 10000"

definition validate_limit :: "nat \<Rightarrow> observe_error + nat" where
  "validate_limit limit = (if limit = 0 \<or> MAX_LIMIT < limit then Inl LimitOutOfRange else Inr limit)"

definition validate_since :: "string option \<Rightarrow> observe_error + unit" where
  "validate_since since = (if since = Some [] then Inl EmptySince else Inr ())"

definition validate_dead_letter_page ::
    "observe_codec \<Rightarrow> dead_letter_page_request option \<Rightarrow> string option \<Rightarrow>
     observe_error + dead_letter_page_cursor option option" where
  "validate_dead_letter_page C page since =
     (case page of
        None \<Rightarrow> Inr None
      | Some p \<Rightarrow>
          if page_section p \<noteq> ''dead_letters'' then Inl WrongSection
          else if since \<noteq> None then Inl PageWithSince
          else rbind (transpose_option (decode_dead_letter_cursor C) (page_after p)) (\<lambda>after. Inr (Some after)))"

definition validate_dead_letter_window ::
    "dead_letter_window_request option \<Rightarrow> dead_letter_page_request option \<Rightarrow>
     observe_error + (u64 \<times> u64) option" where
  "validate_dead_letter_window window page =
     (case window of
        None \<Rightarrow> Inr None
      | Some w \<Rightarrow>
          if page \<noteq> None then Inl WindowWithPage
          else if win_end_ms w < win_start_ms w then Inl WindowReversed
          else Inr (Some (win_start_ms w, win_end_ms w)))"

text \<open>The supervisor's side of the socket: \<open>None\<close> is a line that does not decode to a request. A failure is
  answered, never raised.\<close>

definition serve_request ::
    "externs \<Rightarrow> observe_codec \<Rightarrow> string \<Rightarrow> string \<Rightarrow> string list \<Rightarrow> observe_socket_request option \<Rightarrow> store_db \<Rightarrow>
     observe_socket_response" where
  "serve_request X C durable_root database current line db =
     (case line of
        None \<Rightarrow> RespErr RequestUndecodable
      | Some req \<Rightarrow>
          (case sr_lineage req of
             Some l \<Rightarrow>
               (case observe_lineage X C (lr_queue l) (lr_dept l) (lr_source_ref l) (sr_now_ms req) db of
                  Inr lineage \<Rightarrow> RespLineageOk lineage
                | Inl e \<Rightarrow> RespErr e)
           | None \<Rightarrow>
               (case rbind (validate_dead_letter_page C (sr_page req) (sr_since req)) (\<lambda>page.
                     rbind (validate_dead_letter_window (sr_dead_letter_window req) (sr_page req)) (\<lambda>window.
                       observe_snapshot C durable_root database
                         \<lparr>oo_now_ms = sr_now_ms req, oo_limit = max 1 (min (sr_limit req) MAX_LIMIT),
                          oo_since = sr_since req, oo_dead_letter_page = page, oo_dead_letter_window = window,
                          oo_current_subscriber_queues = Some current\<rparr> db)) of
                  Inr snapshot \<Rightarrow> RespOk snapshot
                | Inl e \<Rightarrow> RespErr e)))"

text \<open>The client's side. \<open>live\<close> sends a request to the socket of the owner: \<open>Inr None\<close> when there is no
  owner. \<open>offline\<close> opens the database file: it fails with \<open>Inl True\<close> when another process has it open.\<close>

definition request_live_snapshot ::
    "(observe_socket_request \<Rightarrow> observe_error + observe_socket_response option) \<Rightarrow> u64 \<Rightarrow>
     observe_snapshot_options \<Rightarrow> observe_error + delivery_observe_snapshot option" where
  "request_live_snapshot live now_ms opt =
     rbind (live \<lparr>sr_limit = so_limit opt, sr_since = so_since opt, sr_page = so_page opt,
                  sr_dead_letter_window = so_dead_letter_window opt, sr_lineage = None, sr_now_ms = now_ms\<rparr>)
       (\<lambda>response. case response of
          None \<Rightarrow> Inr None
        | Some (RespOk snapshot) \<Rightarrow> Inr (Some snapshot)
        | Some (RespLineageOk _) \<Rightarrow> Inl UnexpectedLineage
        | Some (RespErr e) \<Rightarrow> Inl (LiveReplied e))"

definition request_live_lineage ::
    "(observe_socket_request \<Rightarrow> observe_error + observe_socket_response option) \<Rightarrow> u64 \<Rightarrow>
     lineage_observe_request \<Rightarrow> observe_error + lineage_observe_result option" where
  "request_live_lineage live now_ms lineage =
     rbind (live \<lparr>sr_limit = DEFAULT_LIMIT, sr_since = None, sr_page = None, sr_dead_letter_window = None,
                  sr_lineage = Some lineage, sr_now_ms = now_ms\<rparr>)
       (\<lambda>response. case response of
          None \<Rightarrow> Inr None
        | Some (RespLineageOk result) \<Rightarrow> Inr (Some result)
        | Some (RespOk _) \<Rightarrow> Inl UnexpectedSnapshot
        | Some (RespErr e) \<Rightarrow> Inl (LiveReplied e))"

definition open_offline_store :: "bool + store_db \<Rightarrow> observe_error + store_db" where
  "open_offline_store offline =
     (case offline of
        Inr db \<Rightarrow> Inr db
      | Inl already_open \<Rightarrow> Inl (if already_open then LiveOwnerUnavailable else OfflineOpenFailed))"

definition snapshot_for_durable_root ::
    "observe_codec \<Rightarrow> (observe_socket_request \<Rightarrow> observe_error + observe_socket_response option) \<Rightarrow>
     bool + store_db \<Rightarrow> u64 \<Rightarrow> string \<Rightarrow> string \<Rightarrow> observe_snapshot_options \<Rightarrow>
     observe_error + delivery_observe_snapshot" where
  "snapshot_for_durable_root C live offline now_ms durable_root database opt =
     rbind (validate_limit (so_limit opt)) (\<lambda>limit.
     rbind (validate_since (so_since opt)) (\<lambda>_.
     rbind (validate_dead_letter_page C (so_page opt) (so_since opt)) (\<lambda>page.
     rbind (validate_dead_letter_window (so_dead_letter_window opt) (so_page opt)) (\<lambda>window.
     rbind (request_live_snapshot live now_ms (opt\<lparr>so_limit := limit\<rparr>)) (\<lambda>answer.
       case answer of
         Some snapshot \<Rightarrow> Inr snapshot
       | None \<Rightarrow>
           rbind (open_offline_store offline) (\<lambda>db.
             observe_snapshot C durable_root database
               \<lparr>oo_now_ms = now_ms, oo_limit = limit, oo_since = so_since opt, oo_dead_letter_page = page,
                oo_dead_letter_window = window, oo_current_subscriber_queues = None\<rparr> db))))))"

definition lineage_for_durable_root ::
    "externs \<Rightarrow> observe_codec \<Rightarrow> (observe_socket_request \<Rightarrow> observe_error + observe_socket_response option) \<Rightarrow>
     bool + store_db \<Rightarrow> u64 \<Rightarrow> lineage_observe_request \<Rightarrow> observe_error + lineage_observe_result" where
  "lineage_for_durable_root X C live offline now_ms lineage =
     rbind (request_live_lineage live now_ms lineage) (\<lambda>answer.
       case answer of
         Some result \<Rightarrow> Inr result
       | None \<Rightarrow>
           rbind (open_offline_store offline) (\<lambda>db.
             observe_lineage X C (lr_queue lineage) (lr_dept lineage) (lr_source_ref lineage) now_ms db))"

section \<open>The command line\<close>

record observe_options =
  ob_durable_root :: string
  ob_json :: bool
  ob_limit :: nat

datatype observe_args_error =
    DuplicateRoot
  | MissingRoot
  | MissingValue string
  | InvalidLimit string
  | LimitRange
  | UnknownArgument string

fun next_value :: "string list \<Rightarrow> string \<Rightarrow> observe_args_error + string" where
  "next_value (v # _) flag = (if v = [] then Inl (MissingValue flag) else Inr v)"
| "next_value [] flag = Inl (MissingValue flag)"

text \<open>The state of the loop is what has been read so far; the list is the rest of the arguments.\<close>

fun observe_args_loop ::
    "string option \<Rightarrow> bool \<Rightarrow> nat \<Rightarrow> string list \<Rightarrow> observe_args_error + string option \<times> bool \<times> nat" where
  "observe_args_loop root js limit [] = Inr (root, js, limit)"
| "observe_args_loop root js limit (arg # args) =
     (if arg = ''--durable-root''
      then if root \<noteq> None then Inl DuplicateRoot
           else rbind (next_value args ''--durable-root'') (\<lambda>v. observe_args_loop (Some v) js limit (tl args))
      else if arg = ''--json'' then observe_args_loop root True limit args
      else if arg = ''--limit''
      then rbind (next_value args ''--limit'') (\<lambda>raw.
             case parse_nat (usize_max + 1) raw of
               None \<Rightarrow> Inl (InvalidLimit raw)
             | Some n \<Rightarrow> if n = 0 \<or> MAX_LIMIT < n then Inl LimitRange else observe_args_loop root js n (tl args))
      else Inl (UnknownArgument arg))"

definition observe_parse_args :: "string list \<Rightarrow> observe_args_error + observe_options" where
  "observe_parse_args args =
     rbind (observe_args_loop None False DEFAULT_LIMIT args) (\<lambda>(root, js, limit).
       case root of
         None \<Rightarrow> Inl MissingRoot
       | Some r \<Rightarrow> Inr \<lparr>ob_durable_root = r, ob_json = js, ob_limit = limit\<rparr>)"

lemma observe_args_limit:
  "observe_args_loop root js limit args = Inr (root', js', limit') \<Longrightarrow> 0 < limit \<and> limit \<le> MAX_LIMIT \<Longrightarrow>
   0 < limit' \<and> limit' \<le> MAX_LIMIT"
  by (induction root js limit args rule: observe_args_loop.induct) (auto split: if_splits option.splits)

text \<open>The options a command line gives are ones that \<open>snapshot_for_durable_root\<close> accepts.\<close>

lemma observe_parse_args_valid:
  "observe_parse_args args = Inr opt \<Longrightarrow> validate_limit (ob_limit opt) = Inr (ob_limit opt)"
  using observe_args_limit [of None False DEFAULT_LIMIT args]
  by (auto simp: observe_parse_args_def validate_limit_def DEFAULT_LIMIT_def MAX_LIMIT_def split: option.splits)

end
