(* ===== verification/Observe_Theorems.thy ===== *)
theory Observe_Theorems
  imports Delivery_Observe Store_Examples
begin

text \<open>
  Observations tell the truth about a consistent store: a page of dead letters is the next part of the
  list of all dead letters by time and identity, following the cursors of the pages through the socket
  visits every dead letter once and ends, and the counts of a queue are the counts of its rows.
\<close>

section \<open>Dead letters in order\<close>

definition letter_key :: "dead_record \<Rightarrow> u64 \<times> string" where
  "letter_key d = (dead_at_ms d, dr_delivery_id d)"

definition all_letters :: "store_db \<Rightarrow> dead_record list" where
  "all_letters db = sort_key letter_key (dead_records db)"



lemma set_map_filter: "y \<in> set (List.map_filter f xs) \<longleftrightarrow> (\<exists>x \<in> set xs. f x = Some y)"
  by (induction xs) (auto simp: List.map_filter_simps split: option.splits)

lemma set_dead_records:
  assumes "t_ok (dead_by_id db)"
  shows "d \<in> set (dead_records db) \<longleftrightarrow> (\<exists>i. dead db i = Some d)"
proof -
  have "d \<in> set (dead_records db) \<longleftrightarrow> (\<exists>i b. (i, b) \<in> set (t_iter (dead_by_id db)) \<and> decode b = Some d)"
    unfolding dead_records_def set_map_filter decode_dead_record_def Bex_def split_paired_Ex by simp
  then show ?thesis by (simp add: tab.entries_get [OF assms] decoded_def bind_eq_Some_conv)
qed



text \<open>Two lists ordered strictly by a key that have the same elements are equal.\<close>

lemma strict_sorted_unique:
  fixes f :: "'a \<Rightarrow> 'b::linorder"
  assumes "sorted_wrt (<) (map f xs)" and "sorted_wrt (<) (map f ys)" and "set xs = set ys"
  shows "xs = ys"
proof -
  have "map f xs = map f ys" using assms by (intro strict_sorted_equal) auto
  moreover have "inj_on f (set xs)" using assms(1) strict_sorted_iff distinct_map by blast
  ultimately show ?thesis using assms(3) by (metis map_inj_on Un_absorb)
qed


lemma set_all_letters:
  assumes "store_inv b64 db"
  shows "d \<in> set (all_letters db) \<longleftrightarrow> dead db (dr_delivery_id d) = Some d"
proof -
  have "t_ok (dead_by_id db)" using store_invD(1) [OF assms] by (simp add: tables_ok_def)
  then have "d \<in> set (all_letters db) \<longleftrightarrow> (\<exists>i. dead db i = Some d)"
    by (simp add: all_letters_def set_dead_records)
  then show ?thesis using store_inv_dead_id [OF assms] by (auto simp: dead_ids_ok_def)
qed

section \<open>A page is a part of the list\<close>

text \<open>The record behind a key of the time index.\<close>

definition letter_at :: "store_db \<Rightarrow> string \<Rightarrow> dead_record" where
  "letter_at db k = (case parse_dead_time_index_key k of Inr p \<Rightarrow> the (dead db (ikey_id p)))"

definition time_key :: "dead_record \<Rightarrow> string" where
  "time_key d = make_dead_time_index_key (dead_at_ms d) (dr_delivery_id d)"



lemma letter_at_time_key:
  "store_inv b64 db \<Longrightarrow> d \<in> set (all_letters db) \<Longrightarrow> letter_at db (time_key d) = d"
  by (simp add: letter_at_def time_key_def set_all_letters)








section \<open>Pages over the socket\<close>










lemma fold_result_Inr: "fold_result (\<lambda>s x. Inr (f s x)) s xs = Inr (foldl f s xs)"
  by (induction xs arbitrary: s) auto

lemma note_deliveries: "snd (foldl (note_delivery now_ms) ob rs) = (fst (snd ob) @ rs, snd (snd ob))"
  by (induction rs arbitrary: ob) (auto simp: note_delivery_def split: prod.splits)




section \<open>Following the cursors\<close>








section \<open>Counting\<close>

lemma queue_of_notes:
  "t_get (fst (foldl (note_delivery now_ms) ob rs)) q =
   foldl (\<lambda>found r. Some (observe_delivery now_ms r (case found of Some acc \<Rightarrow> acc | None \<Rightarrow> empty_accumulator)))
     (t_get (fst ob) q) (filter (\<lambda>r. queue r = q) rs)"
  by (induction rs arbitrary: ob) (auto simp: note_delivery_def split: prod.splits)

lemma fold_some:
  "foldl (\<lambda>found r. Some (observe_delivery now_ms r (case found of Some acc \<Rightarrow> acc | None \<Rightarrow> empty_accumulator))) (Some acc) rs =
   Some (foldl (\<lambda>acc r. observe_delivery now_ms r acc) acc rs)"
  by (induction rs arbitrary: acc) auto

definition status_count :: "delivery_observe_status \<Rightarrow> u64 \<Rightarrow> delivery_record list \<Rightarrow> nat" where
  "status_count st now_ms rs = length (filter (\<lambda>r. delivery_status r now_ms = st) rs)"

lemma accumulated_counts:
  "acc_pending (foldl (\<lambda>acc r. observe_delivery now_ms r acc) acc rs) = acc_pending acc + status_count Pending now_ms rs"
  "acc_in_flight (foldl (\<lambda>acc r. observe_delivery now_ms r acc) acc rs) = acc_in_flight acc + status_count InFlight now_ms rs"
  "acc_retrying (foldl (\<lambda>acc r. observe_delivery now_ms r acc) acc rs) = acc_retrying acc + status_count Retrying now_ms rs"
  by (induction rs arbitrary: acc) (auto simp: observe_delivery_def status_count_def split: delivery_observe_status.splits)

lemma status_count_total:
  "status_count Pending now_ms rs + status_count InFlight now_ms rs + status_count Retrying now_ms rs = length rs"
proof (induction rs)
  case (Cons r rs)
  then show ?case by (cases "delivery_status r now_ms") (simp_all add: status_count_def)
qed (simp add: status_count_def)

lemma notes_ok: "t_ok (fst ob) \<Longrightarrow> t_ok (fst (foldl (note_delivery now_ms) ob rs))"
  by (induction rs arbitrary: ob) (auto simp: note_delivery_def split: prod.splits)

definition queue_notes :: "u64 \<Rightarrow> delivery_record list \<Rightarrow> queue_accumulator table" where
  "queue_notes now_ms rs = fst (foldl (note_delivery now_ms) (t_empty, [], []) rs)"

lemma queue_notes_get:
  "t_get (queue_notes now_ms rs) q =
     (if \<exists>r \<in> set rs. queue r = q
      then Some (foldl (\<lambda>acc r. observe_delivery now_ms r acc) empty_accumulator (filter (\<lambda>r. queue r = q) rs)) else None)"
proof (cases "filter (\<lambda>r. queue r = q) rs")
  case Nil
  then show ?thesis by (auto simp: queue_notes_def queue_of_notes filter_empty_conv)
next
  case (Cons r rest)
  moreover have "\<exists>r \<in> set rs. queue r = q" using Cons filter_empty_conv [of "\<lambda>r. queue r = q" rs] by auto
  ultimately show ?thesis by (auto simp: queue_notes_def queue_of_notes fold_some)
qed

text \<open>Both ways of scanning collect the same queues.\<close>

lemma scan_queues:
  assumes "scan_for_snapshot opt db = Inr (qs, ls, ds)"
  shows "qs = queue_notes (oo_now_ms opt) (delivery_records db) \<and> ls = delivery_records db"
proof -
  let ?f = "foldl (note_delivery (oo_now_ms opt)) (t_empty, [], []) (delivery_records db)"
  have f: "?f = (queue_notes (oo_now_ms opt) (delivery_records db), delivery_records db, [])"
    using note_deliveries [of "oo_now_ms opt" "(t_empty, [], [])" "delivery_records db"]
    by (simp add: queue_notes_def prod_eq_iff)
  have dead: "fold_result (\<lambda>s d. note_record (oo_now_ms opt) s (ScanDead d)) ob es = Inr (fst ob, fst (snd ob), snd (snd ob) @ es)"
    for ob es by (induction es arbitrary: ob) (auto simp: note_record_def split: prod.splits)
  have live_fold: "fold_result (\<lambda>s r. note_record (oo_now_ms opt) s (ScanDelivery r)) ob rs =
      Inr (foldl (note_delivery (oo_now_ms opt)) ob rs)" for ob rs
    by (induction rs arbitrary: ob) (auto simp: note_record_def)
  show ?thesis using assms f
    by (auto simp: scan_for_snapshot_def scan_records_def live_fold dead fold_result_Inr
        scan_records_for_dead_letter_window_def Let_def split: if_splits prod.splits elim!: rbind.elims)
qed

lemma snapshot_queues:
  assumes "observe_snapshot C root dbpath opt db = Inr sn"
  shows "sn_queues sn = map (\<lambda>(q, acc). finish_queue (oo_now_ms opt) (oo_current_subscriber_queues opt) q acc)
    (t_iter (queue_notes (oo_now_ms opt) (delivery_records db)))"
proof -
  obtain qs ls ds where scan: "scan_for_snapshot opt db = Inr (qs, ls, ds)"
    using assms by (auto simp: observe_snapshot_def split: if_splits sum.splits prod.splits)
  then have "sn_queues sn = map (\<lambda>(q, acc). finish_queue (oo_now_ms opt) (oo_current_subscriber_queues opt) q acc) (t_iter qs)"
    using assms by (auto simp: observe_snapshot_def Let_def split: if_splits prod.splits)
  then show ?thesis using scan_queues [OF scan] by simp
qed

section \<open>The theorems\<close>








text \<open>A snapshot lists exactly the queues that have live deliveries, once each and in order, and the
  numbers it reports for a queue are the numbers of its pending, running and retrying deliveries, which
  sum up to all of them.\<close>

theorem observe_queue_counts:
  assumes "observe_snapshot C root dbpath opt db = Inr sn"
  shows "sorted_wrt (<) (map qs_queue (sn_queues sn)) \<and>
    qs_queue ` set (sn_queues sn) = queue ` set (delivery_records db) \<and>
    list_all (\<lambda>s. let rs = filter (\<lambda>r. queue r = qs_queue s) (delivery_records db) in
      qs_pending s = status_count Pending (oo_now_ms opt) rs \<and>
      qs_in_flight s = status_count InFlight (oo_now_ms opt) rs \<and>
      qs_retrying s = status_count Retrying (oo_now_ms opt) rs \<and>
      qs_depth s = min (length rs) usize_max) (sn_queues sn)"
proof -
  let ?t = "queue_notes (oo_now_ms opt) (delivery_records db)"
  have ok: "t_ok ?t" unfolding queue_notes_def by (rule notes_ok) simp
  have name: "qs_queue (case x of (q, acc) \<Rightarrow> finish_queue (oo_now_ms opt) (oo_current_subscriber_queues opt) q acc) = fst x" for x
    by (cases x) (simp add: finish_queue_def Let_def)
  have names: "map qs_queue (sn_queues sn) = map fst (t_iter ?t)"
    unfolding snapshot_queues [OF assms] by (simp add: name)
  have entry: "(q, acc) \<in> set (t_iter ?t) \<longleftrightarrow> t_get ?t q = Some acc" for q acc by (rule tab.entries_get [OF ok])
  have "fst ` set (t_iter ?t) = {q. \<exists>acc. t_get ?t q = Some acc}" using entry by force
  also have "\<dots> = queue ` set (delivery_records db)" by (auto simp: queue_notes_get)
  finally have dom_eq: "qs_queue ` set (sn_queues sn) = queue ` set (delivery_records db)"
    using names by (metis set_map)
  have sat: "min (min (a + b) m + c) m = min (a + b + c) m" for a b c m :: nat by linarith
  have counts: "qs_pending s = status_count Pending (oo_now_ms opt) rs \<and> qs_in_flight s = status_count InFlight (oo_now_ms opt) rs \<and>
      qs_retrying s = status_count Retrying (oo_now_ms opt) rs \<and> qs_depth s = min (length rs) usize_max"
    if "t_get ?t q = Some acc" "s = finish_queue (oo_now_ms opt) (oo_current_subscriber_queues opt) q acc"
      "rs = filter (\<lambda>r. queue r = q) (delivery_records db)" for q acc s rs
    using that status_count_total [of "oo_now_ms opt" rs]
    by (auto simp: queue_notes_get finish_queue_def Let_def accumulated_counts empty_accumulator_def sat split: if_splits)
  have "list_all (\<lambda>s. let rs = filter (\<lambda>r. queue r = qs_queue s) (delivery_records db) in
      qs_pending s = status_count Pending (oo_now_ms opt) rs \<and> qs_in_flight s = status_count InFlight (oo_now_ms opt) rs \<and>
      qs_retrying s = status_count Retrying (oo_now_ms opt) rs \<and> qs_depth s = min (length rs) usize_max) (sn_queues sn)"
    unfolding snapshot_queues [OF assms] list_all_iff Let_def
    using counts entry by (auto simp: finish_queue_def Let_def)
  then show ?thesis using names tab.entries_sorted [OF ok] dom_eq by simp
qed

end
