(* ===== verification/Package_Roots.thy ===== *)
theory Package_Roots
  imports Name_Resolver Rate_Pool
begin

text \<open>
  Which directories make up the program and under which names (\<open>PackageRoots\<close> of
  \<open>fkst-framework/src/path_resolver.rs\<close>): the package roots of the command line or of the environment,
  their namespaces, and the roots the startup graph is read from. A path is canonical when
  \<open>canonicalize\<close> returned it, so that paths are compared as texts; \<open>canonicalize\<close> is an argument and
  gives \<open>None\<close> for what is not a readable directory. The unit catalogs of the manifests are not part of
  this model.
\<close>

section \<open>Data\<close>

datatype graph_root_kind = PackageRoot | HostRoot | PackageAndHost

record graph_root =
  gr_root :: string
  gr_kind :: graph_root_kind
  gr_namespace :: string

record package_roots =
  pr_package_roots :: "string list"
  pr_host_root :: string
  pr_package_namespaces :: "string list"
  pr_run_host_owner :: bool

record package_root_input =
  pri_roots :: "string list"
  pri_explicit :: bool

datatype roots_error =
    RemovedSurface string
  | NotADirectory string string
  | NoRoots string
  | RootsAndRoot
  | EmptyVariable string
  | RootRequired
  | RootsVariableForRun
  | DuplicateRoot string
  | NoBasename string
  | DuplicateBasename string
  | BadBasename name_error
  | HostNameConflict
  | ExternalNeedsFlag string

definition PACKAGE_ROOT_ENV :: string where
  "PACKAGE_ROOT_ENV = ''FKST_PACKAGE_ROOT''"

definition PACKAGE_ROOTS_ENV :: string where
  "PACKAGE_ROOTS_ENV = ''FKST_PACKAGE_ROOTS''"

definition HOST_NAMESPACE :: string where
  "HOST_NAMESPACE = ''host''"

definition REJECTED_PACKAGE_ROOT_ENVS :: "string list" where
  "REJECTED_PACKAGE_ROOT_ENVS = [''FKST_STDLIB_ROOT'', ''FKST_RUNTIME_PACKAGE_ROOT'', ''FKST_GRAPH_ROOTS'']"

section \<open>Reading the roots\<close>

definition reject_removed_package_root_envs :: "(string \<Rightarrow> string option) \<Rightarrow> roots_error + unit" where
  "reject_removed_package_root_envs env =
     fold_result (\<lambda>_ key. if env key \<noteq> None then Inl (RemovedSurface key) else Inr ()) () REJECTED_PACKAGE_ROOT_ENVS"

definition canonical_dir :: "(string \<Rightarrow> string option) \<Rightarrow> string \<Rightarrow> string \<Rightarrow> roots_error + string" where
  "canonical_dir canonicalize label path =
     (case canonicalize path of None \<Rightarrow> Inl (NotADirectory label path) | Some p \<Rightarrow> Inr p)"

definition reject_duplicate_roots :: "string list \<Rightarrow> roots_error + unit" where
  "reject_duplicate_roots roots =
     rbind (fold_result (\<lambda>seen root. if root \<in> set seen then Inl (DuplicateRoot root) else Inr (root # seen)) [] roots)
       (\<lambda>_. Inr ())"

definition canonical_dirs :: "(string \<Rightarrow> string option) \<Rightarrow> string \<Rightarrow> string list \<Rightarrow> roots_error + string list" where
  "canonical_dirs canonicalize label roots =
     (if roots = [] then Inl (NoRoots label)
      else rbind (fold_result (\<lambda>done root. rbind (canonical_dir canonicalize label root) (\<lambda>p. Inr (done @ [p]))) [] roots)
        (\<lambda>ps. rbind (reject_duplicate_roots ps) (\<lambda>_. Inr ps)))"

definition roots_from_env :: "(string \<Rightarrow> string option) \<Rightarrow> (string \<Rightarrow> string option) \<Rightarrow> roots_error + string list" where
  "roots_from_env canonicalize env =
     (case (env PACKAGE_ROOTS_ENV, env PACKAGE_ROOT_ENV) of
        (Some _, Some _) \<Rightarrow> Inl RootsAndRoot
      | (Some raw, None) \<Rightarrow>
          if raw = [] then Inl (EmptyVariable PACKAGE_ROOTS_ENV)
          else canonical_dirs canonicalize PACKAGE_ROOTS_ENV (split_on (CHR '':'') raw)
      | (None, Some root) \<Rightarrow>
          if root = [] then Inl (EmptyVariable PACKAGE_ROOT_ENV)
          else rbind (canonical_dir canonicalize PACKAGE_ROOT_ENV root) (\<lambda>p. Inr [p])
      | (None, None) \<Rightarrow> Inl RootRequired)"

definition is_under :: "string \<Rightarrow> string \<Rightarrow> bool" where
  "is_under path root \<longleftrightarrow> path \<noteq> root \<and> starts_with path (if root = ''/'' then root else root @ ''/'')"

definition reject_env_external_package_roots :: "string \<Rightarrow> string list \<Rightarrow> roots_error + unit" where
  "reject_env_external_package_roots host roots =
     fold_result (\<lambda>_ root. if root \<noteq> host \<and> \<not> is_under root host then Inl (ExternalNeedsFlag root) else Inr ()) () roots"

definition package_namespaces :: "string \<Rightarrow> string list \<Rightarrow> bool \<Rightarrow> roots_error + string list" where
  "package_namespaces host roots run_host_owner =
     fold_result (\<lambda>done root.
       rbind (if run_host_owner \<and> root = host then Inr HOST_NAMESPACE
              else case file_name root of None \<Rightarrow> Inl (NoBasename root) | Some n \<Rightarrow> Inr n)
         (\<lambda>namespace. if namespace \<in> set done then Inl (DuplicateBasename namespace) else Inr (done @ [namespace]))) [] roots"

text \<open>The part of \<open>from_canonical\<close> before the manifests are read.\<close>

definition from_canonical :: "string \<Rightarrow> package_root_input \<Rightarrow> bool \<Rightarrow> roots_error + package_roots" where
  "from_canonical host input run_host_owner =
     rbind (if \<not> pri_explicit input then reject_env_external_package_roots host (pri_roots input) else Inr ()) (\<lambda>_.
     rbind (package_namespaces host (pri_roots input) run_host_owner) (\<lambda>names.
     let host_is_folded = host \<in> set (pri_roots input);
         namespaced = 1 < length (pri_roots input) + (if host_is_folded then 0 else 1) in
     rbind (if namespaced
            then rbind (fold_result (\<lambda>_ n. case validate_name_segment ''package root basename'' n of
                          Inl e \<Rightarrow> Inl (BadBasename e) | Inr _ \<Rightarrow> Inr ()) () names) (\<lambda>_.
                   if \<not> host_is_folded \<and> HOST_NAMESPACE \<in> set names then Inl HostNameConflict else Inr ())
            else Inr ()) (\<lambda>_.
       Inr \<lparr>pr_package_roots = pri_roots input, pr_host_root = host, pr_package_namespaces = names,
            pr_run_host_owner = run_host_owner\<rparr>)))"

definition resolve_roots ::
    "(string \<Rightarrow> string option) \<Rightarrow> (string \<Rightarrow> string option) \<Rightarrow> string \<Rightarrow> string list \<Rightarrow> roots_error + package_roots" where
  "resolve_roots canonicalize env host explicit =
     rbind (reject_removed_package_root_envs env) (\<lambda>_.
     rbind (canonical_dir canonicalize ''--project-root'' host) (\<lambda>host.
     rbind (if explicit = []
            then rbind (roots_from_env canonicalize env) (\<lambda>roots. Inr \<lparr>pri_roots = roots, pri_explicit = False\<rparr>)
            else rbind (canonical_dirs canonicalize ''--package-root'' explicit) (\<lambda>roots.
                   Inr \<lparr>pri_roots = roots, pri_explicit = True\<rparr>)) (\<lambda>input.
       from_canonical host input False)))"

definition resolve_run ::
    "(string \<Rightarrow> string option) \<Rightarrow> (string \<Rightarrow> string option) \<Rightarrow> string \<Rightarrow> string list \<Rightarrow> roots_error + package_roots" where
  "resolve_run canonicalize env host explicit =
     rbind (reject_removed_package_root_envs env) (\<lambda>_.
     if env PACKAGE_ROOTS_ENV \<noteq> None then Inl RootsVariableForRun
     else
     rbind (canonical_dir canonicalize ''--project-root'' host) (\<lambda>host.
     rbind (if explicit = []
            then (case env PACKAGE_ROOT_ENV of
                    Some root \<Rightarrow>
                      if root = [] then Inl (EmptyVariable PACKAGE_ROOT_ENV)
                      else rbind (canonical_dir canonicalize PACKAGE_ROOT_ENV root) (\<lambda>p.
                             Inr \<lparr>pri_roots = [p], pri_explicit = False\<rparr>)
                  | None \<Rightarrow> Inl RootRequired)
            else rbind (canonical_dirs canonicalize ''--package-root'' explicit) (\<lambda>roots.
                   Inr \<lparr>pri_roots = roots, pri_explicit = True\<rparr>)) (\<lambda>input.
       from_canonical host input (1 < length (pri_roots input) \<and> host \<in> set (pri_roots input)))))"

definition sole_package_namespace :: "package_roots \<Rightarrow> string option" where
  "sole_package_namespace r = (case pr_package_namespaces r of [only] \<Rightarrow> Some only | _ \<Rightarrow> None)"

section \<open>The roots of the graph\<close>

definition graph_roots :: "package_roots \<Rightarrow> graph_root list" where
  "graph_roots r =
     map (\<lambda>(root, namespace).
        \<lparr>gr_root = root,
         gr_kind = (if root = pr_host_root r then if pr_run_host_owner r then HostRoot else PackageAndHost else PackageRoot),
         gr_namespace = namespace\<rparr>) (zip (pr_package_roots r) (pr_package_namespaces r)) @
     (if pr_host_root r \<in> set (map fst (zip (pr_package_roots r) (pr_package_namespaces r))) then []
      else [\<lparr>gr_root = pr_host_root r, gr_kind = HostRoot, gr_namespace = HOST_NAMESPACE\<rparr>])"

definition is_single_folded_graph_root :: "package_roots \<Rightarrow> bool" where
  "is_single_folded_graph_root r = (case graph_roots r of [g] \<Rightarrow> gr_kind g = PackageAndHost | _ \<Rightarrow> False)"

definition roots_name_resolver :: "package_roots \<Rightarrow> name_resolver" where
  "roots_name_resolver r = new_resolver (map gr_namespace (graph_roots r))"

definition owner_root_for_namespace :: "package_roots \<Rightarrow> string \<Rightarrow> string option" where
  "owner_root_for_namespace r namespace =
     map_option (\<lambda>g. if gr_root g = pr_host_root r then pr_host_root r
                     else case find (\<lambda>p. p = gr_root g) (pr_package_roots r) of
                            Some p \<Rightarrow> p | None \<Rightarrow> pr_host_root r)
       (find (\<lambda>g. gr_namespace g = namespace) (graph_roots r))"

section \<open>Namespaces are distinct\<close>

lemma package_namespaces_distinct_from:
  "fold_result (\<lambda>done root.
       rbind (if run_host_owner \<and> root = host then Inr HOST_NAMESPACE
              else case file_name root of None \<Rightarrow> Inl (NoBasename root) | Some n \<Rightarrow> Inr n)
         (\<lambda>namespace. if namespace \<in> set done then Inl (DuplicateBasename namespace) else Inr (done @ [namespace])))
     acc roots = Inr names \<Longrightarrow> distinct acc \<Longrightarrow> distinct names \<and> length names = length acc + length roots"
  by (induction roots arbitrary: acc) (auto split: if_splits option.splits)

lemma package_namespaces_distinct:
  "package_namespaces host roots run_host_owner = Inr names \<Longrightarrow> distinct names \<and> length names = length roots"
  unfolding package_namespaces_def by (drule package_namespaces_distinct_from) auto

lemma names_checked:
  "fold_result (\<lambda>_ n. case validate_name_segment label n of Inl e \<Rightarrow> Inl (BadBasename e) | Inr _ \<Rightarrow> Inr ()) () names = Inr u \<longleftrightarrow>
   list_all name_segment names"
proof (induction names)
  case (Cons n names)
  then show ?case by (cases "validate_name_segment label n") (auto simp: validate_name_segment_def name_segment_def split: if_splits)
qed simp

text \<open>What the rest of the program relies on: the roots of the graph have different namespaces, which are valid
  segments of names as soon as there are two of them, and each namespace leads back to its root.\<close>

lemma from_canonical_names:
  assumes "from_canonical host input run_host_owner = Inr r"
  shows "distinct (map gr_namespace (graph_roots r))"
    and "1 < length (graph_roots r) \<Longrightarrow> list_all name_segment (map gr_namespace (graph_roots r))"
    and "length (pr_package_namespaces r) = length (pr_package_roots r)"
proof -
  let ?folded = "host \<in> set (pri_roots input)"
  obtain names where names: "package_namespaces host (pri_roots input) run_host_owner = Inr names"
    and r: "r = \<lparr>pr_package_roots = pri_roots input, pr_host_root = host, pr_package_namespaces = names,
      pr_run_host_owner = run_host_owner\<rparr>"
    and checked: "1 < length (pri_roots input) + (if ?folded then 0 else 1) \<Longrightarrow>
      list_all name_segment names \<and> (\<not> ?folded \<longrightarrow> HOST_NAMESPACE \<notin> set names)"
    using assms by (auto simp: from_canonical_def Let_def names_checked split: if_splits)
  have d: "distinct names" "length names = length (pri_roots input)"
    using package_namespaces_distinct [OF names] by auto
  then show "length (pr_package_namespaces r) = length (pr_package_roots r)" using r by simp
  have zip: "map fst (zip (pri_roots input) names) = pri_roots input" "map snd (zip (pri_roots input) names) = names"
    using d(2) by simp_all
  have space: "map gr_namespace (graph_roots r) = names @ (if ?folded then [] else [HOST_NAMESPACE])"
    using zip by (simp add: graph_roots_def r comp_def case_prod_unfold)
  have len: "length (graph_roots r) = length (pri_roots input) + (if ?folded then 0 else 1)"
    using arg_cong [OF space, of length] d(2) by simp
  have host: "name_segment HOST_NAMESPACE" by code_simp
  show "distinct (map gr_namespace (graph_roots r))"
  proof (cases "?folded \<or> pri_roots input = []")
    case True
    then show ?thesis using space d by auto
  next
    case False
    then show ?thesis using space d(1) checked by (cases "pri_roots input") auto
  qed
  show "list_all name_segment (map gr_namespace (graph_roots r))" if "1 < length (graph_roots r)"
    using that space checked host len by auto
qed

end
