(* ===== verification/Graph_Scan.thy ===== *)
theory Graph_Scan
  imports Package_Roots Startup_Validation
begin

text \<open>
  How the startup graph is derived from the package and host directories
  (\<open>supervise/graph_scan.rs\<close>). What the directories hold and what the Lua modules evaluate to is an
  argument (\<open>root_contents\<close>): the listing of \<open>departments\<close> and \<open>raisers\<close>, the \<open>M.spec\<close> table of a
  department after evaluation, the declaration of a raiser. Everything the scan computes from it is
  modelled: names, defaults, retries, published seams, fan-out and the derived queues.
\<close>

section \<open>Inputs\<close>

record dept_spec =
  spec_consumes :: "string list"
  spec_produces :: "string list"
  spec_fanout :: "string list"
  spec_published_seam :: "string list"
  spec_ephemeral :: "string list"
  spec_graph_json :: bool
  spec_stall_window :: string

record dept_retry_spec =
  rs_max_attempts :: "u64 option"
  rs_base :: "string option"
  rs_cap :: "string option"

text \<open>The \<open>retry\<close> entry of a spec: a table may not decode (\<open>None\<close>).\<close>

datatype lua_retry = RetryNil | RetryBool bool | RetryTable "dept_retry_spec option" | RetryOther

datatype dept_retry_setting = RetryDefault | RetryCustom dept_retry_spec | RetryDisabled

text \<open>A directory below \<open>departments\<close>; the rest of a spec may not decode either.\<close>

datatype department_dir =
    NoMainLua
  | EvalFails
  | NoSpec
  | DeptModule lua_retry "dept_spec option"

datatype raiser_file = RaiserEvalFails | RaiserMalformed | RaiserModule raiser_decl

record root_contents =
  rc_package_lua :: bool
  rc_unit :: "unit + string option"
  rc_catalog :: bool
  rc_departments :: "(string \<times> department_dir) list option"
  rc_raisers :: "(string \<times> raiser_file) list option"

datatype scan_error =
    RemovedPackageLua string
  | SettingFailed config_error
  | SettingTypePanic config_key
  | RatePoolsFailed rate_pool_error
  | RetryDefaultBaseInvalid
  | RetryDefaultCapInvalid
  | RetryDefaultCapBelowBase
  | UnitLookupFailed string
  | NoOwningUnit string
  | NoCatalog string
  | NameInvalid name_error
  | DepartmentEvalFailed string
  | DepartmentWithoutSpec string
  | SpecMalformed string
  | RetryTrueUnsupported
  | RetryMalformed
  | RetryWrongType
  | RetryUnsetWithDeadLetter string
  | ProducesRuntimeQueue string string
  | SeamNotConsumed string string
  | SeamNotOwned string string
  | DuplicateDepartment string
  | RaiserEvalFailed string
  | RaiserUnparsable string
  | RemovedRuntimeGlob string
  | DuplicateRaiser string
  | DepartmentProducesSibling string string
  | RaiserProducesSibling string string
  | FanoutWithoutDepartment string
  | FanoutNotUsed string string

definition lift_name :: "name_error + 'a \<Rightarrow> scan_error + 'a" where
  "lift_name r = (case r of Inl e \<Rightarrow> Inl (NameInvalid e) | Inr x \<Rightarrow> Inr x)"

definition lift_setting :: "config_error + 'a \<Rightarrow> scan_error + 'a" where
  "lift_setting r = (case r of Inl e \<Rightarrow> Inl (SettingFailed e) | Inr x \<Rightarrow> Inr x)"

section \<open>Defaults of the host\<close>

record host_graph_defaults =
  queue_capacity :: nat
  department_default_stall_window :: string
  codex_permit_slots :: nat
  default_retry :: retry_decl

definition typed_setting ::
    "config_value_type \<Rightarrow> (config_context \<Rightarrow> config_key \<Rightarrow> config_error + 'a) \<Rightarrow> config_context \<Rightarrow> config_key \<Rightarrow> scan_error + 'a" where
  "typed_setting t get ctx key =
     (case config_entry_of key of
        None \<Rightarrow> Inl (SettingFailed RegistryPanic)
      | Some entry \<Rightarrow> if value_type entry \<noteq> t then Inl (SettingTypePanic key) else lift_setting (get ctx key))"

definition resolve_usize :: "config_context \<Rightarrow> config_key \<Rightarrow> scan_error + nat" where
  "resolve_usize = typed_setting UsizeValue resolved_positive_usize"

definition resolve_stall_window :: "config_context \<Rightarrow> config_key \<Rightarrow> scan_error + string" where
  "resolve_stall_window = typed_setting DurationStringValue resolved_duration_string"

definition validate_retry_default :: "retry_decl \<Rightarrow> scan_error + unit" where
  "validate_retry_default rd =
     (case parse_duration_millis (decl_base rd) of
        None \<Rightarrow> Inl RetryDefaultBaseInvalid
      | Some base \<Rightarrow>
          (case parse_duration_millis (decl_cap rd) of
             None \<Rightarrow> Inl RetryDefaultCapInvalid
           | Some cap \<Rightarrow> if cap < base then Inl RetryDefaultCapBelowBase else Inr ()))"

definition resolve_retry_defaults :: "config_context \<Rightarrow> scan_error + retry_decl" where
  "resolve_retry_defaults ctx =
     rbind (resolve_usize ctx RetryDefaultMaxAttempts) (\<lambda>n.
     rbind (resolve_stall_window ctx RetryDefaultBase) (\<lambda>base.
     rbind (resolve_stall_window ctx RetryDefaultCap) (\<lambda>cap.
       let rd = \<lparr>decl_max_attempts = of_nat n, decl_base = base, decl_cap = cap\<rparr>
       in rbind (validate_retry_default rd) (\<lambda>_. Inr rd))))"

text \<open>\<open>ctx\<close> is the outcome of \<open>ConfigContext::from_host_root\<close>.\<close>

definition load_defaults ::
    "(string \<Rightarrow> string option) \<Rightarrow> string option \<Rightarrow> config_error + config_context \<Rightarrow> scan_error + host_graph_defaults" where
  "load_defaults canonicalize home context =
     rbind (lift_setting context) (\<lambda>ctx.
     rbind (case from_config canonicalize home ctx of Inl e \<Rightarrow> Inl (RatePoolsFailed e) | Inr _ \<Rightarrow> Inr ()) (\<lambda>_.
     rbind (resolve_usize ctx QueueCapacity) (\<lambda>capacity.
     rbind (resolve_stall_window ctx DepartmentDefaultStallWindow) (\<lambda>stall.
     rbind (resolve_usize ctx CodexPermitSlots) (\<lambda>slots.
     rbind (resolve_retry_defaults ctx) (\<lambda>rd.
       Inr \<lparr>queue_capacity = capacity, department_default_stall_window = stall, codex_permit_slots = slots,
            default_retry = rd\<rparr>))))))"

section \<open>Departments\<close>

definition SCAN_FAILURE_FACT_QUEUE :: string where
  "SCAN_FAILURE_FACT_QUEUE = ''fkst.failure_fact''"

definition is_dead_letter_queue :: "string \<Rightarrow> bool" where
  "is_dead_letter_queue q \<longleftrightarrow> built_in_provider_for_queue q = Some BUILT_IN_DEAD_LETTER_PROVIDER"

definition resolve_queues :: "name_resolver \<Rightarrow> string \<Rightarrow> string list \<Rightarrow> scan_error + string list" where
  "resolve_queues resolver owner qs =
     fold_result (\<lambda>done q. rbind (lift_name (resolve_name resolver owner q)) (\<lambda>full. Inr (done @ [full]))) [] qs"

definition parse_retry_setting :: "lua_retry \<Rightarrow> scan_error + dept_retry_setting" where
  "parse_retry_setting v =
     (case v of
        RetryNil \<Rightarrow> Inr RetryDefault
      | RetryBool b \<Rightarrow> if b then Inl RetryTrueUnsupported else Inr RetryDisabled
      | RetryTable t \<Rightarrow> (case t of None \<Rightarrow> Inl RetryMalformed | Some s \<Rightarrow> Inr (RetryCustom s))
      | RetryOther \<Rightarrow> Inl RetryWrongType)"

definition materialize_retry ::
    "string \<Rightarrow> dept_retry_setting \<Rightarrow> host_graph_defaults \<Rightarrow> string list \<Rightarrow> scan_error + retry_decl option" where
  "materialize_retry name setting defaults consumed =
     (case setting of
        RetryDisabled \<Rightarrow> Inr None
      | RetryDefault \<Rightarrow>
          if list_ex is_dead_letter_queue consumed
          then if list_ex (\<lambda>q. \<not> is_dead_letter_queue q) consumed then Inl (RetryUnsetWithDeadLetter name) else Inr None
          else Inr (Some (default_retry defaults))
      | RetryCustom c \<Rightarrow>
          Inr (Some \<lparr>decl_max_attempts = (case rs_max_attempts c of Some n \<Rightarrow> n | None \<Rightarrow> decl_max_attempts (default_retry defaults)),
                     decl_base = (case rs_base c of Some b \<Rightarrow> b | None \<Rightarrow> decl_base (default_retry defaults)),
                     decl_cap = (case rs_cap c of Some b \<Rightarrow> b | None \<Rightarrow> decl_cap (default_retry defaults))\<rparr>))"

definition reject_engine_dead_letter_produces :: "string list \<Rightarrow> string \<Rightarrow> scan_error + unit" where
  "reject_engine_dead_letter_produces qs name =
     (case find (\<lambda>q. built_in_provider_for_queue q \<noteq> None) qs of
        Some q \<Rightarrow> Inl (ProducesRuntimeQueue name q)
      | None \<Rightarrow> Inr ())"

definition queue_owned_by_namespace :: "string \<Rightarrow> string \<Rightarrow> bool" where
  "queue_owned_by_namespace q owner =
     (case split_once (CHR ''.'') q of Some (namespace, _) \<Rightarrow> namespace = owner | None \<Rightarrow> True)"

definition validate_published_seam :: "string list \<Rightarrow> string list \<Rightarrow> string \<Rightarrow> string \<Rightarrow> scan_error + unit" where
  "validate_published_seam seam consumed owner name =
     check_each (\<lambda>q. if q \<notin> set consumed then Inl (SeamNotConsumed name q)
                     else if \<not> queue_owned_by_namespace q owner then Inl (SeamNotOwned name q)
                     else Inr ()) seam"

text \<open>The path is \<open>root\<close> joined with \<open>relative\<close>; stripping the prefix leaves \<open>relative\<close>.\<close>

definition config_path :: "graph_root \<Rightarrow> string \<Rightarrow> string" where
  "config_path g relative =
     (case gr_kind g of PackageAndHost \<Rightarrow> relative | _ \<Rightarrow> path_join (gr_root g) relative)"

record scan_state =
  sc_departments :: "department_decl table"
  sc_raisers :: "raiser_decl table"
  sc_fanout :: "string list table"
  sc_seams :: "string list table"

definition insert_department_decl :: "string \<Rightarrow> department_decl \<Rightarrow> department_decl table \<Rightarrow> scan_error + department_decl table" where
  "insert_department_decl name d t =
     (if t_get t name \<noteq> None then Inl (DuplicateDepartment name) else Inr (t_insert name d t))"

definition department_of_spec ::
    "name_resolver \<Rightarrow> name_resolver \<Rightarrow> host_graph_defaults \<Rightarrow> graph_root \<Rightarrow> string \<Rightarrow> dept_retry_setting \<Rightarrow> dept_spec \<Rightarrow>
     scan_error + department_decl \<times> string list" where
  "department_of_spec resolver subscribe defaults g name setting spec =
     rbind (resolve_queues subscribe (gr_namespace g) (spec_consumes spec)) (\<lambda>consumed.
     rbind (resolve_queues resolver (gr_namespace g) (spec_produces spec)) (\<lambda>produced.
     rbind (reject_engine_dead_letter_produces produced name) (\<lambda>_.
     rbind (resolve_queues resolver (gr_namespace g) (spec_fanout spec)) (\<lambda>fan.
     rbind (resolve_queues resolver (gr_namespace g) (spec_published_seam spec)) (\<lambda>seam.
     rbind (validate_published_seam seam consumed (gr_namespace g) name) (\<lambda>_.
     rbind (resolve_queues subscribe (gr_namespace g) (spec_ephemeral spec)) (\<lambda>eph.
     rbind (materialize_retry name setting defaults consumed) (\<lambda>rd.
       Inr (\<lparr>lua = config_path g (''departments/'' @ name @ ''/main.lua''), owner_root = gr_root g,
             owner_namespace = gr_namespace g, consumes = consumed, produces = produced, published_seam = seam,
             ephemeral = eph,
             stall_window = (if trim (spec_stall_window spec) = [] then department_default_stall_window defaults
                             else spec_stall_window spec),
             graph_json = spec_graph_json spec, retry_of = rd\<rparr>, fan)))))))))"

definition scan_department ::
    "name_resolver \<Rightarrow> name_resolver \<Rightarrow> host_graph_defaults \<Rightarrow> graph_root \<Rightarrow> scan_state \<Rightarrow> string \<times> department_dir \<Rightarrow>
     scan_error + scan_state" where
  "scan_department resolver subscribe defaults g st entry =
     (case entry of (name, dir) \<Rightarrow>
      rbind (lift_name (validate_name_segment ''department name'' name)) (\<lambda>_.
      case dir of
        NoMainLua \<Rightarrow> Inr st
      | EvalFails \<Rightarrow> Inl (DepartmentEvalFailed name)
      | NoSpec \<Rightarrow> Inl (DepartmentWithoutSpec name)
      | DeptModule retry_value spec_value \<Rightarrow>
          rbind (parse_retry_setting retry_value) (\<lambda>setting.
          case spec_value of
            None \<Rightarrow> Inl (SpecMalformed name)
          | Some spec \<Rightarrow>
              rbind (department_of_spec resolver subscribe defaults g name setting spec) (\<lambda>(d, fan).
              rbind (lift_name (canonical_decl_name resolver (gr_namespace g) name)) (\<lambda>canonical.
              rbind (insert_department_decl canonical d (sc_departments st)) (\<lambda>ds.
                Inr (st\<lparr>sc_departments := ds, sc_fanout := t_insert canonical fan (sc_fanout st),
                        sc_seams := t_insert canonical (published_seam d) (sc_seams st)\<rparr>)))))))"

text \<open>The entries of a directory are visited in the order of their names.\<close>

definition scan_departments ::
    "name_resolver \<Rightarrow> name_resolver \<Rightarrow> host_graph_defaults \<Rightarrow> graph_root \<Rightarrow> root_contents \<Rightarrow> scan_state \<Rightarrow>
     scan_error + scan_state" where
  "scan_departments resolver subscribe defaults g c st =
     (case rc_departments c of
        None \<Rightarrow> Inr st
      | Some dirs \<Rightarrow> fold_result (scan_department resolver subscribe defaults g) st (sort_key fst dirs))"

section \<open>Raisers\<close>

text \<open>\<open>Path::extension\<close> and \<open>Path::file_stem\<close> of a file name: the last dot divides, unless it is the first character.\<close>

definition lua_stem :: "string \<Rightarrow> string option" where
  "lua_stem file =
     (if 4 < length file \<and> drop (length file - 4) file = ''.lua'' then Some (take (length file - 4) file) else None)"

definition resolve_raiser :: "name_resolver \<Rightarrow> string \<Rightarrow> raiser_decl \<Rightarrow> scan_error + raiser_decl" where
  "resolve_raiser resolver owner r =
     (case r of
        CronRaiser interval q \<Rightarrow> rbind (lift_name (resolve_name resolver owner q)) (\<lambda>full. Inr (CronRaiser interval full))
      | FileWatchRaiser glob q \<Rightarrow> rbind (lift_name (resolve_name resolver owner q)) (\<lambda>full. Inr (FileWatchRaiser glob full)))"

definition reject_runtime_file_watch_glob :: "raiser_decl \<Rightarrow> scan_error + unit" where
  "reject_runtime_file_watch_glob r =
     (case r of
        FileWatchRaiser glob _ \<Rightarrow> if starts_with glob ''runtime://'' then Inl (RemovedRuntimeGlob glob) else Inr ()
      | CronRaiser _ _ \<Rightarrow> Inr ())"

definition insert_raiser_decl :: "string \<Rightarrow> raiser_decl \<Rightarrow> raiser_decl table \<Rightarrow> scan_error + raiser_decl table" where
  "insert_raiser_decl name r t =
     (if t_get t name \<noteq> None then Inl (DuplicateRaiser name) else Inr (t_insert name r t))"

definition scan_raiser :: "name_resolver \<Rightarrow> graph_root \<Rightarrow> scan_state \<Rightarrow> string \<times> raiser_file \<Rightarrow> scan_error + scan_state" where
  "scan_raiser resolver g st entry =
     (case entry of (file, content) \<Rightarrow>
      case lua_stem file of
        None \<Rightarrow> Inr st
      | Some stem \<Rightarrow>
          rbind (lift_name (validate_name_segment ''raiser name'' stem)) (\<lambda>_.
          case content of
            RaiserEvalFails \<Rightarrow> Inl (RaiserEvalFailed stem)
          | RaiserMalformed \<Rightarrow> Inl (RaiserUnparsable stem)
          | RaiserModule r0 \<Rightarrow>
              rbind (reject_runtime_file_watch_glob r0) (\<lambda>_.
              rbind (resolve_raiser resolver (gr_namespace g) r0) (\<lambda>r.
              rbind (lift_name (canonical_decl_name resolver (gr_namespace g) stem)) (\<lambda>canonical.
              rbind (insert_raiser_decl canonical r (sc_raisers st)) (\<lambda>rs.
                Inr (st\<lparr>sc_raisers := rs\<rparr>)))))))"

definition scan_raisers :: "name_resolver \<Rightarrow> graph_root \<Rightarrow> root_contents \<Rightarrow> scan_state \<Rightarrow> scan_error + scan_state" where
  "scan_raisers resolver g c st =
     (case rc_raisers c of
        None \<Rightarrow> Inr st
      | Some files \<Rightarrow> fold_result (scan_raiser resolver g) st (sort_key fst files))"

section \<open>Checks across packages and derived queues\<close>

definition declaration_namespace :: "string \<Rightarrow> string option" where
  "declaration_namespace name = map_option fst (split_once (CHR ''.'') name)"

definition validate_cross_package_produces :: "scan_state \<Rightarrow> scan_error + unit" where
  "validate_cross_package_produces st =
     (let seams = concat (map snd (t_iter (sc_seams st))) in
      rbind (check_each (\<lambda>(name, d).
               check_each (\<lambda>q. if queue_owned_by_namespace q (owner_namespace d) \<or> q \<in> set seams then Inr ()
                               else Inl (DepartmentProducesSibling name q)) (produces d)) (t_iter (sc_departments st))) (\<lambda>_.
        check_each (\<lambda>(name, r).
          let q = raiser_produces r; owner = (case declaration_namespace name of Some n \<Rightarrow> n | None \<Rightarrow> [])
          in if queue_owned_by_namespace q owner \<or> q \<in> set seams then Inr ()
             else Inl (RaiserProducesSibling name q)) (t_iter (sc_raisers st))))"

definition referenced_queues :: "scan_state \<Rightarrow> string list" where
  "referenced_queues st =
     concat (map (\<lambda>(_, d). consumes d @ produces d) (t_iter (sc_departments st))) @
     map (\<lambda>(_, r). raiser_produces r) (t_iter (sc_raisers st))"

definition resolve_department_fanout :: "scan_state \<Rightarrow> scan_error + string list" where
  "resolve_department_fanout st =
     fold_result (\<lambda>fan (name, qs).
       case t_get (sc_departments st) name of
         None \<Rightarrow> Inl (FanoutWithoutDepartment name)
       | Some d \<Rightarrow>
           fold_result (\<lambda>fan q. if q \<notin> set (consumes d) \<and> q \<notin> set (produces d) then Inl (FanoutNotUsed name q)
                                else Inr (List.insert q fan)) fan qs) [] (t_iter (sc_fanout st))"

definition derive_queues :: "scan_state \<Rightarrow> host_graph_defaults \<Rightarrow> scan_error + queue_decl table" where
  "derive_queues st defaults =
     rbind (resolve_department_fanout st) (\<lambda>fan.
       Inr (foldl (\<lambda>t q. t_insert q \<lparr>capacity = queue_capacity defaults, fanout = (q \<in> set fan)\<rparr> t) t_empty
              (referenced_queues st)))"

section \<open>The whole scan\<close>

definition reject_removed_surfaces :: "graph_root \<Rightarrow> root_contents \<Rightarrow> scan_error + unit" where
  "reject_removed_surfaces g c = (if rc_package_lua c then Inl (RemovedPackageLua (gr_root g)) else Inr ())"

definition scan_root ::
    "name_resolver \<Rightarrow> name_resolver \<Rightarrow> host_graph_defaults \<Rightarrow> (string \<Rightarrow> root_contents) \<Rightarrow> scan_state \<Rightarrow> graph_root \<Rightarrow>
     scan_error + scan_state" where
  "scan_root resolver subscribe defaults files st g =
     (let c = files (gr_root g) in
      case rc_unit c of
        Inl _ \<Rightarrow> Inl (UnitLookupFailed (gr_root g))
      | Inr None \<Rightarrow>
          if gr_kind g = HostRoot \<and> rc_departments c = None \<and> rc_raisers c = None then Inr st
          else Inl (NoOwningUnit (gr_root g))
      | Inr (Some _) \<Rightarrow>
          if \<not> rc_catalog c then Inl (NoCatalog (gr_root g))
          else rbind (scan_departments resolver subscribe defaults g c st) (scan_raisers resolver g c))"

definition empty_scan :: scan_state where
  "empty_scan = \<lparr>sc_departments = t_empty, sc_raisers = t_empty, sc_fanout = t_empty, sc_seams = t_empty\<rparr>"

definition build_graph ::
    "(string \<Rightarrow> root_contents) \<Rightarrow> package_roots \<Rightarrow> host_graph_defaults \<Rightarrow> scan_error + config" where
  "build_graph files roots defaults =
     (let resolver = roots_name_resolver roots;
          subscribe = add_recorded_only_queue SCAN_FAILURE_FACT_QUEUE resolver in
      rbind (fold_result (scan_root resolver subscribe defaults files) empty_scan (graph_roots roots)) (\<lambda>st.
      rbind (validate_cross_package_produces st) (\<lambda>_.
      rbind (derive_queues st defaults) (\<lambda>queues.
        Inr \<lparr>cfg_queue = queues, cfg_raiser = sc_raisers st, cfg_department = sc_departments st,
             cfg_limits = \<lparr>global_codex_processes = codex_permit_slots defaults\<rparr>\<rparr>))))"

definition load_roots ::
    "(string \<Rightarrow> string option) \<Rightarrow> string option \<Rightarrow> config_error + config_context \<Rightarrow> (string \<Rightarrow> root_contents) \<Rightarrow>
     package_roots \<Rightarrow> scan_error + config" where
  "load_roots canonicalize home context files roots =
     rbind (check_each (\<lambda>g. reject_removed_surfaces g (files (gr_root g))) (graph_roots roots)) (\<lambda>_.
     rbind (load_defaults canonicalize home context) (build_graph files roots))"

end
