(* ===== verification/Graph_Theorems.thy ===== *)
theory Graph_Theorems
  imports Graph_Scan
begin

text \<open>
  What the graph scan guarantees to the rest of the program: the derived queues are exactly the referenced
  ones, no department writes to a queue of the runtime, a package reaches into another one only through
  a published seam, and validation never finds an undeclared or isolated queue in a scanned graph.
\<close>

section \<open>The state of a scan\<close>

definition scanned_department :: "department_decl \<Rightarrow> bool" where
  "scanned_department d \<longleftrightarrow>
     (\<forall>q \<in> set (produces d). built_in_provider_for_queue q = None) \<and>
     (\<forall>q \<in> set (published_seam d). q \<in> set (consumes d) \<and> queue_owned_by_namespace q (owner_namespace d))"

definition scan_ok :: "scan_state \<Rightarrow> bool" where
  "scan_ok st \<longleftrightarrow> t_ok (sc_departments st) \<and> t_ok (sc_raisers st) \<and> t_ok (sc_fanout st) \<and> t_ok (sc_seams st) \<and>
     (\<forall>n. t_get (sc_seams st) n = map_option published_seam (t_get (sc_departments st) n)) \<and>
     (\<forall>n d. t_get (sc_departments st) n = Some d \<longrightarrow> scanned_department d)"

lemma department_of_spec_scanned:
  assumes "department_of_spec resolver subscribe defaults g name setting spec = Inr (d, fan)"
  shows "scanned_department d"
proof -
  have produced: "built_in_provider_for_queue q = None"
    if "reject_engine_dead_letter_produces qs name = Inr u" "q \<in> set qs" for qs q u
    using that by (auto simp: reject_engine_dead_letter_produces_def find_None_iff split: option.splits)
  have seams: "q \<in> set consumed \<and> queue_owned_by_namespace q owner"
    if "validate_published_seam seam consumed owner name = Inr u" "q \<in> set seam" for seam consumed owner q u
    using that by (auto simp: validate_published_seam_def check_each_Inr split: if_splits)
  show ?thesis
    using assms by (auto simp: department_of_spec_def scanned_department_def dest: produced seams)
qed

lemma scan_department_ok:
  assumes "scan_department resolver subscribe defaults g st entry = Inr st'" and "scan_ok st"
  shows "scan_ok st'"
proof (cases "st' = st")
  case False
  obtain name retry_value spec setting d fan canonical where
    d: "department_of_spec resolver subscribe defaults g name setting spec = Inr (d, fan)"
    and fresh: "t_get (sc_departments st) canonical = None"
    and st': "st' = st\<lparr>sc_departments := t_insert canonical d (sc_departments st),
      sc_fanout := t_insert canonical fan (sc_fanout st),
      sc_seams := t_insert canonical (published_seam d) (sc_seams st)\<rparr>"
    using assms(1) False
    by (auto simp: scan_department_def insert_department_decl_def split: prod.splits department_dir.splits option.splits if_splits)
  then show ?thesis using assms(2) department_of_spec_scanned [OF d] by (auto simp: scan_ok_def)
qed (use assms(2) in simp)

lemma scan_raiser_ok: "scan_raiser resolver g st entry = Inr st' \<Longrightarrow> scan_ok st \<Longrightarrow> scan_ok st'"
  by (auto simp: scan_raiser_def insert_raiser_decl_def scan_ok_def split: prod.splits option.splits raiser_file.splits if_splits)

lemma scan_root_ok:
  assumes "scan_root resolver subscribe defaults files st g = Inr st'" and "scan_ok st"
  shows "scan_ok st'"
proof -
  have ds: "scan_ok st2" if "scan_departments resolver subscribe defaults g c st1 = Inr st2" "scan_ok st1" for c st1 st2
    using that by (auto simp: scan_departments_def split: option.splits elim!: fold_result_inv dest: scan_department_ok)
  have rs: "scan_ok st2" if "scan_raisers resolver g c st1 = Inr st2" "scan_ok st1" for c st1 st2
    using that by (auto simp: scan_raisers_def split: option.splits elim!: fold_result_inv dest: scan_raiser_ok)
  show ?thesis
    using assms by (auto simp: scan_root_def Let_def split: sum.splits option.splits if_splits dest: ds rs)
qed

lemma empty_scan_ok: "scan_ok empty_scan"
  by (simp add: scan_ok_def empty_scan_def)

section \<open>Derived queues\<close>

lemma foldl_insert_ok: "t_ok t \<Longrightarrow> t_ok (foldl (\<lambda>t q. t_insert q (f q) t) t qs)"
  by (induction qs arbitrary: t) auto

lemma foldl_insert_get:
  "t_get (foldl (\<lambda>t q. t_insert q (f q) t) t qs) q = (if q \<in> set qs then Some (f q) else t_get t q)"
  by (induction qs arbitrary: t) auto

lemma referenced_iff:
  assumes "scan_ok st"
  shows "q \<in> set (referenced_queues st) \<longleftrightarrow>
    (\<exists>n d. t_get (sc_departments st) n = Some d \<and> (q \<in> set (consumes d) \<or> q \<in> set (produces d))) \<or>
    (\<exists>n r. t_get (sc_raisers st) n = Some r \<and> raiser_produces r = q)"
proof -
  have ok: "t_ok (sc_departments st)" "t_ok (sc_raisers st)" using assms by (simp_all add: scan_ok_def)
  have "q \<in> set (referenced_queues st) \<longleftrightarrow>
      (\<exists>n d. (n, d) \<in> set (t_iter (sc_departments st)) \<and> (q \<in> set (consumes d) \<or> q \<in> set (produces d))) \<or>
      (\<exists>n r. (n, r) \<in> set (t_iter (sc_raisers st)) \<and> raiser_produces r = q)"
    unfolding referenced_queues_def by force
  then show ?thesis by (simp add: tab.entries_get [OF ok(1)] tab.entries_get [OF ok(2)])
qed

text \<open>The fan-out queues of a graph are the ones some department asks for.\<close>

lemma fanout_of_department:
  "fold_result (\<lambda>fan q. if q \<notin> set (consumes d) \<and> q \<notin> set (produces d) then Inl (FanoutNotUsed name q)
     else Inr (List.insert q fan)) fan qs = Inr fan' \<Longrightarrow>
   set fan' = set fan \<union> set qs \<and> (\<forall>q \<in> set qs. q \<in> set (consumes d) \<or> q \<in> set (produces d))"
  by (induction qs arbitrary: fan) (auto split: if_splits)

lemma fanout_of_departments:
  "fold_result (\<lambda>fan (name, qs).
       case t_get ds name of
         None \<Rightarrow> Inl (FanoutWithoutDepartment name)
       | Some d \<Rightarrow>
           fold_result (\<lambda>fan q. if q \<notin> set (consumes d) \<and> q \<notin> set (produces d) then Inl (FanoutNotUsed name q)
                                else Inr (List.insert q fan)) fan qs) fan rows = Inr fan' \<Longrightarrow>
   set fan' = set fan \<union> \<Union> (set ` snd ` set rows)"
proof (induction rows arbitrary: fan)
  case (Cons row rows)
  obtain name qs where row: "row = (name, qs)" by (cases row)
  obtain d mid where "t_get ds name = Some d" and "set mid = set fan \<union> set qs"
    and "fold_result (\<lambda>fan (name, qs).
       case t_get ds name of
         None \<Rightarrow> Inl (FanoutWithoutDepartment name)
       | Some d \<Rightarrow>
           fold_result (\<lambda>fan q. if q \<notin> set (consumes d) \<and> q \<notin> set (produces d) then Inl (FanoutNotUsed name q)
                                else Inr (List.insert q fan)) fan qs) mid rows = Inr fan'"
    using Cons.prems row by (auto split: option.splits dest!: fanout_of_department)
  then show ?case using Cons.IH row by auto
qed simp


section \<open>Defaults\<close>

lemma resolve_usize_positive: "resolve_usize ctx key = Inr n \<Longrightarrow> 0 < n \<and> n < 18446744073709551616"
  by (auto simp: resolve_usize_def typed_setting_def lift_setting_def resolved_positive_usize_def resolved_with_def
      parse_positive_usize_def parse_nat_def Let_def split: option.splits sum.splits if_splits)

lemma load_defaults_ok:
  assumes "load_defaults canonicalize home context = Inr defaults"
  shows "0 < queue_capacity defaults \<and> 0 < codex_permit_slots defaults \<and> retry_decl_ok (default_retry defaults)"
proof -
  have nz: "(of_nat n :: u64) \<noteq> 0" if "0 < n \<and> n < 18446744073709551616" for n
  proof
    assume "(of_nat n :: u64) = 0"
    then have "unat (of_nat n :: u64) = 0" by simp
    then show False using that by (simp add: unat_of_nat)
  qed
  have "retry_decl_ok rd" if "resolve_retry_defaults ctx = Inr rd" for ctx rd
    using that nz
    by (auto simp: resolve_retry_defaults_def retry_decl_ok_def validate_retry_default_def Let_def
        dest!: resolve_usize_positive split: option.splits if_splits)
  then show ?thesis using assms by (auto simp: load_defaults_def dest: resolve_usize_positive)
qed

section \<open>An example\<close>

text \<open>A package whose department consumes its inbox, and a host whose department and raiser feed it.\<close>

definition demo_spec :: "string list \<Rightarrow> string list \<Rightarrow> string list \<Rightarrow> dept_spec" where
  "demo_spec cs ps seam =
     \<lparr>spec_consumes = cs, spec_produces = ps, spec_fanout = [], spec_published_seam = seam, spec_ephemeral = [],
      spec_graph_json = False, spec_stall_window = []\<rparr>"

definition demo_files :: "string \<Rightarrow> root_contents" where
  "demo_files root =
     \<lparr>rc_package_lua = False, rc_unit = Inr (Some ''unit''), rc_catalog = True,
      rc_departments = Some (if root = ''/p/billing''
        then [(''clerk'', DeptModule RetryNil (Some (demo_spec [''inbox''] [] [''inbox''])))]
        else [(''desk'', DeptModule RetryNil (Some (demo_spec [''ticks''] [''billing.inbox''] [])))]),
      rc_raisers = (if root = ''/p/billing'' then None else Some [(''clock.lua'', RaiserModule (CronRaiser ''5m'' ''ticks''))])\<rparr>"

definition demo_roots :: package_roots where
  "demo_roots = \<lparr>pr_package_roots = [''/p/billing''], pr_host_root = ''/p'', pr_package_namespaces = [''billing''],
     pr_run_host_owner = False\<rparr>"

definition demo_context :: "config_error + config_context" where
  "demo_context = Inr \<lparr>host_root = ''/p'', process_env = t_empty, fkst_env = t_empty\<rparr>"

definition demo_defaults :: host_graph_defaults where
  "demo_defaults = \<lparr>queue_capacity = 16, department_default_stall_window = ''30s'', codex_permit_slots = 20,
     default_retry = \<lparr>decl_max_attempts = 5, decl_base = ''60s'', decl_cap = ''30m''\<rparr>\<rparr>"

definition demo_graph :: config where
  "demo_graph = projr (build_graph demo_files demo_roots demo_defaults)"

lemma demo_build: "build_graph demo_files demo_roots demo_defaults = Inr demo_graph"
proof -
  have "\<not> isl (build_graph demo_files demo_roots demo_defaults)" by code_simp
  then show ?thesis by (simp add: demo_graph_def sum.collapse(2))
qed

lemma demo_usize:
  assumes "config_entry_of key = Some entry" and "value_type entry = UsizeValue" and "ce_kind entry = Operational text"
    and "trim text = text" and "parse_nat 18446744073709551616 text = Some n" and "0 < n"
  shows "resolve_usize \<lparr>host_root = root, process_env = t_empty, fkst_env = t_empty\<rparr> key = Inr n"
  using assms
  by (simp add: resolve_usize_def typed_setting_def lift_setting_def resolved_positive_usize_def resolved_with_def
      resolve_setting_def nonempty_def parse_positive_usize_def)

lemma demo_numbers:
  "parse_nat 18446744073709551616 ''16'' = Some 16" "parse_nat 18446744073709551616 ''20'' = Some 20"
  "parse_nat 18446744073709551616 ''5'' = Some 5"
  "parse_duration_millis ''60s'' = Some 60000" "parse_duration_millis ''30m'' = Some 1800000"
  by (simp_all add: parse_nat_def parse_duration_millis_def is_digit_def digits_value_def u128_max_def sat_mul128_def)

lemma demo_defaults_run: "load_defaults Some (Some ''/home'') demo_context = Inr demo_defaults"
proof -
  let ?ctx = "\<lparr>host_root = ''/p'', process_env = t_empty, fkst_env = t_empty\<rparr>"
  have entries: "config_entry_of QueueCapacity = Some (config_row QueueCapacity ''queue_capacity'' ''FKST_QUEUE_CAPACITY'' (Operational ''16'') UsizeValue)"
    "config_entry_of CodexPermitSlots = Some (config_row CodexPermitSlots ''codex_permit_slots'' ''FKST_CODEX_PERMIT_SLOTS'' (Operational ''20'') UsizeValue)"
    "config_entry_of RetryDefaultMaxAttempts = Some (config_row RetryDefaultMaxAttempts ''retry_default_max_attempts'' ''FKST_RETRY_DEFAULT_MAX_ATTEMPTS'' (Operational ''5'') UsizeValue)"
    by code_simp+
  have trims: "trim ''16'' = ''16''" "trim ''20'' = ''20''" "trim ''5'' = ''5''" by code_simp+
  have counts: "resolve_usize ?ctx QueueCapacity = Inr 16" "resolve_usize ?ctx CodexPermitSlots = Inr 20"
    "resolve_usize ?ctx RetryDefaultMaxAttempts = Inr 5"
    using demo_usize [OF entries(1)] demo_usize [OF entries(2)] demo_usize [OF entries(3)] trims demo_numbers
    by (simp_all add: config_row_def)
  have texts: "resolve_stall_window ?ctx DepartmentDefaultStallWindow = Inr ''30s''"
    "resolve_stall_window ?ctx RetryDefaultBase = Inr ''60s''" "resolve_stall_window ?ctx RetryDefaultCap = Inr ''30m''"
    by code_simp+
  have pools: "\<not> isl (from_config Some (Some ''/home'') ?ctx)" by code_simp
  show ?thesis
    using counts texts pools
    by (auto simp: load_defaults_def demo_context_def lift_setting_def resolve_retry_defaults_def Let_def
        validate_retry_default_def demo_numbers demo_defaults_def split: sum.splits)
qed

lemma demo_graph_run: "load_roots Some (Some ''/home'') demo_context demo_files demo_roots = Inr demo_graph"
proof -
  have "check_each (\<lambda>g. reject_removed_surfaces g (demo_files (gr_root g))) (graph_roots demo_roots) = Inr ()" by code_simp
  then show ?thesis by (simp add: load_roots_def demo_defaults_run demo_build)
qed

section \<open>The theorems\<close>

lemma load_roots_parts:
  assumes "load_roots canonicalize home context files roots = Inr cfg"
  obtains st defaults fan where "scan_ok st" "load_defaults canonicalize home context = Inr defaults"
    "validate_cross_package_produces st = Inr ()" "resolve_department_fanout st = Inr fan"
    "cfg = \<lparr>cfg_queue = foldl (\<lambda>t q. t_insert q \<lparr>capacity = queue_capacity defaults, fanout = (q \<in> set fan)\<rparr> t) t_empty
              (referenced_queues st), cfg_raiser = sc_raisers st, cfg_department = sc_departments st,
            cfg_limits = \<lparr>global_codex_processes = codex_permit_slots defaults\<rparr>\<rparr>"
proof -
  obtain st defaults fan where st: "fold_result (scan_root (roots_name_resolver roots)
      (add_recorded_only_queue SCAN_FAILURE_FACT_QUEUE (roots_name_resolver roots)) defaults files) empty_scan (graph_roots roots) = Inr st"
    and rest: "load_defaults canonicalize home context = Inr defaults"
    "validate_cross_package_produces st = Inr ()" "resolve_department_fanout st = Inr fan"
    "cfg = \<lparr>cfg_queue = foldl (\<lambda>t q. t_insert q \<lparr>capacity = queue_capacity defaults, fanout = (q \<in> set fan)\<rparr> t) t_empty
              (referenced_queues st), cfg_raiser = sc_raisers st, cfg_department = sc_departments st,
            cfg_limits = \<lparr>global_codex_processes = codex_permit_slots defaults\<rparr>\<rparr>"
    using assms by (auto simp: load_roots_def build_graph_def derive_queues_def Let_def)
  have "scan_ok st" using st empty_scan_ok by (rule fold_result_inv) (rule scan_root_ok)
  then show thesis using that rest by blast
qed



lemma fold_result_Inl: "fold_result f s xs = Inl e \<Longrightarrow> \<exists>t x. x \<in> set xs \<and> f t x = Inl e"
proof (induction xs arbitrary: s)
  case (Cons x xs)
  then show ?case by (cases "f s x") (auto, blast)
qed simp

lemma check_each_Inl: "check_each f xs = Inl e \<Longrightarrow> \<exists>x \<in> set xs. f x = Inl e"
  unfolding check_each_def by (drule fold_result_Inl) auto

lemma rbind_eq_Inl: "rbind r f = Inl e \<longleftrightarrow> r = Inl e \<or> (\<exists>x. r = Inr x \<and> f x = Inl e)"
  by (cases r) auto

definition about_queues :: "schema_error \<Rightarrow> bool" where
  "about_queues e \<longleftrightarrow> (case e of
      NoCodexProcesses \<Rightarrow> True | QueueWithoutCapacity _ \<Rightarrow> True | IsolatedQueue _ \<Rightarrow> True
    | RaiserQueueUndeclared _ _ \<Rightarrow> True | ConsumedQueueUndeclared _ _ \<Rightarrow> True | ProducedQueueUndeclared _ _ \<Rightarrow> True
    | _ \<Rightarrow> False)"

lemma validate_retry_about: "validate_retry_decl n rd = Inl e \<Longrightarrow> \<not> about_queues e"
  by (auto simp: validate_retry_decl_def about_queues_def split: if_splits option.splits)

lemma validate_department_about:
  assumes "validate_department is_file root cfg (n, d) = Inl e"
    and "\<And>q. q \<in> set (consumes d) \<or> q \<in> set (produces d) \<Longrightarrow> declared cfg q"
  shows "\<not> about_queues e"
proof -
  have cs: "check_each (\<lambda>q. if \<not> declared cfg q then Inl (ConsumedQueueUndeclared n q) else Inr ()) (consumes d) = Inr ()"
    "check_each (\<lambda>q. if \<not> declared cfg q then Inl (ProducedQueueUndeclared n q) else Inr ()) (produces d) = Inr ()"
    using assms(2) by (simp_all add: check_each_Inr)
  show ?thesis
  proof (cases "check_each (\<lambda>q. if q \<notin> set (consumes d) then Inl (EphemeralNotConsumed n q) else Inr ()) (ephemeral d)")
    case (Inl e')
    then have "\<exists>q. e' = EphemeralNotConsumed n q" by (auto dest!: check_each_Inl split: if_splits)
    then show ?thesis using assms(1) cs Inl by (auto simp: validate_department_def about_queues_def)
  next
    case (Inr u)
    then show ?thesis
      using assms(1) cs validate_retry_about
      by (auto simp: validate_department_def Let_def about_queues_def [of "LuaFileMissing _ _"] about_queues_def [of "BadStallWindow _ _"]
          split: if_splits option.splits)
  qed
qed

lemma validate_queue_about:
  assumes "validate_queue scope cfg w q = Inl e" and "all_producers cfg q \<noteq> [] \<or> queue_consumers cfg q \<noteq> []"
  shows "\<not> about_queues e"
  using assms
  by (auto simp: validate_queue_def validate_queue_contract_def Let_def rbind_eq_Inl about_queues_def
      split: if_splits validation_scope.splits)

lemma validate_propagation_about: "validate_propagation cfg row = Inl e \<Longrightarrow> \<not> about_queues e"
  by (auto simp: validate_propagation_def about_queues_def Let_def dest!: check_each_Inl split: prod.splits if_splits)

lemma validate_error_about:
  assumes err: "validate_with_scope is_file root scope cfg = Inl e" and permits: "global_codex_processes (cfg_limits cfg) \<noteq> 0"
    and capacity: "\<And>n d. (n, d) \<in> set (t_iter (cfg_queue cfg)) \<Longrightarrow> 0 < capacity d"
    and raisers: "\<And>n r. (n, r) \<in> set (t_iter (cfg_raiser cfg)) \<Longrightarrow> declared cfg (raiser_produces r)"
    and depts: "\<And>n d q. (n, d) \<in> set (t_iter (cfg_department cfg)) \<Longrightarrow> q \<in> set (consumes d) \<or> q \<in> set (produces d) \<Longrightarrow> declared cfg q"
    and used: "\<And>q. q \<in> set (map fst (t_iter (cfg_queue cfg))) \<Longrightarrow> all_producers cfg q \<noteq> [] \<or> queue_consumers cfg q \<noteq> []"
  shows "\<not> about_queues e"
proof -
  have 1: "check_each (\<lambda>(n, q). if capacity q = 0 then Inl (QueueWithoutCapacity n) else Inr ()) (t_iter (cfg_queue cfg)) = Inr ()"
    using capacity by (fastforce simp: check_each_Inr)
  have 2: "check_each (\<lambda>(n, r). if \<not> declared cfg (raiser_produces r) then Inl (RaiserQueueUndeclared n (raiser_produces r)) else Inr ())
      (t_iter (cfg_raiser cfg)) = Inr ()"
    using raisers by (fastforce simp: check_each_Inr)
  have 3: "\<not> about_queues e" if "check_each (validate_department is_file root cfg) (t_iter (cfg_department cfg)) = Inl e"
    using check_each_Inl [OF that] validate_department_about depts by fast
  have 4: "\<not> about_queues e" if "check_each (validate_propagation cfg) (t_iter (cfg_department cfg)) = Inl e"
    using check_each_Inl [OF that] validate_propagation_about by blast
  have 5: "\<not> about_queues e"
    if "fold_result (validate_queue scope cfg) [] (sort (map fst (t_iter (cfg_queue cfg)))) = Inl e"
    using fold_result_Inl [OF that] validate_queue_about used by force
  show ?thesis using err permits 1 2 3 4 5 by (auto simp: validate_with_scope_def rbind_eq_Inl)
qed

text \<open>C39: Scanning and validation fit together. In a graph that the scan has built, validation never finds a
  missing permit, a queue without capacity, an undeclared queue or an isolated one, and it accepts the
  retry policy that departments take over from the host's defaults.\<close>

theorem scanned_graph_validates:
  assumes "load_roots canonicalize home context files roots = Inr cfg"
  shows "(\<forall>e. validate_with_scope is_file root scope cfg = Inl e \<longrightarrow> \<not> about_queues e) \<and>
    (\<exists>defaults. load_defaults canonicalize home context = Inr defaults \<and>
       (\<forall>n. validate_retry_decl n (default_retry defaults) = Inr ()))"
proof -
  obtain st defaults fan where parts: "scan_ok st" "load_defaults canonicalize home context = Inr defaults"
    "validate_cross_package_produces st = Inr ()" "resolve_department_fanout st = Inr fan"
    and cfg: "cfg = \<lparr>cfg_queue = foldl (\<lambda>t q. t_insert q \<lparr>capacity = queue_capacity defaults, fanout = (q \<in> set fan)\<rparr> t) t_empty
              (referenced_queues st), cfg_raiser = sc_raisers st, cfg_department = sc_departments st,
            cfg_limits = \<lparr>global_codex_processes = codex_permit_slots defaults\<rparr>\<rparr>"
    using load_roots_parts [OF assms] .
  note defs = load_defaults_ok [OF parts(2)]
  have fields: "cfg_raiser cfg = sc_raisers st" "cfg_department cfg = sc_departments st"
    "global_codex_processes (cfg_limits cfg) = codex_permit_slots defaults" by (simp_all add: cfg)
  have t: "t_ok (cfg_queue cfg)" "t_ok (cfg_raiser cfg)" "t_ok (cfg_department cfg)"
    using parts(1) by (simp_all add: cfg scan_ok_def foldl_insert_ok)
  have get: "t_get (cfg_queue cfg) q = (if q \<in> set (referenced_queues st)
      then Some \<lparr>capacity = queue_capacity defaults, fanout = (q \<in> set fan)\<rparr> else None)" for q
    by (simp add: cfg foldl_insert_get)
  have dec: "declared cfg q \<longleftrightarrow> q \<in> set (referenced_queues st)" for q
    using declared_iff [OF t(1)] get by simp
  have capacity: "0 < capacity d" if "(n, d) \<in> set (t_iter (cfg_queue cfg))" for n d
    using that defs by (auto simp: tab.entries_get [OF t(1)] get split: if_splits)
  have raisers: "declared cfg (raiser_produces r)" if "(n, r) \<in> set (t_iter (cfg_raiser cfg))" for n r
    using that [unfolded tab.entries_get [OF t(2)]] referenced_iff [OF parts(1)] by (auto simp: dec fields)
  have depts: "declared cfg q"
    if "(n, d) \<in> set (t_iter (cfg_department cfg))" "q \<in> set (consumes d) \<or> q \<in> set (produces d)" for n d q
    using that [unfolded tab.entries_get [OF t(3)]] referenced_iff [OF parts(1)] by (auto simp: dec fields)
  have used: "all_producers cfg q \<noteq> [] \<or> queue_consumers cfg q \<noteq> []" if "q \<in> set (map fst (t_iter (cfg_queue cfg)))" for q
  proof -
    have "q \<in> set (referenced_queues st)" using that dec by (simp add: declared_def)
    then have "has_consumer cfg q \<or> has_producer cfg q"
      using referenced_iff [OF parts(1)] by (auto simp: has_consumer_def has_producer_def fields)
    then show ?thesis using all_producers_Nil [OF t(2,3)] queue_consumers_Nil [OF t(3)] by blast
  qed
  have "\<not> about_queues e" if err: "validate_with_scope is_file root scope cfg = Inl e" for e
  proof -
    have "global_codex_processes (cfg_limits cfg) \<noteq> 0" using defs by (simp add: fields)
    from validate_error_about [OF err this capacity raisers depts used] show ?thesis .
  qed
  moreover have "validate_retry_decl n (default_retry defaults) = Inr ()" for n
    using validate_retry_decl_iff [of n "default_retry defaults" "()"] defs by simp
  ultimately show ?thesis using parts(2) by blast
qed

theorem scanned_graph_validates_witness:
  "validate_with_scope (\<lambda>_. False) ''/p'' ClosedWorld demo_graph =
     Inl (LuaFileMissing ''billing.clerk'' ''/p/billing/departments/clerk/main.lua'') \<and>
   \<not> about_queues (LuaFileMissing ''billing.clerk'' ''/p/billing/departments/clerk/main.lua'')"
proof -
  have "validate_with_scope (\<lambda>_. False) ''/p'' ClosedWorld demo_graph =
      Inl (LuaFileMissing ''billing.clerk'' ''/p/billing/departments/clerk/main.lua'')" by code_simp
  with scanned_graph_validates [OF demo_graph_run] show ?thesis by blast
qed

end
