(* ===== verification/Supervisor_Start.thy ===== *)
theory Supervisor_Start
  imports Graph_Scan Consumer_Loop
begin

text \<open>
  How the supervisor starts (\<open>supervise/mod.rs\<close>, with \<open>fkst-common/src/durable_layout.rs\<close> and
  \<open>runtime_layout.rs\<close>): scan and validate the graph, open the durable store, rebind its deliveries to
  the current subscribers, read the settings, sweep deliveries whose subscriber is gone, and start the
  consumers and the raisers. The journal is the list of its events, kept in the router. What the outside
  decides is the record \<open>start_env\<close>: environment variables, whether a file exists, the database behind a
  path, whether the shims, the catalog and the observe socket could be set up, clocks, and the texts of
  errors. The signals, the shutdown and the tasks themselves are not part
  of this theory.
\<close>

section \<open>Layouts\<close>

datatype layout_error = RootNotSet | RootEmpty | RootTraversal

definition DURABLE_ROOT_ENV :: string where
  "DURABLE_ROOT_ENV = ''FKST_DURABLE_ROOT''"

text \<open>\<open>Component::ParentDir\<close> occurs in the components of the path.\<close>

definition has_parent_dir :: "string \<Rightarrow> bool" where
  "has_parent_dir path \<longleftrightarrow> ''..'' \<in> set (split_on (CHR ''/'') path)"

definition reject_traversal :: "string \<Rightarrow> layout_error + unit" where
  "reject_traversal path =
     (if path = [] then Inl RootEmpty else if has_parent_dir path then Inl RootTraversal else Inr ())"

definition durable_layout_new :: "string \<Rightarrow> layout_error + string" where
  "durable_layout_new root = rbind (reject_traversal root) (\<lambda>_. Inr root)"

definition durable_layout_from_env :: "(string \<Rightarrow> string option) \<Rightarrow> layout_error + string" where
  "durable_layout_from_env env =
     (case env DURABLE_ROOT_ENV of
        None \<Rightarrow> Inl RootNotSet
      | Some root \<Rightarrow> if root = [] then Inl RootNotSet else durable_layout_new root)"

definition delivery_db_path :: "string \<Rightarrow> string" where
  "delivery_db_path root = path_join root ''delivery.redb''"

definition layout_hex_hash :: "string \<Rightarrow> string" where
  "layout_hex_hash path =
     concat (map u8_hex (be_bytes64
       (foldl (\<lambda>hash byte. (hash XOR of_char byte) * 0x100000001b3) 0xcbf29ce484222325 path)))"

definition observe_socket_path :: "string \<Rightarrow> string" where
  "observe_socket_path root = ''/tmp/'' @ ''fkst-observe-'' @ layout_hex_hash root @ ''.sock''"

datatype runtime_kind = Worktrees | CodexPermits | Locks | Logs | Marks | Cache

fun dir_name :: "runtime_kind \<Rightarrow> string" where
  "dir_name Worktrees = ''worktrees''"
| "dir_name CodexPermits = ''codex-permits''"
| "dir_name Locks = ''locks''"
| "dir_name Logs = ''logs''"
| "dir_name Marks = ''marks''"
| "dir_name Cache = ''cache''"

definition runtime_dir :: "string \<Rightarrow> runtime_kind \<Rightarrow> string" where
  "runtime_dir root kind = path_join root (dir_name kind)"

definition runtime_key_file :: "string \<Rightarrow> string \<Rightarrow> string \<Rightarrow> string" where
  "runtime_key_file base_dir key leaf = path_push (path_push base_dir key) leaf"

section \<open>The environment\<close>

record start_env =
  st_externs :: externs
  st_checks :: bool
  st_var :: "string \<Rightarrow> string option"
  st_exists :: "string \<Rightarrow> bool"
  st_database :: "string \<Rightarrow> unit + store_db"
  st_is_file :: "string \<Rightarrow> bool"
  st_canonicalize :: "string \<Rightarrow> string option"
  st_home :: "string option"
  st_context :: "config_error + config_context"
  st_files :: "string \<Rightarrow> root_contents"
  st_catalog :: bool
  st_shims :: bool
  st_observe_bound :: bool
  st_now_ms :: u64
  st_now :: nat
  st_publish :: publish_env
  st_scan_text :: "scan_error \<Rightarrow> string"
  st_schema_text :: "schema_error \<Rightarrow> string"
  st_store_text :: "store_error \<Rightarrow> string"

datatype start_error =
    ScanFailed scan_error
  | ValidationFailed schema_error
  | CatalogFailed
  | StartSetting config_error
  | StartRatePools rate_pool_error
  | ShimsFailed
  | ObserveServerFailed
  | LayoutInvalid layout_error
  | DatabaseUnavailable string
  | StoreOpenFailed store_error
  | BadDuration duration_error
  | ConsumesUndeclared string string
  | NoConsumedQueue string
  | MailboxPanic string
  | CronFailed string duration_error

definition SUBSCRIBER_ABSENCE_SWEEP_BATCH :: nat where
  "SUBSCRIBER_ABSENCE_SWEEP_BATCH = 1024"

section \<open>The store of a configuration\<close>

definition open_database :: "start_env \<Rightarrow> string \<Rightarrow> start_error + store_db" where
  "open_database E path =
     (case st_database E path of
        Inl _ \<Rightarrow> Inl (DatabaseUnavailable path)
      | Inr db0 \<Rightarrow> (case open_store (st_externs E) db0 of Inl e \<Rightarrow> Inl (StoreOpenFailed e) | Inr db \<Rightarrow> Inr db))"

definition optional_existing_durable_layout :: "start_env \<Rightarrow> start_error + string option" where
  "optional_existing_durable_layout E =
     (case st_var E DURABLE_ROOT_ENV of
        None \<Rightarrow> Inr None
      | Some root \<Rightarrow>
          if root = [] then Inr None
          else if \<not> st_exists E (path_join root ''delivery.redb'') then Inr None
          else (case durable_layout_new root of Inl e \<Rightarrow> Inl (LayoutInvalid e) | Inr r \<Rightarrow> Inr (Some r)))"

text \<open>The store and the durable root of its observe endpoint.\<close>

definition delivery_store_for_config :: "start_env \<Rightarrow> config \<Rightarrow> start_error + (store_db \<times> string) option" where
  "delivery_store_for_config E cfg =
     (if \<not> has_reliable_subscriptions cfg
      then rbind (optional_existing_durable_layout E) (\<lambda>found.
             case found of
               None \<Rightarrow> Inr None
             | Some root \<Rightarrow> rbind (open_database E (delivery_db_path root)) (\<lambda>db. Inr (Some (db, root))))
      else (case durable_layout_from_env (st_var E) of
              Inl e \<Rightarrow> Inl (LayoutInvalid e)
            | Inr root \<Rightarrow> rbind (open_database E (delivery_db_path root)) (\<lambda>db. Inr (Some (db, root)))))"

text \<open>The fact that a graph was rejected goes through a router of its own, over the store if it opens.\<close>

definition publish_startup_validation_failure :: "start_env \<Rightarrow> u64 \<Rightarrow> config \<Rightarrow> string \<Rightarrow> delivery_router" where
  "publish_startup_validation_failure E ts cfg message =
     (let store = (case delivery_store_for_config E cfg of Inr found \<Rightarrow> map_option fst found | Inl _ \<Rightarrow> None)
      in fst (publish_failure_fact (st_publish E) (schema_validation_failure_fact ts message)
           (router_new cfg fanout_new store)))"

section \<open>Rebinding and sweeping\<close>

definition flag :: "bool \<Rightarrow> string" where
  "flag b = (if b then ''true'' else ''false'')"

definition rebind_at_start :: "externs \<Rightarrow> store_db \<Rightarrow> delivery_router \<Rightarrow> delivery_router" where
  "rebind_at_start X db rt =
     (let (db', rebound) = rebind_deliveries_to_current_subscribers X (single_reliable_subscribers_by_queue rt) db
      in foldl (\<lambda>rt r. router_journal ''delivery_rebound''
             [(''queue'', rb_queue r), (''delivery_id'', rb_delivery_id r), (''old_dept'', old_dept r),
              (''new_dept'', new_dept r), (''leased'', flag (rb_leased r))] rt)
           (rt\<lparr>rt_store := Some db'\<rparr>) rebound)"

definition report_absence_mark :: "string \<Rightarrow> string \<Rightarrow> delivery_router \<Rightarrow> subscriber_absent_mark \<Rightarrow> delivery_router" where
  "report_absence_mark event trigger rt m =
     router_journal event
       [(''queue'', sm_queue m), (''dept'', sm_dept m), (''delivery_id'', sm_delivery_id m),
        (''absent_since_ms'', dec (unat (absent_since_ms m))), (''trigger'', trigger)] rt"

definition report_subscriber_absence_sweep :: "subscriber_absent_sweep \<Rightarrow> string \<Rightarrow> delivery_router \<Rightarrow> delivery_router" where
  "report_subscriber_absence_sweep sweep trigger rt =
     foldl (\<lambda>rt d. router_journal ''dead_lettered''
         [(''dept'', dr_dept d), (''delivery_id'', dr_delivery_id d), (''reason'', ''subscriber-absent''),
          (''trigger'', trigger)] rt)
       (foldl (report_absence_mark ''subscriber_absent_cleared'' trigger)
         (foldl (report_absence_mark ''subscriber_absent_marked'' trigger) rt (marked_absent sweep))
         (cleared_absent sweep))
       (dead_lettered sweep)"

text \<open>A failed sweep is journalled and changes nothing.\<close>

definition sweep_absence ::
    "externs \<Rightarrow> (store_error \<Rightarrow> string) \<Rightarrow> u64 \<Rightarrow> duration \<Rightarrow> string \<Rightarrow> delivery_router \<Rightarrow> delivery_router" where
  "sweep_absence X text now_ms budget trigger rt =
     (case rt_store rt of
        None \<Rightarrow> rt
      | Some db \<Rightarrow>
          (case sweep_subscriber_absence X (set (reliable_subscriber_queues rt)) now_ms budget
                  SUBSCRIBER_ABSENCE_SWEEP_BATCH db of
             Inr (db', sweep) \<Rightarrow> report_subscriber_absence_sweep sweep trigger (rt\<lparr>rt_store := Some db'\<rparr>)
           | Inl e \<Rightarrow> router_journal ''subscriber_absence_sweep_failed'' [(''trigger'', trigger), (''reason'', text e)] rt))"

section \<open>Consumers and raisers\<close>

definition department_capacity :: "config \<Rightarrow> string \<Rightarrow> department_decl \<Rightarrow> start_error + nat" where
  "department_capacity cfg name d =
     rbind (fold_result (\<lambda>caps q.
              case t_get (cfg_queue cfg) q of
                None \<Rightarrow> Inl (ConsumesUndeclared name q)
              | Some qd \<Rightarrow> Inr (caps @ [capacity qd])) [] (consumes d)) (\<lambda>caps.
       if caps = [] then Inl (NoConsumedQueue name) else Inr (foldl max 0 caps))"

definition subscribe_ephemeral :: "nat \<Rightarrow> delivery_router \<Rightarrow> string \<Rightarrow> start_error + delivery_router" where
  "subscribe_ephemeral q_cap rt q =
     (case fanout_subscribe q q_cap (rt_fanout rt) of
        None \<Rightarrow> Inl (MailboxPanic q)
      | Some (m, _) \<Rightarrow> Inr (rt\<lparr>rt_fanout := m\<rparr>))"

text \<open>A started consumer is its name, its declaration and the capacity of its channels; its task begins with
  \<open>consumer_start\<close>.\<close>

type_synonym started_consumer = "string \<times> department_decl \<times> nat"

definition start_consumer ::
    "config \<Rightarrow> delivery_router \<times> started_consumer list \<Rightarrow> string \<times> department_decl \<Rightarrow>
     start_error + delivery_router \<times> started_consumer list" where
  "start_consumer cfg st row =
     (case (st, row) of ((rt, cs), (name, d)) \<Rightarrow>
      rbind (department_capacity cfg name d) (\<lambda>q_cap.
      rbind (fold_result (subscribe_ephemeral q_cap) rt (ephemeral_queues d)) (\<lambda>rt'.
        Inr (rt', cs @ [(name, d, q_cap)]))))"

text \<open>A raiser starts with the interval and the first time to fire, or with its pattern as declared: making the
  pattern absolute asks the file system and cannot fail.\<close>

datatype started_raiser = CronStarted string duration nat string | WatchStarted string string string

definition start_raiser ::
    "bool \<Rightarrow> nat \<Rightarrow> started_raiser list \<Rightarrow> string \<times> raiser_decl \<Rightarrow> start_error + started_raiser list" where
  "start_raiser checks now rs row =
     (case row of (name, r) \<Rightarrow>
      case r of
        CronRaiser interval q \<Rightarrow>
          (case cron_start checks name interval now of
             Inl e \<Rightarrow> Inl (CronFailed name e)
           | Inr (every, first) \<Rightarrow> Inr (rs @ [CronStarted name every first q]))
      | FileWatchRaiser glob q \<Rightarrow> Inr (rs @ [WatchStarted name glob q]))"

section \<open>Starting\<close>

record start_settings =
  ss_max_in_flight :: nat
  ss_admission_burst :: nat
  ss_lock_busy_backoff :: retry_policy
  ss_absent_budget :: duration

definition setting_duration :: "start_env \<Rightarrow> config_context \<Rightarrow> config_key \<Rightarrow> start_error + duration" where
  "setting_duration E ctx key =
     (case resolved_positive_duration_string ctx key of
        Inl e \<Rightarrow> Inl (StartSetting e)
      | Inr text \<Rightarrow> (case parse_duration (st_checks E) text of Inl e \<Rightarrow> Inl (BadDuration e) | Inr d \<Rightarrow> Inr d))"

definition setting_usize :: "config_context \<Rightarrow> config_key \<Rightarrow> start_error + nat" where
  "setting_usize ctx key = (case resolved_positive_usize ctx key of Inl e \<Rightarrow> Inl (StartSetting e) | Inr n \<Rightarrow> Inr n)"

definition read_settings :: "start_env \<Rightarrow> config_context \<Rightarrow> start_error + start_settings" where
  "read_settings E ctx =
     rbind (setting_usize ctx MaxInFlightPerDept) (\<lambda>in_flight.
     rbind (setting_usize ctx DurableAdmissionBurstPerDept) (\<lambda>burst.
     rbind (setting_usize ctx RetryDefaultMaxAttempts) (\<lambda>attempts.
     rbind (setting_duration E ctx RetryDefaultBase) (\<lambda>b.
     rbind (setting_duration E ctx RetryDefaultCap) (\<lambda>c.
     rbind (setting_duration E ctx SubscriberAbsentDeliveryBudget) (\<lambda>budget.
       Inr \<lparr>ss_max_in_flight = in_flight, ss_admission_burst = burst,
            ss_lock_busy_backoff = \<lparr>max_attempts = of_nat attempts, base = b, cap = c\<rparr>, ss_absent_budget = budget\<rparr>))))))"

record runtime =
  rn_router :: delivery_router
  rn_settings :: start_settings
  rn_consumers :: "started_consumer list"
  rn_raisers :: "started_raiser list"

definition check_rate_pools :: "start_env \<Rightarrow> config_context \<Rightarrow> start_error + unit" where
  "check_rate_pools E ctx =
     (case from_config (st_canonicalize E) (st_home E) ctx of
        Inl e \<Rightarrow> Inl (StartRatePools e)
      | Inr pools \<Rightarrow> if rpr_pools pools \<noteq> t_empty \<and> \<not> st_shims E then Inl ShimsFailed else Inr ())"

text \<open>The part after the graph was accepted.\<close>

definition start_runtime ::
    "start_env \<Rightarrow> (string \<times> (string \<times> string) list) list \<Rightarrow> config \<Rightarrow> start_error + runtime" where
  "start_runtime E journal cfg =
     (if \<not> st_catalog E then Inl CatalogFailed
      else rbind (case st_context E of Inl e \<Rightarrow> Inl (StartSetting e) | Inr ctx \<Rightarrow> Inr ctx) (\<lambda>ctx.
      rbind (check_rate_pools E ctx) (\<lambda>_.
      rbind (delivery_store_for_config E cfg) (\<lambda>found.
      let rt0 = (router_new cfg fanout_new (map_option fst found))\<lparr>rt_journal := journal\<rparr>;
          rt1 = (case found of None \<Rightarrow> rt0 | Some (db, _) \<Rightarrow> rebind_at_start (st_externs E) db rt0)
      in rbind (read_settings E ctx) (\<lambda>settings.
         let rt2 = sweep_absence (st_externs E) (st_store_text E) (st_now_ms E) (ss_absent_budget settings) ''startup'' rt1
         in if rt_store rt1 \<noteq> None \<and> \<not> st_observe_bound E then Inl ObserveServerFailed
            else rbind (fold_result (start_consumer cfg) (rt2, []) (t_iter (cfg_department cfg))) (\<lambda>(rt3, consumers).
            rbind (fold_result (start_raiser (st_checks E) (st_now E)) [] (t_iter (cfg_raiser cfg))) (\<lambda>raisers.
              Inr \<lparr>rn_router = rt3, rn_settings = settings, rn_consumers = consumers, rn_raisers = raisers\<rparr>)))))))"

definition startup_event :: "start_env \<Rightarrow> package_roots \<Rightarrow> string \<Rightarrow> string \<times> (string \<times> string) list" where
  "startup_event E roots framework_bin =
     (''startup'',
      [(''host_root'', pr_host_root roots), (''package_roots'', join '';'' (pr_package_roots roots)),
       (''framework_bin'', framework_bin),
       (''runtime_root'', case st_var E ''FKST_RUNTIME_ROOT'' of Some r \<Rightarrow> r | None \<Rightarrow> ''unset''),
       (''durable_root_set'', flag (st_var E DURABLE_ROOT_ENV \<noteq> None)),
       (''package_roots_env_set'', flag (st_var E PACKAGE_ROOTS_ENV \<noteq> None)),
       (''package_root_env_set'', flag (st_var E PACKAGE_ROOT_ENV \<noteq> None))])"

text \<open>The outcome of a start: the events written before the router exists, and what runs, or the error. A
  rejected graph also leaves the router that carried its failure fact.\<close>

definition supervise_start ::
    "start_env \<Rightarrow> u64 \<Rightarrow> package_roots \<Rightarrow> string \<Rightarrow>
     (string \<times> (string \<times> string) list) list \<times> delivery_router option \<times> (start_error + runtime)" where
  "supervise_start E ts roots framework_bin =
     (let journal = [startup_event E roots framework_bin] in
      case load_roots (st_canonicalize E) (st_home E) (st_context E) (st_files E) roots of
        Inl e \<Rightarrow> (journal @ [(''startup_failed'', [(''reason'', ''graph_scan:'' @ st_scan_text E e)])], None, Inl (ScanFailed e))
      | Inr cfg \<Rightarrow>
          (case validate (st_is_file E) (pr_host_root roots) cfg of
             Inl e \<Rightarrow>
               (journal @ [(''startup_failed'', [(''reason'', ''schema_validation:'' @ st_schema_text E e)])],
                Some (publish_startup_validation_failure E ts cfg (st_schema_text E e)), Inl (ValidationFailed e))
           | Inr _ \<Rightarrow> (journal, None, start_runtime E journal cfg)))"

end
