(* ===== verification/Supervisor_Theorems.thy ===== *)
theory Supervisor_Theorems
  imports Supervisor_Start Graph_Theorems Consumer_Theorems
begin

text \<open>
  Starting the supervisor: over a database of any supported schema it leaves a store in a reachable state
  in which every delivery of a queue with one reliable subscriber belongs to that subscriber, whatever
  department it was stored for, and one consumer per department with room in its channels. On a graph
  that was scanned and accepted, the only thing that can keep a consumer from starting is that its
  department consumes nothing.
\<close>

section \<open>Rebinding\<close>

lemma rebind_fold_live:
  assumes "distinct (map fst cs)"
  shows "live (foldl (rebind_one X) db cs) j =
    (case map_of cs j of Some (r, nd) \<Rightarrow> Some (rebound_record r nd) | None \<Rightarrow> live db j)"
  using assms
proof (induction cs arbitrary: db)
  case (Cons c cs)
  obtain i r nd where c: "c = (i, r, nd)" by (cases c)
  have "map_of cs i = None" using Cons.prems c by (simp add: map_of_eq_None_iff)
  then show ?case using Cons c by (auto simp: rebind_one_live(1) split: option.splits)
qed simp

lemma rebound_fields [simp]: "queue (rebound_record r nd) = queue r" "dept (rebound_record r nd) = nd"
  by (cases "lease_until_ms r"; simp add: rebound_record_def)+

lemma rebind_candidate_complete:
  assumes "t_ok (delivery_by_id db)" and "live db i = Some r" and "t_get m (queue r) = Some nd" and "dept r \<noteq> nd"
  shows "(i, r, nd) \<in> set (rebind_candidates m db)"
proof -
  have "(i, Blob r) \<in> set (t_iter (delivery_by_id db))"
    using assms(1,2) by (auto simp: tab.entries_get decoded_def bind_eq_Some_conv)
  then show ?thesis using assms(3,4) by (force simp: rebind_candidates_def List.map_filter_def)
qed

lemma rebind_claims:
  assumes inv: "store_inv b64 db" and run: "rebind_deliveries_to_current_subscribers X m db = (db', rb)"
    and r: "live db' i = Some r" and d: "t_get m (queue r) = Some d"
  shows "dept r = d"
proof -
  have ok: "t_ok (delivery_by_id db)" using store_invD(1) [OF inv] by (simp add: tables_ok_def)
  have "m \<noteq> []" using d by (auto simp: t_get_def)
  then have db': "db' = foldl (rebind_one X) db (rebind_candidates m db)"
    using run by (auto simp: rebind_deliveries_to_current_subscribers_def Let_def split: if_splits)
  note dist = rebind_candidates_distinct [OF ok, of m]
  show ?thesis
  proof (cases "map_of (rebind_candidates m db) i")
    case None
    then have "live db i = Some r" using r db' rebind_fold_live [OF dist] by simp
    moreover have "(i, r, d) \<notin> set (rebind_candidates m db)" using None by (force simp: map_of_eq_None_iff)
    ultimately show ?thesis using rebind_candidate_complete [OF ok] d by blast
  next
    case (Some c)
    obtain q nd where c: "c = (q, nd)" by (cases c)
    have "(i, q, nd) \<in> set (rebind_candidates m db)" using Some c map_of_SomeD by fast
    then have "t_get m (queue q) = Some nd" using rebind_candidates_rows(2) ok by blast
    moreover have "r = rebound_record q nd" using r db' rebind_fold_live [OF dist] Some c by simp
    ultimately show ?thesis using d by simp
  qed
qed

section \<open>Sweeping\<close>

definition owners_kept :: "store_db \<Rightarrow> store_db \<Rightarrow> bool" where
  "owners_kept db db' \<longleftrightarrow> (\<forall>i r'. live db' i = Some r' \<longrightarrow> (\<exists>r. live db i = Some r \<and> queue r = queue r' \<and> dept r = dept r'))"

lemma owners_kept_refl: "owners_kept db db"
  by (simp add: owners_kept_def)

lemma owners_kept_trans: "owners_kept a b \<Longrightarrow> owners_kept b c \<Longrightarrow> owners_kept a c"
  unfolding owners_kept_def by metis

lemma sweep_one_owners:
  assumes "store_inv (ext_b64 X) db" and "sweep_one X queues now_ms budget_ms (db, sw) i = Inr (db', sw')"
  shows "owners_kept db db'"
  using assms(2)
proof (cases rule: sweep_one_cases)
  case (buried r since d)
  then show ?thesis using sweep_dead_letter_rows(1) [OF buried(5) assms(1)] by (simp add: owners_kept_def)
qed (simp_all add: owners_kept_def put_delivery_def)

lemma sweep_owners:
  assumes seg: "segment_encoding (ext_b64 X)" and inv: "store_inv (ext_b64 X) db"
    and run: "sweep_subscriber_absence X queues now_ms budget limit db = Inr (db', sw)"
  shows "owners_kept db db'"
  using run
proof (cases rule: sweep_cases)
  case (swept db1 n)
  let ?P = "\<lambda>s. store_inv (ext_b64 X) (fst s) \<and> owners_kept db (fst s)"
  have P: "?P (db1, sw)" using swept(1)
  proof (rule fold_result_inv)
    show "?P (db, empty_sweep)" using inv owners_kept_refl by simp
    show "?P s'" if "sweep_one X queues now_ms (duration_millis budget) s i = Inr s'" and "?P s" for s i s'
    proof -
      obtain a sa b sb where s: "s = (a, sa)" "s' = (b, sb)" by (cases s, cases s')
      have step: "sweep_one X queues now_ms (duration_millis budget) (a, sa) i = Inr (b, sb)" and a: "store_inv (ext_b64 X) a"
        using that s by simp_all
      show ?thesis
        using sweep_one_inv [OF seg a step] owners_kept_trans [OF _ sweep_one_owners [OF a step]] that(2) s by simp
    qed
  qed
  then have "store_inv (ext_b64 X) db1" by simp
  from compact_inv(2) [OF seg this swept(2)] have "delivery_by_id db' = delivery_by_id db1"
    by (simp add: compacted_to_def live_side_same_def)
  then show ?thesis using P by (simp add: owners_kept_def)
qed (simp add: owners_kept_refl)

section \<open>The router during the start\<close>

definition same_but_journal :: "delivery_router \<Rightarrow> delivery_router \<Rightarrow> bool" where
  "same_but_journal a b \<longleftrightarrow> rt_store a = rt_store b \<and> rt_subscriptions a = rt_subscriptions b"

lemma same_but_journal_trans: "same_but_journal a b \<Longrightarrow> same_but_journal b c \<Longrightarrow> same_but_journal a c"
  by (simp add: same_but_journal_def)

lemma journal_foldl:
  assumes step: "\<And>rt x. same_but_journal rt (f rt x)"
  shows "same_but_journal rt (foldl f rt xs)"
proof (induction xs arbitrary: rt)
  case (Cons x xs)
  show ?case using same_but_journal_trans [OF step Cons.IH] by simp
qed (simp add: same_but_journal_def)

lemma router_journal_same: "same_but_journal rt (router_journal ev fs rt)"
  by (simp add: same_but_journal_def router_journal_def)

lemma rebind_at_start_fields:
  "rt_subscriptions (rebind_at_start X db rt) = rt_subscriptions rt"
  "rt_store (rebind_at_start X db rt) =
     Some (fst (rebind_deliveries_to_current_subscribers X (single_reliable_subscribers_by_queue rt) db))"
proof -
  obtain db' rb where run: "rebind_deliveries_to_current_subscribers X (single_reliable_subscribers_by_queue rt) db = (db', rb)"
    by fastforce
  let ?f = "\<lambda>rt r. router_journal ''delivery_rebound''
             [(''queue'', rb_queue r), (''delivery_id'', rb_delivery_id r), (''old_dept'', old_dept r),
              (''new_dept'', new_dept r), (''leased'', flag (rb_leased r))] rt"
  have "same_but_journal (rt\<lparr>rt_store := Some db'\<rparr>) (foldl ?f (rt\<lparr>rt_store := Some db'\<rparr>) rb)"
    by (rule journal_foldl [of ?f]) (rule router_journal_same)
  then show "rt_subscriptions (rebind_at_start X db rt) = rt_subscriptions rt"
    "rt_store (rebind_at_start X db rt) =
     Some (fst (rebind_deliveries_to_current_subscribers X (single_reliable_subscribers_by_queue rt) db))"
    using run by (simp_all add: rebind_at_start_def same_but_journal_def)
qed

lemma report_sweep_same: "same_but_journal rt (report_subscriber_absence_sweep sweep trigger rt)"
proof -
  have marks: "same_but_journal rt (foldl (report_absence_mark ev trigger) rt ms)" for ev rt ms
    by (rule journal_foldl) (simp add: report_absence_mark_def router_journal_same)
  have deads: "same_but_journal rt (foldl (\<lambda>rt d. router_journal ''dead_lettered''
         [(''dept'', dr_dept d), (''delivery_id'', dr_delivery_id d), (''reason'', ''subscriber-absent''),
          (''trigger'', trigger)] rt) rt ds)" for rt ds
    by (rule journal_foldl) (rule router_journal_same)
  show ?thesis
    unfolding report_subscriber_absence_sweep_def
    by (rule same_but_journal_trans [OF same_but_journal_trans [OF marks marks] deads])
qed

lemma sweep_absence_fields:
  "rt_subscriptions (sweep_absence X text now_ms budget trigger rt) = rt_subscriptions rt"
  "rt_store rt = None \<Longrightarrow> sweep_absence X text now_ms budget trigger rt = rt"
  "rt_store rt = Some db \<Longrightarrow> rt_store (sweep_absence X text now_ms budget trigger rt) =
     (case sweep_subscriber_absence X (set (reliable_subscriber_queues rt)) now_ms budget SUBSCRIBER_ABSENCE_SWEEP_BATCH db of
        Inr (db', _) \<Rightarrow> Some db' | Inl _ \<Rightarrow> Some db)"
  using report_sweep_same
  by (auto simp: sweep_absence_def same_but_journal_def router_journal_def split: option.splits sum.splits)

lemma subscribe_same: "subscribe_ephemeral q_cap rt q = Inr rt' \<Longrightarrow> same_but_journal rt rt'"
  by (auto simp: subscribe_ephemeral_def same_but_journal_def split: option.splits)

lemma start_consumer_same:
  assumes "start_consumer cfg (rt, cs) row = Inr (rt', cs')"
  shows "same_but_journal rt rt'"
proof -
  obtain name d q_cap where "fold_result (subscribe_ephemeral q_cap) rt (ephemeral_queues d) = Inr rt'"
    using assms by (auto simp: start_consumer_def split: prod.splits)
  then show ?thesis
    by (rule fold_result_inv) (auto simp: same_but_journal_def dest: subscribe_same [unfolded same_but_journal_def])
qed

lemma start_consumers_same:
  assumes "fold_result (start_consumer cfg) (rt, []) rows = Inr (rt', cs)"
  shows "same_but_journal rt rt'"
proof -
  have "same_but_journal rt (fst (rt', cs))"
    using assms
  proof (rule fold_result_inv [where P = "\<lambda>s. same_but_journal rt (fst s)"])
    show "same_but_journal rt (fst s')" if "start_consumer cfg s x = Inr s'" "same_but_journal rt (fst s)" for s x s'
      using that start_consumer_same [of cfg "fst s" "snd s" x "fst s'" "snd s'"] by (simp add: same_but_journal_def)
  qed (simp add: same_but_journal_def)
  then show ?thesis by simp
qed

section \<open>Consumers\<close>

lemma capacities_of:
  "fold_result (\<lambda>caps q. case t_get t q of None \<Rightarrow> Inl (ConsumesUndeclared name q) | Some qd \<Rightarrow> Inr (caps @ [capacity qd])) acc qs =
     Inr caps \<Longrightarrow> length caps = length acc + length qs \<and> set caps \<subseteq> set acc \<union> {capacity qd |qd q. t_get t q = Some qd}"
  by (induction qs arbitrary: acc) (fastforce split: option.splits)+

lemma capacities_total:
  "(\<And>q. q \<in> set qs \<Longrightarrow> t_get t q \<noteq> None) \<Longrightarrow>
   \<exists>caps. fold_result (\<lambda>caps q. case t_get t q of None \<Rightarrow> Inl (ConsumesUndeclared name q) | Some qd \<Rightarrow> Inr (caps @ [capacity qd])) acc qs =
     Inr caps"
proof (induction qs arbitrary: acc)
  case (Cons q qs)
  obtain qd where "t_get t q = Some qd" using Cons.prems [of q] by auto
  then show ?case using Cons.IH [of "acc @ [capacity qd]"] Cons.prems by simp
qed simp

lemma foldl_max_ge: "x \<in> set xs \<or> x = a \<Longrightarrow> x \<le> foldl max a (xs :: nat list)"
proof (induction xs arbitrary: a x)
  case (Cons y ys)
  have "max a y \<le> foldl max (max a y) ys" by (rule Cons.IH) simp
  then show ?case using Cons by auto
qed simp

definition queues_bounded :: "config \<Rightarrow> bool" where
  "queues_bounded cfg \<longleftrightarrow> (\<forall>q qd. t_get (cfg_queue cfg) q = Some qd \<longrightarrow> 0 < capacity qd)"

lemma department_capacity_positive:
  assumes "department_capacity cfg name d = Inr n" and "queues_bounded cfg"
  shows "0 < n"
proof -
  obtain caps where caps: "fold_result (\<lambda>caps q. case t_get (cfg_queue cfg) q of None \<Rightarrow> Inl (ConsumesUndeclared name q)
      | Some qd \<Rightarrow> Inr (caps @ [capacity qd])) [] (consumes d) = Inr caps" "caps \<noteq> []" "n = foldl max 0 caps"
    using assms(1) by (auto simp: department_capacity_def split: if_splits)
  obtain c cs where c: "caps = c # cs" using caps(2) by (cases caps) auto
  then have "0 < c" using capacities_of [OF caps(1)] assms(2) by (auto simp: queues_bounded_def)
  moreover have "c \<le> n" using caps(3) c foldl_max_ge [of c caps 0] by simp
  ultimately show ?thesis by simp
qed

lemma start_consumer_row:
  "start_consumer cfg (rt, cs) (name, d) = Inr (rt', cs') \<Longrightarrow> \<exists>c. cs' = cs @ [(name, d, c)] \<and> department_capacity cfg name d = Inr c"
  by (auto simp: start_consumer_def)

lemma start_consumers_rows:
  assumes "fold_result (start_consumer cfg) (rt, cs) rows = Inr (rt', cs')" and "queues_bounded cfg"
  shows "map (\<lambda>(n, d, _). (n, d)) cs' = map (\<lambda>(n, d, _). (n, d)) cs @ rows \<and>
    (list_all (\<lambda>(_, _, c). 0 < c) cs \<longrightarrow> list_all (\<lambda>(_, _, c). 0 < c) cs')"
  using assms(1)
proof (induction rows arbitrary: rt cs)
  case (Cons row rows)
  obtain name d where row: "row = (name, d)" by (cases row)
  obtain rt1 cs1 where one: "start_consumer cfg (rt, cs) (name, d) = Inr (rt1, cs1)"
    and rest: "fold_result (start_consumer cfg) (rt1, cs1) rows = Inr (rt', cs')"
    using Cons.prems row by auto
  obtain c where c: "cs1 = cs @ [(name, d, c)]" "department_capacity cfg name d = Inr c"
    using start_consumer_row [OF one] by blast
  then show ?case using Cons.IH [OF rest] department_capacity_positive [OF c(2) assms(2)] row by simp
qed simp

lemma subscribe_total: "0 < q_cap \<Longrightarrow> \<exists>rt'. fold_result (subscribe_ephemeral q_cap) rt qs = Inr rt'"
  by (induction qs arbitrary: rt) (auto simp: subscribe_ephemeral_def fanout_subscribe_def Let_def)

lemma start_consumer_error:
  assumes "start_consumer cfg st (name, d) = Inl e" and "queues_bounded cfg"
    and "\<And>q. q \<in> set (consumes d) \<Longrightarrow> t_get (cfg_queue cfg) q \<noteq> None"
  shows "e = NoConsumedQueue name \<and> consumes d = []"
proof -
  obtain rt cs where st: "st = (rt, cs)" by (cases st)
  show ?thesis
  proof (cases "department_capacity cfg name d")
    case (Inr n)
    then show ?thesis
      using assms(1) st subscribe_total [OF department_capacity_positive [OF Inr assms(2)], of rt "ephemeral_queues d"]
      by (auto simp: start_consumer_def)
  next
    case (Inl e')
    obtain caps where caps: "fold_result (\<lambda>caps q. case t_get (cfg_queue cfg) q of None \<Rightarrow> Inl (ConsumesUndeclared name q)
      | Some qd \<Rightarrow> Inr (caps @ [capacity qd])) [] (consumes d) = Inr caps"
      using capacities_total [OF assms(3)] by blast
    then have "caps = [] \<and> e' = NoConsumedQueue name" using Inl by (simp add: department_capacity_def split: if_splits)
    then show ?thesis using Inl assms(1) st capacities_of [OF caps] by (simp add: start_consumer_def)
  qed
qed

lemma scanned_queues_bounded:
  assumes "load_roots canonicalize home context files roots = Inr cfg"
  shows "queues_bounded cfg" and "t_ok (cfg_department cfg)"
    and "t_get (cfg_department cfg) n = Some d \<Longrightarrow> q \<in> set (consumes d) \<Longrightarrow> t_get (cfg_queue cfg) q \<noteq> None"
proof -
  obtain st defaults fan where parts: "scan_ok st" "load_defaults canonicalize home context = Inr defaults"
    "validate_cross_package_produces st = Inr ()" "resolve_department_fanout st = Inr fan"
    and cfg: "cfg = \<lparr>cfg_queue = foldl (\<lambda>t q. t_insert q \<lparr>capacity = queue_capacity defaults, fanout = (q \<in> set fan)\<rparr> t) t_empty
              (referenced_queues st), cfg_raiser = sc_raisers st, cfg_department = sc_departments st,
            cfg_limits = \<lparr>global_codex_processes = codex_permit_slots defaults\<rparr>\<rparr>"
    using load_roots_parts [OF assms] .
  show "queues_bounded cfg"
    using load_defaults_ok [OF parts(2)] by (auto simp: queues_bounded_def cfg foldl_insert_get split: if_splits)
  show "t_ok (cfg_department cfg)" using parts(1) by (simp add: cfg scan_ok_def)
  show "t_get (cfg_queue cfg) q \<noteq> None" if "t_get (cfg_department cfg) n = Some d" "q \<in> set (consumes d)"
    using that referenced_iff [OF parts(1), of q] by (auto simp: cfg foldl_insert_get)
qed

section \<open>The whole start\<close>

text \<open>What a database file may hold: rows that decode under a supported schema, and the store's own invariant
  where the schema is the current one.\<close>

definition supported_databases :: "start_env \<Rightarrow> bool" where
  "supported_databases E \<longleftrightarrow> (\<forall>path db0. st_database E path = Inr db0 \<longrightarrow> migratable db0 \<and>
     (t_get (meta db0) ''schema_version'' = Some SCHEMA_VERSION \<longrightarrow> store_inv (ext_b64 (st_externs E)) db0))"

lemma open_database_init:
  assumes "open_database E path = Inr db" and "segment_encoding (ext_b64 (st_externs E))" and "supported_databases E"
  shows "store_init (st_externs E) db"
proof -
  obtain db0 where "st_database E path = Inr db0" "open_store (st_externs E) db0 = Inr db"
    using assms(1) by (auto simp: open_database_def split: sum.splits)
  then show ?thesis using assms(2,3) unfolding store_init_def opened_def supported_databases_def by blast
qed

lemma delivery_store_init:
  assumes "delivery_store_for_config E cfg = Inr (Some (db, root))"
    and "segment_encoding (ext_b64 (st_externs E))" and "supported_databases E"
  shows "store_init (st_externs E) db"
proof -
  obtain path where "open_database E path = Inr db"
    using assms(1) by (auto simp: delivery_store_for_config_def split: if_splits option.splits sum.splits)
  then show ?thesis by (rule open_database_init [OF _ assms(2,3)])
qed

definition owned_by_subscriber :: "delivery_router \<Rightarrow> store_db \<Rightarrow> bool" where
  "owned_by_subscriber rt db \<longleftrightarrow>
     (\<forall>i r d. live db i = Some r \<longrightarrow> t_get (single_reliable_subscribers_by_queue rt) (queue r) = Some d \<longrightarrow> dept r = d)"

lemma owned_kept: "owned_by_subscriber rt db \<Longrightarrow> owners_kept db db' \<Longrightarrow> owned_by_subscriber rt db'"
  unfolding owned_by_subscriber_def owners_kept_def by metis

lemma subscribers_same:
  "rt_subscriptions a = rt_subscriptions b \<Longrightarrow> single_reliable_subscribers_by_queue a = single_reliable_subscribers_by_queue b"
  by (simp add: single_reliable_subscribers_by_queue_def)

lemma rebound_then_swept:
  assumes init: "store_init (st_externs E) db0" and rt1: "rt1 = rebind_at_start (st_externs E) db0 rt0"
    and db: "rt_store (sweep_absence (st_externs E) text now_ms budget trigger rt1) = Some db"
  shows "reach (store_init (st_externs E)) (store_step (st_externs E)) db \<and> owned_by_subscriber rt0 db"
proof -
  let ?X = "st_externs E" and ?m = "single_reliable_subscribers_by_queue rt0"
  obtain db1 rb where rebind: "rebind_deliveries_to_current_subscribers ?X ?m db0 = (db1, rb)" by fastforce
  have reach0: "reach (store_init ?X) (store_step ?X) db0" using init by (rule reach_init)
  have reach1: "reach (store_init ?X) (store_step ?X) db1" by (rule reach_step [OF reach0 step_rebind [OF rebind]])
  have inv: "store_inv (ext_b64 ?X) db0" "store_inv (ext_b64 ?X) db1" "segment_encoding (ext_b64 ?X)"
    using machine.reach_inv [OF reach0] machine.reach_inv [OF reach1] by (simp_all add: machine_inv_def)
  have owned: "owned_by_subscriber rt0 db1"
    using rebind_claims [OF inv(1) rebind] by (auto simp: owned_by_subscriber_def)
  have "rt_store rt1 = Some db1" using rebind by (simp add: rt1 rebind_at_start_fields)
  from sweep_absence_fields(3) [OF this] db
  have "db = db1 \<or> (\<exists>sw. sweep_subscriber_absence ?X (set (reliable_subscriber_queues rt1)) now_ms budget
      SUBSCRIBER_ABSENCE_SWEEP_BATCH db1 = Inr (db, sw))"
    by (auto split: sum.splits)
  then show ?thesis
  proof (elim disjE exE)
    fix sw assume sweep: "sweep_subscriber_absence ?X (set (reliable_subscriber_queues rt1)) now_ms budget
      SUBSCRIBER_ABSENCE_SWEEP_BATCH db1 = Inr (db, sw)"
    show ?thesis
      using reach_step [OF reach1 step_sweep [OF sweep]] owned_kept [OF owned sweep_owners [OF inv(3,2) sweep]] by simp
  qed (simp add: reach1 owned)
qed

text \<open>The runs that start: the accepted graph, the store that was found and the router of every stage.\<close>

lemma start_runtime_cases:
  assumes "start_runtime E journal cfg = Inr rn"
  obtains found rt0 rt1 and settings :: start_settings where
    "delivery_store_for_config E cfg = Inr found"
    "rt0 = (router_new cfg fanout_new (map_option fst found))\<lparr>rt_journal := journal\<rparr>"
    "rt1 = (case found of None \<Rightarrow> rt0 | Some (db, _) \<Rightarrow> rebind_at_start (st_externs E) db rt0)"
    "fold_result (start_consumer cfg)
       (sweep_absence (st_externs E) (st_store_text E) (st_now_ms E) (ss_absent_budget settings) ''startup'' rt1, [])
       (t_iter (cfg_department cfg)) = Inr (rn_router rn, rn_consumers rn)"
proof -
  obtain found settings rt3 consumers raisers where f: "delivery_store_for_config E cfg = Inr found"
    and run: "fold_result (start_consumer cfg)
       (sweep_absence (st_externs E) (st_store_text E) (st_now_ms E) (ss_absent_budget settings) ''startup''
         (case found of None \<Rightarrow> (router_new cfg fanout_new (map_option fst found))\<lparr>rt_journal := journal\<rparr>
          | Some (db, _) \<Rightarrow> rebind_at_start (st_externs E) db ((router_new cfg fanout_new (map_option fst found))\<lparr>rt_journal := journal\<rparr>)), [])
       (t_iter (cfg_department cfg)) = Inr (rt3, consumers)"
    and rn: "rn = \<lparr>rn_router = rt3, rn_settings = settings, rn_consumers = consumers, rn_raisers = raisers\<rparr>"
    using assms by (auto simp: start_runtime_def Let_def split: if_splits)
  show thesis by (rule that [OF f refl refl, of settings]) (use run rn in simp)
qed

lemma start_cases:
  assumes "supervise_start E ts roots bin = (j, rejected, Inr rn)"
  obtains cfg ws where "load_roots (st_canonicalize E) (st_home E) (st_context E) (st_files E) roots = Inr cfg"
    "validate (st_is_file E) (pr_host_root roots) cfg = Inr ws" "start_runtime E j cfg = Inr rn" "rejected = None"
  using assms by (auto simp: supervise_start_def Let_def split: sum.splits)

lemma started_router:
  assumes start: "start_runtime E journal cfg = Inr rn" and store: "rt_store (rn_router rn) = Some db"
    and seg: "segment_encoding (ext_b64 (st_externs E))" and sup: "supported_databases E"
  shows "reach (store_init (st_externs E)) (store_step (st_externs E)) db \<and> owned_by_subscriber (rn_router rn) db"
    and "rt_subscriptions (rn_router rn) = subscriptions cfg"
proof -
  obtain found rt0 rt1 and settings :: start_settings where f: "delivery_store_for_config E cfg = Inr found"
    and rt0: "rt0 = (router_new cfg fanout_new (map_option fst found))\<lparr>rt_journal := journal\<rparr>"
    and rt1: "rt1 = (case found of None \<Rightarrow> rt0 | Some (db, _) \<Rightarrow> rebind_at_start (st_externs E) db rt0)"
    and run: "fold_result (start_consumer cfg)
       (sweep_absence (st_externs E) (st_store_text E) (st_now_ms E) (ss_absent_budget settings) ''startup'' rt1, [])
       (t_iter (cfg_department cfg)) = Inr (rn_router rn, rn_consumers rn)"
    using start by (rule start_runtime_cases)
  let ?rt2 = "sweep_absence (st_externs E) (st_store_text E) (st_now_ms E) (ss_absent_budget settings) ''startup'' rt1"
  have same: "rt_store ?rt2 = rt_store (rn_router rn)" "rt_subscriptions rt1 = rt_subscriptions (rn_router rn)"
    using start_consumers_same [OF run] by (simp_all add: same_but_journal_def sweep_absence_fields(1))
  have sub1: "rt_subscriptions rt1 = rt_subscriptions rt0"
    by (simp add: rt1 rebind_at_start_fields split: option.splits prod.splits)
  then show "rt_subscriptions (rn_router rn) = subscriptions cfg"
    using same(2) by (simp add: rt0 router_new_def)
  obtain db0 root where found: "found = Some (db0, root)"
  proof (cases found)
    case None
    then have "rt_store rt1 = None" by (simp add: rt1 rt0 router_new_def)
    then show ?thesis using same(1) store sweep_absence_fields(2) by fastforce
  qed (use that in \<open>cases found; auto\<close>)
  have "rt1 = rebind_at_start (st_externs E) db0 rt0" by (simp add: rt1 found)
  from rebound_then_swept [OF delivery_store_init [OF f [unfolded found] seg sup] this] same(1) store
  have "reach (store_init (st_externs E)) (store_step (st_externs E)) db \<and> owned_by_subscriber rt0 db" by simp
  then show "reach (store_init (st_externs E)) (store_step (st_externs E)) db \<and> owned_by_subscriber (rn_router rn) db"
    using subscribers_same [of rt0 "rn_router rn"] same(2) sub1 by (simp add: owned_by_subscriber_def)
qed

text \<open>On an accepted graph, whatever keeps the consumers from starting is a department that consumes nothing.\<close>

theorem accepted_graph_starts_consumers:
  assumes "load_roots canonicalize home context files roots = Inr cfg"
    and "fold_result (start_consumer cfg) (rt, []) (t_iter (cfg_department cfg)) = Inl e"
  shows "\<exists>name d. t_get (cfg_department cfg) name = Some d \<and> consumes d = [] \<and> e = NoConsumedQueue name"
proof -
  have all: "\<exists>name d. (name, d) \<in> set rows \<and> consumes d = [] \<and> e = NoConsumedQueue name"
    if "fold_result (start_consumer cfg) st rows = Inl e" "set rows \<subseteq> set (t_iter (cfg_department cfg))" for st rows
    using that
  proof (induction rows arbitrary: st)
    case (Cons row rows)
    obtain name d where row: "row = (name, d)" by (cases row)
    then have d: "t_get (cfg_department cfg) name = Some d"
      using Cons.prems(2) scanned_queues_bounded(2) [OF assms(1)] by (simp add: tab.entries_get)
    show ?case
    proof (cases "start_consumer cfg st row")
      case (Inl e')
      then have "start_consumer cfg st (name, d) = Inl e" using Cons.prems(1) row by simp
      from start_consumer_error [OF this scanned_queues_bounded(1,3) [OF assms(1)], OF d]
      show ?thesis using row by auto
    next
      case (Inr st')
      then show ?thesis using Cons.IH [of st'] Cons.prems by auto
    qed
  qed simp
  from all [OF assms(2)] scanned_queues_bounded(2) [OF assms(1)] show ?thesis by (auto simp: tab.entries_get)
qed

text \<open>
  C32: a supervisor that starts over a supported database holds a store in a reachable state of the store
  machine; every live delivery of a queue with exactly one reliable subscriber belongs to that subscriber,
  whatever department it was stored for before; and the consumers are the departments of the scanned
  graph, in order, each with room in its channels.
\<close>

theorem start_claims_deliveries:
  assumes "supervise_start E ts roots bin = (j, rejected, Inr rn)" and "rt_store (rn_router rn) = Some db"
    and "segment_encoding (ext_b64 (st_externs E))" and "supported_databases E"
  shows "reach (store_init (st_externs E)) (store_step (st_externs E)) db \<and>
    (\<forall>i r d. live db i = Some r \<longrightarrow> t_get (single_reliable_subscribers_by_queue (rn_router rn)) (queue r) = Some d \<longrightarrow>
       dept r = d) \<and>
    (\<exists>cfg. load_roots (st_canonicalize E) (st_home E) (st_context E) (st_files E) roots = Inr cfg \<and>
      rt_subscriptions (rn_router rn) = subscriptions cfg \<and>
      map (\<lambda>(n, d, _). (n, d)) (rn_consumers rn) = t_iter (cfg_department cfg) \<and>
      list_all (\<lambda>(_, _, c). 0 < c) (rn_consumers rn))"
proof -
  obtain cfg where load: "load_roots (st_canonicalize E) (st_home E) (st_context E) (st_files E) roots = Inr cfg"
    and start: "start_runtime E j cfg = Inr rn"
    using assms(1) by (rule start_cases)
  note router = started_router [OF start assms(2-4)]
  obtain rt where "fold_result (start_consumer cfg) (rt, []) (t_iter (cfg_department cfg)) = Inr (rn_router rn, rn_consumers rn)"
    using start by (rule start_runtime_cases) blast
  from start_consumers_rows [OF this scanned_queues_bounded(1) [OF load]] load router(2)
  show ?thesis using router(1) unfolding owned_by_subscriber_def by auto
qed

text \<open>The example of a start: the graph of the scan, and a store that still holds a delivery for a department
  that no longer exists.\<close>

definition stale_db :: store_db where
  "stale_db = fst (projr (enqueue demo_ext ((demo_record ''d'' True)\<lparr>queue := ''billing.inbox'', dept := ''billing.old''\<rparr>) demo_open))"

definition demo_start :: start_env where
  "demo_start =
     \<lparr>st_externs = demo_ext, st_checks = True, st_var = [DURABLE_ROOT_ENV \<mapsto> ''/d''], st_exists = (\<lambda>_. True),
      st_database = (\<lambda>_. Inr stale_db), st_is_file = (\<lambda>_. True), st_canonicalize = Some, st_home = Some ''/home'',
      st_context = demo_context, st_files = demo_files, st_catalog = True, st_shims = True, st_observe_bound = True,
      st_now_ms = 20, st_now = 7,
      st_publish = \<lparr>env_externs = demo_ext, env_clock = (\<lambda>_. 20), env_json_len = (\<lambda>_. None), env_contended = False\<rparr>,
      st_scan_text = (\<lambda>_. ''scan''), st_schema_text = (\<lambda>_. ''schema''), st_store_text = (\<lambda>_. ''store'')\<rparr>"

lemma stale_run: "\<exists>out. enqueue demo_ext ((demo_record ''d'' True)\<lparr>queue := ''billing.inbox'', dept := ''billing.old''\<rparr>) demo_open = Inr (stale_db, out)"
proof -
  have "\<not> isl (enqueue demo_ext ((demo_record ''d'' True)\<lparr>queue := ''billing.inbox'', dept := ''billing.old''\<rparr>) demo_open)" by code_simp
  then show ?thesis by (cases "enqueue demo_ext ((demo_record ''d'' True)\<lparr>queue := ''billing.inbox'', dept := ''billing.old''\<rparr>) demo_open")
    (auto simp: stale_db_def)
qed

lemma stale_inv: "store_inv (ext_b64 demo_ext) stale_db"
proof -
  have "fresh_record ((demo_record ''d'' True)\<lparr>queue := ''billing.inbox'', dept := ''billing.old''\<rparr>)"
    by (simp add: fresh_record_def demo_record_def id_ok_def max_scalar_def)
  moreover have "store_inv (ext_b64 demo_ext) demo_open"
    using machine.reach_inv [OF demo_open_reach] by (simp add: machine_inv_def)
  ultimately show ?thesis using stale_run enqueue_inv [OF demo_segment(2)] by blast
qed

lemma demo_start_supported: "supported_databases demo_start"
  using stale_inv store_inv_migratable by (auto simp: supported_databases_def demo_start_def)

lemma stale_open: "\<exists>db. open_store demo_ext stale_db = Inr db"
proof -
  have "\<not> isl (open_store demo_ext stale_db)" by code_simp
  then show ?thesis by (cases "open_store demo_ext stale_db") auto
qed

lemma validate_department_retry:
  assumes "validate_department is_file root cfg (n, d\<lparr>retry_of := None\<rparr>) = Inr ()"
    and "\<And>rd. retry_of d = Some rd \<Longrightarrow> validate_retry_decl n rd = Inr ()"
  shows "validate_department is_file root cfg (n, d) = Inr ()"
  using assms by (cases "retry_of d") (auto simp: validate_department_def Let_def rbind_eq_Inr split: if_splits)

lemma demo_validates: "\<exists>ws. validate (\<lambda>_. True) ''/p'' demo_graph = Inr ws"
proof -
  have retry: "validate_retry_decl n (default_retry demo_defaults) = Inr ()" for n
    by (simp add: validate_retry_decl_def demo_defaults_def demo_numbers)
  have "list_all (\<lambda>(n, d). retry_of d = Some (default_retry demo_defaults)) (t_iter (cfg_department demo_graph))" by code_simp
  then have decls: "retry_of d = Some (default_retry demo_defaults)" if "(n, d) \<in> set (t_iter (cfg_department demo_graph))" for n d
    using that by (auto simp: list_all_iff)
  have checked: "list_all (\<lambda>(n, d). validate_department (\<lambda>_. True) ''/p'' demo_graph (n, d\<lparr>retry_of := None\<rparr>) = Inr ()) (t_iter (cfg_department demo_graph))"
    by code_simp
  have "validate_department (\<lambda>_. True) ''/p'' demo_graph (n, d) = Inr ()"
    if "(n, d) \<in> set (t_iter (cfg_department demo_graph))" for n d
  proof (rule validate_department_retry)
    show "validate_department (\<lambda>_. True) ''/p'' demo_graph (n, d\<lparr>retry_of := None\<rparr>) = Inr ()"
      using bspec [OF checked [unfolded list_all_iff] that] by simp
    show "validate_retry_decl n rd = Inr ()" if "retry_of d = Some rd" for rd
      using decls [OF \<open>(n, d) \<in> set (t_iter (cfg_department demo_graph))\<close>] that retry by simp
  qed
  then have "check_each (validate_department (\<lambda>_. True) ''/p'' demo_graph) (t_iter (cfg_department demo_graph)) = Inr ()"
    by (auto simp: check_each_Inr)
  moreover have "global_codex_processes (cfg_limits demo_graph) \<noteq> 0"
    "check_each (\<lambda>(n, q). if capacity q = 0 then Inl (QueueWithoutCapacity n) else Inr ()) (t_iter (cfg_queue demo_graph)) = Inr ()"
    "check_each (\<lambda>(n, r). if \<not> declared demo_graph (raiser_produces r)
                 then Inl (RaiserQueueUndeclared n (raiser_produces r)) else Inr ()) (t_iter (cfg_raiser demo_graph)) = Inr ()"
    "check_each (validate_propagation demo_graph) (t_iter (cfg_department demo_graph)) = Inr ()"
    by code_simp+
  moreover have "\<not> isl (fold_result (validate_queue ClosedWorld demo_graph) [] (sort (map fst (t_iter (cfg_queue demo_graph)))))" by code_simp
  ultimately show ?thesis unfolding validate_def validate_with_scope_def by (auto simp: isl_def) (metis sumE)
qed

lemma demo_settings: "\<exists>s. read_settings demo_start \<lparr>host_root = ''/p'', process_env = t_empty, fkst_env = t_empty\<rparr> = Inr s"
proof -
  let ?ctx = "\<lparr>host_root = ''/p'', process_env = t_empty, fkst_env = t_empty\<rparr> :: config_context"
  have numbers: "parse_nat 18446744073709551616 ''1'' = Some 1" "parse_duration_millis ''168h'' = Some 604800000"
    by (simp_all add: parse_nat_def parse_duration_millis_def is_digit_def digits_value_def u128_max_def sat_mul128_def)
  have entries: "config_entry_of MaxInFlightPerDept = Some (config_row MaxInFlightPerDept ''max_in_flight_per_dept'' ''FKST_MAX_IN_FLIGHT_PER_DEPT'' (Operational ''16'') UsizeValue)"
    "config_entry_of DurableAdmissionBurstPerDept = Some (config_row DurableAdmissionBurstPerDept ''durable_admission_burst_per_dept'' ''FKST_DURABLE_ADMISSION_BURST_PER_DEPT'' (Operational ''1'') UsizeValue)"
    "config_entry_of RetryDefaultMaxAttempts = Some (config_row RetryDefaultMaxAttempts ''retry_default_max_attempts'' ''FKST_RETRY_DEFAULT_MAX_ATTEMPTS'' (Operational ''5'') UsizeValue)"
    "config_entry_of RetryDefaultBase = Some (config_row RetryDefaultBase ''retry_default_base'' ''FKST_RETRY_DEFAULT_BASE'' (Operational ''60s'') DurationStringValue)"
    "config_entry_of RetryDefaultCap = Some (config_row RetryDefaultCap ''retry_default_cap'' ''FKST_RETRY_DEFAULT_CAP'' (Operational ''30m'') DurationStringValue)"
    "config_entry_of SubscriberAbsentDeliveryBudget = Some (config_row SubscriberAbsentDeliveryBudget ''subscriber_absent_delivery_budget'' ''FKST_SUBSCRIBER_ABSENT_DELIVERY_BUDGET'' (Operational ''168h'') DurationStringValue)"
    by code_simp+
  have trims: "trim ''16'' = ''16''" "trim ''1'' = ''1''" "trim ''5'' = ''5''" "trim ''60s'' = ''60s''" "trim ''30m'' = ''30m''"
    "trim ''168h'' = ''168h''" by code_simp+
  have counts: "\<exists>n. setting_usize ?ctx MaxInFlightPerDept = Inr n" "\<exists>n. setting_usize ?ctx DurableAdmissionBurstPerDept = Inr n"
    "\<exists>n. setting_usize ?ctx RetryDefaultMaxAttempts = Inr n"
    by (simp_all add: setting_usize_def resolved_positive_usize_def resolved_with_def resolve_setting_def entries config_row_def
        nonempty_def parse_positive_usize_def trims numbers demo_numbers)
  have texts: "resolved_positive_duration_string ?ctx RetryDefaultBase = Inr ''60s''"
    "resolved_positive_duration_string ?ctx RetryDefaultCap = Inr ''30m''"
    "resolved_positive_duration_string ?ctx SubscriberAbsentDeliveryBudget = Inr ''168h''"
    by code_simp+
  have times: "\<exists>d. parse_duration True ''60s'' = Inr d" "\<exists>d. parse_duration True ''30m'' = Inr d" "\<exists>d. parse_duration True ''168h'' = Inr d"
    using parse_duration_validated [OF demo_numbers(4)] parse_duration_validated [OF demo_numbers(5)]
      parse_duration_validated [OF numbers(2)] by auto
  then have "\<exists>d. setting_duration demo_start ?ctx RetryDefaultBase = Inr d" "\<exists>d. setting_duration demo_start ?ctx RetryDefaultCap = Inr d"
    "\<exists>d. setting_duration demo_start ?ctx SubscriberAbsentDeliveryBudget = Inr d"
    by (auto simp: setting_duration_def texts demo_start_def)
  with counts show ?thesis by (auto simp: read_settings_def)
qed

lemma demo_store_found: "\<exists>db. delivery_store_for_config demo_start demo_graph = Inr (Some (db, ''/d''))"
proof -
  have reliable: "has_reliable_subscriptions demo_graph" by code_simp
  have root: "durable_layout_from_env (st_var demo_start) = Inr ''/d''"
    by (simp add: demo_start_def durable_layout_from_env_def durable_layout_new_def reject_traversal_def has_parent_dir_def)
  obtain db where "open_store demo_ext stale_db = Inr db" using stale_open by blast
  then have "open_database demo_start path = Inr db" for path by (simp add: open_database_def demo_start_def)
  then show ?thesis by (simp add: delivery_store_for_config_def reliable root)
qed

lemma demo_consumers_start: "\<exists>rt' cs. fold_result (start_consumer demo_graph) (rt, []) (t_iter (cfg_department demo_graph)) = Inr (rt', cs)"
proof (cases "fold_result (start_consumer demo_graph) (rt, []) (t_iter (cfg_department demo_graph))")
  case (Inl e)
  from accepted_graph_starts_consumers [OF demo_graph_run Inl]
  obtain name d where "t_get (cfg_department demo_graph) name = Some d" "consumes d = []" by blast
  then have "(name, d) \<in> set (t_iter (cfg_department demo_graph))"
    using scanned_queues_bounded(2) [OF demo_graph_run] by (simp add: tab.entries_get)
  moreover have "list_all (\<lambda>(_, d). consumes d \<noteq> []) (t_iter (cfg_department demo_graph))" by code_simp
  ultimately show ?thesis using \<open>consumes d = []\<close> unfolding list_all_iff by fast
qed auto

lemma demo_raisers_start: "\<exists>rs. fold_result (start_raiser True now) [] (t_iter (cfg_raiser demo_graph)) = Inr rs"
proof -
  have "t_iter (cfg_raiser demo_graph) = [(''host.clock'', CronRaiser ''5m'' ''host.ticks'')]" by code_simp
  moreover have "parse_duration_millis ''5m'' = Some 300000"
    by (simp add: parse_nat_def parse_duration_millis_def is_digit_def digits_value_def u128_max_def sat_mul128_def)
  then have "parse_duration True ''5m'' = Inr (from_millis 300000)" by (rule parse_duration_validated) simp
  ultimately show ?thesis by (simp add: start_raiser_def cron_start_def)
qed

lemma demo_start_run: "\<exists>j rn. supervise_start demo_start 1 demo_roots ''fkst'' = (j, None, Inr rn) \<and> rt_store (rn_router rn) \<noteq> None"
proof -
  let ?ctx = "\<lparr>host_root = ''/p'', process_env = t_empty, fkst_env = t_empty\<rparr> :: config_context"
  have fields: "st_canonicalize demo_start = Some" "st_home demo_start = Some ''/home''" "st_context demo_start = Inr ?ctx"
    "st_files demo_start = demo_files" "st_catalog demo_start" "st_shims demo_start" "st_observe_bound demo_start" "st_checks demo_start"
    "st_is_file demo_start = (\<lambda>_. True)"
    by (simp_all add: demo_start_def demo_context_def)
  have load: "load_roots Some (Some ''/home'') (Inr ?ctx) demo_files demo_roots = Inr demo_graph"
    using demo_graph_run by (simp add: demo_context_def)
  have host: "pr_host_root demo_roots = ''/p''" by (simp add: demo_roots_def)
  have pools: "\<not> isl (from_config Some (Some ''/home'') ?ctx)" by code_simp
  obtain db where db: "delivery_store_for_config demo_start demo_graph = Inr (Some (db, ''/d''))" using demo_store_found by blast
  obtain s where s: "read_settings demo_start ?ctx = Inr s" using demo_settings by blast
  obtain raisers where raisers: "fold_result (start_raiser True (st_now demo_start)) [] (t_iter (cfg_raiser demo_graph)) = Inr raisers"
    using demo_raisers_start by blast
  let ?j = "[startup_event demo_start demo_roots ''fkst'']"
  define rt0 where "rt0 = (router_new demo_graph fanout_new (Some db))\<lparr>rt_journal := ?j\<rparr>"
  define rt2 where "rt2 = sweep_absence (st_externs demo_start) (st_store_text demo_start) (st_now_ms demo_start)
    (ss_absent_budget s) ''startup'' (rebind_at_start (st_externs demo_start) db rt0)"
  obtain rt3 cs where run: "fold_result (start_consumer demo_graph) (rt2, []) (t_iter (cfg_department demo_graph)) = Inr (rt3, cs)"
    using demo_consumers_start by blast
  have "check_rate_pools demo_start ?ctx = Inr ()"
    using pools by (auto simp: check_rate_pools_def fields split: sum.splits)
  then have "start_runtime demo_start ?j demo_graph = Inr \<lparr>rn_router = rt3, rn_settings = s, rn_consumers = cs, rn_raisers = raisers\<rparr>"
    using run [unfolded rt2_def rt0_def] db s raisers by (simp add: start_runtime_def fields)
  moreover have "rt_store rt2 \<noteq> None"
    using sweep_absence_fields(3) [OF rebind_at_start_fields(2)] by (simp add: rt2_def split: sum.splits)
  then have "rt_store rt3 \<noteq> None" using start_consumers_same [OF run] by (simp add: same_but_journal_def)
  moreover obtain ws where "validate (\<lambda>_. True) ''/p'' demo_graph = Inr ws" using demo_validates by blast
  ultimately show ?thesis by (simp add: supervise_start_def fields host load)
qed

theorem start_claims_deliveries_witness:
  "\<exists>j rn db. supervise_start demo_start 1 demo_roots ''fkst'' = (j, None, Inr rn) \<and> rt_store (rn_router rn) = Some db \<and>
     reach (store_init demo_ext) (store_step demo_ext) db \<and>
     map (\<lambda>(n, d, _). (n, d)) (rn_consumers rn) = t_iter (cfg_department demo_graph)"
proof -
  obtain j rn db where run: "supervise_start demo_start 1 demo_roots ''fkst'' = (j, None, Inr rn)" and db: "rt_store (rn_router rn) = Some db"
    using demo_start_run by blast
  have seg: "segment_encoding (ext_b64 (st_externs demo_start))" using demo_segment by (simp add: demo_start_def)
  have "load_roots (st_canonicalize demo_start) (st_home demo_start) (st_context demo_start) (st_files demo_start) demo_roots = Inr demo_graph"
    using demo_graph_run by (simp add: demo_start_def)
  with start_claims_deliveries [OF run db seg demo_start_supported] run db
  show ?thesis by (auto simp: demo_start_def)
qed

end
