(* ===== verification/Unit_Manifest.thy ===== *)
theory Unit_Manifest
  imports Graph_Scan
begin

text \<open>
  The manifests of units and workspaces (\<open>manifest.rs\<close>, \<open>manifest_exports.rs\<close>, \<open>manifest_workspace.rs\<close>). TOML
  is third-party code: the decoded document is the input, with the strings the code interprets itself
  still raw. The file system is the record \<open>catalog_fs\<close>: what a path names without following links, the
  directories below it as a finite tree, and the answers of \<open>exists\<close>, \<open>is_dir\<close> and \<open>canonicalize\<close>.
\<close>

section \<open>Documents\<close>

datatype package_kind = FlatPackage | ComposedPackage

datatype unit_kind = PackageUnit package_kind | LibraryUnit

datatype persistence_class = Saga | StatelessAdapter | JudgmentPipeline | ComposedJudgmentPipeline

datatype unit_visibility = VisiblePublic | VisibleAllow "string list"

datatype toml_value = TomlString string | TomlTable "(string \<times> toml_value) list" | TomlOther

record library_meta =
  lm_name :: string
  lm_stable_id :: string
  lm_version :: string
  lm_publishable :: bool

record unit_exports =
  ex_public :: "string list"
  ex_exact :: bool

record conformance_manifest =
  cm_pack :: "string option"
  cm_function :: "string option"

record unit_manifest_toml =
  ut_kind :: string
  ut_name :: string
  ut_persistence_class :: "persistence_class option"
  ut_code_root :: string
  ut_lib_deps :: "string list"
  ut_allowed_lib_deps :: "string list option"
  ut_event_deps :: "string list"
  ut_library :: "library_meta option"
  ut_allow :: "string list option"
  ut_exports :: unit_exports
  ut_conformance :: "toml_value option"

record unit_manifest =
  um_kind :: unit_kind
  um_name :: string
  um_persistence_class :: "persistence_class option"
  um_code_root :: string
  um_lib_deps :: "string list"
  um_allowed_lib_deps :: "string list option"
  um_event_deps :: "string list"
  um_library :: "library_meta option"
  um_visibility :: unit_visibility
  um_exports :: unit_exports
  um_conformance :: "conformance_manifest option"

record external_source_decl =
  es_id :: string
  es_git :: string
  es_rev :: "string option"
  es_tag :: "string option"
  es_packages :: "string list"
  es_libraries :: "string list"

record workspace_toml =
  wt_units :: "string list"
  wt_packages :: "string list"
  wt_libraries :: "string list"
  wt_registries :: "string table"
  wt_external_sources :: "external_source_decl list"

record workspace_manifest =
  ws_discovered_units :: "string list"
  ws_registries :: "string table"
  ws_external_sources :: "external_source_decl list"

text \<open>Errors are messages: the text of the source, shortened, and what it names.\<close>

datatype manifest_error = Bail string "string list"

section \<open>The unit manifest\<close>

definition unit_kind_of :: "string \<Rightarrow> manifest_error + unit_kind" where
  "unit_kind_of raw =
     (if raw \<in> {''package'', ''package.flat'', ''package_flat'', ''flat-package''} then Inr (PackageUnit FlatPackage)
      else if raw \<in> {''package.composed'', ''package_composed'', ''composed-package''} then Inr (PackageUnit ComposedPackage)
      else if raw = ''library'' then Inr LibraryUnit
      else Inl (Bail ''unknown unit kind'' [raw]))"

fun unit_kind_text :: "unit_kind \<Rightarrow> string" where
  "unit_kind_text (PackageUnit FlatPackage) = ''package.flat''"
| "unit_kind_text (PackageUnit ComposedPackage) = ''package.composed''"
| "unit_kind_text LibraryUnit = ''library''"

definition visibility_of :: "string list option \<Rightarrow> unit_visibility" where
  "visibility_of raw = (case raw of Some allow \<Rightarrow> VisibleAllow allow | None \<Rightarrow> VisiblePublic)"

definition visibility_wire :: "unit_visibility \<Rightarrow> string list option" where
  "visibility_wire v = (case v of VisiblePublic \<Rightarrow> None | VisibleAllow allow \<Rightarrow> Some allow)"

definition validate_persistence_class :: "unit_kind \<Rightarrow> persistence_class option \<Rightarrow> manifest_error + unit" where
  "validate_persistence_class kind pc =
     (if kind = LibraryUnit \<and> pc \<noteq> None then Inl (Bail ''library manifest must not declare persistence_class'' []) else Inr ())"

definition validate_constraints :: "string list option \<Rightarrow> unit_kind \<Rightarrow> string list \<Rightarrow> manifest_error + unit" where
  "validate_constraints allowed_lib_deps kind lib_deps =
     (if kind \<noteq> LibraryUnit then Inr ()
      else case allowed_lib_deps of
          None \<Rightarrow> Inr ()
        | Some allowed \<Rightarrow> check_each (\<lambda>dep. if dep \<notin> set allowed then Inl (Bail ''lib_dep outside dependency_constraints.allowed_lib_deps'' [dep]) else Inr ()) lib_deps)"

definition validate_library_section :: "unit_kind \<Rightarrow> library_meta option \<Rightarrow> manifest_error + unit" where
  "validate_library_section kind library =
     (if kind \<noteq> LibraryUnit \<and> library \<noteq> None then Inl (Bail ''package manifest must not declare [library]'' []) else Inr ())"

text \<open>\<open>rsplit_once('.')\<close> divides at the last dot.\<close>

definition validate_conformance_function_ref :: "string \<Rightarrow> manifest_error + unit" where
  "validate_conformance_function_ref value =
     (let parts = split_on (CHR ''.'') value in
      if CHR ''.'' \<notin> set value then Inl (Bail ''[conformance].function must use <module>.<function>'' [])
      else if join ''.'' (butlast parts) = [] \<or> last parts = [] then Inl (Bail ''[conformance].function must use <module>.<function>'' [])
      else Inr ())"

definition toml_str :: "toml_value option \<Rightarrow> string option" where
  "toml_str v = (case v of Some (TomlString s) \<Rightarrow> Some s | _ \<Rightarrow> None)"

text \<open>\<open>ConformanceManifest::from_value\<close>: lenient, other values count as absent.\<close>

definition conformance_from_value :: "toml_value \<Rightarrow> conformance_manifest" where
  "conformance_from_value v =
     (case v of
        TomlTable kvs \<Rightarrow> \<lparr>cm_pack = toml_str (map_of kvs ''pack''), cm_function = toml_str (map_of kvs ''function'')\<rparr>
      | _ \<Rightarrow> \<lparr>cm_pack = None, cm_function = None\<rparr>)"

text \<open>Strict: a table with no other fields, and strings only.\<close>

definition conformance_strict :: "toml_value \<Rightarrow> manifest_error + conformance_manifest" where
  "conformance_strict v =
     (case v of
        TomlTable kvs \<Rightarrow>
          if list_all (\<lambda>(k, w). k \<in> {''pack'', ''function''} \<and> toml_str (Some w) \<noteq> None) kvs
          then (let m = conformance_from_value v in
                rbind (case cm_function m of None \<Rightarrow> Inr () | Some f \<Rightarrow> validate_conformance_function_ref f) (\<lambda>_. Inr m))
          else Inl (Bail ''malformed [conformance]'' [])
      | _ \<Rightarrow> Inl (Bail ''malformed [conformance]'' []))"

datatype manifest_parse_mode = RuntimeMode | StrictMode

definition into_manifest :: "manifest_parse_mode \<Rightarrow> unit_manifest_toml \<Rightarrow> manifest_error + unit_manifest" where
  "into_manifest mode t =
     rbind (unit_kind_of (ut_kind t)) (\<lambda>kind.
     rbind (validate_persistence_class kind (ut_persistence_class t)) (\<lambda>_.
     rbind (validate_constraints (ut_allowed_lib_deps t) kind (ut_lib_deps t)) (\<lambda>_.
     rbind (validate_library_section kind (ut_library t)) (\<lambda>_.
     rbind (case ut_conformance t of
              None \<Rightarrow> Inr None
            | Some raw \<Rightarrow> (case mode of
                  StrictMode \<Rightarrow> rbind (conformance_strict raw) (\<lambda>c. Inr (Some c))
                | RuntimeMode \<Rightarrow> Inr (Some (conformance_from_value raw)))) (\<lambda>conformance.
       Inr \<lparr>um_kind = kind, um_name = ut_name t, um_persistence_class = ut_persistence_class t,
            um_code_root = ut_code_root t, um_lib_deps = ut_lib_deps t, um_allowed_lib_deps = ut_allowed_lib_deps t,
            um_event_deps = ut_event_deps t, um_library = ut_library t, um_visibility = visibility_of (ut_allow t),
            um_exports = ut_exports t, um_conformance = conformance\<rparr>)))))"

definition validate_manifest_name :: "string \<Rightarrow> manifest_error + unit" where
  "validate_manifest_name value =
     (if value = [] then Inl (Bail ''manifest name'' [value])
      else if \<not> list_all (\<lambda>c. is_alnum c \<or> c = CHR ''_'' \<or> c = CHR ''-'') value then Inl (Bail ''manifest name'' [value])
      else Inr ())"

definition manifest_library_name :: "unit_manifest \<Rightarrow> string" where
  "manifest_library_name m = (case um_library m of Some info \<Rightarrow> lm_name info | None \<Rightarrow> um_name m)"

section \<open>Exports\<close>

text \<open>\<open>strip_suffix(".*")\<close>.\<close>

definition export_pattern_matches :: "string \<Rightarrow> string \<Rightarrow> bool" where
  "export_pattern_matches pattern module =
     (if 2 \<le> length pattern \<and> drop (length pattern - 2) pattern = ''.*''
      then (let prefix = take (length pattern - 2) pattern in module = prefix \<or> starts_with module (prefix @ ''.''))
      else pattern = module)"

definition validate_public_export_patterns :: "string list \<Rightarrow> string table \<Rightarrow> manifest_error + unit" where
  "validate_public_export_patterns patterns public_modules =
     check_each (\<lambda>pattern. if \<not> list_ex (export_pattern_matches pattern) (map fst (t_iter public_modules))
                  then Inl (Bail ''export pattern matches no public modules'' [pattern]) else Inr ()) patterns"

text \<open>The first element of a difference of ordered sets is its least one.\<close>

definition first_missing :: "string list \<Rightarrow> string list \<Rightarrow> string option" where
  "first_missing xs ys = (case sort (filter (\<lambda>x. x \<notin> set ys) xs) of [] \<Rightarrow> None | x # _ \<Rightarrow> Some x)"

definition validate_exact_public_exports :: "string list \<Rightarrow> string table \<Rightarrow> manifest_error + unit" where
  "validate_exact_public_exports declared_modules public_modules =
     (let actual = map fst (t_iter public_modules) in
      rbind (fold_result (\<lambda>declared m. if m \<in> set declared then Inl (Bail ''exact exports declare duplicate public module'' [m]) else Inr (m # declared))
               [] declared_modules) (\<lambda>declared.
      case first_missing declared actual of
        Some m \<Rightarrow> Inl (Bail ''exact exports declare missing public module'' [m])
      | None \<Rightarrow> (case first_missing actual declared of Some m \<Rightarrow> Inl (Bail ''exact exports omit public module'' [m]) | None \<Rightarrow> Inr ())))"

definition validate_public_exports :: "unit_exports \<Rightarrow> string table \<Rightarrow> manifest_error + unit" where
  "validate_public_exports exports public_modules =
     (if ex_exact exports then validate_exact_public_exports (ex_public exports) public_modules
      else validate_public_export_patterns (ex_public exports) public_modules)"

section \<open>The workspace manifest\<close>

definition into_workspace :: "workspace_toml \<Rightarrow> workspace_manifest" where
  "into_workspace t =
     \<lparr>ws_discovered_units = wt_units t @ wt_packages t @ wt_libraries t, ws_registries = wt_registries t,
      ws_external_sources = wt_external_sources t\<rparr>"

end
