(* ===== verification/External_Sources.thy ===== *)
theory External_Sources
  imports Unit_Manifest Delivery_Observe
begin

text \<open>
  Locked external sources (\<open>manifest_external.rs\<close>): the lockfile, the hash of a src tree, the checks a
  src passes before its libraries are admitted, and the discovery of unit roots in a workspace
  (\<open>manifest.rs\<close>). Exporting a revision with git is an argument: the directory it leaves.
\<close>

section \<open>The file system\<close>

text \<open>What a path names when links are not followed. A directory that cannot be listed and a file that cannot
  be read have no contents. Names and paths are UTF-8.\<close>

datatype fs_node =
    FsFile "string option"
  | FsLink "string option"
  | FsOther
  | FsDir "(string \<times> fs_node) list option"

datatype fs_stat = StatAbsent | StatError | StatNode fs_node

record catalog_fs =
  cf_stat :: "string \<Rightarrow> fs_stat"
  cf_exists :: "string \<Rightarrow> bool"
  cf_is_dir :: "string \<Rightarrow> bool"
  cf_canonicalize :: "string \<Rightarrow> string option"
  cf_unit_toml :: "string \<Rightarrow> unit_manifest_toml option"
  cf_workspace_toml :: "string \<Rightarrow> workspace_toml option"

text \<open>\<open>fs::read_dir\<close>, sorted by path.\<close>

definition read_dir :: "catalog_fs \<Rightarrow> string \<Rightarrow> manifest_error + (string \<times> fs_node) list" where
  "read_dir F path =
     (case cf_stat F path of
        StatNode (FsDir (Some entries)) \<Rightarrow> Inr (sort_key fst entries)
      | _ \<Rightarrow> Inl (Bail ''read'' [path]))"

definition parse_unit_file :: "catalog_fs \<Rightarrow> string \<Rightarrow> manifest_error + unit_manifest" where
  "parse_unit_file F path =
     (case cf_unit_toml F path of None \<Rightarrow> Inl (Bail ''parse'' [path]) | Some t \<Rightarrow> into_manifest RuntimeMode t)"

definition parse_workspace_file :: "catalog_fs \<Rightarrow> string \<Rightarrow> manifest_error + workspace_manifest" where
  "parse_workspace_file F path =
     (case cf_workspace_toml F path of None \<Rightarrow> Inl (Bail ''parse'' [path]) | Some t \<Rightarrow> Inr (into_workspace t))"

definition WORKSPACE_MANIFEST :: string where
  "WORKSPACE_MANIFEST = ''fkst.workspace.toml''"

definition UNIT_MANIFEST :: string where
  "UNIT_MANIFEST = ''fkst.toml''"

definition canonical :: "catalog_fs \<Rightarrow> string \<Rightarrow> manifest_error + string" where
  "canonical F path = (case cf_canonicalize F path of None \<Rightarrow> Inl (Bail ''canonicalize'' [path]) | Some p \<Rightarrow> Inr p)"

section \<open>Unit roots\<close>

text \<open>The recursion is over the segments of the pattern; the roots are an ordered set.\<close>

fun collect_glob_inner ::
    "catalog_fs \<Rightarrow> string \<Rightarrow> string \<Rightarrow> string list \<Rightarrow> unit table \<Rightarrow> manifest_error + unit table" where
  "collect_glob_inner F root dir [] roots =
     (if \<not> cf_exists F (path_join dir UNIT_MANIFEST) then Inl (Bail ''unit is missing fkst.toml'' [dir])
      else rbind (canonical F dir) (\<lambda>p. Inr (t_insert p () roots)))"
| "collect_glob_inner F root dir (segment # rest) roots =
     (if dir \<noteq> root \<and> cf_exists F (path_join dir WORKSPACE_MANIFEST) then Inr roots
      else if segment = ''*''
      then rbind (read_dir F dir) (\<lambda>entries.
             fold_result (\<lambda>roots (name, node).
               case node of
                 FsDir _ \<Rightarrow> collect_glob_inner F root (path_join dir name) rest roots
               | _ \<Rightarrow> Inr roots) roots entries)
      else if CHR ''*'' \<in> set segment then Inl (Bail ''segment only supports bare globs'' [segment])
      else (case cf_stat F (path_join dir segment) of
              StatNode (FsDir _) \<Rightarrow> collect_glob_inner F root (path_join dir segment) rest roots
            | StatNode _ \<Rightarrow> Inl (Bail ''not a real directory'' [path_join dir segment])
            | _ \<Rightarrow> Inl (Bail ''stat'' [path_join dir segment])))"

definition collect_glob :: "catalog_fs \<Rightarrow> string \<Rightarrow> unit table \<Rightarrow> string \<Rightarrow> manifest_error + unit table" where
  "collect_glob F root roots pattern =
     (if pattern = [] \<or> hd pattern = CHR ''/'' then Inl (Bail ''pattern must be a relative path'' [pattern])
      else let segments = split_on (CHR ''/'') pattern in
        if ''..'' \<in> set segments then Inl (Bail ''pattern must not contain ..'' [pattern])
        else collect_glob_inner F root root segments roots)"

definition discover_unit_roots :: "catalog_fs \<Rightarrow> string \<Rightarrow> string list \<Rightarrow> manifest_error + string list" where
  "discover_unit_roots F root patterns =
     rbind (fold_result (collect_glob F root) t_empty patterns) (\<lambda>roots. Inr (map fst (t_iter roots)))"

section \<open>The hash of a tree\<close>

text \<open>The entries below a directory in the order of the walk; names for which \<open>skip\<close> holds are left out with
  all below them. An entry is its path relative to the root and what it is.\<close>

datatype tree_entry = EntryFile "string option" | EntryLink "string option" | EntryUnlistable

lemma size_insort: "size_list f (insort_key k x xs) = Suc (f x + size_list f xs)"
  by (induction xs) simp_all

lemma size_sorted: "size_list f (sort_key k xs) = size_list f xs"
  by (induction xs) (simp_all add: size_insort)

function tree_walk :: "(string \<Rightarrow> bool) \<Rightarrow> string list \<Rightarrow> (string \<times> fs_node) list \<Rightarrow> (string list \<times> tree_entry) list" where
  "tree_walk skip rel [] = []"
| "tree_walk skip rel ((name, node) # es) =
     (if skip name then []
      else case node of
          FsDir None \<Rightarrow> [(rel @ [name], EntryUnlistable)]
        | FsDir (Some sub) \<Rightarrow> tree_walk skip (rel @ [name]) (sort_key fst sub)
        | FsFile c \<Rightarrow> [(rel @ [name], EntryFile c)]
        | FsLink t \<Rightarrow> [(rel @ [name], EntryLink t)]
        | FsOther \<Rightarrow> []) @ tree_walk skip rel es"
  by pat_completeness auto

termination
  by (relation "measure (\<lambda>(_, _, es). size_list (size_prod (\<lambda>_. 0) size) es)") (simp_all add: size_sorted)

text \<open>The bytes that are hashed. Path, a tag and the contents end with a zero byte each.\<close>

definition entry_bytes :: "string list \<times> tree_entry \<Rightarrow> manifest_error + string" where
  "entry_bytes e =
     (case e of (rel, x) \<Rightarrow>
      let path = replace_char (CHR 0x5C) ''/'' (join ''/'' rel) in
      case x of
        EntryFile (Some c) \<Rightarrow> Inr (path @ [CHR 0x00] @ ''f'' @ c @ [CHR 0x00])
      | EntryLink (Some t) \<Rightarrow> Inr (path @ [CHR 0x00] @ ''l'' @ t @ [CHR 0x00])
      | _ \<Rightarrow> Inl (Bail ''read'' [path]))"

definition hash_entries :: "(string \<times> fs_node) list \<Rightarrow> (string list \<times> tree_entry) list" where
  "hash_entries entries = tree_walk (\<lambda>name. name = ''.git'') [] entries"

definition tree_data :: "(string list \<times> tree_entry) list \<Rightarrow> manifest_error + string" where
  "tree_data es = fold_result (\<lambda>data e. rbind (entry_bytes e) (\<lambda>b. Inr (data @ b))) [] es"

definition tree_sha256 :: "catalog_fs \<Rightarrow> string \<Rightarrow> manifest_error + string" where
  "tree_sha256 F root =
     rbind (read_dir F root) (\<lambda>entries.
     rbind (tree_data (hash_entries entries)) (\<lambda>data. Inr (sha256_hex (bytes_of data))))"

definition exports_sha256 :: "catalog_fs \<Rightarrow> string \<Rightarrow> manifest_error + string" where
  "exports_sha256 F unit_root =
     (if cf_is_dir F (path_join unit_root ''public'') then tree_sha256 F (path_join unit_root ''public'')
      else tree_sha256 F unit_root)"

definition prefixed_tree_sha256 :: "catalog_fs \<Rightarrow> string \<Rightarrow> manifest_error + string" where
  "prefixed_tree_sha256 F root = rbind (tree_sha256 F root) (\<lambda>h. Inr (''sha256-'' @ h))"

definition prefixed_exports_sha256 :: "catalog_fs \<Rightarrow> string \<Rightarrow> manifest_error + string" where
  "prefixed_exports_sha256 F root = rbind (exports_sha256 F root) (\<lambda>h. Inr (''sha256-'' @ h))"

section \<open>Locks\<close>

record external_library_lock =
  ll_name :: string
  ll_unit :: string
  ll_exports_sha256 :: string

record external_source_lock =
  sl_id :: string
  sl_git :: string
  sl_intent_rev :: "string option"
  sl_intent_tag :: "string option"
  sl_resolved_rev :: string
  sl_tree_sha256 :: string
  sl_libraries :: "external_library_lock list"

record lock_entry =
  le_name :: string
  le_source :: string
  le_version :: "string option"
  le_checksum :: "string option"

record lockfile =
  lf_entries :: "lock_entry list"
  lf_external_sources :: "external_source_lock list"

record lockfile_toml =
  lt_packages :: "lock_entry list"
  lt_libraries :: "lock_entry list"
  lt_external_sources :: "external_source_lock list"

definition into_lockfile :: "lockfile_toml \<Rightarrow> lockfile" where
  "into_lockfile t = \<lparr>lf_entries = lt_packages t @ lt_libraries t, lf_external_sources = lt_external_sources t\<rparr>"

definition lockfile_write_toml :: "lockfile \<Rightarrow> lockfile_toml" where
  "lockfile_write_toml l =
     \<lparr>lt_packages = lf_entries l, lt_libraries = [], lt_external_sources = lf_external_sources l\<rparr>"

definition lock_external_source :: "lockfile \<Rightarrow> string \<Rightarrow> external_source_lock option" where
  "lock_external_source l i = List.find (\<lambda>s. sl_id s = i) (lf_external_sources l)"

record external_library_checkout =
  lc_name :: string
  lc_unit :: string
  lc_publishable :: bool

record external_source_checkout =
  sc_source_id :: string
  sc_root :: string
  sc_libraries :: "external_library_checkout list"
  sc_available_libraries :: "unit table"

section \<open>Checks\<close>

definition validate_ext_name :: "string \<Rightarrow> string \<Rightarrow> manifest_error + unit" where
  "validate_ext_name label value =
     (if value = [] then Inl (Bail label [])
      else if \<not> list_all (\<lambda>c. is_alnum c \<or> c = CHR ''_'' \<or> c = CHR ''-'') value then Inl (Bail label [value])
      else Inr ())"

definition validate_full_sha :: "string \<Rightarrow> manifest_error + unit" where
  "validate_full_sha value =
     (if length value \<noteq> 40 \<or> \<not> list_all is_ascii_hexdigit value then Inl (Bail ''git rev'' [value]) else Inr ())"

definition validate_prefixed_hash :: "string \<Rightarrow> manifest_error + unit" where
  "validate_prefixed_hash value =
     (case strip_prefix ''sha256-'' value of
        None \<Rightarrow> Inl (Bail ''hash must start with sha256-'' [value])
      | Some h \<Rightarrow> if length h \<noteq> 64 \<or> \<not> list_all is_ascii_hexdigit h then Inl (Bail ''hash'' [value]) else Inr ())"

definition validate_distinct_names :: "string \<Rightarrow> string \<Rightarrow> string list \<Rightarrow> manifest_error + unit" where
  "validate_distinct_names label dup names =
     rbind (fold_result (\<lambda>seen x.
              rbind (validate_ext_name label x) (\<lambda>_. if x \<in> set seen then Inl (Bail dup [x]) else Inr (x # seen)))
              [] names) (\<lambda>_. Inr ())"

definition validate_source_decl :: "external_source_decl \<Rightarrow> manifest_error + unit" where
  "validate_source_decl src =
     rbind (validate_ext_name ''external source id'' (es_id src)) (\<lambda>_.
     if trim (es_git src) = [] then Inl (Bail ''git must not be empty'' [es_id src])
     else rbind (case (es_rev src, es_tag src) of
              (Some revision, None) \<Rightarrow> validate_full_sha revision
            | (None, Some tag) \<Rightarrow> if trim tag = [] then Inl (Bail ''tag must not be empty'' [es_id src]) else Inr ()
            | (Some _, Some _) \<Rightarrow> Inl (Bail ''must set only one of rev or tag'' [es_id src])
            | (None, None) \<Rightarrow> Inl (Bail ''must set rev or tag'' [es_id src])) (\<lambda>_.
     if es_packages src = [] \<and> es_libraries src = []
     then Inl (Bail ''must declare at least one package or library'' [es_id src])
     else rbind (validate_distinct_names ''external source package'' ''duplicate package'' (es_packages src)) (\<lambda>_.
       validate_distinct_names ''external source library'' ''duplicate library'' (es_libraries src))))"

definition validate_local_source_ids :: "external_source_decl list \<Rightarrow> string table \<Rightarrow> manifest_error + unit" where
  "validate_local_source_ids sources local_roots =
     check_each (\<lambda>(i, _). if i \<notin> set (map es_id sources) then Inl (Bail ''local external source is not declared'' [i]) else Inr ())
       (t_iter local_roots)"

definition validate_lock_matches_manifest :: "external_source_decl \<Rightarrow> external_source_lock \<Rightarrow> manifest_error + unit" where
  "validate_lock_matches_manifest src lock =
     (if sl_git lock \<noteq> es_git src then Inl (Bail ''git mismatch'' [es_id src])
      else if sl_intent_rev lock \<noteq> es_rev src \<or> sl_intent_tag lock \<noteq> es_tag src
      then Inl (Bail ''intent mismatch'' [es_id src])
      else rbind (validate_full_sha (sl_resolved_rev lock)) (\<lambda>_.
           rbind (validate_prefixed_hash (sl_tree_sha256 lock)) (\<lambda>_.
           check_each (\<lambda>allowed. if \<not> list_ex (\<lambda>l. ll_name l = allowed) (sl_libraries lock)
                         then Inl (Bail ''library is allowed but missing from fkst.lock'' [es_id src, allowed])
                         else Inr ()) (es_libraries src))))"

text \<open>Packages of all sources, each declared once.\<close>

definition external_package_declarations :: "external_source_decl list \<Rightarrow> manifest_error + string table" where
  "external_package_declarations sources =
     fold_result (\<lambda>declared src.
       rbind (validate_ext_name ''external source id'' (es_id src)) (\<lambda>_.
       rbind (fold_result (\<lambda>(declared, seen) package.
                rbind (validate_ext_name ''external source package'' package) (\<lambda>_.
                if package \<in> set seen then Inl (Bail ''duplicate platform package'' [es_id src, package])
                else case t_get declared package of
                    Some previous \<Rightarrow> Inl (Bail ''ambiguous platform package'' [package, previous, es_id src])
                  | None \<Rightarrow> Inr (t_insert package (es_id src) declared, package # seen)))
              (declared, []) (es_packages src)) (\<lambda>(declared', _). Inr declared'))) t_empty sources"

section \<open>Checkouts\<close>

text \<open>Git and the moves of directories change the file system: the environment gives the result of each, with
  the state after it.\<close>

record source_env =
  se_cache_root :: string
  se_export :: "external_source_decl \<Rightarrow> string \<Rightarrow> catalog_fs \<Rightarrow> manifest_error + string \<times> catalog_fs"
  se_remove :: "string \<Rightarrow> catalog_fs \<Rightarrow> manifest_error + catalog_fs"
  se_move :: "string \<Rightarrow> string \<Rightarrow> catalog_fs \<Rightarrow> manifest_error + catalog_fs"
  se_tag_rev :: "external_source_decl \<Rightarrow> string \<Rightarrow> manifest_error + string"
  se_head_rev :: "external_source_decl \<Rightarrow> string \<Rightarrow> manifest_error + string"

definition store_checkout :: "source_env \<Rightarrow> string \<Rightarrow> string" where
  "store_checkout E tree_hash = path_push (path_push (se_cache_root E) ''store'') tree_hash"

definition cache_root :: "string option \<Rightarrow> string option \<Rightarrow> string \<Rightarrow> string" where
  "cache_root configured home temp_dir =
     (case configured of
        Some root \<Rightarrow> root
      | None \<Rightarrow> (case home of Some h \<Rightarrow> path_push h ''.cache/fkst'' | None \<Rightarrow> path_push temp_dir ''fkst-cache''))"

definition mirror_path :: "string \<Rightarrow> string \<Rightarrow> string" where
  "mirror_path root git = path_push (path_push root ''git-mirrors'') (sha256_hex (bytes_of git) @ ''.git'')"

definition ext_canonical_dir :: "catalog_fs \<Rightarrow> string \<Rightarrow> manifest_error + string" where
  "ext_canonical_dir F path =
     rbind (canonical F path) (\<lambda>p. if \<not> cf_is_dir F p then Inl (Bail ''not a directory'' [p]) else Inr p)"

definition resolve_source_rev :: "source_env \<Rightarrow> external_source_decl \<Rightarrow> manifest_error + string" where
  "resolve_source_rev E src =
     (case es_rev src of
        Some revision \<Rightarrow> Inr revision
      | None \<Rightarrow> (case es_tag src of
            None \<Rightarrow> Inl (Bail ''must set rev or tag'' [es_id src])
          | Some tag \<Rightarrow> rbind (se_tag_rev E src tag) (\<lambda>revision. rbind (validate_full_sha revision) (\<lambda>_. Inr revision))))"

definition resolve_local_source_rev :: "source_env \<Rightarrow> external_source_decl \<Rightarrow> string \<Rightarrow> manifest_error + string" where
  "resolve_local_source_rev E src local_root =
     rbind (se_head_rev E src local_root) (\<lambda>revision. rbind (validate_full_sha revision) (\<lambda>_. Inr revision))"

definition export_source_tree ::
    "source_env \<Rightarrow> external_source_decl \<Rightarrow> string \<Rightarrow> catalog_fs \<Rightarrow> manifest_error + string \<times> catalog_fs" where
  "export_source_tree E src revision F = rbind (validate_full_sha revision) (\<lambda>_. se_export E src revision F)"

text \<open>The path of a unit below its root; \<open>None\<close> when it is not below.\<close>

definition relative_unit :: "string \<Rightarrow> string \<Rightarrow> string option" where
  "relative_unit root path =
     (if path = root then Some []
      else map_option (replace_char (CHR 0x5C) ''/'') (strip_prefix (if root = ''/'' then root else root @ ''/'') path))"

definition library_units_below :: "catalog_fs \<Rightarrow> string \<Rightarrow> manifest_error + (string \<times> unit_manifest) list" where
  "library_units_below F root =
     rbind (parse_workspace_file F (path_join root WORKSPACE_MANIFEST)) (\<lambda>workspace.
     rbind (discover_unit_roots F root (ws_discovered_units workspace)) (\<lambda>roots.
       fold_result (\<lambda>found unit_root.
         rbind (parse_unit_file F (path_join unit_root UNIT_MANIFEST)) (\<lambda>m. Inr (found @ [(unit_root, m)]))) [] roots))"

definition note_library ::
    "catalog_fs \<Rightarrow> external_source_decl \<Rightarrow> string table \<Rightarrow> string \<Rightarrow> manifest_error + string table" where
  "note_library F src by_name unit_root =
     rbind (parse_unit_file F (path_join unit_root UNIT_MANIFEST)) (\<lambda>m.
     if um_kind m \<noteq> LibraryUnit then Inr by_name
     else case t_get by_name (manifest_library_name m) of
         Some _ \<Rightarrow> Inl (Bail ''source declares duplicate library'' [es_id src, manifest_library_name m])
       | None \<Rightarrow> Inr (t_insert (manifest_library_name m) unit_root by_name))"

definition admit_library ::
    "catalog_fs \<Rightarrow> external_source_decl \<Rightarrow> string \<Rightarrow> string table \<Rightarrow> external_library_lock list \<Rightarrow> string \<Rightarrow>
     manifest_error + external_library_lock list" where
  "admit_library F src root by_name admitted library =
     (case t_get by_name library of
        None \<Rightarrow> Inl (Bail ''source does not allow library because it is absent'' [es_id src, library])
      | Some unit_root \<Rightarrow>
          (case relative_unit root unit_root of
             None \<Rightarrow> Inl (Bail ''strip'' [root, unit_root])
           | Some u \<Rightarrow> rbind (prefixed_exports_sha256 F unit_root) (\<lambda>h.
               Inr (admitted @ [\<lparr>ll_name = library, ll_unit = u, ll_exports_sha256 = h\<rparr>]))))"

definition catalog_allowed_libraries ::
    "catalog_fs \<Rightarrow> external_source_decl \<Rightarrow> string \<Rightarrow> manifest_error + external_library_lock list" where
  "catalog_allowed_libraries F src checkout_root =
     rbind (parse_workspace_file F (path_join checkout_root WORKSPACE_MANIFEST)) (\<lambda>workspace.
     rbind (canonical F checkout_root) (\<lambda>root.
     rbind (discover_unit_roots F root (ws_discovered_units workspace)) (\<lambda>roots.
     rbind (fold_result (note_library F src) t_empty roots) (\<lambda>by_name.
       fold_result (admit_library F src root by_name) [] (es_libraries src)))))"

definition available_library_names :: "catalog_fs \<Rightarrow> string \<Rightarrow> manifest_error + unit table" where
  "available_library_names F root =
     rbind (library_units_below F root) (\<lambda>units.
       Inr (foldl (\<lambda>names (_, m). if um_kind m = LibraryUnit then t_insert (manifest_library_name m) () names else names)
              t_empty units))"

definition publishable_library_at :: "catalog_fs \<Rightarrow> string \<Rightarrow> manifest_error + bool" where
  "publishable_library_at F unit_root =
     rbind (parse_unit_file F (path_join unit_root UNIT_MANIFEST)) (\<lambda>m.
       Inr (case um_library m of Some info \<Rightarrow> lm_publishable info | None \<Rightarrow> False))"

definition locked_library ::
    "catalog_fs \<Rightarrow> external_source_decl \<Rightarrow> string \<Rightarrow> external_library_checkout list \<Rightarrow> external_library_lock \<Rightarrow>
     manifest_error + external_library_checkout list" where
  "locked_library F src root done library =
     (if ll_name library \<notin> set (es_libraries src)
      then Inl (Bail ''lock admits library not allowed by manifest'' [es_id src, ll_name library])
      else let unit_root = path_push root (ll_unit library) in
        rbind (prefixed_exports_sha256 F unit_root) (\<lambda>actual.
        if actual \<noteq> ll_exports_sha256 library then Inl (Bail ''exports hash mismatch'' [es_id src, ll_name library])
        else rbind (publishable_library_at F unit_root) (\<lambda>p.
          Inr (done @ [\<lparr>lc_name = ll_name library, lc_unit = ll_unit library, lc_publishable = p\<rparr>]))))"

definition locked_libraries ::
    "catalog_fs \<Rightarrow> external_source_decl \<Rightarrow> external_source_lock \<Rightarrow> string \<Rightarrow> manifest_error + external_library_checkout list" where
  "locked_libraries F src lock root = fold_result (locked_library F src root) [] (sl_libraries lock)"

definition current_libraries :: "catalog_fs \<Rightarrow> external_source_decl \<Rightarrow> string \<Rightarrow> manifest_error + external_library_checkout list" where
  "current_libraries F src root =
     rbind (catalog_allowed_libraries F src root) (\<lambda>libraries.
       fold_result (\<lambda>done library.
         rbind (publishable_library_at F (path_push root (ll_unit library))) (\<lambda>p.
           Inr (done @ [\<lparr>lc_name = ll_name library, lc_unit = ll_unit library, lc_publishable = p\<rparr>]))) [] libraries)"

definition locked_local_source_checkout ::
    "catalog_fs \<Rightarrow> external_source_decl \<Rightarrow> string \<Rightarrow> manifest_error + external_source_checkout" where
  "locked_local_source_checkout F src local_root =
     rbind (ext_canonical_dir F local_root) (\<lambda>root.
     rbind (current_libraries F src root) (\<lambda>libraries.
     rbind (available_library_names F root) (\<lambda>available.
       Inr \<lparr>sc_source_id = es_id src, sc_root = root, sc_libraries = libraries, sc_available_libraries = available\<rparr>)))"

text \<open>The part of \<open>locked_source_checkout\<close> that fills the cache.\<close>

definition ensure_stored ::
    "source_env \<Rightarrow> external_source_decl \<Rightarrow> external_source_lock \<Rightarrow> catalog_fs \<Rightarrow> manifest_error + catalog_fs" where
  "ensure_stored E src lock F =
     (let store = store_checkout E (sl_tree_sha256 lock) in
      if cf_exists F store then Inr F
      else rbind (export_source_tree E src (sl_resolved_rev lock) F) (\<lambda>(temp, F1).
           rbind (prefixed_tree_sha256 F1 temp) (\<lambda>actual.
           if actual \<noteq> sl_tree_sha256 lock
           then rbind (se_remove E temp F1) (\<lambda>_. Inl (Bail ''tree hash mismatch'' [es_id src, actual]))
           else if cf_exists F1 store then se_remove E temp F1
           else se_move E temp store F1)))"

definition locked_source_checkout ::
    "source_env \<Rightarrow> lockfile \<Rightarrow> string table \<Rightarrow> catalog_fs \<Rightarrow> external_source_decl \<Rightarrow>
     manifest_error + external_source_checkout \<times> catalog_fs" where
  "locked_source_checkout E lf local_roots F src =
     rbind (validate_source_decl src) (\<lambda>_.
     case lock_external_source lf (es_id src) of
       None \<Rightarrow> Inl (Bail ''source is missing from fkst.lock'' [es_id src])
     | Some lock \<Rightarrow>
         rbind (validate_lock_matches_manifest src lock) (\<lambda>_.
         case t_get local_roots (es_id src) of
           Some local_root \<Rightarrow> rbind (locked_local_source_checkout F src local_root) (\<lambda>c. Inr (c, F))
         | None \<Rightarrow>
             rbind (ensure_stored E src lock F) (\<lambda>F1.
             rbind (canonical F1 (store_checkout E (sl_tree_sha256 lock))) (\<lambda>root.
             rbind (prefixed_tree_sha256 F1 root) (\<lambda>actual.
             if actual \<noteq> sl_tree_sha256 lock then Inl (Bail ''cached tree hash mismatch'' [es_id src, actual])
             else rbind (locked_libraries F1 src lock root) (\<lambda>libraries.
                  rbind (available_library_names F1 root) (\<lambda>available.
                    Inr (\<lparr>sc_source_id = es_id src, sc_root = root, sc_libraries = libraries,
                          sc_available_libraries = available\<rparr>, F1))))))))"

definition fetch_locked_sources_with_local_roots ::
    "source_env \<Rightarrow> lockfile \<Rightarrow> string table \<Rightarrow> catalog_fs \<Rightarrow> external_source_decl list \<Rightarrow>
     manifest_error + external_source_checkout list \<times> catalog_fs" where
  "fetch_locked_sources_with_local_roots E lf local_roots F sources =
     fold_result (\<lambda>(done, F) src.
       rbind (locked_source_checkout E lf local_roots F src) (\<lambda>(c, F'). Inr (done @ [c], F'))) ([], F) sources"

definition fetch_locked_sources ::
    "source_env \<Rightarrow> lockfile \<Rightarrow> catalog_fs \<Rightarrow> external_source_decl list \<Rightarrow>
     manifest_error + external_source_checkout list \<times> catalog_fs" where
  "fetch_locked_sources E lf F sources = fetch_locked_sources_with_local_roots E lf t_empty F sources"

section \<open>Locking\<close>

definition lock_source ::
    "source_env \<Rightarrow> string table \<Rightarrow> catalog_fs \<Rightarrow> external_source_decl \<Rightarrow> manifest_error + external_source_lock \<times> catalog_fs" where
  "lock_source E local_roots F src =
     rbind (validate_source_decl src) (\<lambda>_.
     rbind (case t_get local_roots (es_id src) of
              Some local_root \<Rightarrow>
                rbind (resolve_local_source_rev E src local_root) (\<lambda>revision.
                rbind (ext_canonical_dir F local_root) (\<lambda>root.
                rbind (prefixed_tree_sha256 F root) (\<lambda>tree. Inr (revision, tree, root, F))))
            | None \<Rightarrow>
                rbind (resolve_source_rev E src) (\<lambda>revision.
                rbind (export_source_tree E src revision F) (\<lambda>(temp, F1).
                rbind (prefixed_tree_sha256 F1 temp) (\<lambda>tree.
                let store = store_checkout E tree in
                rbind (if cf_exists F1 store then se_remove E store F1 else Inr F1) (\<lambda>F2.
                rbind (se_move E temp store F2) (\<lambda>F3. Inr (revision, tree, store, F3)))))))
       (\<lambda>(revision, tree, root, F').
     rbind (catalog_allowed_libraries F' src root) (\<lambda>libraries.
       Inr (\<lparr>sl_id = es_id src, sl_git = es_git src, sl_intent_rev = es_rev src, sl_intent_tag = es_tag src,
             sl_resolved_rev = revision, sl_tree_sha256 = tree, sl_libraries = libraries\<rparr>, F'))))"

definition lock_external_sources_with_local_roots ::
    "source_env \<Rightarrow> (manifest_error + lockfile_toml) option \<Rightarrow> string table \<Rightarrow> catalog_fs \<Rightarrow> external_source_decl list \<Rightarrow>
     manifest_error + lockfile \<times> catalog_fs" where
  "lock_external_sources_with_local_roots E existing local_roots F sources =
     rbind (validate_local_source_ids sources local_roots) (\<lambda>_.
     rbind (fold_result (\<lambda>(locks, F) src.
              rbind (lock_source E local_roots F src) (\<lambda>(l, F'). Inr (locks @ [l], F'))) ([], F) sources) (\<lambda>(locks, F').
     rbind (case existing of None \<Rightarrow> Inr \<lparr>lf_entries = [], lf_external_sources = []\<rparr>
            | Some parsed \<Rightarrow> rbind parsed (\<lambda>t. Inr (into_lockfile t))) (\<lambda>lf.
       Inr (lf\<lparr>lf_external_sources := locks\<rparr>, F'))))"

definition validate_locked_local_sources ::
    "source_env \<Rightarrow> lockfile \<Rightarrow> string table \<Rightarrow> catalog_fs \<Rightarrow> external_source_decl list \<Rightarrow> manifest_error + unit" where
  "validate_locked_local_sources E lf local_roots F sources =
     rbind (validate_local_source_ids sources local_roots) (\<lambda>_.
     check_each (\<lambda>src. if t_get local_roots (es_id src) = None then Inr ()
                       else rbind (locked_source_checkout E lf local_roots F src) (\<lambda>_. Inr ())) sources)"

end
