(* ===== verification/Unit_Catalog.thy ===== *)
theory Unit_Catalog
  imports External_Sources
begin

text \<open>
  The catalog of units (\<open>manifest.rs\<close>, \<open>manifest_modules.rs\<close>): the units of a workspace and the libraries of its
  external sources, the modules each of them has, and the index of the modules each of them may require.
\<close>

section \<open>Modules\<close>

datatype module_visibility = OwnerModule | PublicLibraryModule

record module_entry =
  me_provider_source :: "string option"
  me_provider_unit :: string
  me_path :: string
  me_visibility :: module_visibility

definition module_entry_new :: "string \<Rightarrow> string \<Rightarrow> module_visibility \<Rightarrow> module_entry" where
  "module_entry_new provider_unit path vis =
     \<lparr>me_provider_source = Option.bind (strip_prefix ''external:'' provider_unit)
        (\<lambda>rest. map_option fst (split_once (CHR '':'') rest)),
      me_provider_unit = provider_unit, me_path = path, me_visibility = vis\<rparr>"

record catalog_unit =
  cu_catalog_name :: string
  cu_unit_root :: string
  cu_code_root :: string
  cu_manifest :: unit_manifest
  cu_own_modules :: "string table"
  cu_public_modules :: "string table"
  cu_private_modules :: "string table"
  cu_module_index :: "module_entry table"

definition catalog_unit_new :: "string \<Rightarrow> string \<Rightarrow> string \<Rightarrow> unit_manifest \<Rightarrow> catalog_unit" where
  "catalog_unit_new catalog_name unit_root code_root m =
     \<lparr>cu_catalog_name = catalog_name, cu_unit_root = unit_root, cu_code_root = code_root, cu_manifest = m,
      cu_own_modules = t_empty, cu_public_modules = t_empty, cu_private_modules = t_empty, cu_module_index = t_empty\<rparr>"

definition is_library :: "catalog_unit \<Rightarrow> bool" where
  "is_library u \<longleftrightarrow> um_kind (cu_manifest u) = LibraryUnit"

definition library_name :: "catalog_unit \<Rightarrow> string" where
  "library_name u = manifest_library_name (cu_manifest u)"

text \<open>Inserting refuses a name that is taken.\<close>

definition insert_new :: "string \<Rightarrow> string \<Rightarrow> 'v \<Rightarrow> 'v table \<Rightarrow> manifest_error + 'v table" where
  "insert_new label k v t = (case t_get t k of Some _ \<Rightarrow> Inl (Bail label [k]) | None \<Rightarrow> Inr (t_insert k v t))"

definition insert_path_entry :: "string \<Rightarrow> string \<Rightarrow> string table \<Rightarrow> manifest_error + string table" where
  "insert_path_entry logical path modules = insert_new ''duplicate logical module'' logical path modules"

definition insert_module_entry :: "string \<Rightarrow> module_entry \<Rightarrow> module_entry table \<Rightarrow> manifest_error + module_entry table" where
  "insert_module_entry logical entry modules = insert_new ''ambiguous module'' logical entry modules"

definition logical_module_name :: "bool \<Rightarrow> string list \<Rightarrow> string \<Rightarrow> manifest_error + string" where
  "logical_module_name allow_root_init rel stem =
     (let segments = butlast rel in
      if last rel = ''init.lua''
      then if segments = [] then (if allow_root_init then Inr [] else Inl (Bail ''root init.lua has no logical module name'' []))
           else if [] \<in> set segments then Inl (Bail ''empty module segment'' []) else Inr (join ''.'' segments)
      else if [] \<in> set (segments @ [stem]) then Inl (Bail ''empty module segment'' []) else Inr (join ''.'' (segments @ [stem])))"

text \<open>One entry of the walk below a module root: links and other files are passed over.\<close>

definition scan_lua_entry ::
    "catalog_fs \<Rightarrow> string \<Rightarrow> bool \<Rightarrow> string table \<Rightarrow> string list \<times> tree_entry \<Rightarrow> manifest_error + string table" where
  "scan_lua_entry F root allow_root_init modules item =
     (case item of (rel, e) \<Rightarrow>
      case e of
        EntryUnlistable \<Rightarrow> Inl (Bail ''read'' [join ''/'' rel])
      | EntryLink _ \<Rightarrow> Inr modules
      | EntryFile _ \<Rightarrow>
          (case lua_stem (last rel) of
             None \<Rightarrow> Inr modules
           | Some stem \<Rightarrow>
               rbind (logical_module_name allow_root_init rel stem) (\<lambda>logical.
               rbind (canonical F (path_join root (join ''/'' rel))) (\<lambda>path. insert_path_entry logical path modules))))"

definition scan_lua_modules_inner :: "catalog_fs \<Rightarrow> string \<Rightarrow> bool \<Rightarrow> manifest_error + string table" where
  "scan_lua_modules_inner F root allow_root_init =
     rbind (read_dir F root) (\<lambda>entries.
       fold_result (scan_lua_entry F root allow_root_init) t_empty (tree_walk (\<lambda>_. False) [] entries))"

definition scan_lua_modules :: "catalog_fs \<Rightarrow> string \<Rightarrow> manifest_error + string table" where
  "scan_lua_modules F root = scan_lua_modules_inner F root False"

definition scan_lua_modules_allow_root_init :: "catalog_fs \<Rightarrow> string \<Rightarrow> manifest_error + string table" where
  "scan_lua_modules_allow_root_init F root = scan_lua_modules_inner F root True"

definition prefix_library_public_modules :: "string \<Rightarrow> string table \<Rightarrow> manifest_error + string table" where
  "prefix_library_public_modules library modules =
     fold_result (\<lambda>prefixed (logical, path).
       insert_path_entry (if logical = [] then library else library @ ''.'' @ logical) path prefixed) t_empty (t_iter modules)"

definition is_real_dir :: "catalog_fs \<Rightarrow> string \<Rightarrow> manifest_error + bool" where
  "is_real_dir F path =
     (case cf_stat F path of
        StatAbsent \<Rightarrow> Inr False
      | StatError \<Rightarrow> Inl (Bail ''stat'' [path])
      | StatNode node \<Rightarrow> Inr (case node of FsDir _ \<Rightarrow> True | _ \<Rightarrow> False))"

record own_module_scan =
  os_own :: "string table"
  os_public :: "string table"
  os_private :: "string table"

definition scan_own_modules :: "catalog_fs \<Rightarrow> catalog_unit \<Rightarrow> manifest_error + own_module_scan" where
  "scan_own_modules F u =
     (if \<not> is_library u
      then rbind (scan_lua_modules F (cu_code_root u)) (\<lambda>own.
             Inr \<lparr>os_own = own, os_public = t_empty, os_private = t_empty\<rparr>)
      else
        let public_root = path_join (cu_code_root u) ''public''; private_root = path_join (cu_code_root u) ''private'' in
        rbind (is_real_dir F public_root) (\<lambda>has_public.
        rbind (is_real_dir F private_root) (\<lambda>has_private.
        rbind (if has_public then scan_lua_modules_allow_root_init F public_root
               else if \<not> has_private then scan_lua_modules_allow_root_init F (cu_code_root u)
               else Inr t_empty) (\<lambda>raw_public.
        rbind (if has_private then scan_lua_modules F private_root else Inr t_empty) (\<lambda>private_modules.
        rbind (check_each (\<lambda>(logical, _). if t_get private_modules logical \<noteq> None
                 then Inl (Bail ''duplicate public/private module'' [logical]) else Inr ()) (t_iter raw_public)) (\<lambda>_.
        rbind (prefix_library_public_modules (library_name u) raw_public) (\<lambda>public_modules.
        rbind (validate_public_exports (um_exports (cu_manifest u)) public_modules) (\<lambda>_.
        rbind (fold_result (\<lambda>own (logical, path). insert_path_entry logical path own) t_empty
                 (t_iter public_modules @ t_iter private_modules)) (\<lambda>own.
          Inr \<lparr>os_own = own, os_public = public_modules, os_private = private_modules\<rparr>)))))))))"

section \<open>Units of the workspace\<close>

definition canonical_unit_code_root :: "catalog_fs \<Rightarrow> string \<Rightarrow> unit_manifest \<Rightarrow> manifest_error + string" where
  "canonical_unit_code_root F unit_root m =
     rbind (canonical F (path_push unit_root (um_code_root m))) (\<lambda>p.
       if \<not> cf_is_dir F p then Inl (Bail ''code root is not a directory'' [p]) else Inr p)"

definition ensure_catalog_path_under_workspace :: "string \<Rightarrow> string \<Rightarrow> string \<Rightarrow> manifest_error + unit" where
  "ensure_catalog_path_under_workspace root path label =
     (if path \<noteq> root \<and> \<not> is_under path root then Inl (Bail label [path, root]) else Inr ())"

type_synonym unit_tables = "catalog_unit table \<times> string table"

definition add_workspace_unit :: "catalog_fs \<Rightarrow> string \<Rightarrow> unit_tables \<Rightarrow> string \<Rightarrow> manifest_error + unit_tables" where
  "add_workspace_unit F root st unit_root =
     (case st of (units, library_units) \<Rightarrow>
      rbind (ensure_catalog_path_under_workspace root unit_root ''unit root'') (\<lambda>_.
      rbind (parse_unit_file F (path_join unit_root UNIT_MANIFEST)) (\<lambda>m.
      rbind (validate_manifest_name (um_name m)) (\<lambda>_.
      if t_get units (um_name m) \<noteq> None then Inl (Bail ''duplicate unit name'' [um_name m])
      else rbind (canonical_unit_code_root F unit_root m) (\<lambda>code_root.
           rbind (ensure_catalog_path_under_workspace root code_root ''code root'') (\<lambda>_.
           let u = catalog_unit_new (um_name m) unit_root code_root m in
           rbind (if is_library u
                  then rbind (validate_manifest_name (library_name u)) (\<lambda>_.
                         insert_new ''duplicate library name'' (library_name u) (cu_catalog_name u) library_units)
                  else Inr library_units) (\<lambda>library_units'.
             Inr (t_insert (cu_catalog_name u) u units, library_units'))))))))"

definition external_provider_unit_id :: "string \<Rightarrow> string \<Rightarrow> string" where
  "external_provider_unit_id source_id library = ''external:'' @ source_id @ '':'' @ library"

definition add_external_library ::
    "catalog_fs \<Rightarrow> external_source_checkout \<Rightarrow> (string \<times> unit_manifest) list \<Rightarrow> unit_tables \<Rightarrow> external_library_checkout \<Rightarrow>
     manifest_error + unit_tables" where
  "add_external_library F c unit_roots st library =
     (case st of (units, library_units) \<Rightarrow>
      case List.find (\<lambda>(unit_root, m). um_kind m = LibraryUnit \<and> relative_unit (sc_root c) unit_root = Some (lc_unit library)) unit_roots of
        None \<Rightarrow> Inl (Bail ''locked library is missing unit'' [sc_source_id c, lc_name library, lc_unit library])
      | Some (unit_root, m) \<Rightarrow>
          if manifest_library_name m \<noteq> lc_name library
          then Inl (Bail ''locked library resolved to manifest library'' [sc_source_id c, lc_name library, manifest_library_name m])
          else if \<not> lc_publishable library then Inr st
          else rbind (canonical_unit_code_root F unit_root m) (\<lambda>code_root.
               rbind (ensure_catalog_path_under_workspace (sc_root c) unit_root ''external unit root'') (\<lambda>_.
               rbind (ensure_catalog_path_under_workspace (sc_root c) code_root ''external code root'') (\<lambda>_.
               let catalog_name = external_provider_unit_id (sc_source_id c) (lc_name library) in
               if t_get units catalog_name \<noteq> None then Inl (Bail ''duplicate external library provider'' [catalog_name])
               else rbind (insert_new ''duplicate library name'' (lc_name library) catalog_name library_units) (\<lambda>library_units'.
                 Inr (t_insert catalog_name (catalog_unit_new catalog_name unit_root code_root m) units, library_units'))))))"

definition add_external_units ::
    "catalog_fs \<Rightarrow> external_source_checkout list \<Rightarrow> unit_tables \<Rightarrow> manifest_error + unit_tables" where
  "add_external_units F checkouts st =
     fold_result (\<lambda>st c.
       rbind (library_units_below F (sc_root c)) (\<lambda>unit_roots.
         fold_result (add_external_library F c unit_roots) st (sc_libraries c))) st checkouts"

definition denied_external_libraries :: "external_source_checkout list \<Rightarrow> string table \<Rightarrow> string table" where
  "denied_external_libraries checkouts library_units =
     foldl (\<lambda>denied c.
       foldl (\<lambda>denied (library, _). if t_get library_units library = None then t_insert library (sc_source_id c) denied else denied)
         denied (t_iter (sc_available_libraries c))) t_empty checkouts"

section \<open>The catalog\<close>

record unit_catalog =
  uc_workspace_root :: string
  uc_workspace :: workspace_manifest
  uc_lockfile :: lockfile
  uc_units :: "catalog_unit table"
  uc_library_units :: "string table"
  uc_denied_external_libraries :: "string table"
  uc_graph :: "string list table"

definition graph_from_units :: "catalog_unit table \<Rightarrow> string list table" where
  "graph_from_units units = map (\<lambda>(name, u). (name, um_lib_deps (cu_manifest u))) units"

definition build_own_module_indexes :: "catalog_fs \<Rightarrow> unit_catalog \<Rightarrow> manifest_error + unit_catalog" where
  "build_own_module_indexes F cat =
     fold_result (\<lambda>cat (name, u).
       rbind (scan_own_modules F u) (\<lambda>scan.
         Inr (cat\<lparr>uc_units := t_insert name
               (u\<lparr>cu_own_modules := os_own scan, cu_public_modules := os_public scan, cu_private_modules := os_private scan\<rparr>)
               (uc_units cat)\<rparr>))) cat (t_iter (uc_units cat))"

definition validate_library_visibility :: "string \<Rightarrow> string \<Rightarrow> catalog_unit \<Rightarrow> manifest_error + unit" where
  "validate_library_visibility consumer_unit declared_library library_unit =
     (case um_visibility (cu_manifest library_unit) of
        VisiblePublic \<Rightarrow> Inr ()
      | VisibleAllow allow \<Rightarrow>
          if consumer_unit \<in> set allow then Inr ()
          else Inl (Bail ''unit is not allowed to declare library'' [consumer_unit, declared_library]))"

text \<open>One public module of a library; the state is the index and the modules that came from libraries.\<close>

definition add_visible_module ::
    "bool \<Rightarrow> string \<Rightarrow> string \<Rightarrow> module_entry table \<times> string table \<Rightarrow> string \<times> string \<Rightarrow>
     manifest_error + module_entry table \<times> string table" where
  "add_visible_module fail_closed unit_name library_unit st m =
     (case (st, m) of ((idx, visible), (logical, path)) \<Rightarrow>
      let visible' = t_insert logical library_unit visible in
      case t_get visible logical of
        Some previous \<Rightarrow>
          if fail_closed then Inl (Bail ''ambiguous module visible to unit from libraries'' [logical, unit_name, previous, library_unit])
          else Inr (idx, visible')
      | None \<Rightarrow>
          rbind (insert_module_entry logical (module_entry_new library_unit path PublicLibraryModule) idx) (\<lambda>idx'.
            Inr (idx', visible')))"

text \<open>One declared library.\<close>

definition add_visible_library ::
    "bool \<Rightarrow> unit_catalog \<Rightarrow> string \<Rightarrow> module_entry table \<times> string table \<Rightarrow> string \<Rightarrow>
     manifest_error + module_entry table \<times> string table" where
  "add_visible_library fail_closed cat unit_name st dep =
     (case t_get (uc_library_units cat) dep of
        None \<Rightarrow>
          if fail_closed
          then (case t_get (uc_denied_external_libraries cat) dep of
                  Some source_id \<Rightarrow> Inl (Bail ''external source does not allow library'' [source_id, dep])
                | None \<Rightarrow> Inl (Bail ''unit declares unknown library'' [unit_name, dep]))
          else Inr st
      | Some library_unit \<Rightarrow>
          (case t_get (uc_units cat) library_unit of
             None \<Rightarrow> Inl (Bail ''panic'' [library_unit])
           | Some lu \<Rightarrow>
               (case validate_library_visibility unit_name dep lu of
                  Inl e \<Rightarrow> if fail_closed then Inl e else Inr st
                | Inr _ \<Rightarrow> fold_result (add_visible_module fail_closed unit_name library_unit) st (t_iter (cu_public_modules lu)))))"

definition visible_module_index :: "bool \<Rightarrow> unit_catalog \<Rightarrow> string \<Rightarrow> catalog_unit \<Rightarrow> manifest_error + module_entry table" where
  "visible_module_index fail_closed cat unit_name u =
     rbind (fold_result (\<lambda>idx (logical, path).
              insert_module_entry logical (module_entry_new unit_name path OwnerModule) idx) t_empty
              (t_iter (cu_own_modules u))) (\<lambda>idx.
     rbind (fold_result (add_visible_library fail_closed cat unit_name) (idx, t_empty) (um_lib_deps (cu_manifest u)))
       (\<lambda>(idx', _). Inr idx'))"

definition build_visible_module_indexes :: "bool \<Rightarrow> unit_catalog \<Rightarrow> manifest_error + unit_catalog" where
  "build_visible_module_indexes fail_closed cat =
     fold_result (\<lambda>cat (name, u).
       rbind (visible_module_index fail_closed cat name u) (\<lambda>idx.
         Inr (cat\<lparr>uc_units := t_insert name (u\<lparr>cu_module_index := idx\<rparr>) (uc_units cat)\<rparr>))) cat (t_iter (uc_units cat))"

definition build_indexes :: "catalog_fs \<Rightarrow> bool \<Rightarrow> unit_catalog \<Rightarrow> manifest_error + unit_catalog" where
  "build_indexes F fail_closed cat =
     rbind (build_own_module_indexes F cat) (build_visible_module_indexes fail_closed)"

text \<open>The lock is the one given, or the one on disk, or empty.\<close>

definition choose_lock :: "lockfile option \<Rightarrow> (manifest_error + lockfile_toml) option \<Rightarrow> manifest_error + lockfile" where
  "choose_lock override on_disk =
     (case override of
        Some lf \<Rightarrow> Inr lf
      | None \<Rightarrow> (case on_disk of
            Some parsed \<Rightarrow> rbind parsed (\<lambda>t. Inr (into_lockfile t))
          | None \<Rightarrow> Inr \<lparr>lf_entries = [], lf_external_sources = []\<rparr>))"

definition excluded_root :: "string \<Rightarrow> string list \<Rightarrow> string \<Rightarrow> bool" where
  "excluded_root root excluded unit_root \<longleftrightarrow>
     list_ex (\<lambda>e. e \<noteq> root \<and> (unit_root = e \<or> is_under unit_root e)) excluded"

definition from_workspace_inner ::
    "source_env \<Rightarrow> (manifest_error + lockfile_toml) option \<Rightarrow> catalog_fs \<Rightarrow> string \<Rightarrow> workspace_manifest \<Rightarrow> bool \<Rightarrow>
     lockfile option \<Rightarrow> string list \<Rightarrow> string table \<Rightarrow> manifest_error + unit_catalog \<times> catalog_fs" where
  "from_workspace_inner E on_disk F root workspace fail_closed lock_override excluded local_roots =
     rbind (choose_lock lock_override on_disk) (\<lambda>lf.
     rbind (discover_unit_roots F root (ws_discovered_units workspace)) (\<lambda>unit_roots.
     rbind (fold_result (add_workspace_unit F root) (t_empty, t_empty)
              (filter (\<lambda>u. \<not> excluded_root root excluded u) unit_roots)) (\<lambda>st.
     let sources = filter (\<lambda>s. es_libraries s \<noteq> []) (ws_external_sources workspace) in
     rbind (if sources = [] then Inr ([], F)
            else if local_roots = t_empty then fetch_locked_sources E lf F sources
            else fetch_locked_sources_with_local_roots E lf local_roots F sources) (\<lambda>(checkouts, F').
     rbind (add_external_units F' checkouts st) (\<lambda>(units, library_units).
     rbind (build_indexes F' fail_closed
              \<lparr>uc_workspace_root = root, uc_workspace = workspace, uc_lockfile = lf, uc_units = units,
               uc_library_units = library_units,
               uc_denied_external_libraries = denied_external_libraries checkouts library_units,
               uc_graph = graph_from_units units\<rparr>) (\<lambda>cat. Inr (cat, F')))))))"

text \<open>The directories from a canonical path up to the root.\<close>

definition ancestors :: "string \<Rightarrow> string list" where
  "ancestors path =
     (let comps = filter (\<lambda>c. c \<noteq> []) (split_on (CHR ''/'') path)
      in map (\<lambda>n. CHR ''/'' # join ''/'' (take n comps)) (List.rev [0..<Suc (length comps)]))"

text \<open>The root of the workspace: the nearest directory with a workspace manifest.\<close>

definition discover_workspace_root :: "catalog_fs \<Rightarrow> string \<Rightarrow> manifest_error + string option" where
  "discover_workspace_root F start =
     rbind (canonical F start) (\<lambda>current.
       Inr (List.find (\<lambda>d. cf_exists F (path_join d WORKSPACE_MANIFEST))
              (if cf_is_dir F current then ancestors current else tl (ancestors current))))"

definition discover_with ::
    "source_env \<Rightarrow> (string \<Rightarrow> (manifest_error + lockfile_toml) option) \<Rightarrow> catalog_fs \<Rightarrow> string \<Rightarrow> bool \<Rightarrow>
     lockfile option \<Rightarrow> string list \<Rightarrow> string table \<Rightarrow> manifest_error + (unit_catalog \<times> catalog_fs) option" where
  "discover_with E on_disk F start fail_closed lock_override excluded local_roots =
     rbind (discover_workspace_root F start) (\<lambda>found.
     case found of
       None \<Rightarrow> Inr None
     | Some root \<Rightarrow>
         rbind (parse_workspace_file F (path_join root WORKSPACE_MANIFEST)) (\<lambda>workspace.
         rbind (from_workspace_inner E (on_disk root) F root workspace fail_closed lock_override excluded local_roots)
           (\<lambda>r. Inr (Some r))))"

definition discover :: "source_env \<Rightarrow> (string \<Rightarrow> (manifest_error + lockfile_toml) option) \<Rightarrow> catalog_fs \<Rightarrow> string \<Rightarrow>
    manifest_error + (unit_catalog \<times> catalog_fs) option" where
  "discover E on_disk F start = discover_with E on_disk F start True None [] t_empty"

definition discover_for_validation :: "source_env \<Rightarrow> (string \<Rightarrow> (manifest_error + lockfile_toml) option) \<Rightarrow> catalog_fs \<Rightarrow> string \<Rightarrow>
    manifest_error + (unit_catalog \<times> catalog_fs) option" where
  "discover_for_validation E on_disk F start = discover_with E on_disk F start False None [] t_empty"

definition discover_excluding_roots_with_local_sources ::
    "source_env \<Rightarrow> (string \<Rightarrow> (manifest_error + lockfile_toml) option) \<Rightarrow> catalog_fs \<Rightarrow> string \<Rightarrow> string list \<Rightarrow> string table \<Rightarrow>
     manifest_error + (unit_catalog \<times> catalog_fs) option" where
  "discover_excluding_roots_with_local_sources E on_disk F start excluded local_roots =
     discover_with E on_disk F start True None excluded local_roots"

definition discover_with_lock_and_local_sources ::
    "source_env \<Rightarrow> (string \<Rightarrow> (manifest_error + lockfile_toml) option) \<Rightarrow> catalog_fs \<Rightarrow> string \<Rightarrow> lockfile \<Rightarrow> string table \<Rightarrow>
     manifest_error + (unit_catalog \<times> catalog_fs) option" where
  "discover_with_lock_and_local_sources E on_disk F start lf local_roots =
     discover_with E on_disk F start True (Some lf) [] local_roots"

section \<open>Requiring\<close>

record manifest_require_scope =
  rs_owner_unit :: string
  rs_modules :: "module_entry table"

definition require_scope_for_unit :: "unit_catalog \<Rightarrow> string \<Rightarrow> manifest_error + manifest_require_scope" where
  "require_scope_for_unit cat unit_name =
     (case t_get (uc_units cat) unit_name of
        None \<Rightarrow> Inl (Bail ''unknown unit'' [unit_name])
      | Some u \<Rightarrow> Inr \<lparr>rs_owner_unit = cu_catalog_name u, rs_modules = cu_module_index u\<rparr>)"

definition unit_name_for_root :: "catalog_fs \<Rightarrow> unit_catalog \<Rightarrow> string \<Rightarrow> manifest_error + string option" where
  "unit_name_for_root F cat owner_dir =
     rbind (canonical F owner_dir) (\<lambda>p.
       Inr (map_option (\<lambda>(_, u). cu_catalog_name u)
              (List.find (\<lambda>(_, u). cu_unit_root u = p \<or> cu_code_root u = p) (t_iter (uc_units cat)))))"

definition require_scope_for_root :: "catalog_fs \<Rightarrow> unit_catalog \<Rightarrow> string \<Rightarrow> manifest_error + manifest_require_scope" where
  "require_scope_for_root F cat owner_dir =
     rbind (unit_name_for_root F cat owner_dir) (\<lambda>found.
     case found of
       None \<Rightarrow> Inl (Bail ''no manifest unit owns'' [owner_dir])
     | Some name \<Rightarrow> require_scope_for_unit cat name)"

definition scope_resolve :: "manifest_require_scope \<Rightarrow> string \<Rightarrow> string option" where
  "scope_resolve scope logical = map_option me_path (t_get (rs_modules scope) logical)"

section \<open>Local roots of external sources\<close>

text \<open>Which external sources the package roots of other workspaces stand for.\<close>

definition note_local_root ::
    "catalog_fs \<Rightarrow> string \<Rightarrow> string table \<Rightarrow> string table \<times> string list \<Rightarrow> string \<Rightarrow> manifest_error + string table \<times> string list" where
  "note_local_root F host_dir declarations st package_root =
     (case st of (local_roots, missing) \<Rightarrow>
      rbind (discover_workspace_root F package_root) (\<lambda>found.
      case found of
        None \<Rightarrow> Inr st
      | Some workspace_root \<Rightarrow>
          if workspace_root = host_dir then Inr st
          else (case file_name package_root of
                  None \<Rightarrow> Inl (Bail ''package root has no basename'' [package_root])
                | Some package \<Rightarrow>
                    rbind (validate_ext_name ''package root basename'' package) (\<lambda>_.
                    case t_get declarations package of
                      None \<Rightarrow> Inr (local_roots, missing @ [package])
                    | Some source_id \<Rightarrow>
                        (case t_get local_roots source_id of
                           Some previous \<Rightarrow>
                             if previous \<noteq> workspace_root
                             then Inl (Bail ''selected from multiple workspace roots'' [source_id, previous, workspace_root])
                             else Inr (t_insert source_id workspace_root local_roots, missing)
                         | None \<Rightarrow> Inr (t_insert source_id workspace_root local_roots, missing))))))"

definition local_source_roots_for_package_roots ::
    "catalog_fs \<Rightarrow> string \<Rightarrow> external_source_decl list \<Rightarrow> string list \<Rightarrow> manifest_error + string table" where
  "local_source_roots_for_package_roots F host_dir sources package_roots =
     (if sources = [] \<or> package_roots = [] then Inr t_empty
      else rbind (external_package_declarations sources) (\<lambda>declarations.
           rbind (fold_result (note_local_root F host_dir declarations) (t_empty, []) package_roots) (\<lambda>(local_roots, missing).
             if missing \<noteq> [] then Inl (Bail ''platform packages are not declared'' (remdups (sort missing)))
             else Inr local_roots)))"

end
