(* ===== verification/Catalog_Theorems.thy ===== *)
theory Catalog_Theorems
  imports Unit_Catalog
begin

text \<open>
  What a unit may require: exactly its own modules and the public modules of the libraries it declares and
  that admit it. What a checkout of an external source is: the tree, the exports and the libraries that
  the lock and the manifest agree on. The bytes that are hashed determine a tree without zero bytes in
  it, and only such a tree.
\<close>

section \<open>Insertions\<close>

lemma insert_new_get:
  assumes "insert_new label k v t = Inr t'"
  shows "t_get t k = None" and "t_get t' = (t_get t)(k \<mapsto> v)" and "t_ok t \<Longrightarrow> t_ok t'"
  using assms by (auto simp: insert_new_def tab.get_ins tab.ok_ins split: option.splits)

lemma insert_all:
  assumes "fold_result (\<lambda>t (k, v). insert_new label k (g v) t) t xs = Inr t'"
  shows "(\<forall>k e. t_get t' k = Some e \<longleftrightarrow> t_get t k = Some e \<or> (\<exists>v. (k, v) \<in> set xs \<and> e = g v)) \<and>
    (t_ok t \<longrightarrow> t_ok t') \<and> (\<forall>k v. (k, v) \<in> set xs \<longrightarrow> t_get t k = None)"
  using assms
proof (induction xs arbitrary: t)
  case (Cons x xs)
  obtain l w where x: "x = (l, w)" by (cases x)
  then obtain t1 where one: "insert_new label l (g w) t = Inr t1"
    and rest: "fold_result (\<lambda>t (k, v). insert_new label k (g v) t) t1 xs = Inr t'" using Cons.prems by auto
  note one = insert_new_get [OF one]
  have fresh: "t_get t k = None \<and> k \<noteq> l" if "(k, v) \<in> set xs" for k v
  proof -
    have "t_get t1 k = None" using Cons.IH [OF rest] that by blast
    then show ?thesis using one(2) by (cases "k = l") simp_all
  qed
  have "t_get t' k = Some e \<longleftrightarrow> t_get t k = Some e \<or> (\<exists>v. (k, v) \<in> set (x # xs) \<and> e = g v)" for k e
  proof (cases "k = l")
    case True
    then show ?thesis using Cons.IH [OF rest] one(1,2) x fresh by auto
  next
    case False
    then show ?thesis using Cons.IH [OF rest] one(2) x by simp
  qed
  moreover have "t_get t k = None" if "(k, v) \<in> set (x # xs)" for k v using that fresh one(1) x by auto
  ultimately show ?case using Cons.IH [OF rest] one(3) by blast
qed auto

lemmas insert_all_get = insert_all [THEN conjunct1, rule_format]
  and insert_all_ok = insert_all [THEN conjunct2, THEN conjunct1, rule_format]
  and insert_all_fresh = insert_all [THEN conjunct2, THEN conjunct2, rule_format]

section \<open>The index of one unit\<close>

text \<open>When the catalog fails closed, a visible module is inserted or the whole index is refused.\<close>

lemma add_visible_modules:
  assumes "fold_result (add_visible_module True n L) (idx, vis) ms = Inr (idx', vis')"
  shows "(\<forall>m e. t_get idx' m = Some e \<longleftrightarrow> t_get idx m = Some e \<or>
      (\<exists>p. (m, p) \<in> set ms \<and> e = module_entry_new L p PublicLibraryModule))"
  using assms
proof (induction ms arbitrary: idx vis)
  case (Cons x ms)
  obtain l p where x: "x = (l, p)" by (cases x)
  obtain idx1 where one: "insert_module_entry l (module_entry_new L p PublicLibraryModule) idx = Inr idx1"
    and rest: "fold_result (add_visible_module True n L) (idx1, t_insert l L vis) ms = Inr (idx', vis')"
  proof -
    obtain st where st: "add_visible_module True n L (idx, vis) (l, p) = Inr st"
      and rest: "fold_result (add_visible_module True n L) st ms = Inr (idx', vis')" using Cons.prems x by auto
    from st obtain idx1 where "insert_module_entry l (module_entry_new L p PublicLibraryModule) idx = Inr idx1"
      "st = (idx1, t_insert l L vis)" by (auto simp: add_visible_module_def Let_def split: option.splits)
    with rest that show ?thesis by blast
  qed
  have "t_get idx l = None" "t_get idx1 = (t_get idx)(l \<mapsto> module_entry_new L p PublicLibraryModule)"
    using insert_new_get [OF one [unfolded insert_module_entry_def]] by simp_all
  with Cons.IH [OF rest] x show ?case by auto
qed simp

text \<open>Which library a declared dependency gives access to.\<close>

definition dep_grants :: "unit_catalog \<Rightarrow> string \<Rightarrow> string \<Rightarrow> string \<Rightarrow> catalog_unit \<Rightarrow> bool" where
  "dep_grants cat n dep L lu \<longleftrightarrow> t_get (uc_library_units cat) dep = Some L \<and> t_get (uc_units cat) L = Some lu \<and>
     (case um_visibility (cu_manifest lu) of VisiblePublic \<Rightarrow> True | VisibleAllow allow \<Rightarrow> n \<in> set allow)"

lemma add_visible_library_step:
  assumes "add_visible_library True cat n (idx, vis) dep = Inr (idx', vis')"
  obtains L lu where "dep_grants cat n dep L lu"
    "\<And>m e. t_get idx' m = Some e \<longleftrightarrow> t_get idx m = Some e \<or>
       (\<exists>p. (m, p) \<in> set (t_iter (cu_public_modules lu)) \<and> e = module_entry_new L p PublicLibraryModule)"
proof -
  obtain L lu where L: "t_get (uc_library_units cat) dep = Some L" "t_get (uc_units cat) L = Some lu"
    and vis: "validate_library_visibility n dep lu = Inr ()"
    and run: "fold_result (add_visible_module True n L) (idx, vis) (t_iter (cu_public_modules lu)) = Inr (idx', vis')"
    using assms by (auto simp: add_visible_library_def split: option.splits sum.splits)
  have "dep_grants cat n dep L lu"
    using L vis by (auto simp: dep_grants_def validate_library_visibility_def split: unit_visibility.splits if_splits)
  then show thesis by (rule that) (use add_visible_modules [OF run] in blast)
qed

text \<open>The entry a dependency contributes under a name.\<close>

definition dep_gives :: "unit_catalog \<Rightarrow> string \<Rightarrow> string \<Rightarrow> string \<Rightarrow> module_entry \<Rightarrow> bool" where
  "dep_gives cat n dep m e \<longleftrightarrow>
     (\<exists>L lu p. dep_grants cat n dep L lu \<and> (m, p) \<in> set (t_iter (cu_public_modules lu)) \<and>
        e = module_entry_new L p PublicLibraryModule)"

lemma dep_gives_iff:
  "dep_grants cat n dep L lu \<Longrightarrow> dep_gives cat n dep m e \<longleftrightarrow>
     (\<exists>p. (m, p) \<in> set (t_iter (cu_public_modules lu)) \<and> e = module_entry_new L p PublicLibraryModule)"
  by (auto simp: dep_gives_def dep_grants_def)

lemma add_visible_libraries:
  assumes "fold_result (add_visible_library True cat n) (idx, vis) deps = Inr (idx', vis')"
  shows "(\<forall>dep \<in> set deps. \<exists>L lu. dep_grants cat n dep L lu) \<and>
    (\<forall>m e. t_get idx' m = Some e \<longleftrightarrow> t_get idx m = Some e \<or> (\<exists>dep \<in> set deps. dep_gives cat n dep m e))"
  using assms
proof (induction deps arbitrary: idx vis)
  case (Cons dep deps)
  then obtain idx1 vis1 where one: "add_visible_library True cat n (idx, vis) dep = Inr (idx1, vis1)"
    and rest: "fold_result (add_visible_library True cat n) (idx1, vis1) deps = Inr (idx', vis')" by auto
  from one obtain L lu where g: "dep_grants cat n dep L lu"
    and step: "\<And>m e. t_get idx1 m = Some e \<longleftrightarrow> t_get idx m = Some e \<or>
       (\<exists>p. (m, p) \<in> set (t_iter (cu_public_modules lu)) \<and> e = module_entry_new L p PublicLibraryModule)"
    by (rule add_visible_library_step) blast
  have "t_get idx1 m = Some e \<longleftrightarrow> t_get idx m = Some e \<or> dep_gives cat n dep m e" for m e
    using step dep_gives_iff [OF g] by simp
  then show ?case using Cons.IH [OF rest] g by auto
qed simp

lemma visible_index:
  assumes "visible_module_index True cat n u = Inr idx"
  shows "(\<forall>dep \<in> set (um_lib_deps (cu_manifest u)). \<exists>L lu. dep_grants cat n dep L lu) \<and>
    (\<forall>m e. t_get idx m = Some e \<longleftrightarrow>
      (\<exists>p. (m, p) \<in> set (t_iter (cu_own_modules u)) \<and> e = module_entry_new n p OwnerModule) \<or>
      (\<exists>dep \<in> set (um_lib_deps (cu_manifest u)). dep_gives cat n dep m e))"
proof -
  obtain own vis where own: "fold_result (\<lambda>idx (logical, path).
              insert_module_entry logical (module_entry_new n path OwnerModule) idx) t_empty (t_iter (cu_own_modules u)) = Inr own"
    and run: "fold_result (add_visible_library True cat n) (own, t_empty) (um_lib_deps (cu_manifest u)) = Inr (idx, vis)"
    using assms by (auto simp: visible_module_index_def)
  have "t_get own m = Some e \<longleftrightarrow> (\<exists>p. (m, p) \<in> set (t_iter (cu_own_modules u)) \<and> e = module_entry_new n p OwnerModule)" for m e
    using insert_all_get [OF own [unfolded insert_module_entry_def]] by (simp add: tab.get_empty)
  then show ?thesis using add_visible_libraries [OF run] by simp
qed

section \<open>Updating all units\<close>

text \<open>Both passes over the catalog update each unit once, from what the updates do not change.\<close>

lemma update_units:
  assumes run: "fold_result (\<lambda>cat (n, u). rbind (g cat n u) (\<lambda>x. Inr (cat\<lparr>uc_units := t_insert n (h u x) (uc_units cat)\<rparr>)))
      cat rows = Inr cat'"
    and rows: "distinct (map fst rows)" "\<And>n u. (n, u) \<in> set rows \<Longrightarrow> t_get (uc_units cat) n = Some u"
    and frame: "\<And>a b. view a = view b \<Longrightarrow> g a = g b"
    and invisible: "\<And>a n u x. t_get (uc_units a) n = Some u \<Longrightarrow> view (a\<lparr>uc_units := t_insert n (h u x) (uc_units a)\<rparr>) = view a"
  shows "view cat' = view cat \<and> cat' = cat\<lparr>uc_units := uc_units cat'\<rparr> \<and> (t_ok (uc_units cat) \<longrightarrow> t_ok (uc_units cat')) \<and>
    (\<forall>n u. (n, u) \<in> set rows \<longrightarrow> (\<exists>x. g cat n u = Inr x \<and> t_get (uc_units cat') n = Some (h u x))) \<and>
    (\<forall>n. n \<notin> fst ` set rows \<longrightarrow> t_get (uc_units cat') n = t_get (uc_units cat) n)"
  using run rows
proof (induction rows arbitrary: cat)
  case (Cons row rows)
  obtain n u where row: "row = (n, u)" by (cases row)
  then obtain x where x: "g cat n u = Inr x"
    and rest: "fold_result (\<lambda>cat (n, u). rbind (g cat n u) (\<lambda>x. Inr (cat\<lparr>uc_units := t_insert n (h u x) (uc_units cat)\<rparr>)))
      (cat\<lparr>uc_units := t_insert n (h u x) (uc_units cat)\<rparr>) rows = Inr cat'"
    using Cons.prems(1) by auto
  let ?c = "cat\<lparr>uc_units := t_insert n (h u x) (uc_units cat)\<rparr>"
  have u: "t_get (uc_units cat) n = Some u" using Cons.prems(3) row by simp
  have new: "n \<notin> fst ` set rows" using Cons.prems(2) row by simp
  have "t_get (uc_units ?c) k = Some v" if "(k, v) \<in> set rows" for k v
    using Cons.prems(3) [of k v] that new by (auto simp: tab.get_ins rev_image_eqI)
  note IH = Cons.IH [OF rest _ this]
  have view: "view ?c = view cat" by (rule invisible [OF u])
  have "t_get (uc_units cat') n = Some (h u x)" using IH Cons.prems(2) row new by (simp add: tab.get_ins)
  then show ?case
    using IH Cons.prems(2) row x view frame [OF view] by (auto simp: tab.get_ins tab.ok_ins)
qed simp

section \<open>The modules of a unit\<close>

definition scan_wf :: "string \<Rightarrow> own_module_scan \<Rightarrow> bool" where
  "scan_wf name sc \<longleftrightarrow> t_ok (os_own sc) \<and> t_ok (os_public sc) \<and>
     (\<forall>m. t_get (os_private sc) m \<noteq> None \<longrightarrow> t_get (os_public sc) m = None) \<and>
     (\<forall>m. t_get (os_public sc) m \<noteq> None \<longrightarrow> m = name \<or> starts_with m (name @ ''.''))"

lemma fold_result_append: "fold_result f s (xs @ ys) = rbind (fold_result f s xs) (\<lambda>s'. fold_result f s' ys)"
proof (induction xs arbitrary: s)
  case (Cons x xs)
  then show ?case by (cases "f s x") simp_all
qed simp

lemma insert_all_plain:
  assumes "fold_result (\<lambda>t (k, v). insert_new label k v t) t xs = Inr t'"
  shows "t_get t' k = Some e \<longleftrightarrow> t_get t k = Some e \<or> (k, e) \<in> set xs" and "t_ok t \<Longrightarrow> t_ok t'"
  using insert_all_get [of label "\<lambda>v. v" t xs t' k e] insert_all_ok [of label "\<lambda>v. v" t xs t'] assms by simp_all

lemma fold_insert_renamed:
  "fold_result (\<lambda>t (l, p). insert_new label (f l) p t) t xs =
   fold_result (\<lambda>t (k, v). insert_new label k v t) t (map (\<lambda>(l, p). (f l, p)) xs)"
proof (induction xs arbitrary: t)
  case (Cons x xs)
  then show ?case by (cases x; cases "insert_new label (f (fst x)) (snd x) t") simp_all
qed simp

lemma scan_lua_ok: "scan_lua_modules_inner F root allow = Inr t \<Longrightarrow> t_ok t"
proof (unfold scan_lua_modules_inner_def, elim rbind_Inr_E)
  fix entries assume "fold_result (scan_lua_entry F root allow) t_empty (tree_walk (\<lambda>_. False) [] entries) = Inr t"
  then show "t_ok t"
    by (rule fold_result_inv)
      (auto simp: tab.ok_empty scan_lua_entry_def insert_path_entry_def insert_new_get(3) split: prod.splits tree_entry.splits option.splits)
qed

lemma prefix_modules:
  assumes "prefix_library_public_modules name raw = Inr t"
  shows "t_ok t" and "t_get t m \<noteq> None \<Longrightarrow> m = name \<or> starts_with m (name @ ''.'')"
proof -
  let ?f = "\<lambda>l. if l = [] then name else name @ ''.'' @ l"
  have run: "fold_result (\<lambda>t (k, v). insert_new ''duplicate logical module'' k v t) t_empty (map (\<lambda>(l, p). (?f l, p)) (t_iter raw)) = Inr t"
    using assms fold_insert_renamed [of "''duplicate logical module''" ?f t_empty "t_iter raw"]
    by (simp add: prefix_library_public_modules_def insert_path_entry_def)
  show "t_ok t" by (rule insert_all_plain(2) [OF run tab.ok_empty])
  show "m = name \<or> starts_with m (name @ ''.'')" if "t_get t m \<noteq> None"
    using that insert_all_plain(1) [OF run, of m] by (auto simp: tab.get_empty starts_with_def split: if_splits)
qed

lemma scan_own_wf:
  assumes "scan_own_modules F u = Inr sc"
  shows "scan_wf (library_name u) sc"
proof (cases "is_library u")
  case False
  then show ?thesis
    using assms scan_lua_ok by (auto simp: scan_own_modules_def scan_lua_modules_def scan_wf_def tab.ok_empty tab.get_empty)
next
  case True
  then obtain raw priv where pub: "prefix_library_public_modules (library_name u) raw = Inr (os_public sc)"
    and own: "fold_result (\<lambda>own (logical, path). insert_path_entry logical path own) t_empty
                 (t_iter (os_public sc) @ t_iter (os_private sc)) = Inr (os_own sc)"
    using assms by (auto simp: scan_own_modules_def Let_def)
  note run = own [unfolded insert_path_entry_def]
  have priv_fresh: "t_get (os_public sc) m = None" if priv: "t_get (os_private sc) m \<noteq> None" for m
  proof (rule ccontr)
    assume "t_get (os_public sc) m \<noteq> None"
    then obtain p q where "(m, p) \<in> set (t_iter (os_public sc))" "(m, q) \<in> set (t_iter (os_private sc))"
      using priv by (auto simp: t_get_def t_iter_def dest!: map_of_SomeD)
    moreover obtain t1 where "fold_result (\<lambda>t (k, v). insert_new ''duplicate logical module'' k v t) t_empty (t_iter (os_public sc)) = Inr t1"
      "fold_result (\<lambda>t (k, v). insert_new ''duplicate logical module'' k v t) t1 (t_iter (os_private sc)) = Inr (os_own sc)"
      using run by (auto simp: fold_result_append)
    ultimately show False
      using insert_all_plain(1) [of _ t_empty "t_iter (os_public sc)" t1 m p]
        insert_all_fresh [of _ "\<lambda>v. v" t1 "t_iter (os_private sc)" "os_own sc" m q] by auto
  qed
  then show ?thesis
    using prefix_modules [OF pub] insert_all_plain(2) [OF run tab.ok_empty] by (auto simp: scan_wf_def)
qed

section \<open>The tables of units\<close>

definition units_wf :: "catalog_unit table \<Rightarrow> string table \<Rightarrow> bool" where
  "units_wf units libs \<longleftrightarrow> t_ok units \<and> (\<forall>n u. t_get units n = Some u \<longrightarrow> cu_catalog_name u = n) \<and>
     (\<forall>d L. t_get libs d = Some L \<longrightarrow> (\<exists>lu. t_get units L = Some lu \<and> is_library lu \<and> library_name lu = d))"

lemma units_wf_insert:
  assumes "units_wf units libs" and "t_get units n = None" and "cu_catalog_name u = n"
    and "libs' = libs \<or> (\<exists>label. insert_new label (library_name u) n libs = Inr libs' \<and> is_library u)"
  shows "units_wf (t_insert n u units) libs'"
proof -
  have keep: "\<exists>lu. t_get (t_insert n u units) L = Some lu \<and> is_library lu \<and> library_name lu = d" if d: "t_get libs d = Some L" for d L
  proof -
    obtain lu where "t_get units L = Some lu" "is_library lu" "library_name lu = d" using assms(1) d unfolding units_wf_def by blast
    then show ?thesis using assms(2) by (auto simp: tab.get_ins)
  qed
  have "\<exists>lu. t_get (t_insert n u units) L = Some lu \<and> is_library lu \<and> library_name lu = d" if d: "t_get libs' d = Some L" for d L
    using assms(4)
  proof (elim disjE exE conjE)
    fix label assume new: "insert_new label (library_name u) n libs = Inr libs'" and "is_library u"
    then show ?thesis using d keep [of d L] insert_new_get(2) [OF new] by (cases "d = library_name u") (auto simp: tab.get_ins)
  qed (use d keep in simp)
  then show ?thesis using assms(1,3) by (auto simp: units_wf_def tab.ok_ins tab.get_ins)
qed

lemma add_workspace_unit_wf:
  assumes "add_workspace_unit F root st r = Inr st'" and "units_wf (fst st) (snd st)"
  shows "units_wf (fst st') (snd st')"
proof -
  obtain units libs where st: "st = (units, libs)" by (cases st)
  obtain m code_root libs' where m: "t_get units (um_name m) = None"
    and st': "st' = (t_insert (um_name m) (catalog_unit_new (um_name m) r code_root m) units, libs')"
    and libs': "(if is_library (catalog_unit_new (um_name m) r code_root m)
                  then rbind (validate_manifest_name (library_name (catalog_unit_new (um_name m) r code_root m))) (\<lambda>_.
                         insert_new ''duplicate library name'' (library_name (catalog_unit_new (um_name m) r code_root m)) (um_name m) libs)
                  else Inr libs) = Inr libs'"
    using assms(1) by (auto simp: add_workspace_unit_def st Let_def catalog_unit_new_def split: if_splits)
  have "units_wf (t_insert (um_name m) (catalog_unit_new (um_name m) r code_root m) units) libs'"
    using libs' assms(2) m
    by (intro units_wf_insert [of units libs]) (auto simp: st catalog_unit_new_def split: if_splits)
  then show ?thesis by (simp add: st')
qed

lemma add_external_library_wf:
  assumes "add_external_library F c rs st lib = Inr st'" and "units_wf (fst st) (snd st)"
  shows "units_wf (fst st') (snd st')"
proof -
  obtain units libs where st: "st = (units, libs)" by (cases st)
  obtain r m where found: "List.find (\<lambda>(unit_root, m). um_kind m = LibraryUnit \<and>
        relative_unit (sc_root c) unit_root = Some (lc_unit lib)) rs = Some (r, m)"
    using assms(1) by (auto simp: add_external_library_def st split: option.splits)
  then have lib: "um_kind m = LibraryUnit" by (auto simp: find_Some_iff)
  let ?n = "external_provider_unit_id (sc_source_id c) (lc_name lib)"
  consider "st' = st" | code_root libs' where "t_get units ?n = None" "manifest_library_name m = lc_name lib"
    "insert_new ''duplicate library name'' (lc_name lib) ?n libs = Inr libs'"
    "st' = (t_insert ?n (catalog_unit_new ?n r code_root m) units, libs')"
    using assms(1) found by (auto simp: add_external_library_def st Let_def split: if_splits)
  then show ?thesis
  proof cases
    case (2 code_root libs')
    have "units_wf (t_insert ?n (catalog_unit_new ?n r code_root m) units) libs'"
      using assms(2) 2 lib
      by (intro units_wf_insert [of units libs]) (auto simp: st catalog_unit_new_def is_library_def library_name_def)
    then show ?thesis using 2(4) by simp
  qed (use assms(2) in simp)
qed

lemma add_external_units_wf:
  assumes "add_external_units F cs st = Inr st'" and "units_wf (fst st) (snd st)"
  shows "units_wf (fst st') (snd st')"
  using assms(1) unfolding add_external_units_def
proof (rule fold_result_inv [where P = "\<lambda>st. units_wf (fst st) (snd st)"])
  show "units_wf (fst st') (snd st')"
    if run: "rbind (library_units_below F (sc_root c)) (\<lambda>rs. fold_result (add_external_library F c rs) st (sc_libraries c)) = Inr st'"
      and wf: "units_wf (fst st) (snd st)" for st c st'
  proof -
    obtain rs where "fold_result (add_external_library F c rs) st (sc_libraries c) = Inr st'" using run by auto
    then show ?thesis
      by (rule fold_result_inv [where P = "\<lambda>st. units_wf (fst st) (snd st)"]) (use wf add_external_library_wf in auto)
  qed
qed (rule assms(2))

section \<open>The catalog\<close>

text \<open>What the second pass reads of the other units.\<close>

definition modules_view :: "unit_catalog \<Rightarrow> string table \<times> string table \<times> (string \<Rightarrow> (string table \<times> unit_manifest) option)" where
  "modules_view cat = (uc_library_units cat, uc_denied_external_libraries cat,
     \<lambda>n. map_option (\<lambda>u. (cu_public_modules u, cu_manifest u)) (t_get (uc_units cat) n))"

lemma modules_viewD:
  assumes "modules_view a = modules_view b"
  shows "uc_library_units a = uc_library_units b" "uc_denied_external_libraries a = uc_denied_external_libraries b"
    "map_option (\<lambda>u. (cu_public_modules u, cu_manifest u)) (t_get (uc_units a) n) =
     map_option (\<lambda>u. (cu_public_modules u, cu_manifest u)) (t_get (uc_units b) n)"
  using assms by (auto simp: modules_view_def dest: fun_cong)

lemma visible_module_index_view:
  assumes "modules_view a = modules_view b"
  shows "visible_module_index fc a = visible_module_index fc b"
proof -
  have "add_visible_library fc a n st dep = add_visible_library fc b n st dep" for n st dep
  proof (cases "t_get (uc_library_units b) dep")
    case (Some L)
    have "map_option (\<lambda>u. (cu_public_modules u, cu_manifest u)) (t_get (uc_units a) L) =
        map_option (\<lambda>u. (cu_public_modules u, cu_manifest u)) (t_get (uc_units b) L)" by (rule modules_viewD(3) [OF assms])
    then show ?thesis
      by (cases "t_get (uc_units a) L"; cases "t_get (uc_units b) L")
        (auto simp: add_visible_library_def validate_library_visibility_def modules_viewD(1,2) [OF assms] Some
          split: unit_visibility.splits)
  qed (simp add: add_visible_library_def modules_viewD(1,2) [OF assms])
  then have "add_visible_library fc a = add_visible_library fc b" by (intro ext)
  then show ?thesis by (intro ext) (simp add: visible_module_index_def)
qed

lemma dep_grants_view:
  assumes "modules_view a = modules_view b" and "dep_grants a n dep L lu"
  shows "\<exists>lu'. dep_grants b n dep L lu' \<and> cu_public_modules lu' = cu_public_modules lu"
  using assms(2) modules_viewD(1) [OF assms(1)] modules_viewD(3) [OF assms(1), of L]
  by (cases "t_get (uc_units b) L") (auto simp: dep_grants_def)

lemma dep_gives_view:
  assumes "modules_view a = modules_view b"
  shows "dep_gives a n dep m e \<longleftrightarrow> dep_gives b n dep m e"
  using dep_grants_view [OF assms] dep_grants_view [OF assms [symmetric]] unfolding dep_gives_def by metis

lemma own_indexes:
  assumes run: "build_own_module_indexes F cat = Inr cat'" and ok: "t_ok (uc_units cat)"
  shows "cat' = cat\<lparr>uc_units := uc_units cat'\<rparr>" and "t_ok (uc_units cat')"
    and "t_get (uc_units cat') n = Some u' \<Longrightarrow> \<exists>u sc. t_get (uc_units cat) n = Some u \<and> scan_own_modules F u = Inr sc \<and>
      u' = u\<lparr>cu_own_modules := os_own sc, cu_public_modules := os_public sc, cu_private_modules := os_private sc\<rparr>"
    and "t_get (uc_units cat) n = Some u \<Longrightarrow> \<exists>u'. t_get (uc_units cat') n = Some u'"
proof -
  have rows: "distinct (map fst (t_iter (uc_units cat)))" by (rule tab.entries_distinct [OF ok])
  have get: "t_get (uc_units cat) n = Some u" if "(n, u) \<in> set (t_iter (uc_units cat))" for n u
    using that ok by (simp add: tab.entries_get)
  have keys: "n \<in> fst ` set (t_iter (uc_units cat)) \<longleftrightarrow> t_get (uc_units cat) n \<noteq> None" for n
    using tab.entries_get [OF ok] by force
  note upd = update_units [OF run [unfolded build_own_module_indexes_def] rows get, where view = "\<lambda>_. ()", simplified]
  show "cat' = cat\<lparr>uc_units := uc_units cat'\<rparr>" "t_ok (uc_units cat')" using upd ok by blast+
  show "\<exists>u'. t_get (uc_units cat') n = Some u'" if "t_get (uc_units cat) n = Some u"
  proof -
    have "(n, u) \<in> set (t_iter (uc_units cat))" using that by (simp add: tab.entries_get [OF ok])
    then show ?thesis using upd by blast
  qed
  show "\<exists>u sc. t_get (uc_units cat) n = Some u \<and> scan_own_modules F u = Inr sc \<and>
      u' = u\<lparr>cu_own_modules := os_own sc, cu_public_modules := os_public sc, cu_private_modules := os_private sc\<rparr>"
    if u': "t_get (uc_units cat') n = Some u'"
  proof (cases "t_get (uc_units cat) n")
    case None
    then show ?thesis using upd keys [of n] u' by force
  next
    case (Some u)
    then have "(n, u) \<in> set (t_iter (uc_units cat))" by (simp add: tab.entries_get [OF ok])
    then obtain sc where "scan_own_modules F u = Inr sc"
      "t_get (uc_units cat') n = Some (u\<lparr>cu_own_modules := os_own sc, cu_public_modules := os_public sc, cu_private_modules := os_private sc\<rparr>)"
      using upd by blast
    then show ?thesis using Some u' by auto
  qed
qed

lemma visible_indexes:
  assumes run: "build_visible_module_indexes fc cat = Inr cat'" and ok: "t_ok (uc_units cat)"
  shows "modules_view cat' = modules_view cat" and "cat' = cat\<lparr>uc_units := uc_units cat'\<rparr>"
    and "t_get (uc_units cat') n = Some u' \<Longrightarrow> \<exists>u idx. t_get (uc_units cat) n = Some u \<and>
      visible_module_index fc cat n u = Inr idx \<and> u' = u\<lparr>cu_module_index := idx\<rparr>"
    and "t_get (uc_units cat) n = Some u \<Longrightarrow> \<exists>idx. t_get (uc_units cat') n = Some (u\<lparr>cu_module_index := idx\<rparr>)"
proof -
  have rows: "distinct (map fst (t_iter (uc_units cat)))" by (rule tab.entries_distinct [OF ok])
  have get: "t_get (uc_units cat) n = Some u" if "(n, u) \<in> set (t_iter (uc_units cat))" for n u
    using that ok by (simp add: tab.entries_get)
  have keys: "n \<in> fst ` set (t_iter (uc_units cat)) \<longleftrightarrow> t_get (uc_units cat) n \<noteq> None" for n
    using tab.entries_get [OF ok] by force
  have invisible: "modules_view (a\<lparr>uc_units := t_insert n (u\<lparr>cu_module_index := x\<rparr>) (uc_units a)\<rparr>) = modules_view a"
    if "t_get (uc_units a) n = Some u" for a n u x
    using that by (auto simp: modules_view_def tab.get_ins)
  note upd = update_units [OF run [unfolded build_visible_module_indexes_def] rows get visible_module_index_view invisible]
  show "modules_view cat' = modules_view cat" "cat' = cat\<lparr>uc_units := uc_units cat'\<rparr>" using upd by blast+
  show "\<exists>idx. t_get (uc_units cat') n = Some (u\<lparr>cu_module_index := idx\<rparr>)" if "t_get (uc_units cat) n = Some u"
  proof -
    have "(n, u) \<in> set (t_iter (uc_units cat))" using that by (simp add: tab.entries_get [OF ok])
    then show ?thesis using upd by blast
  qed
  show "\<exists>u idx. t_get (uc_units cat) n = Some u \<and> visible_module_index fc cat n u = Inr idx \<and> u' = u\<lparr>cu_module_index := idx\<rparr>"
    if u': "t_get (uc_units cat') n = Some u'"
  proof (cases "t_get (uc_units cat) n")
    case None
    then show ?thesis using upd keys [of n] u' by force
  next
    case (Some u)
    then have "(n, u) \<in> set (t_iter (uc_units cat))" by (simp add: tab.entries_get [OF ok])
    then obtain idx where "visible_module_index fc cat n u = Inr idx" "t_get (uc_units cat') n = Some (u\<lparr>cu_module_index := idx\<rparr>)"
      using upd by blast
    then show ?thesis using Some u' by auto
  qed
qed

text \<open>The stages of building a catalog.\<close>

lemma catalog_stages:
  assumes "from_workspace_inner E on_disk F root ws fc lo ex lr = Inr (cat, F')"
  obtains cat0 cat1 where "units_wf (uc_units cat0) (uc_library_units cat0)"
    "build_own_module_indexes F' cat0 = Inr cat1" "build_visible_module_indexes fc cat1 = Inr cat"
proof -
  obtain lf unit_roots st checkouts units libs where
    fold: "fold_result (add_workspace_unit F root) (t_empty, t_empty) (filter (\<lambda>u. \<not> excluded_root root ex u) unit_roots) = Inr st"
    and ext: "add_external_units F' checkouts st = Inr (units, libs)"
    and idx: "build_indexes F' fc \<lparr>uc_workspace_root = root, uc_workspace = ws, uc_lockfile = lf, uc_units = units,
               uc_library_units = libs, uc_denied_external_libraries = denied_external_libraries checkouts libs,
               uc_graph = graph_from_units units\<rparr> = Inr cat"
    using assms by (auto simp: from_workspace_inner_def Let_def split: prod.splits)
  let ?cat0 = "\<lparr>uc_workspace_root = root, uc_workspace = ws, uc_lockfile = lf, uc_units = units,
               uc_library_units = libs, uc_denied_external_libraries = denied_external_libraries checkouts libs,
               uc_graph = graph_from_units units\<rparr>"
  have "units_wf (fst st) (snd st)" using fold
  proof (rule fold_result_inv [where P = "\<lambda>st. units_wf (fst st) (snd st)"])
    show "units_wf (fst (t_empty, t_empty)) (snd (t_empty, t_empty))" by (simp add: units_wf_def tab.ok_empty tab.get_empty)
  qed (rule add_workspace_unit_wf)
  from add_external_units_wf [OF ext this] have "units_wf units libs" by simp
  then have wf: "units_wf (uc_units ?cat0) (uc_library_units ?cat0)" by simp
  obtain cat1 where "build_own_module_indexes F' ?cat0 = Inr cat1" "build_visible_module_indexes fc cat1 = Inr cat"
    using idx by (auto simp: build_indexes_def)
  with wf show thesis by (rule that)
qed

lemma built_units:
  assumes "units_wf (uc_units cat0) (uc_library_units cat0)" and own: "build_own_module_indexes F cat0 = Inr cat1"
    and vis: "build_visible_module_indexes fc cat1 = Inr cat"
  shows "t_ok (uc_units cat1)"
    and "t_get (uc_units cat) n = Some u \<Longrightarrow> \<exists>sc. scan_wf (library_name u) sc \<and> cu_catalog_name u = n \<and> cu_own_modules u = os_own sc \<and>
      cu_public_modules u = os_public sc \<and> cu_private_modules u = os_private sc"
    and "t_get (uc_library_units cat) d = Some L \<Longrightarrow> \<exists>lu. t_get (uc_units cat) L = Some lu \<and> is_library lu \<and> library_name lu = d"
proof -
  have ok: "t_ok (uc_units cat0)" using assms(1) by (simp add: units_wf_def)
  note o = own_indexes [OF own ok]
  show ok1: "t_ok (uc_units cat1)" by (rule o(2))
  note v = visible_indexes [OF vis ok1]
  {
    assume "t_get (uc_units cat) n = Some u"
    then obtain u1 idx where u1: "t_get (uc_units cat1) n = Some u1" "u = u1\<lparr>cu_module_index := idx\<rparr>" using v(3) by blast
    then obtain u0 sc where "t_get (uc_units cat0) n = Some u0" "scan_own_modules F u0 = Inr sc"
      "u1 = u0\<lparr>cu_own_modules := os_own sc, cu_public_modules := os_public sc, cu_private_modules := os_private sc\<rparr>"
      using o(3) by blast
    then show "\<exists>sc. scan_wf (library_name u) sc \<and> cu_catalog_name u = n \<and> cu_own_modules u = os_own sc \<and>
      cu_public_modules u = os_public sc \<and> cu_private_modules u = os_private sc"
      using assms(1) scan_own_wf u1(2) by (intro exI [of _ sc]) (auto simp: units_wf_def library_name_def)
  next
    assume L: "t_get (uc_library_units cat) d = Some L"
    have "uc_library_units cat = uc_library_units cat1" "uc_library_units cat1 = uc_library_units cat0"
      using arg_cong [OF v(2), of uc_library_units] arg_cong [OF o(1), of uc_library_units] by simp_all
    then obtain lu0 where lu0: "t_get (uc_units cat0) L = Some lu0" "is_library lu0" "library_name lu0 = d"
      using assms(1) L unfolding units_wf_def by metis
    then obtain lu1 where lu1: "t_get (uc_units cat1) L = Some lu1" using o(4) by blast
    then have "cu_manifest lu1 = cu_manifest lu0" using o(3) [OF lu1] lu0(1) by auto
    moreover obtain idx where "t_get (uc_units cat) L = Some (lu1\<lparr>cu_module_index := idx\<rparr>)" using v(4) [OF lu1] by blast
    ultimately show "\<exists>lu. t_get (uc_units cat) L = Some lu \<and> is_library lu \<and> library_name lu = d"
      using lu0 by (auto simp: is_library_def library_name_def)
  }
qed

lemma granted_library:
  assumes stages: "units_wf (uc_units cat0) (uc_library_units cat0)" "build_own_module_indexes F cat0 = Inr cat1"
      "build_visible_module_indexes fc cat1 = Inr cat"
    and g: "dep_grants cat n dep L lu"
  shows "is_library lu" and "library_name lu = dep" and "t_ok (cu_public_modules lu)"
    and "t_get (cu_public_modules lu) m \<noteq> None \<Longrightarrow> t_get (cu_private_modules lu) m = None"
    and "t_get (cu_public_modules lu) m \<noteq> None \<Longrightarrow> m = dep \<or> starts_with m (dep @ ''.'')"
proof -
  note built = built_units [OF stages]
  show "is_library lu" and name: "library_name lu = dep" using built(3) [of dep L] g by (auto simp: dep_grants_def)
  obtain s where "scan_wf (library_name lu) s" "cu_public_modules lu = os_public s" "cu_private_modules lu = os_private s"
    using built(2) g unfolding dep_grants_def by blast
  then show "t_ok (cu_public_modules lu)" "t_get (cu_public_modules lu) m \<noteq> None \<Longrightarrow> t_get (cu_private_modules lu) m = None"
    "t_get (cu_public_modules lu) m \<noteq> None \<Longrightarrow> m = dep \<or> starts_with m (dep @ ''.'')"
    unfolding scan_wf_def name by metis+
qed

text \<open>
  C9: the modules a unit may require. In a catalog that fails closed the index of a unit holds exactly its own
  modules and the public modules of the libraries it declares and that admit it. Every declared library is
  one of the catalog that admits the unit, its public modules are named after it, and none of its private
  modules is among them.
\<close>

theorem catalog_access:
  assumes "from_workspace_inner E on_disk F root ws True lo ex lr = Inr (cat, F')" and "t_get (uc_units cat) n = Some u"
  shows "require_scope_for_unit cat n = Inr \<lparr>rs_owner_unit = n, rs_modules = cu_module_index u\<rparr> \<and>
    (\<forall>m e. t_get (cu_module_index u) m = Some e \<longleftrightarrow>
       (\<exists>p. t_get (cu_own_modules u) m = Some p \<and> e = module_entry_new n p OwnerModule) \<or>
       (\<exists>dep L lu p. dep \<in> set (um_lib_deps (cu_manifest u)) \<and> dep_grants cat n dep L lu \<and>
          t_get (cu_public_modules lu) m = Some p \<and> e = module_entry_new L p PublicLibraryModule)) \<and>
    (\<forall>dep \<in> set (um_lib_deps (cu_manifest u)). \<exists>L lu. dep_grants cat n dep L lu \<and> is_library lu \<and> library_name lu = dep \<and>
       (\<forall>m. t_get (cu_public_modules lu) m \<noteq> None \<longrightarrow>
          (m = dep \<or> starts_with m (dep @ ''.'')) \<and> t_get (cu_private_modules lu) m = None))"
proof -
  from assms(1) obtain cat0 cat1 where stages: "units_wf (uc_units cat0) (uc_library_units cat0)"
    "build_own_module_indexes F' cat0 = Inr cat1" "build_visible_module_indexes True cat1 = Inr cat"
    by (rule catalog_stages)
  note built = built_units [OF stages] and v = visible_indexes [OF stages(3) built_units(1) [OF stages]]
  obtain u1 idx where u1: "visible_module_index True cat1 n u1 = Inr idx" "u = u1\<lparr>cu_module_index := idx\<rparr>"
    using v(3) [OF assms(2)] by blast
  obtain sc where sc: "scan_wf (library_name u) sc" "cu_catalog_name u = n" "cu_own_modules u = os_own sc"
    using built(2) [OF assms(2)] by blast
  have own: "(m, p) \<in> set (t_iter (cu_own_modules u)) \<longleftrightarrow> t_get (cu_own_modules u) m = Some p" for m p
    using sc(1,3) by (simp add: scan_wf_def tab.entries_get)
  have gives: "dep_gives cat1 n dep m e \<longleftrightarrow> (\<exists>L lu p. dep_grants cat n dep L lu \<and> t_get (cu_public_modules lu) m = Some p \<and>
      e = module_entry_new L p PublicLibraryModule)" for dep m e
  proof -
    have "dep_gives cat1 n dep m e \<longleftrightarrow> dep_gives cat n dep m e" by (rule dep_gives_view [OF v(1) [symmetric]])
    then show ?thesis using granted_library(3) [OF stages] tab.entries_get unfolding dep_gives_def by metis
  qed
  have idx: "cu_module_index u = idx" "cu_own_modules u1 = cu_own_modules u" "cu_manifest u1 = cu_manifest u" using u1(2) by simp_all
  note vi = visible_index [OF u1(1), unfolded idx(2,3) own gives]
  have "\<exists>L lu. dep_grants cat n dep L lu \<and> is_library lu \<and> library_name lu = dep \<and>
       (\<forall>m. t_get (cu_public_modules lu) m \<noteq> None \<longrightarrow>
          (m = dep \<or> starts_with m (dep @ ''.'')) \<and> t_get (cu_private_modules lu) m = None)"
    if dep: "dep \<in> set (um_lib_deps (cu_manifest u))" for dep
  proof -
    obtain L lu1 where "dep_grants cat1 n dep L lu1" using vi dep by blast
    then obtain lu where g: "dep_grants cat n dep L lu" using dep_grants_view [OF v(1) [symmetric]] by blast
    then show ?thesis using granted_library [OF stages g] by blast
  qed
  moreover have "require_scope_for_unit cat n = Inr \<lparr>rs_owner_unit = n, rs_modules = cu_module_index u\<rparr>"
    using assms(2) sc(2) by (simp add: require_scope_for_unit_def)
  ultimately show ?thesis using vi unfolding idx(1) by blast
qed

text \<open>A workspace with a package that declares a library with a public and a private module.\<close>

definition demo_unit :: "string \<Rightarrow> string \<Rightarrow> string list \<Rightarrow> unit_manifest_toml" where
  "demo_unit kind name deps =
     \<lparr>ut_kind = kind, ut_name = name, ut_persistence_class = None, ut_code_root = ''code'', ut_lib_deps = deps,
      ut_allowed_lib_deps = None, ut_event_deps = [], ut_library = None,
      ut_allow = (if kind = ''library'' then Some [''app''] else None), ut_exports = \<lparr>ex_public = [], ex_exact = False\<rparr>,
      ut_conformance = None\<rparr>"

definition demo_nodes :: "(string \<times> fs_node) list" where
  "demo_nodes =
     [(''/w/app'', FsDir (Some [])), (''/w/lib'', FsDir (Some [])),
      (''/w/app/code'', FsDir (Some [(''main.lua'', FsFile (Some []))])),
      (''/w/lib/code/public'', FsDir (Some [(''x.lua'', FsFile (Some []))])),
      (''/w/lib/code/private'', FsDir (Some [(''secret.lua'', FsFile (Some []))]))]"

definition demo_fs :: catalog_fs where
  "demo_fs =
     \<lparr>cf_stat = (\<lambda>p. case map_of demo_nodes p of None \<Rightarrow> StatAbsent | Some n \<Rightarrow> StatNode n),
      cf_exists = (\<lambda>p. p \<in> {''/w/app/fkst.toml'', ''/w/lib/fkst.toml''}), cf_is_dir = (\<lambda>_. True), cf_canonicalize = Some,
      cf_unit_toml = map_of [(''/w/app/fkst.toml'', demo_unit ''package'' ''app'' [''lib'']),
                             (''/w/lib/fkst.toml'', demo_unit ''library'' ''lib'' [])],
      cf_workspace_toml = (\<lambda>_. None)\<rparr>"

definition demo_sources :: source_env where
  "demo_sources =
     \<lparr>se_cache_root = ''/c'', se_export = (\<lambda>_ _ _. Inl (Bail ''git'' [])), se_remove = (\<lambda>_. Inr), se_move = (\<lambda>_ _. Inr),
      se_tag_rev = (\<lambda>_ _. Inl (Bail ''git'' [])), se_head_rev = (\<lambda>_ _. Inl (Bail ''git'' []))\<rparr>"

definition demo_catalog_run :: "manifest_error + unit_catalog \<times> catalog_fs" where
  "demo_catalog_run = from_workspace_inner demo_sources None demo_fs ''/w''
     \<lparr>ws_discovered_units = [''app'', ''lib''], ws_registries = t_empty, ws_external_sources = []\<rparr> True None [] t_empty"

definition demo_catalog :: unit_catalog where
  "demo_catalog = fst (projr demo_catalog_run)"

lemma demo_catalog_built:
  "\<exists>F'. from_workspace_inner demo_sources None demo_fs ''/w''
     \<lparr>ws_discovered_units = [''app'', ''lib''], ws_registries = t_empty, ws_external_sources = []\<rparr> True None [] t_empty =
     Inr (demo_catalog, F')"
proof -
  have "\<not> isl demo_catalog_run" by code_simp
  then have "demo_catalog_run = Inr (demo_catalog, snd (projr demo_catalog_run))"
    by (cases demo_catalog_run) (auto simp: demo_catalog_def)
  then show ?thesis by (auto simp: demo_catalog_run_def)
qed

theorem catalog_access_witness:
  "\<exists>u. t_get (uc_units demo_catalog) ''app'' = Some u \<and> t_get (cu_module_index u) ''secret'' = None \<and>
     (\<exists>e. t_get (cu_module_index u) ''lib.x'' = Some e \<and> me_provider_unit e = ''lib'' \<and> me_visibility e = PublicLibraryModule) \<and>
     (\<exists>L lu. dep_grants demo_catalog ''app'' ''lib'' L lu \<and> library_name lu = ''lib'')"
proof -
  have "case t_get (uc_units demo_catalog) ''app'' of None \<Rightarrow> False | Some u \<Rightarrow> t_get (cu_module_index u) ''secret'' = None \<and>
      t_get (cu_module_index u) ''lib.x'' = Some (module_entry_new ''lib'' ''/w/lib/code/public/x.lua'' PublicLibraryModule) \<and>
      um_lib_deps (cu_manifest u) = [''lib'']" by code_simp
  then obtain u where u: "t_get (uc_units demo_catalog) ''app'' = Some u" "t_get (cu_module_index u) ''secret'' = None"
    "t_get (cu_module_index u) ''lib.x'' = Some (module_entry_new ''lib'' ''/w/lib/code/public/x.lua'' PublicLibraryModule)"
    "um_lib_deps (cu_manifest u) = [''lib'']" by (auto split: option.splits)
  obtain F' where run: "from_workspace_inner demo_sources None demo_fs ''/w''
     \<lparr>ws_discovered_units = [''app'', ''lib''], ws_registries = t_empty, ws_external_sources = []\<rparr> True None [] t_empty =
     Inr (demo_catalog, F')" using demo_catalog_built by blast
  have "\<exists>L lu. dep_grants demo_catalog ''app'' ''lib'' L lu \<and> library_name lu = ''lib''"
    using catalog_access [OF run u(1)] u(4) by auto
  then show ?thesis using u by (auto simp: module_entry_new_def)
qed

end
