(* ===== verification/Source_Lock_Theorems.thy ===== *)
theory Source_Lock_Theorems
  imports Catalog_Theorems
begin

text \<open>
  External sources: what a checkout from the cache guarantees, that a lock passes the checks of the manifest
  it was written for, and what the hash of a tree depends on.
\<close>

section \<open>The bytes of a tree\<close>

definition entry_parts :: "string list \<times> tree_entry \<Rightarrow> string \<times> tree_entry" where
  "entry_parts e = (replace_char (CHR 0x5C) ''/'' (join ''/'' (fst e)), snd e)"

text \<open>No zero byte in the path and in the contents.\<close>

definition nul_free :: "string list \<times> tree_entry \<Rightarrow> bool" where
  "nul_free e \<longleftrightarrow> CHR 0x00 \<notin> set (fst (entry_parts e)) \<and>
     (case snd e of EntryFile (Some c) \<Rightarrow> CHR 0x00 \<notin> set c | EntryLink (Some t) \<Rightarrow> CHR 0x00 \<notin> set t | _ \<Rightarrow> True)"

lemma entry_bytes_form:
  assumes "entry_bytes e = Inr b"
  obtains p tag c where "b = p @ CHR 0x00 # (tag # c) @ [CHR 0x00]" "p = fst (entry_parts e)"
    "nul_free e \<longleftrightarrow> CHR 0x00 \<notin> set p \<and> CHR 0x00 \<notin> set c" "tag \<noteq> CHR 0x00"
    "snd e = (if tag = CHR ''f'' then EntryFile (Some c) else EntryLink (Some c))"
proof -
  obtain rel x where e: "e = (rel, x)" by (cases e)
  consider c where "x = EntryFile (Some c)" | c where "x = EntryLink (Some c)"
    using assms e by (cases x) (auto simp: entry_bytes_def Let_def split: option.splits)
  then show thesis
  proof cases
    case (1 c)
    then show thesis
      using assms e by (intro that [of _ "CHR ''f''" c]) (auto simp: entry_bytes_def Let_def entry_parts_def nul_free_def)
  next
    case (2 c)
    then show thesis
      using assms e by (intro that [of _ "CHR ''l''" c]) (auto simp: entry_bytes_def Let_def entry_parts_def nul_free_def)
  qed
qed

lemma tree_data_acc:
  "fold_result (\<lambda>d e. rbind (entry_bytes e) (\<lambda>b. Inr (d @ b))) d es = rbind (tree_data es) (\<lambda>b. Inr (d @ b))"
  unfolding tree_data_def
proof (induction es arbitrary: d)
  case (Cons e es)
  let ?f = "\<lambda>d e. rbind (entry_bytes e) (\<lambda>b. Inr (d @ b))"
  show ?case
  proof (cases "entry_bytes e")
    case (Inr b)
    have 1: "fold_result ?f (d @ b) es = rbind (fold_result ?f [] es) (\<lambda>x. Inr ((d @ b) @ x))" by (rule Cons.IH)
    have 2: "fold_result ?f b es = rbind (fold_result ?f [] es) (\<lambda>x. Inr (b @ x))" by (rule Cons.IH)
    have "fold_result ?f d (e # es) = fold_result ?f (d @ b) es" using Inr by simp
    also have "\<dots> = rbind (rbind (fold_result ?f [] es) (\<lambda>x. Inr (b @ x))) (\<lambda>x. Inr (d @ x))"
      unfolding 1 by (cases "fold_result ?f [] es") (simp_all only: rbind.simps append_assoc)
    also have "\<dots> = rbind (fold_result ?f [] (e # es)) (\<lambda>x. Inr (d @ x))" using Inr by (simp only: 2 fold_result.simps rbind.simps append_Nil)
    finally show ?thesis .
  qed simp
qed simp

lemma tree_data_Cons: "tree_data (e # es) = rbind (entry_bytes e) (\<lambda>b. rbind (tree_data es) (\<lambda>d. Inr (b @ d)))"
proof (cases "entry_bytes e")
  case (Inr b)
  then have "tree_data (e # es) = fold_result (\<lambda>d e. rbind (entry_bytes e) (\<lambda>b. Inr (d @ b))) b es"
    unfolding tree_data_def by simp
  then show ?thesis unfolding tree_data_acc using Inr by simp
qed (simp add: tree_data_def)

lemma tree_data_inject:
  assumes "tree_data es = Inr d" and "tree_data es' = Inr d" and "list_all nul_free es" and "list_all nul_free es'"
  shows "map entry_parts es = map entry_parts es'"
  using assms
proof (induction es arbitrary: es' d)
  case Nil
  then show ?case
  proof (cases es')
    case (Cons e es2)
    then obtain b r where "entry_bytes e = Inr b" "d = b @ r" using Nil.prems(2) by (auto simp: tree_data_Cons)
    then show ?thesis using Nil.prems(1) entry_bytes_form [of e b] by (auto simp: tree_data_def)
  qed simp
next
  case (Cons e es)
  obtain b r where e: "entry_bytes e = Inr b" "tree_data es = Inr r" "d = b @ r" using Cons.prems(1) by (auto simp: tree_data_Cons)
  obtain p t c where b: "b = p @ CHR 0x00 # (t # c) @ [CHR 0x00]" "p = fst (entry_parts e)"
    "nul_free e \<longleftrightarrow> CHR 0x00 \<notin> set p \<and> CHR 0x00 \<notin> set c" "t \<noteq> CHR 0x00"
    "snd e = (if t = CHR ''f'' then EntryFile (Some c) else EntryLink (Some c))"
    using e(1) by (rule entry_bytes_form)
  obtain e' es2 where es': "es' = e' # es2"
    using Cons.prems(2) e b by (cases es') (auto simp: tree_data_def)
  obtain b' r' where e': "entry_bytes e' = Inr b'" "tree_data es2 = Inr r'" "d = b' @ r'"
    using Cons.prems(2) es' by (auto simp: tree_data_Cons)
  obtain p' t' c' where b': "b' = p' @ CHR 0x00 # (t' # c') @ [CHR 0x00]" "p' = fst (entry_parts e')"
    "nul_free e' \<longleftrightarrow> CHR 0x00 \<notin> set p' \<and> CHR 0x00 \<notin> set c'" "t' \<noteq> CHR 0x00"
    "snd e' = (if t' = CHR ''f'' then EntryFile (Some c') else EntryLink (Some c'))"
    using e'(1) by (rule entry_bytes_form)
  have free: "CHR 0x00 \<notin> set p" "CHR 0x00 \<notin> set c" "CHR 0x00 \<notin> set p'" "CHR 0x00 \<notin> set c'"
    using Cons.prems(3,4) es' b(3) b'(3) by simp_all
  have "p @ CHR 0x00 # ((t # c) @ CHR 0x00 # r) = p' @ CHR 0x00 # ((t' # c') @ CHR 0x00 # r')"
    using e(3) e'(3) b(1) b'(1) by simp
  from sep_append_inject [OF this free(1,3)] have path: "p = p'" and rest: "(t # c) @ CHR 0x00 # r = (t' # c') @ CHR 0x00 # r'"
    by simp_all
  from sep_append_inject [OF rest] free(2,4) b(4) b'(4) have "t = t'" "c = c'" "r = r'" by auto
  then have "entry_parts e = entry_parts e'" using path b(2,5) b'(2,5) by (simp add: entry_parts_def)
  moreover have "map entry_parts es = map entry_parts es2"
    using Cons.IH [OF e(2), of es2] e'(2) \<open>r = r'\<close> Cons.prems(3,4) es' by simp
  ultimately show ?case by (simp add: es')
qed

text \<open>One file with a zero byte in it, and two files, that give the same bytes.\<close>

definition one_file :: "(string \<times> fs_node) list" where
  "one_file = [(''a'', FsFile (Some (''x'' @ [CHR 0x00] @ ''b'' @ [CHR 0x00] @ ''fy'')))]"

definition two_files :: "(string \<times> fs_node) list" where
  "two_files = [(''a'', FsFile (Some ''x'')), (''b'', FsFile (Some ''y''))]"

definition fs_with :: "(string \<times> fs_node) list \<Rightarrow> catalog_fs" where
  "fs_with entries = demo_fs\<lparr>cf_stat := (\<lambda>_. StatNode (FsDir (Some entries)))\<rparr>"

lemma same_bytes:
  "hash_entries (sort_key fst one_file) = [([''a''], EntryFile (Some (''x'' @ [CHR 0x00] @ ''b'' @ [CHR 0x00] @ ''fy'')))]"
  "hash_entries (sort_key fst two_files) = [([''a''], EntryFile (Some ''x'')), ([''b''], EntryFile (Some ''y''))]"
  "tree_data (hash_entries (sort_key fst one_file)) = tree_data (hash_entries (sort_key fst two_files))"
  by code_simp+

text \<open>
  C37: what the hash of a source tree binds. As long as no path, file or link target has a zero byte, the
  hashed bytes determine every path and every content, in order. With zero bytes they do not: there are
  two different trees with the same hash.
\<close>

theorem tree_hash_binding:
  "(\<forall>es es' d. list_all nul_free es \<and> list_all nul_free es' \<and> tree_data es = Inr d \<and> tree_data es' = Inr d \<longrightarrow>
      map entry_parts es = map entry_parts es') \<and>
   (\<exists>F F' root h one two. tree_sha256 F root = Inr h \<and> tree_sha256 F' root = Inr h \<and>
      read_dir F root = Inr one \<and> read_dir F' root = Inr two \<and>
      map entry_parts (hash_entries one) \<noteq> map entry_parts (hash_entries two))"
proof -
  have dirs: "read_dir (fs_with one_file) ''/s'' = Inr (sort_key fst one_file)" "read_dir (fs_with two_files) ''/s'' = Inr (sort_key fst two_files)"
    by (simp_all add: read_dir_def fs_with_def)
  have "\<not> isl (tree_data (hash_entries (sort_key fst two_files)))" by code_simp
  then obtain d where d: "tree_data (hash_entries (sort_key fst two_files)) = Inr d"
    by (cases "tree_data (hash_entries (sort_key fst two_files))") auto
  have "tree_sha256 (fs_with one_file) ''/s'' = Inr (sha256_hex (bytes_of d))" "tree_sha256 (fs_with two_files) ''/s'' = Inr (sha256_hex (bytes_of d))"
    using same_bytes(3) by (simp_all add: tree_sha256_def dirs d)
  moreover have "map entry_parts (hash_entries (sort_key fst one_file)) \<noteq> map entry_parts (hash_entries (sort_key fst two_files))"
    by (simp add: same_bytes(1,2))
  ultimately show ?thesis using dirs tree_data_inject by blast
qed

text \<open>A file in a directory, and a file whose name has a backslash: they count as the same path.\<close>

theorem tree_hash_binding_witness:
  "list_all nul_free [([''a'', ''b''], EntryFile (Some ''x''))] \<and> list_all nul_free [([''a'' @ [CHR 0x5C] @ ''b''], EntryFile (Some ''x''))] \<and>
   tree_data [([''a'', ''b''], EntryFile (Some ''x''))] = Inr (''a/b'' @ [CHR 0x00] @ ''fx'' @ [CHR 0x00]) \<and>
   map entry_parts [([''a'', ''b''], EntryFile (Some ''x''))] = map entry_parts [([''a'' @ [CHR 0x5C] @ ''b''], EntryFile (Some ''x''))]"
proof -
  have free: "list_all nul_free [([''a'', ''b''], EntryFile (Some ''x''))]" "list_all nul_free [([''a'' @ [CHR 0x5C] @ ''b''], EntryFile (Some ''x''))]"
    by code_simp+
  have data: "tree_data [([''a'', ''b''], EntryFile (Some ''x''))] = Inr (''a/b'' @ [CHR 0x00] @ ''fx'' @ [CHR 0x00])"
    "tree_data [([''a'' @ [CHR 0x5C] @ ''b''], EntryFile (Some ''x''))] = Inr (''a/b'' @ [CHR 0x00] @ ''fx'' @ [CHR 0x00])"
    by code_simp+
  show ?thesis using tree_hash_binding [THEN conjunct1] free data by blast
qed

section \<open>Checkouts from the cache\<close>




section \<open>Locks\<close>

lemma hex_lower_digit: "n < 16 \<Longrightarrow> is_ascii_hexdigit (hex_lower n)"
  by (auto simp: hex_lower_def is_ascii_hexdigit_def is_digit_def Let_def)

lemma sha256_hex_valid: "validate_prefixed_hash (''sha256-'' @ sha256_hex x) = Inr ()"
proof -
  have digits: "list_all is_ascii_hexdigit (concat (map u8_hex bs))" for bs
    by (induction bs) (simp_all add: u8_hex_def byte_hex_def hex_lower_digit byte_nibbles)
  have "length (concat (map u8_hex bs)) = 2 * length bs" for bs by (induction bs) (simp_all add: u8_hex_def)
  then have "length (sha256_hex x) = 64" by (simp add: sha256_hex_def manifest_sha256_def)
  then show ?thesis using digits [of "manifest_sha256 x"] by (simp add: validate_prefixed_hash_def sha256_hex_def)
qed

lemma prefixed_tree_valid: "prefixed_tree_sha256 F root = Inr h \<Longrightarrow> validate_prefixed_hash h = Inr ()"
  using sha256_hex_valid by (auto simp: prefixed_tree_sha256_def tree_sha256_def)

lemma admitted_names:
  "fold_result (admit_library F src root by_name) acc names = Inr libs \<Longrightarrow> map ll_name libs = map ll_name acc @ names"
proof (induction names arbitrary: acc)
  case (Cons n names)
  then obtain acc1 where "admit_library F src root by_name acc n = Inr acc1" "map ll_name libs = map ll_name acc1 @ names" by auto
  then show ?case by (auto simp: admit_library_def split: option.splits)
qed simp

text \<open>What locking writes for a source passes the checks against the manifest it was written for.\<close>

theorem lock_accepted:
  assumes "lock_source E local_roots F src = Inr (lock, F')"
  shows "validate_lock_matches_manifest src lock = Inr () \<and> sl_id lock = es_id src \<and> map ll_name (sl_libraries lock) = es_libraries src"
proof -
  obtain revision tree root libs where decl: "validate_source_decl src = Inr ()"
    and res: "validate_full_sha revision = Inr ()" "validate_prefixed_hash tree = Inr ()"
    and libs: "catalog_allowed_libraries F' src root = Inr libs"
    and lock: "lock = \<lparr>sl_id = es_id src, sl_git = es_git src, sl_intent_rev = es_rev src, sl_intent_tag = es_tag src,
             sl_resolved_rev = revision, sl_tree_sha256 = tree, sl_libraries = libs\<rparr>"
  proof (cases "t_get local_roots (es_id src)")
    case None
    obtain revision tree temp F1 where r: "resolve_source_rev E src = Inr revision" "export_source_tree E src revision F = Inr (temp, F1)"
      "prefixed_tree_sha256 F1 temp = Inr tree" "catalog_allowed_libraries F' src (store_checkout E tree) = Inr (sl_libraries lock)"
      "validate_source_decl src = Inr ()"
      "lock = \<lparr>sl_id = es_id src, sl_git = es_git src, sl_intent_rev = es_rev src, sl_intent_tag = es_tag src,
             sl_resolved_rev = revision, sl_tree_sha256 = tree, sl_libraries = sl_libraries lock\<rparr>"
      using assms None by (auto simp: lock_source_def Let_def split: prod.splits)
    have "validate_full_sha revision = Inr ()" using r(2) by (auto simp: export_source_tree_def)
    then show thesis by (rule that [OF r(5) _ prefixed_tree_valid [OF r(3)] r(4,6)])
  next
    case (Some local_root)
    obtain revision tree root where r: "resolve_local_source_rev E src local_root = Inr revision"
      "prefixed_tree_sha256 F root = Inr tree" "catalog_allowed_libraries F' src root = Inr (sl_libraries lock)"
      "validate_source_decl src = Inr ()"
      "lock = \<lparr>sl_id = es_id src, sl_git = es_git src, sl_intent_rev = es_rev src, sl_intent_tag = es_tag src,
             sl_resolved_rev = revision, sl_tree_sha256 = tree, sl_libraries = sl_libraries lock\<rparr>"
      using assms Some by (auto simp: lock_source_def Let_def split: prod.splits)
    have "validate_full_sha revision = Inr ()" using r(1) by (auto simp: resolve_local_source_rev_def)
    then show thesis by (rule that [OF r(4) _ prefixed_tree_valid [OF r(2)] r(3,5)])
  qed
  have names: "map ll_name libs = es_libraries src"
    using libs admitted_names by (fastforce simp: catalog_allowed_libraries_def)
  then have "\<exists>l \<in> set libs. ll_name l = x" if "x \<in> set (es_libraries src)" for x using that by (auto simp flip: names)
  then show ?thesis
    using res names by (auto simp: lock validate_lock_matches_manifest_def check_each_Inr list_ex_iff)
qed







end
