(* ===== verification/Spec2Isabelle.thy ===== *)
theory Spec2Isabelle
  imports Finality_Theorems Identity_Theorems Router_Theorems Startup_Theorems Messaging_Theorems Consumer_Theorems
    Source_Theorems Host_Theorems Codex_Theorems Observe_Theorems Graph_Theorems Supervisor_Theorems
    Source_Lock_Theorems
begin

text \<open>
  Verification of the supervised delivery runtime of fkst-substrate (\<open>src/crates/fkst-framework/src/supervise\<close>,
  with the declarations and the validation of \<open>src/crates/fkst-common/src\<close>) and of the host services its
  departments rely on: configuration, rate pools, name resolution, the catalog of units and codex runs
  (\<open>src/crates/fkst-framework/src\<close>).

  \<^bold>\<open>The program.\<close> Raisers (cron, file watchers) and departments produce events into named queues. The
  router looks up the subscribers of a queue in the startup graph, sends an event to ephemeral subscribers
  through bounded mailboxes and stores one durable delivery per reliable subscriber. One consumer per
  department leases due deliveries from the store, runs a child process for each, publishes what the child
  raises, and acknowledges, retries, defers or buries the delivery. Dead letters are redriven a bounded
  number of times and finally reported and suppressed. A child resolves queue names by package, waits for
  tokens of a shared rate pool and starts codex runs whose requests survive a restart: a second process
  adopts a live run or a finished result instead of starting the run again.

  \<^bold>\<open>Theories.\<close>
  \<^item> \<open>Fkst_Prelude\<close>: words with saturation, durations, results, text primitives, decimal and hex printing.
  \<^item> \<open>Ordered_Table\<close>: the tables of the database as sorted association lists; the locales \<open>ordered_table\<close>
    and \<open>secondary_index\<close> are the interfaces the store relies on, interpreted on these tables.
  \<^item> \<open>Delivery_Types\<close>, \<open>Delivery_Retry\<close>, \<open>Delivery_Index\<close>, \<open>Terminal_Suppression\<close>, \<open>Lineage_Index\<close>,
    \<open>Store_State\<close>, \<open>Delivery_Store\<close>, \<open>Delivery_Settlement\<close>: \<open>delivery_types.rs\<close>, \<open>delivery_retry.rs\<close>,
    \<open>delivery_index.rs\<close>, \<open>delivery_transition.rs\<close> and all of \<open>delivery_store.rs\<close>. The state is the record
    \<open>store_db\<close> of tables; an operation returns an error or the new state.
  \<^item> \<open>Store_Invariant\<close>, \<open>Store_Leases\<close>, \<open>Store_Compaction\<close>, \<open>Store_Dead\<close>, \<open>Store_Redrive\<close>,
    \<open>Store_Migration\<close>: the invariant \<open>store_inv\<close> (rows under their identities, derived tables exact,
    terminal identities suppressed) and that every operation and the migration keep it.
  \<^item> \<open>Transition_System\<close>, \<open>Store_Machine\<close>, \<open>Store_Lease_Spec\<close>, \<open>Store_Finality\<close>: the store as a labelled
    transition system, reachable states, what a step may do to a delivery. \<open>Store_Examples\<close> holds the
    databases of the witnesses.
  \<^item> \<open>Store_Theorems\<close>, \<open>Settlement_Theorems\<close>, \<open>Finality_Theorems\<close>: the properties of the store.
  \<^item> \<open>Startup_Config\<close>, \<open>Startup_Validation\<close>, \<open>Startup_Theorems\<close>: \<open>config.rs\<close>, \<open>built_in_provider.rs\<close> and
    \<open>validation.rs\<close>; the validation against a declarative notion of a well-formed graph.
  \<^item> \<open>Rust_Text\<close>, \<open>Sha256\<close>, \<open>Delivery_Identity\<close>, \<open>Identity_Injectivity\<close>, \<open>Identity_Theorems\<close>: the identities of
    deliveries (\<open>delivery_router.rs\<close>), with SHA-256 proved equal to the standard's description.
  \<^item> \<open>Queue_Starvation\<close>, \<open>Failure_Fact\<close>, \<open>Fingerprints\<close>, \<open>Supervisor_Journal\<close>, \<open>Event_Fanout\<close>,
    \<open>Raised_Frames\<close>, \<open>Messaging_Theorems\<close>: the files of these names (\<open>raised.rs\<close> and \<open>raise.rs\<close> for frames).
  \<^item> \<open>Delivery_Router\<close>, \<open>Router_Properties\<close>, \<open>Router_Theorems\<close>: \<open>delivery_router.rs\<close> and the watchdog of
    \<open>delivery_watch.rs\<close>. An operation returns the new router also when it fails, because what it enqueued
    before the error stays.
  \<^item> \<open>Path_Glob\<close>, \<open>Source_Runner\<close>, \<open>Source_Theorems\<close>: \<open>source_runner.rs\<close>; the glob matcher against a
    reference semantics, the duration parser against the one of the validation, cron slots.
  \<^item> \<open>Consumer\<close>, \<open>Consumer_Loop\<close>, \<open>Consumer_Properties\<close>, \<open>Consumer_Machine\<close>, \<open>Consumer_Theorems\<close>:
    \<open>consumer.rs\<close>, with the lock-busy line of \<open>sdk_git.rs\<close>. The handlers are functions on the router;
    \<open>consumer_step\<close> interleaves the arms of the loop with the output and the end of running children, and
    \<open>system_step\<close> adds the moves of everybody else on the shared store. Every handler moves the store by
    a run of its own operations (\<open>router_moves\<close>), so the theorems of the store hold across components.
  \<^item> \<open>Config_Registry\<close>, \<open>Rate_Pool\<close>, \<open>Name_Resolver\<close>, \<open>Host_Theorems\<close>: \<open>config_registry.rs\<close>,
    \<open>rate_pool.rs\<close> and the \<open>NameResolver\<close> of \<open>path_resolver.rs\<close>. The locale \<open>meter\<close> is the interface of a
    token ledger, interpreted as \<open>bucket\<close> on the pool's file; its bound on what any window of time grants
    is amortised over the fractional remainder the ledger keeps.
  \<^item> \<open>Codex_Adoption\<close>, \<open>Codex_Machine\<close>, \<open>Codex_Theorems\<close>: the adoption protocol of \<open>sdk_codex.rs\<close>, the error
    classes of \<open>boundary_resource.rs\<close> and the quoting of \<open>external_command.rs\<close>. An operation is a plan of
    writes on the adoption directory; \<open>adoption_step\<close> interleaves the plans of several processes with
    crashes, and \<open>adoption\<close> interprets the locale of inductive invariants on it.
  \<^item> \<open>Delivery_Observe\<close>, \<open>Observe_Theorems\<close>: \<open>delivery_observe.rs\<close>, \<open>observe.rs\<close>, the request handler of
    \<open>observe_server.rs\<close> and \<open>manifest_hash.rs\<close>: snapshots, pages, windows and lineage of a store, cursors, and
    the choice between the live socket and the offline store. Following the cursors lists every dead
    letter once and in order, and the counts of a snapshot are those of the tables.
  \<^item> \<open>Package_Roots\<close>, \<open>Graph_Scan\<close>, \<open>Graph_Theorems\<close>: the \<open>PackageRoots\<close> of \<open>path_resolver.rs\<close> and
    \<open>graph_scan.rs\<close>, from the listings of the directories and the values of the Lua modules to the startup
    graph. The seams between packages hold in every scanned graph, and the validation never rejects one
    for a missing or isolated queue.
  \<^item> \<open>Supervisor_Start\<close>, \<open>Supervisor_Theorems\<close>: the start of \<open>supervise/mod.rs\<close> with the layouts of
    \<open>durable_layout.rs\<close> and \<open>runtime_layout.rs\<close>. It composes the scan, the validation, the migration, the
    rebinding, the sweep and the start of consumers and raisers: what starts is a reachable store whose
    deliveries belong to their current subscribers.
  \<^item> \<open>Unit_Manifest\<close>, \<open>External_Sources\<close>, \<open>Unit_Catalog\<close>, \<open>Catalog_Theorems\<close>, \<open>Source_Lock_Theorems\<close>: \<open>manifest.rs\<close> with
    \<open>manifest_modules.rs\<close>, \<open>manifest_exports.rs\<close>, \<open>manifest_workspace.rs\<close> and \<open>manifest_external.rs\<close>. A file system is a
    record of answers with finite trees below a directory. The catalog lets a unit require exactly its own
    modules and the public modules of libraries that admit it; a checkout has the tree, the exports and
    the libraries of its lock; the hashed bytes determine a tree only if it has no zero bytes.

  \<^bold>\<open>Loops and bounds.\<close> Loops over collections are structural recursions. The probing of the suppression
  table is bounded by its number of slots. The glob matcher is a while loop whose end is proved. The waiting
  loop of a rate pool is a partial function into \<open>option\<close>, and that it returns is proved from the bound
  on its attempts. Following the pages of an observation is bounded by a number of requests; one
  more than there are dead letters is proved to be enough. No other fuel is used. Words are 64 bit;
  saturation and wrap-around are written out; \<open>usize\<close> is 64 bit.

  \<^bold>\<open>Parameters.\<close> Third-party code and the outside world are arguments: the base64 alphabet of lineage keys
  with \<open>segment_encoding\<close>, the hasher of the jitter, the codecs of raised frames and of
  observation cursors with \<open>codec_ok\<close>, the size of a serialised payload, directory listings and what Lua
  modules evaluate to, clocks, tokens, the process environment, path canonicalisation, the file
  system with the outcome of each write, and the child process.

  \<^bold>\<open>Not modelled.\<close> Process spawning and process groups, signals and tear-down, the directory walk of the file
  watcher, the socket I/O and the printing of observations, the Lua interpreter and its bindings, the decoding of
  TOML, git, the spawning of codex and the reading of its output, its permits, status listing and
  log retention, command-line tools and test runners.
\<close>

end
